(* ===== verification/Prelude.thy ===== *)
theory Prelude
  imports Complex_Main "HOL-Library.AList" "HOL-Library.Sublist"
begin

section \<open>Shared vocabulary: Python values, dictionaries, strings and slices\<close>

text \<open>
  What every component of the model shares. A Python \<open>dict\<close> keeps insertion order: it
  is an association list with distinct keys, written with \<^const>\<open>AList.update\<close>
  (overwrites in place, appends a new key at the end) and \<^const>\<open>AList.delete\<close>. The
  dynamic values of \<open>dict[str, Any]\<close> payloads are the datatype \<open>pyval\<close>; a Python
  \<open>float\<close> is idealised as an exact rational throughout (no rounding, no NaN), a Python
  \<open>int\<close> is \<^typ>\<open>int\<close>, and a \<open>str\<close> is a list of characters. The clock
  (\<open>time.time()\<close>, \<open>datetime.now\<close>) is an argument of each operation that reads it.
\<close>

named_theorems store_simps \<open>lookup laws of the stores\<close>
named_theorems inv_intros \<open>preservation of the components' invariants\<close>

subsection \<open>Dictionaries\<close>

type_synonym ('k, 'v) dict = "('k \<times> 'v) list"

abbreviation dict_get :: "('k, 'v) dict \<Rightarrow> 'k \<Rightarrow> 'v option" where
  "dict_get d k \<equiv> map_of d k"

abbreviation dict_set :: "('k, 'v) dict \<Rightarrow> 'k \<Rightarrow> 'v \<Rightarrow> ('k, 'v) dict" where
  "dict_set d k v \<equiv> AList.update k v d"

abbreviation dict_pop :: "('k, 'v) dict \<Rightarrow> 'k \<Rightarrow> ('k, 'v) dict" where
  "dict_pop d k \<equiv> AList.delete k d"

abbreviation dict_ok :: "('k, 'v) dict \<Rightarrow> bool" where
  "dict_ok d \<equiv> distinct (map fst d)"

abbreviation dict_has :: "('k, 'v) dict \<Rightarrow> 'k \<Rightarrow> bool" where
  "dict_has d k \<equiv> dict_get d k \<noteq> None"

definition dict_get_or :: "('k, 'v) dict \<Rightarrow> 'k \<Rightarrow> 'v \<Rightarrow> 'v" where
  "dict_get_or d k dflt = (case dict_get d k of None \<Rightarrow> dflt | Some v \<Rightarrow> v)"

definition dict_values :: "('k, 'v) dict \<Rightarrow> 'v list" where
  "dict_values d = map snd d"

lemma dict_get_set [simp, store_simps]:
  "dict_get (dict_set d k v) k' = (if k' = k then Some v else dict_get d k')"
  by (simp add: update_conv')

lemma dict_get_pop [simp, store_simps]:
  "dict_get (dict_pop d k) k' = (if k' = k then None else dict_get d k')"
  by (simp add: delete_conv' fun_upd_def)

lemma dict_ok_set [simp, intro]: "dict_ok d \<Longrightarrow> dict_ok (dict_set d k v)"
  by (rule distinct_update)

lemma dict_ok_pop [simp, intro]: "dict_ok d \<Longrightarrow> dict_ok (dict_pop d k)"
  by (rule distinct_delete)

lemma dict_get_or_set [simp]:
  "dict_get_or (dict_set d k v) k' w = (if k' = k then v else dict_get_or d k' w)"
  by (simp add: dict_get_or_def)

lemma dict_get_or_empty [simp]: "dict_get_or [] k w = w"
  by (simp add: dict_get_or_def)

lemma dict_get_mem: "dict_get d k = Some v \<Longrightarrow> (k, v) \<in> set d"
  by (rule map_of_SomeD)

lemma dict_values_get:
  "dict_ok d \<Longrightarrow> v \<in> set (dict_values d) \<longleftrightarrow> (\<exists>k. dict_get d k = Some v)"
  by (force simp: dict_values_def)

lemma dict_set_fresh: "dict_get d k = None \<Longrightarrow> dict_set d k v = d @ [(k, v)]"
  by (induction d) auto

lemma dict_pop_fresh: "dict_get d k = None \<Longrightarrow> dict_pop d k = d"
  by (induction d) (auto split: if_splits simp: AList.delete_eq)

lemma length_dict_set:
  "length (dict_set d k v) = (if dict_has d k then length d else Suc (length d))"
  by (induction d) auto

lemma dict_keys_filter_ok: "dict_ok d \<Longrightarrow> dict_ok (filter P d)"
  by (induction d) auto

lemma dict_get_filter:
  "dict_ok d \<Longrightarrow>
   dict_get (filter (\<lambda>(k, v). P k v) d) k =
     (case dict_get d k of None \<Rightarrow> None | Some v \<Rightarrow> if P k v then Some v else None)"
  by (induction d) (auto split: option.splits simp: map_of_eq_None_iff image_iff)

subsection \<open>Strings and slices\<close>

text \<open>\<open>p in s\<close> for strings.\<close>

fun str_in :: "string \<Rightarrow> string \<Rightarrow> bool" where
  "str_in p [] = (p = [])"
| "str_in p (c # cs) = (prefix p (c # cs) \<or> str_in p cs)"

lemma str_in_sublist: "str_in p s \<longleftrightarrow> sublist p s"
  by (induction s) (auto simp: sublist_Cons_right)

lemma str_in_append: "str_in p s \<Longrightarrow> str_in p (u @ s @ w)"
  by (metis str_in_sublist sublist_appendI sublist_order.order.trans)

definition any_in :: "string list \<Rightarrow> string \<Rightarrow> bool" where
  "any_in ps s = (\<exists>p \<in> set ps. str_in p s)"

text \<open>\<open>str.lower()\<close> on ASCII letters.\<close>

definition lower_char :: "char \<Rightarrow> char" where
  "lower_char c =
     (let n = (of_char c :: nat) in if 65 \<le> n \<and> n \<le> 90 then char_of (n + 32) else c)"

definition lower :: "string \<Rightarrow> string" where
  "lower s = map lower_char s"

lemma lower_char_idem: "lower_char (lower_char c) = lower_char c"
  by (auto simp: lower_char_def Let_def)

lemma lower_idem [simp]: "lower (lower s) = lower s"
  by (simp add: lower_def lower_char_idem)

lemma length_lower [simp]: "length (lower s) = length s"
  by (simp add: lower_def)

text \<open>\<open>str.strip()\<close> on ASCII white space.\<close>

definition is_space :: "char \<Rightarrow> bool" where
  "is_space c = (let n = (of_char c :: nat) in n = 32 \<or> (9 \<le> n \<and> n \<le> 13) \<or> (28 \<le> n \<and> n \<le> 31))"

definition strip :: "string \<Rightarrow> string" where
  "strip s = rev (dropWhile is_space (rev (dropWhile is_space s)))"

text \<open>
  \<open>int(s)\<close> for ASCII text: white space around, an optional sign, and decimal digits with single
  underscores between them; \<^const>\<open>None\<close> is the \<open>ValueError\<close>.
\<close>

definition is_digit :: "char \<Rightarrow> bool" where
  "is_digit c = (let n = (of_char c :: nat) in 48 \<le> n \<and> n \<le> 57)"

definition digit_val :: "char \<Rightarrow> nat" where
  "digit_val c = of_char c - 48"

fun digits_val :: "nat \<Rightarrow> bool \<Rightarrow> string \<Rightarrow> nat option" where
  "digits_val acc after_digit [] = (if after_digit then Some acc else None)"
| "digits_val acc after_digit (c # cs) =
     (if is_digit c then digits_val (acc * 10 + digit_val c) True cs
      else if c = CHR ''_'' \<and> after_digit then digits_val acc False cs
      else None)"

definition py_int :: "string \<Rightarrow> int option" where
  "py_int s =
     (case strip s of
        [] \<Rightarrow> None
      | c # cs \<Rightarrow>
          if c = CHR ''-'' then map_option (\<lambda>n. - int n) (digits_val 0 False cs)
          else if c = CHR ''+'' then map_option int (digits_val 0 False cs)
          else map_option int (digits_val 0 False (c # cs)))"

text \<open>\<open>xs[-n:]\<close> for any integer \<open>n\<close> (Python slices \<open>xs[0:]\<close> when \<open>n = 0\<close>, and
  \<open>xs[m:]\<close> when \<open>n = -m\<close> is negative).\<close>

definition last_slice :: "int \<Rightarrow> 'a list \<Rightarrow> 'a list" where
  "last_slice n xs =
     (if n \<le> 0 then drop (nat (- n)) xs
      else drop (length xs - nat n) xs)"

text \<open>\<open>xs[i:j]\<close>: a negative bound counts from the end, and both are clamped to the list.\<close>

definition slice_bound :: "nat \<Rightarrow> int \<Rightarrow> nat" where
  "slice_bound n i = (if i < 0 then nat (i + int n) else min n (nat i))"

definition py_slice :: "int \<Rightarrow> int \<Rightarrow> 'a list \<Rightarrow> 'a list" where
  "py_slice i j xs =
     (let a = slice_bound (length xs) i; b = slice_bound (length xs) j
      in take (b - a) (drop a xs))"

lemma set_last_slice: "set (last_slice n xs) \<subseteq> set xs"
  by (auto simp: last_slice_def dest: in_set_dropD)

lemma length_last_slice: "0 < n \<Longrightarrow> length (last_slice n xs) = min (nat n) (length xs)"
  by (simp add: last_slice_def)

lemma set_py_slice: "set (py_slice i j xs) \<subseteq> set xs"
  by (auto simp: py_slice_def Let_def dest: in_set_takeD in_set_dropD)

lemma in_py_slice: "x \<in> set (py_slice i j xs) \<Longrightarrow> x \<in> set xs"
  using set_py_slice by fast

lemma length_py_slice: "0 \<le> i \<Longrightarrow> i \<le> j \<Longrightarrow> length (py_slice i j xs) \<le> nat (j - i)"
  by (auto simp: py_slice_def slice_bound_def Let_def min_def nat_diff_distrib)

lemma py_slice_tail:
  "0 \<le> i \<Longrightarrow> int (length xs) \<le> j \<Longrightarrow> py_slice i j xs = drop (nat i) xs"
  by (cases "nat i \<le> length xs") (simp_all add: py_slice_def slice_bound_def Let_def min_def)

text \<open>\<open>str(n)\<close> of a natural number: its decimal digits.\<close>

fun show_nat :: "nat \<Rightarrow> string" where
  "show_nat n = (if n < 10 then [char_of (48 + n)] else show_nat (n div 10) @ [char_of (48 + n mod 10)])"

declare show_nat.simps [simp del]

lemma show_nat_small: "n < 10 \<Longrightarrow> show_nat n = [char_of (48 + n)]"
  by (subst show_nat.simps) simp

lemma show_nat_big: "\<not> n < 10 \<Longrightarrow> show_nat n = show_nat (n div 10) @ [char_of (48 + n mod 10)]"
  by (subst show_nat.simps) simp

lemma show_nat_nonempty [simp]: "show_nat n \<noteq> []"
  by (cases "n < 10") (simp_all add: show_nat_small show_nat_big)

lemmas show_nat_nonempty' [simp] = show_nat_nonempty [symmetric]

lemma digit_char_inj:
  fixes a b :: nat
  assumes eq: "char_of (48 + a) = (char_of (48 + b) :: char)" and "a < 10" "b < 10"
  shows "a = b"
proof -
  from eq have "of_char (char_of (48 + a) :: char) = (of_char (char_of (48 + b) :: char) :: nat)"
    by (rule arg_cong)
  then have "(48 + a) mod 256 = (48 + b) mod 256" by (simp only: of_char_of)
  with assms(2,3) show ?thesis by simp
qed

lemma show_nat_inj: "show_nat m = show_nat n \<Longrightarrow> m = n"
proof (induction m arbitrary: n rule: less_induct)
  case (less m)
  show ?case
  proof (cases "m < 10")
    case True
    with less.prems have n: "n < 10" by (cases "n < 10") (simp_all add: show_nat_small show_nat_big)
    with True less.prems show ?thesis by (auto simp: show_nat_small intro: digit_char_inj)
  next
    case False
    with less.prems have n: "\<not> n < 10" by (cases "n < 10") (simp_all add: show_nat_small show_nat_big)
    from less.prems have "show_nat (m div 10) = show_nat (n div 10)"
      and c: "char_of (48 + m mod 10) = (char_of (48 + n mod 10) :: char)"
      by (simp_all add: show_nat_big[OF False] show_nat_big[OF n])
    with False have "m div 10 = n div 10" by (intro less.IH) simp_all
    moreover from c have "m mod 10 = n mod 10" by (rule digit_char_inj) simp_all
    ultimately show ?thesis by (metis div_mult_mod_eq)
  qed
qed

lemma show_nat_1: "show_nat (Suc 0) = ''1''"
  by (simp add: show_nat_small char_of_def bit_Suc_0_iff)

definition show_int :: "int \<Rightarrow> string" where
  "show_int i = (if i < 0 then CHR ''-'' # show_nat (nat (- i)) else show_nat (nat i))"

text \<open>\<open>sep.join(parts)\<close>.\<close>

fun join_with :: "string \<Rightarrow> string list \<Rightarrow> string" where
  "join_with sep [] = []"
| "join_with sep [s] = s"
| "join_with sep (s # t # ss) = s @ sep @ join_with sep (t # ss)"

subsection \<open>Lists\<close>

lemma length_filter_mono:
  "(\<And>x. x \<in> set xs \<Longrightarrow> P x \<Longrightarrow> Q x) \<Longrightarrow> length (filter P xs) \<le> length (filter Q xs)"
  by (induction xs) (auto simp: le_SucI)

lemma length_filter_eq_all: "length (filter P xs) < length xs \<longleftrightarrow> \<not> (\<forall>x \<in> set xs. P x)"
  using length_filter_less[of _ xs P] filter_True[of xs P] by fastforce

lemma filter_takeWhile_sorted:
  fixes xs :: "'a :: linorder list"
  assumes "sorted xs"
  shows "dropWhile (\<lambda>x. x < c) xs = filter (\<lambda>x. \<not> x < c) xs"
  using assms
proof (induction xs)
  case Nil
  then show ?case by simp
next
  case (Cons a xs)
  show ?case
  proof (cases "a < c")
    case True
    with Cons show ?thesis by simp
  next
    case False
    with Cons.prems have "\<forall>x \<in> set xs. \<not> x < c" by fastforce
    with False show ?thesis by (simp add: filter_id_conv)
  qed
qed

end
