(* ===== verification/Interfaces.thy ===== *)
theory Interfaces
  imports Prelude
begin

section \<open>The contracts between components\<close>

text \<open>
  Each locale is the contract a client component relies on and a provider component
  discharges: a keyed store (dictionaries of records), a store with compare-and-swap
  updates, a mutual-exclusion service with leases, and a window limiter.
\<close>

subsection \<open>A keyed store\<close>

text \<open>
  The records carry their own key (\<open>record.id\<close>, \<open>resource.id\<close>, \<open>user.id\<close>), so \<open>put\<close> takes
  only the record.
\<close>

locale keyed_store =
  fixes get :: "'s \<Rightarrow> 'k \<Rightarrow> 'v option"
    and put :: "'s \<Rightarrow> 'v \<Rightarrow> 's"
    and del :: "'s \<Rightarrow> 'k \<Rightarrow> 's"
    and key_of :: "'v \<Rightarrow> 'k"
    and inv :: "'s \<Rightarrow> bool"
  assumes get_put: "inv s \<Longrightarrow> get (put s v) k = (if k = key_of v then Some v else get s k)"
    and get_del: "inv s \<Longrightarrow> get (del s k) k' = (if k' = k then None else get s k')"
    and inv_put: "inv s \<Longrightarrow> inv (put s v)"
    and inv_del: "inv s \<Longrightarrow> inv (del s k)"
begin

lemma get_put_same: "inv s \<Longrightarrow> get (put s v) (key_of v) = Some v"
  by (simp add: get_put)

lemma get_put_other: "inv s \<Longrightarrow> k \<noteq> key_of v \<Longrightarrow> get (put s v) k = get s k"
  by (simp add: get_put)

lemma last_put_wins:
  "inv s \<Longrightarrow> key_of v = key_of w \<Longrightarrow> get (put (put s v) w) k = get (put s w) k"
  by (simp add: get_put inv_put)

lemma puts_commute:
  "inv s \<Longrightarrow> key_of v \<noteq> key_of w \<Longrightarrow> get (put (put s v) w) k = get (put (put s w) v) k"
  by (simp add: get_put inv_put)

lemma del_after_put: "inv s \<Longrightarrow> get (del (put s v) (key_of v)) k = get (del s (key_of v)) k"
  by (simp add: get_put get_del inv_put)

text \<open>A sequence of puts leaves at each key the last record written there.\<close>

definition puts :: "'s \<Rightarrow> 'v list \<Rightarrow> 's" where
  "puts s vs = foldl put s vs"

lemma inv_puts: "inv s \<Longrightarrow> inv (puts s vs)"
  by (induction vs arbitrary: s) (simp_all add: puts_def inv_put)

lemma get_puts:
  "inv s \<Longrightarrow> get (puts s vs) k =
     (case find (\<lambda>v. key_of v = k) (rev vs) of None \<Rightarrow> get s k | Some v \<Rightarrow> Some v)"
proof (induction vs rule: rev_induct)
  case Nil
  then show ?case by (simp add: puts_def)
next
  case (snoc v vs)
  have "puts s (vs @ [v]) = put (puts s vs) v" by (simp add: puts_def)
  with snoc show ?case by (auto simp: get_put inv_puts)
qed

end

subsection \<open>A store with compare-and-swap\<close>

text \<open>
  \<open>cas s k e f\<close> updates the record at \<open>k\<close> by \<open>f\<close> when its version is \<open>e\<close>; a missing key or
  another version is an error and leaves the store alone.
\<close>

locale cas_store = keyed_store get put del key_of inv
  for get :: "'s \<Rightarrow> 'k \<Rightarrow> 'v option"
    and put :: "'s \<Rightarrow> 'v \<Rightarrow> 's"
    and del :: "'s \<Rightarrow> 'k \<Rightarrow> 's"
    and key_of :: "'v \<Rightarrow> 'k"
    and inv :: "'s \<Rightarrow> bool" +
  fixes version_of :: "'v \<Rightarrow> int"
    and cas :: "'s \<Rightarrow> 'k \<Rightarrow> int \<Rightarrow> 'f \<Rightarrow> 's \<times> ('e + 'v)"
  assumes cas_missing: "inv s \<Longrightarrow> get s k = None \<Longrightarrow> \<exists>e. cas s k n f = (s, Inl e)"
    and cas_stale: "inv s \<Longrightarrow> get s k = Some r \<Longrightarrow> version_of r \<noteq> n \<Longrightarrow> \<exists>e. cas s k n f = (s, Inl e)"
    and cas_commit: "inv s \<Longrightarrow> cas s k n f = (s', Inr r') \<Longrightarrow>
      s' = put s r' \<and> key_of r' = k \<and> version_of r' = n + 1"
    and cas_abort: "inv s \<Longrightarrow> cas s k n f = (s', Inl e) \<Longrightarrow> s' = s"
begin

lemma cas_inv: "inv s \<Longrightarrow> inv (fst (cas s k n f))"
proof -
  assume i: "inv s"
  obtain s' res where c: "cas s k n f = (s', res)" by (cases "cas s k n f")
  show ?thesis
  proof (cases res)
    case (Inl e)
    with c i show ?thesis using cas_abort[of s k n f s' e] by simp
  next
    case (Inr r')
    with c i show ?thesis using cas_commit[of s k n f s' r'] inv_put[OF i] by simp
  qed
qed

lemma cas_success_version:
  assumes "inv s" and "cas s k n f = (s', Inr r')"
  shows "\<exists>r. get s k = Some r \<and> version_of r = n"
proof (cases "get s k")
  case None
  with assms show ?thesis using cas_missing[of s k n f] by auto
next
  case (Some r)
  then show ?thesis
    using assms cas_stale[of s k r n f] by (cases "version_of r = n") auto
qed

text \<open>No lost update: of two writers holding the same version, the second one fails.\<close>

lemma cas_no_lost_update:
  assumes i: "inv s" and c1: "cas s k n f = (s1, Inr r1)"
  shows "\<exists>e. cas s1 k n g = (s1, Inl e)"
proof -
  from cas_commit[OF i c1] have s1: "s1 = put s r1" and kv: "key_of r1 = k" and v: "version_of r1 = n + 1" by auto
  from i have "inv s1" by (simp add: s1 inv_put)
  moreover have "get s1 k = Some r1" using i kv by (simp add: s1 get_put)
  ultimately show ?thesis using cas_stale[of s1 k r1 n g] v by auto
qed

text \<open>Versions only grow along any sequence of compare-and-swap attempts.\<close>

definition version_at :: "'s \<Rightarrow> 'k \<Rightarrow> int" where
  "version_at s k = (case get s k of None \<Rightarrow> 0 | Some r \<Rightarrow> version_of r)"

lemma cas_version_step:
  assumes i: "inv s"
  shows "version_at s j \<le> version_at (fst (cas s k n f)) j"
proof -
  obtain s' res where c: "cas s k n f = (s', res)" by (cases "cas s k n f")
  show ?thesis
  proof (cases res)
    case (Inl e)
    with c i show ?thesis using cas_abort[of s k n f s' e] by simp
  next
    case (Inr r')
    with c i have s': "s' = put s r'" and kv: "key_of r' = k" and v: "version_of r' = n + 1"
      using cas_commit[of s k n f s' r'] by auto
    from c Inr i obtain r where "get s k = Some r" "version_of r = n"
      using cas_success_version[of s k n f s' r'] by auto
    with i c v kv show ?thesis by (simp add: version_at_def s' get_put)
  qed
qed

fun cas_run :: "'s \<Rightarrow> ('k \<times> int \<times> 'f) list \<Rightarrow> 's" where
  "cas_run s [] = s"
| "cas_run s ((k, n, f) # ops) = cas_run (fst (cas s k n f)) ops"

lemma cas_run_versions:
  "inv s \<Longrightarrow> inv (cas_run s ops) \<and> version_at s j \<le> version_at (cas_run s ops) j"
proof (induction s ops rule: cas_run.induct)
  case (1 s)
  then show ?case by simp
next
  case (2 s k n f ops)
  from "2.prems" have "inv (fst (cas s k n f))" by (rule cas_inv)
  then show ?case using "2.IH" cas_version_step[OF "2.prems", of j k n f] by fastforce
qed

text \<open>
  Of any number of attempts on one record with the same expected version, at most one
  commits, in whatever order they run.
\<close>

fun commits :: "'s \<Rightarrow> 'k \<Rightarrow> int \<Rightarrow> 'f list \<Rightarrow> nat" where
  "commits s k n [] = 0"
| "commits s k n (f # fs) =
     (case cas s k n f of (s', res) \<Rightarrow>
        (case res of Inl e \<Rightarrow> 0 | Inr r \<Rightarrow> 1) + commits s' k n fs)"

lemma commits_stale:
  "inv s \<Longrightarrow> get s k = Some r \<Longrightarrow> version_of r \<noteq> n \<Longrightarrow> commits s k n fs = 0"
proof (induction fs)
  case Nil
  then show ?case by simp
next
  case (Cons f fs)
  then show ?case using cas_stale[of s k r n f] by auto
qed

lemma commits_at_most_one: "inv s \<Longrightarrow> commits s k n fs \<le> 1"
proof (induction fs arbitrary: s)
  case Nil
  then show ?case by simp
next
  case (Cons f fs)
  obtain s' res where c: "cas s k n f = (s', res)" by (cases "cas s k n f")
  show ?case
  proof (cases res)
    case (Inl e)
    with c Cons show ?thesis using cas_abort[of s k n f s' e] by simp
  next
    case (Inr r')
    with c Cons.prems have "s' = put s r'" "key_of r' = k" "version_of r' = n + 1"
      using cas_commit[of s k n f s' r'] by auto
    with Cons.prems have "commits s' k n fs = 0"
      by (intro commits_stale[of s' k r']) (simp_all add: get_put inv_put)
    with c Inr show ?thesis by simp
  qed
qed

end

subsection \<open>Sliding-window limiters\<close>

text \<open>
  The contract of a limiter that keeps a log of the admitted requests per key: a check at time
  \<open>now\<close> admits the request when fewer than \<open>limit\<close> entries of the key are at most \<open>window\<close> old,
  it then records \<open>now\<close>, and no entry that is still in the window is lost, of this key or any
  other. From this contract the limiter's decisions are those of the reference function
  \<open>window_spec\<close>, which looks only at the history of admitted requests.
\<close>

fun window_spec :: "int \<Rightarrow> rat \<Rightarrow> ('k \<times> rat) list \<Rightarrow> ('k \<times> rat) list \<Rightarrow> bool list" where
  "window_spec limit window h [] = []"
| "window_spec limit window h ((k, t) # rs) =
     (let ok = int (length (filter (\<lambda>e. fst e = k \<and> t - window \<le> snd e) h)) < limit
      in ok # window_spec limit window (if ok then h @ [(k, t)] else h) rs)"

text \<open>The requests of key \<open>k\<close> admitted in \<open>[T - window, T]\<close>.\<close>

definition admitted_between ::
  "'k \<Rightarrow> rat \<Rightarrow> rat \<Rightarrow> ('k \<times> rat) list \<Rightarrow> bool list \<Rightarrow> ('k \<times> rat) list" where
  "admitted_between k lo hi rs ds =
     map fst (filter (\<lambda>((k', t), ok). ok \<and> k' = k \<and> lo \<le> t \<and> t \<le> hi) (zip rs ds))"

definition window_count :: "'k \<Rightarrow> rat \<Rightarrow> rat \<Rightarrow> ('k \<times> rat) list \<Rightarrow> int" where
  "window_count k lo hi h = int (length (filter (\<lambda>e. fst e = k \<and> lo \<le> snd e \<and> snd e \<le> hi) h))"

lemma window_spec_bound_aux:
  assumes "sorted (map snd rs)" and "\<forall>e \<in> set h. \<forall>r \<in> set rs. snd e \<le> snd r"
    and "\<And>T. window_count k (T - window) T h \<le> limit" and "0 \<le> window"
  shows "window_count k (T - window) T h +
    int (length (admitted_between k (T - window) T rs (window_spec limit window h rs))) \<le> limit"
  using assms(1-3)
proof (induction rs arbitrary: h)
  case Nil
  then show ?case by (simp add: admitted_between_def)
next
  case (Cons r rs)
  obtain k0 t where r: "r = (k0, t)" by (cases r)
  define ok where "ok \<longleftrightarrow> int (length (filter (\<lambda>e. fst e = k0 \<and> t - window \<le> snd e) h)) < limit"
  let ?h = "if ok then h @ [(k0, t)] else h"
  have spec: "window_spec limit window h (r # rs) = ok # window_spec limit window ?h rs"
    by (simp add: r ok_def Let_def)
  have late: "\<forall>e \<in> set h. snd e \<le> t" using Cons.prems(2) r by auto
  have count: "window_count k (T' - window) T' ?h \<le> limit" for T'
  proof (cases "ok \<and> k0 = k \<and> t \<le> T'")
    case True
    have "window_count k (T' - window) T' h \<le>
        int (length (filter (\<lambda>e. fst e = k \<and> t - window \<le> snd e) h))"
      using True unfolding window_count_def
      by (intro of_nat_mono length_filter_mono) auto
    with True show ?thesis by (auto simp: window_count_def ok_def)
  next
    case False
    with Cons.prems(3)[of T'] show ?thesis by (auto simp: window_count_def)
  qed
  have "window_count k (T - window) T ?h +
      int (length (admitted_between k (T - window) T rs (window_spec limit window ?h rs))) \<le> limit"
    by (rule Cons.IH) (use Cons.prems r late count in auto)
  moreover have "window_count k (T - window) T ?h = window_count k (T - window) T h +
      (if ok \<and> k0 = k \<and> T - window \<le> t \<and> t \<le> T then 1 else 0)"
    by (simp add: window_count_def)
  ultimately show ?case unfolding spec by (auto simp: r admitted_between_def split: if_splits)
qed

lemma window_spec_bound:
  assumes "sorted (map snd rs)" and "0 \<le> window" and "0 \<le> limit"
  shows "int (length (admitted_between k (T - window) T rs (window_spec limit window [] rs))) \<le> limit"
  using window_spec_bound_aux[of rs "[]" k window limit T] assms by (simp add: window_count_def)

locale window_limiter =
  fixes check :: "'st \<Rightarrow> 'k \<Rightarrow> rat \<Rightarrow> 'st \<times> bool"
    and entries :: "'st \<Rightarrow> 'k \<Rightarrow> rat list"
    and inv :: "'st \<Rightarrow> bool"
    and limit :: int and window :: rat
  assumes check_inv: "inv st \<Longrightarrow> \<forall>k. \<forall>t \<in> set (entries st k). t \<le> now \<Longrightarrow> inv (fst (check st k now))"
    and check_admits: "inv st \<Longrightarrow> \<forall>k. \<forall>t \<in> set (entries st k). t \<le> now \<Longrightarrow>
      snd (check st k now) \<longleftrightarrow> int (length (filter (\<lambda>t. now - window \<le> t) (entries st k))) < limit"
    and check_records: "inv st \<Longrightarrow> \<forall>k. \<forall>t \<in> set (entries st k). t \<le> now \<Longrightarrow>
      filter (\<lambda>t. now - window \<le> t) (entries (fst (check st k now)) k') =
      filter (\<lambda>t. now - window \<le> t) (entries st k') @ (if k' = k \<and> snd (check st k now) then [now] else [])"
    and check_old: "inv st \<Longrightarrow>
      set (entries (fst (check st k now)) k') \<subseteq> insert now (set (entries st k'))"
    and window_pos: "inv st \<Longrightarrow> 0 < window"
begin

fun decisions :: "'st \<Rightarrow> ('k \<times> rat) list \<Rightarrow> bool list" where
  "decisions st [] = []"
| "decisions st ((k, now) # rs) = snd (check st k now) # decisions (fst (check st k now)) rs"

lemma filter_later:
  "now \<le> now' \<Longrightarrow> filter (\<lambda>t. now - window \<le> t) xs = filter (\<lambda>t. now - window \<le> t) ys \<Longrightarrow>
   filter (\<lambda>t. now' - window \<le> t) xs = filter (\<lambda>t. now' - window \<le> (t :: rat)) ys"
proof -
  assume le: "now \<le> now'" and eq: "filter (\<lambda>t. now - window \<le> t) xs = filter (\<lambda>t. now - window \<le> t) ys"
  have step: "filter (\<lambda>t. now' - window \<le> t) zs =
      filter (\<lambda>t. now' - window \<le> t) (filter (\<lambda>t. now - window \<le> t) zs)" for zs
    using le by (auto simp: intro!: filter_cong)
  show ?thesis by (subst step, subst (2) step) (simp only: eq)
qed

text \<open>The state is a faithful log of a history \<open>h\<close> from time \<open>now\<close> on.\<close>

definition logs :: "'st \<Rightarrow> ('k \<times> rat) list \<Rightarrow> rat \<Rightarrow> bool" where
  "logs st h now \<longleftrightarrow> inv st \<and> (\<forall>k. \<forall>t \<in> set (entries st k). t \<le> now) \<and>
     (\<forall>k. filter (\<lambda>t. now - window \<le> t) (entries st k) =
          filter (\<lambda>t. now - window \<le> t) (map snd (filter (\<lambda>e. fst e = k) h)))"

lemma logs_later: "logs st h now \<Longrightarrow> now \<le> now' \<Longrightarrow> logs st h now'"
  unfolding logs_def by (meson filter_later order_trans)

lemma logs_check:
  assumes "logs st h now"
  shows "snd (check st k now) \<longleftrightarrow>
      int (length (filter (\<lambda>e. fst e = k \<and> now - window \<le> snd e) h)) < limit"
    and "logs (fst (check st k now)) (if snd (check st k now) then h @ [(k, now)] else h) now"
proof -
  have inv: "inv st" and upto: "\<forall>k. \<forall>t \<in> set (entries st k). t \<le> now"
    and log: "\<And>k. filter (\<lambda>t. now - window \<le> t) (entries st k) =
      filter (\<lambda>t. now - window \<le> t) (map snd (filter (\<lambda>e. fst e = k) h))"
    using assms by (auto simp: logs_def)
  have "length (filter (\<lambda>t. now - window \<le> t) (map snd (filter (\<lambda>e. fst e = k) h))) =
      length (filter (\<lambda>e. fst e = k \<and> now - window \<le> snd e) h)"
    by (simp add: filter_map o_def conj_commute)
  then show "snd (check st k now) \<longleftrightarrow>
      int (length (filter (\<lambda>e. fst e = k \<and> now - window \<le> snd e) h)) < limit"
    using check_admits[OF inv upto] log[of k] by simp
  show "logs (fst (check st k now)) (if snd (check st k now) then h @ [(k, now)] else h) now"
  proof -
    have "\<forall>t \<in> set (entries (fst (check st k now)) k'). t \<le> now" for k'
      using check_old[OF inv, of k now k'] upto by auto
    then show ?thesis
      using check_inv[OF inv upto] check_records[OF inv upto] window_pos[OF inv]
      by (auto simp: logs_def log)
  qed
qed

theorem decisions_spec:
  "logs st h now \<Longrightarrow> sorted (map snd rs) \<Longrightarrow> \<forall>r \<in> set rs. now \<le> snd r \<Longrightarrow>
   decisions st rs = window_spec limit window h rs"
proof (induction rs arbitrary: st h now)
  case (Cons r rs)
  obtain k t where r: "r = (k, t)" by (cases r)
  with Cons.prems logs_later have log: "logs st h t" by auto
  from Cons.IH[OF logs_check(2)[OF log, of k]] Cons.prems(2) r logs_check(1)[OF log, of k]
  show ?case by (auto simp: Let_def)
qed simp

end

subsection \<open>Lease services\<close>

text \<open>
  The contract of a lock service with leases. \<open>owner st r t\<close> is who holds \<open>r\<close> at time \<open>t\<close>; the
  arguments of a call are a value \<open>d\<close> and \<open>by_time d t\<close> says that its clock readings are in
  order and not after \<open>t\<close>. An operation of another holder, or on another resource, neither takes
  a resource away before its lease ends nor is granted it.
\<close>

datatype ('r, 'h, 'd) lease_op = Acquire 'r 'h 'd | Release 'r 'h | Heartbeat 'r 'h 'd | Look 'd

fun op_by :: "('r, 'h, 'd) lease_op \<Rightarrow> ('r \<times> 'h) option" where
  "op_by (Acquire r h d) = Some (r, h)"
| "op_by (Release r h) = Some (r, h)"
| "op_by (Heartbeat r h d) = Some (r, h)"
| "op_by (Look d) = None"

fun op_by_time :: "('d \<Rightarrow> 't \<Rightarrow> bool) \<Rightarrow> ('r, 'h, 'd) lease_op \<Rightarrow> 't \<Rightarrow> bool" where
  "op_by_time by_time (Acquire r h d) t = by_time d t"
| "op_by_time by_time (Release r h) t = True"
| "op_by_time by_time (Heartbeat r h d) t = by_time d t"
| "op_by_time by_time (Look d) t = by_time d t"

locale lease_service =
  fixes owner :: "'st \<Rightarrow> 'r \<Rightarrow> 't \<Rightarrow> 'h option"
    and acquire :: "'st \<Rightarrow> 'r \<Rightarrow> 'h \<Rightarrow> 'd \<Rightarrow> 'st \<times> bool"
    and release :: "'st \<Rightarrow> 'r \<Rightarrow> 'h \<Rightarrow> 'st \<times> bool"
    and heartbeat :: "'st \<Rightarrow> 'r \<Rightarrow> 'h \<Rightarrow> 'd \<Rightarrow> 'st \<times> bool"
    and look :: "'st \<Rightarrow> 'd \<Rightarrow> 'st"
    and by_time :: "'d \<Rightarrow> 't \<Rightarrow> bool"
    and inv :: "'st \<Rightarrow> bool"
  assumes inv_step: "inv st \<Longrightarrow> inv (fst (acquire st r h d))" "inv st \<Longrightarrow> inv (fst (release st r h))"
      "inv st \<Longrightarrow> inv (fst (heartbeat st r h d))" "inv st \<Longrightarrow> inv (look st d)"
    and acquire_refused: "inv st \<Longrightarrow> owner st r t = Some h \<Longrightarrow> by_time d t \<Longrightarrow> h' \<noteq> h \<Longrightarrow>
      \<not> snd (acquire st r h' d)"
    and acquire_keeps: "inv st \<Longrightarrow> owner st r t = Some h \<Longrightarrow> by_time d t \<Longrightarrow> (k, h') \<noteq> (r, h) \<Longrightarrow>
      owner (fst (acquire st k h' d)) r t = Some h"
    and release_keeps: "inv st \<Longrightarrow> owner st r t = Some h \<Longrightarrow> (k, h') \<noteq> (r, h) \<Longrightarrow>
      owner (fst (release st k h')) r t = Some h"
    and heartbeat_keeps: "inv st \<Longrightarrow> owner st r t = Some h \<Longrightarrow> by_time d t \<Longrightarrow> (k, h') \<noteq> (r, h) \<Longrightarrow>
      owner (fst (heartbeat st k h' d)) r t = Some h"
    and look_keeps: "inv st \<Longrightarrow> owner st r t = Some h \<Longrightarrow> by_time d t \<Longrightarrow> owner (look st d) r t = Some h"
begin

fun step :: "'st \<Rightarrow> ('r, 'h, 'd) lease_op \<Rightarrow> 'st \<times> bool" where
  "step st (Acquire r h d) = acquire st r h d"
| "step st (Release r h) = release st r h"
| "step st (Heartbeat r h d) = heartbeat st r h d"
| "step st (Look d) = (look st d, True)"

fun steps :: "'st \<Rightarrow> ('r, 'h, 'd) lease_op list \<Rightarrow> 'st \<times> bool list" where
  "steps st [] = (st, [])"
| "steps st (oper # ops) =
     (case step st oper of (st1, ok) \<Rightarrow> (case steps st1 ops of (st2, oks) \<Rightarrow> (st2, ok # oks)))"

lemma inv_steps: "inv st \<Longrightarrow> inv (fst (steps st ops))"
proof (induction ops arbitrary: st)
  case (Cons oper ops)
  then have "inv (fst (step st oper))" by (cases oper) (simp_all add: inv_step)
  with Cons.IH show ?case by (simp add: split_beta)
qed simp

lemma step_keeps:
  "inv st \<Longrightarrow> owner st r t = Some h \<Longrightarrow> op_by_time by_time oper t \<Longrightarrow> op_by oper \<noteq> Some (r, h) \<Longrightarrow>
   owner (fst (step st oper)) r t = Some h"
  by (cases oper) (simp_all add: acquire_keeps release_keeps heartbeat_keeps look_keeps)

text \<open>Mutual exclusion: while a lease lasts, nobody else is granted the resource.\<close>

theorem lease_exclusive:
  assumes "inv st" and "owner st r t = Some h"
    and "\<forall>oper \<in> set ops. op_by_time by_time oper t \<and> op_by oper \<noteq> Some (r, h)"
  shows "owner (fst (steps st ops)) r t = Some h \<and>
    (\<forall>(oper, ok) \<in> set (zip ops (snd (steps st ops))). \<forall>h' d. oper = Acquire r h' d \<longrightarrow> \<not> ok)"
  using assms
proof (induction ops arbitrary: st)
  case (Cons oper ops)
  have keep: "owner (fst (step st oper)) r t = Some h" using Cons.prems by (intro step_keeps) auto
  have "inv (fst (step st oper))" using Cons.prems(1) inv_steps[of st "[oper]"] by (simp add: split_beta)
  with Cons.IH[OF this keep] Cons.prems(3) have ih:
    "owner (fst (steps (fst (step st oper)) ops)) r t = Some h"
    "\<forall>(oper', ok) \<in> set (zip ops (snd (steps (fst (step st oper)) ops))).
       \<forall>h' d. oper' = Acquire r h' d \<longrightarrow> \<not> ok"
    by auto
  have "\<not> snd (step st oper)" if "oper = Acquire r h' d" for h' d
    using that Cons.prems acquire_refused[of st r t h d h'] by auto
  with ih show ?case by (auto simp: split_beta)
qed simp

end

end
