(* ===== verification/Py_Value.thy ===== *)
theory Py_Value
  imports Prelude Complex_Main
begin

section \<open>Dynamic Python values\<close>

text \<open>
  The values that live in \<open>dict[str, Any]\<close> payloads (node contents, task metadata and
  outputs, query literals), with Python's equality, truth value and ordering. Numbers of
  all three numeric types compare by value (\<open>True == 1 == 1.0\<close>); an ordering between
  incomparable types raises \<open>TypeError\<close>, which is the result \<^const>\<open>None\<close> of \<open>py_cmp\<close>.
\<close>

datatype pyval =
    PNone
  | PBool bool
  | PInt int
  | PFloat rat
  | PStr string
  | PList "pyval list"
  | PDict "(string \<times> pyval) list"

type_synonym pydict = "(string, pyval) dict"

fun num_of :: "pyval \<Rightarrow> rat option" where
  "num_of (PBool b) = Some (if b then 1 else 0)"
| "num_of (PInt i) = Some (of_int i)"
| "num_of (PFloat r) = Some r"
| "num_of _ = None"

fun py_truthy :: "pyval \<Rightarrow> bool" where
  "py_truthy PNone = False"
| "py_truthy (PBool b) = b"
| "py_truthy (PInt i) = (i \<noteq> 0)"
| "py_truthy (PFloat r) = (r \<noteq> 0)"
| "py_truthy (PStr s) = (s \<noteq> [])"
| "py_truthy (PList xs) = (xs \<noteq> [])"
| "py_truthy (PDict kvs) = (kvs \<noteq> [])"

text \<open>\<open>v == w\<close>: lists elementwise, dictionaries regardless of their key order.\<close>

fun py_eq :: "pyval \<Rightarrow> pyval \<Rightarrow> bool"
  and py_eq_list :: "pyval list \<Rightarrow> pyval list \<Rightarrow> bool"
  and py_eq_dict :: "(string \<times> pyval) list \<Rightarrow> (string \<times> pyval) list \<Rightarrow> bool" where
  "py_eq PNone w = (w = PNone)"
| "py_eq (PBool b) w = (num_of w = Some (if b then 1 else 0))"
| "py_eq (PInt i) w = (num_of w = Some (of_int i))"
| "py_eq (PFloat r) w = (num_of w = Some r)"
| "py_eq (PStr s) w = (w = PStr s)"
| "py_eq (PList xs) w = (case w of PList ys \<Rightarrow> py_eq_list xs ys | _ \<Rightarrow> False)"
| "py_eq (PDict xs) w =
     (case w of PDict ys \<Rightarrow> length xs = length ys \<and> py_eq_dict xs ys | _ \<Rightarrow> False)"
| "py_eq_list [] ys = (ys = [])"
| "py_eq_list (x # xs) ys = (case ys of [] \<Rightarrow> False | y # ys' \<Rightarrow> py_eq x y \<and> py_eq_list xs ys')"
| "py_eq_dict [] ys = True"
| "py_eq_dict ((k, v) # xs) ys =
     ((case map_of ys k of None \<Rightarrow> False | Some w \<Rightarrow> py_eq v w) \<and> py_eq_dict xs ys)"

text \<open>Ordering of strings by code point.\<close>

datatype ordering = Less | Equal | Greater

fun str_cmp :: "string \<Rightarrow> string \<Rightarrow> ordering" where
  "str_cmp [] [] = Equal"
| "str_cmp [] (d # ds) = Less"
| "str_cmp (c # cs) [] = Greater"
| "str_cmp (c # cs) (d # ds) =
     (if (of_char c :: nat) < of_char d then Less
      else if (of_char d :: nat) < of_char c then Greater
      else str_cmp cs ds)"

definition rat_cmp :: "rat \<Rightarrow> rat \<Rightarrow> ordering" where
  "rat_cmp a b = (if a < b then Less else if b < a then Greater else Equal)"

definition nat_cmp :: "nat \<Rightarrow> nat \<Rightarrow> ordering" where
  "nat_cmp a b = (if a < b then Less else if b < a then Greater else Equal)"

text \<open>Python's \<open><\<close> family: \<^const>\<open>None\<close> is a raised \<open>TypeError\<close>.\<close>

fun py_cmp :: "pyval \<Rightarrow> pyval \<Rightarrow> ordering option"
  and py_cmp_list :: "pyval list \<Rightarrow> pyval list \<Rightarrow> ordering option" where
  "py_cmp PNone w = None"
| "py_cmp (PBool b) w = map_option (rat_cmp (if b then 1 else 0)) (num_of w)"
| "py_cmp (PInt i) w = map_option (rat_cmp (of_int i)) (num_of w)"
| "py_cmp (PFloat r) w = map_option (rat_cmp r) (num_of w)"
| "py_cmp (PStr s) w = (case w of PStr t \<Rightarrow> Some (str_cmp s t) | _ \<Rightarrow> None)"
| "py_cmp (PList xs) w = (case w of PList ys \<Rightarrow> py_cmp_list xs ys | _ \<Rightarrow> None)"
| "py_cmp (PDict kvs) w = None"
| "py_cmp_list [] ys = Some (if ys = [] then Equal else Less)"
| "py_cmp_list (x # xs) ys =
     (case ys of [] \<Rightarrow> Some Greater
      | y # ys' \<Rightarrow> if py_eq x y then py_cmp_list xs ys' else py_cmp x y)"

lemma py_eq_num: "num_of v = Some a \<Longrightarrow> py_eq v w \<longleftrightarrow> num_of w = Some a"
  by (cases v) auto

lemma py_cmp_num:
  "num_of v = Some a \<Longrightarrow> num_of w = Some b \<Longrightarrow> py_cmp v w = Some (rat_cmp a b)"
  by (cases v) auto

lemma str_cmp_refl [simp]: "str_cmp s s = Equal"
  by (induction s) auto

lemma str_cmp_Equal: "str_cmp s t = Equal \<longleftrightarrow> s = t"
  by (induction s t rule: str_cmp.induct) auto

lemma str_cmp_swap: "str_cmp t s = Less \<longleftrightarrow> str_cmp s t = Greater"
  by (induction s t rule: str_cmp.induct) auto

lemma str_cmp_trans: "str_cmp s t \<noteq> Greater \<Longrightarrow> str_cmp t u \<noteq> Greater \<Longrightarrow> str_cmp s u \<noteq> Greater"
proof (induction s arbitrary: t u)
  case Nil
  then show ?case by (cases u) simp_all
next
  case (Cons c cs)
  from Cons.prems(1) obtain d ds where t: "t = d # ds" by (cases t) simp_all
  with Cons.prems(2) obtain e es where u: "u = e # es" by (cases u) simp_all
  define nc where "nc = (of_char c :: nat)"
  define nd where "nd = (of_char d :: nat)"
  define ne where "ne = (of_char e :: nat)"
  note defs = nc_def[symmetric] nd_def[symmetric] ne_def[symmetric]
  have le: "nc \<le> nd" "nd \<le> ne"
    using Cons.prems unfolding t u by (simp_all add: defs split: if_splits)
  show ?case
  proof (cases "nc < ne")
    case True
    then show ?thesis unfolding t u by (simp add: defs)
  next
    case False
    with le have "nc = nd" "nd = ne" by simp_all
    with Cons.prems have "str_cmp cs ds \<noteq> Greater" "str_cmp ds es \<noteq> Greater"
      unfolding t u by (simp_all add: defs)
    then have "str_cmp cs es \<noteq> Greater" by (rule Cons.IH)
    with \<open>nc = nd\<close> \<open>nd = ne\<close> show ?thesis unfolding t u by (simp add: defs)
  qed
qed

text \<open>\<open>hash(v)\<close> exists for scalars only: lists and dictionaries are unhashable.\<close>

fun py_hashable :: "pyval \<Rightarrow> bool" where
  "py_hashable (PList _) = False"
| "py_hashable (PDict _) = False"
| "py_hashable _ = True"

text \<open>\<open>int(x)\<close> of a number truncates towards zero.\<close>

definition py_trunc :: "rat \<Rightarrow> int" where
  "py_trunc x = (if 0 \<le> x then floor x else ceiling x)"

lemma py_trunc_of_int [simp]: "py_trunc (of_int i) = i"
  by (simp add: py_trunc_def)

subsection \<open>Texts of values\<close>

definition escape_char :: "char \<Rightarrow> char \<Rightarrow> string" where
  "escape_char q c =
     (let n = (of_char c :: nat); hex = (\<lambda>k. char_of (if k < 10 then 48 + k else 87 + k)) in
      if c = CHR 0x5C \<or> c = q then [CHR 0x5C, c]
      else if n = 10 then [CHR 0x5C, CHR ''n'']
      else if n = 13 then [CHR 0x5C, CHR ''r'']
      else if n = 9 then [CHR 0x5C, CHR ''t'']
      else if n < 32 \<or> n = 127 then [CHR 0x5C, CHR ''x'', hex (n div 16), hex (n mod 16)]
      else [c])"

text \<open>\<open>repr\<close> of an ASCII text.\<close>

definition repr_str :: "string \<Rightarrow> string" where
  "repr_str s =
     (let q = (if CHR 0x27 \<in> set s \<and> CHR 0x22 \<notin> set s then CHR 0x22 else CHR 0x27)
      in [q] @ concat (map (escape_char q) s) @ [q])"

end
