(* ===== verification/Access_Control.thy ===== *)
theory Access_Control
  imports Interfaces Py_Value
begin

section \<open>Access control: the six-space visibility rules and RBAC\<close>

text \<open>
  Models \<open>core/access_control.py\<close> (resources, user contexts, the access decision, sharing)
  and the role matrix and tenant store of \<open>core/auth/models.py\<close>. A decision is a boolean
  function of a user context and a resource; the registry of resources and the tenant
  store are dictionaries. \<open>require_access\<close> raises \<open>PermissionError\<close>: an error value.
\<close>

subsection \<open>Data\<close>

datatype space_visibility = PRIVATE | PERM_GROUP | GROUP | PROJECT | EXTERNAL | TENANT_PUBLIC

definition visibility_of_str :: "string \<Rightarrow> space_visibility option" where
  "visibility_of_str s =
     (if s = ''private'' then Some PRIVATE
      else if s = ''perm_group'' then Some PERM_GROUP
      else if s = ''group'' then Some GROUP
      else if s = ''project'' then Some PROJECT
      else if s = ''external'' then Some EXTERNAL
      else if s = ''tenant_public'' then Some TENANT_PUBLIC
      else None)"

record resource =
  res_id :: string
  res_type :: string
  res_tenant_id :: string
  res_owner_id :: string
  res_visibility :: space_visibility
  res_perm_group_ids :: "string list"
  res_group_ids :: "string list"
  res_project_ids :: "string list"
  res_shared_with :: "string list"
  res_metadata :: pydict

record user_context =
  uc_user_id :: string
  uc_tenant_id :: string
  uc_global_role :: string
  uc_perm_group_ids :: "string list"
  uc_group_ids :: "string list"
  uc_project_ids :: "string list"
  uc_is_agent :: bool

definition system_context :: user_context where
  "system_context =
     \<lparr> uc_user_id = ''system'', uc_tenant_id = ''default'', uc_global_role = ''platform_admin'',
       uc_perm_group_ids = [], uc_group_ids = [], uc_project_ids = [], uc_is_agent = True \<rparr>"

definition agent_context :: "string \<Rightarrow> string \<Rightarrow> user_context" where
  "agent_context agent_name tenant_id =
     \<lparr> uc_user_id = ''agent:'' @ agent_name, uc_tenant_id = tenant_id, uc_global_role = ''user'',
       uc_perm_group_ids = [], uc_group_ids = [], uc_project_ids = [], uc_is_agent = True \<rparr>"

subsection \<open>The decision\<close>

definition is_platform_admin :: "user_context \<Rightarrow> bool" where
  "is_platform_admin u = (uc_global_role u = ''platform_admin'')"

definition lists_meet :: "string list \<Rightarrow> string list \<Rightarrow> bool" where
  "lists_meet xs ys = (set xs \<inter> set ys \<noteq> {})"

definition check_space_level :: "user_context \<Rightarrow> resource \<Rightarrow> bool" where
  "check_space_level u r =
     (case res_visibility r of
        PRIVATE \<Rightarrow> False
      | PERM_GROUP \<Rightarrow> lists_meet (uc_perm_group_ids u) (res_perm_group_ids r)
      | GROUP \<Rightarrow> lists_meet (uc_group_ids u) (res_group_ids r)
      | PROJECT \<Rightarrow> lists_meet (uc_project_ids u) (res_project_ids r)
      | EXTERNAL \<Rightarrow> uc_user_id u \<in> set (res_shared_with r)
      | TENANT_PUBLIC \<Rightarrow> False)"

definition check_write_access :: "user_context \<Rightarrow> resource \<Rightarrow> bool" where
  "check_write_access u r =
     (if uc_global_role u \<in> {''admin'', ''platform_admin''} then True
      else if res_visibility r = PRIVATE then False
      else check_space_level u r)"

definition check_access :: "user_context \<Rightarrow> resource \<Rightarrow> string \<Rightarrow> bool" where
  "check_access u r access_type =
     (if res_tenant_id r \<noteq> uc_tenant_id u \<and> uc_global_role u \<noteq> ''platform_admin'' then False
      else if uc_global_role u \<in> {''platform_admin'', ''tenant_admin''} then True
      else if res_owner_id r = uc_user_id u then True
      else if access_type = ''write'' then check_write_access u r
      else if res_visibility r = TENANT_PUBLIC then True
      else if uc_user_id u \<in> set (res_shared_with r) then True
      else check_space_level u r)"

definition can_read :: "user_context \<Rightarrow> resource \<Rightarrow> bool" where
  "can_read u r = check_access u r ''read''"

definition can_write :: "user_context \<Rightarrow> resource \<Rightarrow> bool" where
  "can_write u r = check_access u r ''write''"

definition can_delete :: "user_context \<Rightarrow> resource \<Rightarrow> bool" where
  "can_delete u r = (if is_platform_admin u then True else res_owner_id r = uc_user_id u)"

definition filter_accessible :: "user_context \<Rightarrow> resource list \<Rightarrow> string \<Rightarrow> resource list" where
  "filter_accessible u rs access_type =
     (if access_type = ''read'' then filter (can_read u) rs else filter (can_write u) rs)"

datatype permission_error = PermissionError string string string

definition require_access ::
  "user_context \<Rightarrow> resource \<Rightarrow> string \<Rightarrow> permission_error + unit" where
  "require_access u r access_type =
     (if (if access_type = ''read'' then can_read u r else can_write u r) then Inr ()
      else Inl (PermissionError (uc_user_id u) access_type (res_id r)))"

record space_context =
  sc_user :: user_context
  sc_resource :: "resource option"
  sc_visibility :: space_visibility

definition assert_read :: "space_context \<Rightarrow> permission_error + unit" where
  "assert_read c =
     (case sc_resource c of None \<Rightarrow> Inr () | Some r \<Rightarrow> require_access (sc_user c) r ''read'')"

definition assert_write :: "space_context \<Rightarrow> permission_error + unit" where
  "assert_write c =
     (case sc_resource c of None \<Rightarrow> Inr () | Some r \<Rightarrow> require_access (sc_user c) r ''write'')"

subsection \<open>The resource registry\<close>

type_synonym access_state = "(string, resource) dict"

definition register_resource :: "access_state \<Rightarrow> resource \<Rightarrow> access_state" where
  "register_resource st r = dict_set st (res_id r) r"

definition get_resource :: "access_state \<Rightarrow> string \<Rightarrow> resource option" where
  "get_resource st rid = dict_get st rid"

definition can_read_resource_id :: "access_state \<Rightarrow> user_context \<Rightarrow> string \<Rightarrow> bool" where
  "can_read_resource_id st u rid =
     (case get_resource st rid of None \<Rightarrow> False | Some r \<Rightarrow> can_read u r)"

text \<open>
  Sharing mutates the registered record in place; \<open>list.remove\<close> removes the first
  occurrence only.
\<close>

definition share_with_user :: "access_state \<Rightarrow> string \<Rightarrow> string \<Rightarrow> access_state \<times> bool" where
  "share_with_user st rid uid =
     (case dict_get st rid of
        None \<Rightarrow> (st, False)
      | Some r \<Rightarrow>
          (if uid \<notin> set (res_shared_with r)
           then dict_set st rid (r\<lparr>res_shared_with := res_shared_with r @ [uid]\<rparr>)
           else st, True))"

definition unshare_with_user :: "access_state \<Rightarrow> string \<Rightarrow> string \<Rightarrow> access_state \<times> bool" where
  "unshare_with_user st rid uid =
     (case dict_get st rid of
        None \<Rightarrow> (st, False)
      | Some r \<Rightarrow>
          (if uid \<in> set (res_shared_with r)
           then dict_set st rid (r\<lparr>res_shared_with := remove1 uid (res_shared_with r)\<rparr>)
           else st, True))"

interpretation registry: keyed_store get_resource register_resource dict_pop res_id dict_ok
  by unfold_locales (auto simp: get_resource_def register_resource_def)

subsection \<open>RBAC (auth/models.py)\<close>

datatype global_role = PLATFORM_ADMIN | TENANT_ADMIN | GROUP_ADMIN | USER | AGENT | VIEWER

datatype permission = READ | WRITE | DELETE | ADMIN | AUDIT | EXPORT | INVITE

fun role_value :: "global_role \<Rightarrow> string" where
  "role_value PLATFORM_ADMIN = ''platform_admin''"
| "role_value TENANT_ADMIN = ''tenant_admin''"
| "role_value GROUP_ADMIN = ''group_admin''"
| "role_value USER = ''user''"
| "role_value AGENT = ''agent''"
| "role_value VIEWER = ''viewer''"

record perm_group =
  pg_id :: string
  pg_tenant_id :: string
  pg_group_id :: "string option"
  pg_name :: string
  pg_role :: global_role
  pg_permissions :: "permission list"

record user =
  usr_id :: string
  usr_tenant_id :: string
  usr_email :: string
  usr_display_name :: string
  usr_global_role :: global_role
  usr_group_ids :: "string list"
  usr_perm_group_ids :: "string list"
  usr_project_ids :: "string list"
  usr_is_agent :: bool
  usr_status :: string

type_synonym rbac_matrix = "(global_role, permission set) dict"

definition default_rbac :: rbac_matrix where
  "default_rbac =
     [(PLATFORM_ADMIN, {READ, WRITE, DELETE, ADMIN, AUDIT, EXPORT, INVITE}),
      (TENANT_ADMIN, {READ, WRITE, DELETE, ADMIN, AUDIT, EXPORT, INVITE}),
      (GROUP_ADMIN, {READ, WRITE, DELETE, ADMIN, INVITE}),
      (USER, {READ, WRITE, INVITE}),
      (VIEWER, {READ}),
      (AGENT, {READ, WRITE})]"

text \<open>\<open>custom_matrix or DEFAULT_RBAC\<close>: an empty custom matrix means the default.\<close>

definition rbac_init :: "rbac_matrix option \<Rightarrow> rbac_matrix" where
  "rbac_init custom =
     (case custom of None \<Rightarrow> default_rbac | Some m \<Rightarrow> if m = [] then default_rbac else m)"

definition role_can :: "rbac_matrix \<Rightarrow> global_role \<Rightarrow> permission \<Rightarrow> bool" where
  "role_can m role p = (p \<in> dict_get_or m role {})"

definition user_permissions ::
  "rbac_matrix \<Rightarrow> (string, perm_group) dict \<Rightarrow> user \<Rightarrow> permission set" where
  "user_permissions m pgs u =
     foldl (\<lambda>perms pid. case dict_get pgs pid of
               None \<Rightarrow> perms | Some pg \<Rightarrow> perms \<union> set (pg_permissions pg))
       (dict_get_or m (usr_global_role u) {}) (usr_perm_group_ids u)"

definition user_can ::
  "rbac_matrix \<Rightarrow> (string, perm_group) dict \<Rightarrow> user \<Rightarrow> permission \<Rightarrow> bool" where
  "user_can m pgs u p = (p \<in> user_permissions m pgs u)"

definition user_can_on_resource ::
  "rbac_matrix \<Rightarrow> (string, perm_group) dict \<Rightarrow> user \<Rightarrow> permission \<Rightarrow> string \<Rightarrow> bool" where
  "user_can_on_resource m pgs u p resource_type =
     (if resource_type = ''audit_log'' \<and> p = READ then user_can m pgs u AUDIT
      else user_can m pgs u p)"

subsection \<open>The tenant store\<close>

record tenant =
  ten_id :: string
  ten_name :: string
  ten_plan :: string
  ten_status :: string
  ten_isolation_mode :: string

record group =
  grp_id :: string
  grp_tenant_id :: string
  grp_name :: string
  grp_group_type :: string
  grp_parent_group_id :: "string option"
  grp_visibility :: string

record tenant_store =
  ts_tenants :: "(string, tenant) dict"
  ts_users :: "(string, user) dict"
  ts_groups :: "(string, group) dict"
  ts_perm_groups :: "(string, perm_group) dict"

definition create_tenant :: "tenant_store \<Rightarrow> tenant \<Rightarrow> tenant_store" where
  "create_tenant s t = s\<lparr>ts_tenants := dict_set (ts_tenants s) (ten_id t) t\<rparr>"

definition get_tenant :: "tenant_store \<Rightarrow> string \<Rightarrow> tenant option" where
  "get_tenant s i = dict_get (ts_tenants s) i"

definition list_tenants :: "tenant_store \<Rightarrow> tenant list" where
  "list_tenants s = dict_values (ts_tenants s)"

definition create_user :: "tenant_store \<Rightarrow> user \<Rightarrow> tenant_store" where
  "create_user s u = s\<lparr>ts_users := dict_set (ts_users s) (usr_id u) u\<rparr>"

definition get_user :: "tenant_store \<Rightarrow> string \<Rightarrow> user option" where
  "get_user s i = dict_get (ts_users s) i"

text \<open>\<open>if tenant_id:\<close> skips the filter for \<open>None\<close> and for the empty string.\<close>

definition by_tenant :: "('a \<Rightarrow> string) \<Rightarrow> string option \<Rightarrow> 'a list \<Rightarrow> 'a list" where
  "by_tenant ten tid xs =
     (case tid of None \<Rightarrow> xs | Some t \<Rightarrow> if t = [] then xs else filter (\<lambda>x. ten x = t) xs)"

definition list_users :: "tenant_store \<Rightarrow> string option \<Rightarrow> user list" where
  "list_users s tid = by_tenant usr_tenant_id tid (dict_values (ts_users s))"

definition create_group :: "tenant_store \<Rightarrow> group \<Rightarrow> tenant_store" where
  "create_group s g = s\<lparr>ts_groups := dict_set (ts_groups s) (grp_id g) g\<rparr>"

definition get_group :: "tenant_store \<Rightarrow> string \<Rightarrow> group option" where
  "get_group s i = dict_get (ts_groups s) i"

definition list_groups :: "tenant_store \<Rightarrow> string option \<Rightarrow> group list" where
  "list_groups s tid = by_tenant grp_tenant_id tid (dict_values (ts_groups s))"

definition create_perm_group :: "tenant_store \<Rightarrow> perm_group \<Rightarrow> tenant_store" where
  "create_perm_group s pg = s\<lparr>ts_perm_groups := dict_set (ts_perm_groups s) (pg_id pg) pg\<rparr>"

definition get_perm_group :: "tenant_store \<Rightarrow> string \<Rightarrow> perm_group option" where
  "get_perm_group s i = dict_get (ts_perm_groups s) i"

definition list_perm_groups :: "tenant_store \<Rightarrow> string option \<Rightarrow> perm_group list" where
  "list_perm_groups s tid = by_tenant pg_tenant_id tid (dict_values (ts_perm_groups s))"

interpretation users: keyed_store get_user create_user
  "\<lambda>s k. s\<lparr>ts_users := dict_pop (ts_users s) k\<rparr>" usr_id "\<lambda>s. dict_ok (ts_users s)"
  by unfold_locales (auto simp: get_user_def create_user_def)

interpretation perm_groups: keyed_store get_perm_group create_perm_group
  "\<lambda>s k. s\<lparr>ts_perm_groups := dict_pop (ts_perm_groups s) k\<rparr>" pg_id
  "\<lambda>s. dict_ok (ts_perm_groups s)"
  by unfold_locales (auto simp: get_perm_group_def create_perm_group_def)

subsection \<open>What the decision guarantees\<close>

lemmas access_defs = can_read_def can_write_def check_access_def check_write_access_def
  check_space_level_def

definition tenant_ok :: "user_context \<Rightarrow> resource \<Rightarrow> bool" where
  "tenant_ok u r \<longleftrightarrow> res_tenant_id r = uc_tenant_id u \<or> uc_global_role u = ''platform_admin''"

definition is_member :: "user_context \<Rightarrow> resource \<Rightarrow> bool" where
  "is_member u r \<longleftrightarrow>
     (res_visibility r = PERM_GROUP \<and> lists_meet (uc_perm_group_ids u) (res_perm_group_ids r)) \<or>
     (res_visibility r = GROUP \<and> lists_meet (uc_group_ids u) (res_group_ids r)) \<or>
     (res_visibility r = PROJECT \<and> lists_meet (uc_project_ids u) (res_project_ids r))"

lemma check_space_level_iff:
  "check_space_level u r \<longleftrightarrow>
     is_member u r \<or> (res_visibility r = EXTERNAL \<and> uc_user_id u \<in> set (res_shared_with r))"
  by (cases "res_visibility r") (simp_all add: check_space_level_def is_member_def)

lemma can_read_iff_all:
  "can_read u r \<longleftrightarrow>
     tenant_ok u r \<and>
     (uc_global_role u = ''platform_admin'' \<or> uc_global_role u = ''tenant_admin'' \<or>
      res_owner_id r = uc_user_id u \<or> res_visibility r = TENANT_PUBLIC \<or>
      uc_user_id u \<in> set (res_shared_with r) \<or> is_member u r)"
  unfolding can_read_def check_access_def check_space_level_iff tenant_ok_def by auto

text \<open>The read decision is exactly the six documented rules: inside the tenant wall, an
  administrator, the owner, anyone in the tenant for a tenant-public resource, a user the
  resource is explicitly shared with (whatever its visibility), or a member of the
  resource's permission group, group or project space.\<close>

theorem can_read_iff:
  "can_read u r \<longleftrightarrow>
     tenant_ok u r \<and>
     (uc_global_role u \<in> {''platform_admin'', ''tenant_admin''} \<or>
      res_owner_id r = uc_user_id u \<or>
      res_visibility r = TENANT_PUBLIC \<or>
      uc_user_id u \<in> set (res_shared_with r) \<or>
      is_member u r)"
  by (simp add: can_read_iff_all)

text \<open>Tenant isolation is hard for reading and writing: a user of another tenant who is
  not a platform administrator is refused both, whatever the resource's owner, visibility,
  groups and sharing list say, by the decision and by the guard that raises.\<close>

theorem tenant_isolation:
  assumes "res_tenant_id r \<noteq> uc_tenant_id u" and "uc_global_role u \<noteq> ''platform_admin''"
  shows "\<not> can_read u r \<and> \<not> can_write u r \<and>
    filter_accessible u [r] access_type = [] \<and>
    require_access u r access_type = Inl (PermissionError (uc_user_id u) access_type (res_id r))"
  using assms by (simp add: access_defs filter_accessible_def require_access_def)

definition eve :: user_context where
  "eve = \<lparr> uc_user_id = ''eve'', uc_tenant_id = ''beta'', uc_global_role = ''tenant_admin'',
     uc_perm_group_ids = [''g1''], uc_group_ids = [''g1''], uc_project_ids = [], uc_is_agent = False \<rparr>"

definition doc_of :: "string \<Rightarrow> space_visibility \<Rightarrow> string list \<Rightarrow> resource" where
  "doc_of tenant vis shared =
     \<lparr> res_id = ''r1'', res_type = ''task'', res_tenant_id = tenant, res_owner_id = ''bob'',
       res_visibility = vis, res_perm_group_ids = [''g1''], res_group_ids = [''g1''],
       res_project_ids = [], res_shared_with = shared, res_metadata = [] \<rparr>"

theorem tenant_isolation_witness:
  "\<not> can_read eve (doc_of ''acme'' TENANT_PUBLIC [''eve'']) \<and>
   \<not> can_write eve (doc_of ''acme'' TENANT_PUBLIC [''eve''])"
  using tenant_isolation[of "doc_of ''acme'' TENANT_PUBLIC [''eve'']" eve "''read''"]
  by (simp add: eve_def doc_of_def)

text \<open>For every role but the legacy \<open>admin\<close> string, whoever may write a resource may also
  read it.\<close>

theorem write_implies_read:
  assumes "uc_global_role u \<noteq> ''admin''" and "can_write u r"
  shows "can_read u r"
proof -
  from assms have "tenant_ok u r"
    by (auto simp: can_write_def check_access_def tenant_ok_def split: if_splits)
  moreover from assms
  have "uc_global_role u \<in> {''platform_admin'', ''tenant_admin''} \<or>
      res_owner_id r = uc_user_id u \<or> check_space_level u r"
    by (auto simp: can_write_def check_access_def check_write_access_def split: if_splits)
  ultimately show ?thesis by (auto simp: can_read_iff_all check_space_level_iff)
qed

theorem write_implies_read_witness:
  "can_read (eve\<lparr>uc_global_role := ''user''\<rparr>) (doc_of ''beta'' GROUP [])"
  by (rule write_implies_read)
    (simp_all add: eve_def doc_of_def access_defs lists_meet_def)

text \<open>
  The role string \<open>admin\<close> is the exception: the read rules do not know it, the write rule
  does, so such a user may overwrite a private resource it cannot see.
\<close>

lemma admin_writes_unread:
  "can_write (eve\<lparr>uc_global_role := ''admin''\<rparr>) (doc_of ''beta'' PRIVATE []) \<and>
   \<not> can_read (eve\<lparr>uc_global_role := ''admin''\<rparr>) (doc_of ''beta'' PRIVATE [])"
  by (simp add: eve_def doc_of_def access_defs)

text \<open>
  Deletion looks at the owner's id only: it does not check the tenant, and a tenant
  administrator is not allowed to delete.
\<close>

lemma delete_ignores_tenant:
  "can_delete (eve\<lparr>uc_user_id := ''bob'', uc_global_role := ''user''\<rparr>) (doc_of ''acme'' PRIVATE []) \<and>
   \<not> can_read (eve\<lparr>uc_user_id := ''bob'', uc_global_role := ''user''\<rparr>) (doc_of ''acme'' PRIVATE [])"
  by (simp add: eve_def doc_of_def access_defs can_delete_def is_platform_admin_def)

subsection \<open>Sharing and revocation\<close>

text \<open>The sharing lists stay free of duplicates, which is what makes one removal enough.\<close>

definition shares_ok :: "access_state \<Rightarrow> bool" where
  "shares_ok st \<longleftrightarrow> (\<forall>rid r. get_resource st rid = Some r \<longrightarrow> distinct (res_shared_with r))"

lemma shares_ok_register:
  "shares_ok st \<Longrightarrow> distinct (res_shared_with r) \<Longrightarrow> shares_ok (register_resource st r)"
  by (auto simp: shares_ok_def get_resource_def register_resource_def)

lemma shares_ok_share [inv_intros]: "shares_ok st \<Longrightarrow> shares_ok (fst (share_with_user st rid uid))"
  by (auto simp: shares_ok_def share_with_user_def get_resource_def split: option.splits)

lemma shares_ok_unshare [inv_intros]:
  "shares_ok st \<Longrightarrow> shares_ok (fst (unshare_with_user st rid uid))"
  by (auto simp: shares_ok_def unshare_with_user_def get_resource_def split: option.splits)

lemma share_lookup:
  "get_resource (fst (share_with_user st rid uid)) k =
     (case get_resource st k of None \<Rightarrow> None
      | Some r \<Rightarrow> Some (if k = rid \<and> uid \<notin> set (res_shared_with r)
                        then r\<lparr>res_shared_with := res_shared_with r @ [uid]\<rparr> else r))"
  by (auto simp: share_with_user_def get_resource_def split: option.splits)

lemma unshare_lookup:
  "get_resource (fst (unshare_with_user st rid uid)) k =
     (case get_resource st k of None \<Rightarrow> None
      | Some r \<Rightarrow> Some (if k = rid then r\<lparr>res_shared_with := remove1 uid (res_shared_with r)\<rparr> else r))"
  by (auto simp: unshare_with_user_def get_resource_def remove1_idem split: option.splits)

text \<open>Sharing a registered resource with a user of its tenant grants that user read
  access; unsharing afterwards takes away exactly what sharing gave: a user who could not
  read the resource before can not read it any more, and no other resource changes.\<close>

theorem share_unshare_revokes:
  assumes ok: "shares_ok st" and reg: "get_resource st rid = Some r"
    and tenant: "res_tenant_id r = uc_tenant_id u"
    and denied: "\<not> can_read u r"
  defines "st1 \<equiv> fst (share_with_user st rid (uc_user_id u))"
  defines "st2 \<equiv> fst (unshare_with_user st1 rid (uc_user_id u))"
  shows "can_read_resource_id st1 u rid \<and> \<not> can_read_resource_id st2 u rid \<and>
    (\<forall>k. get_resource st2 k = get_resource st k)"
proof -
  from denied tenant have new: "uc_user_id u \<notin> set (res_shared_with r)"
    by (auto simp: can_read_iff_all tenant_ok_def)
  then have undo: "remove1 (uc_user_id u) (res_shared_with r @ [uc_user_id u]) = res_shared_with r"
    by (simp add: remove1_append)
  have l1: "get_resource st1 rid = Some (r\<lparr>res_shared_with := res_shared_with r @ [uc_user_id u]\<rparr>)"
    using reg new by (simp add: st1_def share_lookup)
  have l2: "get_resource st2 k = get_resource st k" for k
    using reg new undo
    by (cases "get_resource st k") (auto simp: st2_def unshare_lookup st1_def share_lookup)
  from l1 tenant have "can_read_resource_id st1 u rid"
    by (simp add: can_read_resource_id_def can_read_iff_all tenant_ok_def)
  moreover from l2 reg denied have "\<not> can_read_resource_id st2 u rid"
    by (simp add: can_read_resource_id_def)
  ultimately show ?thesis using l2 by blast
qed

theorem share_unshare_revokes_witness:
  "\<exists>st1 st2. can_read_resource_id st1 (eve\<lparr>uc_global_role := ''user''\<rparr>) ''r1'' \<and>
     \<not> can_read_resource_id st2 (eve\<lparr>uc_global_role := ''user''\<rparr>) ''r1''"
proof -
  let ?r = "doc_of ''beta'' PRIVATE []"
  let ?st = "register_resource [] ?r"
  have "shares_ok ?st"
    by (rule shares_ok_register) (simp_all add: shares_ok_def get_resource_def doc_of_def)
  moreover have "get_resource ?st ''r1'' = Some ?r"
    by (simp add: get_resource_def register_resource_def doc_of_def)
  ultimately show ?thesis
    using share_unshare_revokes[of ?st "''r1''" ?r "eve\<lparr>uc_global_role := ''user''\<rparr>"]
    by (auto simp: eve_def doc_of_def access_defs)
qed

subsection \<open>What RBAC guarantees\<close>

lemma foldl_permissions:
  "foldl (\<lambda>perms pid. case f pid of None \<Rightarrow> perms | Some pg \<Rightarrow> perms \<union> g pg) A pids =
   A \<union> (\<Union>pid \<in> set pids. case f pid of None \<Rightarrow> {} | Some pg \<Rightarrow> g pg)"
  by (induction pids arbitrary: A) (auto split: option.splits)

text \<open>A user holds a permission exactly when the role grants it in the matrix or one of
  the user's registered permission groups lists it (groups only add); reading the audit log
  is the one case where another permission, AUDIT, is asked for instead.\<close>

theorem user_can_on_resource_iff:
  "user_can_on_resource m pgs u p rt \<longleftrightarrow>
     (let q = (if rt = ''audit_log'' \<and> p = READ then AUDIT else p) in
      role_can m (usr_global_role u) q \<or>
      (\<exists>pid \<in> set (usr_perm_group_ids u). \<exists>pg. dict_get pgs pid = Some pg \<and> q \<in> set (pg_permissions pg)))"
  unfolding user_can_on_resource_def user_can_def user_permissions_def foldl_permissions role_can_def Let_def
  by (auto split: option.splits)

lemma default_roles_ordered:
  "role_can default_rbac VIEWER p \<Longrightarrow> role_can default_rbac AGENT p"
  "role_can default_rbac AGENT p \<Longrightarrow> role_can default_rbac USER p"
  "role_can default_rbac USER p \<Longrightarrow> role_can default_rbac GROUP_ADMIN p"
  "role_can default_rbac GROUP_ADMIN p \<Longrightarrow> role_can default_rbac TENANT_ADMIN p"
  "role_can default_rbac TENANT_ADMIN p \<longleftrightarrow> role_can default_rbac PLATFORM_ADMIN p"
  by (auto simp: role_can_def default_rbac_def dict_get_or_def)

end
