(* ===== verification/Task_Store.thy ===== *)
theory Task_Store
  imports Interfaces Py_Value
begin

section \<open>The task store (storage/task_store.py)\<close>

text \<open>
  \<open>TaskRecord\<close> and the in-memory store, the backend every deployment without a reachable
  database runs on. The store is a dictionary from task ids to records; records are
  mutated in place through it, so the model returns the store with the new record. The
  keyword arguments of \<open>update_fields\<close> are the datatype \<open>field_update\<close>: one constructor per
  attribute of the whitelist, and \<open>F_other\<close> for a name outside it. Time stamps are
  microseconds.
\<close>

type_synonym timestamp = int

record task_record =
  tr_id :: string
  tr_agent :: string
  tr_input :: string
  tr_status :: string
  tr_tenant_id :: string
  tr_user_id :: string
  tr_output :: "pydict option"
  tr_error :: "string option"
  tr_started_at :: "timestamp option"
  tr_completed_at :: "timestamp option"
  tr_metadata :: pydict
  tr_owner_id :: string
  tr_assignee_id :: "string option"
  tr_version :: int
  tr_visibility :: string
  tr_created_at :: "timestamp option"
  tr_updated_at :: "timestamp option"

type_synonym task_store = "(string, task_record) dict"

datatype store_error =
    KeyError string
  | VersionConflict string int int task_record
  | ValueError "string list"

subsection \<open>Keyed access\<close>

definition save :: "task_store \<Rightarrow> task_record \<Rightarrow> task_store" where
  "save st r = dict_set st (tr_id r) r"

definition get_task :: "task_store \<Rightarrow> string \<Rightarrow> task_record option" where
  "get_task st tid = dict_get st tid"

definition delete_task :: "task_store \<Rightarrow> string \<Rightarrow> task_store \<times> bool" where
  "delete_task st tid = (if dict_has st tid then (dict_pop st tid, True) else (st, False))"

text \<open>\<open>if tenant_id:\<close> and \<open>if status:\<close> skip the filter on \<open>None\<close> and on the empty string.\<close>

definition opt_filter :: "('a \<Rightarrow> string) \<Rightarrow> string option \<Rightarrow> 'a list \<Rightarrow> 'a list" where
  "opt_filter f sel xs =
     (case sel of None \<Rightarrow> xs | Some v \<Rightarrow> if v = [] then xs else filter (\<lambda>x. f x = v) xs)"

definition list_records ::
  "task_store \<Rightarrow> string option \<Rightarrow> string option \<Rightarrow> int \<Rightarrow> task_record list" where
  "list_records st tenant_id status limit =
     last_slice limit (opt_filter tr_status status (opt_filter tr_tenant_id tenant_id (dict_values st)))"

subsection \<open>Compare-and-swap updates\<close>

datatype field_update =
    F_status string
  | F_output "pydict option"
  | F_error "string option"
  | F_started_at "timestamp option"
  | F_completed_at "timestamp option"
  | F_metadata pydict
  | F_assignee_id "string option"
  | F_visibility string
  | F_user_id string
  | F_other string

fun field_name :: "field_update \<Rightarrow> string" where
  "field_name (F_status _) = ''status''"
| "field_name (F_output _) = ''output''"
| "field_name (F_error _) = ''error''"
| "field_name (F_started_at _) = ''started_at''"
| "field_name (F_completed_at _) = ''completed_at''"
| "field_name (F_metadata _) = ''metadata''"
| "field_name (F_assignee_id _) = ''assignee_id''"
| "field_name (F_visibility _) = ''visibility''"
| "field_name (F_user_id _) = ''user_id''"
| "field_name (F_other k) = k"

definition allowed_fields :: "string list" where
  "allowed_fields =
     [''status'', ''output'', ''error'', ''started_at'', ''completed_at'',
      ''metadata'', ''assignee_id'', ''visibility'', ''user_id'']"

definition bad_fields :: "field_update list \<Rightarrow> string list" where
  "bad_fields fs = filter (\<lambda>k. k \<notin> set allowed_fields) (map field_name fs)"

fun set_field :: "task_record \<Rightarrow> field_update \<Rightarrow> task_record" where
  "set_field r (F_status v) = r\<lparr>tr_status := v\<rparr>"
| "set_field r (F_output v) = r\<lparr>tr_output := v\<rparr>"
| "set_field r (F_error v) = r\<lparr>tr_error := v\<rparr>"
| "set_field r (F_started_at v) = r\<lparr>tr_started_at := v\<rparr>"
| "set_field r (F_completed_at v) = r\<lparr>tr_completed_at := v\<rparr>"
| "set_field r (F_metadata v) = r\<lparr>tr_metadata := v\<rparr>"
| "set_field r (F_assignee_id v) = r\<lparr>tr_assignee_id := v\<rparr>"
| "set_field r (F_visibility v) = r\<lparr>tr_visibility := v\<rparr>"
| "set_field r (F_user_id v) = r\<lparr>tr_user_id := v\<rparr>"
| "set_field r (F_other k) = r"

definition update_fields ::
  "task_store \<Rightarrow> string \<Rightarrow> int \<Rightarrow> field_update list \<Rightarrow> timestamp \<Rightarrow>
   task_store \<times> (store_error + task_record)" where
  "update_fields st tid expected fs now =
     (case dict_get st tid of
        None \<Rightarrow> (st, Inl (KeyError tid))
      | Some rec \<Rightarrow>
          if tr_version rec \<noteq> expected
          then (st, Inl (VersionConflict tid expected (tr_version rec) rec))
          else if bad_fields fs \<noteq> [] then (st, Inl (ValueError (bad_fields fs)))
          else let rec1 = foldl set_field rec fs;
                   rec2 = rec1\<lparr>tr_version := tr_version rec1 + 1, tr_updated_at := Some now\<rparr>
               in (dict_set st tid rec2, Inr rec2))"

definition complete_task ::
  "task_store \<Rightarrow> string \<Rightarrow> int \<Rightarrow> pydict \<Rightarrow> timestamp \<Rightarrow> timestamp \<Rightarrow>
   task_store \<times> (store_error + task_record)" where
  "complete_task st tid expected output now now' =
     update_fields st tid expected
       [F_status ''completed'', F_output (Some output), F_completed_at (Some now)] now'"

definition fail_task ::
  "task_store \<Rightarrow> string \<Rightarrow> int \<Rightarrow> string \<Rightarrow> timestamp \<Rightarrow> timestamp \<Rightarrow>
   task_store \<times> (store_error + task_record)" where
  "fail_task st tid expected err now now' =
     update_fields st tid expected
       [F_status ''failed'', F_error (Some err), F_completed_at (Some now)] now'"

subsection \<open>Well-formed stores\<close>

definition store_ok :: "task_store \<Rightarrow> bool" where
  "store_ok st \<longleftrightarrow> dict_ok st \<and> (\<forall>tid r. get_task st tid = Some r \<longrightarrow> tr_id r = tid)"

lemma set_field_frame [simp]:
  "tr_id (set_field r f) = tr_id r"
  "tr_agent (set_field r f) = tr_agent r"
  "tr_input (set_field r f) = tr_input r"
  "tr_tenant_id (set_field r f) = tr_tenant_id r"
  "tr_owner_id (set_field r f) = tr_owner_id r"
  "tr_version (set_field r f) = tr_version r"
  "tr_created_at (set_field r f) = tr_created_at r"
  by (cases f; simp)+

lemma set_fields_frame [simp]:
  "tr_id (foldl set_field r fs) = tr_id r"
  "tr_agent (foldl set_field r fs) = tr_agent r"
  "tr_input (foldl set_field r fs) = tr_input r"
  "tr_tenant_id (foldl set_field r fs) = tr_tenant_id r"
  "tr_owner_id (foldl set_field r fs) = tr_owner_id r"
  "tr_version (foldl set_field r fs) = tr_version r"
  "tr_created_at (foldl set_field r fs) = tr_created_at r"
  by (induction fs arbitrary: r) simp_all

lemma set_field_other:
  "field_name f \<noteq> ''assignee_id'' \<Longrightarrow> tr_assignee_id (set_field r f) = tr_assignee_id r"
  "field_name f \<noteq> ''status'' \<Longrightarrow> tr_status (set_field r f) = tr_status r"
  "field_name f \<noteq> ''visibility'' \<Longrightarrow> tr_visibility (set_field r f) = tr_visibility r"
  by (cases f; simp)+

lemma store_ok_empty [simp]: "store_ok []"
  by (simp add: store_ok_def get_task_def)

lemma store_ok_save [inv_intros]: "store_ok st \<Longrightarrow> store_ok (save st r)"
  by (auto simp: store_ok_def save_def get_task_def)

lemma store_ok_delete [inv_intros]: "store_ok st \<Longrightarrow> store_ok (fst (delete_task st tid))"
  by (auto simp: store_ok_def delete_task_def get_task_def simp del: map_of_eq_Some_iff split: if_splits)

text \<open>A committed update is a save of the new record; a failed one changes nothing.\<close>

lemma update_fields_commit:
  "store_ok st \<Longrightarrow> update_fields st tid n fs now = (st', Inr r') \<Longrightarrow>
   st' = save st r' \<and> tr_id r' = tid \<and> tr_version r' = n + 1"
  by (auto simp: update_fields_def store_ok_def save_def get_task_def Let_def
      split: option.splits if_splits)

lemma update_fields_abort: "update_fields st tid n fs now = (st', Inl e) \<Longrightarrow> st' = st"
  by (auto simp: update_fields_def Let_def split: option.splits if_splits)

interpretation tasks: cas_store get_task save "\<lambda>st k. fst (delete_task st k)" tr_id store_ok
  tr_version "\<lambda>st k n (f :: field_update list \<times> timestamp). update_fields st k n (fst f) (snd f)"
proof unfold_locales
  show "get_task (save st v) k = (if k = tr_id v then Some v else get_task st k)" for st v k
    by (simp add: get_task_def save_def)
  show "get_task (fst (delete_task st k)) k' = (if k' = k then None else get_task st k')" for st k k'
    by (auto simp: get_task_def delete_task_def)
  show "store_ok (save st v)" if "store_ok st" for st v
    using that by (rule store_ok_save)
  show "store_ok (fst (delete_task st k))" if "store_ok st" for st k
    using that by (rule store_ok_delete)
  show "\<exists>e. update_fields st k n (fst f) (snd f) = (st, Inl e)" if "get_task st k = None"
    for st k n and f :: "field_update list \<times> timestamp"
    using that by (simp add: update_fields_def get_task_def)
  show "\<exists>e. update_fields st k n (fst f) (snd f) = (st, Inl e)"
    if "get_task st k = Some r" "tr_version r \<noteq> n"
    for st k r n and f :: "field_update list \<times> timestamp"
    using that by (simp add: update_fields_def get_task_def)
  show "st' = save st r' \<and> tr_id r' = k \<and> tr_version r' = n + 1"
    if "store_ok st" "update_fields st k n (fst f) (snd f) = (st', Inr r')"
    for st k n st' r' and f :: "field_update list \<times> timestamp"
    using that by (rule update_fields_commit)
  show "st' = st" if "update_fields st k n (fst f) (snd f) = (st', Inl e)"
    for st k n st' e and f :: "field_update list \<times> timestamp"
    using that by (rule update_fields_abort)
qed

lemma store_ok_update [inv_intros]: "store_ok st \<Longrightarrow> store_ok (fst (update_fields st tid n fs now))"
  using tasks.cas_inv[of st tid n "(fs, now)"] by simp

subsection \<open>Properties\<close>

text \<open>Every outcome of \<open>update_fields\<close>: a missing id is a \<open>KeyError\<close>, another version a
  \<open>VersionConflict\<close> that carries the stored record, a name outside the whitelist a
  \<open>ValueError\<close>, in this order and with the store untouched; otherwise the named fields are
  written, the version is incremented, the time stamp set, and the id, agent, input,
  tenant, owner and creation time of the record and every other record stay as they were.\<close>

theorem update_fields_outcomes:
  assumes "store_ok st"
  shows "case update_fields st tid n fs now of (st', res) \<Rightarrow>
    (case res of
       Inl (KeyError k) \<Rightarrow> get_task st tid = None \<and> k = tid \<and> st' = st
     | Inl (VersionConflict k e a cur) \<Rightarrow>
         get_task st tid = Some cur \<and> a = tr_version cur \<and> a \<noteq> n \<and> e = n \<and> k = tid \<and> st' = st
     | Inl (ValueError ks) \<Rightarrow>
         (\<exists>r. get_task st tid = Some r \<and> tr_version r = n) \<and> st' = st \<and> ks \<noteq> [] \<and>
         set ks = {k \<in> field_name ` set fs. k \<notin> set allowed_fields}
     | Inr r' \<Rightarrow>
         (\<exists>r. get_task st tid = Some r \<and> tr_version r = n \<and> tr_version r' = n + 1 \<and>
            tr_updated_at r' = Some now \<and>
            (tr_id r', tr_agent r', tr_input r', tr_tenant_id r', tr_owner_id r', tr_created_at r') =
            (tr_id r, tr_agent r, tr_input r, tr_tenant_id r, tr_owner_id r, tr_created_at r) \<and>
            field_name ` set fs \<subseteq> set allowed_fields) \<and>
         (\<forall>k. get_task st' k = (if k = tid then Some r' else get_task st k)) \<and> store_ok st')"
proof (cases "get_task st tid")
  case None
  then show ?thesis by (simp add: update_fields_def get_task_def)
next
  case (Some r)
  show ?thesis
  proof (cases "tr_version r \<noteq> n \<or> bad_fields fs \<noteq> []")
    case True
    with Some show ?thesis
      by (auto simp: update_fields_def get_task_def bad_fields_def)
  next
    case False
    then have "field_name ` set fs \<subseteq> set allowed_fields"
      by (auto simp: bad_fields_def filter_empty_conv)
    moreover have "store_ok (fst (update_fields st tid n fs now))"
      using assms by (rule store_ok_update)
    ultimately show ?thesis
      using Some False by (auto simp: update_fields_def get_task_def Let_def)
  qed
qed

definition sample_record :: "string \<Rightarrow> string \<Rightarrow> int \<Rightarrow> task_record" where
  "sample_record tid owner v =
     \<lparr> tr_id = tid, tr_agent = ''tech'', tr_input = ''do it'', tr_status = ''pending'',
       tr_tenant_id = ''acme'', tr_user_id = owner, tr_output = None, tr_error = None,
       tr_started_at = None, tr_completed_at = None, tr_metadata = [], tr_owner_id = owner,
       tr_assignee_id = None, tr_version = v, tr_visibility = ''private'',
       tr_created_at = Some 0, tr_updated_at = Some 0 \<rparr>"

theorem update_fields_outcomes_witness:
  "\<exists>st' r'. update_fields (save [] (sample_record ''t1'' ''ann'' 3)) ''t1'' 3
      [F_assignee_id (Some ''bob'')] 9 = (st', Inr r') \<and> tr_version r' = 4 \<and> store_ok st'"
proof -
  let ?r = "sample_record ''t1'' ''ann'' 3"
  let ?r' = "?r\<lparr>tr_assignee_id := Some ''bob'', tr_version := 4, tr_updated_at := Some 9\<rparr>"
  have ok: "store_ok (save [] ?r)" by (intro store_ok_save store_ok_empty)
  have ev: "update_fields (save [] ?r) ''t1'' 3 [F_assignee_id (Some ''bob'')] 9 =
      (save [] ?r', Inr ?r')"
    by (simp add: update_fields_def save_def sample_record_def bad_fields_def allowed_fields_def Let_def)
  show ?thesis
    using update_fields_outcomes[OF ok, of "''t1''" 3 "[F_assignee_id (Some ''bob'')]" 9]
    unfolding ev by auto
qed

text \<open>How many of a list of competing updates with one expected version commit.\<close>

fun commit_count ::
  "task_store \<Rightarrow> string \<Rightarrow> int \<Rightarrow> (field_update list \<times> timestamp) list \<Rightarrow> nat" where
  "commit_count st tid n [] = 0"
| "commit_count st tid n (f # fs) =
     (case update_fields st tid n (fst f) (snd f) of (st', res) \<Rightarrow>
        (case res of Inl e \<Rightarrow> 0 | Inr r \<Rightarrow> 1) + commit_count st' tid n fs)"

lemma commit_count_eq: "commit_count st tid n fs = tasks.commits st tid n fs"
  by (induction fs arbitrary: st) (simp_all split: prod.splits)

text \<open>C5: No lost updates: of any number of writers that read the same version of a task, in
  whatever order their updates arrive and whatever fields they write, at most one commits.\<close>

theorem update_fields_no_lost_update:
  "store_ok st \<Longrightarrow> commit_count st tid n fs \<le> 1"
  unfolding commit_count_eq by (rule tasks.commits_at_most_one)

theorem update_fields_no_lost_update_witness:
  "commit_count (save [] (sample_record ''t1'' ''ann'' 1)) ''t1'' 1
     [([F_assignee_id (Some ''bob'')], 5), ([F_assignee_id (Some ''cid'')], 6)] \<le> 1"
  by (rule update_fields_no_lost_update) (intro store_ok_save store_ok_empty)

lemma opt_filter_set: "set (opt_filter f sel xs) \<subseteq> set xs"
  by (auto simp: opt_filter_def split: option.splits)

lemma list_records_sub: "set (list_records st tn stt l) \<subseteq> set (dict_values st)"
  unfolding list_records_def by (meson opt_filter_set order_trans set_last_slice)

lemma opt_filter_match:
  "x \<in> set (opt_filter f (Some v) xs) \<Longrightarrow> v \<noteq> [] \<Longrightarrow> f x = v"
  by (simp add: opt_filter_def)

lemma list_records_tenant:
  assumes "r \<in> set (list_records st (Some t) stt l)" and "t \<noteq> []"
  shows "tr_tenant_id r = t"
proof -
  from assms(1) have "r \<in> set (opt_filter tr_tenant_id (Some t) (dict_values st))"
    unfolding list_records_def using set_last_slice opt_filter_set by fast
  with assms(2) show ?thesis using opt_filter_match by fast
qed

text \<open>Listing for a tenant returns stored records of that tenant (and of the asked status)
  only, at most \<open>limit\<close> of them for a positive limit, and they are the most recently
  inserted ones, in insertion order.\<close>

theorem list_records_recent:
  assumes "store_ok st" and "0 < limit" and "t \<noteq> []" and "s \<noteq> []"
  shows "length (list_records st (Some t) (Some s) limit) \<le> nat limit \<and>
    suffix (list_records st (Some t) (Some s) limit)
      (filter (\<lambda>r. tr_tenant_id r = t \<and> tr_status r = s) (dict_values st)) \<and>
    (\<forall>r \<in> set (list_records st (Some t) (Some s) limit).
       get_task st (tr_id r) = Some r \<and> tr_tenant_id r = t \<and> tr_status r = s)"
proof -
  let ?m = "filter (\<lambda>r. tr_tenant_id r = t \<and> tr_status r = s) (dict_values st)"
  have eq: "list_records st (Some t) (Some s) limit = last_slice limit ?m"
    using assms(3,4) by (simp add: list_records_def opt_filter_def conj_commute)
  have "set (last_slice limit ?m) \<subseteq> set ?m" by (rule set_last_slice)
  moreover have "get_task st (tr_id r) = Some r" if "r \<in> set (dict_values st)" for r
    using that assms(1) dict_values_get[of st r] by (auto simp: store_ok_def get_task_def)
  ultimately show ?thesis
    using assms(2) by (auto simp: eq length_last_slice last_slice_def suffix_drop)
qed

theorem list_records_recent_witness:
  "length (list_records (save (save [] (sample_record ''t1'' ''ann'' 1)) (sample_record ''t2'' ''ann'' 1))
     (Some ''acme'') (Some ''pending'') 1) \<le> nat 1"
  by (rule list_records_recent[THEN conjunct1]) (simp_all add: store_ok_save)

text \<open>A limit of zero is Python's \<open>out[-0:]\<close>: the whole list, not the empty one.\<close>

lemma list_records_zero: "list_records st None None 0 = dict_values st"
  by (simp add: list_records_def opt_filter_def last_slice_def)

end
