(* ===== verification/Event_Bus.thy ===== *)
theory Event_Bus
  imports Interfaces Py_Value
begin

section \<open>The event bus (core/event_bus.py)\<close>

text \<open>
  Subscriptions with their filters, matching with the trailing or leading wildcard, and
  \<open>publish\<close>, which calls every matching handler in subscription order and swallows what it
  raises. A handler is a function from the world it acts on and the event to the new world
  and whether it raised; handlers that change the subscriptions of the bus they are called
  from are not modelled. The disk log is a list of events, with a flag for a write that
  fails.
\<close>

datatype event_category = CAT_AGENT | CAT_ESCALATION | CAT_VALIDATION | CAT_SYSTEM

datatype event_severity = DEBUG | INFO | WARNING | ERROR | CRITICAL

text \<open>\<open>list(EventSeverity).index\<close>: the declaration order.\<close>

fun severity_index :: "event_severity \<Rightarrow> nat" where
  "severity_index DEBUG = 0"
| "severity_index INFO = 1"
| "severity_index WARNING = 2"
| "severity_index ERROR = 3"
| "severity_index CRITICAL = 4"

lemma severity_index_inj: "severity_index a = severity_index b \<Longrightarrow> a = b"
  by (cases a; cases b) simp_all

instantiation event_severity :: linorder
begin

definition less_eq_event_severity :: "event_severity \<Rightarrow> event_severity \<Rightarrow> bool" where
  "less_eq_event_severity a b = (severity_index a \<le> severity_index b)"

definition less_event_severity :: "event_severity \<Rightarrow> event_severity \<Rightarrow> bool" where
  "less_event_severity a b = (severity_index a < severity_index b)"

instance
  by standard (auto simp: less_eq_event_severity_def less_event_severity_def severity_index_inj)

end

record event =
  ev_id :: string
  ev_category :: event_category
  ev_name :: string
  ev_source :: string
  ev_severity :: event_severity
  ev_data :: pydict
  ev_trace_id :: string
  ev_tenant_id :: string

record 'w subscription =
  sub_id :: string
  sub_event_name :: "string option"
  sub_category :: "event_category option"
  sub_source :: "string option"
  sub_severity_min :: "event_severity option"
  sub_handler :: "'w \<Rightarrow> event \<Rightarrow> 'w \<times> bool"

record 'w event_bus =
  bus_subs :: "'w subscription list"
  bus_counter :: nat
  bus_log :: "event list option"

definition empty_bus :: "'w event_bus" where
  "empty_bus = \<lparr> bus_subs = [], bus_counter = 0, bus_log = None \<rparr>"

definition enable_logging :: "'w event_bus \<Rightarrow> 'w event_bus" where
  "enable_logging b = b\<lparr>bus_log := Some (case bus_log b of None \<Rightarrow> [] | Some es \<Rightarrow> es)\<rparr>"

definition subscribe ::
  "'w event_bus \<Rightarrow> ('w \<Rightarrow> event \<Rightarrow> 'w \<times> bool) \<Rightarrow> string option \<Rightarrow> event_category option \<Rightarrow>
   string option \<Rightarrow> event_severity option \<Rightarrow> 'w event_bus \<times> string" where
  "subscribe b handler name cat src sevmin =
     (let n = bus_counter b + 1; sid = ''sub-'' @ show_nat n in
      (b\<lparr>bus_counter := n,
         bus_subs := bus_subs b @
           [\<lparr> sub_id = sid, sub_event_name = name, sub_category = cat, sub_source = src,
              sub_severity_min = sevmin, sub_handler = handler \<rparr>]\<rparr>, sid))"

definition unsubscribe :: "'w event_bus \<Rightarrow> string \<Rightarrow> 'w event_bus \<times> bool" where
  "unsubscribe b sid =
     (let rest = filter (\<lambda>s. sub_id s \<noteq> sid) (bus_subs b) in
      (b\<lparr>bus_subs := rest\<rparr>, length rest < length (bus_subs b)))"

definition wildcard_match :: "string \<Rightarrow> string \<Rightarrow> bool" where
  "wildcard_match v pat =
     (if suffix ''*'' pat then prefix (butlast pat) v
      else if prefix ''*'' pat then suffix (tl pat) v
      else v = pat)"

text \<open>A filter is skipped when it is \<open>None\<close> (or, for strings, empty).\<close>

definition sub_matches :: "event \<Rightarrow> 'w subscription \<Rightarrow> bool" where
  "sub_matches e s =
     (if (case sub_event_name s of None \<Rightarrow> False | Some p \<Rightarrow> p \<noteq> [] \<and> \<not> wildcard_match (ev_name e) p)
      then False
      else if (case sub_category s of None \<Rightarrow> False | Some c \<Rightarrow> ev_category e \<noteq> c) then False
      else if (case sub_source s of None \<Rightarrow> False | Some x \<Rightarrow> x \<noteq> [] \<and> ev_source e \<noteq> x) then False
      else (case sub_severity_min s of None \<Rightarrow> True | Some m \<Rightarrow> \<not> ev_severity e < m))"

fun dispatch_to :: "'w subscription list \<Rightarrow> event \<Rightarrow> 'w \<Rightarrow> 'w \<times> string list" where
  "dispatch_to [] e w = (w, [])"
| "dispatch_to (s # ss) e w =
     (if sub_matches e s
      then let (w1, raised) = sub_handler s w e;
               (w2, called) = dispatch_to ss e w1
           in (w2, sub_id s # called)
      else dispatch_to ss e w)"

text \<open>
  \<open>publish\<close>: the optional disk write (\<open>log_ok\<close> says whether it succeeds), then the
  dispatch. The second component lists the subscriptions whose handler was called.
\<close>

definition publish :: "'w event_bus \<Rightarrow> bool \<Rightarrow> event \<Rightarrow> 'w \<Rightarrow> 'w event_bus \<times> 'w \<times> string list" where
  "publish b log_ok e w =
     (let b' = (case bus_log b of None \<Rightarrow> b
                | Some es \<Rightarrow> if log_ok then b\<lparr>bus_log := Some (es @ [e])\<rparr> else b);
          (w', called) = dispatch_to (bus_subs b) e w
      in (b', w', called))"

definition count_subscribers :: "'w event_bus \<Rightarrow> nat" where
  "count_subscribers b = length (bus_subs b)"

definition clear_bus :: "'w event_bus \<Rightarrow> 'w event_bus" where
  "clear_bus b = b\<lparr>bus_subs := []\<rparr>"

definition make_event ::
  "event_category \<Rightarrow> string \<Rightarrow> string \<Rightarrow> pydict \<Rightarrow> event_severity \<Rightarrow> string \<Rightarrow> string \<Rightarrow>
   string \<Rightarrow> string \<Rightarrow> event" where
  "make_event cat name src data sev trace tenant hex1 hex2 =
     \<lparr> ev_id = ''evt-'' @ hex1, ev_category = cat, ev_name = name, ev_source = src,
       ev_severity = sev, ev_data = data,
       ev_trace_id = (if trace = [] then ''trace-'' @ hex2 else trace), ev_tenant_id = tenant \<rparr>"

subsection \<open>Properties\<close>

text \<open>Subscription ids stay distinct: each is numbered by the counter, which only grows.\<close>

definition bus_ok :: "'w event_bus \<Rightarrow> bool" where
  "bus_ok b \<longleftrightarrow> distinct (map sub_id (bus_subs b)) \<and>
     (\<forall>s \<in> set (bus_subs b). \<exists>n \<le> bus_counter b. sub_id s = ''sub-'' @ show_nat n)"

lemma bus_ok_empty: "bus_ok empty_bus"
  by (simp add: bus_ok_def empty_bus_def)

lemma bus_ok_subscribe [inv_intros]:
  assumes "bus_ok b"
  shows "bus_ok (fst (subscribe b h name cat src sv))"
proof -
  have "sub_id s \<noteq> ''sub-'' @ show_nat (bus_counter b + 1)" if "s \<in> set (bus_subs b)" for s
  proof -
    from assms that obtain n where "n \<le> bus_counter b" "sub_id s = ''sub-'' @ show_nat n"
      by (auto simp: bus_ok_def)
    then show ?thesis using show_nat_inj[of n "bus_counter b + 1"] by auto
  qed
  moreover have "\<exists>n \<le> bus_counter b + 1. sub_id s = ''sub-'' @ show_nat n" if "s \<in> set (bus_subs b)" for s
    using assms that by (meson bus_ok_def trans_le_add1)
  ultimately show ?thesis
    using assms by (auto simp: bus_ok_def subscribe_def Let_def)
qed

lemma bus_ok_unsubscribe [inv_intros]: "bus_ok b \<Longrightarrow> bus_ok (fst (unsubscribe b sid))"
  by (auto simp: bus_ok_def unsubscribe_def Let_def distinct_map_filter)

lemma snd_dispatch_to: "snd (dispatch_to ss e w) = map sub_id (filter (sub_matches e) ss)"
  by (induction ss arbitrary: w) (simp_all add: Let_def split_beta)

text \<open>Publishing calls the handler of every matching subscription exactly once, in
  subscription order, whether or not earlier handlers raise; with distinct subscription ids
  (kept by subscribing and unsubscribing) an id that was unsubscribed is never called again.\<close>

theorem publish_calls_every_match:
  assumes "bus_ok b"
  shows "snd (snd (publish b log_ok e w)) = map sub_id (filter (sub_matches e) (bus_subs b)) \<and>
    distinct (snd (snd (publish b log_ok e w))) \<and>
    sid \<notin> set (snd (snd (publish (fst (unsubscribe b sid)) log_ok e w)))"
  using assms
  by (auto simp: publish_def Let_def snd_dispatch_to bus_ok_def distinct_map_filter
      unsubscribe_def split_beta)

theorem publish_calls_every_match_witness:
  "snd (snd (publish (fst (subscribe (empty_bus :: nat event_bus) (\<lambda>w e. (w + 1, True)) None None None None))
     True (make_event CAT_AGENT ''task.started'' ''tech'' [] INFO [] ''default'' ''a'' ''b'') 0)) = [''sub-1'']"
proof -
  have ok: "bus_ok (fst (subscribe (empty_bus :: nat event_bus) (\<lambda>w e. (w + 1, True)) None None None None))"
    by (intro bus_ok_subscribe bus_ok_empty)
  show ?thesis
    using publish_calls_every_match[OF ok, of True
        "make_event CAT_AGENT ''task.started'' ''tech'' [] INFO [] ''default'' ''a'' ''b''" 0 "''x''"]
    by (simp add: subscribe_def empty_bus_def sub_matches_def show_nat_1 Let_def)
qed

text \<open>A pattern that both starts and ends with a star is not a substring match: the leading
  star is taken literally.\<close>

lemma double_star_is_literal: "\<not> wildcard_match ''agent.task.done'' ''*task*''"
  by (simp add: wildcard_match_def suffix_def)

end
