(* ===== verification/Checkpoint.thy ===== *)
theory Checkpoint
  imports Event_Bus "HOL-Library.Multiset"
begin

section \<open>Failure handling, checkpoints and live progress\<close>

text \<open>
  Models \<open>core/failure_ux.py\<close> (task types and timeouts, the error classifier, the task
  checkpoint with its steps, the checkpoint store, the timeout monitor) and
  \<open>core/checkpoint_tracker.py\<close> (the hot map of running tasks over the store). The store is a
  dictionary of the checkpoints on disk; each disk access takes a flag that says whether it
  succeeds. A checkpoint that went to disk has lost its private deadline. Recorded time
  stamps are microseconds, clock readings and deadlines are seconds.
\<close>

subsection \<open>Task types and timeouts\<close>

datatype task_type = QUICK | STANDARD | COMPLEX | LONG | BATCH

fun timeout_seconds_of :: "task_type \<Rightarrow> int" where
  "timeout_seconds_of QUICK = 60"
| "timeout_seconds_of STANDARD = 300"
| "timeout_seconds_of COMPLEX = 1800"
| "timeout_seconds_of LONG = 7200"
| "timeout_seconds_of BATCH = 86400"

definition estimate_task_type :: "string \<Rightarrow> task_type" where
  "estimate_task_type task_input =
     (let s = lower task_input in
      if any_in [''batch'', ''bulk'', ''mass'', ''all users'', ''full''] s then BATCH
      else if any_in [''complex'', ''comprehensive'', ''end-to-end'', ''full pipeline'', ''migration''] s
      then LONG
      else if any_in [''design'', ''architecture'', ''multi-step'', ''pipeline''] s then COMPLEX
      else if any_in [''quick'', ''simple'', ''tiny'', ''small''] s \<or> length task_input < 50 then QUICK
      else STANDARD)"

text \<open>The tracker's own estimate (\<open>CheckpointTracker._estimate_type\<close>).\<close>

definition tracker_estimate_type :: "string \<Rightarrow> task_type" where
  "tracker_estimate_type txt =
     (let s = lower txt in
      if any_in [''batch'', ''bulk'', ''mass''] s then BATCH
      else if any_in [''complex'', ''end-to-end'', ''pipeline''] s then LONG
      else if any_in [''design'', ''multi-step''] s then COMPLEX
      else if length txt < 50 then QUICK
      else STANDARD)"

subsection \<open>Friendly errors\<close>

datatype error_category =
    EC_NETWORK | EC_VALIDATION | EC_PERMISSION | EC_CAPABILITY | EC_RESOURCE | EC_INTERNAL | EC_LLM

definition classify_error :: "string \<Rightarrow> error_category" where
  "classify_error msg =
     (let s = lower msg in
      if any_in [''timeout'', ''connection'', ''network'', ''refused'', ''reset''] s then EC_NETWORK
      else if any_in [''permission'', ''denied'', ''forbidden'', ''unauthorized''] s then EC_PERMISSION
      else if any_in [''not found'', ''does not exist'', ''missing''] s then EC_RESOURCE
      else if any_in [''invalid'', ''validation'', ''bad request''] s then EC_VALIDATION
      else if any_in [''rate limit'', ''quota'', ''limit''] s then EC_NETWORK
      else if any_in [''capability'', ''cannot'', ''unable''] s then EC_CAPABILITY
      else if any_in [''api'', ''model'', ''token'', ''anthropic''] s then EC_LLM
      else EC_INTERNAL)"

record friendly_error =
  fe_message :: string
  fe_category :: error_category
  fe_can_retry :: bool
  fe_can_change_agent :: bool

definition friendly_from_exception :: "string \<Rightarrow> friendly_error" where
  "friendly_from_exception msg =
     (let cat = classify_error msg in
      \<lparr> fe_message = take 300 msg, fe_category = cat,
        fe_can_retry = (cat \<in> {EC_NETWORK, EC_LLM, EC_INTERNAL}),
        fe_can_change_agent = (cat = EC_CAPABILITY) \<rparr>)"

subsection \<open>Steps and checkpoints\<close>

record step_record =
  st_step_id :: string
  st_name :: string
  st_status :: string
  st_started_at :: "int option"
  st_completed_at :: "int option"
  st_output :: pydict
  st_error :: "string option"

record error_entry =
  ee_step_id :: string
  ee_error :: "string option"
  ee_timestamp :: int

record checkpoint =
  cp_task_id :: string
  cp_agent_name :: string
  cp_task_type :: task_type
  cp_completed_steps :: "step_record list"
  cp_pending_steps :: "step_record list"
  cp_intermediate_outputs :: "(string, pydict) dict"
  cp_error_history :: "error_entry list"
  cp_started_at :: int
  cp_updated_at :: int
  cp_can_resume :: bool
  cp_timeout_seconds :: int
  cp_deadline :: "rat option"

definition cp_start :: "checkpoint \<Rightarrow> rat \<Rightarrow> checkpoint" where
  "cp_start cp clock = cp\<lparr>cp_deadline := Some (clock + of_int (cp_timeout_seconds cp))\<rparr>"

definition is_expired :: "checkpoint \<Rightarrow> rat \<Rightarrow> bool" where
  "is_expired cp clock = (case cp_deadline cp of None \<Rightarrow> False | Some d \<Rightarrow> clock > d)"

text \<open>\<open>int(x)\<close> truncates towards zero; the maximum with 0 follows.\<close>

definition remaining_seconds :: "checkpoint \<Rightarrow> rat \<Rightarrow> int" where
  "remaining_seconds cp clock =
     (case cp_deadline cp of
        None \<Rightarrow> cp_timeout_seconds cp
      | Some d \<Rightarrow> max 0 (if d - clock < 0 then \<lceil>d - clock\<rceil> else \<lfloor>d - clock\<rfloor>))"

definition cp_progress :: "checkpoint \<Rightarrow> rat" where
  "cp_progress cp =
     (let total = length (cp_completed_steps cp) + length (cp_pending_steps cp) in
      if total = 0 then 0 else of_nat (length (cp_completed_steps cp)) / of_nat total)"

text \<open>
  The loops over the step lists act on the first step with the given id. \<open>pending.remove\<close>
  removes the first step equal to the one just changed, which is that step: a step before
  it has another id.
\<close>

fun split_step :: "string \<Rightarrow> step_record list \<Rightarrow> (step_record list \<times> step_record \<times> step_record list) option" where
  "split_step sid [] = None"
| "split_step sid (s # ss) =
     (if st_step_id s = sid then Some ([], s, ss)
      else case split_step sid ss of
             None \<Rightarrow> None
           | Some (pre, x, post) \<Rightarrow> Some (s # pre, x, post))"

definition cp_complete_step :: "checkpoint \<Rightarrow> string \<Rightarrow> pydict option \<Rightarrow> int \<Rightarrow> checkpoint" where
  "cp_complete_step cp sid output now =
     (let out = (case output of None \<Rightarrow> [] | Some d \<Rightarrow> d) in
      case split_step sid (cp_pending_steps cp) of
        Some (pre, s, post) \<Rightarrow>
          cp\<lparr>cp_completed_steps := cp_completed_steps cp @
               [s\<lparr>st_status := ''completed'', st_completed_at := Some now, st_output := out\<rparr>],
             cp_pending_steps := pre @ post,
             cp_updated_at := now\<rparr>
      | None \<Rightarrow>
          (case split_step sid (cp_completed_steps cp) of
             Some (pre, s, post) \<Rightarrow>
               cp\<lparr>cp_completed_steps := pre @ [s\<lparr>st_output := out\<rparr>] @ post\<rparr>
           | None \<Rightarrow> cp))"

definition cp_fail_step :: "checkpoint \<Rightarrow> string \<Rightarrow> string option \<Rightarrow> int \<Rightarrow> checkpoint" where
  "cp_fail_step cp sid err now =
     (case split_step sid (cp_pending_steps cp) of
        Some (pre, s, post) \<Rightarrow>
          cp\<lparr>cp_completed_steps := cp_completed_steps cp @
               [s\<lparr>st_status := ''failed'', st_error := err\<rparr>],
             cp_pending_steps := pre @ post,
             cp_updated_at := now,
             cp_error_history := cp_error_history cp @
               [\<lparr> ee_step_id = sid, ee_error = err, ee_timestamp = now \<rparr>]\<rparr>
      | None \<Rightarrow> cp)"

definition cp_add_error :: "checkpoint \<Rightarrow> string \<Rightarrow> int \<Rightarrow> checkpoint" where
  "cp_add_error cp err now =
     cp\<lparr>cp_error_history := cp_error_history cp @
          [\<lparr> ee_step_id = ''general'', ee_error = Some err, ee_timestamp = now \<rparr>],
        cp_updated_at := now\<rparr>"

record resume_context =
  rc_task_id :: string
  rc_completed :: "string list"
  rc_pending :: "string list"
  rc_intermediate_outputs :: "(string, pydict) dict"
  rc_error_history :: "error_entry list"
  rc_remaining_seconds :: int

definition to_resume_context :: "checkpoint \<Rightarrow> rat \<Rightarrow> resume_context" where
  "to_resume_context cp clock =
     \<lparr> rc_task_id = cp_task_id cp,
       rc_completed = map st_step_id (cp_completed_steps cp),
       rc_pending = map st_step_id (cp_pending_steps cp),
       rc_intermediate_outputs = cp_intermediate_outputs cp,
       rc_error_history = last_slice 3 (cp_error_history cp),
       rc_remaining_seconds = remaining_seconds cp clock \<rparr>"

subsection \<open>The checkpoint store\<close>

type_synonym cp_disk = "(string, checkpoint) dict"

definition cs_save :: "cp_disk \<Rightarrow> bool \<Rightarrow> checkpoint \<Rightarrow> cp_disk \<times> bool" where
  "cs_save disk io cp =
     (if io then (dict_set disk (cp_task_id cp) (cp\<lparr>cp_deadline := None\<rparr>), True) else (disk, False))"

definition cs_load :: "cp_disk \<Rightarrow> bool \<Rightarrow> string \<Rightarrow> checkpoint option" where
  "cs_load disk io tid =
     (case dict_get disk tid of None \<Rightarrow> None | Some cp \<Rightarrow> if io then Some cp else None)"

definition cs_delete :: "cp_disk \<Rightarrow> string \<Rightarrow> cp_disk \<times> bool" where
  "cs_delete disk tid = (if dict_has disk tid then (dict_pop disk tid, True) else (disk, False))"

definition cs_list_active :: "cp_disk \<Rightarrow> string list" where
  "cs_list_active disk = map fst disk"

subsection \<open>The live tracker (core/checkpoint_tracker.py)\<close>

record tracker =
  tk_live :: "(string, checkpoint) dict"
  tk_disk :: cp_disk
  tk_tenants :: "(string, string) dict"

record live_progress =
  lp_task_id :: string
  lp_status :: string
  lp_progress :: rat
  lp_current_step :: string
  lp_current_step_id :: string
  lp_completed_steps :: "string list"
  lp_pending_steps :: "string list"
  lp_error :: "string option"
  lp_started_at :: int
  lp_updated_at :: int
  lp_output :: "pydict option"
  lp_tenant_id :: string

definition new_step :: "string \<Rightarrow> string \<Rightarrow> int \<Rightarrow> step_record" where
  "new_step sid name now =
     \<lparr> st_step_id = sid, st_name = name, st_status = ''pending'', st_started_at = Some now,
       st_completed_at = None, st_output = [], st_error = None \<rparr>"

definition tk_start ::
  "tracker \<Rightarrow> bool \<Rightarrow> string \<Rightarrow> string \<Rightarrow> string \<Rightarrow> string \<Rightarrow> int \<Rightarrow> rat \<Rightarrow> tracker \<times> checkpoint" where
  "tk_start tk io task_id agent_name task_input tenant_id now clock =
     (let cp0 = \<lparr> cp_task_id = task_id, cp_agent_name = agent_name,
            cp_task_type = tracker_estimate_type task_input,
            cp_completed_steps = [],
            cp_pending_steps = [new_step ''do_work'' (''Run '' @ agent_name) now],
            cp_intermediate_outputs = [], cp_error_history = [],
            cp_started_at = now, cp_updated_at = now, cp_can_resume = True,
            cp_timeout_seconds = 300, cp_deadline = None \<rparr>;
          cp = cp_start cp0 clock
      in (tk\<lparr>tk_tenants := dict_set (tk_tenants tk) task_id tenant_id,
             tk_live := dict_set (tk_live tk) task_id cp,
             tk_disk := fst (cs_save (tk_disk tk) io cp)\<rparr>, cp))"

text \<open>Store a changed live checkpoint back and save it.\<close>

definition tk_put :: "tracker \<Rightarrow> bool \<Rightarrow> string \<Rightarrow> checkpoint \<Rightarrow> tracker" where
  "tk_put tk io tid cp =
     tk\<lparr>tk_live := dict_set (tk_live tk) tid cp, tk_disk := fst (cs_save (tk_disk tk) io cp)\<rparr>"

definition tk_complete_step ::
  "tracker \<Rightarrow> bool \<Rightarrow> string \<Rightarrow> string \<Rightarrow> pydict option \<Rightarrow> int \<Rightarrow> tracker" where
  "tk_complete_step tk io tid sid output now =
     (case dict_get (tk_live tk) tid of
        None \<Rightarrow> tk
      | Some cp \<Rightarrow>
          let cp1 = cp_complete_step cp sid output now;
              cp2 = (case output of None \<Rightarrow> cp1
                     | Some d \<Rightarrow> cp1\<lparr>cp_intermediate_outputs := dict_set (cp_intermediate_outputs cp1) sid d\<rparr>)
          in tk_put tk io tid (cp2\<lparr>cp_updated_at := now\<rparr>))"

definition tk_add_step :: "tracker \<Rightarrow> bool \<Rightarrow> string \<Rightarrow> string \<Rightarrow> string \<Rightarrow> int \<Rightarrow> tracker \<times> bool" where
  "tk_add_step tk io tid sid name now =
     (case dict_get (tk_live tk) tid of
        None \<Rightarrow> (tk, False)
      | Some cp \<Rightarrow>
          (tk_put tk io tid
             (cp\<lparr>cp_pending_steps := cp_pending_steps cp @ [new_step sid name now],
                 cp_updated_at := now\<rparr>), True))"

definition tk_fail_step :: "tracker \<Rightarrow> bool \<Rightarrow> string \<Rightarrow> string \<Rightarrow> string option \<Rightarrow> int \<Rightarrow> tracker" where
  "tk_fail_step tk io tid sid err now =
     (case dict_get (tk_live tk) tid of
        None \<Rightarrow> tk
      | Some cp \<Rightarrow> tk_put tk io tid ((cp_fail_step cp sid err now)\<lparr>cp_updated_at := now\<rparr>))"

definition tk_finish :: "tracker \<Rightarrow> bool \<Rightarrow> string \<Rightarrow> bool \<Rightarrow> pydict option \<Rightarrow> int \<Rightarrow> tracker" where
  "tk_finish tk io tid success output now =
     (let tk1 =
        (case dict_get (tk_live tk) tid of
           None \<Rightarrow> tk
         | Some cp \<Rightarrow>
             let cp1 = (if success then cp_complete_step cp ''do_work'' output now else cp)
             in tk_put tk io tid (cp1\<lparr>cp_updated_at := now\<rparr>))
      in tk1\<lparr>tk_live := dict_pop (tk_live tk1) tid\<rparr>)"

definition to_progress :: "tracker \<Rightarrow> checkpoint \<Rightarrow> string \<Rightarrow> live_progress" where
  "to_progress tk cp status =
     (let cur = find (\<lambda>s. st_status s \<noteq> ''completed'') (cp_pending_steps cp) in
      \<lparr> lp_task_id = cp_task_id cp, lp_status = status,
        lp_progress = (if cp_pending_steps cp = [] then 1 else cp_progress cp),
        lp_current_step = (case cur of None \<Rightarrow> [] | Some s \<Rightarrow> st_name s),
        lp_current_step_id = (case cur of None \<Rightarrow> [] | Some s \<Rightarrow> st_step_id s),
        lp_completed_steps = map st_step_id (cp_completed_steps cp),
        lp_pending_steps = map st_step_id (cp_pending_steps cp),
        lp_error = (if cp_error_history cp = [] then None
                    else ee_error (last (cp_error_history cp))),
        lp_started_at = cp_started_at cp, lp_updated_at = cp_updated_at cp,
        lp_output = dict_get (cp_intermediate_outputs cp) ''do_work'',
        lp_tenant_id = dict_get_or (tk_tenants tk) (cp_task_id cp) ''default'' \<rparr>)"

definition status_of :: "checkpoint \<Rightarrow> string" where
  "status_of cp =
     (if \<exists>s \<in> set (cp_completed_steps cp). st_status s = ''failed'' then ''failed''
      else if \<exists>s \<in> set (cp_pending_steps cp). st_status s \<noteq> ''completed'' then ''running''
      else ''completed'')"

definition get_live :: "tracker \<Rightarrow> bool \<Rightarrow> string \<Rightarrow> live_progress option" where
  "get_live tk io tid =
     (case dict_get (tk_live tk) tid of
        Some cp \<Rightarrow> Some (to_progress tk cp (status_of cp))
      | None \<Rightarrow>
          (case cs_load (tk_disk tk) io tid of
             Some cp \<Rightarrow> Some (to_progress tk cp (status_of cp))
           | None \<Rightarrow> None))"

definition tk_list_active :: "tracker \<Rightarrow> string list" where
  "tk_list_active tk = map fst (tk_live tk)"

subsection \<open>The timeout monitor\<close>

type_synonym timeout_monitor = "(string, checkpoint) dict"

definition monitor_register :: "timeout_monitor \<Rightarrow> checkpoint \<Rightarrow> timeout_monitor" where
  "monitor_register m cp = dict_set m (cp_task_id cp) cp"

definition check_expired :: "timeout_monitor \<Rightarrow> rat \<Rightarrow> string list" where
  "check_expired m clock = map fst (filter (\<lambda>kv. is_expired (snd kv) clock) m)"

definition handle_expired ::
  "timeout_monitor \<Rightarrow> 'w event_bus \<Rightarrow> bool \<Rightarrow> string \<Rightarrow> string \<Rightarrow> string \<Rightarrow> 'w \<Rightarrow> 'w event_bus \<times> 'w \<times> bool" where
  "handle_expired m b log_ok tid hex1 hex2 w =
     (case dict_get m tid of
        None \<Rightarrow> (b, w, False)
      | Some cp \<Rightarrow>
          let e = make_event CAT_SYSTEM ''task.timeout'' ''timeout_monitor''
                [(''task_id'', PStr tid), (''agent'', PStr (cp_agent_name cp)),
                 (''timeout'', PInt (cp_timeout_seconds cp)), (''progress'', PFloat (cp_progress cp))]
                WARNING [] ''default'' hex1 hex2;
              (b', w', called) = publish b log_ok e w
          in (b', w', True))"

subsection \<open>Properties\<close>

lemma split_step_Some:
  "split_step sid ss = Some (pre, s, post) \<Longrightarrow>
   ss = pre @ s # post \<and> st_step_id s = sid \<and> sid \<notin> st_step_id ` set pre"
  by (induction ss arbitrary: pre) (auto split: if_splits option.splits)

lemma split_step_None: "split_step sid ss = None \<longleftrightarrow> sid \<notin> st_step_id ` set ss"
  by (induction ss) (auto split: option.splits)

definition step_ids :: "checkpoint \<Rightarrow> string multiset" where
  "step_ids cp = mset (map st_step_id (cp_completed_steps cp @ cp_pending_steps cp))"

lemma complete_step_ids: "step_ids (cp_complete_step cp sid out now) = step_ids cp"
  by (auto simp: cp_complete_step_def step_ids_def Let_def dest!: split_step_Some split: option.splits)

lemma fail_step_ids: "step_ids (cp_fail_step cp sid err now) = step_ids cp"
  by (auto simp: cp_fail_step_def step_ids_def dest!: split_step_Some split: option.splits)

lemma complete_step_count:
  "length (cp_completed_steps (cp_complete_step cp sid out now)) =
     length (cp_completed_steps cp) + (if sid \<in> st_step_id ` set (cp_pending_steps cp) then 1 else 0)"
  by (auto simp: cp_complete_step_def Let_def split_step_None image_iff
      dest!: split_step_Some split: option.splits)

lemma fail_step_count:
  "length (cp_completed_steps (cp_fail_step cp sid err now)) =
     length (cp_completed_steps cp) + (if sid \<in> st_step_id ` set (cp_pending_steps cp) then 1 else 0)"
  by (auto simp: cp_fail_step_def split_step_None image_iff
      dest!: split_step_Some split: option.splits)

lemma step_ids_total:
  "step_ids cp = step_ids cp' \<Longrightarrow>
   length (cp_completed_steps cp) + length (cp_pending_steps cp) =
   length (cp_completed_steps cp') + length (cp_pending_steps cp')"
  unfolding step_ids_def by (metis length_append length_map size_mset)

lemma progress_mono:
  assumes "step_ids cp = step_ids cp'"
    and "length (cp_completed_steps cp) \<le> length (cp_completed_steps cp')"
  shows "cp_progress cp \<le> cp_progress cp'"
  using assms(2) step_ids_total[OF assms(1)]
  by (auto simp: cp_progress_def Let_def intro: divide_right_mono)

lemma progress_bounds: "0 \<le> cp_progress cp" "cp_progress cp \<le> 1"
  unfolding cp_progress_def Let_def by (auto simp: divide_le_eq_1 simp flip: of_nat_add)

text \<open>No step of a task is lost or invented by completing or failing one: the multiset of
  step ids is the same before and after, a pending step with that id moves to the completed
  list (one step exactly), and the reported progress stays between 0 and 1 and never drops.\<close>

theorem checkpoint_steps_conserved:
  assumes "cp' = cp_complete_step cp sid out now \<or> cp' = cp_fail_step cp sid err now"
  shows "step_ids cp' = step_ids cp \<and>
    length (cp_completed_steps cp') =
      length (cp_completed_steps cp) + (if sid \<in> st_step_id ` set (cp_pending_steps cp) then 1 else 0) \<and>
    0 \<le> cp_progress cp \<and> cp_progress cp \<le> cp_progress cp' \<and> cp_progress cp' \<le> 1"
proof -
  have ids: "step_ids cp' = step_ids cp"
    using assms complete_step_ids fail_step_ids by auto
  have len: "length (cp_completed_steps cp') =
      length (cp_completed_steps cp) + (if sid \<in> st_step_id ` set (cp_pending_steps cp) then 1 else 0)"
    using assms complete_step_count fail_step_count by blast
  from ids len have "cp_progress cp \<le> cp_progress cp'"
    by (intro progress_mono) auto
  with ids len progress_bounds show ?thesis by blast
qed

theorem checkpoint_steps_conserved_witness:
  "step_ids (cp_fail_step (snd (tk_start \<lparr> tk_live = [], tk_disk = [], tk_tenants = [] \<rparr> True
      ''t1'' ''tech'' ''x'' ''acme'' 5 5)) ''do_work'' (Some ''boom'') 6) = {# ''do_work'' #}"
  using checkpoint_steps_conserved[of
      "cp_fail_step (snd (tk_start \<lparr> tk_live = [], tk_disk = [], tk_tenants = [] \<rparr> True
        ''t1'' ''tech'' ''x'' ''acme'' 5 5)) ''do_work'' (Some ''boom'') 6"
      "snd (tk_start \<lparr> tk_live = [], tk_disk = [], tk_tenants = [] \<rparr> True ''t1'' ''tech'' ''x'' ''acme'' 5 5)"
      "''do_work''" None 6 "Some ''boom''"]
  by (simp add: tk_start_def Let_def cp_start_def step_ids_def new_step_def)

lemmas tracker_defs = tk_start_def tk_finish_def tk_fail_step_def tk_put_def cs_save_def
  cs_load_def get_live_def cp_start_def cp_complete_step_def cp_fail_step_def new_step_def
  to_progress_def status_of_def dict_get_or_def Let_def

text \<open>The life of a submitted task as the progress endpoint shows it: after \<open>start\<close> it is
  running, with its tenant; after a successful \<open>finish\<close> that reached the disk it is
  completed with progress 1 and no error, and is no longer active; after a failed step
  instead it is failed and carries that step's error.\<close>

theorem task_lifecycle_progress:
  "let tk1 = fst (tk_start tk io tid agent inp tenant now clock) in
    map_option (\<lambda>p. (lp_status p, lp_tenant_id p)) (get_live tk1 io2 tid) = Some (''running'', tenant) \<and>
    (\<exists>p. get_live (tk_finish tk1 True tid True output now2) True tid = Some p \<and>
       lp_status p = ''completed'' \<and> lp_progress p = 1 \<and> lp_error p = None \<and> lp_tenant_id p = tenant) \<and>
    dict_get (tk_live (tk_finish tk1 True tid True output now2)) tid = None \<and>
    (\<exists>p. get_live (tk_fail_step tk1 io3 tid ''do_work'' err now2) io4 tid = Some p \<and>
       lp_status p = ''failed'' \<and> lp_error p = err \<and> lp_tenant_id p = tenant)"
  by (simp add: tracker_defs)

text \<open>
  What \<open>finish\<close> is given as the output is kept on the step, not under
  \<open>intermediate_outputs\<close>, where the progress snapshot looks for it: the snapshot of a
  successfully finished task has no output.
\<close>

lemma finished_output_is_lost:
  "map_option lp_output (get_live (tk_finish (fst (tk_start tk io tid agent inp tenant now clock))
     True tid True (Some output) now2) True tid) = Some None"
  by (simp add: tracker_defs)

text \<open>
  A failed task is never evicted from the hot map, and a task finished without success is
  reported as running for ever, since its pending step is what was saved.
\<close>

lemma failed_task_stays_active:
  "tid \<in> set (tk_list_active (tk_fail_step (fst (tk_start tk io tid agent inp tenant now clock))
     io2 tid ''do_work'' err now2))"
proof -
  let ?tk = "tk_fail_step (fst (tk_start tk io tid agent inp tenant now clock)) io2 tid ''do_work'' err now2"
  have "dict_get (tk_live ?tk) tid \<noteq> None" by (simp add: tracker_defs)
  then show ?thesis by (simp add: tk_list_active_def map_of_eq_None_iff)
qed

lemma unsuccessful_finish_runs_forever:
  "map_option lp_status (get_live (tk_finish (fst (tk_start tk io tid agent inp tenant now clock))
     True tid False output now2) True tid) = Some ''running''"
  by (simp add: tracker_defs)

text \<open>The two timeout readings agree: an expired checkpoint has no second left.\<close>

lemma expired_no_time_left:
  assumes "is_expired cp clock"
  shows "remaining_seconds cp clock = 0"
proof -
  from assms obtain d where d: "cp_deadline cp = Some d" "d < clock"
    by (auto simp: is_expired_def split: option.splits)
  then have neg: "d - clock < 0" and le: "\<lceil>d - clock\<rceil> \<le> 0" by simp_all
  have "remaining_seconds cp clock = max 0 \<lceil>d - clock\<rceil>"
    by (simp only: remaining_seconds_def d(1) option.case neg if_True)
  also from le have "\<dots> = 0" by (rule max.absorb1)
  finally show ?thesis .
qed

lemma fresh_not_expired:
  "0 \<le> cp_timeout_seconds cp \<Longrightarrow> \<not> is_expired (cp_start cp clock) clock"
  by (simp add: is_expired_def cp_start_def)

end
