(* ===== verification/Task_Api.thy ===== *)
theory Task_Api
  imports Access_Control Task_Store Checkpoint
begin

section \<open>The task endpoints (api/routes/tasks.py)\<close>

text \<open>
  The HTTP handlers that create, read, list, claim and hand off tasks, over the task store,
  the access rules, the audit log, the progress tracker and the event bus. A raised
  \<open>HTTPException\<close> is an error value with its status; an exception no handler catches is
  \<open>ServerError\<close>. The agent that runs a task is an argument (it calls language models), and
  so are the input sanitizer's verdict, the clock and the random task id. The websocket
  pushes, whose failures are swallowed, are not modelled.
\<close>

subsection \<open>State and data\<close>

record audit_entry =
  ae_user_id :: string
  ae_action :: string
  ae_resource_id :: string
  ae_resource_type :: string
  ae_task_id :: string
  ae_tenant_id :: string
  ae_details :: pydict
  ae_outcome :: string

record 'w api_state =
  api_tasks :: task_store
  api_audit :: "audit_entry list"
  api_tracker :: tracker
  api_bus :: "'w event_bus"
  api_world :: 'w

datatype api_error =
    HTTPException int string
  | HTTPConflict int int task_record
  | HTTPInvalid "string list" string
  | ServerError

definition opt_str :: "string option \<Rightarrow> pyval" where
  "opt_str v = (case v of None \<Rightarrow> PNone | Some s \<Rightarrow> PStr s)"

definition audit :: "'w api_state \<Rightarrow> audit_entry \<Rightarrow> 'w api_state" where
  "audit st e = st\<lparr>api_audit := api_audit st @ [e]\<rparr>"

subsection \<open>From records to access control\<close>

definition to_user_ctx :: "user \<Rightarrow> user_context" where
  "to_user_ctx u =
     \<lparr> uc_user_id = usr_id u, uc_tenant_id = usr_tenant_id u,
       uc_global_role = role_value (usr_global_role u),
       uc_perm_group_ids = usr_perm_group_ids u, uc_group_ids = usr_group_ids u,
       uc_project_ids = usr_project_ids u, uc_is_agent = usr_is_agent u \<rparr>"

text \<open>
  \<open>list(metadata.pop(k, None) or [])\<close> as a \<open>list[str]\<close> field: a falsy value is the empty list, a
  string the list of its characters, a dictionary its keys; any other value raises.
\<close>

fun all_strs :: "pyval list \<Rightarrow> string list option" where
  "all_strs [] = Some []"
| "all_strs (PStr s # vs) = map_option ((#) s) (all_strs vs)"
| "all_strs (_ # vs) = None"

definition id_list :: "pyval option \<Rightarrow> string list option" where
  "id_list v =
     (case v of
        None \<Rightarrow> Some []
      | Some x \<Rightarrow>
          if \<not> py_truthy x then Some []
          else (case x of
                  PList vs \<Rightarrow> all_strs vs
                | PStr s \<Rightarrow> Some (map (\<lambda>c. [c]) s)
                | PDict kvs \<Rightarrow> Some (map fst kvs)
                | _ \<Rightarrow> None))"

definition record_to_resource :: "task_record \<Rightarrow> resource option" where
  "record_to_resource r =
     (case (id_list (dict_get (tr_metadata r) ''_perm_group_ids''),
            id_list (dict_get (tr_metadata r) ''_group_ids''),
            id_list (dict_get (tr_metadata r) ''_project_ids''),
            id_list (dict_get (tr_metadata r) ''_shared_with''),
            visibility_of_str (if tr_visibility r = [] then ''private'' else tr_visibility r)) of
        (Some perm_groups, Some groups, Some projects, Some shared, Some vis) \<Rightarrow>
          Some \<lparr> res_id = tr_id r, res_type = ''task'', res_tenant_id = tr_tenant_id r,
                 res_owner_id = (if tr_owner_id r = [] then tr_user_id r else tr_owner_id r),
                 res_visibility = vis,
                 res_perm_group_ids = perm_groups, res_group_ids = groups,
                 res_project_ids = projects, res_shared_with = shared,
                 res_metadata = dict_pop (dict_pop (dict_pop (dict_pop (tr_metadata r)
                   ''_perm_group_ids'') ''_group_ids'') ''_project_ids'') ''_shared_with'' \<rparr>
      | _ \<Rightarrow> None)"

definition ensure_can_read :: "user \<Rightarrow> task_record \<Rightarrow> api_error + unit" where
  "ensure_can_read u r =
     (case record_to_resource r of
        None \<Rightarrow> Inl ServerError
      | Some res \<Rightarrow> if can_read (to_user_ctx u) res then Inr ()
                    else Inl (HTTPException 403 ''Access denied''))"

definition ensure_can_write :: "user \<Rightarrow> task_record \<Rightarrow> api_error + unit" where
  "ensure_can_write u r =
     (case record_to_resource r of
        None \<Rightarrow> Inl ServerError
      | Some res \<Rightarrow> if can_write (to_user_ctx u) res then Inr ()
                    else Inl (HTTPException 403 ''Access denied''))"

definition terminal_statuses :: "string list" where
  "terminal_statuses = [''completed'', ''failed'', ''cancelled'']"

subsection \<open>GET: one task, the list, the progress\<close>

record task_response =
  resp_task_id :: string
  resp_status :: string
  resp_output :: "pydict option"
  resp_error :: "string option"

definition get_task_endpoint :: "'w api_state \<Rightarrow> user \<Rightarrow> string \<Rightarrow> api_error + task_response" where
  "get_task_endpoint st u tid =
     (case get_task (api_tasks st) tid of
        None \<Rightarrow> Inl (HTTPException 404 ''Task not found'')
      | Some r \<Rightarrow>
          (case ensure_can_read u r of
             Inl e \<Rightarrow> Inl e
           | Inr _ \<Rightarrow> Inr \<lparr> resp_task_id = tr_id r, resp_status = tr_status r,
                            resp_output = tr_output r, resp_error = tr_error r \<rparr>))"

record list_row =
  row_task_id :: string
  row_agent :: string
  row_status :: string
  row_started_at :: "timestamp option"

record list_response =
  lr_tasks :: "list_row list"
  lr_total :: nat
  lr_offset :: int

text \<open>\<open>[r for r in records if can_read(ctx, resource(r))]\<close>, raising as its first failing element does.\<close>

fun visible_records :: "user_context \<Rightarrow> task_record list \<Rightarrow> task_record list option" where
  "visible_records c [] = Some []"
| "visible_records c (r # rs) =
     (case record_to_resource r of
        None \<Rightarrow> None
      | Some res \<Rightarrow>
          map_option (\<lambda>vs. if can_read c res then r # vs else vs) (visible_records c rs))"

definition list_tasks ::
  "'w api_state \<Rightarrow> user \<Rightarrow> int \<Rightarrow> int \<Rightarrow> string option \<Rightarrow> api_error + list_response" where
  "list_tasks st u limit offset status =
     (if limit > 100 \<or> offset < 0 then Inl (HTTPException 422 ''query'')
      else
        case visible_records (to_user_ctx u)
               (list_records (api_tasks st) (Some (usr_tenant_id u)) status (limit + offset)) of
          None \<Rightarrow> Inl ServerError
        | Some visible \<Rightarrow>
            let page = py_slice offset (offset + limit) visible in
            Inr \<lparr> lr_tasks = map (\<lambda>r. \<lparr> row_task_id = tr_id r, row_agent = tr_agent r,
                    row_status = tr_status r, row_started_at = tr_started_at r \<rparr>) page,
                  lr_total = length page, lr_offset = offset \<rparr>)"

definition get_task_progress :: "'w api_state \<Rightarrow> bool \<Rightarrow> user \<Rightarrow> string \<Rightarrow> api_error + live_progress" where
  "get_task_progress st io u tid =
     (case get_live (api_tracker st) io tid of
        None \<Rightarrow> Inl (HTTPException 404 ''No progress info for this task'')
      | Some p \<Rightarrow>
          (case get_task (api_tasks st) tid of
             Some r \<Rightarrow> (case ensure_can_read u r of Inl e \<Rightarrow> Inl e | Inr _ \<Rightarrow> Inr p)
           | None \<Rightarrow>
               if lp_tenant_id p \<noteq> usr_tenant_id u \<and>
                  usr_global_role u \<notin> {PLATFORM_ADMIN, TENANT_ADMIN}
               then Inl (HTTPException 403 ''Access denied'')
               else Inr p))"

subsection \<open>POST claim and handoff\<close>

record claim_response =
  cr_task_id :: string
  cr_assignee_id :: string
  cr_owner_id :: string
  cr_version :: int

text \<open>The \<open>VersionConflict\<close> branch answers 409 with the stored record; the other errors of the store escape.\<close>

fun store_error_response :: "store_error \<Rightarrow> api_error" where
  "store_error_response (VersionConflict k e a cur) = HTTPConflict e a cur"
| "store_error_response (KeyError k) = ServerError"
| "store_error_response (ValueError ks) = ServerError"

definition claim_task ::
  "'w api_state \<Rightarrow> user \<Rightarrow> string \<Rightarrow> int option \<Rightarrow> timestamp \<Rightarrow>
   'w api_state \<times> (api_error + claim_response)" where
  "claim_task st u tid expected_version now =
     (case get_task (api_tasks st) tid of
        None \<Rightarrow> (st, Inl (HTTPException 404 ''Task not found''))
      | Some r \<Rightarrow>
          (case ensure_can_read u r of
             Inl e \<Rightarrow> (st, Inl e)
           | Inr _ \<Rightarrow>
               if tr_status r \<in> set terminal_statuses
               then (st, Inl (HTTPException 422 (''task is in terminal state: '' @ tr_status r)))
               else
                 let expected = (case expected_version of None \<Rightarrow> tr_version r | Some v \<Rightarrow> v) in
                 (case update_fields (api_tasks st) tid expected [F_assignee_id (Some (usr_id u))] now of
                    (ts, Inl e) \<Rightarrow> (st\<lparr>api_tasks := ts\<rparr>, Inl (store_error_response e))
                  | (ts, Inr upd) \<Rightarrow>
                      (audit (st\<lparr>api_tasks := ts\<rparr>)
                         \<lparr> ae_user_id = usr_id u, ae_action = ''task.claimed'', ae_resource_id = tid,
                           ae_resource_type = ''task'', ae_task_id = tid, ae_tenant_id = usr_tenant_id u,
                           ae_details = [(''assignee_id'', opt_str (tr_assignee_id upd)),
                             (''owner_id'', PStr (tr_owner_id upd)), (''version'', PInt (tr_version upd))],
                           ae_outcome = ''success'' \<rparr>,
                       Inr \<lparr> cr_task_id = tr_id upd,
                             cr_assignee_id = (case tr_assignee_id upd of None \<Rightarrow> [] | Some a \<Rightarrow> a),
                             cr_owner_id = tr_owner_id upd, cr_version = tr_version upd \<rparr>))))"

record handoff_request =
  hr_to_user_id :: string
  hr_expected_version :: "int option"
  hr_reason :: "string option"

record handoff_response =
  hres_task_id :: string
  hres_assignee_id :: string
  hres_owner_id :: string
  hres_version :: int
  hres_from_assignee_id :: "string option"

definition handoff_task ::
  "'w api_state \<Rightarrow> user \<Rightarrow> string \<Rightarrow> handoff_request \<Rightarrow> timestamp \<Rightarrow>
   'w api_state \<times> (api_error + handoff_response)" where
  "handoff_task st u tid req now =
     (if strip (hr_to_user_id req) = []
      then (st, Inl (HTTPException 422 ''to_user_id must be non-empty''))
      else
        case get_task (api_tasks st) tid of
          None \<Rightarrow> (st, Inl (HTTPException 404 ''Task not found''))
        | Some r \<Rightarrow>
            if \<not> (tr_owner_id r = usr_id u \<or> tr_assignee_id r = Some (usr_id u) \<or>
                  role_value (usr_global_role u) = ''platform_admin'')
            then (st, Inl (HTTPException 403
                   ''only owner, current assignee, or platform_admin can hand off''))
            else if tr_status r \<in> set terminal_statuses
            then (st, Inl (HTTPException 422 (''task is in terminal state: '' @ tr_status r)))
            else if tr_assignee_id r = Some (hr_to_user_id req)
            then (st, Inl (HTTPException 422 (''task is already assigned to '' @ hr_to_user_id req)))
            else
              let expected = (case hr_expected_version req of None \<Rightarrow> tr_version r | Some v \<Rightarrow> v);
                  previous = tr_assignee_id r in
              (case update_fields (api_tasks st) tid expected
                      [F_assignee_id (Some (hr_to_user_id req))] now of
                 (ts, Inl e) \<Rightarrow> (st\<lparr>api_tasks := ts\<rparr>, Inl (store_error_response e))
               | (ts, Inr upd) \<Rightarrow>
                   (audit (st\<lparr>api_tasks := ts\<rparr>)
                      \<lparr> ae_user_id = usr_id u, ae_action = ''task.handoff'', ae_resource_id = tid,
                        ae_resource_type = ''task'', ae_task_id = tid, ae_tenant_id = usr_tenant_id u,
                        ae_details = [(''from_assignee_id'', opt_str previous),
                          (''to_user_id'', opt_str (tr_assignee_id upd)),
                          (''reason'', opt_str (hr_reason req)), (''version'', PInt (tr_version upd))],
                        ae_outcome = ''success'' \<rparr>,
                    Inr \<lparr> hres_task_id = tr_id upd,
                          hres_assignee_id = (case tr_assignee_id upd of None \<Rightarrow> [] | Some a \<Rightarrow> a),
                          hres_owner_id = tr_owner_id upd, hres_version = tr_version upd,
                          hres_from_assignee_id = previous \<rparr>)))"

subsection \<open>POST a task\<close>

record validation =
  val_valid :: bool
  val_sanitized :: string
  val_issues :: "string list"
  val_risk_level :: string

record task_request =
  rq_input :: string
  rq_agent :: string
  rq_task_id :: "string option"

text \<open>The agent's result dictionary: an absent key is \<^const>\<open>None\<close>.\<close>

record run_result =
  rr_status :: "string option"
  rr_output :: "pydict option"
  rr_error :: "string option option"

definition known_agents :: "string list" where
  "known_agents = [''product'', ''tech'', ''test'', ''deploy'', ''ceo'']"

definition request_task_id :: "task_request \<Rightarrow> string \<Rightarrow> string" where
  "request_task_id req hex =
     (case rq_task_id req of None \<Rightarrow> ''api-'' @ hex
      | Some t \<Rightarrow> if t = [] then ''api-'' @ hex else t)"

definition result_status :: "run_result \<Rightarrow> string" where
  "result_status res = (case rr_status res of None \<Rightarrow> ''unknown'' | Some s \<Rightarrow> s)"

definition result_error :: "run_result \<Rightarrow> string option" where
  "result_error res = (case rr_error res of None \<Rightarrow> None | Some e \<Rightarrow> e)"

definition submitted_record ::
  "string \<Rightarrow> string \<Rightarrow> string \<Rightarrow> user \<Rightarrow> run_result \<Rightarrow> timestamp \<Rightarrow> task_record" where
  "submitted_record tid agent inp u res now =
     \<lparr> tr_id = tid, tr_agent = agent, tr_input = inp, tr_status = result_status res,
       tr_tenant_id = usr_tenant_id u, tr_user_id = usr_id u,
       tr_output = rr_output res, tr_error = result_error res,
       tr_started_at = Some now, tr_completed_at = Some now, tr_metadata = [],
       tr_owner_id = usr_id u, tr_assignee_id = None, tr_version = 1,
       tr_visibility = ''private'', tr_created_at = Some now, tr_updated_at = Some now \<rparr>"

text \<open>
  \<open>run agent input task_id\<close> is the agent: a result, or \<^const>\<open>Inl\<close> the message of the exception it
  raised. \<open>hex\<close> is the random part of a generated id, \<open>io\<close> whether the checkpoint writes
  succeed.
\<close>

definition submit_task ::
  "(string \<Rightarrow> validation) \<Rightarrow> (string \<Rightarrow> string \<Rightarrow> string \<Rightarrow> string + run_result) \<Rightarrow>
   'w api_state \<Rightarrow> bool \<Rightarrow> user \<Rightarrow> task_request \<Rightarrow> string \<Rightarrow> timestamp \<Rightarrow> rat \<Rightarrow>
   'w api_state \<times> (api_error + task_response)" where
  "submit_task validate run st io u req hex now clock =
     (let v = validate (rq_input req) in
      if \<not> val_valid v
      then (audit st
              \<lparr> ae_user_id = usr_id u, ae_action = ''task.rejected'', ae_resource_id = [],
                ae_resource_type = [], ae_task_id = [], ae_tenant_id = [],
                ae_details = [(''reason'', PList (map PStr (val_issues v))), (''agent'', PStr (rq_agent req))],
                ae_outcome = ''denied'' \<rparr>,
            Inl (HTTPInvalid (val_issues v) (val_risk_level v)))
      else
        let tid = request_task_id req hex in
        if rq_agent req \<notin> set known_agents
        then (st, Inl (HTTPException 400 (''Unknown agent: '' @ rq_agent req)))
        else
          let inp = val_sanitized v;
              tk1 = fst (tk_start (api_tracker st) io tid (rq_agent req) inp (usr_tenant_id u) now clock);
              e = make_event CAT_AGENT ''api.task.started'' (rq_agent req)
                    [(''task_id'', PStr tid), (''user_id'', PStr (usr_id u)),
                     (''tenant_id'', PStr (usr_tenant_id u))] INFO [] ''default'' hex hex;
              (bus1, w1, called) = publish (api_bus st) io e (api_world st);
              st1 = st\<lparr>api_tracker := tk1, api_bus := bus1, api_world := w1\<rparr>
          in
          (case run (rq_agent req) inp tid of
             Inl msg \<Rightarrow>
               (audit (st1\<lparr>api_tracker := tk_fail_step tk1 io tid ''do_work'' (Some msg) now\<rparr>)
                  \<lparr> ae_user_id = usr_id u, ae_action = ''task.failed'', ae_resource_id = tid,
                    ae_resource_type = ''task'', ae_task_id = [], ae_tenant_id = [],
                    ae_details = [(''agent'', PStr (rq_agent req)), (''error'', PStr msg)],
                    ae_outcome = ''error'' \<rparr>,
                Inl (HTTPException 500 msg))
           | Inr res \<Rightarrow>
               let status = result_status res;
                   tk2 = (if status = ''failed''
                          then tk_fail_step tk1 io tid ''do_work''
                                 (case rr_error res of None \<Rightarrow> Some [] | Some e \<Rightarrow> e) now
                          else tk_finish tk1 io tid True (rr_output res) now);
                   r = submitted_record tid (rq_agent req) inp u res now
               in
               (audit (st1\<lparr>api_tracker := tk2, api_tasks := save (api_tasks st1) r\<rparr>)
                  \<lparr> ae_user_id = usr_id u, ae_action = ''task.completed'', ae_resource_id = tid,
                    ae_resource_type = ''task'', ae_task_id = tid, ae_tenant_id = [],
                    ae_details = [(''agent'', PStr (rq_agent req)), (''status'', PStr status),
                      (''tenant_id'', PStr (usr_tenant_id u))],
                    ae_outcome = ''success'' \<rparr>,
                Inr \<lparr> resp_task_id = tid, resp_status = status, resp_output = rr_output res,
                      resp_error = result_error res \<rparr>)))"

subsection \<open>Isolation\<close>

lemma role_value_admin [simp]: "role_value g = ''platform_admin'' \<longleftrightarrow> g = PLATFORM_ADMIN"
  by (cases g) simp_all

lemma to_user_ctx_simps [simp]:
  "uc_user_id (to_user_ctx u) = usr_id u"
  "uc_tenant_id (to_user_ctx u) = usr_tenant_id u"
  "uc_global_role (to_user_ctx u) = role_value (usr_global_role u)"
  by (simp_all add: to_user_ctx_def)

lemma record_to_resource_tenant:
  "record_to_resource r = Some res \<Longrightarrow> res_tenant_id res = tr_tenant_id r"
  by (auto simp: record_to_resource_def split: option.splits)

lemma can_read_same_tenant:
  "record_to_resource r = Some res \<Longrightarrow> can_read (to_user_ctx u) res \<Longrightarrow>
   tr_tenant_id r = usr_tenant_id u \<or> usr_global_role u = PLATFORM_ADMIN"
  by (auto simp: can_read_iff_all tenant_ok_def dest!: record_to_resource_tenant)

lemma ensure_can_read_tenant:
  "ensure_can_read u r = Inr x \<Longrightarrow>
   tr_tenant_id r = usr_tenant_id u \<or> usr_global_role u = PLATFORM_ADMIN"
  by (auto simp: ensure_can_read_def dest: can_read_same_tenant split: option.splits if_splits)

lemma visible_records_sub:
  "visible_records c rs = Some vs \<Longrightarrow> r \<in> set vs \<Longrightarrow>
   r \<in> set rs \<and> (\<exists>res. record_to_resource r = Some res \<and> can_read c res)"
  by (induction rs arbitrary: vs) (auto split: option.splits if_splits)

lemma list_tasks_row:
  assumes "list_tasks st u limit offset status = Inr resp" and "row \<in> set (lr_tasks resp)"
  obtains r res where "r \<in> set (dict_values (api_tasks st))" "row_task_id row = tr_id r"
    "record_to_resource r = Some res" "can_read (to_user_ctx u) res"
proof -
  let ?rs = "list_records (api_tasks st) (Some (usr_tenant_id u)) status (limit + offset)"
  from assms(1) obtain vs where vs: "visible_records (to_user_ctx u) ?rs = Some vs"
    and resp: "lr_tasks resp = map (\<lambda>r. \<lparr> row_task_id = tr_id r, row_agent = tr_agent r,
      row_status = tr_status r, row_started_at = tr_started_at r \<rparr>)
      (py_slice offset (offset + limit) vs)"
    by (auto simp: list_tasks_def Let_def split: if_splits option.splits)
  from assms(2) resp obtain r where r: "r \<in> set vs" "row_task_id row = tr_id r"
    by (auto dest: in_py_slice)
  from visible_records_sub[OF vs r(1)] r(2) that list_records_sub show ?thesis by fast
qed

text \<open>C1: Tenant isolation through the endpoints: a caller who is not a platform admin can not
  read, claim or follow the progress of a stored task of another tenant (each answers an
  error, and the claim changes nothing), and the rows of the list all belong to the caller's
  tenant.\<close>

theorem endpoints_isolate_tenants:
  assumes ok: "store_ok (api_tasks st)"
    and role: "usr_global_role u \<noteq> PLATFORM_ADMIN"
    and stored: "get_task (api_tasks st) tid = Some r"
    and other: "tr_tenant_id r \<noteq> usr_tenant_id u"
  shows "(\<exists>e. get_task_endpoint st u tid = Inl e) \<and>
    (\<exists>e. get_task_progress st io u tid = Inl e) \<and>
    (\<exists>e. claim_task st u tid v now = (st, Inl e)) \<and>
    (\<forall>resp row. list_tasks st u limit offset status = Inr resp \<longrightarrow> row \<in> set (lr_tasks resp) \<longrightarrow>
       row_task_id row \<noteq> tid \<and>
       (\<exists>r'. get_task (api_tasks st) (row_task_id row) = Some r' \<and>
             tr_tenant_id r' = usr_tenant_id u))"
proof -
  have denied: "\<exists>e. ensure_can_read u r = Inl e"
    using ensure_can_read_tenant[of u r] role other by (cases "ensure_can_read u r") auto
  then have "\<exists>e. get_task_endpoint st u tid = Inl e" "\<exists>e. claim_task st u tid v now = (st, Inl e)"
    "\<exists>e. get_task_progress st io u tid = Inl e"
    using stored by (auto simp: get_task_endpoint_def claim_task_def get_task_progress_def
        split: option.splits)
  moreover have "row_task_id row \<noteq> tid \<and> (\<exists>r'. get_task (api_tasks st) (row_task_id row) = Some r' \<and>
      tr_tenant_id r' = usr_tenant_id u)"
    if "list_tasks st u limit offset status = Inr resp" "row \<in> set (lr_tasks resp)" for resp row
  proof -
    from that obtain r' res where r': "r' \<in> set (dict_values (api_tasks st))"
      and row: "row_task_id row = tr_id r'"
      and res: "record_to_resource r' = Some res" "can_read (to_user_ctx u) res"
      by (rule list_tasks_row)
    from r' ok have "get_task (api_tasks st) (tr_id r') = Some r'"
      using dict_values_get[of "api_tasks st" r'] by (auto simp: store_ok_def get_task_def)
    with can_read_same_tenant[OF res] role row stored other show ?thesis by auto
  qed
  ultimately show ?thesis by blast
qed

definition sample_user :: "string \<Rightarrow> string \<Rightarrow> user" where
  "sample_user uid tenant =
     \<lparr> usr_id = uid, usr_tenant_id = tenant, usr_email = [], usr_display_name = [],
       usr_global_role = USER, usr_group_ids = [], usr_perm_group_ids = [],
       usr_project_ids = [], usr_is_agent = False, usr_status = ''active'' \<rparr>"

definition sample_api :: "task_record list \<Rightarrow> unit api_state" where
  "sample_api rs =
     \<lparr> api_tasks = foldl save [] rs, api_audit = [],
       api_tracker = \<lparr> tk_live = [], tk_disk = [], tk_tenants = [] \<rparr>,
       api_bus = empty_bus, api_world = () \<rparr>"

lemma sample_api_ok [simp]: "store_ok (api_tasks (sample_api rs))"
proof -
  have "store_ok st \<Longrightarrow> store_ok (foldl save st rs)" for st
    by (induction rs arbitrary: st) (simp_all add: store_ok_save)
  then show ?thesis by (simp add: sample_api_def)
qed

lemma sample_api_get [simp]: "get_task (api_tasks (sample_api [r])) tid = (if tid = tr_id r then Some r else None)"
  by (simp add: sample_api_def get_task_def save_def)

lemma sample_simps [simp]:
  "tr_id (sample_record tid own v) = tid" "tr_tenant_id (sample_record tid own v) = ''acme''"
  "tr_version (sample_record tid own v) = v" "tr_status (sample_record tid own v) = ''pending''"
  "tr_owner_id (sample_record tid own v) = own" "tr_assignee_id (sample_record tid own v) = None"
  "usr_id (sample_user uid tn) = uid" "usr_tenant_id (sample_user uid tn) = tn"
  "usr_global_role (sample_user uid tn) = USER"
  by (simp_all add: sample_record_def sample_user_def)

theorem endpoints_isolate_tenants_witness:
  "\<exists>e. claim_task (sample_api [sample_record ''t1'' ''ann'' 1]) (sample_user ''eve'' ''beta'') ''t1'' None 5 =
     (sample_api [sample_record ''t1'' ''ann'' 1], Inl e)"
  by (rule endpoints_isolate_tenants[where r = "sample_record ''t1'' ''ann'' 1",
        THEN conjunct2, THEN conjunct2, THEN conjunct1]) simp_all

subsection \<open>Claim and handoff\<close>

lemma update_assignee:
  assumes "get_task st tid = Some r"
  shows "update_fields st tid n [F_assignee_id a] now =
    (if tr_version r = n
     then let r' = r\<lparr>tr_assignee_id := a, tr_version := n + 1, tr_updated_at := Some now\<rparr>
          in (dict_set st tid r', Inr r')
     else (st, Inl (VersionConflict tid n (tr_version r) r)))"
  using assms
  by (auto simp: update_fields_def get_task_def bad_fields_def allowed_fields_def Let_def)



text \<open>
  Only the owner, the assignee or a platform admin hands a task off. Whatever the outcome, no
  field but the assignee, the version and the time stamp changes.
\<close>

text \<open>A handoff succeeds only for the owner, the current assignee or a platform admin, on a
  task in no terminal status, to another non-blank assignee and at the expected version; it
  then reassigns the task, increments the version, reports the previous assignee and appends
  one audit entry. Every refusal leaves the state as it was.\<close>

theorem handoff_task_outcomes:
  "case handoff_task st u tid req now of (st', res) \<Rightarrow>
    (case res of
       Inl e \<Rightarrow> st' = st
     | Inr resp \<Rightarrow>
         (\<exists>r. get_task (api_tasks st) tid = Some r \<and>
            (tr_owner_id r = usr_id u \<or> tr_assignee_id r = Some (usr_id u) \<or>
             usr_global_role u = PLATFORM_ADMIN) \<and>
            tr_status r \<notin> set terminal_statuses \<and> strip (hr_to_user_id req) \<noteq> [] \<and>
            tr_assignee_id r \<noteq> Some (hr_to_user_id req) \<and>
            (hr_expected_version req = None \<or> hr_expected_version req = Some (tr_version r)) \<and>
            (let r' = r\<lparr>tr_assignee_id := Some (hr_to_user_id req), tr_version := tr_version r + 1,
                        tr_updated_at := Some now\<rparr> in
             (\<forall>k. get_task (api_tasks st') k = (if k = tid then Some r' else get_task (api_tasks st) k)) \<and>
             hres_from_assignee_id resp = tr_assignee_id r \<and>
             hres_assignee_id resp = hr_to_user_id req \<and> hres_version resp = tr_version r + 1)) \<and>
         (\<exists>a. api_audit st' = api_audit st @ [a] \<and> ae_user_id a = usr_id u \<and>
            ae_task_id a = tid \<and> ae_action a = ''task.handoff''))"
proof (cases "get_task (api_tasks st) tid")
  case None
  then show ?thesis by (simp add: handoff_task_def)
next
  case (Some r)
  then show ?thesis
    by (auto simp: handoff_task_def update_assignee Let_def audit_def get_task_def
        split: sum.splits option.splits)
qed

text \<open>How many of a list of claims, each with the caller and the clock, are granted.\<close>

fun claims_granted ::
  "'w api_state \<Rightarrow> string \<Rightarrow> int \<Rightarrow> (user \<times> timestamp) list \<Rightarrow> nat" where
  "claims_granted st tid v [] = 0"
| "claims_granted st tid v ((u, now) # cs) =
     (case claim_task st u tid (Some v) now of (st', res) \<Rightarrow>
        (case res of Inl e \<Rightarrow> 0 | Inr r \<Rightarrow> 1) + claims_granted st' tid v cs)"

lemma claim_task_stale:
  assumes "\<forall>r. get_task (api_tasks st) tid = Some r \<longrightarrow> tr_version r \<noteq> v"
  shows "\<exists>e. claim_task st u tid (Some v) now = (st, Inl e)"
  using assms
  by (cases "get_task (api_tasks st) tid")
    (auto simp: claim_task_def update_assignee Let_def split: sum.splits)

lemma claim_task_granted:
  "claim_task st u tid (Some v) now = (st', Inr resp) \<Longrightarrow>
   \<exists>r'. get_task (api_tasks st') tid = Some r' \<and> tr_version r' = v + 1"
  by (cases "get_task (api_tasks st) tid")
    (auto simp: claim_task_def update_assignee Let_def audit_def get_task_def
      split: sum.splits if_splits)

lemma claim_task_refused:
  "claim_task st u tid (Some v) now = (st', Inl e) \<Longrightarrow> st' = st"
  by (cases "get_task (api_tasks st) tid")
    (auto simp: claim_task_def update_assignee Let_def split: sum.splits if_splits)

lemma claims_granted_stale:
  "\<forall>r. get_task (api_tasks st) tid = Some r \<longrightarrow> tr_version r \<noteq> v \<Longrightarrow> claims_granted st tid v cs = 0"
proof (induction cs)
  case (Cons c cs)
  obtain u now where c: "c = (u, now)" by (cases c)
  obtain e where "claim_task st u tid (Some v) now = (st, Inl e)"
    using claim_task_stale[OF Cons.prems] by blast
  with c Cons show ?case by simp
qed simp

text \<open>Racing claims: of any number of callers that claim one task with the same expected
  version, in whatever order the requests are served, at most one is granted.\<close>

theorem claim_race_one_winner: "claims_granted st tid v cs \<le> 1"
proof (induction cs arbitrary: st)
  case (Cons c cs)
  obtain u now where c: "c = (u, now)" by (cases c)
  obtain st' res where claim: "claim_task st u tid (Some v) now = (st', res)" by fastforce
  show ?case
  proof (cases res)
    case (Inl e)
    with claim c Cons.IH claim_task_refused show ?thesis by fastforce
  next
    case (Inr resp)
    with claim obtain r' where "get_task (api_tasks st') tid = Some r'" "tr_version r' = v + 1"
      using claim_task_granted by blast
    then have "claims_granted st' tid v cs = 0" by (intro claims_granted_stale) auto
    with claim Inr c show ?thesis by simp
  qed
qed simp

subsection \<open>Submission\<close>

lemma submit_task_cases:
  "submit_task validate run st io u req hex now clock =
   (st', res) \<Longrightarrow>
   (let v = validate (rq_input req); tid = request_task_id req hex in
    if val_valid v \<and> rq_agent req \<in> set known_agents
    then (case run (rq_agent req) (val_sanitized v) tid of
            Inl msg \<Rightarrow> res = Inl (HTTPException 500 msg) \<and> api_tasks st' = api_tasks st
          | Inr out \<Rightarrow>
              res = Inr \<lparr> resp_task_id = tid, resp_status = result_status out,
                          resp_output = rr_output out, resp_error = result_error out \<rparr> \<and>
              api_tasks st' = save (api_tasks st)
                (submitted_record tid (rq_agent req) (val_sanitized v) u out now))
    else (\<exists>e. res = Inl e) \<and> api_tasks st' = api_tasks st)"
  unfolding submit_task_def Let_def audit_def split_beta
  by (auto split: if_splits sum.splits)

lemma submitted_record_resource:
  "record_to_resource (submitted_record tid agent inp u res now) =
   Some \<lparr> res_id = tid, res_type = ''task'', res_tenant_id = usr_tenant_id u,
     res_owner_id = usr_id u, res_visibility = PRIVATE, res_perm_group_ids = [],
     res_group_ids = [], res_project_ids = [], res_shared_with = [], res_metadata = [] \<rparr>"
  by (simp add: record_to_resource_def submitted_record_def id_list_def visibility_of_str_def)

lemma submitted_record_readable:
  "ensure_can_read w (submitted_record tid agent inp u res now) = Inr () \<longleftrightarrow>
   usr_global_role w = PLATFORM_ADMIN \<or>
   (usr_tenant_id w = usr_tenant_id u \<and> (usr_global_role w = TENANT_ADMIN \<or> usr_id w = usr_id u))"
  by (cases "usr_global_role w")
    (auto simp: ensure_can_read_def submitted_record_resource can_read_iff_all tenant_ok_def
      is_member_def)

text \<open>C25: A submission stores nothing unless the input passed validation, the agent is known and
  the agent run returned; the agent is given the sanitized input. When it succeeds the answer
  is exactly what the submitter then reads back under the returned id, every other task is
  untouched, and the new task is private: of all callers only the submitter, the tenant's
  admins and platform admins can read it.\<close>

theorem submit_task_outcomes:
  "case submit_task validate run st io u req hex now clock of (st', res) \<Rightarrow>
    (case res of
       Inl e \<Rightarrow> api_tasks st' = api_tasks st
     | Inr resp \<Rightarrow>
         val_valid (validate (rq_input req)) \<and> rq_agent req \<in> set known_agents \<and>
         (\<exists>out. run (rq_agent req) (val_sanitized (validate (rq_input req))) (resp_task_id resp) = Inr out) \<and>
         get_task_endpoint st' u (resp_task_id resp) = Inr resp \<and>
         (\<forall>k. k \<noteq> resp_task_id resp \<longrightarrow> get_task (api_tasks st') k = get_task (api_tasks st) k) \<and>
         (\<forall>w. (\<exists>x. get_task_endpoint st' w (resp_task_id resp) = Inr x) \<longleftrightarrow>
            usr_global_role w = PLATFORM_ADMIN \<or>
            (usr_tenant_id w = usr_tenant_id u \<and>
             (usr_global_role w = TENANT_ADMIN \<or> usr_id w = usr_id u))))"
proof -
  obtain st' res where sub: "submit_task validate run st io u req hex now clock = (st', res)"
    by fastforce
  show ?thesis
  proof (cases res)
    case (Inl e)
    with submit_task_cases[OF sub] sub show ?thesis
      by (auto simp: Let_def split: if_splits sum.splits)
  next
    case (Inr resp)
    with submit_task_cases[OF sub] obtain out where
      valid: "val_valid (validate (rq_input req))" "rq_agent req \<in> set known_agents"
      and run: "run (rq_agent req) (val_sanitized (validate (rq_input req))) (resp_task_id resp) = Inr out"
      and resp: "resp = \<lparr> resp_task_id = resp_task_id resp, resp_status = result_status out,
                          resp_output = rr_output out, resp_error = result_error out \<rparr>"
      and tasks: "api_tasks st' = save (api_tasks st) (submitted_record (resp_task_id resp)
        (rq_agent req) (val_sanitized (validate (rq_input req))) u out now)"
      by (auto simp: Let_def split: if_splits sum.splits)
    let ?r = "submitted_record (resp_task_id resp) (rq_agent req)
      (val_sanitized (validate (rq_input req))) u out now"
    have r: "tr_id ?r = resp_task_id resp" "tr_status ?r = result_status out"
      "tr_output ?r = rr_output out" "tr_error ?r = result_error out"
      by (simp_all add: submitted_record_def)
    then have get: "get_task (api_tasks st') k =
        (if k = resp_task_id resp then Some ?r else get_task (api_tasks st) k)" for k
      by (simp add: tasks tasks.get_puts get_task_def save_def)
    have "get_task_endpoint st' w (resp_task_id resp) =
        (case ensure_can_read w ?r of Inl e \<Rightarrow> Inl e | Inr _ \<Rightarrow> Inr resp)" for w
      using resp r by (simp add: get_task_endpoint_def get split: sum.splits)
    moreover have "ensure_can_read u ?r = Inr ()" by (simp add: submitted_record_readable)
    ultimately have "get_task_endpoint st' u (resp_task_id resp) = Inr resp"
      "(\<exists>x. get_task_endpoint st' w (resp_task_id resp) = Inr x) \<longleftrightarrow> ensure_can_read w ?r = Inr ()" for w
      by (simp, auto split: sum.splits)
    with sub Inr valid run get show ?thesis by (auto simp: submitted_record_readable)
  qed
qed

theorem submit_task_outcomes_witness:
  "\<exists>st' resp. submit_task (\<lambda>s. \<lparr> val_valid = True, val_sanitized = s, val_issues = [], val_risk_level = ''low'' \<rparr>)
      (\<lambda>agent inp tid. Inr \<lparr> rr_status = Some ''completed'', rr_output = None, rr_error = None \<rparr>)
      (sample_api []) True (sample_user ''ann'' ''acme'')
      \<lparr> rq_input = ''do it'', rq_agent = ''tech'', rq_task_id = Some ''t1'' \<rparr> ''ab'' 5 5 = (st', Inr resp) \<and>
    get_task_endpoint st' (sample_user ''ann'' ''acme'') ''t1'' = Inr resp \<and>
    \<not> (\<exists>x. get_task_endpoint st' (sample_user ''eve'' ''beta'') ''t1'' = Inr x)"
proof -
  let ?validate = "\<lambda>s. \<lparr> val_valid = True, val_sanitized = s, val_issues = [], val_risk_level = ''low'' \<rparr>"
  let ?run = "\<lambda>agent inp tid. Inr \<lparr> rr_status = Some ''completed'', rr_output = None, rr_error = None \<rparr>"
  let ?req = "\<lparr> rq_input = ''do it'', rq_agent = ''tech'', rq_task_id = Some ''t1'' \<rparr>"
  obtain st' resp where s: "submit_task ?validate ?run (sample_api []) True (sample_user ''ann'' ''acme'') ?req ''ab'' 5 5 =
      (st', Inr resp)" "resp_task_id resp = ''t1''"
    by (simp add: submit_task_def known_agents_def request_task_id_def Let_def split_beta)
  with submit_task_outcomes[where validate = ?validate and run = ?run and st = "sample_api []" and io = True
      and u = "sample_user ''ann'' ''acme''" and req = ?req and hex = "''ab''" and now = 5 and clock = 5]
  have out: "get_task_endpoint st' (sample_user ''ann'' ''acme'') ''t1'' = Inr resp"
    "\<And>w. (\<exists>x. get_task_endpoint st' w ''t1'' = Inr x) \<longleftrightarrow> usr_global_role w = PLATFORM_ADMIN \<or>
       usr_tenant_id w = ''acme'' \<and> (usr_global_role w = TENANT_ADMIN \<or> usr_id w = ''ann'')"
    by simp_all
  have "\<not> (\<exists>x. get_task_endpoint st' (sample_user ''eve'' ''beta'') ''t1'' = Inr x)"
    unfolding out(2) by simp
  with s out(1) show ?thesis by blast
qed

text \<open>
  The task id may come from the request and is not checked against the store: a submission with
  the id of another tenant's task replaces that task by the submitter's.
\<close>

lemma submit_overwrites_foreign_task:
  assumes "val_valid (validate (rq_input req))" and "rq_agent req \<in> set known_agents"
    and "rq_task_id req = Some tid" and "tid \<noteq> []"
    and "run (rq_agent req) (val_sanitized (validate (rq_input req))) tid = Inr out"
    and "get_task (api_tasks st) tid = Some r" and "tr_tenant_id r \<noteq> usr_tenant_id u"
  shows "\<exists>st' resp r'. submit_task validate run st io u req hex now clock = (st', Inr resp) \<and>
    get_task (api_tasks st') tid = Some r' \<and> tr_tenant_id r' = usr_tenant_id u \<and> tr_owner_id r' = usr_id u"
proof -
  obtain st' res where sub: "submit_task validate run st io u req hex now clock = (st', res)"
    by fastforce
  with submit_task_cases[OF sub] assms show ?thesis
    by (auto simp: Let_def request_task_id_def get_task_def save_def submitted_record_def)
qed

subsection \<open>Paging\<close>

text \<open>
  The in-memory store returns the newest \<open>limit + offset\<close> records, of which the page is then
  cut from the old end: as long as there are that many records, every page is the newest
  \<open>limit\<close> records again.
\<close>

lemma every_page_is_the_newest:
  assumes "0 < limit" "0 \<le> offset" "nat (limit + offset) \<le> length xs"
  shows "py_slice offset (offset + limit) (last_slice (limit + offset) xs) = last_slice limit xs"
proof -
  let ?n = "length xs" and ?l = "nat limit" and ?o = "nat offset"
  have len: "length (last_slice (limit + offset) xs) = ?l + ?o"
    using assms by (simp add: length_last_slice nat_add_distrib)
  have "py_slice offset (offset + limit) (last_slice (limit + offset) xs) =
      drop ?o (last_slice (limit + offset) xs)"
    by (rule py_slice_tail) (use assms len in auto)
  also have "\<dots> = drop (?o + (?n - (?l + ?o))) xs"
    using assms by (simp add: last_slice_def nat_add_distrib)
  also have "?o + (?n - (?l + ?o)) = ?n - ?l" using assms by linarith
  finally show ?thesis using assms by (simp add: last_slice_def)
qed

end
