(* ===== verification/Rate_Limit.thy ===== *)
theory Rate_Limit
  imports Interfaces Py_Value
begin

section \<open>Rate limiting (core/rate_limit, core/security_middleware.py)\<close>

text \<open>
  The sliding-window limiter, the in-memory backend that runs the same algorithm with the
  limit and window given per call, the registry that composes a user and an IP check, the
  middleware that turns its verdict into a response, and the older token-bucket limiter.
  A \<open>deque\<close> of time stamps is a list with the oldest first; the clock readings are
  arguments. An exception that escapes a call is an \<^const>\<open>Inl\<close> value.
\<close>

subsection \<open>The sliding-window limiter\<close>

record limit_decision =
  ld_allowed :: bool
  ld_remaining :: int
  ld_reset_at :: rat
  ld_retry_after :: rat
  ld_scope :: string
  ld_key :: string

record sliding_window =
  sw_limit :: int
  sw_window :: rat
  sw_scope :: string
  sw_buckets :: "(string, rat list) dict"
  sw_cleanup_interval :: rat
  sw_last_cleanup :: rat

datatype limiter_error = LimitValueError | LimitIndexError | LimitKeyError

definition sw_new ::
  "int \<Rightarrow> rat \<Rightarrow> string \<Rightarrow> rat \<Rightarrow> rat \<Rightarrow> limiter_error + sliding_window" where
  "sw_new limit window scope interval now =
     (if limit \<le> 0 \<or> window \<le> 0 then Inl LimitValueError
      else Inr \<lparr> sw_limit = limit, sw_window = window, sw_scope = scope, sw_buckets = [],
                 sw_cleanup_interval = interval, sw_last_cleanup = now \<rparr>)"

definition evict_old :: "rat list \<Rightarrow> rat \<Rightarrow> rat \<Rightarrow> rat list" where
  "evict_old bucket now window = dropWhile (\<lambda>t. t < now - window) bucket"

definition drop_stale :: "rat \<Rightarrow> (string, rat list) dict \<Rightarrow> (string, rat list) dict" where
  "drop_stale cutoff buckets = filter (\<lambda>(k, b). \<not> (b = [] \<or> last b < cutoff)) buckets"

definition sw_maybe_cleanup :: "sliding_window \<Rightarrow> rat \<Rightarrow> sliding_window" where
  "sw_maybe_cleanup l now =
     (if now - sw_last_cleanup l < sw_cleanup_interval l then l
      else l\<lparr>sw_last_cleanup := now,
             sw_buckets := drop_stale (now - sw_window l * 2) (sw_buckets l)\<rparr>)"

text \<open>The two decisions; \<open>b\<close> is the bucket the decision reports on.\<close>

definition admit :: "int \<Rightarrow> rat \<Rightarrow> string \<Rightarrow> string \<Rightarrow> rat \<Rightarrow> rat list \<Rightarrow> limit_decision" where
  "admit limit window scope key now b =
     \<lparr> ld_allowed = True, ld_remaining = limit - int (length b),
       ld_reset_at = (if b = [] then now + window else hd b + window), ld_retry_after = 0,
       ld_scope = scope, ld_key = key \<rparr>"

definition reject :: "rat \<Rightarrow> string \<Rightarrow> string \<Rightarrow> rat \<Rightarrow> rat list \<Rightarrow> limit_decision" where
  "reject window scope key now b =
     \<lparr> ld_allowed = False, ld_remaining = 0, ld_reset_at = hd b + window,
       ld_retry_after = max 0 ((hd b + window) - now), ld_scope = scope, ld_key = key \<rparr>"

definition sw_check :: "sliding_window \<Rightarrow> string \<Rightarrow> rat \<Rightarrow> sliding_window \<times> limit_decision" where
  "sw_check l key now =
     (let l1 = sw_maybe_cleanup l now;
          b = evict_old (dict_get_or (sw_buckets l1) key []) now (sw_window l)
      in if int (length b) < sw_limit l
         then (l1\<lparr>sw_buckets := dict_set (sw_buckets l1) key (b @ [now])\<rparr>,
               admit (sw_limit l) (sw_window l) (sw_scope l) key now (b @ [now]))
         else (l1\<lparr>sw_buckets := dict_set (sw_buckets l1) key b\<rparr>,
               reject (sw_window l) (sw_scope l) key now b))"

definition sw_peek :: "sliding_window \<Rightarrow> string \<Rightarrow> rat \<Rightarrow> sliding_window \<times> limit_decision" where
  "sw_peek l key now =
     (let b = evict_old (dict_get_or (sw_buckets l) key []) now (sw_window l);
          l1 = l\<lparr>sw_buckets := dict_set (sw_buckets l) key b\<rparr>
      in if int (length b) < sw_limit l
         then (l1, admit (sw_limit l) (sw_window l) (sw_scope l) key now b)
         else (l1, reject (sw_window l) (sw_scope l) key now b))"

text \<open>\<open>if key:\<close> clears every bucket for \<open>None\<close> and for the empty key.\<close>

definition reset_buckets ::
  "(string, rat list) dict \<Rightarrow> string option \<Rightarrow> (string, rat list) dict" where
  "reset_buckets bs key =
     (case key of None \<Rightarrow> [] | Some k \<Rightarrow> if k = [] then [] else dict_pop bs k)"

definition sw_reset :: "sliding_window \<Rightarrow> string option \<Rightarrow> sliding_window" where
  "sw_reset l key = l\<lparr>sw_buckets := reset_buckets (sw_buckets l) key\<rparr>"

definition sw_stats :: "sliding_window \<Rightarrow> nat" where
  "sw_stats l = length (sw_buckets l)"

subsection \<open>The in-memory backend\<close>

record mem_backend =
  mb_buckets :: "(string, rat list) dict"
  mb_cleanup_interval :: rat
  mb_last_cleanup :: rat

definition mb_new :: "rat \<Rightarrow> rat \<Rightarrow> mem_backend" where
  "mb_new interval now = \<lparr> mb_buckets = [], mb_cleanup_interval = interval, mb_last_cleanup = now \<rparr>"

definition mb_maybe_cleanup :: "mem_backend \<Rightarrow> rat \<Rightarrow> mem_backend" where
  "mb_maybe_cleanup b now =
     (if now - mb_last_cleanup b < mb_cleanup_interval b then b
      else b\<lparr>mb_last_cleanup := now,
             mb_buckets := drop_stale (now - mb_cleanup_interval b) (mb_buckets b)\<rparr>)"

text \<open>\<open>bucket[0]\<close> on an empty bucket (a limit that is not positive) raises \<open>IndexError\<close>.\<close>

definition mb_check ::
  "mem_backend \<Rightarrow> string \<Rightarrow> int \<Rightarrow> rat \<Rightarrow> string \<Rightarrow> rat \<Rightarrow>
   mem_backend \<times> (limiter_error + limit_decision)" where
  "mb_check m key limit window scope now =
     (let m1 = mb_maybe_cleanup m now;
          b = evict_old (dict_get_or (mb_buckets m1) key []) now window
      in if int (length b) < limit
         then (m1\<lparr>mb_buckets := dict_set (mb_buckets m1) key (b @ [now])\<rparr>,
               Inr (admit limit window scope key now (b @ [now])))
         else (m1\<lparr>mb_buckets := dict_set (mb_buckets m1) key b\<rparr>,
               if b = [] then Inl LimitIndexError else Inr (reject window scope key now b)))"

definition mb_peek ::
  "mem_backend \<Rightarrow> string \<Rightarrow> int \<Rightarrow> rat \<Rightarrow> string \<Rightarrow> rat \<Rightarrow>
   mem_backend \<times> (limiter_error + limit_decision)" where
  "mb_peek m key limit window scope now =
     (let b = evict_old (dict_get_or (mb_buckets m) key []) now window;
          m1 = m\<lparr>mb_buckets := dict_set (mb_buckets m) key b\<rparr>
      in if int (length b) < limit then (m1, Inr (admit limit window scope key now b))
         else (m1, if b = [] then Inl LimitIndexError else Inr (reject window scope key now b)))"

definition mb_reset :: "mem_backend \<Rightarrow> string option \<Rightarrow> mem_backend" where
  "mb_reset m key = m\<lparr>mb_buckets := reset_buckets (mb_buckets m) key\<rparr>"

definition mb_stats :: "mem_backend \<Rightarrow> nat" where
  "mb_stats m = length (mb_buckets m)"

subsection \<open>The registry\<close>

record scope_config =
  sc_user_limit :: int
  sc_ip_limit :: int
  sc_user_window :: rat
  sc_ip_window :: rat

definition scope_cfg :: "int \<Rightarrow> int \<Rightarrow> scope_config" where
  "scope_cfg u i = \<lparr> sc_user_limit = u, sc_ip_limit = i, sc_user_window = 60, sc_ip_window = 60 \<rparr>"

definition default_scopes :: "(string, scope_config) dict" where
  "default_scopes =
     [(''default'', scope_cfg 120 240), (''expensive'', scope_cfg 20 60),
      (''heavy'', scope_cfg 10 30), (''auth'', scope_cfg 5 30)]"

definition int_env :: "(string \<Rightarrow> string option) \<Rightarrow> string \<Rightarrow> int \<Rightarrow> int" where
  "int_env env name dflt =
     (case env name of None \<Rightarrow> dflt
      | Some raw \<Rightarrow> (case py_int raw of None \<Rightarrow> dflt | Some n \<Rightarrow> n))"

definition load_scope_config :: "(string \<Rightarrow> string option) \<Rightarrow> (string, scope_config) dict" where
  "load_scope_config env =
     [(''default'', scope_cfg (int_env env ''AGENT_RATE_LIMIT_SCOPE_DEFAULT_USER'' 120)
                              (int_env env ''AGENT_RATE_LIMIT_SCOPE_DEFAULT_IP'' 240)),
      (''expensive'', scope_cfg (int_env env ''AGENT_RATE_LIMIT_SCOPE_EXPENSIVE_USER'' 20)
                                (int_env env ''AGENT_RATE_LIMIT_SCOPE_EXPENSIVE_IP'' 60)),
      (''heavy'', scope_cfg (int_env env ''AGENT_RATE_LIMIT_SCOPE_HEAVY_USER'' 10)
                            (int_env env ''AGENT_RATE_LIMIT_SCOPE_HEAVY_IP'' 30)),
      (''auth'', scope_cfg (int_env env ''AGENT_RATE_LIMIT_SCOPE_AUTH_USER'' 5)
                           (int_env env ''AGENT_RATE_LIMIT_SCOPE_AUTH_IP'' 30))]"

definition classify_scope :: "string \<Rightarrow> string" where
  "classify_scope path =
     (if prefix ''/api/auth/'' path then ''auth''
      else if prefix ''/api/admin/'' path \<or> prefix ''/api/audit/'' path then ''heavy''
      else if prefix ''/api/tasks'' path \<or> prefix ''/api/discussions'' path \<or>
              prefix ''/api/custom-agents'' path then ''expensive''
      else ''default'')"

text \<open>\<open>scopes.get(scope, scopes["default"])\<close> evaluates its default first.\<close>

definition user_cfg :: "(string, scope_config) dict \<Rightarrow> string \<Rightarrow> scope_config option" where
  "user_cfg scopes scope =
     (case dict_get scopes ''default'' of None \<Rightarrow> None
      | Some d \<Rightarrow> Some (dict_get_or scopes scope d))"

type_synonym 'b limiter_op =
  "'b \<Rightarrow> string \<Rightarrow> int \<Rightarrow> rat \<Rightarrow> string \<Rightarrow> rat \<Rightarrow> 'b \<times> (limiter_error + limit_decision)"

text \<open>
  \<open>check\<close> and \<open>peek\<close> are the backend's; \<open>t1\<close>, \<open>t2\<close>, \<open>t3\<close> the times its three calls read. An
  empty user id counts as none.
\<close>

definition check_ip ::
  "'b limiter_op \<Rightarrow> 'b limiter_op \<Rightarrow> scope_config \<Rightarrow> 'b \<Rightarrow> string option \<Rightarrow> string \<Rightarrow> string \<Rightarrow>
   rat \<Rightarrow> rat \<Rightarrow> 'b \<times> (limiter_error + (bool \<times> limit_decision \<times> string))" where
  "check_ip check peek cfg b uid ip scope t2 t3 =
     (case check b (''ip:'' @ ip) (sc_ip_limit cfg) (sc_ip_window cfg) scope t2 of
        (b1, Inl e) \<Rightarrow> (b1, Inl e)
      | (b1, Inr d) \<Rightarrow>
          if \<not> ld_allowed d then (b1, Inr (False, d, ''ip''))
          else (case uid of
                  None \<Rightarrow> (b1, Inr (True, d, ''ip''))
                | Some u \<Rightarrow>
                    (case peek b1 (''user:'' @ u) (sc_user_limit cfg) (sc_user_window cfg) scope t3 of
                       (b2, Inl e) \<Rightarrow> (b2, Inl e)
                     | (b2, Inr p) \<Rightarrow>
                         (b2, Inr (True, d,
                           if ld_remaining p > ld_remaining d then ''all'' else ''user'')))))"

definition check_request ::
  "'b limiter_op \<Rightarrow> 'b limiter_op \<Rightarrow> (string, scope_config) dict \<Rightarrow> 'b \<Rightarrow>
   string option \<Rightarrow> string \<Rightarrow> string \<Rightarrow> rat \<Rightarrow> rat \<Rightarrow> rat \<Rightarrow>
   'b \<times> (limiter_error + (bool \<times> limit_decision \<times> string))" where
  "check_request check peek scopes b user_id ip scope t1 t2 t3 =
     (let uid = (case user_id of None \<Rightarrow> None | Some u \<Rightarrow> if u = [] then None else Some u) in
      case user_cfg scopes scope of
        None \<Rightarrow> (b, Inl LimitKeyError)
      | Some cfg \<Rightarrow>
          (case uid of
             None \<Rightarrow> check_ip check peek cfg b None ip scope t2 t3
           | Some u \<Rightarrow>
               (case check b (''user:'' @ u) (sc_user_limit cfg) (sc_user_window cfg) scope t1 of
                  (b1, Inl e) \<Rightarrow> (b1, Inl e)
                | (b1, Inr d) \<Rightarrow>
                    if \<not> ld_allowed d then (b1, Inr (False, d, ''user''))
                    else check_ip check peek cfg b1 (Some u) ip scope t2 t3)))"

subsection \<open>The middleware\<close>

datatype rl_response =
    Forward
  | ForwardWithHeaders int int int string
  | TooMany int int string string int
  | Unavailable

definition limit_for :: "(string, scope_config) dict \<Rightarrow> limit_decision \<Rightarrow> int" where
  "limit_for scopes d =
     (case dict_get scopes (ld_scope d) of
        Some cfg \<Rightarrow> sc_user_limit cfg
      | None \<Rightarrow> (case dict_get scopes ''default'' of Some cfg \<Rightarrow> sc_user_limit cfg | None \<Rightarrow> 0))"

definition exempt_default :: "string list" where
  "exempt_default = [''/api/health'', ''/api/ready'', ''/metrics'']"

definition rl_dispatch ::
  "'b limiter_op \<Rightarrow> 'b limiter_op \<Rightarrow> bool \<Rightarrow> string \<Rightarrow> string list \<Rightarrow>
   (string, scope_config) dict \<Rightarrow> 'b \<Rightarrow> string \<Rightarrow> string option \<Rightarrow> string option \<Rightarrow>
   rat \<Rightarrow> rat \<Rightarrow> rat \<Rightarrow> 'b \<times> rl_response" where
  "rl_dispatch check peek enabled fail_mode exempt scopes b path user_id client t1 t2 t3 =
     (if \<not> enabled then (b, Forward)
      else if path \<in> set exempt then (b, Forward)
      else
        let ip = (case client of None \<Rightarrow> ''unknown'' | Some h \<Rightarrow> h);
            scope = classify_scope path
        in (case check_request check peek scopes b user_id ip scope t1 t2 t3 of
              (b1, Inl e) \<Rightarrow> (b1, if fail_mode = ''closed'' then Unavailable else Forward)
            | (b1, Inr (allowed, d, dimension)) \<Rightarrow>
                if \<not> allowed
                then (b1, TooMany (limit_for scopes d) (py_trunc (ld_reset_at d)) scope dimension
                            (max 1 (py_trunc (ld_retry_after d) + 1)))
                else (b1, ForwardWithHeaders (limit_for scopes d) (ld_remaining d)
                            (py_trunc (ld_reset_at d)) scope)))"

subsection \<open>Buckets\<close>

abbreviation bucket_of :: "(string, rat list) dict \<Rightarrow> string \<Rightarrow> rat list" where
  "bucket_of bs k \<equiv> dict_get_or bs k []"

definition buckets_ok :: "(string, rat list) dict \<Rightarrow> bool" where
  "buckets_ok bs \<longleftrightarrow> dict_ok bs \<and> (\<forall>k. sorted (bucket_of bs k))"

lemma evict_old_filter: "sorted b \<Longrightarrow> evict_old b now window = filter (\<lambda>t. now - window \<le> t) b"
  unfolding evict_old_def by (subst filter_takeWhile_sorted) (simp_all add: not_less)

lemma drop_stale_get:
  "dict_ok bs \<Longrightarrow> bucket_of (drop_stale c bs) k =
     (if bucket_of bs k = [] \<or> last (bucket_of bs k) < c then [] else bucket_of bs k)"
  unfolding drop_stale_def dict_get_or_def by (subst dict_get_filter) (auto split: option.splits)

lemma drop_stale_ok: "buckets_ok bs \<Longrightarrow> buckets_ok (drop_stale c bs)"
  by (auto simp: buckets_ok_def drop_stale_get) (simp add: drop_stale_def dict_keys_filter_ok)

lemma drop_stale_window:
  assumes "buckets_ok bs" and "c \<le> lo"
  shows "filter (\<lambda>t. lo \<le> t) (bucket_of (drop_stale c bs) k) = filter (\<lambda>t. lo \<le> t) (bucket_of bs k)"
proof (cases "bucket_of bs k \<noteq> [] \<and> last (bucket_of bs k) < c")
  case True
  then obtain b x where b: "bucket_of bs k = b @ [x]" by (cases "bucket_of bs k" rule: rev_cases) auto
  with assms True have "sorted (b @ [x])" "x < lo" by (auto simp: buckets_ok_def dest: spec[of _ k])
  then have "\<forall>t \<in> set (b @ [x]). \<not> lo \<le> t" by (fastforce simp: sorted_append)
  with True b assms show ?thesis by (auto simp: drop_stale_get buckets_ok_def filter_empty_conv)
next
  case False
  with assms show ?thesis by (auto simp: drop_stale_get buckets_ok_def)
qed

lemma buckets_ok_set:
  "buckets_ok bs \<Longrightarrow> sorted b \<Longrightarrow> buckets_ok (dict_set bs k b)"
  by (simp add: buckets_ok_def)

text \<open>One check on the buckets \<open>bs\<close>, whatever was dropped before it.\<close>

lemma check_step:
  assumes ok: "buckets_ok bs" and upto: "\<forall>t \<in> set (bucket_of bs key). t \<le> now"
    and b: "b = evict_old (bucket_of bs key) now window"
    and bs': "bs' = dict_set bs key (if int (length b) < limit then b @ [now] else b)"
  shows "b = filter (\<lambda>t. now - window \<le> t) (bucket_of bs key)" and "buckets_ok bs'"
    and "set (bucket_of bs' k) \<subseteq> insert now (set (bucket_of bs k))"
    and "0 \<le> window \<Longrightarrow> filter (\<lambda>t. now - window \<le> t) (bucket_of bs' k) =
      filter (\<lambda>t. now - window \<le> t) (bucket_of bs k) @
      (if k = key \<and> int (length b) < limit then [now] else [])"
proof -
  show f: "b = filter (\<lambda>t. now - window \<le> t) (bucket_of bs key)"
    using ok b by (simp add: evict_old_filter buckets_ok_def)
  with ok upto have "sorted b" "\<forall>t \<in> set b. t \<le> now"
    by (auto simp: buckets_ok_def sorted_wrt_filter)
  with ok show "buckets_ok bs'" unfolding bs' by (intro buckets_ok_set) (auto simp: sorted_append)
  show "set (bucket_of bs' k) \<subseteq> insert now (set (bucket_of bs k))" by (auto simp: bs' f)
  show "filter (\<lambda>t. now - window \<le> t) (bucket_of bs' k) =
      filter (\<lambda>t. now - window \<le> t) (bucket_of bs k) @
      (if k = key \<and> int (length b) < limit then [now] else [])" if "0 \<le> window"
    using that by (auto simp: bs' f)
qed

lemma drop_stale_sub: "dict_ok bs \<Longrightarrow> set (bucket_of (drop_stale c bs) k) \<subseteq> set (bucket_of bs k)"
  by (simp add: drop_stale_get)

subsection \<open>The limiter decides by the window\<close>

definition sw_inv :: "int \<Rightarrow> rat \<Rightarrow> sliding_window \<Rightarrow> bool" where
  "sw_inv limit window l \<longleftrightarrow>
     sw_limit l = limit \<and> sw_window l = window \<and> 0 < window \<and> buckets_ok (sw_buckets l)"

definition sw_allows :: "sliding_window \<Rightarrow> string \<Rightarrow> rat \<Rightarrow> sliding_window \<times> bool" where
  "sw_allows l key now = (case sw_check l key now of (l', d) \<Rightarrow> (l', ld_allowed d))"

lemma sw_allows_simps [simp]:
  "fst (sw_allows l key now) = fst (sw_check l key now)"
  "snd (sw_allows l key now) = ld_allowed (snd (sw_check l key now))"
  by (simp_all add: sw_allows_def split_beta)

lemma sw_cleanup_facts:
  assumes "sw_inv limit window l"
  shows "sw_inv limit window (sw_maybe_cleanup l now)"
    and "filter (\<lambda>t. now - window \<le> t) (bucket_of (sw_buckets (sw_maybe_cleanup l now)) k) =
         filter (\<lambda>t. now - window \<le> t) (bucket_of (sw_buckets l) k)"
    and "set (bucket_of (sw_buckets (sw_maybe_cleanup l now)) k) \<subseteq> set (bucket_of (sw_buckets l) k)"
  using assms drop_stale_sub
  by (auto simp: sw_inv_def sw_maybe_cleanup_def drop_stale_ok drop_stale_window
      buckets_ok_def[of "sw_buckets l"])

lemma sw_check_eq:
  assumes "b = evict_old (bucket_of (sw_buckets (sw_maybe_cleanup l now)) key) now (sw_window l)"
  shows "sw_buckets (fst (sw_check l key now)) =
      dict_set (sw_buckets (sw_maybe_cleanup l now)) key
        (if int (length b) < sw_limit l then b @ [now] else b)"
    and "ld_allowed (snd (sw_check l key now)) \<longleftrightarrow> int (length b) < sw_limit l"
    and "sw_limit (fst (sw_check l key now)) = sw_limit (sw_maybe_cleanup l now)"
    and "sw_window (fst (sw_check l key now)) = sw_window (sw_maybe_cleanup l now)"
  using assms by (auto simp: sw_check_def Let_def admit_def reject_def)

interpretation swl: window_limiter sw_allows "\<lambda>l. bucket_of (sw_buckets l)" "sw_inv limit window"
  limit window for limit window
proof unfold_locales
  fix l key now k'
  assume inv: "sw_inv limit window l" and upto: "\<forall>k. \<forall>t \<in> set (bucket_of (sw_buckets l) k). t \<le> now"
  let ?l = "sw_maybe_cleanup l now"
  define b where "b = evict_old (bucket_of (sw_buckets ?l) key) now (sw_window l)"
  note eq = sw_check_eq[OF b_def] and clean = sw_cleanup_facts[OF inv, of now]
  have bs: "buckets_ok (sw_buckets ?l)" and lw: "sw_limit ?l = limit" "sw_window ?l = window"
      "sw_limit l = limit" "sw_window l = window" "0 < window"
    using clean(1) inv by (auto simp: sw_inv_def)
  have "\<forall>t \<in> set (bucket_of (sw_buckets ?l) key). t \<le> now" using upto clean(3) by blast
  note step = check_step[OF bs this b_def[unfolded lw(4)], of _ limit, OF eq(1)[unfolded lw(3)]]
  show "sw_inv limit window (fst (sw_allows l key now))"
    using step(2) eq(3,4) lw by (simp add: sw_inv_def sw_allows_def split_beta)
  show "snd (sw_allows l key now) \<longleftrightarrow>
      int (length (filter (\<lambda>t. now - window \<le> t) (bucket_of (sw_buckets l) key))) < limit"
    using eq(2) step(1) clean(2) lw by (simp add: sw_allows_def split_beta)
  show "filter (\<lambda>t. now - window \<le> t) (bucket_of (sw_buckets (fst (sw_allows l key now))) k') =
      filter (\<lambda>t. now - window \<le> t) (bucket_of (sw_buckets l) k') @
      (if k' = key \<and> snd (sw_allows l key now) then [now] else [])"
    using step(4) clean(2) eq(2) lw by (simp add: sw_allows_def split_beta)
next
  fix l key now k'
  assume "sw_inv limit window l"
  then have "set (bucket_of (sw_buckets (sw_maybe_cleanup l now)) k) \<subseteq> set (bucket_of (sw_buckets l) k)" for k
    by (rule sw_cleanup_facts)
  then show "set (bucket_of (sw_buckets (fst (sw_allows l key now))) k') \<subseteq>
      insert now (set (bucket_of (sw_buckets l) k'))"
    by (auto simp: sw_allows_def split_beta sw_check_eq[OF refl] evict_old_def dest!: set_dropWhileD)
next
  show "0 < window" if "sw_inv limit window l" for l using that by (simp add: sw_inv_def)
qed

text \<open>A sequence of checks, each with its key and time.\<close>

fun sw_exec :: "sliding_window \<Rightarrow> (string \<times> rat) list \<Rightarrow> sliding_window \<times> limit_decision list" where
  "sw_exec l [] = (l, [])"
| "sw_exec l ((key, now) # rs) =
     (case sw_check l key now of (l1, d) \<Rightarrow> (case sw_exec l1 rs of (l2, ds) \<Rightarrow> (l2, d # ds)))"

lemma sw_exec_decisions: "map ld_allowed (snd (sw_exec l rs)) = swl.decisions l rs"
proof (induction rs arbitrary: l)
  case (Cons r rs)
  obtain key now where "r = (key, now)" by (cases r)
  with Cons show ?case by (simp add: split_beta)
qed simp

lemma sw_new_inv:
  "sw_new limit window scope interval t0 = Inr l \<Longrightarrow>
   sw_inv limit window l \<and> sw_buckets l = [] \<and> 0 < limit \<and> 0 < window"
  by (auto simp: sw_new_def sw_inv_def buckets_ok_def split: if_splits)

lemma sorted_from_head: "sorted (map snd rs) \<Longrightarrow> \<exists>now. \<forall>r \<in> set rs. now \<le> snd r"
  by (cases rs) auto

lemma sw_exec_spec:
  assumes new: "sw_new limit window scope interval t0 = Inr l" and "sorted (map snd rs)"
  shows "map ld_allowed (snd (sw_exec l rs)) = window_spec limit window [] rs"
proof -
  obtain now where now: "\<forall>r \<in> set rs. now \<le> snd r" using assms(2) sorted_from_head by blast
  have "swl.logs limit window l [] now"
    using sw_new_inv[OF new] by (auto simp: swl.logs_def)
  from swl.decisions_spec[OF this assms(2) now] show ?thesis by (simp add: sw_exec_decisions)
qed

text \<open>C7: The limiter is the sliding-window log it claims to be: over any sequence of checks on
  any keys at non-decreasing times, with the cleanup running whenever it is due, its decisions
  are those of the reference function that admits a request exactly when fewer
  than \<open>limit\<close> admitted requests of the key lie in the last \<open>window\<close> seconds.\<close>

theorem sliding_window_matches_reference:
  assumes "sw_new limit window scope interval t0 = Inr l" and "sorted (map snd rs)"
  shows "map ld_allowed (snd (sw_exec l rs)) = window_spec limit window [] rs"
  using assms by (rule sw_exec_spec)

theorem sliding_window_matches_reference_witness:
  "\<exists>l. sw_new 2 10 ''api'' 300 0 = Inr l \<and>
     map ld_allowed (snd (sw_exec l [(''a'', 1), (''a'', 2), (''b'', 3), (''a'', 4), (''a'', 12)])) =
     [True, True, True, False, True]"
proof -
  obtain l where l: "sw_new 2 10 ''api'' 300 0 = Inr l" by (simp add: sw_new_def)
  with sliding_window_matches_reference[OF l, of "[(''a'', 1), (''a'', 2), (''b'', 3), (''a'', 4), (''a'', 12)]"]
  show ?thesis by auto
qed

text \<open>In every interval of the window's length, wherever it starts, at most \<open>limit\<close> requests of
  a key are admitted.\<close>

theorem sliding_window_bound:
  assumes "sw_new limit window scope interval t0 = Inr l" and "sorted (map snd rs)"
  shows "int (length (admitted_between k (T - window) T rs
           (map ld_allowed (snd (sw_exec l rs))))) \<le> limit"
  unfolding sw_exec_spec[OF assms]
  by (rule window_spec_bound) (use assms(2) sw_new_inv[OF assms(1)] in auto)

theorem sliding_window_bound_witness:
  "\<exists>l. sw_new 1 10 ''api'' 300 0 = Inr l \<and>
     int (length (admitted_between ''a'' (11 - 10) 11 [(''a'', 1), (''a'', 11)]
       (map ld_allowed (snd (sw_exec l [(''a'', 1), (''a'', 11)]))))) \<le> 1"
proof -
  obtain l where l: "sw_new 1 10 ''api'' 300 0 = Inr l" by (simp add: sw_new_def)
  with sliding_window_bound[OF l, of "[(''a'', 1), (''a'', 11)]" "''a''" 11] show ?thesis by simp
qed

text \<open>What holds of a limiter after any sequence of checks up to time \<open>now\<close>.\<close>

definition sw_upto :: "int \<Rightarrow> rat \<Rightarrow> rat \<Rightarrow> sliding_window \<Rightarrow> bool" where
  "sw_upto limit window now l \<longleftrightarrow> sw_inv limit window l \<and>
     (\<forall>k. (\<forall>t \<in> set (bucket_of (sw_buckets l) k). t \<le> now) \<and>
          int (length (bucket_of (sw_buckets l) k)) \<le> limit)"

lemma length_evict_old: "length (evict_old b now window) \<le> length b"
  by (simp add: evict_old_def length_dropWhile_le)

lemma sw_upto_later: "sw_upto limit window now l \<Longrightarrow> now \<le> now' \<Longrightarrow> sw_upto limit window now' l"
  unfolding sw_upto_def by (meson order_trans)

lemma sw_cleanup_shorter:
  "sw_inv limit window l \<Longrightarrow>
   length (bucket_of (sw_buckets (sw_maybe_cleanup l now)) k) \<le> length (bucket_of (sw_buckets l) k)"
  by (auto simp: sw_inv_def buckets_ok_def sw_maybe_cleanup_def drop_stale_get)

lemma sw_upto_check:
  assumes upto: "sw_upto limit window now l"
  shows "sw_upto limit window now (fst (sw_check l key now))"
proof -
  have inv: "sw_inv limit window l" and le: "\<forall>k. \<forall>t \<in> set (bucket_of (sw_buckets l) k). t \<le> now"
    and len: "\<And>k. int (length (bucket_of (sw_buckets l) k)) \<le> limit"
    using upto by (auto simp: sw_upto_def)
  have "sw_inv limit window (fst (sw_check l key now))"
    using swl.check_inv[OF inv le, of key] by (simp add: sw_allows_def split_beta)
  moreover have "\<forall>t \<in> set (bucket_of (sw_buckets (fst (sw_check l key now))) k). t \<le> now" for k
    using swl.check_old[OF inv, of key now k] le by (auto simp: sw_allows_def split_beta)
  moreover have "int (length (bucket_of (sw_buckets (fst (sw_check l key now))) k)) \<le> limit" for k
  proof -
    have "int (length (bucket_of (sw_buckets (sw_maybe_cleanup l now)) k')) \<le> limit" for k'
      using sw_cleanup_shorter[OF inv, of now k'] len[of k'] by linarith
    moreover have "int (length (evict_old (bucket_of (sw_buckets (sw_maybe_cleanup l now)) key) now
        (sw_window l))) \<le> limit"
      using length_evict_old calculation by (meson of_nat_mono order_trans)
    ultimately show ?thesis using inv by (auto simp: sw_check_eq[OF refl] sw_inv_def)
  qed
  ultimately show ?thesis by (simp add: sw_upto_def)
qed

lemma sw_upto_exec:
  "sw_upto limit window now l \<Longrightarrow> sorted (map snd rs) \<Longrightarrow> \<forall>r \<in> set rs. now \<le> snd r \<and> snd r \<le> now' \<Longrightarrow>
   now \<le> now' \<Longrightarrow> sw_upto limit window now' (fst (sw_exec l rs))"
proof (induction rs arbitrary: l now)
  case Nil
  then show ?case by (auto intro: sw_upto_later)
next
  case (Cons r rs)
  obtain key t where r: "r = (key, t)" by (cases r)
  from Cons.prems r have "sw_upto limit window t (fst (sw_check l key t))"
    by (intro sw_upto_check) (auto intro: sw_upto_later)
  from Cons.IH[OF this] Cons.prems r show ?case by (auto simp: split_beta)
qed

lemma sw_reject_bucket:
  assumes upto: "sw_upto limit window now l" and check: "sw_check l key now = (l', d)"
    and rej: "\<not> ld_allowed d" and pos: "0 < limit"
  obtains b where "bucket_of (sw_buckets l') key = b" "sorted b" "int (length b) = limit" "b \<noteq> []"
    "now \<le> hd b + window" "now + ld_retry_after d = hd b + window"
proof -
  have inv: "sw_inv limit window l" using upto by (simp add: sw_upto_def)
  define b where "b = evict_old (bucket_of (sw_buckets (sw_maybe_cleanup l now)) key) now (sw_window l)"
  note eq = sw_check_eq[OF b_def]
  have w: "sw_limit l = limit" "sw_window l = window" using inv by (auto simp: sw_inv_def)
  have full: "limit \<le> int (length b)" using eq(2) check rej w by simp
  then have ne: "b \<noteq> []" using pos by auto
  have bs': "bucket_of (sw_buckets l') key = b" using eq(1,2) check rej by simp
  have upto': "sw_upto limit window now l'" using sw_upto_check[OF upto, of key] check by simp
  with bs' have "sorted b" "int (length b) \<le> limit"
    by (auto simp: sw_upto_def sw_inv_def buckets_ok_def)
  moreover have "now - window \<le> hd b"
    using ne w hd_dropWhile[of "\<lambda>t. t < now - window"] by (simp add: b_def evict_old_def not_less)
  moreover have "ld_retry_after d = max 0 ((hd b + window) - now)"
    using check rej w by (auto simp: sw_check_def Let_def b_def reject_def admit_def split: if_splits)
  ultimately show ?thesis using that bs' ne full by (auto simp: algebra_simps max_def)
qed



subsection \<open>The in-memory backend keeps the same contract\<close>

text \<open>
  Its cleanup drops a bucket by the cleanup interval instead of the window, so the contract
  needs the window to be no longer than the interval (60 and 300 seconds as deployed).
\<close>

definition mb_inv :: "rat \<Rightarrow> rat \<Rightarrow> mem_backend \<Rightarrow> bool" where
  "mb_inv window interval m \<longleftrightarrow> mb_cleanup_interval m = interval \<and> 0 < window \<and>
     window \<le> interval \<and> buckets_ok (mb_buckets m)"

definition is_allowed :: "limiter_error + limit_decision \<Rightarrow> bool" where
  "is_allowed r = (case r of Inl _ \<Rightarrow> False | Inr d \<Rightarrow> ld_allowed d)"

definition mb_allows :: "int \<Rightarrow> rat \<Rightarrow> mem_backend \<Rightarrow> string \<Rightarrow> rat \<Rightarrow> mem_backend \<times> bool" where
  "mb_allows limit window m key now =
     (case mb_check m key limit window [] now of (m', r) \<Rightarrow> (m', is_allowed r))"

lemma mb_cleanup_facts:
  assumes "mb_inv window interval m"
  shows "mb_inv window interval (mb_maybe_cleanup m now)"
    and "filter (\<lambda>t. now - window \<le> t) (bucket_of (mb_buckets (mb_maybe_cleanup m now)) k) =
         filter (\<lambda>t. now - window \<le> t) (bucket_of (mb_buckets m) k)"
    and "set (bucket_of (mb_buckets (mb_maybe_cleanup m now)) k) \<subseteq> set (bucket_of (mb_buckets m) k)"
  using assms drop_stale_sub
  by (auto simp: mb_inv_def mb_maybe_cleanup_def drop_stale_ok drop_stale_window
      buckets_ok_def[of "mb_buckets m"])

lemma mb_check_eq:
  assumes "b = evict_old (bucket_of (mb_buckets (mb_maybe_cleanup m now)) key) now window"
  shows "mb_buckets (fst (mb_check m key limit window scope now)) =
      dict_set (mb_buckets (mb_maybe_cleanup m now)) key (if int (length b) < limit then b @ [now] else b)"
    and "is_allowed (snd (mb_check m key limit window scope now)) \<longleftrightarrow> int (length b) < limit"
    and "mb_cleanup_interval (fst (mb_check m key limit window scope now)) =
      mb_cleanup_interval (mb_maybe_cleanup m now)"
  using assms by (auto simp: mb_check_def Let_def admit_def reject_def is_allowed_def)

lemma mb_allows_simps [simp]:
  "fst (mb_allows limit window m key now) = fst (mb_check m key limit window [] now)"
  "snd (mb_allows limit window m key now) = is_allowed (snd (mb_check m key limit window [] now))"
  by (simp_all add: mb_allows_def split_beta)

interpretation mbl: window_limiter "mb_allows limit window" "\<lambda>m. bucket_of (mb_buckets m)"
  "mb_inv window interval" limit window for limit window interval
proof unfold_locales
  fix m key now k'
  assume inv: "mb_inv window interval m" and upto: "\<forall>k. \<forall>t \<in> set (bucket_of (mb_buckets m) k). t \<le> now"
  let ?m = "mb_maybe_cleanup m now"
  define b where "b = evict_old (bucket_of (mb_buckets ?m) key) now window"
  note eq = mb_check_eq[OF b_def, of limit "[]"] and clean = mb_cleanup_facts[OF inv, of now]
  have bs: "buckets_ok (mb_buckets ?m)" and iv: "mb_cleanup_interval ?m = interval" "0 < window"
      "window \<le> interval"
    using clean(1) by (auto simp: mb_inv_def)
  have "\<forall>t \<in> set (bucket_of (mb_buckets ?m) key). t \<le> now" using upto clean(3) by blast
  note step = check_step[OF bs this b_def, of _ limit, OF eq(1)]
  show "mb_inv window interval (fst (mb_allows limit window m key now))"
    using step(2) eq(3) iv by (simp add: mb_inv_def)
  show "snd (mb_allows limit window m key now) \<longleftrightarrow>
      int (length (filter (\<lambda>t. now - window \<le> t) (bucket_of (mb_buckets m) key))) < limit"
    using eq(2) step(1) clean(2) by simp
  show "filter (\<lambda>t. now - window \<le> t) (bucket_of (mb_buckets (fst (mb_allows limit window m key now))) k') =
      filter (\<lambda>t. now - window \<le> t) (bucket_of (mb_buckets m) k') @
      (if k' = key \<and> snd (mb_allows limit window m key now) then [now] else [])"
    using step(4) clean(2) eq(2) iv by simp
next
  fix m key now k'
  assume inv: "mb_inv window interval m"
  show "set (bucket_of (mb_buckets (fst (mb_allows limit window m key now))) k') \<subseteq>
      insert now (set (bucket_of (mb_buckets m) k'))"
    using mb_cleanup_facts(3)[OF inv]
    by (auto simp: mb_check_eq[OF refl] evict_old_def dest!: set_dropWhileD)
next
  show "0 < window" if "mb_inv window interval m" for m using that by (simp add: mb_inv_def)
qed

subsection \<open>The registry's verdict\<close>

lemma mb_check_scope:
  "fst (mb_check m key limit window scope now) = fst (mb_check m key limit window [] now)"
  "is_allowed (snd (mb_check m key limit window scope now)) =
   is_allowed (snd (mb_check m key limit window [] now))"
  by (auto simp: mb_check_def Let_def is_allowed_def admit_def reject_def)

lemma mb_check_total:
  "0 < limit \<Longrightarrow> \<exists>d. snd (mb_check m key limit window scope now) = Inr d"
  "0 < limit \<Longrightarrow> \<exists>d. snd (mb_peek m key limit window scope now) = Inr d"
  by (auto simp: mb_check_def mb_peek_def Let_def)

text \<open>How many requests of a key the backend has on record in the last \<open>window\<close> seconds.\<close>

definition recent :: "mem_backend \<Rightarrow> string \<Rightarrow> rat \<Rightarrow> rat \<Rightarrow> int" where
  "recent m key now window =
     int (length (filter (\<lambda>t. now - window \<le> t) (bucket_of (mb_buckets m) key)))"

definition mb_upto :: "rat \<Rightarrow> mem_backend \<Rightarrow> bool" where
  "mb_upto now m \<longleftrightarrow> buckets_ok (mb_buckets m) \<and>
     (\<forall>k. \<forall>t \<in> set (bucket_of (mb_buckets m) k). t \<le> now)"

lemma mb_check_recent:
  assumes m: "mb_upto now m" and w: "0 < window" "window \<le> mb_cleanup_interval m"
  shows "is_allowed (snd (mb_check m key limit window scope now)) \<longleftrightarrow> recent m key now window < limit"
    and "mb_upto now (fst (mb_check m key limit window scope now))"
    and "mb_cleanup_interval (fst (mb_check m key limit window scope now)) = mb_cleanup_interval m"
    and "now \<le> now' \<Longrightarrow> window' \<le> mb_cleanup_interval m \<Longrightarrow> 0 < window' \<Longrightarrow> k \<noteq> key \<Longrightarrow>
      recent (fst (mb_check m key limit window scope now)) k now' window' = recent m k now' window'"
    and "recent (fst (mb_check m key limit window scope now)) key now window =
      recent m key now window + (if recent m key now window < limit then 1 else 0)"
proof -
  have inv: "mb_inv window (mb_cleanup_interval m) m"
    and upto: "\<forall>k. \<forall>t \<in> set (bucket_of (mb_buckets m) k). t \<le> now"
    using m w by (auto simp: mb_inv_def mb_upto_def)
  let ?m' = "fst (mb_check m key limit window [] now)"
  show adm: "is_allowed (snd (mb_check m key limit window scope now)) \<longleftrightarrow> recent m key now window < limit"
    using mbl.check_admits[OF inv upto, of limit key] by (simp add: recent_def mb_check_scope[of m key limit window scope])
  have old: "\<forall>t \<in> set (bucket_of (mb_buckets ?m') k). t \<le> now" for k
    using mbl.check_old[OF inv, of limit key now k] upto by auto
  have inv': "mb_inv window (mb_cleanup_interval m) ?m'"
    using mbl.check_inv[OF inv upto, of limit key] by simp
  then show "mb_upto now (fst (mb_check m key limit window scope now))"
    using old by (simp add: mb_upto_def mb_inv_def mb_check_scope(1)[of m key limit window scope])
  show "mb_cleanup_interval (fst (mb_check m key limit window scope now)) = mb_cleanup_interval m"
    using inv' by (simp add: mb_inv_def mb_check_scope(1)[of m key limit window scope])
  show "recent (fst (mb_check m key limit window scope now)) key now window =
      recent m key now window + (if recent m key now window < limit then 1 else 0)"
    using mbl.check_records[OF inv upto, of limit key key] adm
    by (simp add: recent_def mb_check_scope[of m key limit window scope])
  show "recent (fst (mb_check m key limit window scope now)) k now' window' = recent m k now' window'"
    if "now \<le> now'" "window' \<le> mb_cleanup_interval m" "0 < window'" "k \<noteq> key"
  proof -
    let ?mc = "mb_maybe_cleanup m now"
    have "mb_inv window' (mb_cleanup_interval m) m" using inv that by (simp add: mb_inv_def)
    then have "filter (\<lambda>t. now - window' \<le> t) (bucket_of (mb_buckets ?mc) k) =
        filter (\<lambda>t. now - window' \<le> t) (bucket_of (mb_buckets m) k)"
      by (rule mb_cleanup_facts(2))
    then have "filter (\<lambda>t. now' - window' \<le> t) (bucket_of (mb_buckets ?mc) k) =
        filter (\<lambda>t. now' - window' \<le> t) (bucket_of (mb_buckets m) k)"
      by (rule mbl.filter_later[OF that(1)])
    moreover have "bucket_of (mb_buckets (fst (mb_check m key limit window scope now))) k =
        bucket_of (mb_buckets ?mc) k"
      using that(4) by (simp add: mb_check_eq(1)[OF refl])
    ultimately show ?thesis by (simp only: recent_def)
  qed
qed

text \<open>The registry's verdict on an identified request: with positive limits it never raises, it
  admits exactly when the user has room in the user window and the address has room in the IP
  window, a refusal names the dimension that refused, and a request the user limit refuses
  costs the address nothing.\<close>

theorem check_request_verdict:
  assumes m: "mb_upto t1 m" and cfg: "user_cfg scopes scope = Some cfg"
    and pos: "0 < sc_user_limit cfg" "0 < sc_ip_limit cfg"
    and w: "0 < sc_user_window cfg" "sc_user_window cfg \<le> mb_cleanup_interval m"
      "0 < sc_ip_window cfg" "sc_ip_window cfg \<le> mb_cleanup_interval m"
    and t: "t1 \<le> t2" and u: "u \<noteq> []"
  shows "case check_request mb_check mb_peek scopes m (Some u) ip scope t1 t2 t3 of
      (m', Inl e) \<Rightarrow> False
    | (m', Inr (ok, d, which)) \<Rightarrow>
        (let user_room = recent m (''user:'' @ u) t1 (sc_user_window cfg) < sc_user_limit cfg;
             ip_room = recent m (''ip:'' @ ip) t2 (sc_ip_window cfg) < sc_ip_limit cfg in
         (ok \<longleftrightarrow> user_room \<and> ip_room) \<and>
         (\<not> ok \<longrightarrow> which = (if user_room then ''ip'' else ''user'')) \<and>
         (\<not> user_room \<longrightarrow>
            recent m' (''ip:'' @ ip) t2 (sc_ip_window cfg) = recent m (''ip:'' @ ip) t2 (sc_ip_window cfg)))"
proof -
  let ?uk = "''user:'' @ u" and ?ik = "''ip:'' @ ip"
  obtain m1 r1 where c1: "mb_check m ?uk (sc_user_limit cfg) (sc_user_window cfg) scope t1 = (m1, r1)"
    by fastforce
  obtain d1 where d1: "r1 = Inr d1" using mb_check_total(1)[OF pos(1)] c1 by (metis snd_conv)
  note f1 = mb_check_recent[OF m w(1,2), where key = ?uk and limit = "sc_user_limit cfg" and scope = scope,
      unfolded c1 d1 fst_conv snd_conv]
  have a1: "ld_allowed d1 \<longleftrightarrow> recent m ?uk t1 (sc_user_window cfg) < sc_user_limit cfg"
    using f1(1) by (simp add: is_allowed_def)
  have ip1: "recent m1 ?ik t2 (sc_ip_window cfg) = recent m ?ik t2 (sc_ip_window cfg)"
    using f1(4)[where now' = t2 and window' = "sc_ip_window cfg" and k = ?ik] t w by simp
  have m1: "mb_upto t2 m1" using f1(2) t by (auto simp: mb_upto_def intro: order_trans)
  obtain m2 r2 where c2: "mb_check m1 ?ik (sc_ip_limit cfg) (sc_ip_window cfg) scope t2 = (m2, r2)"
    by fastforce
  obtain d2 where d2: "r2 = Inr d2" using mb_check_total(1)[OF pos(2)] c2 by (metis snd_conv)
  have w1: "sc_ip_window cfg \<le> mb_cleanup_interval m1" using f1(3) w by simp
  have a2: "ld_allowed d2 \<longleftrightarrow> recent m ?ik t2 (sc_ip_window cfg) < sc_ip_limit cfg"
    using mb_check_recent(1)[OF m1 w(3) w1, where key = ?ik and limit = "sc_ip_limit cfg" and scope = scope] c2 d2 ip1
    by (simp add: is_allowed_def)
  obtain m3 d3 where c3: "mb_peek m2 ?uk (sc_user_limit cfg) (sc_user_window cfg) scope t3 = (m3, Inr d3)"
    using mb_check_total(2)[OF pos(1)] by (metis prod.collapse)
  show ?thesis
    using u cfg c1 d1 c2 d2 c3 a1 a2 ip1
    by (auto simp: check_request_def check_ip_def Let_def)
qed

lemma mb_new_upto [simp]: "mb_upto now (mb_new interval t0)"
  by (simp add: mb_upto_def mb_new_def buckets_ok_def)

lemma mb_new_interval [simp]: "mb_cleanup_interval (mb_new interval t0) = interval"
  by (simp add: mb_new_def)

lemma recent_new [simp]: "recent (mb_new interval t0) k now window = 0"
  by (simp add: recent_def mb_new_def)

theorem check_request_verdict_witness:
  "\<exists>m' d w. check_request mb_check mb_peek default_scopes (mb_new 300 0) (Some ''ann'') ''10.0.0.1'' ''auth'' 1 1 1 =
     (m', Inr (True, d, w))"
proof -
  have cfg: "user_cfg default_scopes ''auth'' = Some (scope_cfg 5 30)"
    by (simp add: user_cfg_def default_scopes_def dict_get_or_def)
  have up: "mb_upto 1 (mb_new 300 0)" by simp
  obtain m' r where ev: "check_request mb_check mb_peek default_scopes (mb_new 300 0) (Some ''ann'')
      ''10.0.0.1'' ''auth'' 1 1 1 = (m', r)"
    by fastforce
  show ?thesis
    using check_request_verdict[OF up cfg, where ?t2.0 = 1 and u = "''ann''"
        and ip = "''10.0.0.1''" and ?t3.0 = 1]
    unfolding ev by (auto simp: scope_cfg_def split: sum.splits)
qed

text \<open>
  The keys carry no scope, although the registry documents \<open>user:{user_id}:{scope}\<close>: requests of
  any scope fill the one bucket of the user, and a user who made five of them anywhere has no
  request left in the \<open>auth\<close> scope.
\<close>

lemma scopes_share_one_bucket:
  assumes "mb_upto t1 m" and "mb_cleanup_interval m = 300" and "u \<noteq> []" and "t1 \<le> t2"
    and "5 \<le> recent m (''user:'' @ u) t1 60"
  shows "\<exists>m' d. check_request mb_check mb_peek default_scopes m (Some u) ip ''auth'' t1 t2 t3 =
    (m', Inr (False, d, ''user''))"
proof -
  obtain m1 d1 where c1: "mb_check m (''user:'' @ u) 5 60 ''auth'' t1 = (m1, Inr d1)"
    using mb_check_total(1)[of 5 m "''user:'' @ u" 60 "''auth''" t1]
    by (cases "mb_check m (''user:'' @ u) 5 60 ''auth'' t1") auto
  have "\<not> ld_allowed d1"
    using mb_check_recent(1)[OF assms(1), of 60 "''user:'' @ u" 5 "''auth''"] assms c1
    by (simp add: is_allowed_def)
  with c1 assms(3) show ?thesis
    by (simp add: check_request_def user_cfg_def default_scopes_def scope_cfg_def dict_get_or_def)
qed

text \<open>
  A limit of zero, meant to shut a scope, makes \<open>bucket[0]\<close> raise on the empty bucket, and the
  middleware in its default mode forwards the request.
\<close>

lemma zero_limit_fails_open:
  assumes "dict_get scopes ''default'' = Some cfg" "dict_get scopes (classify_scope path) = Some cfg"
    and "sc_ip_limit cfg = 0" and "path \<notin> set exempt" and "bucket_of (mb_buckets m) (''ip:'' @ ip) = []"
    and "buckets_ok (mb_buckets m)"
  shows "snd (rl_dispatch mb_check mb_peek True ''open'' exempt scopes m path None (Some ip) t1 t2 t3) = Forward"
proof -
  have "bucket_of (mb_buckets (mb_maybe_cleanup m t2)) (''ip:'' @ ip) = []"
    using assms(5,6) by (auto simp: mb_maybe_cleanup_def drop_stale_get buckets_ok_def)
  then obtain m1 where "mb_check m (''ip:'' @ ip) 0 (sc_ip_window cfg) (classify_scope path) t2 =
      (m1, Inl LimitIndexError)"
    by (auto simp: mb_check_def Let_def evict_old_def)
  with assms show ?thesis
    by (simp add: rl_dispatch_def check_request_def check_ip_def user_cfg_def dict_get_or_def Let_def)
qed

subsection \<open>The token bucket\<close>

text \<open>
  \<open>RateLimiter\<close> of the older middleware. One call reads the clock up to three times: in the
  cleanup (\<open>t1\<close>), when it creates a missing bucket (\<open>t2\<close>) and in the refill (\<open>t3\<close>).
\<close>

record token_bucket =
  tb_tokens :: rat
  tb_last_refill :: rat

record token_limiter =
  tl_window :: rat
  tl_burst :: rat
  tl_buckets :: "(string, token_bucket) dict"
  tl_last_cleanup :: rat

definition tl_new :: "int \<Rightarrow> int \<Rightarrow> int option \<Rightarrow> rat \<Rightarrow> token_limiter" where
  "tl_new rate window burst now =
     \<lparr> tl_window = of_int window,
       tl_burst = (case burst of None \<Rightarrow> of_int rate
                   | Some b \<Rightarrow> if b = 0 then of_int rate else of_int b),
       tl_buckets = [], tl_last_cleanup = now \<rparr>"

definition tl_refill :: "token_limiter \<Rightarrow> token_bucket \<Rightarrow> rat \<Rightarrow> token_bucket" where
  "tl_refill l b now =
     b\<lparr>tb_tokens := min (tl_burst l)
         (tb_tokens b + (now - tb_last_refill b) * (tl_burst l / tl_window l)),
       tb_last_refill := now\<rparr>"

definition tl_maybe_cleanup :: "token_limiter \<Rightarrow> rat \<Rightarrow> token_limiter" where
  "tl_maybe_cleanup l now =
     (if now - tl_last_cleanup l < 300 then l
      else l\<lparr>tl_last_cleanup := now,
             tl_buckets := filter (\<lambda>(ip, b). \<not> now - tb_last_refill b > tl_window l * 2) (tl_buckets l)\<rparr>)"

definition tl_check :: "token_limiter \<Rightarrow> string \<Rightarrow> rat \<Rightarrow> rat \<Rightarrow> rat \<Rightarrow> token_limiter \<times> bool" where
  "tl_check l ip t1 t2 t3 =
     (let l1 = tl_maybe_cleanup l t1;
          b = tl_refill l1 (dict_get_or (tl_buckets l1) ip \<lparr> tb_tokens = tl_burst l1, tb_last_refill = t2 \<rparr>) t3
      in if tb_tokens b \<ge> 1
         then (l1\<lparr>tl_buckets := dict_set (tl_buckets l1) ip (b\<lparr>tb_tokens := tb_tokens b - 1\<rparr>)\<rparr>, True)
         else (l1\<lparr>tl_buckets := dict_set (tl_buckets l1) ip b\<rparr>, False))"

definition tl_reset :: "token_limiter \<Rightarrow> string option \<Rightarrow> token_limiter" where
  "tl_reset l ip =
     l\<lparr>tl_buckets := (case ip of None \<Rightarrow> [] | Some i \<Rightarrow> if i = [] then [] else dict_pop (tl_buckets l) i)\<rparr>"

text \<open>The tokens \<open>ip\<close> would have at time \<open>now\<close>; a missing bucket is a full one.\<close>

definition tl_level :: "token_limiter \<Rightarrow> string \<Rightarrow> rat \<Rightarrow> rat" where
  "tl_level l ip now =
     (case dict_get (tl_buckets l) ip of
        None \<Rightarrow> tl_burst l | Some b \<Rightarrow> tb_tokens (tl_refill l b now))"

definition tl_ok :: "rat \<Rightarrow> token_limiter \<Rightarrow> bool" where
  "tl_ok now l \<longleftrightarrow> 0 < tl_window l \<and> 1 \<le> tl_burst l \<and> dict_ok (tl_buckets l) \<and>
     (\<forall>ip b. dict_get (tl_buckets l) ip = Some b \<longrightarrow> 0 \<le> tb_tokens b \<and> tb_last_refill b \<le> now)"

lemma tl_level_bounds:
  assumes "tl_ok t l" and "t \<le> now"
  shows "0 \<le> tl_level l ip now" and "tl_level l ip now \<le> tl_burst l"
proof -
  have pos: "0 \<le> (now - tb_last_refill b) * (tl_burst l / tl_window l)" "0 \<le> tb_tokens b"
    if "dict_get (tl_buckets l) ip = Some b" for b
  proof -
    have "0 \<le> now - tb_last_refill b" "0 \<le> tl_burst l / tl_window l" "0 \<le> tb_tokens b"
      using assms that by (fastforce simp: tl_ok_def)+
    then show "0 \<le> (now - tb_last_refill b) * (tl_burst l / tl_window l)" "0 \<le> tb_tokens b"
      by (simp_all only: mult_nonneg_nonneg)
  qed
  from assms(1) have "1 \<le> tl_burst l" by (simp add: tl_ok_def)
  with pos show "0 \<le> tl_level l ip now" by (auto simp: tl_level_def tl_refill_def split: option.splits)
  show "tl_level l ip now \<le> tl_burst l" by (auto simp: tl_level_def tl_refill_def split: option.splits)
qed

lemma tl_level_later:
  assumes "tl_ok t l" and "t \<le> now" and "now \<le> now'"
  shows "tl_level l ip now' \<le> tl_level l ip now + (now' - now) * (tl_burst l / tl_window l)"
proof -
  define r where "r = tl_burst l / tl_window l"
  have "0 \<le> r" using assms(1) by (auto simp: tl_ok_def r_def)
  then have le: "0 \<le> (now' - now) * r" using assms(3) by simp
  have split: "(now' - x) * r = (now - x) * r + (now' - now) * r" for x by (simp add: algebra_simps)
  show ?thesis
  proof (cases "dict_get (tl_buckets l) ip")
    case None
    with le show ?thesis by (simp add: tl_level_def flip: r_def)
  next
    case (Some b)
    then show ?thesis
      using le split[of "tb_last_refill b"]
      by (simp add: tl_level_def tl_refill_def min_def flip: r_def)
  qed
qed

lemma tl_cleanup_facts:
  assumes "tl_ok t l" and "t \<le> now"
  shows "tl_ok now (tl_maybe_cleanup l now)"
    and "tl_burst (tl_maybe_cleanup l now) = tl_burst l"
    and "tl_window (tl_maybe_cleanup l now) = tl_window l"
    and "now \<le> now' \<Longrightarrow> tl_level (tl_maybe_cleanup l now) ip now' = tl_level l ip now'"
proof -
  have ok: "dict_ok (tl_buckets l)" and pos: "0 < tl_window l" "1 \<le> tl_burst l"
    using assms(1) by (auto simp: tl_ok_def)
  let ?bs = "filter (\<lambda>(ip, b). \<not> now - tb_last_refill b > tl_window l * 2) (tl_buckets l)"
  have get: "dict_get ?bs ip = (case dict_get (tl_buckets l) ip of None \<Rightarrow> None
      | Some b \<Rightarrow> if \<not> now - tb_last_refill b > tl_window l * 2 then Some b else None)" for ip
    by (rule dict_get_filter[OF ok])
  show "tl_burst (tl_maybe_cleanup l now) = tl_burst l" "tl_window (tl_maybe_cleanup l now) = tl_window l"
    by (simp_all add: tl_maybe_cleanup_def)
  have "dict_ok ?bs" using ok by (rule dict_keys_filter_ok)
  moreover have "0 \<le> tb_tokens b \<and> tb_last_refill b \<le> now" if "dict_get ?bs ip = Some b" for ip b
    using assms that unfolding get by (fastforce simp: tl_ok_def split: option.splits if_splits)
  moreover have "tl_ok now l" using assms by (fastforce simp: tl_ok_def)
  ultimately show "tl_ok now (tl_maybe_cleanup l now)"
    using pos by (auto simp: tl_maybe_cleanup_def tl_ok_def simp del: map_of_eq_Some_iff)
  show "tl_level (tl_maybe_cleanup l now) ip now' = tl_level l ip now'" if "now \<le> now'"
  proof -
    have full: "tb_tokens (tl_refill l b now') = tl_burst l"
      if "dict_get (tl_buckets l) ip = Some b" "now - tb_last_refill b > tl_window l * 2" for b
    proof -
      have "0 \<le> tb_tokens b" using assms(1) that(1) by (auto simp: tl_ok_def simp del: map_of_eq_Some_iff)
      moreover have "tl_burst l = tl_window l * (tl_burst l / tl_window l)" using pos by simp
      moreover have "tl_window l * (tl_burst l / tl_window l) \<le>
          (now' - tb_last_refill b) * (tl_burst l / tl_window l)"
        using that(2) \<open>now \<le> now'\<close> pos by (intro mult_right_mono) auto
      ultimately show ?thesis by (simp add: tl_refill_def min_def)
    qed
    show ?thesis
      using full by (auto simp: tl_maybe_cleanup_def tl_level_def get tl_refill_def
          simp del: map_of_eq_Some_iff split: option.splits)
  qed
qed

lemma tl_check_level:
  assumes ok: "tl_ok t l" and t: "t \<le> t1" "t1 \<le> t2" "t2 \<le> t3"
  shows "tl_ok t3 (fst (tl_check l ip t1 t2 t3))"
    and "tl_burst (fst (tl_check l ip t1 t2 t3)) = tl_burst l"
    and "tl_window (fst (tl_check l ip t1 t2 t3)) = tl_window l"
    and "snd (tl_check l ip t1 t2 t3) \<longleftrightarrow> 1 \<le> tl_level l ip t3"
    and "tl_level (fst (tl_check l ip t1 t2 t3)) ip' t3 =
      tl_level l ip' t3 - (if ip' = ip \<and> snd (tl_check l ip t1 t2 t3) then 1 else 0)"
proof -
  let ?l = "tl_maybe_cleanup l t1"
  note clean = tl_cleanup_facts[OF ok t(1)]
  define b where "b = tl_refill ?l (dict_get_or (tl_buckets ?l) ip
    \<lparr> tb_tokens = tl_burst ?l, tb_last_refill = t2 \<rparr>) t3"
  have lev: "tb_tokens b = tl_level ?l ip t3" "tb_last_refill b = t3"
    using clean(1) t
    by (auto simp: b_def tl_level_def tl_refill_def dict_get_or_def tl_ok_def split: option.splits)
  have lev': "tl_level ?l ip' t3 = tl_level l ip' t3" for ip' by (rule clean(4)) (use t in simp)
  have bounds: "0 \<le> tb_tokens b" "tb_tokens b \<le> tl_burst l"
    using tl_level_bounds[OF clean(1), of t3 ip] t lev(1) clean(2) by auto
  have check: "tl_check l ip t1 t2 t3 = (let ok = 1 \<le> tb_tokens b in
      (?l\<lparr>tl_buckets := dict_set (tl_buckets ?l) ip
        (if ok then b\<lparr>tb_tokens := tb_tokens b - 1\<rparr> else b)\<rparr>, ok))"
    by (simp add: tl_check_def b_def Let_def)
  have ok3: "tl_ok t3 ?l" using clean(1) t by (fastforce simp: tl_ok_def)
  show "tl_burst (fst (tl_check l ip t1 t2 t3)) = tl_burst l"
    "tl_window (fst (tl_check l ip t1 t2 t3)) = tl_window l"
    by (simp_all add: check Let_def clean)
  show "snd (tl_check l ip t1 t2 t3) \<longleftrightarrow> 1 \<le> tl_level l ip t3" by (simp add: check Let_def lev lev')
  show "tl_ok t3 (fst (tl_check l ip t1 t2 t3))"
    using ok3 bounds lev(2) by (auto simp: check Let_def tl_ok_def simp del: map_of_eq_Some_iff)
  show "tl_level (fst (tl_check l ip t1 t2 t3)) ip' t3 =
      tl_level l ip' t3 - (if ip' = ip \<and> snd (tl_check l ip t1 t2 t3) then 1 else 0)"
  proof (cases "ip' = ip")
    case True
    have "tl_level (fst (tl_check l ip t1 t2 t3)) ip t3 =
        tb_tokens b - (if 1 \<le> tb_tokens b then 1 else 0)"
      using bounds by (simp add: check Let_def tl_level_def tl_refill_def lev(2) clean(2))
    with True lev(1) lev' show ?thesis by (simp add: check Let_def)
  next
    case False
    then have "tl_level (fst (tl_check l ip t1 t2 t3)) ip' t3 = tl_level ?l ip' t3"
      by (simp add: check Let_def tl_level_def tl_refill_def split: option.splits)
    with False lev' show ?thesis by simp
  qed
qed

text \<open>The number of requests of \<open>ip\<close> admitted in a sequence of calls, with the last reading.\<close>

fun tl_admitted ::
  "token_limiter \<Rightarrow> string \<Rightarrow> (string \<times> rat \<times> rat \<times> rat) list \<Rightarrow> nat" where
  "tl_admitted l ip [] = 0"
| "tl_admitted l ip ((ip', t1, t2, t3) # cs) =
     (case tl_check l ip' t1 t2 t3 of (l', ok) \<Rightarrow>
        (if ip' = ip \<and> ok then 1 else 0) + tl_admitted l' ip cs)"

fun clock_runs :: "rat \<Rightarrow> (string \<times> rat \<times> rat \<times> rat) list \<Rightarrow> rat \<Rightarrow> bool" where
  "clock_runs t [] t' = (t \<le> t')"
| "clock_runs t ((ip, t1, t2, t3) # cs) t' = (t \<le> t1 \<and> t1 \<le> t2 \<and> t2 \<le> t3 \<and> clock_runs t3 cs t')"

lemma tl_admitted_level:
  "tl_ok t l \<Longrightarrow> clock_runs t cs t' \<Longrightarrow>
   of_nat (tl_admitted l ip cs) \<le> tl_level l ip t + (t' - t) * (tl_burst l / tl_window l)"
proof (induction cs arbitrary: l t)
  case Nil
  then have "0 \<le> (t' - t) * (tl_burst l / tl_window l)"
    by (intro mult_nonneg_nonneg) (auto simp: tl_ok_def)
  with tl_level_bounds(1)[OF Nil(1), of t ip] show ?case by simp
next
  case (Cons c cs)
  obtain ip' t1 t2 t3 where c: "c = (ip', t1, t2, t3)" by (cases c)
  have t: "t \<le> t1" "t1 \<le> t2" "t2 \<le> t3" "clock_runs t3 cs t'" using Cons.prems(2) c by auto
  note step = tl_check_level[OF Cons.prems(1) t(1-3), of ip']
  define r where "r = tl_burst l / tl_window l"
  have "of_nat (tl_admitted (fst (tl_check l ip' t1 t2 t3)) ip cs) \<le>
      tl_level (fst (tl_check l ip' t1 t2 t3)) ip t3 + (t' - t3) * r"
    using Cons.IH[OF step(1) t(4)] by (simp add: step(2,3) r_def)
  moreover have "tl_level l ip t3 \<le> tl_level l ip t + (t3 - t) * r"
    unfolding r_def by (rule tl_level_later[OF Cons.prems(1)]) (use t in auto)
  moreover have "(t' - t) * r = (t' - t3) * r + (t3 - t) * r" by (simp add: algebra_simps)
  moreover have "tl_admitted l ip (c # cs) =
      (if ip = ip' \<and> snd (tl_check l ip' t1 t2 t3) then 1 else 0) +
      tl_admitted (fst (tl_check l ip' t1 t2 t3)) ip cs"
    by (auto simp: c split_beta)
  ultimately show ?case using step(5)[of ip] unfolding r_def[symmetric]
    by (cases "ip' = ip") (auto split: if_splits)
qed

text \<open>C29: The token bucket bounds the rate: over any time span, however the calls of all addresses
  interleave and whenever the cleanup drops idle buckets, an address is admitted at most
  \<open>burst\<close> plus the span times \<open>burst / window\<close> times.\<close>

theorem token_bucket_rate_bound:
  assumes "tl_ok t l" and "clock_runs t cs t'"
  shows "of_nat (tl_admitted l ip cs) \<le> tl_burst l + (t' - t) * (tl_burst l / tl_window l)"
  using tl_admitted_level[OF assms] tl_level_bounds(2)[OF assms(1) order_refl, of ip] by (meson add_right_mono order_trans)

theorem token_bucket_rate_bound_witness:
  "of_nat (tl_admitted (tl_new 2 60 None 0) ''x'' [(''x'', 1, 1, 1), (''x'', 2, 2, 2), (''x'', 3, 3, 3)]) \<le>
     (2 :: rat) + (3 - 0) * (2 / 60)"
  using token_bucket_rate_bound[of 0 "tl_new 2 60 None 0"
      "[(''x'', 1, 1, 1), (''x'', 2, 2, 2), (''x'', 3, 3, 3)]" 3 "''x''"]
  by (simp add: tl_ok_def tl_new_def)

end
