(* ===== verification/Resource_Lock.thy ===== *)
theory Resource_Lock
  imports Interfaces Py_Value
begin

section \<open>The resource lock (concurrency/lock.py)\<close>

text \<open>
  An in-memory lock service with leases: a record per resource with its holder and its expiry.
  Every method runs under one \<open>asyncio.Lock\<close>, so the operations are atomic steps on the table;
  each reading of \<open>time.time()\<close> inside a method is its own argument.
\<close>

subsection \<open>State and operations\<close>

record lock_record =
  lr_resource :: string
  lr_holder :: string
  lr_acquired_at :: rat
  lr_expires_at :: rat
  lr_metadata :: pydict

record lock_state =
  lk_locks :: "(string, lock_record) dict"
  lk_default_ttl :: int

definition lk_new :: "int \<Rightarrow> lock_state" where
  "lk_new ttl = \<lparr> lk_locks = [], lk_default_ttl = ttl \<rparr>"

definition lk_gc :: "lock_state \<Rightarrow> rat \<Rightarrow> lock_state" where
  "lk_gc st now =
     st\<lparr>lk_locks := filter (\<lambda>(r, rec). \<not> lr_expires_at rec \<le> now) (lk_locks st)\<rparr>"

text \<open>\<open>ttl or self.default_ttl\<close>: a ttl of zero is the default.\<close>

definition lk_ttl :: "lock_state \<Rightarrow> int option \<Rightarrow> rat" where
  "lk_ttl st ttl =
     of_int (case ttl of None \<Rightarrow> lk_default_ttl st
             | Some n \<Rightarrow> if n = 0 then lk_default_ttl st else n)"

definition lk_acquire ::
  "lock_state \<Rightarrow> string \<Rightarrow> string \<Rightarrow> int option \<Rightarrow> pydict \<Rightarrow> rat \<Rightarrow> rat \<Rightarrow> rat \<Rightarrow> lock_state \<times> bool" where
  "lk_acquire st resource holder ttl metadata t1 t2 t3 =
     (let st1 = lk_gc st t1;
          granted = st1\<lparr>lk_locks := dict_set (lk_locks st1) resource
            \<lparr> lr_resource = resource, lr_holder = holder, lr_acquired_at = t3,
              lr_expires_at = t3 + lk_ttl st ttl, lr_metadata = metadata \<rparr>\<rparr>
      in case dict_get (lk_locks st1) resource of
           None \<Rightarrow> (granted, True)
         | Some existing \<Rightarrow>
             if lr_holder existing \<noteq> holder \<and> lr_expires_at existing > t2 then (st1, False)
             else (granted, True))"

definition lk_release :: "lock_state \<Rightarrow> string \<Rightarrow> string \<Rightarrow> lock_state \<times> bool" where
  "lk_release st resource holder =
     (case dict_get (lk_locks st) resource of
        None \<Rightarrow> (st, False)
      | Some existing \<Rightarrow>
          if lr_holder existing \<noteq> holder then (st, False)
          else (st\<lparr>lk_locks := dict_pop (lk_locks st) resource\<rparr>, True))"

definition lk_heartbeat ::
  "lock_state \<Rightarrow> string \<Rightarrow> string \<Rightarrow> int option \<Rightarrow> rat \<Rightarrow> lock_state \<times> bool" where
  "lk_heartbeat st resource holder ttl now =
     (case dict_get (lk_locks st) resource of
        None \<Rightarrow> (st, False)
      | Some existing \<Rightarrow>
          if lr_holder existing \<noteq> holder then (st, False)
          else (st\<lparr>lk_locks := dict_set (lk_locks st) resource
                  (existing\<lparr>lr_expires_at := now + lk_ttl st ttl\<rparr>)\<rparr>, True))"

definition lk_is_locked :: "lock_state \<Rightarrow> string \<Rightarrow> rat \<Rightarrow> lock_state \<times> bool" where
  "lk_is_locked st resource now =
     (let st1 = lk_gc st now in (st1, dict_has (lk_locks st1) resource))"

definition lk_get_holder :: "lock_state \<Rightarrow> string \<Rightarrow> rat \<Rightarrow> lock_state \<times> string option" where
  "lk_get_holder st resource now =
     (let st1 = lk_gc st now
      in (st1, map_option lr_holder (dict_get (lk_locks st1) resource)))"

datatype lock_error = LockBusyError string string | BodyRaised

text \<open>
  \<open>async with with_lock(...)\<close>: \<open>body\<close> is what runs inside, on the state; its exception is
  re-raised after the release.
\<close>

definition with_lock ::
  "lock_state \<Rightarrow> string \<Rightarrow> string \<Rightarrow> int option \<Rightarrow> rat \<Rightarrow> rat \<Rightarrow> rat \<Rightarrow> rat \<Rightarrow>
   (lock_state \<Rightarrow> lock_state \<times> 'a option) \<Rightarrow> lock_state \<times> (lock_error + 'a)" where
  "with_lock st resource holder ttl t1 t2 t3 t4 body =
     (case lk_acquire st resource holder ttl [] t1 t2 t3 of
        (st1, False) \<Rightarrow>
          (case lk_get_holder st1 resource t4 of
             (st2, current) \<Rightarrow>
               (st2, Inl (LockBusyError resource
                 (case current of None \<Rightarrow> ''unknown'' | Some h \<Rightarrow> if h = [] then ''unknown'' else h))))
      | (st1, True) \<Rightarrow>
          (case body st1 of
             (st2, res) \<Rightarrow>
               (fst (lk_release st2 resource holder),
                case res of None \<Rightarrow> Inl BodyRaised | Some a \<Rightarrow> Inr a)))"

definition lk_stats :: "lock_state \<Rightarrow> rat \<Rightarrow> rat \<Rightarrow> lock_state \<times> (nat \<times> (string \<times> string \<times> rat) list)" where
  "lk_stats st t1 t2 =
     (let st1 = lk_gc st t1
      in (st1, length (lk_locks st1),
          map (\<lambda>(r, rec). (r, lr_holder rec, lr_expires_at rec - t2)) (lk_locks st1)))"

subsection \<open>Leases\<close>

text \<open>Who holds a resource at a time: the holder of an unexpired record.\<close>

definition lk_owner :: "lock_state \<Rightarrow> string \<Rightarrow> rat \<Rightarrow> string option" where
  "lk_owner st resource now =
     (case dict_get (lk_locks st) resource of
        None \<Rightarrow> None
      | Some rec \<Rightarrow> if lr_expires_at rec \<le> now then None else Some (lr_holder rec))"

definition lk_ok :: "lock_state \<Rightarrow> bool" where
  "lk_ok st \<longleftrightarrow> dict_ok (lk_locks st) \<and> 0 < lk_default_ttl st"

lemma lk_gc_get:
  "lk_ok st \<Longrightarrow> dict_get (lk_locks (lk_gc st now)) r =
     (case dict_get (lk_locks st) r of None \<Rightarrow> None
      | Some rec \<Rightarrow> if lr_expires_at rec \<le> now then None else Some rec)"
  by (auto simp: lk_gc_def lk_ok_def dict_get_filter split: option.splits)

lemma lk_gc_ok [inv_intros]: "lk_ok st \<Longrightarrow> lk_ok (lk_gc st now)"
  by (simp add: lk_gc_def lk_ok_def dict_keys_filter_ok)

lemma lk_gc_owner: "lk_ok st \<Longrightarrow> t \<le> now \<Longrightarrow> lk_owner (lk_gc st t) r now = lk_owner st r now"
  by (auto simp: lk_owner_def lk_gc_get split: option.splits if_splits)

lemma lk_gc_ttl [simp]: "lk_ttl (lk_gc st t) ttl = lk_ttl st ttl"
proof -
  have "lk_default_ttl (lk_gc st t) = lk_default_ttl st" by (simp add: lk_gc_def)
  then show ?thesis by (simp add: lk_ttl_def split: option.splits)
qed

lemma lk_acquire_ok [inv_intros]: "lk_ok st \<Longrightarrow> lk_ok (fst (lk_acquire st r h ttl md t1 t2 t3))"
  using lk_gc_ok[of st t1]
  by (auto simp: lk_acquire_def Let_def lk_ok_def split: option.splits)

lemma lk_release_ok [inv_intros]: "lk_ok st \<Longrightarrow> lk_ok (fst (lk_release st r h))"
  by (auto simp: lk_release_def lk_ok_def split: option.splits)

lemma lk_heartbeat_ok [inv_intros]: "lk_ok st \<Longrightarrow> lk_ok (fst (lk_heartbeat st r h ttl now))"
  by (auto simp: lk_heartbeat_def lk_ok_def split: option.splits)

text \<open>An acquire is granted exactly when nobody else holds the resource.\<close>

lemma lk_acquire_granted:
  "lk_ok st \<Longrightarrow> t1 \<le> t2 \<Longrightarrow>
   snd (lk_acquire st r h ttl md t1 t2 t3) \<longleftrightarrow> lk_owner st r t2 \<in> {None, Some h}"
  by (auto simp: lk_acquire_def Let_def lk_gc_get lk_owner_def split: option.splits if_splits)

lemma lk_acquire_owner:
  assumes "lk_ok st" and "t1 \<le> t2" and "t2 \<le> t3" and "t3 \<le> now"
  shows "lk_owner (fst (lk_acquire st r h ttl md t1 t2 t3)) k now =
    (if k = r \<and> snd (lk_acquire st r h ttl md t1 t2 t3)
     then (if t3 + lk_ttl st ttl \<le> now then None else Some h)
     else lk_owner st k now)"
proof -
  have "lk_owner (lk_gc st t1) k now = lk_owner st k now"
    using assms by (intro lk_gc_owner) auto
  moreover have "lk_owner (lk_gc st t1) r now = lk_owner st r now"
    using assms by (intro lk_gc_owner) auto
  ultimately show ?thesis
    by (auto simp: lk_acquire_def Let_def lk_owner_def split: option.splits if_splits)
qed

lemma lk_release_owner:
  "lk_owner (fst (lk_release st r h)) k now =
     (if k = r \<and> lk_owner st r now = Some h then None else lk_owner st k now)"
  by (auto simp: lk_release_def lk_owner_def split: option.splits)

lemma lk_heartbeat_other:
  "lk_owner st r now = Some h \<Longrightarrow> h \<noteq> h' \<or> k \<noteq> r \<Longrightarrow>
   lk_owner (fst (lk_heartbeat st k h' ttl t)) r now = Some h"
  by (auto simp: lk_heartbeat_def lk_owner_def split: option.splits if_splits)

subsection \<open>The lock is a lease service\<close>

text \<open>The arguments of a call: the ttl, the metadata and the clock readings.\<close>

record lock_args =
  la_ttl :: "int option"
  la_metadata :: pydict
  la_times :: "rat \<times> rat \<times> rat"

definition la_by_time :: "lock_args \<Rightarrow> rat \<Rightarrow> bool" where
  "la_by_time d t = (case la_times d of (t1, t2, t3) \<Rightarrow> t1 \<le> t2 \<and> t2 \<le> t3 \<and> t3 \<le> t)"

definition do_acquire :: "lock_state \<Rightarrow> string \<Rightarrow> string \<Rightarrow> lock_args \<Rightarrow> lock_state \<times> bool" where
  "do_acquire st r h d =
     (case la_times d of (t1, t2, t3) \<Rightarrow> lk_acquire st r h (la_ttl d) (la_metadata d) t1 t2 t3)"

definition do_heartbeat :: "lock_state \<Rightarrow> string \<Rightarrow> string \<Rightarrow> lock_args \<Rightarrow> lock_state \<times> bool" where
  "do_heartbeat st r h d = (case la_times d of (t1, t2, t3) \<Rightarrow> lk_heartbeat st r h (la_ttl d) t1)"

definition do_look :: "lock_state \<Rightarrow> lock_args \<Rightarrow> lock_state" where
  "do_look st d = (case la_times d of (t1, t2, t3) \<Rightarrow> lk_gc st t1)"

interpretation locks: lease_service lk_owner do_acquire lk_release do_heartbeat do_look la_by_time lk_ok
proof unfold_locales
  show "lk_ok (fst (do_acquire st r h d))" if "lk_ok st" for st r h d
    using that by (simp add: do_acquire_def lk_acquire_ok split_beta)
  show "lk_ok (fst (lk_release st r h))" if "lk_ok st" for st r h
    using that by (rule lk_release_ok)
  show "lk_ok (fst (do_heartbeat st r h d))" if "lk_ok st" for st r h d
    using that by (simp add: do_heartbeat_def lk_heartbeat_ok split_beta)
  show "lk_ok (do_look st d)" if "lk_ok st" for st d
    using that by (simp add: do_look_def lk_gc_ok split_beta)
next
  fix st r t h d h' assume "lk_ok st" "lk_owner st r t = Some h" "la_by_time d t" "h' \<noteq> h"
  moreover have "lk_owner st r (fst (snd (la_times d))) = Some h"
    using calculation by (auto simp: lk_owner_def la_by_time_def split: option.splits if_splits)
  ultimately show "\<not> snd (do_acquire st r h' d)"
    by (auto simp: do_acquire_def lk_acquire_granted la_by_time_def split_beta)
next
  fix st r t h d k h'
  assume a: "lk_ok st" "lk_owner st r t = Some h" "la_by_time d t" "(k, h') \<noteq> (r, h)"
  have "lk_owner st r (fst (snd (la_times d))) = Some h"
    using a(2,3) by (auto simp: lk_owner_def la_by_time_def split: option.splits if_splits)
  with a show "lk_owner (fst (do_acquire st k h' d)) r t = Some h"
    by (auto simp: do_acquire_def lk_acquire_owner lk_acquire_granted la_by_time_def split_beta)
next
  show "lk_owner (fst (lk_release st k h')) r t = Some h"
    if "lk_owner st r t = Some h" "(k, h') \<noteq> (r, h)" for st r t h k h'
    using that by (auto simp: lk_release_owner)
next
  show "lk_owner (fst (do_heartbeat st k h' d)) r t = Some h"
    if "lk_owner st r t = Some h" "(k, h') \<noteq> (r, h)" for st r t h d k h'
    using that by (auto simp: do_heartbeat_def split_beta intro!: lk_heartbeat_other)
next
  show "lk_owner (do_look st d) r t = Some h"
    if "lk_ok st" "lk_owner st r t = Some h" "la_by_time d t" for st r t h d
    using that lk_gc_owner[of st "fst (la_times d)" t r] by (auto simp: do_look_def la_by_time_def split_beta)
qed

text \<open>A sequence of calls of any number of holders on any resources.\<close>

fun lk_run ::
  "lock_state \<Rightarrow> (string, string, lock_args) lease_op list \<Rightarrow> lock_state \<times> bool list" where
  "lk_run st [] = (st, [])"
| "lk_run st (oper # ops) =
     (case (case oper of
              Acquire r h d \<Rightarrow> do_acquire st r h d
            | Release r h \<Rightarrow> lk_release st r h
            | Heartbeat r h d \<Rightarrow> do_heartbeat st r h d
            | Look d \<Rightarrow> (do_look st d, True)) of
        (st1, ok) \<Rightarrow> (case lk_run st1 ops of (st2, oks) \<Rightarrow> (st2, ok # oks)))"

lemma lk_run_steps: "lk_run st ops = locks.steps st ops"
  by (induction ops arbitrary: st) (auto simp: split_beta split: lease_op.splits)

text \<open>C13: Mutual exclusion: after an acquire of \<open>h\<close> with a positive ttl was granted, no call of any
  other holder, in any number and any order, takes the resource away or is granted it as long
  as the clock has not passed the end of the lease.\<close>

theorem lock_mutual_exclusion:
  assumes ok: "lk_ok st" and grant: "lk_acquire st r h ttl md t1 t2 t3 = (st1, True)"
    and times: "t1 \<le> t2" "t2 \<le> t3" "t3 \<le> t" "t < t3 + lk_ttl st ttl"
    and others: "\<forall>oper \<in> set ops. op_by_time la_by_time oper t \<and> op_by oper \<noteq> Some (r, h)"
  shows "lk_owner (fst (lk_run st1 ops)) r t = Some h \<and>
    (\<forall>(oper, granted) \<in> set (zip ops (snd (lk_run st1 ops))). \<forall>h' d. oper = Acquire r h' d \<longrightarrow> \<not> granted)"
proof -
  have "lk_ok st1" using lk_acquire_ok[OF ok, of r h ttl md t1 t2 t3] grant by simp
  moreover have "lk_owner st1 r t = Some h"
    using lk_acquire_owner[OF ok times(1-3), of r h ttl md r] grant times by simp
  ultimately show ?thesis unfolding lk_run_steps using others by (rule locks.lease_exclusive)
qed

theorem lock_mutual_exclusion_witness:
  "\<exists>st1. lk_acquire (lk_new 300) ''doc'' ''ann'' (Some 10) [] 0 0 0 = (st1, True) \<and>
     lk_owner (fst (lk_run st1
       [Acquire ''doc'' ''bob'' \<lparr> la_ttl = None, la_metadata = [], la_times = (3, 3, 3) \<rparr>,
        Release ''doc'' ''bob''])) ''doc'' 9 = Some ''ann''"
proof -
  obtain st1 where grant: "lk_acquire (lk_new 300) ''doc'' ''ann'' (Some 10) [] 0 0 0 = (st1, True)"
    by (simp add: lk_acquire_def lk_new_def lk_gc_def)
  have ok: "lk_ok (lk_new 300)" by (simp add: lk_ok_def lk_new_def)
  show ?thesis
    using grant lock_mutual_exclusion[OF ok grant, of 9
        "[Acquire ''doc'' ''bob'' \<lparr> la_ttl = None, la_metadata = [], la_times = (3, 3, 3) \<rparr>,
          Release ''doc'' ''bob'']"]
    by (simp add: lk_ttl_def la_by_time_def)
qed

text \<open>Every outcome of an acquire: it is refused exactly when another holder's lease still runs,
  and a refusal changes no ownership; a grant makes the caller the owner until its ttl is
  over and changes no other resource. The caller who holds the lock is granted it again.\<close>

theorem lock_acquire_outcomes:
  assumes "lk_ok st" and "t1 \<le> t2" and "t2 \<le> t3" and "t3 \<le> now"
  shows "case lk_acquire st r h ttl md t1 t2 t3 of (st', granted) \<Rightarrow>
    (granted \<longleftrightarrow> (\<forall>h'. lk_owner st r t2 = Some h' \<longrightarrow> h' = h)) \<and> lk_ok st' \<and>
    (\<forall>k. lk_owner st' k now =
       (if k = r \<and> granted then (if now < t3 + lk_ttl st ttl then Some h else None)
        else lk_owner st k now))"
proof -
  obtain st' g where acq: "lk_acquire st r h ttl md t1 t2 t3 = (st', g)" by fastforce
  have "g \<longleftrightarrow> (\<forall>h'. lk_owner st r t2 = Some h' \<longrightarrow> h' = h)"
    using lk_acquire_granted[OF assms(1,2), of r h ttl md t3] acq by (cases "lk_owner st r t2") auto
  moreover have "lk_ok st'" using lk_acquire_ok[OF assms(1), of r h ttl md t1 t2 t3] acq by simp
  ultimately show ?thesis
    using lk_acquire_owner[OF assms, of r h ttl md] acq by (auto simp: not_le not_less)
qed

theorem lock_acquire_outcomes_witness:
  "\<exists>st' g. lk_acquire (lk_new 300) ''doc'' ''ann'' None [] 0 1 2 = (st', g) \<and> g \<and>
     lk_owner st' ''doc'' 301 = Some ''ann''"
proof -
  have ok: "lk_ok (lk_new 300)" by (simp add: lk_ok_def lk_new_def)
  obtain st' g where acq: "lk_acquire (lk_new 300) ''doc'' ''ann'' None [] 0 1 2 = (st', g)" by fastforce
  have "lk_owner (lk_new 300) ''doc'' 1 = None" "lk_ttl (lk_new 300) None = 300"
    by (simp_all add: lk_owner_def lk_new_def lk_ttl_def)
  then show ?thesis
    using acq lock_acquire_outcomes[OF ok, of 0 1 2 301 "''doc''" "''ann''" None "[]"] by auto
qed

text \<open>\<open>with_lock\<close> runs its body exactly when the lock is granted; it then gives the body's result
  (or re-raises) and the caller no longer holds the resource, whatever the body did. When
  another holder has it, the body does not run and the error names the resource and, while
  that lease lasts, its holder.\<close>

theorem with_lock_outcomes:
  assumes "lk_ok st" and "t1 \<le> t2" and "t2 \<le> t3" and "t3 \<le> t4"
  shows "case with_lock st r h ttl t1 t2 t3 t4 body of (st', res) \<Rightarrow>
    (if \<forall>h'. lk_owner st r t2 = Some h' \<longrightarrow> h' = h
     then (\<forall>t. lk_owner st' r t \<noteq> Some h) \<and>
          res = (case snd (body (fst (lk_acquire st r h ttl [] t1 t2 t3))) of
                   None \<Rightarrow> Inl BodyRaised | Some a \<Rightarrow> Inr a)
     else \<exists>cur. res = Inl (LockBusyError r cur) \<and>
          (\<forall>h'. lk_owner st r t4 = Some h' \<longrightarrow> h' \<noteq> [] \<longrightarrow> cur = h') \<and>
          (\<forall>k. lk_owner st' k t4 = lk_owner st k t4))"
proof -
  obtain st1 g where acq: "lk_acquire st r h ttl [] t1 t2 t3 = (st1, g)" by fastforce
  have g: "g \<longleftrightarrow> (\<forall>h'. lk_owner st r t2 = Some h' \<longrightarrow> h' = h)"
    using lk_acquire_granted[OF assms(1,2), of r h ttl "[]" t3] acq by (cases "lk_owner st r t2") auto
  have ok1: "lk_ok st1" using lk_acquire_ok[OF assms(1), of r h ttl "[]" t1 t2 t3] acq by simp
  show ?thesis
  proof (cases g)
    case True
    obtain st2 out where body: "body st1 = (st2, out)" by fastforce
    have "lk_owner (fst (lk_release st2 r h)) r t \<noteq> Some h" for t by (simp add: lk_release_owner)
    with True g acq body show ?thesis by (simp add: with_lock_def)
  next
    case False
    have own: "lk_owner st1 k t4 = lk_owner st k t4" for k
      using lk_acquire_owner[OF assms, of r h ttl "[]" k] acq False by simp
    have "lk_owner (lk_gc st1 t4) k t4 = lk_owner st k t4" for k
      using lk_gc_owner[OF ok1, of t4 t4] own by simp
    moreover have "map_option lr_holder (dict_get (lk_locks (lk_gc st1 t4)) r) = lk_owner st1 r t4"
      using ok1 by (auto simp: lk_gc_get lk_owner_def split: option.splits)
    ultimately show ?thesis
      using False g acq own by (auto simp: with_lock_def lk_get_holder_def Let_def split: option.splits)
  qed
qed

theorem with_lock_outcomes_witness:
  "snd (with_lock (lk_new 300) ''doc'' ''ann'' None 0 0 0 1 (\<lambda>st. (st, Some (7 :: int)))) = Inr 7"
proof -
  have ok: "lk_ok (lk_new 300)" by (simp add: lk_ok_def lk_new_def)
  have "lk_owner (lk_new 300) ''doc'' 0 = None" by (simp add: lk_owner_def lk_new_def)
  then show ?thesis
    using with_lock_outcomes[OF ok, where r = "''doc''" and h = "''ann''" and ttl = None
        and body = "\<lambda>st. (st, Some (7 :: int))" and ?t1.0 = 0 and ?t2.0 = 0 and ?t3.0 = 0 and ?t4.0 = 1]
    by (simp add: split_beta)
qed

text \<open>
  The lock is granted again to its holder but not counted: leaving an inner \<open>with_lock\<close> of the
  same holder releases the resource while the outer body is still running.
\<close>

lemma inner_with_lock_releases:
  assumes "lk_ok st" and "lk_owner st r t2 = Some h" and "t1 \<le> t2" and "t2 \<le> t3" and "t3 \<le> t4"
  shows "lk_owner (fst (with_lock st r h ttl t1 t2 t3 t4 (\<lambda>st. (st, Some ())))) r t \<noteq> Some h"
proof -
  have "snd (lk_acquire st r h ttl [] t1 t2 t3)"
    using assms by (simp add: lk_acquire_granted)
  then show ?thesis
    by (auto simp: with_lock_def split_beta lk_release_owner split: bool.splits)
qed

text \<open>
  A heartbeat does not look at the expiry: an expired lease comes back to life, unless some call
  that collects expired records ran first, and then the same heartbeat fails.
\<close>

lemma heartbeat_revives_expired:
  assumes "lk_ok st" and "dict_get (lk_locks st) r = Some rec" and "lr_expires_at rec \<le> now"
    and "0 < ttl"
  shows "lk_owner st r now = None"
    and "lk_owner (fst (lk_heartbeat st r (lr_holder rec) (Some ttl) now)) r now = Some (lr_holder rec)"
    and "\<not> snd (lk_heartbeat (lk_gc st now) r (lr_holder rec) (Some ttl) now)"
  using assms by (auto simp: lk_owner_def lk_heartbeat_def lk_ttl_def lk_gc_get)

end
