(* ===== verification/Graph_Search.thy ===== *)
theory Graph_Search
  imports Main
begin

section \<open>Breadth-first search\<close>

text \<open>
  The facts about breadth-first search that the two searches of the memory graph share: the
  distance from a root in a relation, and the invariant of a search whose queue holds visited
  vertices with their distances. \<open>P k\<close> says whether vertices at distance \<open>k\<close> are expanded.
\<close>

definition at_distance :: "('a \<times> 'a) set \<Rightarrow> 'a \<Rightarrow> 'a \<Rightarrow> nat \<Rightarrow> bool" where
  "at_distance E n y k \<longleftrightarrow> (n, y) \<in> E ^^ k \<and> (\<forall>j < k. (n, y) \<notin> E ^^ j)"

lemma at_distance_0 [simp]: "at_distance E n y 0 \<longleftrightarrow> y = n"
  by (auto simp: at_distance_def)

lemma at_distance_root [simp]: "at_distance E n n k \<longleftrightarrow> k = 0"
  by (auto simp: at_distance_def)

lemma at_distance_unique: "at_distance E n y k \<Longrightarrow> at_distance E n y j \<Longrightarrow> j = k"
  by (auto simp: at_distance_def) (meson linorder_neqE_nat)

lemma at_distance_le:
  assumes "(n, y) \<in> E ^^ j"
  obtains k where "at_distance E n y k" "k \<le> j"
proof -
  let ?k = "LEAST i. (n, y) \<in> E ^^ i"
  have "(n, y) \<in> E ^^ ?k" using assms by (rule LeastI)
  moreover have "\<forall>i < ?k. (n, y) \<notin> E ^^ i" using not_less_Least by blast
  ultimately have "at_distance E n y ?k" by (simp add: at_distance_def)
  with that Least_le[of "\<lambda>i. (n, y) \<in> E ^^ i", OF assms] show thesis by blast
qed

lemma at_distance_pred:
  assumes "at_distance E n y (Suc k)"
  obtains p where "at_distance E n p k" "(p, y) \<in> E"
proof -
  from assms obtain p where p: "(n, p) \<in> E ^^ k" "(p, y) \<in> E" by (auto simp: at_distance_def)
  have "(n, p) \<notin> E ^^ j" if "j < k" for j
  proof
    assume "(n, p) \<in> E ^^ j"
    with p(2) have "(n, y) \<in> E ^^ Suc j" by auto
    with assms that show False unfolding at_distance_def by (metis Suc_mono)
  qed
  with p that show thesis by (auto simp: at_distance_def)
qed

definition bfs_inv ::
  "('a \<times> 'a) set \<Rightarrow> 'a \<Rightarrow> (nat \<Rightarrow> bool) \<Rightarrow> 'a set \<Rightarrow> ('a \<times> nat) list \<Rightarrow> bool" where
  "bfs_inv E n P V Q \<longleftrightarrow>
     n \<in> V \<and> (\<forall>y \<in> V. \<exists>k. at_distance E n y k) \<and>
     (\<forall>(x, k) \<in> set Q. x \<in> V \<and> at_distance E n x k \<and> P k) \<and>
     sorted (map snd Q) \<and> (\<forall>(x, k) \<in> set Q. k \<le> snd (hd Q) + 1) \<and>
     (\<forall>y \<in> V. \<forall>k. at_distance E n y k \<longrightarrow> P k \<longrightarrow> (y, k) \<notin> set Q \<longrightarrow> E `` {y} \<subseteq> V) \<and>
     (Q \<noteq> [] \<longrightarrow> (\<forall>y k. at_distance E n y k \<longrightarrow> k \<le> snd (hd Q) \<longrightarrow> y \<in> V))"

lemma bfs_inv_start: "P 0 \<Longrightarrow> bfs_inv E n P {n} [(n, 0)]"
  by (auto simp: bfs_inv_def)

lemma bfs_new_distance:
  assumes inv: "bfs_inv E n P V ((x, k) # Q)" and y: "(x, y) \<in> E" "y \<notin> V"
  shows "at_distance E n y (Suc k)"
proof -
  have "(n, x) \<in> E ^^ k" using inv by (auto simp: bfs_inv_def at_distance_def)
  with y(1) have reach: "(n, y) \<in> E ^^ Suc k" by auto
  have "(n, y) \<notin> E ^^ j" if "j < Suc k" for j
  proof
    assume "(n, y) \<in> E ^^ j"
    then obtain i where "at_distance E n y i" "i \<le> j" by (rule at_distance_le)
    with inv that have "y \<in> V" by (fastforce simp: bfs_inv_def)
    with y(2) show False by blast
  qed
  with reach show ?thesis by (simp add: at_distance_def)
qed

lemma bfs_inv_step:
  assumes inv: "bfs_inv E n P V ((x, k) # Q)" and N: "set N = E `` {x} - V"
  shows "bfs_inv E n P (V \<union> E `` {x}) (Q @ (if P (Suc k) then map (\<lambda>y. (y, Suc k)) N else []))"
    (is "bfs_inv E n P ?V ?Q")
proof -
  let ?A = "if P (Suc k) then map (\<lambda>y. (y, Suc k)) N else []"
  have new: "at_distance E n y (Suc k)" if "y \<in> set N" for y
    using that N bfs_new_distance[OF inv] by auto
  have x: "x \<in> V" "at_distance E n x k" "P k" using inv by (auto simp: bfs_inv_def)
  have Q: "k \<le> j" "j \<le> Suc k" "z \<in> V" "at_distance E n z j" "P j" if "(z, j) \<in> set Q" for z j
    using inv that by (force simp: bfs_inv_def)+
  have visited: "\<exists>j. at_distance E n y j" if "y \<in> ?V" for y
  proof (cases "y \<in> V")
    case True
    with inv show ?thesis by (auto simp: bfs_inv_def)
  next
    case False
    with that N new show ?thesis by blast
  qed
  have entries: "z \<in> ?V \<and> at_distance E n z j \<and> P j" if "(z, j) \<in> set ?Q" for z j
    using that Q new N by (auto split: if_splits)
  have sorted: "sorted (map snd ?Q)"
  proof -
    have "sorted (map snd Q)" using inv by (auto simp: bfs_inv_def)
    moreover have "sorted (map snd ?A)" by (auto simp: o_def sorted_iff_nth_mono)
    ultimately show ?thesis using Q(2) by (auto simp: sorted_append)
  qed
  have head: "j \<le> snd (hd ?Q) + 1 \<and> snd (hd ?Q) \<in> {k, Suc k}" if "(z, j) \<in> set ?Q" for z j
  proof (cases Q)
    case Nil
    with that show ?thesis by (cases N) (auto split: if_splits)
  next
    case (Cons q qs)
    then have "k \<le> snd (hd ?Q)" "snd (hd ?Q) \<le> Suc k" using Q(1,2)[of "fst q" "snd q"] by auto
    moreover have "j \<le> Suc k" using that Q(2) by (auto split: if_splits)
    ultimately show ?thesis by auto
  qed
  have closed: "E `` {y} \<subseteq> ?V" if y: "y \<in> ?V" "at_distance E n y j" "P j" "(y, j) \<notin> set ?Q" for y j
  proof (cases "y \<in> V")
    case True
    show ?thesis
    proof (cases "(y, j) = (x, k)")
      case False
      with y(4) have "(y, j) \<notin> set ((x, k) # Q)" by auto
      with True y inv show ?thesis by (fastforce simp: bfs_inv_def)
    qed auto
  next
    case False
    with y N have "y \<in> set N" by auto
    have j: "j = Suc k" by (rule at_distance_unique[OF new[OF \<open>y \<in> set N\<close>] y(2)])
    have "(y, j) \<in> set ?Q" using y(3) \<open>y \<in> set N\<close> unfolding j by simp
    with y(4) show ?thesis by contradiction
  qed
  have level: "y \<in> ?V" if Qne: "?Q \<noteq> []" and y: "at_distance E n y j" "j \<le> snd (hd ?Q)" for y j
  proof (cases "j \<le> k")
    case True
    with inv y show ?thesis by (fastforce simp: bfs_inv_def)
  next
    case False
    have hd: "hd ?Q \<in> set ?Q" using Qne by (rule hd_in_set)
    then have "snd (hd ?Q) \<in> {k, Suc k}" using head[of "fst (hd ?Q)" "snd (hd ?Q)"] by simp
    then consider "snd (hd ?Q) = k" | "snd (hd ?Q) = Suc k" by blast
    then have h: "snd (hd ?Q) = Suc k \<and> j = Suc k"
      using y(2) False by cases (simp_all only:, linarith+)
    obtain p where p: "at_distance E n p k" "(p, y) \<in> E"
      by (rule at_distance_pred[OF y(1)[unfolded conjunct2[OF h]]])
    have "p \<in> V" using inv p(1) by (fastforce simp: bfs_inv_def)
    have "(p, k) \<notin> set Q"
    proof
      assume "(p, k) \<in> set Q"
      then have "snd (hd Q) \<le> k \<and> hd ?Q = hd Q"
        using inv by (cases Q) (force simp: bfs_inv_def)+
      with conjunct1[OF h] show False by simp
    qed
    have closed_p: "E `` {p} \<subseteq> V" if "p \<noteq> x"
      using inv p(1) \<open>p \<in> V\<close> x(3) \<open>(p, k) \<notin> set Q\<close> that by (simp add: bfs_inv_def)
    then show ?thesis using p(2) by (cases "p = x") auto
  qed
  have root: "n \<in> ?V" using inv by (auto simp: bfs_inv_def)
  have c1: "\<forall>y \<in> ?V. \<exists>j. at_distance E n y j" using visited by blast
  have c2: "\<forall>(z, j) \<in> set ?Q. z \<in> ?V \<and> at_distance E n z j \<and> P j" using entries by blast
  have c3: "\<forall>(z, j) \<in> set ?Q. j \<le> snd (hd ?Q) + 1" using head by blast
  have c4: "\<forall>y \<in> ?V. \<forall>j. at_distance E n y j \<longrightarrow> P j \<longrightarrow> (y, j) \<notin> set ?Q \<longrightarrow> E `` {y} \<subseteq> ?V"
    using closed by blast
  have c5: "?Q \<noteq> [] \<longrightarrow> (\<forall>y j. at_distance E n y j \<longrightarrow> j \<le> snd (hd ?Q) \<longrightarrow> y \<in> ?V)"
    using level by blast
  show ?thesis unfolding bfs_inv_def by (intro conjI root c1 c2 sorted c3 c4 c5)
qed

text \<open>When the queue is empty, everything within the expanded distances is visited.\<close>

lemma bfs_inv_complete:
  assumes inv: "bfs_inv E n P V []" and "at_distance E n y k" and "\<forall>j < k. P j"
  shows "y \<in> V"
  using assms(2,3)
proof (induction k arbitrary: y)
  case 0
  then show ?case using inv by (simp add: bfs_inv_def)
next
  case (Suc k)
  from Suc.prems(1) obtain p where p: "at_distance E n p k" "(p, y) \<in> E" by (rule at_distance_pred)
  with Suc have "p \<in> V" by auto
  with p Suc.prems(2) inv show ?case by (fastforce simp: bfs_inv_def)
qed

end
