(* ===== verification/Memory_Graph.thy ===== *)
theory Memory_Graph
  imports Interfaces Py_Value Graph_Search
begin

section \<open>The memory graph (memory/graph.py)\<close>

text \<open>
  Typed nodes, typed links, an index of outgoing and of incoming links per node and an index
  of node ids per type. The same link object sits in both link indexes; links are never
  mutated, so a copy in each is faithful. The order in which Python lists a \<open>set\<close> is not
  specified; the type index lists its ids in insertion order, and what is proved of a lookup by
  type does not depend on that order.
\<close>

subsection \<open>Data\<close>

datatype node_type =
    N_TASK | N_OUTPUT | N_FAILURE | N_EXPERIENCE | N_TOOL
  | N_USER | N_PROMPT | N_SCHEMA | N_DECISION | N_FEEDBACK
  | N_EVENT

fun node_type_value :: "node_type \<Rightarrow> string" where
  "node_type_value N_TASK = ''task''"
| "node_type_value N_OUTPUT = ''output''"
| "node_type_value N_FAILURE = ''failure''"
| "node_type_value N_EXPERIENCE = ''experience''"
| "node_type_value N_TOOL = ''tool''"
| "node_type_value N_USER = ''user''"
| "node_type_value N_PROMPT = ''prompt''"
| "node_type_value N_SCHEMA = ''schema''"
| "node_type_value N_DECISION = ''decision''"
| "node_type_value N_FEEDBACK = ''feedback''"
| "node_type_value N_EVENT = ''event''"

datatype link_type =
    L_REFERS_TO | L_EMBEDS | L_CAUSED_BY | L_CAUSES | L_TRIGGERED
  | L_EVOLVED_FROM | L_SUPERSEDES | L_DEPRECATED_BY | L_DISCUSSED_WITH | L_HANDED_OFF_TO
  | L_ESCALATED_TO | L_VALIDATED_BY | L_TESTED_BY | L_FAILED_WITH | L_REFERENCES
  | L_BELONGS_TO | L_PART_OF | L_CREATED_BY | L_MODIFIED_BY | L_APPROVED_BY
  | L_BEFORE | L_AFTER | L_CONCURRENT

fun link_type_value :: "link_type \<Rightarrow> string" where
  "link_type_value L_REFERS_TO = ''refers_to''"
| "link_type_value L_EMBEDS = ''embeds''"
| "link_type_value L_CAUSED_BY = ''caused_by''"
| "link_type_value L_CAUSES = ''causes''"
| "link_type_value L_TRIGGERED = ''triggered''"
| "link_type_value L_EVOLVED_FROM = ''evolved_from''"
| "link_type_value L_SUPERSEDES = ''supersedes''"
| "link_type_value L_DEPRECATED_BY = ''deprecated_by''"
| "link_type_value L_DISCUSSED_WITH = ''discussed_with''"
| "link_type_value L_HANDED_OFF_TO = ''handed_off_to''"
| "link_type_value L_ESCALATED_TO = ''escalated_to''"
| "link_type_value L_VALIDATED_BY = ''validated_by''"
| "link_type_value L_TESTED_BY = ''tested_by''"
| "link_type_value L_FAILED_WITH = ''failed_with''"
| "link_type_value L_REFERENCES = ''references''"
| "link_type_value L_BELONGS_TO = ''belongs_to''"
| "link_type_value L_PART_OF = ''part_of''"
| "link_type_value L_CREATED_BY = ''created_by''"
| "link_type_value L_MODIFIED_BY = ''modified_by''"
| "link_type_value L_APPROVED_BY = ''approved_by''"
| "link_type_value L_BEFORE = ''before''"
| "link_type_value L_AFTER = ''after''"
| "link_type_value L_CONCURRENT = ''concurrent''"

type_synonym microseconds = int

record graph_node =
  gn_id :: string
  gn_type :: node_type
  gn_content :: pydict
  gn_metadata :: pydict
  gn_created_at :: microseconds
  gn_updated_at :: microseconds

record graph_link =
  gl_source :: string
  gl_target :: string
  gl_type :: link_type
  gl_weight :: rat
  gl_context :: pydict
  gl_created_at :: microseconds
  gl_created_by :: string

record graph =
  gr_nodes :: "(string, graph_node) dict"
  gr_out :: "(string, graph_link list) dict"
  gr_in :: "(string, graph_link list) dict"
  gr_types :: "(node_type, string list) dict"

definition empty_graph :: graph where
  "empty_graph = \<lparr> gr_nodes = [], gr_out = [], gr_in = [], gr_types = [] \<rparr>"

definition links_of :: "(string, graph_link list) dict \<Rightarrow> string \<Rightarrow> graph_link list" where
  "links_of ls k = dict_get_or ls k []"

subsection \<open>Nodes\<close>

definition add_node :: "graph \<Rightarrow> graph_node \<Rightarrow> microseconds \<Rightarrow> graph" where
  "add_node g n now =
     (let n1 = (case dict_get (gr_nodes g) (gn_id n) of
                  None \<Rightarrow> n | Some existing \<Rightarrow> n\<lparr>gn_created_at := gn_created_at existing\<rparr>);
          n2 = n1\<lparr>gn_updated_at := now\<rparr>
      in g\<lparr>gr_nodes := dict_set (gr_nodes g) (gn_id n) n2,
           gr_types := dict_set (gr_types g) (gn_type n)
             (List.insert (gn_id n) (dict_get_or (gr_types g) (gn_type n) []))\<rparr>)"

definition get_node :: "graph \<Rightarrow> string \<Rightarrow> graph_node option" where
  "get_node g k = dict_get (gr_nodes g) k"

definition has_node :: "graph \<Rightarrow> string \<Rightarrow> bool" where
  "has_node g k = dict_has (gr_nodes g) k"

text \<open>
  \<open>getattr(node, key, None)\<close>: a field as a value, \<open>None\<close> for an unknown name. The two time stamps are
  \<open>datetime\<close> objects, which equal no filter value: the result \<^const>\<open>None\<close> here.
\<close>

definition node_attr :: "graph_node \<Rightarrow> string \<Rightarrow> pyval option" where
  "node_attr n key =
     (if key = ''id'' then Some (PStr (gn_id n))
      else if key = ''type'' then Some (PStr (node_type_value (gn_type n)))
      else if key = ''content'' then Some (PDict (gn_content n))
      else if key = ''metadata'' then Some (PDict (gn_metadata n))
      else if key = ''created_at'' \<or> key = ''updated_at'' then None
      else Some PNone)"

definition filter_value :: "graph_node \<Rightarrow> string \<Rightarrow> pyval option" where
  "filter_value n key =
     (if prefix ''content.'' key then Some (dict_get_or (gn_content n) (drop 8 key) PNone)
      else if prefix ''metadata.'' key then Some (dict_get_or (gn_metadata n) (drop 9 key) PNone)
      else node_attr n key)"

definition filters_match :: "(string \<times> pyval) list \<Rightarrow> graph_node \<Rightarrow> bool" where
  "filters_match fs n =
     (\<forall>(key, v) \<in> set fs. case filter_value n key of None \<Rightarrow> False | Some x \<Rightarrow> py_eq x v)"

definition find_nodes :: "graph \<Rightarrow> node_type option \<Rightarrow> (string \<times> pyval) list \<Rightarrow> graph_node list" where
  "find_nodes g ty fs =
     (let candidates = (case ty of
            None \<Rightarrow> dict_values (gr_nodes g)
          | Some t \<Rightarrow> List.map_filter (get_node g) (dict_get_or (gr_types g) t []))
      in filter (filters_match fs) candidates)"

text \<open>What \<open>delete_node\<close> and \<open>archive_node\<close> both do to the indexes.\<close>

definition drop_links_where :: "(graph_link \<Rightarrow> bool) \<Rightarrow> (string, graph_link list) dict \<Rightarrow>
    (string, graph_link list) dict" where
  "drop_links_where p ls = map (\<lambda>(k, xs). (k, filter (\<lambda>l. \<not> p l) xs)) ls"

definition remove_node :: "graph \<Rightarrow> graph_node \<Rightarrow> string \<Rightarrow> graph" where
  "remove_node g n k =
     g\<lparr>gr_nodes := dict_pop (gr_nodes g) k,
       gr_types := dict_set (gr_types g) (gn_type n)
         (filter (\<lambda>i. i \<noteq> k) (dict_get_or (gr_types g) (gn_type n) [])),
       gr_out := drop_links_where (\<lambda>l. gl_target l = k) (dict_pop (gr_out g) k),
       gr_in := drop_links_where (\<lambda>l. gl_source l = k) (dict_pop (gr_in g) k)\<rparr>"

definition delete_node :: "graph \<Rightarrow> string \<Rightarrow> graph \<times> bool" where
  "delete_node g k =
     (case dict_get (gr_nodes g) k of None \<Rightarrow> (g, False) | Some n \<Rightarrow> (remove_node g n k, True))"

definition node_count :: "graph \<Rightarrow> nat" where
  "node_count g = length (gr_nodes g)"

subsection \<open>Links\<close>

definition link ::
  "graph \<Rightarrow> string \<Rightarrow> string \<Rightarrow> link_type \<Rightarrow> rat \<Rightarrow> pydict \<Rightarrow> string \<Rightarrow> microseconds \<Rightarrow> graph \<times> bool" where
  "link g s t ty weight context created_by now =
     (if \<not> dict_has (gr_nodes g) s then (g, False)
      else if \<not> dict_has (gr_nodes g) t then (g, False)
      else
        let l = \<lparr> gl_source = s, gl_target = t, gl_type = ty, gl_weight = weight,
                  gl_context = context, gl_created_at = now, gl_created_by = created_by \<rparr>
        in (g\<lparr>gr_out := dict_set (gr_out g) s (links_of (gr_out g) s @ [l]),
              gr_in := dict_set (gr_in g) t (links_of (gr_in g) t @ [l])\<rparr>, True))"

definition of_type :: "link_type option \<Rightarrow> graph_link list \<Rightarrow> graph_link list" where
  "of_type ty ls = (case ty of None \<Rightarrow> ls | Some t \<Rightarrow> filter (\<lambda>l. gl_type l = t) ls)"

definition get_outgoing :: "graph \<Rightarrow> string \<Rightarrow> link_type option \<Rightarrow> graph_link list" where
  "get_outgoing g k ty = of_type ty (links_of (gr_out g) k)"

definition get_incoming :: "graph \<Rightarrow> string \<Rightarrow> link_type option \<Rightarrow> graph_link list" where
  "get_incoming g k ty = of_type ty (links_of (gr_in g) k)"

definition get_links_between :: "graph \<Rightarrow> string \<Rightarrow> string \<Rightarrow> graph_link list" where
  "get_links_between g s t = filter (\<lambda>l. gl_target l = t) (links_of (gr_out g) s)"

definition link_count :: "graph \<Rightarrow> nat" where
  "link_count g = sum_list (map length (dict_values (gr_out g)))"

definition delete_links :: "graph \<Rightarrow> string \<Rightarrow> string \<Rightarrow> link_type option \<Rightarrow> graph \<times> int" where
  "delete_links g s t ty =
     (let typed = (\<lambda>l. ty = None \<or> ty = Some (gl_type l));
          out1 = filter (\<lambda>l. \<not> (gl_target l = t \<and> typed l)) (links_of (gr_out g) s);
          in1 = filter (\<lambda>l. \<not> (gl_source l = s \<and> typed l)) (links_of (gr_in g) t)
      in (g\<lparr>gr_out := dict_set (gr_out g) s out1, gr_in := dict_set (gr_in g) t in1\<rparr>,
          int (length (links_of (gr_out g) s)) - int (length out1)))"

subsection \<open>Archiving and statistics\<close>

definition day :: microseconds where "day = 86400 * 1000000"

text \<open>\<open>io k\<close> tells whether writing node \<open>k\<close> to the archive succeeds.\<close>

definition archive_node :: "graph \<Rightarrow> (string \<Rightarrow> bool) \<Rightarrow> string \<Rightarrow> graph \<times> bool" where
  "archive_node g io k =
     (case dict_get (gr_nodes g) k of
        None \<Rightarrow> (g, False)
      | Some n \<Rightarrow> if \<not> io k then (g, False) else (remove_node g n k, True))"

definition find_orphan_nodes :: "graph \<Rightarrow> int \<Rightarrow> node_type list \<Rightarrow> microseconds \<Rightarrow> graph_node list" where
  "find_orphan_nodes g window_days exclude now =
     filter (\<lambda>n. gn_type n \<notin> set exclude \<and> \<not> gn_created_at n > now - window_days * day \<and>
                 links_of (gr_out g) (gn_id n) = [] \<and> links_of (gr_in g) (gn_id n) = [])
       (dict_values (gr_nodes g))"

fun archive_all :: "graph \<Rightarrow> (string \<Rightarrow> bool) \<Rightarrow> graph_node list \<Rightarrow> nat \<Rightarrow> graph \<times> nat" where
  "archive_all g io [] count = (g, count)"
| "archive_all g io (n # ns) count =
     (case archive_node g io (gn_id n) of
        (g1, ok) \<Rightarrow> archive_all g1 io ns (if ok then count + 1 else count))"

definition compact_graph ::
  "graph \<Rightarrow> (string \<Rightarrow> bool) \<Rightarrow> int \<Rightarrow> int \<Rightarrow> node_type list \<Rightarrow> microseconds \<Rightarrow> microseconds \<Rightarrow> graph \<times> nat" where
  "compact_graph g io older_than_days window_days exclude now1 now2 =
     (let orphans = find_orphan_nodes g window_days exclude now1 in
      if orphans = [] then (g, 0)
      else archive_all g io
             (filter (\<lambda>n. gn_created_at n < now2 - older_than_days * day) orphans) 0)"

definition age_labels :: "(string \<times> microseconds) list" where
  "age_labels = [(''<1d'', day), (''1-7d'', 7 * day), (''7-30d'', 30 * day), (''30-90d'', 90 * day)]"

definition age_label :: "microseconds \<Rightarrow> string" where
  "age_label age =
     (case find (\<lambda>(label, thresh). age < thresh) age_labels of
        None \<Rightarrow> ''>90d'' | Some (label, thresh) \<Rightarrow> label)"

definition age_type :: "graph_node \<Rightarrow> string" where
  "age_type n =
     (let v = node_type_value (gn_type n) in
      if v \<in> {''task'', ''output'', ''failure'', ''experience''} then v else ''other'')"

definition empty_ages :: "(string, nat) dict" where
  "empty_ages = [(''<1d'', 0), (''1-7d'', 0), (''7-30d'', 0), (''30-90d'', 0), (''>90d'', 0)]"

definition bump :: "('k, nat) dict \<Rightarrow> 'k \<Rightarrow> ('k, nat) dict" where
  "bump d k = dict_set d k (dict_get_or d k 0 + 1)"

definition age_buckets :: "graph \<Rightarrow> microseconds \<Rightarrow> (string, (string, nat) dict) dict" where
  "age_buckets g now =
     foldl (\<lambda>bs n. dict_set bs (age_type n)
              (bump (dict_get_or bs (age_type n) []) (age_label (now - gn_created_at n))))
       [(''task'', empty_ages), (''output'', empty_ages), (''failure'', empty_ages),
        (''experience'', empty_ages), (''other'', empty_ages)]
       (dict_values (gr_nodes g))"

record graph_stats =
  gs_total_nodes :: nat
  gs_total_links :: nat
  gs_nodes_by_type :: "(string, nat) dict"
  gs_links_by_type :: "(string, nat) dict"

definition graph_stats_of :: "graph \<Rightarrow> graph_stats" where
  "graph_stats_of g =
     \<lparr> gs_total_nodes = length (gr_nodes g), gs_total_links = link_count g,
       gs_nodes_by_type = map (\<lambda>(t, ids). (node_type_value t, length ids)) (gr_types g),
       gs_links_by_type = foldl (\<lambda>d l. bump d (link_type_value (gl_type l))) []
         (concat (dict_values (gr_out g))) \<rparr>"

subsection \<open>Neighbours and paths\<close>

text \<open>
  The scan of one node goes over its outgoing and then its incoming links; each endpoint not
  seen before is recorded with the link that led to it.
\<close>

definition scan_of :: "graph \<Rightarrow> string \<Rightarrow> (string \<times> graph_link) list" where
  "scan_of g x =
     map (\<lambda>l. (gl_target l, l)) (links_of (gr_out g) x) @
     map (\<lambda>l. (gl_source l, l)) (links_of (gr_in g) x)"

fun discover :: "(string \<times> 'l) list \<Rightarrow> string set \<Rightarrow> string set \<times> (string \<times> 'l) list" where
  "discover [] seen = (seen, [])"
| "discover ((y, l) # rest) seen =
     (if y \<in> seen then discover rest seen
      else (case discover rest (insert y seen) of (seen', new) \<Rightarrow> (seen', (y, l) # new)))"

record neighbor_result =
  nr_node :: graph_node
  nr_link :: graph_link
  nr_depth :: int

definition neighbor_results :: "graph \<Rightarrow> int \<Rightarrow> (string \<times> graph_link) list \<Rightarrow> neighbor_result list" where
  "neighbor_results g d new =
     List.map_filter (\<lambda>(y, l). map_option (\<lambda>n. \<lparr> nr_node = n, nr_link = l, nr_depth = d \<rparr>) (get_node g y)) new"

text \<open>Every id a link mentions: what a search can reach.\<close>

definition mentioned :: "graph \<Rightarrow> string set" where
  "mentioned g =
     (\<Union>ls \<in> set (dict_values (gr_out g)) \<union> set (dict_values (gr_in g)).
        \<Union>l \<in> set ls. {gl_source l, gl_target l})"

lemma finite_mentioned [simp]: "finite (mentioned g)"
  by (simp add: mentioned_def)

lemma links_of_values: "l \<in> set (links_of ls k) \<Longrightarrow> \<exists>xs \<in> set (dict_values ls). l \<in> set xs"
  by (cases "dict_get ls k")
    (force simp: links_of_def dict_get_or_def dict_values_def dest: dict_get_mem)+

lemma scan_mentioned: "fst ` set (scan_of g x) \<subseteq> mentioned g"
  by (fastforce simp: scan_of_def mentioned_def dest: links_of_values)

lemma discover_seen:
  "fst (discover ys seen) = seen \<union> fst ` set ys"
  "fst ` set (snd (discover ys seen)) = fst ` set ys - seen"
  "set (snd (discover ys seen)) \<subseteq> set ys"
  "distinct (map fst (snd (discover ys seen)))"
  by (induction ys seen rule: discover.induct) (auto simp: split_beta)

lemma discover_measure:
  assumes "fst ` set ys \<subseteq> U" and "finite U"
  shows "card (U - fst (discover ys seen)) + length (snd (discover ys seen)) = card (U - seen)"
proof -
  let ?new = "fst ` set (snd (discover ys seen))"
  have "length (snd (discover ys seen)) = card ?new"
    using discover_seen(4)[of ys seen] by (metis distinct_card length_map list.set_map)
  moreover have "U - seen = (U - fst (discover ys seen)) \<union> ?new"
    using assms(1) discover_seen(1,2)[of ys seen] by auto
  moreover have "(U - fst (discover ys seen)) \<inter> ?new = {}"
    using discover_seen(1,2)[of ys seen] by auto
  ultimately show ?thesis using assms(2) by (simp add: card_Un_disjoint)
qed

function nb_loop ::
  "graph \<Rightarrow> int \<Rightarrow> (string \<times> int) list \<Rightarrow> string set \<Rightarrow> neighbor_result list \<Rightarrow> neighbor_result list" where
  "nb_loop g depth [] seen results = results"
| "nb_loop g depth ((x, d) # queue) seen results =
     (if d \<ge> depth then nb_loop g depth queue seen results
      else
        let found = discover (scan_of g x) seen in
        nb_loop g depth
          (queue @ (if d + 1 < depth then map (\<lambda>(y, l). (y, d + 1)) (snd found) else []))
          (fst found) (results @ neighbor_results g (d + 1) (snd found)))"
  by pat_completeness auto
termination
proof (relation "measure (\<lambda>(g, depth, queue, seen, results). card (mentioned g - seen) + length queue)")
  fix g depth x d and queue :: "(string \<times> int) list" and seen and results :: "neighbor_result list"
    and found
  assume "found = discover (scan_of g x) seen"
  then have "card (mentioned g - fst found) + length (snd found) = card (mentioned g - seen)"
    using discover_measure[OF scan_mentioned finite_mentioned] by simp
  then show "((g, depth, queue @ (if d + 1 < depth then map (\<lambda>(y, l). (y, d + 1)) (snd found) else []),
      fst found, results @ neighbor_results g (d + 1) (snd found)),
      (g, depth, (x, d) # queue, seen, results)) \<in>
      measure (\<lambda>(g, depth, queue, seen, results). card (mentioned g - seen) + length queue)"
    by simp
qed simp_all

definition neighbors :: "graph \<Rightarrow> string \<Rightarrow> int \<Rightarrow> int \<Rightarrow> neighbor_result list" where
  "neighbors g k depth max_depth =
     (if depth > max_depth then []
      else if \<not> has_node g k then []
      else nb_loop g depth [(k, 0)] {k} [])"

record path_result =
  pr_found :: bool
  pr_path :: "(graph_node \<times> graph_link) list"
  pr_length :: nat

definition not_found :: path_result where
  "not_found = \<lparr> pr_found = False, pr_path = [], pr_length = 0 \<rparr>"

text \<open>
  \<^const>\<open>None\<close> is the \<open>KeyError\<close> of \<open>self._nodes[current]\<close>. When a link of the scanned node ends
  at the target the search returns at the first such link, whatever it discovered before.
\<close>

function path_loop ::
  "graph \<Rightarrow> string \<Rightarrow> (string \<times> (graph_node \<times> graph_link) list) list \<Rightarrow> string set \<Rightarrow> path_result option" where
  "path_loop g t [] seen = Some not_found"
| "path_loop g t ((x, trail) # queue) seen =
     (case find (\<lambda>(y, l). y = t) (scan_of g x) of
        Some (y, l) \<Rightarrow>
          (case (get_node g x, get_node g t) of
             (Some nx, Some nt) \<Rightarrow>
               Some \<lparr> pr_found = True, pr_path = trail @ [(nx, l), (nt, l)],
                      pr_length = length trail + 1 \<rparr>
           | _ \<Rightarrow> None)
      | None \<Rightarrow>
          (let found = discover (scan_of g x) seen in
           if snd found \<noteq> [] \<and> \<not> has_node g x then None
           else if card (fst found) > 10000 then Some not_found
           else path_loop g t
                  (queue @ map (\<lambda>(y, l). (y, trail @ [(the (get_node g x), l)])) (snd found))
                  (fst found)))"
  by pat_completeness auto
termination
proof (relation "measure (\<lambda>(g, t, queue, seen). card (mentioned g - seen) + length queue)")
  fix g t x trail and queue :: "(string \<times> (graph_node \<times> graph_link) list) list" and seen found
  assume "found = discover (scan_of g x) seen"
  then have "card (mentioned g - fst found) + length (snd found) = card (mentioned g - seen)"
    using discover_measure[OF scan_mentioned finite_mentioned] by simp
  then show "((g, t, queue @ map (\<lambda>(y, l). (y, trail @ [(the (get_node g x), l)])) (snd found), fst found),
      (g, t, (x, trail) # queue, seen)) \<in>
      measure (\<lambda>(g, t, queue, seen). card (mentioned g - seen) + length queue)"
    by simp
qed simp_all

text \<open>The \<open>max_depth\<close> parameter of \<open>path\<close> is never used.\<close>

definition path :: "graph \<Rightarrow> string \<Rightarrow> string \<Rightarrow> int \<Rightarrow> path_result option" where
  "path g s t max_depth =
     (if \<not> has_node g s \<or> \<not> has_node g t then Some not_found
      else if s = t then Some \<lparr> pr_found = True, pr_path = [], pr_length = 0 \<rparr>
      else path_loop g t [(s, [])] {s})"

record node_context =
  nc_node :: graph_node
  nc_neighbors :: "neighbor_result list"
  nc_experience_paths :: "path_result list"
  nc_outgoing_count :: nat
  nc_incoming_count :: nat

text \<open>No node, the context of the node, or the \<open>KeyError\<close> of a path.\<close>

datatype related_result = NoNode | Context node_context | ContextKeyError

definition related_with_context :: "graph \<Rightarrow> string \<Rightarrow> int \<Rightarrow> related_result" where
  "related_with_context g k max_depth =
     (case get_node g k of
        None \<Rightarrow> NoNode
      | Some n \<Rightarrow>
          let ns = neighbors g k max_depth 3;
              paths = map (\<lambda>r. path g k (gn_id (nr_node r)) 10)
                        (filter (\<lambda>r. gn_type (nr_node r) = N_EXPERIENCE) ns)
          in if None \<in> set paths then ContextKeyError
             else Context \<lparr> nc_node = n, nc_neighbors = ns,
                    nc_experience_paths = filter pr_found (map the paths),
                    nc_outgoing_count = length (links_of (gr_out g) k),
                    nc_incoming_count = length (links_of (gr_in g) k) \<rparr>)"

subsection \<open>Well-formed graphs\<close>

definition nodes_ok :: "graph \<Rightarrow> bool" where
  "nodes_ok g \<longleftrightarrow> dict_ok (gr_nodes g) \<and>
     (\<forall>k n. get_node g k = Some n \<longrightarrow>
        gn_id n = k \<and> k \<in> set (dict_get_or (gr_types g) (gn_type n) []))"

text \<open>Both link indexes hold the same links between any two nodes, in the same order.\<close>

definition links_ok :: "(string \<Rightarrow> bool) \<Rightarrow> (string \<Rightarrow> graph_link list) \<Rightarrow> (string \<Rightarrow> graph_link list) \<Rightarrow> bool" where
  "links_ok has outs ins \<longleftrightarrow>
     (\<forall>k. \<forall>l \<in> set (outs k). gl_source l = k \<and> has k \<and> has (gl_target l)) \<and>
     (\<forall>k. \<forall>l \<in> set (ins k). gl_target l = k \<and> has k \<and> has (gl_source l)) \<and>
     (\<forall>s t. filter (\<lambda>l. gl_target l = t) (outs s) = filter (\<lambda>l. gl_source l = s) (ins t))"

definition graph_ok :: "graph \<Rightarrow> bool" where
  "graph_ok g \<longleftrightarrow> nodes_ok g \<and> dict_ok (gr_out g) \<and> dict_ok (gr_in g) \<and>
     links_ok (has_node g) (links_of (gr_out g)) (links_of (gr_in g))"

lemma links_of_set [simp]: "links_of (dict_set ls k xs) k' = (if k' = k then xs else links_of ls k')"
  by (simp add: links_of_def)

lemma links_of_pop [simp]: "links_of (dict_pop ls k) k' = (if k' = k then [] else links_of ls k')"
  by (simp add: links_of_def dict_get_or_def)

lemma dict_get_map_snd: "dict_get (map (\<lambda>(k, xs). (k, f xs)) ls) k = map_option f (dict_get ls k)"
  by (induction ls) auto

lemma links_of_drop [simp]:
  "links_of (drop_links_where p ls) k = filter (\<lambda>l. \<not> p l) (links_of ls k)"
  by (simp add: drop_links_where_def links_of_def dict_get_or_def dict_get_map_snd split: option.splits)

lemma dict_ok_drop_links [simp]: "dict_ok (drop_links_where p ls) \<longleftrightarrow> dict_ok ls"
  by (simp add: drop_links_where_def split_beta o_def cong: map_cong)

lemmas node_access = get_node_def has_node_def

lemma links_of_fun: "links_of (dict_set ls k xs) = (links_of ls)(k := xs)"
  "links_of (drop_links_where p ls) = (\<lambda>k. filter (\<lambda>l. \<not> p l) (links_of ls k))"
  "links_of (dict_pop ls k) = (links_of ls)(k := [])"
  by auto

lemma has_node_links_upd [simp]: "has_node (g\<lparr>gr_out := os, gr_in := is\<rparr>) = has_node g"
  "get_node (g\<lparr>gr_out := os, gr_in := is\<rparr>) = get_node g"
  by (auto simp: node_access fun_eq_iff)

lemma links_ok_mono: "links_ok has outs ins \<Longrightarrow> (\<And>k. has k \<Longrightarrow> has' k) \<Longrightarrow> links_ok has' outs ins"
  by (auto simp: links_ok_def)

lemma links_ok_link:
  assumes "links_ok has outs ins" and "has (gl_source l)" and "has (gl_target l)"
  shows "links_ok has (outs(gl_source l := outs (gl_source l) @ [l]))
    (ins(gl_target l := ins (gl_target l) @ [l]))"
  using assms by (auto simp: links_ok_def)

lemma links_ok_remove:
  assumes "links_ok has outs ins" and "\<And>k. has' k \<longleftrightarrow> has k \<and> k \<noteq> n"
  shows "links_ok has' (\<lambda>k. filter (\<lambda>l. gl_target l \<noteq> n) ((outs(n := [])) k))
    (\<lambda>k. filter (\<lambda>l. gl_source l \<noteq> n) ((ins(n := [])) k))"
proof -
  have "filter (\<lambda>l. gl_target l = t) (filter (\<lambda>l. gl_target l \<noteq> n) ((outs(n := [])) s)) =
      filter (\<lambda>l. gl_source l = s) (filter (\<lambda>l. gl_source l \<noteq> n) ((ins(n := [])) t))" for s t
  proof (cases "s = n \<or> t = n")
    case True
    then show ?thesis by (auto simp: filter_empty_conv)
  next
    case False
    then have "filter (\<lambda>l. gl_target l = t) (filter (\<lambda>l. gl_target l \<noteq> n) xs) =
        filter (\<lambda>l. gl_target l = t) xs" "filter (\<lambda>l. gl_source l = s) (filter (\<lambda>l. gl_source l \<noteq> n) xs) =
        filter (\<lambda>l. gl_source l = s) xs" for xs :: "graph_link list"
      by (auto intro!: filter_cong)
    with False assms(1) show ?thesis by (simp add: links_ok_def del: filter_filter)
  qed
  with assms show ?thesis by (auto simp: links_ok_def)
qed

lemma links_ok_delete:
  assumes "links_ok has outs ins"
  shows "links_ok has
    (outs(s := filter (\<lambda>l. \<not> (gl_target l = t \<and> p l)) (outs s)))
    (ins(t := filter (\<lambda>l. \<not> (gl_source l = s \<and> p l)) (ins t)))"
proof -
  have pair: "filter (\<lambda>l. gl_target l = y) (outs x) = filter (\<lambda>l. gl_source l = x) (ins y)" for x y
    using assms by (simp add: links_ok_def)
  have all: "filter (\<lambda>l. True) xs = xs" for xs :: "graph_link list" by simp
  have out: "filter (\<lambda>l. gl_target l = y) (filter (\<lambda>l. \<not> (gl_target l = t \<and> p l)) xs) =
      filter (\<lambda>l. \<not> (y = t \<and> p l)) (filter (\<lambda>l. gl_target l = y) xs)" for y xs
    by (simp add: conj_commute) (auto intro!: filter_cong)
  have inc: "filter (\<lambda>l. gl_source l = x) (filter (\<lambda>l. \<not> (gl_source l = s \<and> p l)) xs) =
      filter (\<lambda>l. \<not> (x = s \<and> p l)) (filter (\<lambda>l. gl_source l = x) xs)" for x xs
    by (simp add: conj_commute) (auto intro!: filter_cong)
  have "filter (\<lambda>l. gl_target l = y) ((outs(s := filter (\<lambda>l. \<not> (gl_target l = t \<and> p l)) (outs s))) x) =
      filter (\<lambda>l. gl_source l = x) ((ins(t := filter (\<lambda>l. \<not> (gl_source l = s \<and> p l)) (ins t))) y)" for x y
    by (cases "x = s"; cases "y = t")
      (simp_all only: fun_upd_same fun_upd_other out inc pair all not_False_eq_True simp_thms)
  with assms show ?thesis by (auto simp: links_ok_def)
qed

lemma nodes_ok_add: "nodes_ok g \<Longrightarrow> nodes_ok (add_node g n now)"
proof -
  assume ok: "nodes_ok g"
  have "gn_id m = k \<and> k \<in> set (dict_get_or (gr_types (add_node g n now)) (gn_type m) [])"
    if "get_node (add_node g n now) k = Some m" for k m
  proof (cases "k = gn_id n")
    case True
    with that show ?thesis by (auto simp: add_node_def Let_def get_node_def split: option.splits)
  next
    case False
    with that have "get_node g k = Some m"
      by (auto simp: add_node_def Let_def get_node_def)
    with ok have "gn_id m = k \<and> k \<in> set (dict_get_or (gr_types g) (gn_type m) [])"
      by (simp add: nodes_ok_def)
    then show ?thesis
      by (cases "gn_type m = gn_type n") (simp_all add: add_node_def Let_def)
  qed
  moreover have "dict_ok (gr_nodes (add_node g n now))"
    using ok by (simp add: nodes_ok_def add_node_def Let_def)
  ultimately show ?thesis by (simp add: nodes_ok_def)
qed

lemma get_node_remove: "get_node (remove_node g n k) k' = (if k' = k then None else get_node g k')"
  by (simp add: remove_node_def get_node_def)

lemma nodes_ok_remove:
  assumes "nodes_ok g"
  shows "nodes_ok (remove_node g n k)"
proof -
  have "gn_id m = i \<and> i \<in> set (dict_get_or (gr_types (remove_node g n k)) (gn_type m) [])"
    if "get_node (remove_node g n k) i = Some m" for i m
  proof -
    from that assms have "i \<noteq> k" "gn_id m = i" "i \<in> set (dict_get_or (gr_types g) (gn_type m) [])"
      by (auto simp: get_node_remove nodes_ok_def split: if_splits)
    then show ?thesis by (cases "gn_type m = gn_type n") (simp_all add: remove_node_def)
  qed
  moreover have "dict_ok (gr_nodes (remove_node g n k))"
    using assms by (simp add: nodes_ok_def remove_node_def)
  ultimately show ?thesis by (simp add: nodes_ok_def)
qed

lemma graph_ok_empty [simp]: "graph_ok empty_graph"
  by (simp add: graph_ok_def nodes_ok_def links_ok_def empty_graph_def node_access links_of_def)

lemma graph_ok_add [inv_intros]: "graph_ok g \<Longrightarrow> graph_ok (add_node g n now)"
  using nodes_ok_add[of g n now]
  by (auto simp: graph_ok_def add_node_def Let_def node_access elim!: links_ok_mono)

lemma graph_ok_link [inv_intros]:
  "graph_ok g \<Longrightarrow> graph_ok (fst (link g s t ty w c b now))"
  using links_ok_link[of "has_node g" "links_of (gr_out g)" "links_of (gr_in g)"
      "\<lparr> gl_source = s, gl_target = t, gl_type = ty, gl_weight = w, gl_context = c, gl_created_at = now, gl_created_by = b \<rparr>"]
  by (auto simp: graph_ok_def link_def Let_def nodes_ok_def has_node_def links_of_fun
      simp del: map_of_eq_Some_iff)

lemma graph_ok_remove: "graph_ok g \<Longrightarrow> graph_ok (remove_node g n k)"
  using nodes_ok_remove[of g n k]
    links_ok_remove[of "has_node g" "links_of (gr_out g)" "links_of (gr_in g)" "has_node (remove_node g n k)" k]
  by (simp add: graph_ok_def links_of_fun node_access) (simp add: remove_node_def links_of_fun)

lemma graph_ok_delete [inv_intros]: "graph_ok g \<Longrightarrow> graph_ok (fst (delete_node g k))"
  by (auto simp: delete_node_def graph_ok_remove split: option.splits)

lemma graph_ok_archive [inv_intros]: "graph_ok g \<Longrightarrow> graph_ok (fst (archive_node g io k))"
  by (auto simp: archive_node_def graph_ok_remove split: option.splits)

lemma graph_ok_delete_links [inv_intros]: "graph_ok g \<Longrightarrow> graph_ok (fst (delete_links g s t ty))"
  using links_ok_delete[of "has_node g" "links_of (gr_out g)" "links_of (gr_in g)" s t
      "\<lambda>l. ty = None \<or> ty = Some (gl_type l)"]
  by (simp add: graph_ok_def delete_links_def Let_def nodes_ok_def links_of_fun)

lemma graph_ok_archive_all: "graph_ok g \<Longrightarrow> graph_ok (fst (archive_all g io ns c))"
proof (induction g io ns c rule: archive_all.induct)
  case (2 g io n ns count)
  then show ?case using graph_ok_archive[of g io "gn_id n"] by (simp add: split_beta)
qed simp

lemma graph_ok_compact [inv_intros]: "graph_ok g \<Longrightarrow> graph_ok (fst (compact_graph g io a w ex t1 t2))"
  by (simp add: compact_graph_def Let_def graph_ok_archive_all)

text \<open>The graphs a program can build.\<close>

inductive graph_reach :: "graph \<Rightarrow> bool" where
  reach_new: "graph_reach empty_graph"
| reach_add: "graph_reach g \<Longrightarrow> graph_reach (add_node g n now)"
| reach_delete: "graph_reach g \<Longrightarrow> graph_reach (fst (delete_node g k))"
| reach_link: "graph_reach g \<Longrightarrow> graph_reach (fst (link g s t ty w c b now))"
| reach_delete_links: "graph_reach g \<Longrightarrow> graph_reach (fst (delete_links g s t lty))"
| reach_archive: "graph_reach g \<Longrightarrow> graph_reach (fst (archive_node g io k))"
| reach_compact: "graph_reach g \<Longrightarrow> graph_reach (fst (compact_graph g io a wd ex t1 t2))"

lemma graph_reach_ok: "graph_reach g \<Longrightarrow> graph_ok g"
  by (induction rule: graph_reach.induct) (simp_all add: inv_intros)

text \<open>C8: Whatever sequence of operations built a graph, its two link indexes agree (the links from
  \<open>s\<close> to \<open>t\<close> are the same in both, in the same order), no link dangles, every node is stored
  under its own id and is found under its type.\<close>

theorem graph_integrity:
  assumes "graph_reach g"
  shows "(\<forall>s t. get_links_between g s t = filter (\<lambda>l. gl_source l = s) (get_incoming g t None)) \<and>
    (\<forall>k. \<forall>l \<in> set (get_outgoing g k None) \<union> set (get_incoming g k None).
       has_node g (gl_source l) \<and> has_node g (gl_target l) \<and> k \<in> {gl_source l, gl_target l}) \<and>
    (\<forall>k n. get_node g k = Some n \<longrightarrow> gn_id n = k \<and> n \<in> set (find_nodes g (Some (gn_type n)) []))"
proof -
  have ok: "graph_ok g" using assms by (rule graph_reach_ok)
  have found: "n \<in> set (find_nodes g (Some (gn_type n)) [])" if "get_node g k = Some n" for k n
  proof -
    from ok that have "k \<in> set (dict_get_or (gr_types g) (gn_type n) [])"
      by (simp add: graph_ok_def nodes_ok_def)
    with that show ?thesis
      by (force simp: find_nodes_def filters_match_def List.map_filter_def Let_def)
  qed
  from ok have "get_links_between g s t = filter (\<lambda>l. gl_source l = s) (get_incoming g t None)" for s t
    by (simp add: graph_ok_def links_ok_def get_links_between_def get_incoming_def of_type_def)
  moreover from ok have "has_node g (gl_source l) \<and> has_node g (gl_target l) \<and> k \<in> {gl_source l, gl_target l}"
    if "l \<in> set (get_outgoing g k None) \<union> set (get_incoming g k None)" for k l
    using that by (auto simp: graph_ok_def links_ok_def get_outgoing_def get_incoming_def of_type_def)
  moreover from ok have "gn_id n = k" if "get_node g k = Some n" for k n
    using that by (simp add: graph_ok_def nodes_ok_def)
  ultimately show ?thesis using found by blast
qed

definition sample_node :: "string \<Rightarrow> node_type \<Rightarrow> graph_node" where
  "sample_node k ty = \<lparr> gn_id = k, gn_type = ty, gn_content = [], gn_metadata = [],
     gn_created_at = 0, gn_updated_at = 0 \<rparr>"

definition sample_graph :: graph where
  "sample_graph =
     fst (link (add_node (add_node empty_graph (sample_node ''a'' N_TASK) 1) (sample_node ''b'' N_OUTPUT) 2)
       ''a'' ''b'' L_CAUSES 1 [] ''system'' 3)"

lemma sample_graph_reach: "graph_reach sample_graph"
  unfolding sample_graph_def by (intro graph_reach.intros)

theorem graph_integrity_witness:
  "get_links_between sample_graph ''a'' ''b'' =
   filter (\<lambda>l. gl_source l = ''a'') (get_incoming sample_graph ''b'' None)"
  using graph_integrity[OF sample_graph_reach] by blast

text \<open>Deleting a node removes it and every link from or to it, and nothing else: no other node
  changes, every link between other nodes stays, in its order, and nothing returned by a
  search of the graph mentions the node any more.\<close>

theorem delete_node_removes_all:
  assumes "graph_reach g" and "has_node g k"
  shows "case delete_node g k of (g', ok) \<Rightarrow>
    ok \<and> \<not> has_node g' k \<and> (\<forall>k'. k' \<noteq> k \<longrightarrow> get_node g' k' = get_node g k') \<and>
    (\<forall>k'. \<forall>l \<in> set (get_outgoing g' k' None) \<union> set (get_incoming g' k' None).
       gl_source l \<noteq> k \<and> gl_target l \<noteq> k) \<and>
    (\<forall>s t. s \<noteq> k \<longrightarrow> t \<noteq> k \<longrightarrow> get_links_between g' s t = get_links_between g s t) \<and>
    (\<forall>n ty fs. n \<in> set (find_nodes g' ty fs) \<longrightarrow> gn_id n \<noteq> k)"
proof -
  from assms(2) obtain n where n: "dict_get (gr_nodes g) k = Some n" by (auto simp: has_node_def)
  have ok: "graph_ok g" using assms(1) by (rule graph_reach_ok)
  let ?g = "remove_node g n k"
  have del: "delete_node g k = (?g, True)" using n by (simp add: delete_node_def)
  have ok': "graph_ok ?g" using ok by (rule graph_ok_remove)
  have gone: "\<not> has_node ?g k" by (simp add: has_node_def remove_node_def)
  have get: "get_node ?g k' = (if k' = k then None else get_node g k')" for k'
    by (rule get_node_remove)
  have ends: "gl_source l \<noteq> k \<and> gl_target l \<noteq> k"
    if "l \<in> set (get_outgoing ?g k' None) \<union> set (get_incoming ?g k' None)" for k' l
  proof -
    from that ok' have "has_node ?g (gl_source l)" "has_node ?g (gl_target l)"
      by (auto simp: graph_ok_def links_ok_def get_outgoing_def get_incoming_def of_type_def)
    with gone show ?thesis by auto
  qed
  have between: "get_links_between ?g s t = get_links_between g s t" if "s \<noteq> k" "t \<noteq> k" for s t
    using that by (auto simp: get_links_between_def remove_node_def intro!: filter_cong)
  have found: "gn_id m \<noteq> k" if "m \<in> set (find_nodes ?g ty fs)" for m ty fs
  proof -
    from ok' have "dict_ok (gr_nodes ?g)" by (simp add: graph_ok_def nodes_ok_def)
    with that obtain i where "get_node ?g i = Some m"
      by (auto simp: find_nodes_def Let_def List.map_filter_def dict_values_get get_node_def
          simp del: map_of_eq_Some_iff split: option.splits)
    with ok' gone show ?thesis by (auto simp: graph_ok_def nodes_ok_def has_node_def get_node_def)
  qed
  have "\<forall>k'. k' \<noteq> k \<longrightarrow> get_node ?g k' = get_node g k'" by (simp add: get)
  with gone ends between found show ?thesis unfolding del prod.case by blast
qed

lemma sample_graph_nodes: "has_node sample_graph k \<longleftrightarrow> k \<in> {''a'', ''b''}"
  by (simp add: has_node_def sample_graph_def link_def add_node_def empty_graph_def sample_node_def Let_def)

theorem delete_node_removes_all_witness:
  "\<not> has_node (fst (delete_node sample_graph ''a'')) ''a''"
  using delete_node_removes_all[OF sample_graph_reach, of "''a''"]
  by (simp add: sample_graph_nodes split_beta)

text \<open>A link is added exactly when both ends exist, as the last one between them and without a
  change to any other pair; removing links of a type (or all) between two nodes removes
  exactly those and reports how many there were.\<close>

theorem link_and_delete_links:
  "(case link g s t ty w c b now of (g', ok) \<Rightarrow>
      (ok \<longleftrightarrow> has_node g s \<and> has_node g t) \<and>
      (\<forall>x y. get_links_between g' x y = get_links_between g x y @
         (if ok \<and> x = s \<and> y = t
          then [\<lparr> gl_source = s, gl_target = t, gl_type = ty, gl_weight = w, gl_context = c,
                 gl_created_at = now, gl_created_by = b \<rparr>] else []))) \<and>
    (case delete_links g s t lty of (g', n) \<Rightarrow>
      n = int (length (of_type lty (get_links_between g s t))) \<and>
      (\<forall>x y. get_links_between g' x y =
         (if x = s \<and> y = t then filter (\<lambda>l. lty \<noteq> None \<and> lty \<noteq> Some (gl_type l)) (get_links_between g x y)
          else get_links_between g x y)))"
proof
  show "case link g s t ty w c b now of (g', ok) \<Rightarrow>
      (ok \<longleftrightarrow> has_node g s \<and> has_node g t) \<and>
      (\<forall>x y. get_links_between g' x y = get_links_between g x y @
         (if ok \<and> x = s \<and> y = t
          then [\<lparr> gl_source = s, gl_target = t, gl_type = ty, gl_weight = w, gl_context = c,
                 gl_created_at = now, gl_created_by = b \<rparr>] else []))"
    by (simp add: link_def has_node_def get_links_between_def Let_def)
  let ?p = "\<lambda>l. gl_target l = t \<and> (lty = None \<or> lty = Some (gl_type l))"
  have "length (links_of (gr_out g) s) = length (filter ?p (links_of (gr_out g) s)) +
      length (filter (\<lambda>l. \<not> ?p l) (links_of (gr_out g) s))"
    by (rule sum_length_filter_compl[symmetric])
  moreover have "of_type lty (get_links_between g s t) = filter ?p (links_of (gr_out g) s)"
    by (cases lty) (auto simp: of_type_def get_links_between_def intro!: filter_cong)
  moreover have "get_links_between (fst (delete_links g s t lty)) x y =
      (if x = s \<and> y = t then filter (\<lambda>l. lty \<noteq> None \<and> lty \<noteq> Some (gl_type l)) (get_links_between g x y)
       else get_links_between g x y)" for x y
    by (auto simp: delete_links_def Let_def get_links_between_def intro!: filter_cong)
  ultimately show "case delete_links g s t lty of (g', n) \<Rightarrow>
      n = int (length (of_type lty (get_links_between g s t))) \<and>
      (\<forall>x y. get_links_between g' x y =
         (if x = s \<and> y = t then filter (\<lambda>l. lty \<noteq> None \<and> lty \<noteq> Some (gl_type l)) (get_links_between g x y)
          else get_links_between g x y))"
    by (simp add: delete_links_def Let_def)
qed

text \<open>
  Adding a node again with another type leaves its id in the index of the old type: a lookup by
  the old type still returns it, and the statistics count it twice.
\<close>

lemma retyped_node_stays_in_old_index:
  fixes n :: graph_node
  assumes "gn_type n \<noteq> gn_type m" and "gn_id n = gn_id m"
    and g: "g = add_node (add_node empty_graph n t1) m t2"
  shows "map gn_type (find_nodes g (Some (gn_type n)) []) = [gn_type m]"
    and "gs_total_nodes (graph_stats_of g) = 1"
    and "sum_list (map snd (gs_nodes_by_type (graph_stats_of g))) = 2"
  using assms
  by (simp_all add: add_node_def empty_graph_def find_nodes_def graph_stats_of_def Let_def
      filters_match_def List.map_filter_def get_node_def dict_get_or_def)

subsection \<open>Searches are exact\<close>

text \<open>Two nodes are adjacent when a link joins them, in either direction.\<close>

definition edges :: "graph \<Rightarrow> (string \<times> string) set" where
  "edges g = {(x, y). y \<in> fst ` set (scan_of g x)}"

lemma edges_image: "edges g `` {x} = fst ` set (scan_of g x)"
  by (auto simp: edges_def)

lemma scan_nodes: "graph_ok g \<Longrightarrow> y \<in> fst ` set (scan_of g x) \<Longrightarrow> has_node g y \<and> has_node g x"
  by (auto simp: graph_ok_def links_ok_def scan_of_def)

lemma discover_edges: "set (map fst (snd (discover (scan_of g x) seen))) = edges g `` {x} - seen"
  using discover_seen(2)[of "scan_of g x" seen] by (simp add: edges_image)

lemma neighbor_results_map:
  assumes "graph_ok g" and "set new \<subseteq> set (scan_of g x)"
  shows "neighbor_results g d new =
    map (\<lambda>(y, l). \<lparr> nr_node = the (get_node g y), nr_link = l, nr_depth = d \<rparr>) new"
  using assms(2)
proof (induction new)
  case (Cons e new)
  obtain y l where e: "e = (y, l)" by (cases e)
  with Cons.prems have "y \<in> fst ` set (scan_of g x)" by force
  with scan_nodes[OF assms(1)] obtain n where "get_node g y = Some n" by (auto simp: node_access)
  with Cons e show ?case by (simp add: neighbor_results_def List.map_filter_def)
qed (simp add: neighbor_results_def List.map_filter_def)

lemma neighbor_results_facts:
  assumes ok: "graph_ok g" and new: "set new \<subseteq> set (scan_of g x)"
  shows "map (\<lambda>r. gn_id (nr_node r)) (neighbor_results g d new) = map fst new"
    and "\<forall>r \<in> set (neighbor_results g d new). nr_depth r = d \<and> get_node g (gn_id (nr_node r)) = Some (nr_node r)"
proof -
  have "get_node g y = Some (the (get_node g y)) \<and> gn_id (the (get_node g y)) = y" if "(y, l) \<in> set new" for y l
  proof -
    from that new have "y \<in> fst ` set (scan_of g x)" by force
    with scan_nodes[OF ok] have "has_node g y" by blast
    with ok show ?thesis by (auto simp: graph_ok_def nodes_ok_def node_access simp del: map_of_eq_Some_iff)
  qed
  then show "map (\<lambda>r. gn_id (nr_node r)) (neighbor_results g d new) = map fst new"
    "\<forall>r \<in> set (neighbor_results g d new). nr_depth r = d \<and> get_node g (gn_id (nr_node r)) = Some (nr_node r)"
    by (auto simp: neighbor_results_map[OF ok new])
qed

text \<open>The results report every visited node but the root, once, at its distance.\<close>

definition nb_ok :: "graph \<Rightarrow> string \<Rightarrow> int \<Rightarrow> string set \<Rightarrow> neighbor_result list \<Rightarrow> bool" where
  "nb_ok g n depth V res \<longleftrightarrow>
     distinct (map (\<lambda>r. gn_id (nr_node r)) res) \<and>
     (\<forall>r \<in> set res. get_node g (gn_id (nr_node r)) = Some (nr_node r) \<and>
        (\<exists>k. nr_depth r = int k \<and> int k \<le> depth \<and> at_distance (edges g) n (gn_id (nr_node r)) k)) \<and>
     (\<lambda>r. gn_id (nr_node r)) ` set res = V - {n}"

lemma nb_okD:
  assumes "nb_ok g n depth V res"
  shows "r \<in> set res \<Longrightarrow> get_node g (gn_id (nr_node r)) = Some (nr_node r) \<and>
     (\<exists>k. nr_depth r = int k \<and> int k \<le> depth \<and> at_distance (edges g) n (gn_id (nr_node r)) k)"
    and "y \<in> V \<Longrightarrow> y \<noteq> n \<Longrightarrow> \<exists>r \<in> set res. gn_id (nr_node r) = y"
    and "r \<in> set res \<Longrightarrow> gn_id (nr_node r) \<noteq> n"
proof -
  have ids: "(\<lambda>r. gn_id (nr_node r)) ` set res = V - {n}" using assms by (simp add: nb_ok_def)
  show "r \<in> set res \<Longrightarrow> get_node g (gn_id (nr_node r)) = Some (nr_node r) \<and>
     (\<exists>k. nr_depth r = int k \<and> int k \<le> depth \<and> at_distance (edges g) n (gn_id (nr_node r)) k)"
    using assms by (simp add: nb_ok_def)
  show "\<exists>r \<in> set res. gn_id (nr_node r) = y" if "y \<in> V" "y \<noteq> n"
  proof -
    from that have "y \<in> (\<lambda>r. gn_id (nr_node r)) ` set res" by (simp add: ids)
    then show ?thesis by auto
  qed
  show "gn_id (nr_node r) \<noteq> n" if "r \<in> set res"
    using imageI[OF that, of "\<lambda>r. gn_id (nr_node r)"] by (simp add: ids)
qed

lemma nb_ok_step:
  assumes ok: "graph_ok g" and inv: "bfs_inv (edges g) n (\<lambda>k. int k < depth) V ((x, k) # Q)"
    and res: "nb_ok g n depth V res" and found: "found = discover (scan_of g x) V"
  shows "nb_ok g n depth (fst found) (res @ neighbor_results g (int k + 1) (snd found))"
proof -
  have sub: "set (snd found) \<subseteq> set (scan_of g x)" unfolding found by (rule discover_seen)
  note facts = neighbor_results_facts[OF ok sub, of "int k + 1"]
  have ids: "fst ` set (snd found) = edges g `` {x} - V"
    using discover_edges[of g x V] found by simp
  have root: "n \<in> V" "int k < depth" using inv by (auto simp: bfs_inv_def)
  have seen: "fst found = V \<union> edges g `` {x}" by (simp add: found discover_seen edges_image)
  have ids': "(\<lambda>r. gn_id (nr_node r)) ` set (neighbor_results g (int k + 1) (snd found)) = edges g `` {x} - V"
    using arg_cong[OF facts(1), of set] ids by simp
  have dist: "at_distance (edges g) n (gn_id (nr_node r)) (Suc k)"
    if "r \<in> set (neighbor_results g (int k + 1) (snd found))" for r
    using that ids' bfs_new_distance[OF inv, of "gn_id (nr_node r)"] by blast
  let ?new = "neighbor_results g (int k + 1) (snd found)"
  have res_ids: "(\<lambda>r. gn_id (nr_node r)) ` set res = V - {n}" using res by (simp add: nb_ok_def)
  have d1: "distinct (map (\<lambda>r. gn_id (nr_node r)) ?new)"
    unfolding facts(1) by (simp only: found discover_seen(4))
  have "distinct (map (\<lambda>r. gn_id (nr_node r)) (res @ ?new))"
    using res d1 by (simp only: nb_ok_def map_append distinct_append set_map res_ids ids') auto
  moreover have "\<forall>r \<in> set (res @ ?new). get_node g (gn_id (nr_node r)) = Some (nr_node r) \<and>
      (\<exists>j. nr_depth r = int j \<and> int j \<le> depth \<and> at_distance (edges g) n (gn_id (nr_node r)) j)"
  proof
    fix r assume "r \<in> set (res @ ?new)"
    then consider "r \<in> set res" | "r \<in> set ?new" by auto
    then show "get_node g (gn_id (nr_node r)) = Some (nr_node r) \<and>
      (\<exists>j. nr_depth r = int j \<and> int j \<le> depth \<and> at_distance (edges g) n (gn_id (nr_node r)) j)"
    proof cases
      case 1
      with res show ?thesis unfolding nb_ok_def by blast
    next
      case 2
      with facts(2) dist root(2) show ?thesis by (auto intro!: exI[of _ "Suc k"])
    qed
  qed
  moreover have "(\<lambda>r. gn_id (nr_node r)) ` set (res @ ?new) = fst found - {n}"
    unfolding set_append image_Un res_ids ids' seen using root(1) by auto
  ultimately show ?thesis unfolding nb_ok_def by blast
qed

lemma nb_loop_spec:
  "queue = map (\<lambda>(y, k). (y, int k)) Q \<Longrightarrow> graph_ok g \<Longrightarrow>
   bfs_inv (edges g) n (\<lambda>k. int k < depth) seen Q \<Longrightarrow> nb_ok g n depth seen results \<Longrightarrow>
   \<exists>V. bfs_inv (edges g) n (\<lambda>k. int k < depth) V [] \<and> nb_ok g n depth V (nb_loop g depth queue seen results)"
proof (induction g depth queue seen results arbitrary: Q rule: nb_loop.induct)
  case (1 g depth seen results)
  then show ?case by auto
next
  case (2 g depth x d queue seen results)
  from "2.prems"(1) obtain k Q' where Q: "Q = (x, k) # Q'" "d = int k" "queue = map (\<lambda>(y, k). (y, int k)) Q'"
    by (cases Q) auto
  let ?found = "discover (scan_of g x) seen"
  note inv = "2.prems"(3)[unfolded Q(1)]
  have lt: "\<not> d \<ge> depth" using inv Q(2) by (auto simp: bfs_inv_def)
  have inv': "bfs_inv (edges g) n (\<lambda>k. int k < depth) (fst ?found)
      (Q' @ (if int (Suc k) < depth then map (\<lambda>y. (y, Suc k)) (map fst (snd ?found)) else []))"
    using bfs_inv_step[OF inv discover_edges] by (simp add: discover_seen edges_image)
  have res': "nb_ok g n depth (fst ?found) (results @ neighbor_results g (d + 1) (snd ?found))"
    unfolding Q(2) by (rule nb_ok_step[OF "2.prems"(2) inv "2.prems"(4) refl])
  have queue': "queue @ (if d + 1 < depth then map (\<lambda>(y, l). (y, d + 1)) (snd ?found) else []) =
      map (\<lambda>(y, k). (y, int k))
        (Q' @ (if int (Suc k) < depth then map (\<lambda>y. (y, Suc k)) (map fst (snd ?found)) else []))"
    by (simp add: Q(2,3) split_beta o_def add.commute)
  from "2.IH"(2)[OF lt refl queue' "2.prems"(2) inv' res'] lt show ?case by (simp add: Let_def)
qed

lemma neighbors_inv:
  assumes "graph_reach g" and "has_node g k" and "0 < depth" and "depth \<le> max_depth"
  obtains V where "bfs_inv (edges g) k (\<lambda>j. int j < depth) V []"
    and "nb_ok g k depth V (neighbors g k depth max_depth)"
proof -
  have ok: "graph_ok g" using assms(1) by (rule graph_reach_ok)
  have start: "nb_ok g k depth {k} []" by (simp add: nb_ok_def)
  have "bfs_inv (edges g) k (\<lambda>j. int j < depth) {k} [(k, 0)]" using assms(3) by (intro bfs_inv_start) simp
  from nb_loop_spec[OF _ ok this start, of "[(k, 0)]"] assms
  obtain V where "bfs_inv (edges g) k (\<lambda>j. int j < depth) V []" and "nb_ok g k depth V (neighbors g k depth max_depth)"
    by (auto simp: neighbors_def)
  then show ?thesis by (rule that)
qed

lemma neighbors_stored:
  assumes "graph_reach g" and "has_node g k" and "0 < depth" and "depth \<le> max_depth"
    and "r \<in> set (neighbors g k depth max_depth)"
  shows "get_node g (gn_id (nr_node r)) = Some (nr_node r)"
  by (rule neighbors_inv[OF assms(1-4)]) (use nb_okD(1) assms(5) in blast)

lemma neighbors_spec:
  assumes "graph_reach g" and "has_node g k" and "0 < depth" and "depth \<le> max_depth"
  shows "distinct (map (\<lambda>r. gn_id (nr_node r)) (neighbors g k depth max_depth)) \<and>
    (\<forall>y d. (\<exists>r \<in> set (neighbors g k depth max_depth). get_node g y = Some (nr_node r) \<and>
              gn_id (nr_node r) = y \<and> nr_depth r = d) \<longleftrightarrow>
           (\<exists>j. d = int j \<and> 0 < j \<and> d \<le> depth \<and> at_distance (edges g) k y j))"
proof -
  let ?ns = "neighbors g k depth max_depth"
  obtain V where V: "bfs_inv (edges g) k (\<lambda>j. int j < depth) V []" and res: "nb_ok g k depth V ?ns"
    by (rule neighbors_inv[OF assms])
  have "(\<exists>r \<in> set ?ns. get_node g y = Some (nr_node r) \<and> gn_id (nr_node r) = y \<and> nr_depth r = d) \<longleftrightarrow>
      (\<exists>j. d = int j \<and> 0 < j \<and> d \<le> depth \<and> at_distance (edges g) k y j)" (is "?L \<longleftrightarrow> ?R") for y d
  proof
    assume ?L
    then obtain r where r: "r \<in> set ?ns" "gn_id (nr_node r) = y" "nr_depth r = d" by blast
    with nb_okD(1)[OF res r(1)] obtain j where
      j: "d = int j" "int j \<le> depth" "at_distance (edges g) k y j" by auto
    have "y \<noteq> k" using nb_okD(3)[OF res r(1)] r(2) by simp
    with j(3) have "0 < j" by (cases j) auto
    with j show ?R by auto
  next
    assume ?R
    then obtain j where j: "d = int j" "0 < j" "d \<le> depth" "at_distance (edges g) k y j" by blast
    have "y \<in> V" using bfs_inv_complete[OF V j(4)] j(1,3) by simp
    moreover have "y \<noteq> k" using j(2,4) by auto
    ultimately obtain r where r: "r \<in> set ?ns" "gn_id (nr_node r) = y"
      using nb_okD(2)[OF res] by blast
    with nb_okD(1)[OF res r(1)] obtain i where i: "nr_depth r = int i" "at_distance (edges g) k y i"
        "get_node g y = Some (nr_node r)"
      by auto
    have "j = i" by (rule at_distance_unique[OF i(2) j(4)])
    with i j(1) r show ?L by blast
  qed
  moreover have "distinct (map (\<lambda>r. gn_id (nr_node r)) ?ns)" using res by (simp add: nb_ok_def)
  ultimately show ?thesis by blast
qed

text \<open>C20: \<open>neighbors\<close> is exact: it lists the nodes at distance 1 to \<open>depth\<close> along links in either
  direction, all of them, each once and with its distance.\<close>

theorem neighbors_exact:
  assumes "graph_reach g" and "has_node g k" and "0 < depth" and "depth \<le> max_depth"
  shows "distinct (map (\<lambda>r. gn_id (nr_node r)) (neighbors g k depth max_depth)) \<and>
    (\<forall>y d. (\<exists>r \<in> set (neighbors g k depth max_depth). get_node g y = Some (nr_node r) \<and>
              gn_id (nr_node r) = y \<and> nr_depth r = d) \<longleftrightarrow>
           (\<exists>j. d = int j \<and> 0 < j \<and> d \<le> depth \<and> at_distance (edges g) k y j))"
  using assms by (rule neighbors_spec)

theorem neighbors_exact_witness:
  "\<exists>r \<in> set (neighbors sample_graph ''a'' 1 3). gn_id (nr_node r) = ''b'' \<and> nr_depth r = 1"
proof -
  have "(''a'', ''b'') \<in> edges sample_graph"
    by (simp add: edges_def scan_of_def sample_graph_def link_def add_node_def empty_graph_def
        sample_node_def links_of_def Let_def dict_get_or_def image_Un image_image)
  then have "at_distance (edges sample_graph) ''a'' ''b'' 1" by (simp add: at_distance_def)
  then show ?thesis
    using spec[OF spec[OF conjunct2[OF neighbors_exact[OF sample_graph_reach, of "''a''" 1 3]], of "''b''"], of 1]
    by (auto simp: sample_graph_nodes)
qed

text \<open>A trail from \<open>s\<close> to \<open>x\<close>: at each step the node and the link that leads to the next one.\<close>

fun trail_from :: "graph \<Rightarrow> string \<Rightarrow> (graph_node \<times> graph_link) list \<Rightarrow> string \<Rightarrow> bool" where
  "trail_from g s [] x = (s = x)"
| "trail_from g s ((n, l) # trail) x =
     (get_node g s = Some n \<and> (\<exists>y. (y, l) \<in> set (scan_of g s) \<and> trail_from g y trail x))"

lemma trail_from_append:
  "trail_from g s trail x \<Longrightarrow> get_node g x = Some n \<Longrightarrow> (y, l) \<in> set (scan_of g x) \<Longrightarrow>
   trail_from g s (trail @ [(n, l)]) y"
  by (induction g s trail x rule: trail_from.induct) auto

lemma nodes_card: "card {k. has_node g k} \<le> node_count g"
proof -
  have "has_node g k \<longleftrightarrow> k \<in> fst ` set (gr_nodes g)" for k
    using map_of_eq_None_iff[of "gr_nodes g" k] by (auto simp: has_node_def)
  then have "{k. has_node g k} = fst ` set (gr_nodes g)" by auto
  then show ?thesis unfolding node_count_def by (metis card_length length_map list.set_map)
qed

definition path_inv :: "graph \<Rightarrow> string \<Rightarrow> string \<Rightarrow> string set \<Rightarrow>
    (string \<times> (graph_node \<times> graph_link) list) list \<Rightarrow> bool" where
  "path_inv g s t seen queue \<longleftrightarrow>
     bfs_inv (edges g) s (\<lambda>_. True) seen (map (\<lambda>(x, trail). (x, length trail)) queue) \<and>
     t \<notin> seen \<and> seen \<subseteq> {k. has_node g k} \<and>
     (\<forall>(x, trail) \<in> set queue. trail_from g s trail x)"

lemma path_inv_step:
  assumes ok: "graph_ok g" and inv: "path_inv g s t seen ((x, trail) # queue)"
    and none: "t \<notin> fst ` set (scan_of g x)" and found: "found = discover (scan_of g x) seen"
  shows "path_inv g s t (fst found)
    (queue @ map (\<lambda>(y, l). (y, trail @ [(the (get_node g x), l)])) (snd found))"
proof -
  let ?q = "map (\<lambda>(x, trail). (x, length trail))"
  have bfs: "bfs_inv (edges g) s (\<lambda>_. True) seen ((x, length trail) # ?q queue)"
    and trail: "trail_from g s trail x" "\<forall>(x, trail) \<in> set queue. trail_from g s trail x"
    and x: "has_node g x" "t \<notin> seen" "seen \<subseteq> {k. has_node g k}"
    using inv by (auto simp: path_inv_def bfs_inv_def)
  have seen: "fst found = seen \<union> edges g `` {x}" by (simp add: found discover_seen edges_image)
  have "bfs_inv (edges g) s (\<lambda>_. True) (fst found)
      (?q queue @ map (\<lambda>y. (y, Suc (length trail))) (map fst (snd found)))"
    using bfs_inv_step[OF bfs discover_edges] unfolding seen by (simp add: found)
  moreover have "?q (queue @ map (\<lambda>(y, l). (y, trail @ [(the (get_node g x), l)])) (snd found)) =
      ?q queue @ map (\<lambda>y. (y, Suc (length trail))) (map fst (snd found))"
    by (simp add: split_beta o_def)
  moreover have "t \<notin> fst found" using x(2) none by (simp add: seen edges_image)
  moreover have "fst found \<subseteq> {k. has_node g k}"
    using x(3) scan_nodes[OF ok] by (auto simp: seen edges_image)
  moreover have "trail_from g s (trail @ [(the (get_node g x), l)]) y" if "(y, l) \<in> set (snd found)" for y l
  proof (rule trail_from_append[OF trail(1)])
    show "get_node g x = Some (the (get_node g x))" using x(1) by (auto simp: node_access)
    show "(y, l) \<in> set (scan_of g x)" using that discover_seen(3) unfolding found by fast
  qed
  ultimately show ?thesis using trail(2) unfolding path_inv_def by (simp only:) fastforce
qed

definition path_good :: "graph \<Rightarrow> string \<Rightarrow> string \<Rightarrow> path_result option \<Rightarrow> bool" where
  "path_good g s t out \<longleftrightarrow>
     (\<exists>r. out = Some r \<and> (pr_found r \<longleftrightarrow> (\<exists>k. at_distance (edges g) s t k)) \<and>
        (pr_found r \<longrightarrow> at_distance (edges g) s t (pr_length r) \<and>
           length (butlast (pr_path r)) = pr_length r \<and> trail_from g s (butlast (pr_path r)) t))"

lemma path_loop_good:
  "graph_ok g \<Longrightarrow> path_inv g s t seen queue \<Longrightarrow> has_node g t \<Longrightarrow> node_count g \<le> 10000 \<Longrightarrow>
   path_good g s t (path_loop g t queue seen)"
proof (induction g t queue seen rule: path_loop.induct)
  case (1 g t seen)
  then have "bfs_inv (edges g) s (\<lambda>_. True) seen []" "t \<notin> seen" by (simp_all add: path_inv_def)
  then have "\<not> at_distance (edges g) s t k" for k using bfs_inv_complete by fast
  then show ?case by (simp add: path_good_def not_found_def)
next
  case (2 g t x trail queue seen)
  note inv = "2.prems"(2)
  have bfs: "bfs_inv (edges g) s (\<lambda>_. True) seen ((x, length trail) # map (\<lambda>(x, trail). (x, length trail)) queue)"
    and x: "trail_from g s trail x" "has_node g x" "t \<notin> seen"
    using inv by (auto simp: path_inv_def bfs_inv_def)
  show ?case
  proof (cases "find (\<lambda>(y, l). y = t) (scan_of g x)")
    case (Some e)
    then have "e \<in> set (scan_of g x)" "fst e = t"
      by (auto simp: find_Some_iff split_beta)
    then obtain l where e: "e = (t, l)" "(t, l) \<in> set (scan_of g x)"
      by (metis prod.collapse)
    from x(2) "2.prems"(3) obtain nx nt where n: "get_node g x = Some nx" "get_node g t = Some nt"
      by (auto simp: node_access)
    have "(x, t) \<in> edges g" using e(2) by (force simp: edges_def)
    from bfs_new_distance[OF bfs this x(3)] have "at_distance (edges g) s t (Suc (length trail))" .
    moreover have "trail_from g s (trail @ [(nx, l)]) t" by (rule trail_from_append[OF x(1) n(1) e(2)])
    ultimately show ?thesis using Some e n by (auto simp: path_good_def butlast_append)
  next
    case None
    then have none: "t \<notin> fst ` set (scan_of g x)" by (auto simp: find_None_iff)
    let ?found = "discover (scan_of g x) seen"
    have inv': "path_inv g s t (fst ?found)
        (queue @ map (\<lambda>(y, l). (y, trail @ [(the (get_node g x), l)])) (snd ?found))"
      by (rule path_inv_step[OF "2.prems"(1) inv none refl])
    then have sub: "fst ?found \<subseteq> {k. has_node g k}" by (simp add: path_inv_def)
    have "finite {k. has_node g k}"
      by (rule finite_subset[of _ "fst ` set (gr_nodes g)"])
        (auto simp: has_node_def dest!: dict_get_mem simp del: map_of_eq_Some_iff intro: rev_image_eqI)
    from card_mono[OF this sub] nodes_card[of g] "2.prems"(4) have small: "\<not> card (fst ?found) > 10000"
      by linarith
    have "path_good g s t (path_loop g t
        (queue @ map (\<lambda>(y, l). (y, trail @ [(the (get_node g x), l)])) (snd ?found)) (fst ?found))"
      by (rule "2.IH"[OF None refl _ small "2.prems"(1) inv' "2.prems"(3,4)]) (use x(2) in simp)
    with None small x(2) show ?thesis by (simp add: Let_def)
  qed
qed

text \<open>C19: In a graph of at most 10000 nodes \<open>path\<close> finds a path exactly when links join the two nodes
  in some direction, and it is a shortest one: its length is their distance, and its entries,
  the closing one aside, walk from the source to the target, one link at a time.\<close>

theorem path_shortest:
  assumes "graph_reach g" and "has_node g s" and "has_node g t" and "node_count g \<le> 10000"
  shows "\<exists>r. path g s t max_depth = Some r \<and>
    (pr_found r \<longleftrightarrow> (\<exists>k. at_distance (edges g) s t k)) \<and>
    (pr_found r \<longrightarrow> at_distance (edges g) s t (pr_length r) \<and>
       length (butlast (pr_path r)) = pr_length r \<and> trail_from g s (butlast (pr_path r)) t)"
proof (cases "s = t")
  case True
  with assms show ?thesis by (auto simp: path_def intro!: exI[of _ 0])
next
  case False
  have ok: "graph_ok g" using assms(1) by (rule graph_reach_ok)
  have "path_inv g s t {s} [(s, [])]"
    using False assms(2) bfs_inv_start[of "\<lambda>_. True" "edges g" s] by (auto simp: path_inv_def)
  from path_loop_good[OF ok this assms(3,4)] False assms show ?thesis
    by (simp add: path_good_def path_def)
qed

theorem path_shortest_witness:
  "\<exists>r. path sample_graph ''a'' ''b'' 10 = Some r \<and> pr_found r \<and> pr_length r = 1"
proof -
  have size: "node_count sample_graph \<le> 10000"
    by (simp add: node_count_def sample_graph_def link_def add_node_def empty_graph_def sample_node_def Let_def)
  have nodes: "has_node sample_graph ''a''" "has_node sample_graph ''b''"
    by (simp_all add: sample_graph_nodes)
  have "(''a'', ''b'') \<in> edges sample_graph"
    by (simp add: edges_def scan_of_def sample_graph_def link_def add_node_def empty_graph_def
        sample_node_def links_of_def Let_def dict_get_or_def image_Un image_image)
  then have one: "at_distance (edges sample_graph) ''a'' ''b'' 1" by (simp add: at_distance_def)
  then have conn: "\<exists>k. at_distance (edges sample_graph) ''a'' ''b'' k" by blast
  obtain r where r: "path sample_graph ''a'' ''b'' 10 = Some r" and found: "pr_found r"
    and d: "at_distance (edges sample_graph) ''a'' ''b'' (pr_length r)"
    using path_shortest[OF sample_graph_reach nodes size, of 10] conn by blast
  from at_distance_unique[OF one d] r found show ?thesis by blast
qed

end
