(* ===== verification/Dataview_Parser.thy ===== *)
theory Dataview_Parser
  imports Py_Value
begin

section \<open>The query language: tokens, syntax trees, parser (core/dataview.py)\<close>

text \<open>
  The tokenizer, the syntax tree and the recursive-descent parser. A \<open>QueryError\<close> is an error
  value with its message, position and hint. Texts are ASCII. The parser's position is the list
  of the tokens that are left; its recursion runs on fuel, of which \<open>parse\<close> gives enough: it
  never runs out (\<open>parse_total\<close> below).
\<close>

subsection \<open>Tokens\<close>

datatype token_type =
    T_SELECT | T_FROM | T_WHERE | T_IN | T_STEPS | T_ORDER | T_BY | T_ASC | T_DESC | T_LIMIT | T_AS
  | T_FILTER | T_AND | T_OR | T_NOT | T_DISTINCT | T_ALL
  | T_COUNT | T_AVG | T_SUM | T_MIN | T_MAX
  | T_EQ | T_NEQ | T_GT | T_LT | T_GTE | T_LTE
  | T_COMMA | T_SEMI | T_LPAREN | T_RPAREN | T_STAR | T_DOT
  | T_IDENT | T_STRING | T_NUMBER | T_EOF

definition keyword_table :: "(string \<times> token_type) list" where
  "keyword_table =
     [(''SELECT'', T_SELECT), (''FROM'', T_FROM), (''WHERE'', T_WHERE), (''IN'', T_IN),
      (''STEPS'', T_STEPS), (''ORDER'', T_ORDER), (''BY'', T_BY), (''ASC'', T_ASC),
      (''DESC'', T_DESC), (''LIMIT'', T_LIMIT), (''AS'', T_AS), (''FILTER'', T_FILTER),
      (''AND'', T_AND), (''OR'', T_OR), (''NOT'', T_NOT), (''COUNT'', T_COUNT), (''AVG'', T_AVG),
      (''SUM'', T_SUM), (''MIN'', T_MIN), (''MAX'', T_MAX), (''DISTINCT'', T_DISTINCT),
      (''ALL'', T_ALL)]"

definition op_table :: "(string \<times> token_type) list" where
  "op_table = [(''='', T_EQ), (''!='', T_NEQ), (''>'', T_GT), (''<'', T_LT), (''>='', T_GTE), (''<='', T_LTE)]"

definition punc_table :: "(string \<times> token_type) list" where
  "punc_table = [('','', T_COMMA), ('';'', T_SEMI), (''('', T_LPAREN), ('')'', T_RPAREN),
     (''*'', T_STAR), (''.'', T_DOT)]"

definition token_name :: "token_type \<Rightarrow> string" where
  "token_name ty =
     (case find (\<lambda>p. snd p = ty) (keyword_table @ op_table @ punc_table) of
        Some (s, _) \<Rightarrow> s
      | None \<Rightarrow> if ty = T_IDENT then ''IDENT'' else if ty = T_STRING then ''STRING''
                else if ty = T_NUMBER then ''NUMBER'' else ''EOF'')"

record token =
  tok_type :: token_type
  tok_value :: pyval
  tok_line :: int
  tok_col :: int

record query_error =
  qe_message :: string
  qe_line :: int
  qe_col :: int
  qe_hint :: "string option"

definition qerr :: "string \<Rightarrow> int \<Rightarrow> int \<Rightarrow> string option \<Rightarrow> query_error" where
  "qerr m l c h = \<lparr> qe_message = m, qe_line = l, qe_col = c, qe_hint = h \<rparr>"

subsection \<open>The tokenizer\<close>

definition is_alpha :: "char \<Rightarrow> bool" where
  "is_alpha c = (let n = (of_char c :: nat) in (65 \<le> n \<and> n \<le> 90) \<or> (97 \<le> n \<and> n \<le> 122))"

definition ident_start :: "char \<Rightarrow> bool" where
  "ident_start c \<longleftrightarrow> is_alpha c \<or> c = CHR ''_''"

definition ident_char :: "char \<Rightarrow> bool" where
  "ident_char c \<longleftrightarrow> ident_start c \<or> is_digit c"

datatype lexeme_kind = LxWs | LxNumber | LxString | LxIdent | LxOp | LxPunc

definition number_len :: "string \<Rightarrow> nat" where
  "number_len s =
     (let a = length (takeWhile is_digit s) in
      case drop a s of
        c # rest \<Rightarrow>
          if c = CHR ''.'' \<and> takeWhile is_digit rest \<noteq> []
          then a + 1 + length (takeWhile is_digit rest) else a
      | [] \<Rightarrow> a)"

text \<open>The first alternative of the regular expression that matches, and how many characters.\<close>

definition match_token :: "string \<Rightarrow> (lexeme_kind \<times> nat) option" where
  "match_token s =
     (case s of
        [] \<Rightarrow> None
      | c # cs \<Rightarrow>
          if is_space c then Some (LxWs, length (takeWhile is_space s))
          else if is_digit c then Some (LxNumber, number_len s)
          else if c = CHR 0x27 \<or> c = CHR 0x22
          then (let body = takeWhile (\<lambda>d. d \<noteq> c) cs in
                if length body < length cs then Some (LxString, length body + 2) else None)
          else if ident_start c then Some (LxIdent, length (takeWhile ident_char s))
          else if prefix ''>='' s \<or> prefix ''<='' s \<or> prefix ''!='' s then Some (LxOp, 2)
          else if c = CHR ''='' \<or> c = CHR ''<'' \<or> c = CHR ''>'' then Some (LxOp, 1)
          else if c \<in> set '',;()*.'' then Some (LxPunc, 1)
          else None)"

fun nat_of_digits :: "nat \<Rightarrow> string \<Rightarrow> nat" where
  "nat_of_digits acc [] = acc"
| "nat_of_digits acc (c # cs) = nat_of_digits (acc * 10 + digit_val c) cs"

definition number_value :: "string \<Rightarrow> pyval" where
  "number_value t =
     (let whole = takeWhile is_digit t; frac = drop (length whole + 1) t in
      if CHR ''.'' \<in> set t
      then PFloat (of_nat (nat_of_digits 0 whole) +
                   of_nat (nat_of_digits 0 frac) / of_nat (10 ^ length frac))
      else PInt (int (nat_of_digits 0 t)))"

fun ws_position :: "string \<Rightarrow> int \<Rightarrow> int \<Rightarrow> int \<times> int" where
  "ws_position [] line col = (line, col)"
| "ws_position (c # cs) line col =
     (if c = CHR 0x0A then ws_position cs (line + 1) 1 else ws_position cs line (col + 1))"

text \<open>\<open>text.isupper() and text in KEYWORDS\<close>: every keyword is in upper case.\<close>

definition make_token :: "lexeme_kind \<Rightarrow> string \<Rightarrow> int \<Rightarrow> int \<Rightarrow> token" where
  "make_token kind text line col =
     (case kind of
        LxNumber \<Rightarrow> \<lparr> tok_type = T_NUMBER, tok_value = number_value text, tok_line = line, tok_col = col \<rparr>
      | LxString \<Rightarrow> \<lparr> tok_type = T_STRING, tok_value = PStr (butlast (tl text)), tok_line = line, tok_col = col \<rparr>
      | LxIdent \<Rightarrow> \<lparr> tok_type = dict_get_or keyword_table text T_IDENT, tok_value = PStr text,
                     tok_line = line, tok_col = col \<rparr>
      | LxOp \<Rightarrow> \<lparr> tok_type = dict_get_or op_table text T_EQ, tok_value = PStr text,
                  tok_line = line, tok_col = col \<rparr>
      | _ \<Rightarrow> \<lparr> tok_type = dict_get_or punc_table text T_DOT, tok_value = PStr text,
               tok_line = line, tok_col = col \<rparr>)"

definition eof_token :: "int \<Rightarrow> int \<Rightarrow> token" where
  "eof_token line col = \<lparr> tok_type = T_EOF, tok_value = PNone, tok_line = line, tok_col = col \<rparr>"

lemma match_token_progress: "match_token s = Some (kind, n) \<Longrightarrow> 0 < n \<and> s \<noteq> []"
  by (cases s)
    (auto simp: match_token_def number_len_def Let_def ident_char_def split: if_splits list.splits)

definition repr_char :: "char \<Rightarrow> string" where
  "repr_char c =
     (if c = CHR 0x27 then [CHR 0x22, c, CHR 0x22]
      else if c = CHR 0x5C then [CHR 0x27, c, c, CHR 0x27] else [CHR 0x27, c, CHR 0x27])"

function tokenize_from :: "string \<Rightarrow> int \<Rightarrow> int \<Rightarrow> query_error + token list" where
  "tokenize_from s line col =
     (if s = [] then Inr [eof_token line col]
      else case match_token s of
        None \<Rightarrow> Inl (qerr (''Unexpected character: '' @ repr_char (hd s)) line col None)
      | Some (kind, n) \<Rightarrow>
          if kind = LxWs
          then (case ws_position (take n s) line col of (line', col') \<Rightarrow> tokenize_from (drop n s) line' col')
          else map_sum id ((#) (make_token kind (take n s) line col))
                 (tokenize_from (drop n s) line (col + int n)))"
  by pat_completeness auto
termination
  by (relation "measure (\<lambda>(s, line, col). length s)") (auto dest!: match_token_progress)

declare tokenize_from.simps [simp del]

definition tokenize :: "string \<Rightarrow> query_error + token list" where
  "tokenize sql = tokenize_from sql 1 1"

subsection \<open>Syntax trees\<close>

datatype field_ref = FieldRef (fr_name: string) (fr_line: int) (fr_col: int)

datatype cmp_op = OpEq | OpNeq | OpGt | OpLt | OpGte | OpLte

datatype agg = AggCount | AggAvg | AggSum | AggMin | AggMax

datatype from_clause = FromClause (fc_type: string) (fc_line: int) (fc_col: int)

datatype order_clause = OrderClause (oc_field: field_ref) (oc_desc: bool) (oc_line: int) (oc_col: int)

datatype limit_clause = LimitClause (lc_count: int) (lc_line: int) (lc_col: int)

datatype cond =
    Comparison field_ref cmp_op pyval int int
  | InClause field_ref select_stmt int int
  | StepsClause int string int int
and select_expr =
    FieldExpr field_ref "string option" int int
  | AggExpr agg field_ref "string option" "cond option" int int
and select_stmt =
    SelectStmt "select_expr list" from_clause "cond option" "order_clause option"
      "limit_clause option" bool

fun is_agg :: "select_expr \<Rightarrow> bool" where
  "is_agg (AggExpr _ _ _ _ _ _) = True"
| "is_agg (FieldExpr _ _ _ _) = False"

definition op_of_type :: "token_type \<Rightarrow> cmp_op option" where
  "op_of_type ty =
     map_of [(T_EQ, OpEq), (T_NEQ, OpNeq), (T_GT, OpGt), (T_LT, OpLt), (T_GTE, OpGte), (T_LTE, OpLte)] ty"

definition agg_of_type :: "token_type \<Rightarrow> agg option" where
  "agg_of_type ty =
     map_of [(T_COUNT, AggCount), (T_AVG, AggAvg), (T_SUM, AggSum), (T_MIN, AggMin), (T_MAX, AggMax)] ty"

subsection \<open>The parser\<close>

datatype parse_error = PQuery query_error | PFuel

type_synonym 'a presult = "parse_error + 'a \<times> token list"

definition pbind :: "'a presult \<Rightarrow> ('a \<Rightarrow> token list \<Rightarrow> 'b presult) \<Rightarrow> 'b presult" where
  "pbind r k = (case r of Inl e \<Rightarrow> Inl e | Inr (a, ts) \<Rightarrow> k a ts)"

definition p_peek :: "token list \<Rightarrow> token" where
  "p_peek ts = (case ts of [] \<Rightarrow> eof_token 0 0 | t # _ \<Rightarrow> t)"

definition p_type :: "token list \<Rightarrow> token_type" where
  "p_type ts = tok_type (p_peek ts)"

text \<open>\<open>peek(1)\<close>: the position is clamped to the last token.\<close>

definition p_type1 :: "token list \<Rightarrow> token_type" where
  "p_type1 ts = (case ts of t # u # _ \<Rightarrow> tok_type u | _ \<Rightarrow> p_type ts)"

definition p_advance :: "token list \<Rightarrow> token list" where
  "p_advance ts = (case ts of [] \<Rightarrow> [] | t # rest \<Rightarrow> if tok_type t = T_EOF then ts else rest)"

definition p_fail :: "string \<Rightarrow> token \<Rightarrow> string option \<Rightarrow> 'a presult" where
  "p_fail m t h = Inl (PQuery (qerr m (tok_line t) (tok_col t) h))"

definition p_expect :: "token_type \<Rightarrow> string option \<Rightarrow> token list \<Rightarrow> token presult" where
  "p_expect ty h ts =
     (let t = p_peek ts in
      if tok_type t \<noteq> ty
      then p_fail (''Expected '' @ token_name ty @ '', got '' @ token_name (tok_type t)) t h
      else Inr (t, p_advance ts))"

definition tok_str :: "token \<Rightarrow> string" where
  "tok_str t = (case tok_value t of PStr s \<Rightarrow> s | _ \<Rightarrow> [])"

definition tok_int :: "token \<Rightarrow> int" where
  "tok_int t = (case num_of (tok_value t) of None \<Rightarrow> 0 | Some r \<Rightarrow> py_trunc r)"

text \<open>The \<open>while\<close> loop over dots and identifiers.\<close>

fun p_dots :: "string \<Rightarrow> token list \<Rightarrow> string presult" where
  "p_dots name [] = Inr (name, [])"
| "p_dots name [t] =
     (if tok_type t \<noteq> T_DOT then Inr (name, [t])
      else p_fail (''Expected IDENT, got EOF'') (p_peek []) (Some (''expected field name after '' @ repr_char (CHR ''.''))))"
| "p_dots name (t # i # rest) =
     (if tok_type t \<noteq> T_DOT then Inr (name, t # i # rest)
      else if tok_type i \<noteq> T_IDENT
      then p_fail (''Expected IDENT, got '' @ token_name (tok_type i)) i
             (Some (''expected field name after '' @ repr_char (CHR ''.'')))
      else p_dots (name @ ''.'' @ tok_str i) rest)"

definition p_field_ref :: "token list \<Rightarrow> field_ref presult" where
  "p_field_ref ts =
     pbind (p_expect T_IDENT (Some ''expected a field name'') ts) (\<lambda>t ts.
     pbind (p_dots (tok_str t) ts) (\<lambda>name ts.
     Inr (FieldRef name (tok_line t) (tok_col t), ts)))"

definition p_from :: "token list \<Rightarrow> from_clause presult" where
  "p_from ts =
     pbind (p_expect T_FROM (Some ''FROM clause is required'') ts) (\<lambda>t ts.
     pbind (p_expect T_IDENT (Some ''node type after FROM (e.g. tasks, outputs, failures)'') ts) (\<lambda>i ts.
     Inr (FromClause (tok_str i) (tok_line t) (tok_col t), ts)))"

definition p_steps :: "token list \<Rightarrow> cond presult" where
  "p_steps ts =
     (let line = tok_line (p_peek ts); col = tok_col (p_peek ts) in
      pbind (if p_type ts = T_NUMBER
             then pbind (p_expect T_STEPS (Some ''expected STEPS after N'') (p_advance ts))
                    (\<lambda>_ ts'. Inr (tok_int (p_peek ts), ts'))
             else pbind (p_expect T_STEPS None ts) (\<lambda>_ ts'. Inr (1, ts'))) (\<lambda>depth ts.
      pbind (p_expect T_FROM None ts) (\<lambda>_ ts.
      let r = p_peek ts in
      if tok_type r \<notin> {T_IDENT, T_STRING}
      then p_fail (''STEPS FROM expects a node id or '' @ CHR 0x27 # ''current'' @ [CHR 0x27]) r None
      else Inr (StepsClause depth (tok_str r) line col, p_advance ts))))"

definition p_value :: "token list \<Rightarrow> pyval presult" where
  "p_value ts =
     (let t = p_peek ts in
      if tok_type t \<in> {T_STRING, T_NUMBER} then Inr (tok_value t, p_advance ts)
      else if tok_type t = T_IDENT
      then Inr (if lower (tok_str t) = ''true'' then PBool True
                else if lower (tok_str t) = ''false'' then PBool False
                else if lower (tok_str t) = ''null'' then PNone
                else tok_value t, p_advance ts)
      else p_fail (''Expected literal value, got '' @ token_name (tok_type t)) t None)"

definition p_order :: "token list \<Rightarrow> order_clause presult" where
  "p_order ts =
     pbind (p_expect T_BY None ts) (\<lambda>_ ts.
     pbind (p_field_ref ts) (\<lambda>f ts.
     if p_type ts = T_DESC then Inr (OrderClause f True (fr_line f) (fr_col f), p_advance ts)
     else Inr (OrderClause f False (fr_line f) (fr_col f),
               if p_type ts = T_ASC then p_advance ts else ts)))"

definition p_alias :: "string option \<Rightarrow> string option \<Rightarrow> token list \<Rightarrow> string option presult" where
  "p_alias hint alias ts =
     (if p_type ts = T_AS
      then pbind (p_expect T_IDENT hint (p_advance ts)) (\<lambda>t ts. Inr (Some (tok_str t), ts))
      else Inr (alias, ts))"

definition p_opt_order :: "token list \<Rightarrow> order_clause option presult" where
  "p_opt_order ts =
     (if p_type ts = T_ORDER then pbind (p_order (p_advance ts)) (\<lambda>c ts. Inr (Some c, ts))
      else Inr (None, ts))"

definition p_opt_limit :: "token list \<Rightarrow> limit_clause option presult" where
  "p_opt_limit ts =
     (if p_type ts = T_LIMIT
      then pbind (p_expect T_NUMBER None (p_advance ts)) (\<lambda>t ts.
             Inr (Some (LimitClause (tok_int t) (tok_line t) (tok_col t)), ts))
      else Inr (None, ts))"

definition p_noise :: "token list \<Rightarrow> token list" where
  "p_noise ts = dropWhile (\<lambda>t. tok_type t \<in> {T_DISTINCT, T_ALL}) ts"

text \<open>The argument of an aggregate.\<close>

definition p_agg_field :: "agg \<Rightarrow> token \<Rightarrow> token list \<Rightarrow> field_ref presult" where
  "p_agg_field a t ts =
     (if p_type ts = T_STAR
      then if a \<noteq> AggCount
           then p_fail (token_name (tok_type t) @ ''(*) not supported; only COUNT(*) allows *'') t None
           else Inr (FieldRef ''*'' (tok_line (p_peek ts)) (tok_col (p_peek ts)), p_advance ts)
      else p_field_ref ts)"

text \<open>
  The mutually recursive part: a statement, its list of expressions, one expression, a
  condition. \<open>p_select\<close> is both \<open>_parse_select_stmt\<close> and the copy of it for subqueries, which
  differ in the hint of the first error only.
\<close>

fun p_select :: "nat \<Rightarrow> string option \<Rightarrow> token list \<Rightarrow> select_stmt presult"
  and p_exprs :: "nat \<Rightarrow> token list \<Rightarrow> select_expr list presult"
  and p_expr :: "nat \<Rightarrow> token list \<Rightarrow> select_expr presult"
  and p_cond :: "nat \<Rightarrow> token list \<Rightarrow> cond presult" where
  "p_select 0 hint ts = Inl PFuel"
| "p_select (Suc f) hint ts =
     pbind (p_expect T_SELECT hint ts) (\<lambda>_ ts.
     pbind (p_exprs f (p_noise ts)) (\<lambda>exprs ts.
     pbind (p_from ts) (\<lambda>from ts.
     pbind (if p_type ts = T_WHERE
            then pbind (p_cond f (p_advance ts)) (\<lambda>c ts. Inr (Some c, ts))
            else Inr (None, ts)) (\<lambda>wh ts.
     pbind (p_opt_order ts) (\<lambda>ord ts.
     pbind (p_opt_limit ts) (\<lambda>lim ts.
     Inr (SelectStmt exprs from wh ord lim (list_all is_agg exprs), ts)))))))"
| "p_exprs 0 ts = Inl PFuel"
| "p_exprs (Suc f) ts =
     pbind (p_expr f ts) (\<lambda>e ts.
     if p_type ts = T_COMMA
     then pbind (p_exprs f (p_advance ts)) (\<lambda>es ts. Inr (e # es, ts))
     else Inr ([e], ts))"
| "p_expr 0 ts = Inl PFuel"
| "p_expr (Suc f) ts =
     (let t = p_peek ts in
      case agg_of_type (tok_type t) of
        Some a \<Rightarrow>
          pbind (p_expect T_LPAREN None (p_advance ts)) (\<lambda>_ ts.
          pbind (p_agg_field a t ts) (\<lambda>field ts.
          pbind (p_expect T_RPAREN None ts) (\<lambda>_ ts.
          pbind (p_alias None None ts) (\<lambda>alias ts.
          if p_type ts = T_FILTER
          then pbind (p_expect T_LPAREN None (p_advance ts)) (\<lambda>_ ts.
               pbind (p_expect T_WHERE (Some ''FILTER expects (WHERE ...)'') ts) (\<lambda>_ ts.
               pbind (p_cond f ts) (\<lambda>c ts.
               pbind (p_expect T_RPAREN None ts) (\<lambda>_ ts.
               pbind (p_alias None alias ts) (\<lambda>alias ts.
               Inr (AggExpr a field alias (Some c) (tok_line t) (tok_col t), ts))))))
          else Inr (AggExpr a field alias None (tok_line t) (tok_col t), ts)))))
      | None \<Rightarrow>
          if tok_type t = T_STAR
          then p_fail (''Bare '' @ repr_char (CHR ''*'') @ '' is only valid inside COUNT(*)'') t
                 (Some ''use COUNT(*) or pick a field name'')
          else
            pbind (p_field_ref ts) (\<lambda>field ts.
            pbind (p_alias (Some ''alias must be an identifier'') None ts) (\<lambda>alias ts.
            Inr (FieldExpr field alias (fr_line field) (fr_col field), ts))))"
| "p_cond 0 ts = Inl PFuel"
| "p_cond (Suc f) ts =
     (if p_type ts = T_NUMBER \<and> p_type1 ts = T_STEPS then p_steps ts
      else if p_type ts = T_STEPS then p_steps ts
      else
        pbind (p_field_ref ts) (\<lambda>field ts.
        let t = p_peek ts in
        if tok_type t = T_IN
        then pbind (p_expect T_LPAREN None (p_advance ts)) (\<lambda>_ ts.
             pbind (p_select f None ts) (\<lambda>sub ts.
             pbind (p_expect T_RPAREN None ts) (\<lambda>_ ts.
             Inr (InClause field sub (tok_line t) (tok_col t), ts))))
        else case op_of_type (tok_type t) of
               None \<Rightarrow> p_fail (''Expected comparison operator, got '' @ token_name (tok_type t)) t
                         (Some ''use =, !=, >, <, >=, <='')
             | Some oper \<Rightarrow>
                 pbind (p_value (p_advance ts)) (\<lambda>v ts.
                 Inr (Comparison field oper v (tok_line t) (tok_col t), ts))))"

definition parse_tokens :: "token list \<Rightarrow> parse_error + select_stmt" where
  "parse_tokens ts =
     (case p_select (4 * length ts + 5) (Some ''queries must start with SELECT'') ts of
        Inl e \<Rightarrow> Inl e
      | Inr (stmt, rest) \<Rightarrow>
          let rest = (if p_type rest = T_SEMI then p_advance rest else rest) in
          if p_type rest \<noteq> T_EOF
          then Inl (PQuery (qerr (''Unexpected token '' @ token_name (p_type rest))
                 (tok_line (p_peek rest)) (tok_col (p_peek rest)) None))
          else Inr stmt)"

definition parse_sql :: "string \<Rightarrow> parse_error + select_stmt" where
  "parse_sql sql = (case tokenize sql of Inl e \<Rightarrow> Inl (PQuery e) | Inr ts \<Rightarrow> parse_tokens ts)"

subsection \<open>The parser always ends\<close>

text \<open>A result is fine when it is not the end of the fuel and leaves fewer than \<open>n\<close> tokens.\<close>

definition p_ok :: "nat \<Rightarrow> 'a presult \<Rightarrow> bool" where
  "p_ok n r = (case r of Inl e \<Rightarrow> e \<noteq> PFuel | Inr (a, ts) \<Rightarrow> length ts < n)"

lemma p_ok_simps [simp]:
  "p_ok n (Inr (a, ts)) \<longleftrightarrow> length ts < n" "p_ok n (Inl e) \<longleftrightarrow> e \<noteq> PFuel" "p_ok n (p_fail m t h)"
  by (simp_all add: p_ok_def p_fail_def)

lemma p_ok_bind:
  "p_ok m r \<Longrightarrow> (\<And>a ts. length ts < m \<Longrightarrow> p_ok n (k a ts)) \<Longrightarrow> p_ok n (pbind r k)"
  by (cases r) (auto simp: p_ok_def pbind_def)

lemma p_ok_mono: "p_ok m r \<Longrightarrow> m \<le> n \<Longrightarrow> p_ok n r"
  by (auto simp: p_ok_def split: sum.splits)

lemma p_type_Nil [simp]: "p_type [] = T_EOF"
  by (simp add: p_type_def p_peek_def eof_token_def)

lemma length_advance: "p_type ts \<noteq> T_EOF \<Longrightarrow> length (p_advance ts) < length ts"
  by (cases ts) (auto simp: p_advance_def p_type_def p_peek_def eof_token_def)

lemma advance_lt [simp]: "length ts < n \<Longrightarrow> length (p_advance ts) < n"
  by (cases ts) (auto simp: p_advance_def)

lemma length_advance_le: "length (p_advance ts) \<le> length ts"
  by (cases ts) (auto simp: p_advance_def)

lemma lt_advance: "length us < length (p_advance ts) \<Longrightarrow> length us < length ts"
  using length_advance_le[of ts] by linarith

lemma p_ok_expect: "ty \<noteq> T_EOF \<Longrightarrow> p_ok (length ts) (p_expect ty h ts)"
  using length_advance[of ts] by (auto simp: p_expect_def Let_def p_type_def)

lemma p_ok_dots: "p_ok (Suc (length ts)) (p_dots name ts)"
  by (induction name ts rule: p_dots.induct) (auto elim!: p_ok_mono)

lemma p_ok_field_ref: "p_ok (length ts) (p_field_ref ts)"
  unfolding p_field_ref_def by (rule p_ok_bind[OF p_ok_expect] p_ok_bind[OF p_ok_dots] | simp)+

lemma p_ok_from: "p_ok (length ts) (p_from ts)"
  unfolding p_from_def by (rule p_ok_bind[OF p_ok_expect] | simp)+

lemma p_ok_alias: "p_ok (Suc (length ts)) (p_alias h a ts)"
  unfolding p_alias_def using length_advance_le[of ts]
  by (auto intro!: p_ok_bind[OF p_ok_expect])

lemma p_ok_steps: "p_ok (length ts) (p_steps ts)"
proof -
  have "p_ok (length ts) (if p_type ts = T_NUMBER
      then pbind (p_expect T_STEPS (Some ''expected STEPS after N'') (p_advance ts))
             (\<lambda>_ ts'. Inr (tok_int (p_peek ts), ts'))
      else pbind (p_expect T_STEPS None ts) (\<lambda>_ ts'. Inr (1, ts')))"
    using length_advance[of ts] by (auto intro!: p_ok_bind[OF p_ok_expect])
  then show ?thesis unfolding p_steps_def Let_def
  proof (rule p_ok_bind)
    fix depth and ts1 :: "token list" assume ts1: "length ts1 < length ts"
    show "p_ok (length ts) (pbind (p_expect T_FROM None ts1) (\<lambda>_ ts2.
        if tok_type (p_peek ts2) \<notin> {T_IDENT, T_STRING}
        then p_fail (''STEPS FROM expects a node id or '' @ CHR 0x27 # ''current'' @ [CHR 0x27]) (p_peek ts2) None
        else Inr (StepsClause depth (tok_str (p_peek ts2)) (tok_line (p_peek ts)) (tok_col (p_peek ts)),
          p_advance ts2)))"
    proof (rule p_ok_bind[OF p_ok_expect])
      fix ts2 :: "token list" assume "length ts2 < length ts1"
      then show "p_ok (length ts) (if tok_type (p_peek ts2) \<notin> {T_IDENT, T_STRING}
        then p_fail (''STEPS FROM expects a node id or '' @ CHR 0x27 # ''current'' @ [CHR 0x27]) (p_peek ts2) None
        else Inr (StepsClause depth (tok_str (p_peek ts2)) (tok_line (p_peek ts)) (tok_col (p_peek ts)),
          p_advance ts2))"
        using ts1 by auto
    qed simp
  qed
qed

lemma p_ok_value: "p_ok (length ts) (p_value ts)"
  using length_advance[of ts] by (auto simp: p_value_def Let_def p_type_def)

lemma p_ok_opt_order: "p_ok (Suc (length ts)) (p_opt_order ts)"
proof -
  have ord: "p_ok (length us) (p_order us)" for us
    unfolding p_order_def
  proof (rule p_ok_bind[OF p_ok_expect], simp, rule p_ok_bind[OF p_ok_field_ref])
    fix us1 us2 :: "token list" and f
    assume "length us1 < length us" "length us2 < length us1"
    with length_advance_le[of us2]
    show "p_ok (length us) (if p_type us2 = T_DESC
        then Inr (OrderClause f True (fr_line f) (fr_col f), p_advance us2)
        else Inr (OrderClause f False (fr_line f) (fr_col f),
          if p_type us2 = T_ASC then p_advance us2 else us2))"
      by (auto)
  qed
  show ?thesis unfolding p_opt_order_def
    using length_advance_le[of ts] by (auto intro!: p_ok_bind[OF ord])
qed

lemma p_ok_opt_limit: "p_ok (Suc (length ts)) (p_opt_limit ts)"
  unfolding p_opt_limit_def using length_advance_le[of ts]
  by (auto intro!: p_ok_bind[OF p_ok_expect])

lemma p_ok_agg_field: "p_ok (length ts) (p_agg_field a t ts)"
  using length_advance[of ts] by (auto simp: p_agg_field_def p_ok_field_ref)

lemma length_noise: "length (p_noise ts) \<le> length ts"
  by (simp add: p_noise_def length_dropWhile_le)

lemma p_ok_main:
  "4 * length ts + 5 \<le> f \<Longrightarrow> p_ok (length ts) (p_select f h ts)"
  "4 * length ts + 4 \<le> f \<Longrightarrow> p_ok (length ts) (p_exprs f ts)"
  "4 * length ts + 3 \<le> f \<Longrightarrow> p_ok (length ts) (p_expr f ts)"
  "4 * length ts + 2 \<le> f \<Longrightarrow> p_ok (length ts) (p_cond f ts)"
proof (induction f arbitrary: ts h)
  case (Suc f)
  note sel = Suc.IH(1) and exs = Suc.IH(2) and ex = Suc.IH(3) and cnd = Suc.IH(4)
  {
    case 1
    show ?case
      unfolding p_select.simps
    proof (rule p_ok_bind[OF p_ok_expect], simp)
      fix ts1 :: "token list" assume l1: "length ts1 < length ts"
      have "p_ok (length ts1) (p_exprs f (p_noise ts1))"
        by (rule p_ok_mono[OF exs]) (use 1 l1 length_noise[of ts1] in linarith)+
      then show "p_ok (length ts) (pbind (p_exprs f (p_noise ts1)) (\<lambda>exprs ts.
          pbind (p_from ts) (\<lambda>from ts.
          pbind (if p_type ts = T_WHERE
                 then pbind (p_cond f (p_advance ts)) (\<lambda>c ts. Inr (Some c, ts))
                 else Inr (None, ts)) (\<lambda>wh ts.
          pbind (p_opt_order ts) (\<lambda>ord ts.
          pbind (p_opt_limit ts) (\<lambda>lim ts.
          Inr (SelectStmt exprs from wh ord lim (list_all is_agg exprs), ts)))))))"
      proof (rule p_ok_bind, intro p_ok_bind[OF p_ok_from])
        fix exprs frm and ts2 ts3 :: "token list"
        assume l3: "length ts2 < length ts1" "length ts3 < length ts2"
        have "p_ok (Suc (length ts3)) (if p_type ts3 = T_WHERE
            then pbind (p_cond f (p_advance ts3)) (\<lambda>c ts. Inr (Some c, ts)) else Inr (None, ts3))"
          using 1 l1 l3 length_advance_le[of ts3]
          by (auto intro!: p_ok_bind[OF cnd])
        then show "p_ok (length ts) (pbind (if p_type ts3 = T_WHERE
                 then pbind (p_cond f (p_advance ts3)) (\<lambda>c ts. Inr (Some c, ts))
                 else Inr (None, ts3)) (\<lambda>wh ts.
          pbind (p_opt_order ts) (\<lambda>ord ts.
          pbind (p_opt_limit ts) (\<lambda>lim ts.
          Inr (SelectStmt exprs frm wh ord lim (list_all is_agg exprs), ts)))))"
          by (rule p_ok_bind, intro p_ok_bind[OF p_ok_opt_order] p_ok_bind[OF p_ok_opt_limit])
            (use l1 l3 in simp)
      qed
    qed
  next
    case 2
    show ?case
      unfolding p_exprs.simps
    proof (rule p_ok_bind[OF ex])
      fix e and ts1 :: "token list" assume l1: "length ts1 < length ts"
      show "p_ok (length ts) (if p_type ts1 = T_COMMA
          then pbind (p_exprs f (p_advance ts1)) (\<lambda>es ts. Inr (e # es, ts)) else Inr ([e], ts1))"
        using 2 l1 length_advance_le[of ts1]
        by (auto intro!: p_ok_bind[OF exs])
    qed (use 2 in simp)
  next
    case 3
    have cond_le: "p_ok (length us) (p_cond f us)" if "length us < length ts" for us
      by (rule cnd) (use 3 that in linarith)
    show ?case
      unfolding p_expr.simps Let_def
      by (cases "agg_of_type (tok_type (p_peek ts))")
        (auto intro!: p_ok_bind[OF p_ok_field_ref] p_ok_bind[OF p_ok_alias] p_ok_bind[OF p_ok_expect]
          p_ok_bind[OF p_ok_agg_field] p_ok_bind[OF cond_le] dest!: lt_advance)
  next
    case 4
    have sel_le: "p_ok (length us) (p_select f None us)" if "length us < length ts" for us
      by (rule sel) (use 4 that in linarith)
    show ?case
      unfolding p_cond.simps Let_def
      by (auto intro!: p_ok_steps p_ok_bind[OF p_ok_field_ref] p_ok_bind[OF p_ok_expect]
          p_ok_bind[OF sel_le] p_ok_bind[OF p_ok_value] split: option.splits dest!: lt_advance)
  }
qed simp_all

lemma p_select_no_fuel: "p_select (4 * length ts + 5) h ts \<noteq> Inl PFuel"
  using p_ok_main(1)[of ts "4 * length ts + 5" h] by (auto simp: p_ok_def)

lemma parse_sql_total:
  "(\<exists>stmt. parse_sql sql = Inr stmt) \<or> (\<exists>e. parse_sql sql = Inl (PQuery e))"
proof (cases "tokenize sql")
  case (Inl e)
  then show ?thesis by (simp add: parse_sql_def)
next
  case (Inr ts)
  have "parse_tokens ts \<noteq> Inl PFuel"
    using p_select_no_fuel[of ts "Some ''queries must start with SELECT''"]
    by (auto simp: parse_tokens_def Let_def split: sum.splits)
  then show ?thesis
    using Inr by (cases "parse_tokens ts"; cases "projl (parse_tokens ts)") (auto simp: parse_sql_def)
qed


subsection \<open>Printing and parsing back\<close>

text \<open>
  The tokens of a syntax tree, without positions. A dotted field name is printed as identifiers
  joined by dots.
\<close>

definition tk :: "token_type \<Rightarrow> pyval \<Rightarrow> token" where
  "tk ty v = \<lparr> tok_type = ty, tok_value = v, tok_line = 0, tok_col = 0 \<rparr>"

fun split_dots :: "string \<Rightarrow> string \<times> string list" where
  "split_dots [] = ([], [])"
| "split_dots (c # cs) =
     (case split_dots cs of (w, ws) \<Rightarrow> if c = CHR ''.'' then ([], w # ws) else (c # w, ws))"

fun join_dots :: "string \<Rightarrow> string list \<Rightarrow> string" where
  "join_dots w [] = w"
| "join_dots w (v # vs) = join_dots (w @ ''.'' @ v) vs"

definition field_toks :: "field_ref \<Rightarrow> token list" where
  "field_toks f =
     (case split_dots (fr_name f) of
        (w, ws) \<Rightarrow> tk T_IDENT (PStr w) # concat (map (\<lambda>v. [tk T_DOT (PStr ''.''), tk T_IDENT (PStr v)]) ws))"

definition op_type :: "cmp_op \<Rightarrow> token_type" where
  "op_type c = (case c of OpEq \<Rightarrow> T_EQ | OpNeq \<Rightarrow> T_NEQ | OpGt \<Rightarrow> T_GT | OpLt \<Rightarrow> T_LT
     | OpGte \<Rightarrow> T_GTE | OpLte \<Rightarrow> T_LTE)"

definition agg_type :: "agg \<Rightarrow> token_type" where
  "agg_type a = (case a of AggCount \<Rightarrow> T_COUNT | AggAvg \<Rightarrow> T_AVG | AggSum \<Rightarrow> T_SUM
     | AggMin \<Rightarrow> T_MIN | AggMax \<Rightarrow> T_MAX)"

fun value_tok :: "pyval \<Rightarrow> token" where
  "value_tok PNone = tk T_IDENT (PStr ''null'')"
| "value_tok (PBool b) = tk T_IDENT (PStr (if b then ''true'' else ''false''))"
| "value_tok (PStr s) = tk T_STRING (PStr s)"
| "value_tok v = tk T_NUMBER v"

definition alias_toks :: "string option \<Rightarrow> token list" where
  "alias_toks a = (case a of None \<Rightarrow> [] | Some s \<Rightarrow> [tk T_AS PNone, tk T_IDENT (PStr s)])"

definition order_toks :: "order_clause option \<Rightarrow> token list" where
  "order_toks c =
     (case c of None \<Rightarrow> []
      | Some ord \<Rightarrow> [tk T_ORDER PNone, tk T_BY PNone] @ field_toks (oc_field ord) @
                   [tk (if oc_desc ord then T_DESC else T_ASC) PNone])"

definition limit_toks :: "limit_clause option \<Rightarrow> token list" where
  "limit_toks c =
     (case c of None \<Rightarrow> [] | Some l \<Rightarrow> [tk T_LIMIT PNone, tk T_NUMBER (PInt (lc_count l))])"

definition agg_field_toks :: "field_ref \<Rightarrow> token list" where
  "agg_field_toks f = (if fr_name f = ''*'' then [tk T_STAR PNone] else field_toks f)"

fun cond_toks :: "cond \<Rightarrow> token list"
  and opt_filter_toks :: "cond option \<Rightarrow> token list"
  and opt_where_toks :: "cond option \<Rightarrow> token list"
  and expr_toks :: "select_expr \<Rightarrow> token list"
  and exprs_toks :: "select_expr list \<Rightarrow> token list"
  and stmt_toks :: "select_stmt \<Rightarrow> token list" where
  "cond_toks (Comparison f oper v l c) = field_toks f @ [tk (op_type oper) PNone, value_tok v]"
| "cond_toks (InClause f sub l c) =
     field_toks f @ [tk T_IN PNone, tk T_LPAREN PNone] @ stmt_toks sub @ [tk T_RPAREN PNone]"
| "cond_toks (StepsClause d r l c) =
     [tk T_NUMBER (PInt d), tk T_STEPS PNone, tk T_FROM PNone, tk T_STRING (PStr r)]"
| "opt_filter_toks None = []"
| "opt_filter_toks (Some c) =
     [tk T_FILTER PNone, tk T_LPAREN PNone, tk T_WHERE PNone] @ cond_toks c @ [tk T_RPAREN PNone]"
| "opt_where_toks None = []"
| "opt_where_toks (Some c) = tk T_WHERE PNone # cond_toks c"
| "expr_toks (FieldExpr f a l c) = field_toks f @ alias_toks a"
| "expr_toks (AggExpr g f a flt l c) =
     [tk (agg_type g) PNone, tk T_LPAREN PNone] @ agg_field_toks f @ [tk T_RPAREN PNone] @
     alias_toks a @ opt_filter_toks flt"
| "exprs_toks [] = []"
| "exprs_toks (e # es) = expr_toks e @ (if es = [] then [] else tk T_COMMA PNone # exprs_toks es)"
| "stmt_toks (SelectStmt es frm wh ord limc agg_only) =
     tk T_SELECT PNone # exprs_toks es @
     [tk T_FROM PNone, tk T_IDENT (PStr (fc_type frm))] @
     opt_where_toks wh @ order_toks ord @ limit_toks limc"

text \<open>
  The trees the parser builds, with their positions cleared: no list or dictionary literals, at
  least one expression, \<open>*\<close> under \<open>COUNT\<close> only.
\<close>

fun scalar :: "pyval \<Rightarrow> bool" where
  "scalar (PList _) = False"
| "scalar (PDict _) = False"
| "scalar _ = True"

definition wf_field :: "field_ref \<Rightarrow> bool" where
  "wf_field f \<longleftrightarrow> fr_line f = 0 \<and> fr_col f = 0"

definition wf_order :: "order_clause option \<Rightarrow> bool" where
  "wf_order c \<longleftrightarrow> (\<forall>ord. c = Some ord \<longrightarrow> wf_field (oc_field ord) \<and> oc_line ord = 0 \<and> oc_col ord = 0)"

definition wf_limit :: "limit_clause option \<Rightarrow> bool" where
  "wf_limit c \<longleftrightarrow> (\<forall>l. c = Some l \<longrightarrow> lc_line l = 0 \<and> lc_col l = 0)"

fun wf_cond :: "cond \<Rightarrow> bool"
  and wf_opt :: "cond option \<Rightarrow> bool"
  and wf_expr :: "select_expr \<Rightarrow> bool"
  and wf_exprs :: "select_expr list \<Rightarrow> bool"
  and wf_stmt :: "select_stmt \<Rightarrow> bool" where
  "wf_cond (Comparison f oper v l c) \<longleftrightarrow> wf_field f \<and> scalar v \<and> l = 0 \<and> c = 0"
| "wf_cond (InClause f sub l c) \<longleftrightarrow> wf_field f \<and> wf_stmt sub \<and> l = 0 \<and> c = 0"
| "wf_cond (StepsClause d r l c) \<longleftrightarrow> l = 0 \<and> c = 0"
| "wf_opt None \<longleftrightarrow> True"
| "wf_opt (Some c) \<longleftrightarrow> wf_cond c"
| "wf_expr (FieldExpr f a l c) \<longleftrightarrow> wf_field f \<and> l = 0 \<and> c = 0"
| "wf_expr (AggExpr g f a flt l c) \<longleftrightarrow>
     wf_field f \<and> (fr_name f = ''*'' \<longrightarrow> g = AggCount) \<and> wf_opt flt \<and> l = 0 \<and> c = 0"
| "wf_exprs [] \<longleftrightarrow> True"
| "wf_exprs (e # es) \<longleftrightarrow> wf_expr e \<and> wf_exprs es"
| "wf_stmt (SelectStmt es frm wh ord limc agg_only) \<longleftrightarrow>
     es \<noteq> [] \<and> wf_exprs es \<and> fc_line frm = 0 \<and> fc_col frm = 0 \<and> wf_opt wh \<and> wf_order ord \<and>
     wf_limit limc \<and> agg_only = list_all is_agg es"

lemma p_simps [simp]:
  "tok_type (tk ty v) = ty" "tok_value (tk ty v) = v" "tok_line (tk ty v) = 0" "tok_col (tk ty v) = 0"
  "p_peek (t # ts) = t" "p_type (t # ts) = tok_type t" "p_type1 (t # u # ts) = tok_type u"
  "pbind (Inr (a, ts)) k = k a ts" "tok_str (tk ty (PStr s)) = s" "tok_int (tk ty (PInt i)) = i"
  by (simp_all add: tk_def p_peek_def p_type_def p_type1_def pbind_def tok_str_def tok_int_def)

lemma p_advance_tk [simp]: "ty \<noteq> T_EOF \<Longrightarrow> p_advance (tk ty v # ts) = ts"
  by (simp add: p_advance_def)

lemma p_expect_tk [simp]: "ty \<noteq> T_EOF \<Longrightarrow> p_expect ty h (tk ty v # ts) = Inr (tk ty v, ts)"
  by (simp add: p_expect_def)

lemma join_dots_concat: "join_dots w ws = w @ concat (map ((#) (CHR ''.'')) ws)"
  by (induction w ws rule: join_dots.induct) simp_all

lemma join_split: "join_dots (fst (split_dots s)) (snd (split_dots s)) = s"
  by (induction s) (auto simp: join_dots_concat split_beta)

lemma p_dots_stop [simp]: "p_type ts \<noteq> T_DOT \<Longrightarrow> p_dots w ts = Inr (w, ts)"
  by (cases "(w, ts)" rule: p_dots.cases) (auto simp: p_type_def p_peek_def)

lemma p_dots_toks:
  "p_type rest \<noteq> T_DOT \<Longrightarrow>
   p_dots w (concat (map (\<lambda>v. [tk T_DOT (PStr ''.''), tk T_IDENT (PStr v)]) ws) @ rest) =
   Inr (join_dots w ws, rest)"
  by (induction ws arbitrary: w) simp_all

lemma p_field_toks [simp]:
  "wf_field f \<Longrightarrow> p_type rest \<noteq> T_DOT \<Longrightarrow> p_field_ref (field_toks f @ rest) = Inr (f, rest)"
  using join_split[of "fr_name f"]
  by (cases f) (simp add: p_field_ref_def field_toks_def split_beta p_dots_toks wf_field_def)

lemma p_type_field [simp]: "p_type (field_toks f @ rest) = T_IDENT"
  by (simp add: field_toks_def split_beta)

lemma p_value_tok [simp]: "scalar v \<Longrightarrow> p_value (value_tok v # rest) = Inr (v, rest)"
  by (cases v) (auto simp: p_value_def lower_def lower_char_def)

lemma op_of_type [simp]: "op_of_type (op_type oper) = Some oper" "op_type oper \<noteq> T_DOT" "op_type oper \<noteq> T_IN"
    "op_type oper \<noteq> T_EOF"
  by (cases oper; simp add: op_of_type_def op_type_def)+

lemma agg_of_type [simp]: "agg_of_type (agg_type g) = Some g" "agg_type g \<noteq> T_EOF" "agg_type g \<notin> {T_DISTINCT, T_ALL}"
    "agg_of_type T_IDENT = None"
  by (cases g; simp add: agg_of_type_def agg_type_def)+

lemma p_alias_toks [simp]:
  "p_type rest \<noteq> T_AS \<Longrightarrow> p_alias h None (alias_toks a @ rest) = Inr (a, rest)"
  "p_type rest \<noteq> T_AS \<Longrightarrow> p_alias h a rest = Inr (a, rest)"
  by (auto simp: p_alias_def alias_toks_def split: option.splits)

lemma p_type_alias: "p_type (alias_toks a @ rest) = (if a = None then p_type rest else T_AS)"
  by (auto simp: alias_toks_def split: option.splits)

lemma p_order_toks [simp]:
  "wf_order c \<Longrightarrow> p_type rest \<noteq> T_ORDER \<Longrightarrow> p_opt_order (order_toks c @ rest) = Inr (c, rest)"
  by (cases c; cases "the c")
    (auto simp: p_opt_order_def order_toks_def p_order_def wf_order_def wf_field_def)

lemma p_limit_toks [simp]:
  "wf_limit c \<Longrightarrow> p_type rest \<noteq> T_LIMIT \<Longrightarrow> p_opt_limit (limit_toks c @ rest) = Inr (c, rest)"
  by (cases c; cases "the c") (auto simp: p_opt_limit_def limit_toks_def wf_limit_def)

lemma p_type_order: "p_type (order_toks c @ rest) = (if c = None then p_type rest else T_ORDER)"
  "p_type (limit_toks d @ rest) = (if d = None then p_type rest else T_LIMIT)"
  by (auto simp: order_toks_def limit_toks_def split: option.splits)

lemma p_agg_field_toks [simp]:
  "wf_field f \<Longrightarrow> (fr_name f = ''*'' \<longrightarrow> g = AggCount) \<Longrightarrow>
   p_agg_field g t (agg_field_toks f @ tk T_RPAREN v # rest) = Inr (f, tk T_RPAREN v # rest)"
  by (cases f) (auto simp: p_agg_field_def agg_field_toks_def wf_field_def)

lemma p_type_expr: "p_type (expr_toks e @ rest) \<notin> {T_DISTINCT, T_ALL}"
  by (cases e) (use agg_of_type in auto)

lemma p_noise_id: "p_type ts \<notin> {T_DISTINCT, T_ALL} \<Longrightarrow> p_noise ts = ts"
  by (cases ts) (auto simp: p_noise_def p_type_def p_peek_def)

definition cond_back :: "cond \<Rightarrow> bool" where
  "cond_back c \<longleftrightarrow> (\<forall>f rest. 4 * length (cond_toks c) + 2 \<le> f \<longrightarrow>
     p_cond f (cond_toks c @ rest) = Inr (c, rest))"

definition expr_back :: "select_expr \<Rightarrow> bool" where
  "expr_back e \<longleftrightarrow> (\<forall>f rest. 4 * length (expr_toks e) + 3 \<le> f \<longrightarrow>
     p_type rest \<notin> {T_DOT, T_AS, T_FILTER} \<longrightarrow> p_expr f (expr_toks e @ rest) = Inr (e, rest))"

definition exprs_back :: "select_expr list \<Rightarrow> bool" where
  "exprs_back es \<longleftrightarrow> (\<forall>f rest. 4 * length (exprs_toks es) + 4 \<le> f \<longrightarrow>
     p_type rest \<notin> {T_DOT, T_AS, T_FILTER, T_COMMA} \<longrightarrow>
     p_exprs f (exprs_toks es @ rest) = Inr (es, rest))"

definition stmt_back :: "select_stmt \<Rightarrow> bool" where
  "stmt_back s \<longleftrightarrow> (\<forall>f h rest. 4 * length (stmt_toks s) + 5 \<le> f \<longrightarrow>
     p_type rest \<notin> {T_WHERE, T_ORDER, T_LIMIT} \<longrightarrow> p_select f h (stmt_toks s @ rest) = Inr (s, rest))"

lemma back_comparison: "wf_cond (Comparison f oper v l c) \<Longrightarrow> cond_back (Comparison f oper v l c)"
  unfolding cond_back_def
proof (intro allI impI)
  fix n rest assume wf: "wf_cond (Comparison f oper v l c)"
    and "4 * length (cond_toks (Comparison f oper v l c)) + 2 \<le> n"
  then obtain m where "n = Suc m" by (cases n) auto
  with wf show "p_cond n (cond_toks (Comparison f oper v l c) @ rest) = Inr (Comparison f oper v l c, rest)"
    by simp
qed

lemma back_steps: "wf_cond (StepsClause d r l c) \<Longrightarrow> cond_back (StepsClause d r l c)"
  unfolding cond_back_def
proof (intro allI impI)
  fix n rest assume wf: "wf_cond (StepsClause d r l c)" and "4 * length (cond_toks (StepsClause d r l c)) + 2 \<le> n"
  then obtain m where "n = Suc m" by (cases n) auto
  with wf show "p_cond n (cond_toks (StepsClause d r l c) @ rest) = Inr (StepsClause d r l c, rest)"
    by (simp add: p_steps_def)
qed

lemma back_in:
  assumes "stmt_back sub" and "wf_cond (InClause f sub l c)"
  shows "cond_back (InClause f sub l c)"
  unfolding cond_back_def
proof (intro allI impI)
  fix n rest assume n: "4 * length (cond_toks (InClause f sub l c)) + 2 \<le> n"
  then obtain m where m: "n = Suc m" by (cases n) auto
  have "p_select m None (stmt_toks sub @ tk T_RPAREN PNone # rest) = Inr (sub, tk T_RPAREN PNone # rest)"
    using assms(1) n m by (simp add: stmt_back_def)
  then show "p_cond n (cond_toks (InClause f sub l c) @ rest) = Inr (InClause f sub l c, rest)"
    using assms(2) m by simp
qed

lemma back_field_expr: "wf_expr (FieldExpr f a l c) \<Longrightarrow> expr_back (FieldExpr f a l c)"
  unfolding expr_back_def
proof (intro allI impI)
  fix n rest assume wf: "wf_expr (FieldExpr f a l c)"
    and n: "4 * length (expr_toks (FieldExpr f a l c)) + 3 \<le> n"
    and rest: "p_type rest \<notin> {T_DOT, T_AS, T_FILTER}"
  obtain m where "n = Suc m" using n by (cases n) auto
  moreover have "tok_type (p_peek (field_toks f @ xs)) = T_IDENT" for xs
    using p_type_field[of f xs] by (simp add: p_type_def)
  moreover have "p_field_ref (field_toks f @ alias_toks a @ rest) = Inr (f, alias_toks a @ rest)"
    using wf rest by (auto simp: p_type_alias)
  ultimately show "p_expr n (expr_toks (FieldExpr f a l c) @ rest) = Inr (FieldExpr f a l c, rest)"
    using wf rest by (simp add: wf_field_def)
qed

lemma back_agg_expr:
  assumes "\<And>c. flt = Some c \<Longrightarrow> cond_back c" and "wf_expr (AggExpr g f a flt l c)"
  shows "expr_back (AggExpr g f a flt l c)"
  unfolding expr_back_def
proof (intro allI impI)
  fix n rest assume n: "4 * length (expr_toks (AggExpr g f a flt l c)) + 3 \<le> n"
    and rest: "p_type rest \<notin> {T_DOT, T_AS, T_FILTER}"
  obtain m where m: "n = Suc m" using n by (cases n) auto
  show "p_expr n (expr_toks (AggExpr g f a flt l c) @ rest) = Inr (AggExpr g f a flt l c, rest)"
  proof (cases flt)
    case None
    with assms(2) m rest show ?thesis by simp
  next
    case (Some cf)
    have "p_cond m (cond_toks cf @ tk T_RPAREN PNone # rest) = Inr (cf, tk T_RPAREN PNone # rest)"
      using assms(1)[OF Some] n m Some by (simp add: cond_back_def)
    with assms(2) m rest Some show ?thesis by simp
  qed
qed

lemma back_exprs:
  assumes "expr_back e" and "es \<noteq> [] \<Longrightarrow> exprs_back es" and "wf_exprs (e # es)"
  shows "exprs_back (e # es)"
  unfolding exprs_back_def
proof (intro allI impI)
  fix n rest assume n: "4 * length (exprs_toks (e # es)) + 4 \<le> n"
    and rest: "p_type rest \<notin> {T_DOT, T_AS, T_FILTER, T_COMMA}"
  obtain m where m: "n = Suc m" using n by (cases n) auto
  show "p_exprs n (exprs_toks (e # es) @ rest) = Inr (e # es, rest)"
  proof (cases "es = []")
    case True
    have "p_expr m (expr_toks e @ rest) = Inr (e, rest)"
      using assms(1) n m rest True by (simp add: expr_back_def)
    with True m rest show ?thesis by simp
  next
    case False
    have "p_expr m (expr_toks e @ tk T_COMMA PNone # exprs_toks es @ rest) =
        Inr (e, tk T_COMMA PNone # exprs_toks es @ rest)"
      using assms(1) n m False by (simp add: expr_back_def)
    moreover have "p_exprs m (exprs_toks es @ rest) = Inr (es, rest)"
      using assms(2) n m rest False by (simp add: exprs_back_def)
    ultimately show ?thesis using False m by simp
  qed
qed

lemma back_stmt:
  assumes "exprs_back es" and "\<And>c. wh = Some c \<Longrightarrow> cond_back c"
    and wf: "wf_stmt (SelectStmt es frm wh ord limc agg_only)"
  shows "stmt_back (SelectStmt es frm wh ord limc agg_only)"
  unfolding stmt_back_def
proof (intro allI impI)
  fix n h rest assume n: "4 * length (stmt_toks (SelectStmt es frm wh ord limc agg_only)) + 5 \<le> n"
    and rest: "p_type rest \<notin> {T_WHERE, T_ORDER, T_LIMIT}"
  obtain m where m: "n = Suc m" using n by (cases n) auto
  let ?tail = "order_toks ord @ limit_toks limc @ rest"
  let ?r1 = "tk T_FROM PNone # tk T_IDENT (PStr (fc_type frm)) # opt_where_toks wh @ ?tail"
  have tail: "p_type ?tail \<noteq> T_WHERE" using rest by (auto simp: p_type_order)
  have "p_exprs m (exprs_toks es @ ?r1) = Inr (es, ?r1)"
    using assms(1) n m by (simp add: exprs_back_def)
  moreover have "p_noise (exprs_toks es @ ?r1) = exprs_toks es @ ?r1"
    using wf p_type_expr by (intro p_noise_id) (cases es, auto)
  moreover have "p_from ?r1 = Inr (frm, opt_where_toks wh @ ?tail)"
    using wf by (cases frm) (simp add: p_from_def)
  moreover have "(if p_type (opt_where_toks wh @ ?tail) = T_WHERE
      then pbind (p_cond m (p_advance (opt_where_toks wh @ ?tail))) (\<lambda>c ts. Inr (Some c, ts))
      else Inr (None, opt_where_toks wh @ ?tail)) = Inr (wh, ?tail)"
  proof (cases wh)
    case None
    with tail show ?thesis by simp
  next
    case (Some c)
    have "p_cond m (cond_toks c @ ?tail) = Inr (c, ?tail)"
      using assms(2)[OF Some] n m Some by (simp add: cond_back_def)
    with Some show ?thesis by simp
  qed
  ultimately show "p_select n h (stmt_toks (SelectStmt es frm wh ord limc agg_only) @ rest) =
      Inr (SelectStmt es frm wh ord limc agg_only, rest)"
    using wf m rest by (simp add: p_type_order)
qed

lemma all_back:
  "wf_cond c \<Longrightarrow> cond_back c"
  "wf_opt flt \<Longrightarrow> flt = Some c' \<Longrightarrow> cond_back c'"
  "wf_expr e \<Longrightarrow> expr_back e"
  "wf_exprs es \<Longrightarrow> es \<noteq> [] \<Longrightarrow> exprs_back es"
  "wf_stmt s \<Longrightarrow> stmt_back s"
proof (induction c and flt and e and es and s arbitrary: and c' and and and
    rule: wf_cond_wf_opt_wf_expr_wf_exprs_wf_stmt.induct)
  case (1 f oper v l c)
  then show ?case by (intro back_comparison)
next
  case (2 f sub l c)
  then show ?case by (intro back_in) simp_all
next
  case (3 d r l c)
  then show ?case by (intro back_steps)
next
  case (6 f a l c)
  then show ?case by (intro back_field_expr)
next
  case (7 g f a flt l c)
  then show ?case by (intro back_agg_expr) simp_all
next
  case (9 e es)
  then show ?case by (intro back_exprs) simp_all
next
  case (10 es frm wh ord limc agg_only)
  then show ?case by (intro back_stmt) simp_all
qed simp_all

text \<open>C12: Printing a syntax tree as tokens and parsing them gives the tree back: all of it, the
  clauses in their order, the dotted names, the subqueries to any depth and the literals.\<close>

theorem parse_print_roundtrip:
  assumes "wf_stmt s"
  shows "parse_tokens (stmt_toks s @ [tk T_SEMI PNone, tk T_EOF PNone]) = Inr s"
proof -
  have "p_select (4 * length (stmt_toks s @ [tk T_SEMI PNone, tk T_EOF PNone]) + 5)
      (Some ''queries must start with SELECT'') (stmt_toks s @ [tk T_SEMI PNone, tk T_EOF PNone]) =
      Inr (s, [tk T_SEMI PNone, tk T_EOF PNone])"
    using all_back(5)[OF assms] by (simp add: stmt_back_def)
  then show ?thesis by (simp add: parse_tokens_def)
qed

theorem parse_print_roundtrip_witness:
  "\<exists>s. parse_tokens (stmt_toks s @ [tk T_SEMI PNone, tk T_EOF PNone]) = Inr s \<and>
     s = SelectStmt [FieldExpr (FieldRef ''content.status'' 0 0) (Some ''st'') 0 0]
       (FromClause ''tasks'' 0 0) (Some (Comparison (FieldRef ''id'' 0 0) OpEq (PStr ''t1'') 0 0))
       None (Some (LimitClause 5 0 0)) False"
  by (intro exI conjI[OF parse_print_roundtrip]) (auto simp: wf_field_def wf_order_def wf_limit_def)

end
