(* ===== verification/Py_Time.thy ===== *)
theory Py_Time
  imports Prelude
begin

section \<open>Dates, times and decimal texts\<close>

text \<open>Days counted from 1970-01-01, their civil dates and how Python prints them.\<close>

text \<open>The civil date of a day counted from 1970-01-01 (proleptic Gregorian calendar).\<close>

definition civil_of_days :: "int \<Rightarrow> int \<times> int \<times> int" where
  "civil_of_days days =
     (let z = days + 719468; era = z div 146097; doe = z mod 146097;
          yoe = (doe - doe div 1460 + doe div 36524 - doe div 146096) div 365;
          doy = doe - (365 * yoe + yoe div 4 - yoe div 100);
          mp = (5 * doy + 2) div 153;
          m = (if mp < 10 then mp + 3 else mp - 9)
      in (yoe + era * 400 + (if m \<le> 2 then 1 else 0), m, doy - (153 * mp + 2) div 5 + 1))"

definition padded :: "nat \<Rightarrow> int \<Rightarrow> string" where
  "padded w i = (let s = show_nat (nat i) in replicate (w - length s) (CHR ''0'') @ s)"

text \<open>\<open>str(date)\<close>: the ISO form.\<close>

definition date_str :: "int \<Rightarrow> string" where
  "date_str days =
     (case civil_of_days days of (y, m, d) \<Rightarrow> padded 4 y @ ''-'' @ padded 2 m @ ''-'' @ padded 2 d)"

text \<open>The day of a civil date, and the weekday of a day (Monday is 0; day 0 was a Thursday).\<close>

definition days_of_civil :: "int \<Rightarrow> int \<Rightarrow> int \<Rightarrow> int" where
  "days_of_civil year m d =
     (let y = (if m \<le> 2 then year - 1 else year); era = y div 400; yoe = y mod 400;
          doy = (153 * (if m > 2 then m - 3 else m + 9) + 2) div 5 + d - 1;
          doe = yoe * 365 + yoe div 4 - yoe div 100 + doy
      in era * 146097 + doe - 719468)"

definition weekday :: "int \<Rightarrow> int" where
  "weekday days = (days + 3) mod 7"

subsection \<open>Decimal texts\<close>

text \<open>Rounding half to even, and \<open>f"{x:.nf}"\<close> for \<open>n\<close> decimals.\<close>

definition round_half_even :: "rat \<Rightarrow> int" where
  "round_half_even x =
     (let f = floor x; d = x - of_int f in
      if d < 1/2 then f else if 1/2 < d then f + 1 else if even f then f else f + 1)"

lemma round_half_even_bounds:
  "of_int a \<le> x \<Longrightarrow> a \<le> round_half_even x" "x \<le> of_int b \<Longrightarrow> round_half_even x \<le> b"
proof -
  assume "of_int a \<le> x"
  then have "a \<le> \<lfloor>x\<rfloor>" by (simp add: le_floor_iff)
  then show "a \<le> round_half_even x" by (auto simp: round_half_even_def Let_def)
next
  assume b: "x \<le> of_int b"
  show "round_half_even x \<le> b"
  proof (cases "\<lfloor>x\<rfloor> = b")
    case True
    then have "x = of_int b" using b by (metis antisym of_int_floor_le)
    then show ?thesis by (simp add: round_half_even_def)
  next
    case False
    have "\<lfloor>x\<rfloor> \<le> b" using b floor_mono[OF b] by simp
    with False have "\<lfloor>x\<rfloor> + 1 \<le> b" by simp
    then show ?thesis by (auto simp: round_half_even_def Let_def)
  qed
qed

definition fixed_dec :: "nat \<Rightarrow> rat \<Rightarrow> string" where
  "fixed_dec n x =
     (let i = round_half_even (abs x * 10 ^ n) in
      (if x < 0 then ''-'' else []) @ show_int (i div 10 ^ n) @ ''.'' @ padded n (i mod 10 ^ n))"

subsection \<open>Datetimes\<close>

text \<open>
  A zone gives the offset of a wall time (with its \<open>fold\<close>) and the wall time of a UTC time; all
  times are in microseconds from 1970. A datetime is a wall time with a zone, or naive. The range of
  the years 1 to 9999 is not modelled.
\<close>

record zone =
  zn_id :: string
  zn_offset :: "int \<Rightarrow> bool \<Rightarrow> int"
  zn_from_utc :: "int \<Rightarrow> int \<times> bool"

definition fixed_zone :: "string \<Rightarrow> int \<Rightarrow> zone" where
  "fixed_zone name off = \<lparr> zn_id = name, zn_offset = (\<lambda>w f. off), zn_from_utc = (\<lambda>u. (u + off, False)) \<rparr>"

definition utc_zone :: zone where
  "utc_zone = fixed_zone ''UTC'' 0"

record datetime =
  dt_wall :: int
  dt_tz :: "zone option"
  dt_fold :: bool

definition day_us :: int where
  "day_us = 86400000000"

definition dt_date :: "datetime \<Rightarrow> int" where
  "dt_date d = dt_wall d div day_us"

definition dt_time :: "datetime \<Rightarrow> int" where
  "dt_time d = dt_wall d mod day_us"

text \<open>\<open>d + timedelta(days=n)\<close>: the wall time moves, the fold is dropped.\<close>

definition dt_add_days :: "datetime \<Rightarrow> int \<Rightarrow> datetime" where
  "dt_add_days d n = d\<lparr>dt_wall := dt_wall d + n * day_us, dt_fold := False\<rparr>"

definition utc_of :: "zone \<Rightarrow> datetime \<Rightarrow> int" where
  "utc_of z d = dt_wall d - zn_offset z (dt_wall d) (dt_fold d)"

definition in_zone :: "zone \<Rightarrow> int \<Rightarrow> datetime" where
  "in_zone z u = (case zn_from_utc z u of (w, f) \<Rightarrow> \<lparr> dt_wall = w, dt_tz = Some z, dt_fold = f \<rparr>)"

text \<open>\<open>d.replace(tzinfo=z).astimezone(z')\<close>, and \<open>d.astimezone(z')\<close> where \<open>z\<close> is the zone of \<open>d\<close>:
  in its own zone a datetime is returned as it is.\<close>

definition astimezone :: "zone \<Rightarrow> zone \<Rightarrow> datetime \<Rightarrow> datetime" where
  "astimezone z z' d = (if zn_id z = zn_id z' then d\<lparr>dt_tz := Some z\<rparr> else in_zone z' (utc_of z d))"

text \<open>What a zone promises: converting a UTC time to a wall time and back gives the UTC time again.\<close>

locale zone_laws =
  fixes z :: zone
  assumes from_utc: "zn_from_utc z u = (w, f) \<Longrightarrow> w - zn_offset z w f = u"
begin

lemma utc_of_in_zone: "utc_of z (in_zone z u) = u"
  by (auto simp: utc_of_def in_zone_def from_utc split: prod.split)

lemma utc_of_astimezone:
  assumes "zn_id y = zn_id z \<Longrightarrow> y = z"
  shows "utc_of z (astimezone y z d) = utc_of y d"
  using assms utc_of_in_zone by (auto simp: astimezone_def utc_of_def)

end

interpretation fixed_laws: zone_laws "fixed_zone name off" for name off
  by unfold_locales (simp add: fixed_zone_def)

lemma fixed_zone_simps [simp]:
  "zn_offset (fixed_zone name off) w f = off" "zn_from_utc (fixed_zone name off) u = (u + off, False)"
  "zn_id (fixed_zone name off) = name"
  by (simp_all add: fixed_zone_def)

lemma dt_time_range: "0 \<le> dt_time d" "dt_time d < day_us"
  by (simp_all add: dt_time_def day_us_def)

lemma dt_split: "dt_wall d = dt_date d * day_us + dt_time d"
  by (simp add: dt_date_def dt_time_def)

lemma dt_date_add [simp]: "dt_date (dt_add_days d n) = dt_date d + n"
  by (simp add: dt_date_def dt_add_days_def day_us_def)

lemma dt_date_at: "0 \<le> t \<Longrightarrow> t < day_us \<Longrightarrow> (d * day_us + t) div day_us = d \<and> (d * day_us + t) mod day_us = t"
  by (simp add: day_us_def)

lemma weekday_cases: "0 \<le> weekday d" "weekday d < 7"
  by (simp_all add: weekday_def)

end
