(* ===== verification/Dataview_Exec.thy ===== *)
theory Dataview_Exec
  imports Dataview_Parser Memory_Graph Py_Time "HOL-Library.Multiset"
begin

section \<open>The query language: execution and builder (core/dataview.py)\<close>

text \<open>
  A parsed statement is run over the memory graph: candidates by node type, the \<open>WHERE\<close>
  filter, rows or aggregates, \<open>ORDER BY\<close>, \<open>LIMIT\<close>. The duration is left out. A \<open>QueryError\<close>, the
  \<open>TypeError\<close> of an unhashable value in a set and the failed \<open>assert\<close> are error values. Time
  stamps are UTC.

  Two things of the standard library have no executable meaning over idealised numbers and
  are fields of \<open>py_lib\<close>: the text \<open>str(v)\<close> of a value (floats print their shortest binary
  representation), and the order in which \<open>list.sort\<close> leaves a list when a comparison raises.
\<close>

subsection \<open>Time stamps, texts and numbers\<close>

text \<open>\<open>datetime.isoformat()\<close> of a UTC time in microseconds.\<close>

definition iso_utc :: "microseconds \<Rightarrow> string" where
  "iso_utc t =
     (let days = t div day; us = t mod day; secs = us div 1000000 in
      case civil_of_days days of (y, m, d) \<Rightarrow>
        padded 4 y @ ''-'' @ padded 2 m @ ''-'' @ padded 2 d @ ''T'' @
        padded 2 (secs div 3600) @ '':'' @ padded 2 (secs div 60 mod 60) @ '':'' @ padded 2 (secs mod 60) @
        (if us mod 1000000 = 0 then [] else ''.'' @ padded 6 (us mod 1000000)) @ ''+00:00'')"

text \<open>
  \<open>float(s)\<close> of a text: an optional sign, digits with an optional point and an optional exponent.
  \<^const>\<open>None\<close> is the \<open>ValueError\<close>; infinities and NaN are outside the model.
\<close>

definition mantissa_val :: "string \<Rightarrow> rat option" where
  "mantissa_val t =
     (let whole = takeWhile (\<lambda>c. c \<noteq> CHR ''.'') t; frac = drop (length whole + 1) t;
          part = (\<lambda>s. if s = [] then Some 0 else digits_val 0 False s)
      in if whole = [] \<and> frac = [] then None
         else case (part whole, part frac) of
           (Some a, Some b) \<Rightarrow> Some (of_nat a + of_nat b / 10 ^ length (filter is_digit frac))
         | _ \<Rightarrow> None)"

definition exponent_val :: "string \<Rightarrow> int option" where
  "exponent_val t =
     (case t of [] \<Rightarrow> None
      | c # cs \<Rightarrow> if c = CHR ''-'' then map_option (\<lambda>n. - int n) (digits_val 0 False cs)
                  else if c = CHR ''+'' then map_option int (digits_val 0 False cs)
                  else map_option int (digits_val 0 False t))"

definition scale10 :: "rat \<Rightarrow> int \<Rightarrow> rat" where
  "scale10 m e = (if 0 \<le> e then m * 10 ^ nat e else m / 10 ^ nat (- e))"

definition unsigned_float :: "string \<Rightarrow> rat option" where
  "unsigned_float t =
     (let m = takeWhile (\<lambda>c. c \<noteq> CHR ''e'' \<and> c \<noteq> CHR ''E'') t in
      if length m = length t then mantissa_val t
      else case (mantissa_val m, exponent_val (drop (length m + 1) t)) of
             (Some a, Some e) \<Rightarrow> Some (scale10 a e)
           | _ \<Rightarrow> None)"

definition float_of_str :: "string \<Rightarrow> rat option" where
  "float_of_str s =
     (case strip s of
        [] \<Rightarrow> None
      | c # cs \<Rightarrow> if c = CHR ''-'' then map_option uminus (unsigned_float cs)
                  else if c = CHR ''+'' then unsigned_float cs else unsigned_float (c # cs))"

text \<open>\<open>float(v)\<close>; \<^const>\<open>None\<close> is a \<open>TypeError\<close> or \<open>ValueError\<close>.\<close>

definition py_float :: "pyval \<Rightarrow> rat option" where
  "py_float v = (case v of PStr s \<Rightarrow> float_of_str s | _ \<Rightarrow> num_of v)"

subsection \<open>Fields and comparisons\<close>

definition content_prefix :: string where "content_prefix = ''content.''"
definition metadata_prefix :: string where "metadata_prefix = ''metadata.''"

definition resolve_field :: "graph_node \<Rightarrow> field_ref \<Rightarrow> pyval" where
  "resolve_field n f =
     (let name = fr_name f in
      if name = ''*'' then PNone
      else if name = ''id'' then PStr (gn_id n)
      else if name = ''type'' then PStr (node_type_value (gn_type n))
      else if name = ''created_at'' then PStr (iso_utc (gn_created_at n))
      else if name = ''updated_at'' then PStr (iso_utc (gn_updated_at n))
      else if prefix content_prefix name
      then dict_get_or (gn_content n) (drop (length content_prefix) name) PNone
      else if prefix metadata_prefix name
      then dict_get_or (gn_metadata n) (drop (length metadata_prefix) name) PNone
      else case dict_get (gn_content n) name of
             Some v \<Rightarrow> v
           | None \<Rightarrow> dict_get_or (gn_metadata n) name PNone)"

definition display_field_name :: "field_ref \<Rightarrow> string" where
  "display_field_name f =
     (let name = fr_name f in
      if prefix content_prefix name then drop (length content_prefix) name
      else if prefix metadata_prefix name then drop (length metadata_prefix) name
      else name)"

definition agg_name :: "agg \<Rightarrow> string" where
  "agg_name a = (case a of AggCount \<Rightarrow> ''COUNT'' | AggAvg \<Rightarrow> ''AVG'' | AggSum \<Rightarrow> ''SUM''
     | AggMin \<Rightarrow> ''MIN'' | AggMax \<Rightarrow> ''MAX'')"

text \<open>\<open>expr.alias or ...\<close>: an alias that is empty counts as none.\<close>

definition alias_or :: "string option \<Rightarrow> string \<Rightarrow> string" where
  "alias_or alias dflt = (case alias of None \<Rightarrow> dflt | Some a \<Rightarrow> if a = [] then dflt else a)"

definition agg_key :: "agg \<Rightarrow> field_ref \<Rightarrow> string option \<Rightarrow> string" where
  "agg_key a f alias =
     alias_or alias (if fr_name f = ''*'' then lower (agg_name a)
                     else lower (agg_name a) @ ''_'' @ fr_name f)"

fun column_key :: "select_expr \<Rightarrow> string" where
  "column_key (FieldExpr f alias _ _) = alias_or alias (display_field_name f)"
| "column_key (AggExpr a f alias _ _ _) = agg_key a f alias"

definition compare :: "pyval \<Rightarrow> cmp_op \<Rightarrow> pyval \<Rightarrow> bool" where
  "compare actual oper expected =
     (if actual = PNone
      then (case oper of OpEq \<Rightarrow> expected = PNone | OpNeq \<Rightarrow> expected \<noteq> PNone | _ \<Rightarrow> False)
      else case oper of
             OpEq \<Rightarrow> py_eq actual expected
           | OpNeq \<Rightarrow> \<not> py_eq actual expected
           | OpGt \<Rightarrow> py_cmp actual expected = Some Greater
           | OpLt \<Rightarrow> py_cmp actual expected = Some Less
           | OpGte \<Rightarrow> py_cmp actual expected \<in> {Some Greater, Some Equal}
           | OpLte \<Rightarrow> py_cmp actual expected \<in> {Some Less, Some Equal})"

definition all_node_types :: "node_type list" where
  "all_node_types = [N_TASK, N_OUTPUT, N_FAILURE, N_EXPERIENCE, N_TOOL, N_USER, N_PROMPT,
     N_SCHEMA, N_DECISION, N_FEEDBACK, N_EVENT]"

datatype exec_error = ExecQuery query_error | ExecTypeError | ExecAssertionError

definition parse_node_type :: "string \<Rightarrow> exec_error + node_type" where
  "parse_node_type s =
     (let low = strip (lower s); named = (\<lambda>x. find (\<lambda>nt. node_type_value nt = x) all_node_types) in
      case named low of
        Some nt \<Rightarrow> Inr nt
      | None \<Rightarrow>
          (case (if suffix ''s'' low \<and> 3 < length low then named (butlast low) else None) of
             Some nt \<Rightarrow> Inr nt
           | None \<Rightarrow> Inl (ExecQuery (qerr (''Unknown node type: '' @ repr_str s) 0 0
               (Some (''valid types: '' @ join_with '', '' (map node_type_value all_node_types) @
                      '' (singular or plural)''))))))"

subsection \<open>Ordering rows\<close>

type_synonym row = pydict

record py_lib =
  lib_str :: "pyval \<Rightarrow> string"
  lib_failed_sort :: "row list \<Rightarrow> row list"

text \<open>A stable sort by a strict order: \<open>list.sort\<close>.\<close>

fun insert_by :: "('a \<Rightarrow> 'a \<Rightarrow> bool) \<Rightarrow> 'a \<Rightarrow> 'a list \<Rightarrow> 'a list" where
  "insert_by lt x [] = [x]"
| "insert_by lt x (y # ys) = (if lt y x then y # insert_by lt x ys else x # y # ys)"

definition sort_by :: "('a \<Rightarrow> 'a \<Rightarrow> bool) \<Rightarrow> 'a list \<Rightarrow> 'a list" where
  "sort_by lt xs = foldr (insert_by lt) xs []"

text \<open>The keys \<open>(v is None, v)\<close>: when a comparison of two of them does not raise, and which is smaller.\<close>

definition keys_comparable :: "pyval \<Rightarrow> pyval \<Rightarrow> bool" where
  "keys_comparable v w \<longleftrightarrow> v = PNone \<or> w = PNone \<or> py_eq v w \<or> py_cmp v w \<noteq> None"

definition key_less :: "pyval \<Rightarrow> pyval \<Rightarrow> bool" where
  "key_less v w \<longleftrightarrow>
     v \<noteq> PNone \<and> (w = PNone \<or> \<not> py_eq v w \<and> py_cmp v w = Some Less)"

text \<open>
  A comparison sort of keys that cannot all be compared does compare two such keys: the order
  of the result is otherwise undetermined.
\<close>

definition order_rows :: "py_lib \<Rightarrow> order_clause \<Rightarrow> row list \<Rightarrow> row list" where
  "order_rows lib ord rows =
     (let key = (\<lambda>r. dict_get_or r (fr_name (oc_field ord)) PNone);
          by = (\<lambda>lt rs. sort_by (if oc_desc ord then (\<lambda>r s. lt s r) else lt) rs)
      in if \<forall>r \<in> set rows. \<forall>s \<in> set rows. keys_comparable (key r) (key s)
         then by (\<lambda>r s. key_less (key r) (key s)) rows
         else by (\<lambda>r s. str_cmp (lib_str lib (key r)) (lib_str lib (key s)) = Less)
                (lib_failed_sort lib rows))"

definition limit_rows :: "limit_clause option \<Rightarrow> row list \<Rightarrow> row list" where
  "limit_rows lmt rows = (case lmt of None \<Rightarrow> rows | Some l \<Rightarrow> py_slice 0 (lc_count l) rows)"

subsection \<open>Aggregates and conditions\<close>

definition agg_result :: "agg \<Rightarrow> field_ref \<Rightarrow> graph_node list \<Rightarrow> exec_error + rat" where
  "agg_result a f nodes =
     (if a = AggCount
      then Inr (of_nat (if fr_name f = ''*'' then length nodes
                        else length (filter (\<lambda>n. resolve_field n f \<noteq> PNone) nodes)))
      else if fr_name f = ''*''
      then Inl (ExecQuery (qerr (agg_name a @ ''(*) not supported; specify a numeric field'') 0 0 None))
      else
        let vs = List.map_filter (\<lambda>n. py_float (resolve_field n f)) nodes in
        Inr (if vs = [] then 0
             else case a of
                    AggAvg \<Rightarrow> sum_list vs / of_nat (length vs)
                  | AggSum \<Rightarrow> sum_list vs
                  | AggMin \<Rightarrow> Min (set vs)
                  | _ \<Rightarrow> Max (set vs)))"

definition steps_match :: "graph \<Rightarrow> string option \<Rightarrow> int \<Rightarrow> string \<Rightarrow> graph_node \<Rightarrow> bool" where
  "steps_match g cur depth ref n =
     (case (if ref = ''current'' then cur else Some ref) of
        None \<Rightarrow> False
      | Some t \<Rightarrow>
          if t = [] then False
          else if t = gn_id n then 0 \<le> depth
          else if depth = 0 then False
          else gn_id n \<in> (\<lambda>r. gn_id (nr_node r)) ` set (neighbors g t depth depth))"

definition in_values :: "row list \<Rightarrow> pyval \<Rightarrow> exec_error + bool" where
  "in_values rows actual =
     (let vals = filter (\<lambda>v. v \<noteq> PNone) (concat (map dict_values rows)) in
      if \<not> list_all py_hashable vals then Inl ExecTypeError
      else if \<not> py_hashable actual then Inl ExecTypeError
      else Inr (list_ex (py_eq actual) vals))"

record query_result =
  qr_rows :: "row list"
  qr_columns :: "string list"
  qr_aggregations :: "(string, rat) dict"
  qr_steps_executed :: nat
  qr_row_count :: nat

definition query_result_of ::
  "py_lib \<Rightarrow> select_stmt \<Rightarrow> row list \<Rightarrow> (string, rat) dict \<Rightarrow> query_result" where
  "query_result_of lib stmt rows aggs =
     (case stmt of SelectStmt exprs fc wh ord lmt aggonly \<Rightarrow>
        let sorts = (ord \<noteq> None \<and> rows \<noteq> []);
            rows1 = (if sorts then order_rows lib (the ord) rows else rows);
            rows2 = limit_rows lmt rows1
        in \<lparr> qr_rows = rows2, qr_columns = map column_key exprs, qr_aggregations = aggs,
             qr_steps_executed = 1 + (if wh = None then 0 else 1) + (if aggonly then length exprs else 0) +
               (if sorts then 1 else 0) + (if lmt = None then 0 else 1),
             qr_row_count = length rows2 \<rparr>)"

text \<open>List comprehensions whose element expression may raise: the first error wins.\<close>

fun filter_res :: "('a \<Rightarrow> 'e + bool) \<Rightarrow> 'a list \<Rightarrow> 'e + 'a list" where
  "filter_res p [] = Inr []"
| "filter_res p (x # xs) =
     (case p x of
        Inl e \<Rightarrow> Inl e
      | Inr b \<Rightarrow> map_sum id (\<lambda>ys. if b then x # ys else ys) (filter_res p xs))"

fun map_res :: "('a \<Rightarrow> 'e + 'b) \<Rightarrow> 'a list \<Rightarrow> 'e + 'b list" where
  "map_res f [] = Inr []"
| "map_res f (x # xs) =
     (case f x of Inl e \<Rightarrow> Inl e | Inr y \<Rightarrow> map_sum id ((#) y) (map_res f xs))"

definition rbind :: "'e + 'a \<Rightarrow> ('a \<Rightarrow> 'e + 'b) \<Rightarrow> 'e + 'b" where
  "rbind r k = (case r of Inl e \<Rightarrow> Inl e | Inr x \<Rightarrow> k x)"

text \<open>
  The mutually recursive part: \<open>_node_matches_condition\<close>, \<open>_compute_agg\<close>, the two loops of
  \<open>execute_query\<close> over the select expressions, \<open>execute_query\<close>.
\<close>

fun matches :: "py_lib \<Rightarrow> graph \<Rightarrow> string option \<Rightarrow> graph_node \<Rightarrow> cond \<Rightarrow> exec_error + bool"
  and compute_agg :: "py_lib \<Rightarrow> graph \<Rightarrow> string option \<Rightarrow> graph_node list \<Rightarrow> select_expr \<Rightarrow> exec_error + rat"
  and agg_values :: "py_lib \<Rightarrow> graph \<Rightarrow> string option \<Rightarrow> graph_node list \<Rightarrow> (string, rat) dict \<Rightarrow>
    select_expr list \<Rightarrow> exec_error + (string, rat) dict"
  and row_of :: "py_lib \<Rightarrow> graph \<Rightarrow> string option \<Rightarrow> graph_node \<Rightarrow> row \<Rightarrow> select_expr list \<Rightarrow> exec_error + row"
  and execute_query :: "py_lib \<Rightarrow> graph \<Rightarrow> string option \<Rightarrow> select_stmt \<Rightarrow> exec_error + query_result" where
  "matches lib g cur n (Comparison f oper v _ _) = Inr (compare (resolve_field n f) oper v)"
| "matches lib g cur n (InClause f sub _ _) =
     rbind (execute_query lib g cur sub) (\<lambda>r. in_values (qr_rows r) (resolve_field n f))"
| "matches lib g cur n (StepsClause depth ref _ _) = Inr (steps_match g cur depth ref n)"
| "compute_agg lib g cur nodes (AggExpr a f alias flt _ _) =
     rbind (case flt of None \<Rightarrow> Inr nodes | Some c \<Rightarrow> filter_res (\<lambda>n. matches lib g cur n c) nodes)
       (\<lambda>ns. agg_result a f ns)"
| "compute_agg lib g cur nodes (FieldExpr f alias _ _) = Inl ExecAssertionError"
| "agg_values lib g cur nodes acc [] = Inr acc"
| "agg_values lib g cur nodes acc (e # es) =
     rbind (compute_agg lib g cur nodes e)
       (\<lambda>v. agg_values lib g cur nodes (dict_set acc (column_key e) v) es)"
| "row_of lib g cur n acc [] = Inr acc"
| "row_of lib g cur n acc (FieldExpr f alias l c # es) =
     row_of lib g cur n (dict_set acc (column_key (FieldExpr f alias l c)) (resolve_field n f)) es"
| "row_of lib g cur n acc (AggExpr a f alias flt l c # es) =
     rbind (compute_agg lib g cur [n] (AggExpr a f alias flt l c))
       (\<lambda>v. row_of lib g cur n (dict_set acc (column_key (AggExpr a f alias flt l c)) (PFloat v)) es)"
| "execute_query lib g cur (SelectStmt exprs fc wh ord lmt aggonly) =
     rbind (parse_node_type (fc_type fc)) (\<lambda>ty.
     rbind (case wh of
              None \<Rightarrow> Inr (find_nodes g (Some ty) [])
            | Some c \<Rightarrow> filter_res (\<lambda>n. matches lib g cur n c) (find_nodes g (Some ty) []))
       (\<lambda>ns.
        if aggonly
        then map_sum id (query_result_of lib (SelectStmt exprs fc wh ord lmt aggonly) [])
               (agg_values lib g cur ns [] exprs)
        else map_sum id (\<lambda>rows. query_result_of lib (SelectStmt exprs fc wh ord lmt aggonly) rows [])
               (map_res (\<lambda>n. row_of lib g cur n [] exprs) ns)))"

text \<open>\<open>query(sql, graph, current_node)\<close>.\<close>

datatype query_failure = ParseFailed parse_error | ExecFailed exec_error

definition query :: "py_lib \<Rightarrow> graph \<Rightarrow> string option \<Rightarrow> string \<Rightarrow> query_failure + query_result" where
  "query lib g cur sql =
     (case parse_sql sql of
        Inl e \<Rightarrow> Inl (ParseFailed e)
      | Inr stmt \<Rightarrow> map_sum ExecFailed id (execute_query lib g cur stmt))"

subsection \<open>The sort\<close>

lemma mset_insert_by: "mset (insert_by lt x ys) = add_mset x (mset ys)"
  by (induction lt x ys rule: insert_by.induct) simp_all

lemma mset_sort_by [simp]: "mset (sort_by lt xs) = mset xs"
  by (induction xs) (simp_all add: sort_by_def mset_insert_by)

lemma set_insert_by: "set (insert_by lt x ys) = insert x (set ys)"
  using mset_insert_by[of lt x ys] by (metis set_mset_add_mset_insert set_mset_mset)

lemma set_sort_by [simp]: "set (sort_by lt xs) = set xs"
  by (metis mset_sort_by set_mset_mset)

text \<open>A strict weak order on the elements of a list.\<close>

definition weak_order_on :: "('a \<Rightarrow> 'a \<Rightarrow> bool) \<Rightarrow> 'a set \<Rightarrow> bool" where
  "weak_order_on lt A \<longleftrightarrow>
     (\<forall>x \<in> A. \<forall>y \<in> A. lt x y \<longrightarrow> \<not> lt y x) \<and>
     (\<forall>x \<in> A. \<forall>y \<in> A. \<forall>z \<in> A. \<not> lt y x \<longrightarrow> \<not> lt z y \<longrightarrow> \<not> lt z x)"

lemma weak_order_onD:
  assumes "weak_order_on lt A" and "x \<in> A" "y \<in> A"
  shows "lt x y \<Longrightarrow> \<not> lt y x" and "z \<in> A \<Longrightarrow> \<not> lt y x \<Longrightarrow> \<not> lt z y \<Longrightarrow> \<not> lt z x"
  using assms unfolding weak_order_on_def by blast+

lemma weak_order_flip: "weak_order_on lt A \<Longrightarrow> weak_order_on (\<lambda>x y. lt y x) A"
  unfolding weak_order_on_def by blast

lemma weak_order_subset: "weak_order_on lt A \<Longrightarrow> B \<subseteq> A \<Longrightarrow> weak_order_on lt B"
  unfolding weak_order_on_def by blast

lemma sorted_insert_by:
  "weak_order_on lt (insert x (set ys)) \<Longrightarrow> sorted_wrt (\<lambda>a b. \<not> lt b a) ys \<Longrightarrow>
   sorted_wrt (\<lambda>a b. \<not> lt b a) (insert_by lt x ys)"
proof (induction ys)
  case (Cons y ys)
  have w: "weak_order_on lt (insert x (set ys))"
    by (rule weak_order_subset[OF Cons.prems(1)]) auto
  show ?case
  proof (cases "lt y x")
    case True
    then have "\<not> lt x y" using weak_order_onD(1)[OF Cons.prems(1), of y x] by simp
    with True Cons.IH[OF w] Cons.prems(2) show ?thesis by (simp add: set_insert_by)
  next
    case False
    have "\<not> lt b x" if "b \<in> set ys" for b
      using weak_order_onD(2)[OF Cons.prems(1), of x y b] that False Cons.prems(2) by simp
    with False Cons.prems(2) show ?thesis by simp
  qed
qed simp

lemma sorted_sort_by:
  "weak_order_on lt (set xs) \<Longrightarrow> sorted_wrt (\<lambda>a b. \<not> lt b a) (sort_by lt xs)"
proof (induction xs)
  case (Cons x xs)
  have w: "weak_order_on lt (set xs)" by (rule weak_order_subset[OF Cons.prems]) auto
  have "sorted_wrt (\<lambda>a b. \<not> lt b a) (insert_by lt x (sort_by lt xs))"
    by (rule sorted_insert_by) (use Cons.prems Cons.IH[OF w] in simp_all)
  then show ?case by (simp add: sort_by_def)
qed (simp add: sort_by_def)

text \<open>Stability: elements that are not ordered against each other keep their order.\<close>

lemma filter_insert_by:
  "(\<And>y. y \<in> set ys \<Longrightarrow> P y \<Longrightarrow> P x \<Longrightarrow> \<not> lt y x) \<Longrightarrow>
   filter P (insert_by lt x ys) = (if P x then x # filter P ys else filter P ys)"
  by (induction ys) auto

lemma filter_sort_by:
  "(\<And>x y. x \<in> set xs \<Longrightarrow> y \<in> set xs \<Longrightarrow> P x \<Longrightarrow> P y \<Longrightarrow> \<not> lt x y) \<Longrightarrow>
   filter P (sort_by lt xs) = filter P xs"
proof (induction xs)
  case (Cons x xs)
  have "filter P (insert_by lt x (sort_by lt xs)) =
      (if P x then x # filter P (sort_by lt xs) else filter P (sort_by lt xs))"
    by (rule filter_insert_by) (use Cons.prems in auto)
  with Cons show ?case by (simp add: sort_by_def)
qed (simp add: sort_by_def)

text \<open>On scalar keys that can all be compared the key order is a strict weak order.\<close>

lemma key_cases:
  assumes "py_hashable v"
  obtains "v = PNone" | a where "num_of v = Some a" | s where "v = PStr s"
  using assms by (cases v) auto

lemma num_not_none: "num_of v = Some a \<Longrightarrow> v \<noteq> PNone"
  by auto

lemma num_not_str: "num_of v = Some a \<Longrightarrow> v \<noteq> PStr s"
  by auto

lemma key_less_num: "num_of v = Some a \<Longrightarrow> num_of w = Some b \<Longrightarrow> key_less v w \<longleftrightarrow> a < b"
  by (auto simp: key_less_def py_eq_num py_cmp_num rat_cmp_def num_not_none)

lemma key_less_str: "key_less (PStr s) (PStr t) \<longleftrightarrow> str_cmp s t = Less"
  by (auto simp: key_less_def)

lemma key_less_None: "key_less PNone w = False" "key_less v PNone \<longleftrightarrow> v \<noteq> PNone"
  by (auto simp: key_less_def)

lemma comparable_num:
  "num_of v = Some a \<Longrightarrow> keys_comparable v w \<Longrightarrow> w = PNone \<or> num_of w \<noteq> None"
  "num_of w = Some a \<Longrightarrow> keys_comparable v w \<Longrightarrow> v = PNone \<or> num_of v \<noteq> None"
  by (cases v; cases w; auto simp: keys_comparable_def)+

lemma key_weak_order:
  assumes "\<And>v. v \<in> A \<Longrightarrow> py_hashable v" and "\<And>v w. v \<in> A \<Longrightarrow> w \<in> A \<Longrightarrow> keys_comparable v w"
  shows "weak_order_on key_less A"
proof -
  have asym: "\<not> key_less w v" if "v \<in> A" "w \<in> A" "key_less v w" for v w
    using assms(1)[OF that(1)]
  proof (cases rule: key_cases)
    case (2 a)
    then show ?thesis
      using assms(1)[OF that(2)] comparable_num(1)[OF 2 assms(2)[OF that(1,2)]] that(3)
      by (auto simp: key_less_None key_less_num)
  next
    case (3 s)
    then show ?thesis
      using assms(1)[OF that(2)] assms(2)[OF that(1,2)] that(3)
      by (cases w) (auto simp: key_less_None key_less_str keys_comparable_def str_cmp_swap)
  qed (use that(3) in \<open>simp add: key_less_None\<close>)
  have trans: "\<not> key_less w u"
    if A: "u \<in> A" "v \<in> A" "w \<in> A" and l: "\<not> key_less v u" "\<not> key_less w v" for u v w
  proof (cases "u = PNone")
    case True
    with l show ?thesis by (auto simp: key_less_None)
  next
    case u: False
    show ?thesis
    proof (cases "v = PNone \<or> w = PNone")
      case True
      with l u show ?thesis by (auto simp: key_less_None)
    next
      case False
      then have n: "v \<noteq> PNone" "w \<noteq> PNone" by auto
      from assms(1)[OF A(1)] show ?thesis
      proof (cases rule: key_cases)
        case (2 a)
        obtain b c where "num_of v = Some b" "num_of w = Some c"
          using comparable_num(1)[OF 2 assms(2)[OF A(1,2)]] comparable_num(1)[OF 2 assms(2)[OF A(1,3)]] n
          by auto
        with 2 l show ?thesis by (auto simp: key_less_num)
      next
        case (3 s)
        obtain t x where "v = PStr t" "w = PStr x"
          using assms(1)[OF A(2)] assms(1)[OF A(3)] assms(2)[OF A(1,2)] assms(2)[OF A(1,3)] n 3
          by (cases v; cases w) (auto simp: keys_comparable_def)
        with 3 l str_cmp_trans[of s t x] show ?thesis
          by (auto simp: key_less_str str_cmp_swap)
      qed (use u in simp)
    qed
  qed
  show ?thesis unfolding weak_order_on_def using asym trans by blast
qed

subsection \<open>What a query returns\<close>

lemma map_sum_Inr: "map_sum id f r = Inr y \<longleftrightarrow> (\<exists>x. r = Inr x \<and> y = f x)"
  by (cases r) auto

lemma filter_res_Inr:
  "filter_res p xs = Inr ys \<Longrightarrow> ys = filter (\<lambda>x. p x = Inr True) xs"
  by (induction xs arbitrary: ys) (auto simp: map_sum_Inr split: sum.splits if_splits)

lemma map_res_Inr: "map_res f xs = Inr ys \<Longrightarrow> list_all2 (\<lambda>x y. f x = Inr y) xs ys"
  by (induction xs arbitrary: ys) (auto simp: map_sum_Inr split: sum.splits)

lemma map_res_total: "map_res (\<lambda>x. Inr (f x)) xs = Inr (map f xs)"
  by (induction xs) simp_all

lemma rbind_Inr: "rbind r k = Inr y \<longleftrightarrow> (\<exists>x. r = Inr x \<and> k x = Inr y)"
  by (auto simp: rbind_def split: sum.splits)

text \<open>The nodes a statement selects.\<close>

definition selected :: "py_lib \<Rightarrow> graph \<Rightarrow> string option \<Rightarrow> node_type \<Rightarrow> cond option \<Rightarrow> graph_node list" where
  "selected lib g cur ty wh =
     filter (\<lambda>n. case wh of None \<Rightarrow> True | Some c \<Rightarrow> matches lib g cur n c = Inr True)
       (find_nodes g (Some ty) [])"

lemma execute_selects:
  assumes "execute_query lib g cur (SelectStmt exprs fc wh ord lmt aggonly) = Inr r"
  obtains ty where "parse_node_type (fc_type fc) = Inr ty"
    and "aggonly \<Longrightarrow> \<exists>aggs. agg_values lib g cur (selected lib g cur ty wh) [] exprs = Inr aggs \<and>
           r = query_result_of lib (SelectStmt exprs fc wh ord lmt aggonly) [] aggs"
    and "\<not> aggonly \<Longrightarrow> \<exists>rows. map_res (\<lambda>n. row_of lib g cur n [] exprs) (selected lib g cur ty wh) = Inr rows \<and>
           r = query_result_of lib (SelectStmt exprs fc wh ord lmt aggonly) rows []"
proof -
  from assms obtain ty ns where ty: "parse_node_type (fc_type fc) = Inr ty"
    and ns: "(case wh of None \<Rightarrow> Inr (find_nodes g (Some ty) [])
            | Some c \<Rightarrow> filter_res (\<lambda>n. matches lib g cur n c) (find_nodes g (Some ty) [])) = Inr ns"
    and r: "(if aggonly
        then map_sum id (query_result_of lib (SelectStmt exprs fc wh ord lmt aggonly) [])
               (agg_values lib g cur ns [] exprs)
        else map_sum id (\<lambda>rows. query_result_of lib (SelectStmt exprs fc wh ord lmt aggonly) rows [])
               (map_res (\<lambda>n. row_of lib g cur n [] exprs) ns)) = Inr r"
    by (auto simp: rbind_Inr)
  have "ns = selected lib g cur ty wh"
    using ns by (cases wh) (auto simp: selected_def dest: filter_res_Inr)
  with r ty show ?thesis
    by (intro that[of ty]) (auto simp: map_sum_Inr)
qed

lemma row_of_columns:
  "row_of lib g cur n acc exprs = Inr row \<Longrightarrow> distinct (map column_key exprs) \<Longrightarrow>
   (\<forall>f a l c. FieldExpr f a l c \<in> set exprs \<longrightarrow>
      dict_get row (column_key (FieldExpr f a l c)) = Some (resolve_field n f)) \<and>
   (\<forall>k. k \<notin> column_key ` set exprs \<longrightarrow> dict_get row k = dict_get acc k)"
proof (induction exprs arbitrary: acc)
  case (Cons e es)
  then obtain v where v: "row_of lib g cur n (dict_set acc (column_key e) v) es = Inr row"
    and e: "\<And>f a l c. e = FieldExpr f a l c \<Longrightarrow> v = resolve_field n f"
    by (cases e) (auto simp: rbind_Inr)
  have d: "distinct (map column_key es)" "column_key e \<notin> column_key ` set es"
    using Cons.prems(2) by auto
  note ih = Cons.IH[OF v d(1)]
  from ih d(2) have "dict_get row (column_key e) = Some v" by simp
  with ih e show ?case by (auto simp del: column_key.simps)
qed simp

text \<open>The type index lists an id at most once, so a lookup by type lists a node at most once.\<close>

definition types_distinct :: "graph \<Rightarrow> bool" where
  "types_distinct g \<longleftrightarrow> (\<forall>t. distinct (dict_get_or (gr_types g) t []))"

lemma types_distinct_remove: "types_distinct g \<Longrightarrow> types_distinct (remove_node g n k)"
  by (auto simp: types_distinct_def remove_node_def)

lemma types_distinct_archive: "types_distinct g \<Longrightarrow> types_distinct (fst (archive_node g io k))"
  by (auto simp: archive_node_def types_distinct_remove split: option.splits)

lemma types_distinct_archive_all: "types_distinct g \<Longrightarrow> types_distinct (fst (archive_all g io ns c))"
proof (induction g io ns c rule: archive_all.induct)
  case (2 g io n ns count)
  then show ?case using types_distinct_archive[of g io "gn_id n"] by (simp add: split_beta)
qed simp

lemma graph_reach_types_distinct: "graph_reach g \<Longrightarrow> types_distinct g"
proof (induction rule: graph_reach.induct)
  case (reach_add g n now)
  then show ?case by (auto simp: types_distinct_def add_node_def Let_def)
next
  case (reach_delete g k)
  then show ?case by (auto simp: delete_node_def types_distinct_remove split: option.splits)
next
  case (reach_archive g io k)
  show ?case using reach_archive.IH by (rule types_distinct_archive)
next
  case (reach_compact g io a wd ex t1 t2)
  then show ?case by (simp add: compact_graph_def Let_def types_distinct_archive_all)
qed (simp_all add: types_distinct_def empty_graph_def link_def delete_links_def Let_def)

lemma found_nodes:
  assumes "graph_reach g"
  shows "n \<in> set (find_nodes g (Some ty) []) \<Longrightarrow> get_node g (gn_id n) = Some n"
    and "get_node g k = Some n \<Longrightarrow> n \<in> set (find_nodes g (Some (gn_type n)) [])"
    and "distinct (map gn_id (find_nodes g (Some ty) []))"
proof -
  have ids: "gn_id n = k" if "get_node g k = Some n" for n k
    using graph_reach_ok[OF assms] that by (simp add: graph_ok_def nodes_ok_def)
  have nodes: "find_nodes g (Some t) [] = List.map_filter (get_node g) (dict_get_or (gr_types g) t [])" for t
    by (simp add: find_nodes_def filters_match_def)
  show "n \<in> set (find_nodes g (Some ty) []) \<Longrightarrow> get_node g (gn_id n) = Some n"
    using ids by (auto simp: nodes List.map_filter_def)
  show "get_node g k = Some n \<Longrightarrow> n \<in> set (find_nodes g (Some (gn_type n)) [])"
    using graph_reach_ok[OF assms]
    by (force simp: nodes List.map_filter_def graph_ok_def nodes_ok_def)
  have "map gn_id (List.map_filter (get_node g) ks) = filter (has_node g) ks" for ks
    by (induction ks) (auto simp: List.map_filter_def node_access ids[unfolded get_node_def])
  then show "distinct (map gn_id (find_nodes g (Some ty) []))"
    using graph_reach_types_distinct[OF assms] by (simp add: nodes types_distinct_def)
qed

definition sample_lib :: py_lib where
  "sample_lib = \<lparr> lib_str = (\<lambda>_. ''x''), lib_failed_sort = (\<lambda>rows. rows) \<rparr>"

definition id_column :: select_expr where
  "id_column = FieldExpr (FieldRef ''id'' 1 8) None 1 8"

lemma sample_types: "parse_node_type ''tasks'' = Inr N_TASK"
  by code_simp

lemma sample_found: "map gn_id (find_nodes sample_graph (Some N_TASK) []) = [''a'']"
  by code_simp



text \<open>A condition \<open>d STEPS FROM ref\<close> holds exactly for the nodes at link distance at most \<open>d\<close> from the
  referenced node (the current one for \<open>current\<close>), links taken in either direction.\<close>

theorem steps_condition_exact:
  assumes "graph_reach g" and "get_node g (gn_id n) = Some n"
    and "(if ref = ''current'' then cur else Some ref) = Some t" and "t \<noteq> []" and "has_node g t"
  shows "matches lib g cur n (StepsClause depth ref l c) = Inr True \<longleftrightarrow>
    (\<exists>k. int k \<le> depth \<and> at_distance (edges g) t (gn_id n) k)"
proof -
  let ?id = "gn_id n"
  have zero: "at_distance (edges g) t ?id 0 \<longleftrightarrow> t = ?id" by auto
  have "steps_match g cur depth ref n \<longleftrightarrow> (\<exists>k. int k \<le> depth \<and> at_distance (edges g) t ?id k)"
  proof (cases "t = ?id \<or> depth \<le> 0")
    case True
    have neg: "neighbors g t depth depth = []" if "depth \<le> 0"
      using that assms(5) by (simp add: neighbors_def)
    show ?thesis
    proof (cases "t = ?id")
      case True
      then show ?thesis
        using assms(3,4) zero by (auto simp: steps_match_def intro!: exI[of _ 0])
    next
      case False
      with \<open>t = ?id \<or> depth \<le> 0\<close> have d: "depth \<le> 0" by simp
      have "\<not> at_distance (edges g) t ?id k" if "int k \<le> depth" for k
        using that d False zero by (cases k) auto
      with False neg[OF d] assms(3,4) show ?thesis by (auto simp: steps_match_def)
    qed
  next
    case False
    then have d: "0 < depth" and ne: "t \<noteq> ?id" by auto
    note exact = neighbors_spec[OF assms(1,5) d order_refl[of depth]]
    have "?id \<in> (\<lambda>r. gn_id (nr_node r)) ` set (neighbors g t depth depth) \<longleftrightarrow>
        (\<exists>k. int k \<le> depth \<and> at_distance (edges g) t ?id k)" (is "?L \<longleftrightarrow> ?R")
    proof
      assume ?L
      then obtain r where r: "r \<in> set (neighbors g t depth depth)" "gn_id (nr_node r) = ?id" by auto
      then show ?R using neighbors_stored[OF assms(1,5) d order_refl r(1)] exact r by metis
    next
      assume ?R
      then obtain k where k: "int k \<le> depth" "at_distance (edges g) t ?id k" by auto
      with ne zero have "0 < k" by (cases k) auto
      with k exact show ?L by force
    qed
    with d ne assms(3,4) show ?thesis by (simp add: steps_match_def)
  qed
  then show ?thesis by simp
qed

theorem steps_condition_exact_witness:
  "matches sample_lib sample_graph (Some ''a'') (sample_node ''b'' N_OUTPUT\<lparr>gn_updated_at := 2\<rparr>)
     (StepsClause 1 ''current'' 1 1) = Inr True"
proof -
  have "(''a'', ''b'') \<in> edges sample_graph"
    by (simp add: edges_def scan_of_def sample_graph_def link_def add_node_def empty_graph_def
        sample_node_def links_of_def Let_def dict_get_or_def image_Un image_image)
  then have "at_distance (edges sample_graph) ''a'' ''b'' 1" by (simp add: at_distance_def)
  moreover have "get_node sample_graph ''b'' = Some (sample_node ''b'' N_OUTPUT\<lparr>gn_updated_at := 2\<rparr>)"
    by (simp add: get_node_def sample_graph_def link_def add_node_def empty_graph_def sample_node_def Let_def)
  ultimately show ?thesis
    using steps_condition_exact[OF sample_graph_reach, of "sample_node ''b'' N_OUTPUT\<lparr>gn_updated_at := 2\<rparr>"
        "''current''" "Some ''a''" "''a''" sample_lib 1 1 1]
    by (auto simp: sample_graph_nodes sample_node_def intro!: exI[of _ 1])
qed

lemma sort_by_unordered: "(\<And>x y. x \<in> set xs \<Longrightarrow> y \<in> set xs \<Longrightarrow> \<not> lt x y) \<Longrightarrow> sort_by lt xs = xs"
  using filter_sort_by[of xs "\<lambda>_. True" lt] by simp

text \<open>The keys of rows in the order of \<open>ORDER BY\<close>.\<close>

definition in_order :: "bool \<Rightarrow> pyval \<Rightarrow> pyval \<Rightarrow> bool" where
  "in_order desc v w \<longleftrightarrow> (if desc then \<not> key_less v w else \<not> key_less w v)"

definition row_key :: "order_clause \<Rightarrow> row \<Rightarrow> pyval" where
  "row_key oc r = dict_get_or r (fr_name (oc_field oc)) PNone"

lemma order_rows_spec:
  assumes "\<And>r. r \<in> set rows \<Longrightarrow> py_hashable (row_key oc r)"
    and "\<And>r s. r \<in> set rows \<Longrightarrow> s \<in> set rows \<Longrightarrow> keys_comparable (row_key oc r) (row_key oc s)"
  shows "mset (order_rows lib oc rows) = mset rows"
    and "sorted_wrt (in_order (oc_desc oc)) (map (row_key oc) (order_rows lib oc rows))"
    and "filter (\<lambda>r. row_key oc r = v) (order_rows lib oc rows) = filter (\<lambda>r. row_key oc r = v) rows"
proof -
  let ?lt = "\<lambda>r s. key_less (row_key oc r) (row_key oc s)"
  let ?by = "if oc_desc oc then (\<lambda>r s. ?lt s r) else ?lt"
  have ord: "order_rows lib oc rows = sort_by ?by rows"
    using assms(2) by (simp add: order_rows_def Let_def row_key_def)
  then show "mset (order_rows lib oc rows) = mset rows" by simp
  have keys: "weak_order_on key_less (row_key oc ` set rows)"
    by (rule key_weak_order) (use assms in auto)
  then have w: "weak_order_on ?lt (set rows)" unfolding weak_order_on_def by blast
  then have "weak_order_on ?by (set rows)" by (simp add: weak_order_flip)
  from sorted_sort_by[OF this]
  show "sorted_wrt (in_order (oc_desc oc)) (map (row_key oc) (order_rows lib oc rows))"
    by (simp add: ord sorted_wrt_map in_order_def split: if_splits)
  have irrefl: "\<not> ?lt x y" if "x \<in> set rows" "row_key oc x = row_key oc y" for x y
  proof -
    have "row_key oc x \<in> row_key oc ` set rows" using that(1) by simp
    from weak_order_onD(1)[OF keys this this] that(2) show ?thesis by auto
  qed
  show "filter (\<lambda>r. row_key oc r = v) (order_rows lib oc rows) = filter (\<lambda>r. row_key oc r = v) rows"
    unfolding ord by (rule filter_sort_by) (use irrefl in auto)
qed

text \<open>\<open>ORDER BY\<close> a column whose values are scalars that can all be compared returns the rows of the
  same query without it, sorted in the direction asked for (missing values last, or first with
  \<open>DESC\<close>), and rows with the same value keep their order.\<close>

theorem order_by_sorts:
  assumes "execute_query lib g cur (SelectStmt exprs fc wh (Some oc) None False) = Inr r"
    and "execute_query lib g cur (SelectStmt exprs fc wh None None False) = Inr r0"
    and "\<And>r. r \<in> set (qr_rows r0) \<Longrightarrow> py_hashable (row_key oc r)"
    and "\<And>r s. r \<in> set (qr_rows r0) \<Longrightarrow> s \<in> set (qr_rows r0) \<Longrightarrow> keys_comparable (row_key oc r) (row_key oc s)"
  shows "mset (qr_rows r) = mset (qr_rows r0) \<and>
    sorted_wrt (in_order (oc_desc oc)) (map (row_key oc) (qr_rows r)) \<and>
    filter (\<lambda>r. row_key oc r = v) (qr_rows r) = filter (\<lambda>r. row_key oc r = v) (qr_rows r0)"
proof -
  obtain ty rows where ty: "parse_node_type (fc_type fc) = Inr ty"
    and rows: "map_res (\<lambda>n. row_of lib g cur n [] exprs) (selected lib g cur ty wh) = Inr rows"
    and r: "r = query_result_of lib (SelectStmt exprs fc wh (Some oc) None False) rows []"
    by (rule execute_selects[OF assms(1)]) auto
  have r0: "r0 = query_result_of lib (SelectStmt exprs fc wh None None False) rows []"
    by (rule execute_selects[OF assms(2)]) (use ty rows in auto)
  then have "qr_rows r0 = rows" by (simp add: query_result_of_def Let_def limit_rows_def)
  moreover have "qr_rows r = (if rows = [] then rows else order_rows lib oc rows)"
    by (simp add: r query_result_of_def Let_def limit_rows_def)
  ultimately show ?thesis
    using order_rows_spec[where rows = rows and oc = oc and lib = lib] assms(3,4) by (cases "rows = []") simp_all
qed

definition by_id :: "bool \<Rightarrow> order_clause" where
  "by_id desc = OrderClause (FieldRef ''id'' 1 30) desc 1 30"

theorem order_by_sorts_witness:
  "\<exists>r. execute_query sample_lib sample_graph None
      (SelectStmt [id_column] (FromClause ''tasks'' 1 11) None (Some (by_id True)) None False) = Inr r \<and>
    sorted_wrt (in_order True) (map (row_key (by_id True)) (qr_rows r)) \<and> length (qr_rows r) = 1"
proof -
  obtain r r0 where r: "execute_query sample_lib sample_graph None
      (SelectStmt [id_column] (FromClause ''tasks'' 1 11) None (Some (by_id True)) None False) = Inr r"
    and r0: "execute_query sample_lib sample_graph None
      (SelectStmt [id_column] (FromClause ''tasks'' 1 11) None None None False) = Inr r0"
    by (simp add: id_column_def sample_types rbind_def map_res_total map_sum_Inr)
  have rows: "qr_rows r0 = map (\<lambda>n. [(''id'', PStr (gn_id n))]) (find_nodes sample_graph (Some N_TASK) [])"
    using r0 by (simp add: id_column_def sample_types rbind_def map_res_total resolve_field_def
        alias_or_def display_field_name_def content_prefix_def metadata_prefix_def
        query_result_of_def limit_rows_def Let_def)
      (auto simp: query_result_of_def limit_rows_def)
  have len: "length (find_nodes sample_graph (Some N_TASK) []) = 1"
    using arg_cong[OF sample_found, of length] by simp
  have keys: "\<exists>s. row_key (by_id True) x = PStr s" if "x \<in> set (qr_rows r0)" for x
    using that by (auto simp: rows row_key_def by_id_def dict_get_or_def)
  have hash: "py_hashable (row_key (by_id True) x)" if "x \<in> set (qr_rows r0)" for x
    using keys[OF that] by auto
  have cmp: "keys_comparable (row_key (by_id True) x) (row_key (by_id True) y)"
    if "x \<in> set (qr_rows r0)" "y \<in> set (qr_rows r0)" for x y
    using keys[OF that(1)] keys[OF that(2)] by (auto simp: keys_comparable_def)
  from order_by_sorts[OF r r0 hash cmp, of PNone] have "mset (qr_rows r) = mset (qr_rows r0)"
    "sorted_wrt (in_order True) (map (row_key (by_id True)) (qr_rows r))"
    by (simp_all add: by_id_def)
  moreover from this(1) have "length (qr_rows r) = 1"
    using len rows by (metis length_map size_mset)
  ultimately show ?thesis using r by blast
qed

text \<open>Ordering by a prefixed field looks for the prefixed name among the columns, which are named
  without the prefix: no row has it and the order stays as it was.\<close>

lemma order_by_missing_column:
  assumes "\<And>r. r \<in> set rows \<Longrightarrow> dict_get r (fr_name (oc_field oc)) = None"
  shows "order_rows lib oc rows = rows"
proof -
  have "row_key oc r = PNone" if "r \<in> set rows" for r
    using assms[OF that] by (simp add: row_key_def dict_get_or_def)
  then have "order_rows lib oc rows = sort_by (if oc_desc oc
      then (\<lambda>r s. key_less (row_key oc s) (row_key oc r)) else (\<lambda>r s. key_less (row_key oc r) (row_key oc s))) rows"
    by (simp add: order_rows_def Let_def row_key_def keys_comparable_def)
  also have "\<dots> = rows"
    by (rule sort_by_unordered) (simp add: \<open>\<And>r. r \<in> set rows \<Longrightarrow> row_key oc r = PNone\<close> key_less_None)
  finally show ?thesis .
qed

lemma prefixed_order_is_ignored:
  "order_rows lib (OrderClause (FieldRef ''content.rank'' 1 40) True 1 40)
     [[(''rank'', PInt 1)], [(''rank'', PInt 2)]] = [[(''rank'', PInt 1)], [(''rank'', PInt 2)]]"
  by (rule order_by_missing_column) auto

lemma sum_list_bounds:
  fixes xs :: "rat list"
  shows "(\<And>x. x \<in> set xs \<Longrightarrow> x \<le> hi) \<Longrightarrow> sum_list xs \<le> of_nat (length xs) * hi"
    and "(\<And>x. x \<in> set xs \<Longrightarrow> lo \<le> x) \<Longrightarrow> of_nat (length xs) * lo \<le> sum_list xs"
proof -
  show "(\<And>x. x \<in> set xs \<Longrightarrow> x \<le> hi) \<Longrightarrow> sum_list xs \<le> of_nat (length xs) * hi"
  proof (induction xs)
    case (Cons x xs)
    have "sum_list xs \<le> of_nat (length xs) * hi" by (rule Cons.IH) (use Cons.prems in simp)
    moreover have "x \<le> hi" using Cons.prems by simp
    ultimately show ?case by (simp add: algebra_simps)
  qed simp
  show "(\<And>x. x \<in> set xs \<Longrightarrow> lo \<le> x) \<Longrightarrow> of_nat (length xs) * lo \<le> sum_list xs"
  proof (induction xs)
    case (Cons x xs)
    have "of_nat (length xs) * lo \<le> sum_list xs" by (rule Cons.IH) (use Cons.prems in simp)
    moreover have "lo \<le> x" using Cons.prems by simp
    ultimately show ?case by (simp add: algebra_simps)
  qed simp
qed

lemma mean_between:
  fixes xs :: "rat list"
  assumes "xs \<noteq> []"
  shows "Min (set xs) \<le> sum_list xs / of_nat (length xs)" "sum_list xs / of_nat (length xs) \<le> Max (set xs)"
  using sum_list_bounds[of xs "Max (set xs)"] sum_list_bounds(2)[of xs "Min (set xs)"] assms
  by (simp_all add: field_simps)

definition agg_of :: "agg \<Rightarrow> field_ref \<Rightarrow> select_expr" where
  "agg_of a f = AggExpr a f None None 0 0"

definition star :: field_ref where "star = FieldRef ''*'' 0 0"

text \<open>The aggregates of a query agree with one another and with its rows: \<open>COUNT(*)\<close> is the number of
  rows of the query for fields with the same \<open>FROM\<close> and \<open>WHERE\<close>, \<open>COUNT(f)\<close> is no more, \<open>MIN\<close> and
  \<open>MAX\<close> enclose \<open>AVG\<close>, and the result has no rows of its own.\<close>

theorem aggregates_consistent:
  assumes "execute_query lib g cur (SelectStmt
      [agg_of AggCount star, agg_of AggCount f, agg_of AggMin f, agg_of AggAvg f, agg_of AggMax f]
      fc wh None None True) = Inr r"
    and "execute_query lib g cur (SelectStmt exprs fc wh None None False) = Inr r0"
    and "fr_name f \<noteq> ''*''"
  shows "\<exists>n m lo av hi. qr_aggregations r = [(''count'', n), (''count_'' @ fr_name f, m),
      (''min_'' @ fr_name f, lo), (''avg_'' @ fr_name f, av), (''max_'' @ fr_name f, hi)] \<and>
    n = of_nat (length (qr_rows r0)) \<and> 0 \<le> m \<and> m \<le> n \<and> lo \<le> av \<and> av \<le> hi \<and> qr_rows r = []"
proof -
  let ?es = "[agg_of AggCount star, agg_of AggCount f, agg_of AggMin f, agg_of AggAvg f, agg_of AggMax f]"
  obtain ty aggs where ty: "parse_node_type (fc_type fc) = Inr ty"
    and aggs: "agg_values lib g cur (selected lib g cur ty wh) [] ?es = Inr aggs"
    and r: "r = query_result_of lib (SelectStmt ?es fc wh None None True) [] aggs"
    by (rule execute_selects[OF assms(1)]) auto
  let ?ns = "selected lib g cur ty wh"
  obtain rows where rows: "map_res (\<lambda>n. row_of lib g cur n [] exprs) ?ns = Inr rows"
    and r0: "r0 = query_result_of lib (SelectStmt exprs fc wh None None False) rows []"
    by (rule execute_selects[OF assms(2)]) (use ty in auto)
  have len: "length (qr_rows r0) = length ?ns"
    using list_all2_lengthD[OF map_res_Inr[OF rows]]
    by (simp add: r0 query_result_of_def Let_def limit_rows_def)
  define vs where "vs = List.map_filter (\<lambda>n. py_float (resolve_field n f)) ?ns"
  define m where "m = length (filter (\<lambda>n. resolve_field n f \<noteq> PNone) ?ns)"
  have key: "column_key (agg_of a f) = lower (agg_name a) @ ''_'' @ fr_name f" for a
    using assms(3) by (simp add: agg_of_def agg_key_def alias_or_def)
  have keys: "lower (agg_name AggCount) = ''count''" "lower (agg_name AggMin) = ''min''"
    "lower (agg_name AggAvg) = ''avg''" "lower (agg_name AggMax) = ''max''"
    by code_simp+
  have star: "column_key (agg_of AggCount star) = ''count''"
    by (simp add: agg_of_def agg_key_def alias_or_def star_def keys)
  have val: "compute_agg lib g cur ?ns (agg_of a f') = agg_result a f' ?ns" for a f'
    by (simp add: agg_of_def rbind_def)
  have res: "agg_result AggCount star ?ns = Inr (of_nat (length ?ns))" "agg_result AggCount f ?ns = Inr (of_nat m)"
    "agg_result AggMin f ?ns = Inr (if vs = [] then 0 else Min (set vs))"
    "agg_result AggAvg f ?ns = Inr (if vs = [] then 0 else sum_list vs / of_nat (length vs))"
    "agg_result AggMax f ?ns = Inr (if vs = [] then 0 else Max (set vs))"
    using assms(3) by (auto simp: agg_result_def star_def vs_def m_def Let_def)
  have "aggs = [(''count'', of_nat (length ?ns)), (''count_'' @ fr_name f, of_nat m),
      (''min_'' @ fr_name f, if vs = [] then 0 else Min (set vs)),
      (''avg_'' @ fr_name f, if vs = [] then 0 else sum_list vs / of_nat (length vs)),
      (''max_'' @ fr_name f, if vs = [] then 0 else Max (set vs))]"
    using aggs
    by (cases "vs = []") (simp_all add: rbind_def val key keys star res del: compute_agg.simps column_key.simps)
  moreover have "m \<le> length ?ns" by (simp add: m_def)
  ultimately show ?thesis
    using mean_between[of vs] len by (auto simp: r query_result_of_def Let_def limit_rows_def)
qed

theorem aggregates_consistent_witness:
  "\<exists>r m lo av hi. execute_query sample_lib sample_graph None (SelectStmt
      [agg_of AggCount star, agg_of AggCount (FieldRef ''rank'' 0 0), agg_of AggMin (FieldRef ''rank'' 0 0),
       agg_of AggAvg (FieldRef ''rank'' 0 0), agg_of AggMax (FieldRef ''rank'' 0 0)]
      (FromClause ''tasks'' 1 11) None None None True) = Inr r \<and>
    qr_aggregations r = [(''count'', 1), (''count_rank'', m), (''min_rank'', lo), (''avg_rank'', av), (''max_rank'', hi)]
    \<and> m \<le> 1 \<and> lo \<le> av \<and> av \<le> hi"
proof -
  let ?f = "FieldRef ''rank'' 0 0"
  obtain r where r: "execute_query sample_lib sample_graph None (SelectStmt
      [agg_of AggCount star, agg_of AggCount ?f, agg_of AggMin ?f, agg_of AggAvg ?f, agg_of AggMax ?f]
      (FromClause ''tasks'' 1 11) None None None True) = Inr r"
    by (simp add: sample_types rbind_def agg_of_def star_def agg_result_def Let_def map_sum_Inr)
  obtain r0 where r0: "execute_query sample_lib sample_graph None
      (SelectStmt [id_column] (FromClause ''tasks'' 1 11) None None None False) = Inr r0"
    by (simp add: id_column_def sample_types rbind_def map_res_total map_sum_Inr)
  have "length (qr_rows r0) = length (find_nodes sample_graph (Some N_TASK) [])"
    using r0 by (auto simp: id_column_def sample_types rbind_def map_res_total query_result_of_def
        limit_rows_def Let_def)
  also have "\<dots> = 1" using arg_cong[OF sample_found, of length] by simp
  finally show ?thesis using aggregates_consistent[OF r r0] r by fastforce
qed

subsection \<open>How a query can fail\<close>

text \<open>The flag \<open>is_aggregation_only\<close> is set only when every select expression is an aggregate.\<close>

fun flags_cond :: "cond \<Rightarrow> bool"
  and flags_expr :: "select_expr \<Rightarrow> bool"
  and flags_stmt :: "select_stmt \<Rightarrow> bool" where
  "flags_cond (Comparison _ _ _ _ _) = True"
| "flags_cond (InClause _ s _ _) = flags_stmt s"
| "flags_cond (StepsClause _ _ _ _) = True"
| "flags_expr (FieldExpr _ _ _ _) = True"
| "flags_expr (AggExpr _ _ _ flt _ _) = (case flt of None \<Rightarrow> True | Some c \<Rightarrow> flags_cond c)"
| "flags_stmt (SelectStmt es _ wh _ _ aggonly) =
     ((aggonly \<longrightarrow> list_all is_agg es) \<and> (\<forall>e \<in> set es. flags_expr e) \<and>
      (case wh of None \<Rightarrow> True | Some c \<Rightarrow> flags_cond c))"

lemma pbind_Inr: "pbind r k = Inr x \<longleftrightarrow> (\<exists>a ts. r = Inr (a, ts) \<and> k a ts = Inr x)"
  by (auto simp: pbind_def split: sum.splits)

lemma parsed_flags:
  "p_select f h ts = Inr (stmt, ts') \<Longrightarrow> flags_stmt stmt"
  "p_exprs f ts = Inr (es, ts') \<Longrightarrow> \<forall>e \<in> set es. flags_expr e"
  "p_expr f ts = Inr (e, ts') \<Longrightarrow> flags_expr e"
  "p_cond f ts = Inr (c, ts') \<Longrightarrow> flags_cond c"
proof (induction f arbitrary: h ts stmt ts' es e c)
  case (Suc f)
  {
    case 1
    then show ?case
      by (auto simp: pbind_Inr split: if_splits dest!: Suc.IH(2,4))
  next
    case 2
    then show ?case
      by (auto simp: pbind_Inr split: if_splits dest!: Suc.IH(2,3))
  next
    case 3
    then show ?case
      by (auto simp: pbind_Inr Let_def p_fail_def split: if_splits option.splits dest!: Suc.IH(4))
  next
    case 4
    have steps: "flags_cond c" if "p_steps us = Inr (c, us')" for us us' c
      using that by (auto simp: p_steps_def p_fail_def pbind_Inr Let_def split: if_splits)
    from 4 show ?case
      by (auto simp: pbind_Inr Let_def p_fail_def split: if_splits option.splits dest!: Suc.IH(1) steps)
  }
qed simp_all

lemma map_sum_Inl: "map_sum id f r = Inl e \<longleftrightarrow> r = Inl e"
  by (cases r) auto

lemma filter_res_Inl: "filter_res p xs = Inl e \<Longrightarrow> \<exists>x. p x = Inl e"
  by (induction xs) (auto simp: map_sum_Inl split: sum.splits)

lemma map_res_Inl: "map_res f xs = Inl e \<Longrightarrow> \<exists>x. f x = Inl e"
  by (induction xs) (auto simp: map_sum_Inl split: sum.splits)

lemma rbind_Inl: "rbind r k = Inl e \<longleftrightarrow> r = Inl e \<or> (\<exists>x. r = Inr x \<and> k x = Inl e)"
  by (auto simp: rbind_def split: sum.splits)

lemma no_assertion_error:
  "flags_cond c \<Longrightarrow> matches lib g cur n c \<noteq> Inl ExecAssertionError"
  "flags_expr e \<Longrightarrow> is_agg e \<Longrightarrow> compute_agg lib g cur ns e \<noteq> Inl ExecAssertionError"
  "\<forall>e \<in> set es. flags_expr e \<and> is_agg e \<Longrightarrow> agg_values lib g cur ns acc es \<noteq> Inl ExecAssertionError"
  "\<forall>e \<in> set es. flags_expr e \<Longrightarrow> row_of lib g cur n racc es \<noteq> Inl ExecAssertionError"
  "flags_stmt s \<Longrightarrow> execute_query lib g cur s \<noteq> Inl ExecAssertionError"
proof (induction lib g cur n c and lib g cur ns e and lib g cur ns acc es and lib g cur n racc es and lib g cur s
    rule: matches_compute_agg_agg_values_row_of_execute_query.induct)
  case (2 lib g cur n f sub l c)
  then show ?case by (auto simp: rbind_Inl in_values_def Let_def split: if_splits)
next
  case (4 lib g cur nodes a f al flt l c)
  then show ?case
    by (auto simp: rbind_Inl agg_result_def Let_def split: if_splits option.splits dest!: filter_res_Inl)
next
  case (11 lib g cur exprs fc wh ord lmt aggonly)
  then show ?case
    by (auto simp: rbind_Inl map_sum_Inl parse_node_type_def Let_def list_all_iff
        split: if_splits option.splits dest!: filter_res_Inl map_res_Inl)
qed (auto simp: rbind_Inl)


subsection \<open>The query builder\<close>

record query_builder =
  qb_from :: "string option"
  qb_where_clauses :: "string list"
  qb_select_parts :: "string list"
  qb_order :: "(string \<times> bool) option"
  qb_limit :: "int option"

definition qb_new :: query_builder where
  "qb_new = \<lparr> qb_from = None, qb_where_clauses = [], qb_select_parts = [], qb_order = None, qb_limit = None \<rparr>"

definition qb_from_type :: "query_builder \<Rightarrow> string \<Rightarrow> query_builder" where
  "qb_from_type q node_type = q\<lparr>qb_from := Some node_type\<rparr>"

definition where_clause :: "py_lib \<Rightarrow> string \<Rightarrow> pyval \<Rightarrow> string" where
  "where_clause lib key v =
     key @ '' = '' @ (case v of
        PStr s \<Rightarrow> [CHR 0x27] @ s @ [CHR 0x27]
      | PBool b \<Rightarrow> if b then ''true'' else ''false''
      | PNone \<Rightarrow> ''null''
      | _ \<Rightarrow> lib_str lib v)"

definition qb_where :: "py_lib \<Rightarrow> query_builder \<Rightarrow> (string \<times> pyval) list \<Rightarrow> query_builder" where
  "qb_where lib q filters =
     q\<lparr>qb_where_clauses := qb_where_clauses q @ map (\<lambda>(k, v). where_clause lib k v) filters\<rparr>"

definition qb_count :: "query_builder \<Rightarrow> string \<Rightarrow> string \<Rightarrow> query_builder" where
  "qb_count q field al =
     q\<lparr>qb_select_parts := qb_select_parts q @ [''COUNT('' @ field @ '') AS '' @ al]\<rparr>"

definition as_alias :: "string option \<Rightarrow> string" where
  "as_alias al = (case al of None \<Rightarrow> [] | Some a \<Rightarrow> if a = [] then [] else '' AS '' @ a)"

definition qb_avg :: "query_builder \<Rightarrow> string \<Rightarrow> string option \<Rightarrow> query_builder" where
  "qb_avg q field al = q\<lparr>qb_select_parts := qb_select_parts q @ [''AVG('' @ field @ '')'' @ as_alias al]\<rparr>"

definition qb_sum :: "query_builder \<Rightarrow> string \<Rightarrow> string option \<Rightarrow> query_builder" where
  "qb_sum q field al = q\<lparr>qb_select_parts := qb_select_parts q @ [''SUM('' @ field @ '')'' @ as_alias al]\<rparr>"

definition qb_select :: "query_builder \<Rightarrow> string list \<Rightarrow> query_builder" where
  "qb_select q names = q\<lparr>qb_select_parts := qb_select_parts q @ names\<rparr>"

definition qb_order_by :: "query_builder \<Rightarrow> string \<Rightarrow> bool \<Rightarrow> query_builder" where
  "qb_order_by q field desc = q\<lparr>qb_order := Some (field, desc)\<rparr>"

definition qb_limit_to :: "query_builder \<Rightarrow> int \<Rightarrow> query_builder" where
  "qb_limit_to q n = q\<lparr>qb_limit := Some n\<rparr>"

definition qb_steps_from :: "query_builder \<Rightarrow> int \<Rightarrow> string \<Rightarrow> query_builder" where
  "qb_steps_from q depth ref =
     q\<lparr>qb_where_clauses := qb_where_clauses q @ [show_int depth @ '' STEPS FROM '' @ ref]\<rparr>"

definition build_sql :: "query_builder \<Rightarrow> exec_error + string" where
  "build_sql q =
     (if qb_from q = None \<or> qb_from q = Some []
      then Inl (ExecQuery (qerr ''FROM clause is required'' 0 0 None))
      else if qb_select_parts q = []
      then Inl (ExecQuery (qerr ''SELECT clause is required (use select/count/avg/sum)'' 0 0 None))
      else Inr (join_with '' ''
        ([''SELECT'', join_with '', '' (qb_select_parts q), ''FROM'', the (qb_from q)] @
         (if qb_where_clauses q = [] then [] else [''WHERE'', join_with '' AND '' (qb_where_clauses q)]) @
         (case qb_order q of None \<Rightarrow> []
          | Some (field, desc) \<Rightarrow> [''ORDER BY '' @ field @ '' '' @ (if desc then ''DESC'' else ''ASC'')]) @
         (case qb_limit q of None \<Rightarrow> [] | Some n \<Rightarrow> [''LIMIT '' @ show_int n])) @ '';''))"

definition qb_execute :: "py_lib \<Rightarrow> graph \<Rightarrow> query_builder \<Rightarrow> query_failure + query_result" where
  "qb_execute lib g q =
     (case build_sql q of Inl e \<Rightarrow> Inl (ExecFailed e) | Inr sql \<Rightarrow> query lib g None sql)"

text \<open>Two conditions are joined by \<open>AND\<close>, which the parser does not accept.\<close>

lemma two_filters_do_not_parse:
  "case build_sql (qb_where sample_lib (qb_count (qb_from_type qb_new ''tasks'') ''*'' ''count'')
       [(''status'', PStr ''done''), (''agent'', PStr ''dev'')]) of
     Inl _ \<Rightarrow> False
   | Inr sql \<Rightarrow> parse_sql sql = Inl (PQuery (qerr ''Unexpected token AND'' 1 59 None))"
  by code_simp

end
