(* ===== verification/Quota.thy ===== *)
theory Quota
  imports Py_Time
begin

section \<open>Resource quotas (core/quota.py)\<close>

text \<open>
  Usage per user, per department and of the whole system, reset when the day changes; the
  decision whether a task may run; the waiting queues. An operation reads the date once: a day
  that ends in the middle of an operation is not modelled. \<open>asyncio.Queue\<close> is the list of
  the entries in the queue, oldest first. \<open>fl\<close> is the text of a float in a message.
\<close>

subsection \<open>Data\<close>

datatype quota_level = QL_USER | QL_DEPARTMENT | QL_SYSTEM | QL_LLM_API

datatype quota_action = QA_ALLOW | QA_QUEUE | QA_DOWNGRADE | QA_REJECT

record quota_limit =
  ql_max_concurrent_tasks :: int
  ql_max_daily_cost :: rat
  ql_max_daily_tokens :: int
  ql_max_daily_requests :: int
  ql_max_queued :: int

definition default_quotas :: "quota_level \<Rightarrow> quota_limit" where
  "default_quotas level =
     (case level of
        QL_USER \<Rightarrow> \<lparr> ql_max_concurrent_tasks = 5, ql_max_daily_cost = 5, ql_max_daily_tokens = 1000000,
          ql_max_daily_requests = 1000, ql_max_queued = 10 \<rparr>
      | QL_DEPARTMENT \<Rightarrow> \<lparr> ql_max_concurrent_tasks = 50, ql_max_daily_cost = 200,
          ql_max_daily_tokens = 50000000, ql_max_daily_requests = 10000, ql_max_queued = 50 \<rparr>
      | QL_SYSTEM \<Rightarrow> \<lparr> ql_max_concurrent_tasks = 200, ql_max_daily_cost = 2000,
          ql_max_daily_tokens = 500000000, ql_max_daily_requests = 50000, ql_max_queued = 200 \<rparr>
      | QL_LLM_API \<Rightarrow> \<lparr> ql_max_concurrent_tasks = 1000, ql_max_daily_cost = 10000,
          ql_max_daily_tokens = 10000000000, ql_max_daily_requests = 100000, ql_max_queued = 1000 \<rparr>)"

record usage_record =
  ur_timestamp :: rat
  ur_user_id :: string
  ur_department_id :: string
  ur_agent_name :: string
  ur_task_id :: string
  ur_tokens_input :: int
  ur_tokens_output :: int
  ur_cost :: rat
  ur_action :: string

record usage_snapshot =
  us_date_str :: string
  us_user_id :: string
  us_department_id :: string
  us_total_tasks :: int
  us_concurrent_tasks :: int
  us_tokens_input :: int
  us_tokens_output :: int
  us_total_cost :: rat
  us_total_requests :: int

definition new_snapshot :: "int \<Rightarrow> string \<Rightarrow> string \<Rightarrow> usage_snapshot" where
  "new_snapshot today user dept =
     \<lparr> us_date_str = date_str today, us_user_id = user, us_department_id = dept, us_total_tasks = 0,
       us_concurrent_tasks = 0, us_tokens_input = 0, us_tokens_output = 0, us_total_cost = 0,
       us_total_requests = 0 \<rparr>"

record quota_store =
  qs_today :: int
  qs_user_usage :: "(string, usage_snapshot) dict"
  qs_dept_usage :: "(string, usage_snapshot) dict"
  qs_system_usage :: usage_snapshot
  qs_concurrent :: "(string, int) dict"
  qs_dept_concurrent :: "(string, int) dict"
  qs_llm_token_bucket :: rat
  qs_llm_last_refill :: rat
  qs_user_queues :: "(string, rat list) dict"
  qs_dept_queues :: "(string, rat list) dict"
  qs_queued_user_count :: "(string, int) dict"
  qs_queued_dept_count :: "(string, int) dict"

definition qs_new :: "rat \<Rightarrow> int \<Rightarrow> rat \<Rightarrow> quota_store" where
  "qs_new initial_llm_rate today now =
     \<lparr> qs_today = today, qs_user_usage = [], qs_dept_usage = [], qs_system_usage = new_snapshot today [] [],
       qs_concurrent = [], qs_dept_concurrent = [], qs_llm_token_bucket = initial_llm_rate,
       qs_llm_last_refill = now, qs_user_queues = [], qs_dept_queues = [], qs_queued_user_count = [],
       qs_queued_dept_count = [] \<rparr>"

subsection \<open>The store\<close>

definition check_reset :: "quota_store \<Rightarrow> int \<Rightarrow> quota_store" where
  "check_reset qs today =
     (if today \<noteq> qs_today qs
      then qs\<lparr>qs_today := today, qs_user_usage := [], qs_dept_usage := [],
              qs_system_usage := new_snapshot today [] []\<rparr>
      else qs)"

definition get_user_snapshot :: "quota_store \<Rightarrow> string \<Rightarrow> int \<Rightarrow> quota_store \<times> usage_snapshot" where
  "get_user_snapshot qs user today =
     (let qs1 = check_reset qs today in
      case dict_get (qs_user_usage qs1) user of
        Some s \<Rightarrow> (qs1, s)
      | None \<Rightarrow> let s = new_snapshot (qs_today qs1) user [] in
                (qs1\<lparr>qs_user_usage := dict_set (qs_user_usage qs1) user s\<rparr>, s))"

definition get_dept_snapshot :: "quota_store \<Rightarrow> string \<Rightarrow> int \<Rightarrow> quota_store \<times> usage_snapshot" where
  "get_dept_snapshot qs dept today =
     (let qs1 = check_reset qs today in
      case dict_get (qs_dept_usage qs1) dept of
        Some s \<Rightarrow> (qs1, s)
      | None \<Rightarrow> let s = new_snapshot (qs_today qs1) [] dept in
                (qs1\<lparr>qs_dept_usage := dict_set (qs_dept_usage qs1) dept s\<rparr>, s))"

text \<open>The four \<open>+=\<close> lines that \<open>record_usage\<close> repeats at each level.\<close>

definition add_usage :: "usage_record \<Rightarrow> usage_snapshot \<Rightarrow> usage_snapshot" where
  "add_usage r s =
     s\<lparr>us_tokens_input := us_tokens_input s + ur_tokens_input r,
       us_tokens_output := us_tokens_output s + ur_tokens_output r,
       us_total_cost := us_total_cost s + ur_cost r,
       us_total_requests := us_total_requests s + 1\<rparr>"

definition record_usage :: "quota_store \<Rightarrow> usage_record \<Rightarrow> int \<Rightarrow> quota_store" where
  "record_usage qs r today =
     (let (qs1, us) = get_user_snapshot (check_reset qs today) (ur_user_id r) today;
          qs2 = qs1\<lparr>qs_user_usage := dict_set (qs_user_usage qs1) (ur_user_id r) (add_usage r us)\<rparr>;
          qs3 = (if ur_department_id r = [] then qs2
                 else let (qs', ds) = get_dept_snapshot qs2 (ur_department_id r) today in
                      qs'\<lparr>qs_dept_usage := dict_set (qs_dept_usage qs') (ur_department_id r) (add_usage r ds)\<rparr>)
      in qs3\<lparr>qs_system_usage := add_usage r (qs_system_usage qs3)\<rparr>)"

definition start_task :: "quota_store \<Rightarrow> string \<Rightarrow> string \<Rightarrow> quota_store" where
  "start_task qs user dept =
     (let qs1 = qs\<lparr>qs_concurrent := dict_set (qs_concurrent qs) user (dict_get_or (qs_concurrent qs) user 0 + 1)\<rparr>
      in if dept = [] then qs1
         else qs1\<lparr>qs_dept_concurrent :=
           dict_set (qs_dept_concurrent qs1) dept (dict_get_or (qs_dept_concurrent qs1) dept 0 + 1)\<rparr>)"

definition end_task :: "quota_store \<Rightarrow> string \<Rightarrow> string \<Rightarrow> quota_store" where
  "end_task qs user dept =
     (let qs1 = qs\<lparr>qs_concurrent :=
            dict_set (qs_concurrent qs) user (max 0 (dict_get_or (qs_concurrent qs) user 0 - 1))\<rparr>
      in if dept = [] then qs1
         else qs1\<lparr>qs_dept_concurrent :=
           dict_set (qs_dept_concurrent qs1) dept (max 0 (dict_get_or (qs_dept_concurrent qs1) dept 0 - 1))\<rparr>)"

definition get_llm_available_tokens :: "quota_store \<Rightarrow> rat \<Rightarrow> rat \<Rightarrow> quota_store \<times> rat" where
  "get_llm_available_tokens qs max_rate now =
     (let tokens = min max_rate (qs_llm_token_bucket qs + (now - qs_llm_last_refill qs) * max_rate)
      in (qs\<lparr>qs_llm_token_bucket := tokens, qs_llm_last_refill := now\<rparr>, tokens))"

subsection \<open>The manager\<close>

record quota_manager =
  qm_store :: quota_store
  qm_limits :: "quota_level \<Rightarrow> quota_limit"

definition qm_new :: "int \<Rightarrow> rat \<Rightarrow> quota_manager" where
  "qm_new today now = \<lparr> qm_store = qs_new 100 today now, qm_limits = default_quotas \<rparr>"

definition set_limit :: "quota_manager \<Rightarrow> quota_level \<Rightarrow> quota_limit \<Rightarrow> quota_manager" where
  "set_limit m level limit = m\<lparr>qm_limits := (qm_limits m)(level := limit)\<rparr>"

text \<open>The department's checks; \<^const>\<open>None\<close> when none of them refuses.\<close>

definition check_department ::
  "(rat \<Rightarrow> string) \<Rightarrow> quota_manager \<Rightarrow> string \<Rightarrow> rat \<Rightarrow> int \<Rightarrow>
   quota_manager \<times> (quota_action \<times> string) option" where
  "check_department fl m dept est_cost today =
     (if dept = [] then (m, None)
      else
        let (qs, snap) = get_dept_snapshot (qm_store m) dept today;
            m1 = m\<lparr>qm_store := qs\<rparr>;
            conc = dict_get_or (qs_dept_concurrent qs) dept 0;
            lmt = qm_limits m QL_DEPARTMENT
        in (m1,
            if conc \<ge> ql_max_concurrent_tasks lmt
            then Some (QA_QUEUE, ''Dept '' @ dept @ '': too many concurrent tasks ('' @ show_int conc @ '')'')
            else if us_total_cost snap + est_cost > ql_max_daily_cost lmt
            then Some (QA_REJECT, ''Dept '' @ dept @ '': daily cost limit $'' @ fl (ql_max_daily_cost lmt))
            else None))"

definition check_quota ::
  "(rat \<Rightarrow> string) \<Rightarrow> quota_manager \<Rightarrow> string \<Rightarrow> string \<Rightarrow> rat \<Rightarrow> int \<Rightarrow> int \<Rightarrow> rat \<Rightarrow>
   quota_manager \<times> quota_action \<times> string" where
  "check_quota fl m user dept est_cost est_tokens today now =
     (let (qs, snap) = get_user_snapshot (qm_store m) user today;
          m1 = m\<lparr>qm_store := qs\<rparr>;
          conc = dict_get_or (qs_concurrent qs) user 0;
          lmt = qm_limits m QL_USER
      in
      if conc \<ge> ql_max_concurrent_tasks lmt
      then (m1, QA_QUEUE, ''User '' @ user @ '': too many concurrent tasks ('' @ show_int conc @ '')'')
      else if us_total_cost snap + est_cost > ql_max_daily_cost lmt
      then (m1, QA_REJECT, ''User '' @ user @ '': daily cost limit $'' @ fl (ql_max_daily_cost lmt))
      else if us_tokens_input snap + est_tokens > ql_max_daily_tokens lmt
      then (m1, QA_DOWNGRADE, ''User '' @ user @ '': daily token limit exceeded, will downgrade model'')
      else
        case check_department fl m1 dept est_cost today of
          (m2, Some (action, reason)) \<Rightarrow> (m2, action, reason)
        | (m2, None) \<Rightarrow>
            let sys = qs_system_usage (qm_store m2); slmt = qm_limits m QL_SYSTEM in
            if us_total_cost sys + est_cost > ql_max_daily_cost slmt
            then (m2, QA_REJECT, ''System: daily cost limit reached'')
            else if us_tokens_input sys + est_tokens > ql_max_daily_tokens slmt
            then (m2, QA_DOWNGRADE, ''System: daily token limit exceeded'')
            else
              let (qs3, available) = get_llm_available_tokens (qm_store m2)
                    (of_int (ql_max_concurrent_tasks (qm_limits m QL_LLM_API))) now;
                  m3 = m2\<lparr>qm_store := qs3\<rparr>
              in if available < 1 then (m3, QA_QUEUE, ''LLM API: rate limit reached, queuing request'')
                 else (m3, QA_ALLOW, []))"

definition qm_record_usage :: "quota_manager \<Rightarrow> usage_record \<Rightarrow> int \<Rightarrow> quota_manager" where
  "qm_record_usage m r today = m\<lparr>qm_store := record_usage (qm_store m) r today\<rparr>"

definition get_user_usage :: "quota_manager \<Rightarrow> string \<Rightarrow> usage_snapshot option" where
  "get_user_usage m user = dict_get (qs_user_usage (qm_store m)) user"

definition get_system_usage :: "quota_manager \<Rightarrow> usage_snapshot" where
  "get_system_usage m = qs_system_usage (qm_store m)"

definition get_dept_usage :: "quota_manager \<Rightarrow> string \<Rightarrow> usage_snapshot option" where
  "get_dept_usage m dept = dict_get (qs_dept_usage (qm_store m)) dept"

subsection \<open>Waiting queues\<close>

definition queue_size :: "quota_manager \<Rightarrow> string \<Rightarrow> string \<Rightarrow> int" where
  "queue_size m user dept =
     (if user \<noteq> [] then dict_get_or (qs_queued_user_count (qm_store m)) user 0
      else if dept \<noteq> [] then dict_get_or (qs_queued_dept_count (qm_store m)) dept 0
      else 0)"

definition can_enqueue :: "quota_manager \<Rightarrow> string \<Rightarrow> string \<Rightarrow> bool" where
  "can_enqueue m user dept =
     (if dict_get_or (qs_queued_user_count (qm_store m)) user 0 \<ge> ql_max_queued (qm_limits m QL_USER)
      then False
      else if dept \<noteq> [] \<and>
        dict_get_or (qs_queued_dept_count (qm_store m)) dept 0 \<ge> ql_max_queued (qm_limits m QL_DEPARTMENT)
      then False
      else True)"

text \<open>Adding an entry to one queue and its counter; taking the oldest entry off.\<close>

definition put_queue :: "(string, rat list) dict \<Rightarrow> string \<Rightarrow> rat \<Rightarrow> (string, rat list) dict" where
  "put_queue queues k now = dict_set queues k (dict_get_or queues k [] @ [now])"

definition count_up :: "(string, int) dict \<Rightarrow> string \<Rightarrow> (string, int) dict" where
  "count_up counts k = dict_set counts k (dict_get_or counts k 0 + 1)"

definition count_down :: "(string, int) dict \<Rightarrow> string \<Rightarrow> (string, int) dict" where
  "count_down counts k = dict_set counts k (max 0 (dict_get_or counts k 0 - 1))"

definition enqueue :: "quota_manager \<Rightarrow> string \<Rightarrow> string \<Rightarrow> rat \<Rightarrow> rat \<Rightarrow> quota_manager \<times> bool" where
  "enqueue m user dept now1 now2 =
     (if \<not> can_enqueue m user dept then (m, False)
      else
        let qs = qm_store m;
            qs1 = qs\<lparr>qs_user_queues := put_queue (qs_user_queues qs) user now1,
                     qs_queued_user_count := count_up (qs_queued_user_count qs) user\<rparr>;
            qs2 = (if dept = [] then qs1
                   else qs1\<lparr>qs_dept_queues := put_queue (qs_dept_queues qs1) dept now2,
                            qs_queued_dept_count := count_up (qs_queued_dept_count qs1) dept\<rparr>)
        in (m\<lparr>qm_store := qs2\<rparr>, True))"

definition dequeue :: "quota_manager \<Rightarrow> string \<Rightarrow> string \<Rightarrow> quota_manager \<times> bool" where
  "dequeue m user dept =
     (let qs = qm_store m;
          uq = dict_get_or (qs_user_queues qs) user [];
          qs1 = (if uq = [] then qs
                 else qs\<lparr>qs_user_queues := dict_set (qs_user_queues qs) user (tl uq),
                         qs_queued_user_count := count_down (qs_queued_user_count qs) user\<rparr>);
          dq = dict_get_or (qs_dept_queues qs1) dept [];
          from_dept = (dept \<noteq> [] \<and> dq \<noteq> []);
          qs2 = (if from_dept
                 then qs1\<lparr>qs_dept_queues := dict_set (qs_dept_queues qs1) dept (tl dq),
                          qs_queued_dept_count := count_down (qs_queued_dept_count qs1) dept\<rparr>
                 else qs1)
      in (m\<lparr>qm_store := qs2\<rparr>, uq \<noteq> [] \<or> from_dept))"

definition notify_next :: "quota_manager \<Rightarrow> string \<Rightarrow> string \<Rightarrow> quota_manager \<times> bool" where
  "notify_next m user dept =
     (if queue_size m user dept = 0 then (m, False) else dequeue m user dept)"

subsection \<open>Usage adds up\<close>

definition usage_total :: "(usage_snapshot \<Rightarrow> rat) \<Rightarrow> (string, usage_snapshot) dict \<Rightarrow> rat" where
  "usage_total f d = sum_list (map f (dict_values d))"

lemma usage_total_set:
  "dict_ok d \<Longrightarrow> usage_total f (dict_set d k s) =
     usage_total f d + f s - (case dict_get d k of None \<Rightarrow> 0 | Some w \<Rightarrow> f w)"
  by (induction d) (auto simp: usage_total_def dict_values_def map_of_eq_None_iff)

lemma usage_total_empty [simp]: "usage_total f [] = 0"
  by (simp add: usage_total_def dict_values_def)

text \<open>A counter that a usage record moves by a fixed amount and that starts at zero.\<close>

definition usage_measure :: "(usage_snapshot \<Rightarrow> rat) \<Rightarrow> (usage_record \<Rightarrow> rat) \<Rightarrow> bool" where
  "usage_measure f c \<longleftrightarrow>
     (\<forall>r s. f (add_usage r s) = f s + c r) \<and> (\<forall>today u d. f (new_snapshot today u d) = 0)"

lemma usage_measures:
  "usage_measure us_total_cost ur_cost"
  "usage_measure (\<lambda>s. of_int (us_tokens_input s)) (\<lambda>r. of_int (ur_tokens_input r))"
  "usage_measure (\<lambda>s. of_int (us_tokens_output s)) (\<lambda>r. of_int (ur_tokens_output r))"
  "usage_measure (\<lambda>s. of_int (us_total_requests s)) (\<lambda>r. 1)"
  by (simp_all add: usage_measure_def add_usage_def new_snapshot_def)

definition adds_up :: "(usage_snapshot \<Rightarrow> rat) \<Rightarrow> quota_store \<Rightarrow> bool" where
  "adds_up f qs \<longleftrightarrow> dict_ok (qs_user_usage qs) \<and> usage_total f (qs_user_usage qs) = f (qs_system_usage qs)"

lemma check_reset_same [simp]: "check_reset (check_reset qs today) today = check_reset qs today"
  by (simp add: check_reset_def)

lemma qs_today_reset [simp]: "qs_today (check_reset qs today) = today"
  by (simp add: check_reset_def)

lemma check_reset_id: "qs_today qs = today \<Longrightarrow> check_reset qs today = qs"
  by (simp add: check_reset_def)

lemma adds_up_reset: "usage_measure f c \<Longrightarrow> adds_up f qs \<Longrightarrow> adds_up f (check_reset qs today)"
  by (auto simp: adds_up_def check_reset_def usage_measure_def)

text \<open>A snapshot lookup adds at most an empty snapshot.\<close>

lemma get_user_snapshot_facts:
  assumes "get_user_snapshot qs user today = (qs1, s)"
  shows "dict_get (qs_user_usage qs1) user = Some s" and "qs_today qs1 = today"
    and "qs_system_usage qs1 = qs_system_usage (check_reset qs today)"
    and "qs_dept_usage qs1 = qs_dept_usage (check_reset qs today)"
    and "dict_get (qs_user_usage qs1) u = (if u = user \<and> dict_get (qs_user_usage (check_reset qs today)) user = None
           then Some (new_snapshot today user []) else dict_get (qs_user_usage (check_reset qs today)) u)"
  using assms
  by (auto simp: get_user_snapshot_def Let_def split: option.splits)

lemma get_dept_snapshot_facts:
  assumes "get_dept_snapshot qs dept today = (qs1, s)"
  shows "dict_get (qs_dept_usage qs1) dept = Some s" and "qs_today qs1 = today"
    and "qs_system_usage qs1 = qs_system_usage (check_reset qs today)"
    and "qs_user_usage qs1 = qs_user_usage (check_reset qs today)"
    and "dict_get (qs_dept_usage qs1) d = (if d = dept \<and> dict_get (qs_dept_usage (check_reset qs today)) dept = None
           then Some (new_snapshot today [] dept) else dict_get (qs_dept_usage (check_reset qs today)) d)"
  using assms
  by (auto simp: get_dept_snapshot_def Let_def split: option.splits)

lemma adds_up_user_snapshot:
  assumes "usage_measure f c" and "adds_up f qs"
  shows "adds_up f (fst (get_user_snapshot qs user today))"
  using adds_up_reset[OF assms, of today] assms(1)
  by (auto simp: get_user_snapshot_def Let_def adds_up_def usage_total_set usage_measure_def split: option.splits)

lemma adds_up_dept_snapshot:
  assumes "usage_measure f c" and "adds_up f qs"
  shows "adds_up f (fst (get_dept_snapshot qs dept today))"
  using adds_up_reset[OF assms, of today] assms(1)
  by (auto simp: get_dept_snapshot_def Let_def adds_up_def split: option.splits)

text \<open>What recording does at each level, within a day.\<close>

lemma record_usage_users:
  "dict_get (qs_user_usage (record_usage qs r today)) u =
     (if u = ur_user_id r
      then Some (add_usage r (snd (get_user_snapshot (check_reset qs today) (ur_user_id r) today)))
      else dict_get (qs_user_usage (check_reset qs today)) u)"
  by (auto simp: record_usage_def Let_def split_beta get_user_snapshot_def get_dept_snapshot_def
      check_reset_id split: option.splits)

subsection \<open>The usage of a day\<close>

definition user_now :: "quota_store \<Rightarrow> string \<Rightarrow> int \<Rightarrow> usage_snapshot" where
  "user_now qs u today =
     (case dict_get (qs_user_usage (check_reset qs today)) u of
        Some s \<Rightarrow> s | None \<Rightarrow> new_snapshot today u [])"

definition dept_now :: "quota_store \<Rightarrow> string \<Rightarrow> int \<Rightarrow> usage_snapshot" where
  "dept_now qs d today =
     (case dict_get (qs_dept_usage (check_reset qs today)) d of
        Some s \<Rightarrow> s | None \<Rightarrow> new_snapshot today [] d)"

definition system_now :: "quota_store \<Rightarrow> int \<Rightarrow> usage_snapshot" where
  "system_now qs today = qs_system_usage (check_reset qs today)"

lemmas now_defs = user_now_def dept_now_def system_now_def

lemma check_reset_other [simp]:
  "qs_concurrent (check_reset qs today) = qs_concurrent qs"
  "qs_dept_concurrent (check_reset qs today) = qs_dept_concurrent qs"
  "qs_llm_token_bucket (check_reset qs today) = qs_llm_token_bucket qs"
  "qs_llm_last_refill (check_reset qs today) = qs_llm_last_refill qs"
  by (simp_all add: check_reset_def)

lemma get_user_snapshot_now:
  "snd (get_user_snapshot qs u today) = user_now qs u today"
  "user_now (fst (get_user_snapshot qs u today)) u' today = user_now qs u' today"
  "dept_now (fst (get_user_snapshot qs u today)) d today = dept_now qs d today"
  "system_now (fst (get_user_snapshot qs u today)) today = system_now qs today"
  "qs_concurrent (fst (get_user_snapshot qs u today)) = qs_concurrent qs"
  "qs_dept_concurrent (fst (get_user_snapshot qs u today)) = qs_dept_concurrent qs"
  "qs_llm_token_bucket (fst (get_user_snapshot qs u today)) = qs_llm_token_bucket qs"
  "qs_llm_last_refill (fst (get_user_snapshot qs u today)) = qs_llm_last_refill qs"
  by (auto simp: get_user_snapshot_def Let_def now_defs check_reset_id split: option.splits)

lemma get_dept_snapshot_now:
  "snd (get_dept_snapshot qs d today) = dept_now qs d today"
  "user_now (fst (get_dept_snapshot qs d today)) u today = user_now qs u today"
  "dept_now (fst (get_dept_snapshot qs d today)) d' today = dept_now qs d' today"
  "system_now (fst (get_dept_snapshot qs d today)) today = system_now qs today"
  "qs_concurrent (fst (get_dept_snapshot qs d today)) = qs_concurrent qs"
  "qs_dept_concurrent (fst (get_dept_snapshot qs d today)) = qs_dept_concurrent qs"
  "qs_llm_token_bucket (fst (get_dept_snapshot qs d today)) = qs_llm_token_bucket qs"
  "qs_llm_last_refill (fst (get_dept_snapshot qs d today)) = qs_llm_last_refill qs"
  by (auto simp: get_dept_snapshot_def Let_def now_defs check_reset_id split: option.splits)

lemma llm_tokens_now:
  "snd (get_llm_available_tokens qs rate now) =
     min rate (qs_llm_token_bucket qs + (now - qs_llm_last_refill qs) * rate)"
  "user_now (fst (get_llm_available_tokens qs rate now)) u today = user_now qs u today"
  "dept_now (fst (get_llm_available_tokens qs rate now)) d today = dept_now qs d today"
  "system_now (fst (get_llm_available_tokens qs rate now)) today = system_now qs today"
  "qs_concurrent (fst (get_llm_available_tokens qs rate now)) = qs_concurrent qs"
  "qs_dept_concurrent (fst (get_llm_available_tokens qs rate now)) = qs_dept_concurrent qs"
  by (simp_all add: get_llm_available_tokens_def Let_def now_defs check_reset_def)

lemma system_usage_now:
  "qs_system_usage (fst (get_user_snapshot qs u today)) = system_now qs today"
  "qs_system_usage (fst (get_dept_snapshot qs d today)) = system_now qs today"
  by (auto simp: get_user_snapshot_def get_dept_snapshot_def Let_def now_defs split: option.splits)

lemma check_quota_spec:
  "case check_quota fl m user dept est tok today now of (m', action, reason) \<Rightarrow>
     (let qs = qm_store m; lmt = qm_limits m in
      (action = QA_ALLOW \<longleftrightarrow>
         dict_get_or (qs_concurrent qs) user 0 < ql_max_concurrent_tasks (lmt QL_USER) \<and>
         us_total_cost (user_now qs user today) + est \<le> ql_max_daily_cost (lmt QL_USER) \<and>
         us_tokens_input (user_now qs user today) + tok \<le> ql_max_daily_tokens (lmt QL_USER) \<and>
         (dept = [] \<or>
          dict_get_or (qs_dept_concurrent qs) dept 0 < ql_max_concurrent_tasks (lmt QL_DEPARTMENT) \<and>
          us_total_cost (dept_now qs dept today) + est \<le> ql_max_daily_cost (lmt QL_DEPARTMENT)) \<and>
         us_total_cost (system_now qs today) + est \<le> ql_max_daily_cost (lmt QL_SYSTEM) \<and>
         us_tokens_input (system_now qs today) + tok \<le> ql_max_daily_tokens (lmt QL_SYSTEM) \<and>
         1 \<le> min (of_int (ql_max_concurrent_tasks (lmt QL_LLM_API)))
               (qs_llm_token_bucket qs + (now - qs_llm_last_refill qs) *
                  of_int (ql_max_concurrent_tasks (lmt QL_LLM_API)))) \<and>
      (\<forall>u. user_now (qm_store m') u today = user_now qs u today) \<and>
      (\<forall>d. dept_now (qm_store m') d today = dept_now qs d today) \<and>
      system_now (qm_store m') today = system_now qs today \<and> qm_limits m' = lmt \<and>
      qs_concurrent (qm_store m') = qs_concurrent qs \<and>
      qs_dept_concurrent (qm_store m') = qs_dept_concurrent qs)"
  unfolding check_quota_def check_department_def Let_def split_beta
  by (cases "dept = []")
     (simp_all add: get_user_snapshot_now get_dept_snapshot_now llm_tokens_now system_usage_now min_less_iff_disj
       flip: not_le)

text \<open>A check admits a task exactly when the user and the department are below their number of
  running tasks, the estimate fits into what is left of the day at all three levels, and an LLM
  token is left; whatever it answers, it changes neither the usage of the day nor the numbers
  of running tasks.\<close>

theorem check_quota_verdict:
  "case check_quota fl m user dept est tok today now of (m', action, reason) \<Rightarrow>
     (let qs = qm_store m; lmt = qm_limits m in
      (action = QA_ALLOW \<longleftrightarrow>
         dict_get_or (qs_concurrent qs) user 0 < ql_max_concurrent_tasks (lmt QL_USER) \<and>
         us_total_cost (user_now qs user today) + est \<le> ql_max_daily_cost (lmt QL_USER) \<and>
         us_tokens_input (user_now qs user today) + tok \<le> ql_max_daily_tokens (lmt QL_USER) \<and>
         (dept = [] \<or>
          dict_get_or (qs_dept_concurrent qs) dept 0 < ql_max_concurrent_tasks (lmt QL_DEPARTMENT) \<and>
          us_total_cost (dept_now qs dept today) + est \<le> ql_max_daily_cost (lmt QL_DEPARTMENT)) \<and>
         us_total_cost (system_now qs today) + est \<le> ql_max_daily_cost (lmt QL_SYSTEM) \<and>
         us_tokens_input (system_now qs today) + tok \<le> ql_max_daily_tokens (lmt QL_SYSTEM) \<and>
         1 \<le> min (of_int (ql_max_concurrent_tasks (lmt QL_LLM_API)))
               (qs_llm_token_bucket qs + (now - qs_llm_last_refill qs) *
                  of_int (ql_max_concurrent_tasks (lmt QL_LLM_API)))) \<and>
      (\<forall>u. user_now (qm_store m') u today = user_now qs u today) \<and>
      (\<forall>d. dept_now (qm_store m') d today = dept_now qs d today) \<and>
      system_now (qm_store m') today = system_now qs today \<and> qm_limits m' = lmt \<and>
      qs_concurrent (qm_store m') = qs_concurrent qs \<and>
      qs_dept_concurrent (qm_store m') = qs_dept_concurrent qs)"
  by (rule check_quota_spec)

lemma get_user_snapshot_today: "qs_today (fst (get_user_snapshot qs u today)) = today"
  by (simp add: get_user_snapshot_def Let_def split: option.split)

lemma get_dept_snapshot_today: "qs_today (fst (get_dept_snapshot qs u today)) = today"
  by (simp add: get_dept_snapshot_def Let_def split: option.split)

lemma now_reset [simp]:
  "user_now (check_reset qs today) u today = user_now qs u today"
  "dept_now (check_reset qs today) d today = dept_now qs d today"
  "system_now (check_reset qs today) today = system_now qs today"
  by (simp_all add: now_defs)

text \<open>Updating one snapshot of today.\<close>

lemma set_user_now:
  assumes "qs_today qs = today"
  shows "user_now (qs\<lparr>qs_user_usage := dict_set (qs_user_usage qs) k s\<rparr>) u today =
      (if u = k then s else user_now qs u today)"
    and "dept_now (qs\<lparr>qs_user_usage := dict_set (qs_user_usage qs) k s\<rparr>) d today = dept_now qs d today"
    and "system_now (qs\<lparr>qs_user_usage := dict_set (qs_user_usage qs) k s\<rparr>) today = system_now qs today"
  using assms by (simp_all add: now_defs check_reset_def)

lemma set_dept_now:
  assumes "qs_today qs = today"
  shows "dept_now (qs\<lparr>qs_dept_usage := dict_set (qs_dept_usage qs) k s\<rparr>) d today =
      (if d = k then s else dept_now qs d today)"
    and "user_now (qs\<lparr>qs_dept_usage := dict_set (qs_dept_usage qs) k s\<rparr>) u today = user_now qs u today"
    and "system_now (qs\<lparr>qs_dept_usage := dict_set (qs_dept_usage qs) k s\<rparr>) today = system_now qs today"
  using assms by (simp_all add: now_defs check_reset_def)

lemma set_system_now:
  assumes "qs_today qs = today"
  shows "system_now (qs\<lparr>qs_system_usage := s\<rparr>) today = s"
    and "user_now (qs\<lparr>qs_system_usage := s\<rparr>) u today = user_now qs u today"
    and "dept_now (qs\<lparr>qs_system_usage := s\<rparr>) d today = dept_now qs d today"
  using assms by (simp_all add: now_defs check_reset_def)

lemma system_now_today: "qs_today qs = today \<Longrightarrow> qs_system_usage qs = system_now qs today"
  by (simp add: system_now_def check_reset_def)

lemma record_usage_now:
  "user_now (record_usage qs r today) u today =
     (if u = ur_user_id r then add_usage r (user_now qs u today) else user_now qs u today)" (is ?U)
  "dept_now (record_usage qs r today) d today =
     (if d = ur_department_id r \<and> d \<noteq> [] then add_usage r (dept_now qs d today) else dept_now qs d today)" (is ?D)
  "system_now (record_usage qs r today) today = add_usage r (system_now qs today)" (is ?S)
  "qs_today (record_usage qs r today) = today" (is ?T)
proof -
  let ?q0 = "check_reset qs today"
  define q1 where "q1 = fst (get_user_snapshot ?q0 (ur_user_id r) today)"
  define q2 where "q2 = q1\<lparr>qs_user_usage := dict_set (qs_user_usage q1) (ur_user_id r)
    (add_usage r (user_now qs (ur_user_id r) today))\<rparr>"
  define q3 where "q3 = fst (get_dept_snapshot q2 (ur_department_id r) today)"
  define q4 where "q4 = (if ur_department_id r = [] then q2
    else q3\<lparr>qs_dept_usage := dict_set (qs_dept_usage q3) (ur_department_id r)
      (add_usage r (dept_now q2 (ur_department_id r) today))\<rparr>)"
  have rec: "record_usage qs r today = q4\<lparr>qs_system_usage := add_usage r (qs_system_usage q4)\<rparr>"
    unfolding record_usage_def Let_def split_beta q4_def q3_def q2_def q1_def
    by (simp add: get_user_snapshot_now get_dept_snapshot_now)
  have t1: "qs_today q1 = today" by (simp add: q1_def get_user_snapshot_today)
  then have t2: "qs_today q2 = today" by (simp add: q2_def)
  have t3: "qs_today q3 = today" by (simp add: q3_def get_dept_snapshot_today)
  from t2 t3 have t4: "qs_today q4 = today" by (simp add: q4_def)
  have n1: "user_now q1 u today = user_now qs u today" "dept_now q1 d today = dept_now qs d today"
    "system_now q1 today = system_now qs today" for u d
    by (simp_all add: q1_def get_user_snapshot_now)
  note n2 = set_user_now[OF t1, of "ur_user_id r" "add_usage r (user_now qs (ur_user_id r) today)",
      folded q2_def, unfolded n1]
  have n3: "user_now q3 u today = user_now q2 u today" "dept_now q3 d today = dept_now q2 d today"
    "system_now q3 today = system_now q2 today" for u d
    by (simp_all add: q3_def get_dept_snapshot_now)
  note n4 = set_dept_now[OF t3, of "ur_department_id r" "add_usage r (dept_now q2 (ur_department_id r) today)",
      unfolded n3 n2]
  have n4': "user_now q4 u today = (if u = ur_user_id r then add_usage r (user_now qs u today) else user_now qs u today)"
    "dept_now q4 d today = (if d = ur_department_id r \<and> d \<noteq> [] then add_usage r (dept_now qs d today) else dept_now qs d today)"
    "system_now q4 today = system_now qs today" for u d
    using n4 n2 by (simp_all add: q4_def)
  show ?U ?D ?S ?T
    using n4' t4 by (simp_all add: rec set_system_now[OF t4] system_now_today[OF t4])
qed

text \<open>
  The protocol of the class: a task runs when the check admits it and its usage is recorded
  afterwards.
\<close>

record quota_task =
  qt_today :: int
  qt_now :: rat
  qt_est_cost :: rat
  qt_est_tokens :: int
  qt_usage :: usage_record

definition run_task :: "(rat \<Rightarrow> string) \<Rightarrow> quota_manager \<Rightarrow> quota_task \<Rightarrow> quota_manager" where
  "run_task fl m t =
     (case check_quota fl m (ur_user_id (qt_usage t)) (ur_department_id (qt_usage t))
             (qt_est_cost t) (qt_est_tokens t) (qt_today t) (qt_now t) of
        (m', action, reason) \<Rightarrow>
          if action = QA_ALLOW then qm_record_usage m' (qt_usage t) (qt_today t) else m')"

text \<open>The costs of a day stay within the daily limits.\<close>

definition within_limits :: "quota_manager \<Rightarrow> int \<Rightarrow> bool" where
  "within_limits m today \<longleftrightarrow>
     (\<forall>u. us_total_cost (user_now (qm_store m) u today) \<le> ql_max_daily_cost (qm_limits m QL_USER)) \<and>
     (\<forall>d. us_total_cost (dept_now (qm_store m) d today) \<le> ql_max_daily_cost (qm_limits m QL_DEPARTMENT)) \<and>
     us_total_cost (system_now (qm_store m) today) \<le> ql_max_daily_cost (qm_limits m QL_SYSTEM)"

lemma us_cost_add [simp]: "us_total_cost (add_usage r s) = us_total_cost s + ur_cost r"
  by (simp add: add_usage_def)

lemma us_cost_new [simp]: "us_total_cost (new_snapshot today u d) = 0"
  by (simp add: new_snapshot_def)

text \<open>Another day starts at zero.\<close>

lemma within_limits_new_day:
  assumes "within_limits m (qs_today (qm_store m))" and "\<And>level. 0 \<le> ql_max_daily_cost (qm_limits m level)"
  shows "within_limits m today"
proof (cases "today = qs_today (qm_store m)")
  case False
  then show ?thesis using assms(2) by (simp add: within_limits_def now_defs check_reset_def)
qed (use assms(1) in simp)

lemma check_quota_today:
  "qs_today (qm_store (fst (check_quota fl m user dept est tok today now))) = today"
  unfolding check_quota_def check_department_def Let_def split_beta
  by (cases "dept = []")
    (simp_all add: get_user_snapshot_today get_dept_snapshot_today get_llm_available_tokens_def Let_def)

lemma run_task_within:
  assumes lims: "\<And>level. 0 \<le> ql_max_daily_cost (qm_limits m level)"
    and w: "within_limits m (qs_today (qm_store m))" and est: "ur_cost (qt_usage t) \<le> qt_est_cost t"
  shows "within_limits (run_task fl m t) (qs_today (qm_store (run_task fl m t)))"
    and "qm_limits (run_task fl m t) = qm_limits m"
proof -
  let ?r = "qt_usage t" and ?d = "qt_today t"
  obtain m' action reason where c: "check_quota fl m (ur_user_id ?r) (ur_department_id ?r)
      (qt_est_cost t) (qt_est_tokens t) ?d (qt_now t) = (m', action, reason)"
    by (cases "check_quota fl m (ur_user_id ?r) (ur_department_id ?r)
      (qt_est_cost t) (qt_est_tokens t) ?d (qt_now t)") auto
  note spec = check_quota_spec[where fl = fl and m = m and user = "ur_user_id ?r" and dept = "ur_department_id ?r"
      and est = "qt_est_cost t" and tok = "qt_est_tokens t" and today = ?d and now = "qt_now t",
      unfolded c Let_def]
  have today: "qs_today (qm_store m') = ?d"
    using check_quota_today[where fl = fl and m = m and user = "ur_user_id ?r" and dept = "ur_department_id ?r"
        and est = "qt_est_cost t" and tok = "qt_est_tokens t" and today = ?d and now = "qt_now t"] c by simp
  from spec have lim: "qm_limits m' = qm_limits m"
    and views: "user_now (qm_store m') u ?d = user_now (qm_store m) u ?d"
      "dept_now (qm_store m') d ?d = dept_now (qm_store m) d ?d"
      "system_now (qm_store m') ?d = system_now (qm_store m) ?d" for u d
    by simp_all
  have w': "within_limits m' ?d"
    using within_limits_new_day[OF w lims, of ?d] by (simp add: within_limits_def lim views)
  show "qm_limits (run_task fl m t) = qm_limits m"
    using lim by (simp add: run_task_def c qm_record_usage_def)
  show "within_limits (run_task fl m t) (qs_today (qm_store (run_task fl m t)))"
  proof (cases "action = QA_ALLOW")
    case False
    then show ?thesis using w' today by (simp add: run_task_def c)
  next
    case True
    with spec have room:
      "us_total_cost (user_now (qm_store m) (ur_user_id ?r) ?d) + qt_est_cost t \<le> ql_max_daily_cost (qm_limits m QL_USER)"
      "ur_department_id ?r \<noteq> [] \<Longrightarrow>
       us_total_cost (dept_now (qm_store m) (ur_department_id ?r) ?d) + qt_est_cost t
         \<le> ql_max_daily_cost (qm_limits m QL_DEPARTMENT)"
      "us_total_cost (system_now (qm_store m) ?d) + qt_est_cost t \<le> ql_max_daily_cost (qm_limits m QL_SYSTEM)"
      by auto
    have "within_limits (qm_record_usage m' ?r ?d) ?d"
      using w' room est by (auto simp: within_limits_def qm_record_usage_def record_usage_now lim views)
    with True show ?thesis by (simp add: run_task_def c qm_record_usage_def record_usage_now(4))
  qed
qed

lemma run_tasks_within:
  assumes "\<And>level. 0 \<le> ql_max_daily_cost (qm_limits m level)" and "within_limits m (qs_today (qm_store m))"
    and "\<forall>t \<in> set ts. ur_cost (qt_usage t) \<le> qt_est_cost t"
  shows "within_limits (foldl (run_task fl) m ts) (qs_today (qm_store (foldl (run_task fl) m ts)))"
    and "qm_limits (foldl (run_task fl) m ts) = qm_limits m"
  using assms
  by (induction ts arbitrary: m) (simp_all add: run_task_within)

lemma stored_now:
  "dict_get (qs_user_usage qs) u = Some s \<Longrightarrow> user_now qs u (qs_today qs) = s"
  "dict_get (qs_dept_usage qs) d = Some s \<Longrightarrow> dept_now qs d (qs_today qs) = s"
  "system_now qs (qs_today qs) = qs_system_usage qs"
  by (simp_all add: now_defs check_reset_def)


definition sample_usage :: "rat \<Rightarrow> usage_record" where
  "sample_usage c = \<lparr> ur_timestamp = 0, ur_user_id = ''ann'', ur_department_id = ''dev'', ur_agent_name = ''tech'',
     ur_task_id = ''t1'', ur_tokens_input = 10, ur_tokens_output = 5, ur_cost = c, ur_action = ''llm_call'' \<rparr>"

definition sample_task :: "rat \<Rightarrow> quota_task" where
  "sample_task c = \<lparr> qt_today = 20000, qt_now = 1, qt_est_cost = c, qt_est_tokens = 10, qt_usage = sample_usage c \<rparr>"


text \<open>The estimate matters: checked with the default estimate 0, tasks of cost 3 take a user's day to 6,
  past the limit of 5.\<close>

definition unestimated :: quota_task where
  "unestimated = (sample_task 3)\<lparr>qt_est_cost := 0\<rparr>"

lemma default_estimate_overruns:
  "us_total_cost (get_system_usage (foldl (run_task (\<lambda>_. [])) (qm_new 20000 0) [unestimated, unestimated, unestimated])) = 6"
  by code_simp

text \<open>Nothing takes tokens out of the LLM bucket: with a clock that runs forward it never drops
  below one, so the last check never answers \<open>QUEUE\<close>.\<close>

lemma llm_limit_never_reached:
  assumes "1 \<le> qs_llm_token_bucket qs" and "1 \<le> rate" and "qs_llm_last_refill qs \<le> now"
  shows "1 \<le> snd (get_llm_available_tokens qs rate now)"
    and "1 \<le> qs_llm_token_bucket (fst (get_llm_available_tokens qs rate now))"
proof -
  have "0 \<le> (now - qs_llm_last_refill qs) * rate" using assms(2,3) by simp
  with assms(1,2) have "1 \<le> min rate (qs_llm_token_bucket qs + (now - qs_llm_last_refill qs) * rate)"
    by simp
  then show "1 \<le> snd (get_llm_available_tokens qs rate now)"
    "1 \<le> qs_llm_token_bucket (fst (get_llm_available_tokens qs rate now))"
    by (simp_all add: get_llm_available_tokens_def Let_def)
qed

subsection \<open>Every manager a program can build\<close>

inductive quota_reach :: "quota_manager \<Rightarrow> bool" where
  qr_new: "quota_reach (qm_new today now)"
| qr_limit: "quota_reach m \<Longrightarrow> quota_reach (set_limit m level lmt)"
| qr_check: "quota_reach m \<Longrightarrow> quota_reach (fst (check_quota fl m user dept est tok today now))"
| qr_record: "quota_reach m \<Longrightarrow> quota_reach (qm_record_usage m r today)"
| qr_start: "quota_reach m \<Longrightarrow> quota_reach (m\<lparr>qm_store := start_task (qm_store m) user dept\<rparr>)"
| qr_end: "quota_reach m \<Longrightarrow> quota_reach (m\<lparr>qm_store := end_task (qm_store m) user dept\<rparr>)"
| qr_enqueue: "quota_reach m \<Longrightarrow> quota_reach (fst (enqueue m user dept now1 now2))"
| qr_dequeue: "quota_reach m \<Longrightarrow> quota_reach (fst (dequeue m user dept))"

lemma adds_up_llm: "adds_up f qs \<Longrightarrow> adds_up f (fst (get_llm_available_tokens qs rate now))"
  by (simp add: adds_up_def get_llm_available_tokens_def Let_def)

lemma adds_up_check:
  assumes "usage_measure f c" and "adds_up f (qm_store m)"
  shows "adds_up f (qm_store (fst (check_quota fl m user dept est tok today now)))"
proof -
  let ?q1 = "fst (get_user_snapshot (qm_store m) user today)"
  let ?q2 = "fst (get_dept_snapshot ?q1 dept today)"
  have "adds_up f ?q1" by (rule adds_up_user_snapshot[OF assms])
  moreover from this have "adds_up f ?q2" by (rule adds_up_dept_snapshot[OF assms(1)])
  ultimately show ?thesis
    unfolding check_quota_def check_department_def Let_def split_beta
    by (cases "dept = []") (simp_all add: adds_up_llm)
qed

lemma adds_up_set_user:
  assumes "adds_up f qs" and "dict_get (qs_user_usage qs) u = Some s" and "qs' = qs\<lparr>qs_user_usage := dict_set (qs_user_usage qs) u s'\<rparr>"
  shows "dict_ok (qs_user_usage qs')" and "usage_total f (qs_user_usage qs') = f (qs_system_usage qs') + f s' - f s"
  using assms by (auto simp: adds_up_def usage_total_set)

lemma adds_up_record:
  assumes f: "usage_measure f c" and up: "adds_up f qs"
  shows "adds_up f (record_usage qs r today)"
proof -
  obtain q1 us where g: "get_user_snapshot (check_reset qs today) (ur_user_id r) today = (q1, us)"
    by (cases "get_user_snapshot (check_reset qs today) (ur_user_id r) today") auto
  have up1: "adds_up f q1" using adds_up_user_snapshot[OF f adds_up_reset[OF f up]] g by (metis fst_conv)
  note us = get_user_snapshot_facts(1)[OF g]
  define q2 where "q2 = q1\<lparr>qs_user_usage := dict_set (qs_user_usage q1) (ur_user_id r) (add_usage r us)\<rparr>"
  obtain q3 ds where h: "get_dept_snapshot q2 (ur_department_id r) today = (q3, ds)"
    by (cases "get_dept_snapshot q2 (ur_department_id r) today") auto
  have today: "check_reset q2 today = q2"
    using get_user_snapshot_facts(2)[OF g] by (simp add: q2_def check_reset_id)
  have q3: "qs_user_usage q3 = qs_user_usage q2" "qs_system_usage q3 = qs_system_usage q2"
    using get_dept_snapshot_facts(3,4)[OF h] by (simp_all add: today)
  have rec: "qs_user_usage (record_usage qs r today) = qs_user_usage q2"
    "qs_system_usage (record_usage qs r today) = add_usage r (qs_system_usage q2)"
    by (auto simp: record_usage_def Let_def g q2_def[symmetric] h q3)
  have "f (add_usage r us) = f us + c r" "f (add_usage r (qs_system_usage q2)) = f (qs_system_usage q2) + c r"
    using f by (simp_all add: usage_measure_def)
  with adds_up_set_user[OF up1 us q2_def] show ?thesis
    by (simp add: adds_up_def rec)
qed

lemma adds_up_reach:
  assumes "quota_reach m" and "usage_measure f c"
  shows "adds_up f (qm_store m)"
  using assms(1)
proof (induction rule: quota_reach.induct)
  case (qr_new today now)
  then show ?case using assms(2) by (simp add: qm_new_def qs_new_def adds_up_def usage_measure_def)
next
  case (qr_check m fl user dept est tok today now)
  then show ?case by (intro adds_up_check[OF assms(2)])
next
  case (qr_record m r today)
  then show ?case using adds_up_record[OF assms(2)] by (simp add: qm_record_usage_def)
qed (simp_all add: adds_up_def set_limit_def start_task_def end_task_def enqueue_def dequeue_def Let_def)

text \<open>C22: However a manager was used, the usage of the system on the day is the sum of the usage of the
  users: cost, input and output tokens, and requests.\<close>

theorem usage_adds_up:
  assumes "quota_reach m"
  shows "us_total_cost (get_system_usage m) = sum_list (map us_total_cost (dict_values (qs_user_usage (qm_store m)))) \<and>
    us_tokens_input (get_system_usage m) = sum_list (map us_tokens_input (dict_values (qs_user_usage (qm_store m)))) \<and>
    us_tokens_output (get_system_usage m) = sum_list (map us_tokens_output (dict_values (qs_user_usage (qm_store m)))) \<and>
    us_total_requests (get_system_usage m) = sum_list (map us_total_requests (dict_values (qs_user_usage (qm_store m))))"
proof -
  have ints: "g (get_system_usage m) = sum_list (map g (dict_values (qs_user_usage (qm_store m))))"
    if "usage_measure (\<lambda>s. of_int (g s)) c" for g :: "usage_snapshot \<Rightarrow> int" and c
  proof -
    have "(of_int (sum_list (map g xs)) :: rat) = sum_list (map (\<lambda>s. of_int (g s)) xs)" for xs
      by (induction xs) simp_all
    moreover have "sum_list (map (\<lambda>s. of_int (g s)) (dict_values (qs_user_usage (qm_store m)))) =
        (of_int (g (get_system_usage m)) :: rat)"
      using adds_up_reach[OF assms that] by (simp add: adds_up_def usage_total_def get_system_usage_def)
    ultimately show ?thesis by (metis of_int_eq_iff)
  qed
  show ?thesis
    using adds_up_reach[OF assms usage_measures(1)] ints[OF usage_measures(2)] ints[OF usage_measures(3)]
      ints[OF usage_measures(4)]
    by (simp add: adds_up_def usage_total_def get_system_usage_def)
qed

theorem usage_adds_up_witness:
  "us_total_cost (get_system_usage (qm_record_usage (qm_new 20000 0) (sample_usage 3) 20000)) =
   sum_list (map us_total_cost (dict_values (qs_user_usage (qm_store
     (qm_record_usage (qm_new 20000 0) (sample_usage 3) 20000)))))"
proof -
  have "quota_reach (qm_record_usage (qm_new 20000 0) (sample_usage 3) 20000)"
    by (intro quota_reach.intros)
  then show ?thesis using usage_adds_up by blast
qed

subsection \<open>The waiting queues\<close>

definition user_queue :: "quota_manager \<Rightarrow> string \<Rightarrow> rat list" where
  "user_queue m u = dict_get_or (qs_user_queues (qm_store m)) u []"

definition dept_queue :: "quota_manager \<Rightarrow> string \<Rightarrow> rat list" where
  "dept_queue m d = dict_get_or (qs_dept_queues (qm_store m)) d []"

definition queues_ok :: "quota_manager \<Rightarrow> bool" where
  "queues_ok m \<longleftrightarrow>
     (\<forall>u. dict_get_or (qs_queued_user_count (qm_store m)) u 0 = int (length (user_queue m u))) \<and>
     (\<forall>d. dict_get_or (qs_queued_dept_count (qm_store m)) d 0 = int (length (dept_queue m d)))"

lemmas queue_defs = queues_ok_def user_queue_def dept_queue_def

lemma queue_fields_snapshot:
  "qs_user_queues (fst (get_user_snapshot qs u today)) = qs_user_queues qs"
  "qs_dept_queues (fst (get_user_snapshot qs u today)) = qs_dept_queues qs"
  "qs_queued_user_count (fst (get_user_snapshot qs u today)) = qs_queued_user_count qs"
  "qs_queued_dept_count (fst (get_user_snapshot qs u today)) = qs_queued_dept_count qs"
  "qs_user_queues (fst (get_dept_snapshot qs d today)) = qs_user_queues qs"
  "qs_dept_queues (fst (get_dept_snapshot qs d today)) = qs_dept_queues qs"
  "qs_queued_user_count (fst (get_dept_snapshot qs d today)) = qs_queued_user_count qs"
  "qs_queued_dept_count (fst (get_dept_snapshot qs d today)) = qs_queued_dept_count qs"
  "qs_user_queues (check_reset qs today) = qs_user_queues qs"
  "qs_dept_queues (check_reset qs today) = qs_dept_queues qs"
  "qs_queued_user_count (check_reset qs today) = qs_queued_user_count qs"
  "qs_queued_dept_count (check_reset qs today) = qs_queued_dept_count qs"
  "qs_user_queues (fst (get_llm_available_tokens qs rate now)) = qs_user_queues qs"
  "qs_dept_queues (fst (get_llm_available_tokens qs rate now)) = qs_dept_queues qs"
  "qs_queued_user_count (fst (get_llm_available_tokens qs rate now)) = qs_queued_user_count qs"
  "qs_queued_dept_count (fst (get_llm_available_tokens qs rate now)) = qs_queued_dept_count qs"
  by (simp_all add: get_user_snapshot_def get_dept_snapshot_def get_llm_available_tokens_def
      check_reset_def Let_def split: option.split)

lemma queues_ok_check: "queues_ok m \<Longrightarrow> queues_ok (fst (check_quota fl m user dept est tok today now))"
  unfolding check_quota_def check_department_def Let_def split_beta
  by (cases "dept = []") (simp_all add: queue_defs queue_fields_snapshot)

lemma queues_ok_record: "queues_ok m \<Longrightarrow> queues_ok (qm_record_usage m r today)"
  unfolding qm_record_usage_def record_usage_def Let_def split_beta
  by (cases "ur_department_id r = []") (simp_all add: queue_defs queue_fields_snapshot)

lemma queues_ok_enqueue: "queues_ok m \<Longrightarrow> queues_ok (fst (enqueue m user dept now1 now2))"
  by (simp add: enqueue_def Let_def queue_defs put_queue_def count_up_def)

lemma queues_ok_dequeue: "queues_ok m \<Longrightarrow> queues_ok (fst (dequeue m user dept))"
  by (auto simp: dequeue_def Let_def queue_defs count_down_def neq_Nil_conv)

lemma queues_ok_reach: "quota_reach m \<Longrightarrow> queues_ok m"
proof (induction rule: quota_reach.induct)
  case (qr_new today now)
  then show ?case by (simp add: queue_defs qm_new_def qs_new_def)
next
  case (qr_limit m level lmt)
  then show ?case by (simp add: queue_defs set_limit_def)
qed (simp_all add: queues_ok_check queues_ok_record queues_ok_enqueue queues_ok_dequeue,
     simp_all add: queue_defs start_task_def end_task_def Let_def)

text \<open>The waiting queues are bounded and first in, first out: an entry is accepted exactly while the
  queues it goes to are below their limits and is then the last one; taking one off removes the
  oldest, and the reported size is the length of the queue.\<close>

theorem waiting_queues_fifo:
  assumes "quota_reach m"
  shows "(case enqueue m u d now1 now2 of (m', ok) \<Rightarrow>
      (ok \<longleftrightarrow> int (length (user_queue m u)) < ql_max_queued (qm_limits m QL_USER) \<and>
         (d = [] \<or> int (length (dept_queue m d)) < ql_max_queued (qm_limits m QL_DEPARTMENT))) \<and>
      user_queue m' u = (if ok then user_queue m u @ [now1] else user_queue m u) \<and>
      dept_queue m' d = (if ok \<and> d \<noteq> [] then dept_queue m d @ [now2] else dept_queue m d)) \<and>
    (case dequeue m u d of (m', popped) \<Rightarrow>
      (popped \<longleftrightarrow> user_queue m u \<noteq> [] \<or> d \<noteq> [] \<and> dept_queue m d \<noteq> []) \<and>
      user_queue m' u = tl (user_queue m u) \<and>
      dept_queue m' d = (if d = [] then dept_queue m d else tl (dept_queue m d))) \<and>
    (u \<noteq> [] \<longrightarrow> queue_size m u d = int (length (user_queue m u)))"
proof (intro conjI)
  have ok: "queues_ok m" using assms by (rule queues_ok_reach)
  show "case enqueue m u d now1 now2 of (m', ok) \<Rightarrow>
      (ok \<longleftrightarrow> int (length (user_queue m u)) < ql_max_queued (qm_limits m QL_USER) \<and>
         (d = [] \<or> int (length (dept_queue m d)) < ql_max_queued (qm_limits m QL_DEPARTMENT))) \<and>
      user_queue m' u = (if ok then user_queue m u @ [now1] else user_queue m u) \<and>
      dept_queue m' d = (if ok \<and> d \<noteq> [] then dept_queue m d @ [now2] else dept_queue m d)"
    using ok by (auto simp: enqueue_def can_enqueue_def Let_def queue_defs put_queue_def)
  show "case dequeue m u d of (m', popped) \<Rightarrow>
      (popped \<longleftrightarrow> user_queue m u \<noteq> [] \<or> d \<noteq> [] \<and> dept_queue m d \<noteq> []) \<and>
      user_queue m' u = tl (user_queue m u) \<and>
      dept_queue m' d = (if d = [] then dept_queue m d else tl (dept_queue m d))"
    by (auto simp: dequeue_def Let_def user_queue_def dept_queue_def)
  show "u \<noteq> [] \<longrightarrow> queue_size m u d = int (length (user_queue m u))"
    using ok by (simp add: queue_size_def queues_ok_def)
qed

theorem waiting_queues_fifo_witness:
  "user_queue (fst (enqueue (qm_new 20000 0) ''ann'' [] 3 3)) ''ann'' = [3]"
proof -
  have r: "quota_reach (qm_new 20000 0)" by (rule quota_reach.intros)
  show ?thesis
    using waiting_queues_fifo[OF r, of "''ann''" "[]" 3 3]
    by (auto simp: user_queue_def dept_queue_def qm_new_def qs_new_def default_quotas_def
        enqueue_def can_enqueue_def split: prod.splits)
qed

text \<open>A slot that frees up for a user with an empty queue wakes nobody of the user's department.\<close>

lemma notify_ignores_department:
  assumes "quota_reach m" and "u \<noteq> []" and "user_queue m u = []"
  shows "notify_next m u d = (m, False)"
  using queues_ok_reach[OF assms(1)] assms(2,3) by (simp add: notify_next_def queue_size_def queues_ok_def)

end
