(* ===== verification/Cost_Tracker.thy ===== *)
theory Cost_Tracker
  imports Quota
begin

section \<open>Cost tracking (core/cost_tracker.py)\<close>

text \<open>
  The cost of each model call, totals per task, the report to the quota manager, a buffer of
  the recent calls and the anomaly alerts with their suppression window. Costs are exact.
  An operation reads the clock once (\<open>now\<close> in seconds, \<open>dt\<close> the same in microseconds).
\<close>

subsection \<open>Prices and decimal texts\<close>

definition model_pricing :: "(string \<times> rat \<times> rat) list" where
  "model_pricing =
     [(''claude-sonnet-4-20250514'', 3, 15), (''claude-sonnet'', 3, 15),
      (''claude-haiku-4-5-20251001'', 1/4, 5/4), (''claude-haiku'', 1/4, 5/4), (''default'', 3, 15)]"

definition estimate_cost :: "string \<Rightarrow> int \<Rightarrow> int \<Rightarrow> rat" where
  "estimate_cost model input_tokens output_tokens =
     (let pricing = (case find (\<lambda>(key, p). str_in key model) model_pricing of
                       Some (key, p) \<Rightarrow> p | None \<Rightarrow> (3, 15))
      in of_int input_tokens / 1000000 * fst pricing + of_int output_tokens / 1000000 * snd pricing)"

text \<open>\<open>round(x, 4)\<close>.\<close>

definition round4 :: "rat \<Rightarrow> rat" where
  "round4 x = of_int (round_half_even (x * 10000)) / 10000"

text \<open>\<open>s.split(" by ")[-1]\<close>: what follows the last separator, scanning from the left.\<close>

function after_last_by :: "string \<Rightarrow> string \<Rightarrow> string" where
  "after_last_by piece s =
     (if s = [] then piece
      else if prefix '' by '' s then after_last_by (drop 4 s) (drop 4 s)
      else after_last_by piece (tl s))"
  by pat_completeness auto
termination by (relation "measure (\<lambda>(piece, s). length s)") auto

declare after_last_by.simps [simp del]

subsection \<open>State\<close>

record llm_call_record =
  lc_timestamp :: rat
  lc_agent_name :: string
  lc_task_id :: string
  lc_model :: string
  lc_input_tokens :: int
  lc_output_tokens :: int
  lc_cost :: rat
  lc_duration_ms :: rat
  lc_success :: bool

record task_cost_summary =
  tc_task_id :: string
  tc_agent_name :: string
  tc_user_id :: string
  tc_department_id :: string
  tc_llm_calls :: int
  tc_total_input_tokens :: int
  tc_total_output_tokens :: int
  tc_total_cost :: rat
  tc_duration_seconds :: rat
  tc_started_at :: "int option"
  tc_completed_at :: "int option"

record anomaly_alert =
  aa_alert_type :: string
  aa_severity :: string
  aa_message :: string
  aa_value :: rat
  aa_threshold :: rat
  aa_timestamp :: int

record cost_tracker =
  ct_quota_mgr :: quota_manager
  ct_task_costs :: "(string, task_cost_summary) dict"
  ct_recent_calls :: "llm_call_record list"
  ct_anomalies :: "anomaly_alert list"
  ct_max_recent_calls :: nat

definition ct_new :: "quota_manager \<Rightarrow> cost_tracker" where
  "ct_new q = \<lparr> ct_quota_mgr = q, ct_task_costs = [], ct_recent_calls = [], ct_anomalies = [],
     ct_max_recent_calls = 1000 \<rparr>"

subsection \<open>Alerts\<close>

definition should_suppress :: "anomaly_alert list \<Rightarrow> anomaly_alert \<Rightarrow> bool" where
  "should_suppress existing a =
     (let cutoff = aa_timestamp a - 300 * 1000000;
          source = (if str_in '' by '' (aa_message a) then after_last_by (aa_message a) (aa_message a) else [])
      in list_ex (\<lambda>x. aa_alert_type x = aa_alert_type a \<and>
                      after_last_by (aa_message x) (aa_message x) = source \<and>
                      aa_timestamp x > cutoff \<and> aa_severity x = aa_severity a) existing)"

definition raise_alert :: "bool \<Rightarrow> anomaly_alert \<Rightarrow> anomaly_alert list \<Rightarrow> anomaly_alert list" where
  "raise_alert cond a existing =
     (if cond \<and> \<not> should_suppress existing a then existing @ [a] else existing)"

definition check_anomalies ::
  "anomaly_alert list \<Rightarrow> llm_call_record \<Rightarrow> task_cost_summary \<Rightarrow> int \<Rightarrow> anomaly_alert list" where
  "check_anomalies existing call summary dt =
     (let a1 = \<lparr> aa_alert_type = ''cost_spike'', aa_severity = ''warning'',
            aa_message = ''Expensive LLM call: $'' @ fixed_dec 4 (lc_cost call) @ '' by '' @ lc_agent_name call,
            aa_value = lc_cost call, aa_threshold = 1, aa_timestamp = dt \<rparr>;
          a2 = \<lparr> aa_alert_type = ''cost_spike'', aa_severity = ''warning'',
            aa_message = ''Task '' @ tc_task_id summary @ '' cost $'' @ fixed_dec 4 (tc_total_cost summary),
            aa_value = tc_total_cost summary, aa_threshold = 5, aa_timestamp = dt \<rparr>;
          a3 = \<lparr> aa_alert_type = ''token_surge'', aa_severity = ''info'',
            aa_message = ''Large input: '' @ show_int (lc_input_tokens call) @ '' tokens by '' @ lc_agent_name call,
            aa_value = of_int (lc_input_tokens call), aa_threshold = 50000, aa_timestamp = dt \<rparr>
      in raise_alert (lc_input_tokens call > 50000) a3
           (raise_alert (tc_total_cost summary > 5) a2
             (raise_alert (lc_cost call > 1) a1 existing)))"

subsection \<open>Operations\<close>

text \<open>The arguments of \<open>record_call\<close>.\<close>

record call_args =
  ca_agent_name :: string
  ca_task_id :: string
  ca_model :: string
  ca_input_tokens :: int
  ca_output_tokens :: int
  ca_duration_ms :: rat
  ca_success :: bool
  ca_user_id :: string
  ca_department_id :: string

definition call_record :: "call_args \<Rightarrow> rat \<Rightarrow> llm_call_record" where
  "call_record a now =
     \<lparr> lc_timestamp = now, lc_agent_name = ca_agent_name a, lc_task_id = ca_task_id a, lc_model = ca_model a,
       lc_input_tokens = ca_input_tokens a, lc_output_tokens = ca_output_tokens a,
       lc_cost = estimate_cost (ca_model a) (ca_input_tokens a) (ca_output_tokens a),
       lc_duration_ms = ca_duration_ms a, lc_success = ca_success a \<rparr>"

definition new_summary :: "call_args \<Rightarrow> task_cost_summary" where
  "new_summary a =
     \<lparr> tc_task_id = ca_task_id a, tc_agent_name = ca_agent_name a, tc_user_id = ca_user_id a,
       tc_department_id = ca_department_id a, tc_llm_calls = 0, tc_total_input_tokens = 0,
       tc_total_output_tokens = 0, tc_total_cost = 0, tc_duration_seconds = 0, tc_started_at = None,
       tc_completed_at = None \<rparr>"

definition record_call :: "cost_tracker \<Rightarrow> call_args \<Rightarrow> int \<Rightarrow> rat \<Rightarrow> int \<Rightarrow> cost_tracker \<times> llm_call_record" where
  "record_call ct a today now dt =
     (let r = call_record a now;
          s0 = dict_get_or (ct_task_costs ct) (ca_task_id a) (new_summary a);
          s1 = s0\<lparr>tc_llm_calls := tc_llm_calls s0 + 1,
                  tc_total_input_tokens := tc_total_input_tokens s0 + ca_input_tokens a,
                  tc_total_output_tokens := tc_total_output_tokens s0 + ca_output_tokens a,
                  tc_total_cost := tc_total_cost s0 + lc_cost r\<rparr>;
          usage = \<lparr> ur_timestamp = now, ur_user_id = (if ca_user_id a = [] then ca_agent_name a else ca_user_id a),
                    ur_department_id = ca_department_id a, ur_agent_name = ca_agent_name a,
                    ur_task_id = ca_task_id a, ur_tokens_input = ca_input_tokens a,
                    ur_tokens_output = ca_output_tokens a, ur_cost = lc_cost r, ur_action = ''llm_call'' \<rparr>;
          calls = ct_recent_calls ct @ [r];
          calls' = (if length calls > ct_max_recent_calls ct
                    then last_slice (int (ct_max_recent_calls ct)) calls else calls)
      in (ct\<lparr>ct_task_costs := dict_set (ct_task_costs ct) (ca_task_id a) s1,
             ct_quota_mgr := qm_record_usage (ct_quota_mgr ct) usage today,
             ct_recent_calls := calls',
             ct_anomalies := check_anomalies (ct_anomalies ct) r s1 dt\<rparr>, r))"

definition get_task_summary :: "cost_tracker \<Rightarrow> string \<Rightarrow> task_cost_summary option" where
  "get_task_summary ct tid = dict_get (ct_task_costs ct) tid"

definition get_agent_costs :: "cost_tracker \<Rightarrow> string \<Rightarrow> rat" where
  "get_agent_costs ct agent =
     sum_list (map tc_total_cost (filter (\<lambda>s. tc_agent_name s = agent) (dict_values (ct_task_costs ct))))"

definition get_total_costs :: "cost_tracker \<Rightarrow> rat" where
  "get_total_costs ct = sum_list (map tc_total_cost (dict_values (ct_task_costs ct)))"

definition severity_rank :: "string \<Rightarrow> int" where
  "severity_rank s = dict_get_or [(''info'', 0), (''warning'', 1), (''critical'', 2)] s 0"

definition get_recent_alerts :: "cost_tracker \<Rightarrow> string \<Rightarrow> anomaly_alert list" where
  "get_recent_alerts ct min_severity =
     filter (\<lambda>a. severity_rank (aa_severity a) \<ge> severity_rank min_severity) (ct_anomalies ct)"

record cost_stats =
  cst_total_cost :: rat
  cst_total_calls :: nat
  cst_total_tasks :: nat
  cst_recent_alerts :: nat
  cst_agents :: "string set"

text \<open>\<open>list(set(...))\<close> has no specified order: the agents are a set.\<close>

definition get_cost_stats :: "cost_tracker \<Rightarrow> cost_stats" where
  "get_cost_stats ct =
     \<lparr> cst_total_cost = round4 (get_total_costs ct), cst_total_calls = length (ct_recent_calls ct),
       cst_total_tasks = length (ct_task_costs ct), cst_recent_alerts = length (ct_anomalies ct),
       cst_agents = set (map tc_agent_name (dict_values (ct_task_costs ct))) \<rparr>"

subsection \<open>The books agree\<close>

text \<open>A call with the date and the time it is recorded at.\<close>

record timed_call =
  tm_args :: call_args
  tm_today :: int
  tm_now :: rat
  tm_dt :: int

definition record_timed :: "cost_tracker \<Rightarrow> timed_call \<Rightarrow> cost_tracker" where
  "record_timed ct c = fst (record_call ct (tm_args c) (tm_today c) (tm_now c) (tm_dt c))"

definition record_all :: "cost_tracker \<Rightarrow> timed_call list \<Rightarrow> cost_tracker" where
  "record_all ct cs = foldl record_timed ct cs"

definition call_cost :: "timed_call \<Rightarrow> rat" where
  "call_cost c = estimate_cost (ca_model (tm_args c)) (ca_input_tokens (tm_args c)) (ca_output_tokens (tm_args c))"

definition calls_of :: "timed_call list \<Rightarrow> string \<Rightarrow> timed_call list" where
  "calls_of cs tid = filter (\<lambda>c. ca_task_id (tm_args c) = tid) cs"

text \<open>The calls since the date last changed.\<close>

definition last_day :: "timed_call list \<Rightarrow> timed_call list" where
  "last_day cs = rev (takeWhile (\<lambda>c. tm_today c = tm_today (last cs)) (rev cs))"

lemma record_all_snoc [simp]: "record_all ct (cs @ [c]) = record_timed (record_all ct cs) c"
  by (simp add: record_all_def)

lemma record_all_empty [simp]: "record_all ct [] = ct"
  by (simp add: record_all_def)

lemma last_day_snoc:
  "last_day (cs @ [c]) = (if cs \<noteq> [] \<and> tm_today (last cs) = tm_today c then last_day cs else []) @ [c]"
  by (cases cs rule: rev_cases) (auto simp: last_day_def)

lemma task_total_set:
  "dict_ok d \<Longrightarrow> sum_list (map f (dict_values (dict_set d k s))) =
     sum_list (map f (dict_values d)) + f s - (case dict_get d k of None \<Rightarrow> 0 | Some w \<Rightarrow> f w)"
  for f :: "task_cost_summary \<Rightarrow> rat"
  by (induction d) (auto simp: dict_values_def map_of_eq_None_iff)

lemma record_timed_fields:
  defines "summary \<equiv> \<lambda>ct c. dict_get_or (ct_task_costs ct) (ca_task_id (tm_args c)) (new_summary (tm_args c))"
  shows "ct_task_costs (record_timed ct c) = dict_set (ct_task_costs ct) (ca_task_id (tm_args c))
      ((summary ct c)\<lparr>tc_llm_calls := tc_llm_calls (summary ct c) + 1,
         tc_total_input_tokens := tc_total_input_tokens (summary ct c) + ca_input_tokens (tm_args c),
         tc_total_output_tokens := tc_total_output_tokens (summary ct c) + ca_output_tokens (tm_args c),
         tc_total_cost := tc_total_cost (summary ct c) + call_cost c\<rparr>)"
    and "ct_max_recent_calls (record_timed ct c) = ct_max_recent_calls ct"
    and "system_now (qm_store (ct_quota_mgr (record_timed ct c))) (tm_today c) =
      (system_now (qm_store (ct_quota_mgr ct)) (tm_today c))
        \<lparr>us_tokens_input := us_tokens_input (system_now (qm_store (ct_quota_mgr ct)) (tm_today c)) + ca_input_tokens (tm_args c),
         us_tokens_output := us_tokens_output (system_now (qm_store (ct_quota_mgr ct)) (tm_today c)) + ca_output_tokens (tm_args c),
         us_total_cost := us_total_cost (system_now (qm_store (ct_quota_mgr ct)) (tm_today c)) + call_cost c,
         us_total_requests := us_total_requests (system_now (qm_store (ct_quota_mgr ct)) (tm_today c)) + 1\<rparr>"
    and "qs_today (qm_store (ct_quota_mgr (record_timed ct c))) = tm_today c"
    and "ct_recent_calls (record_timed ct c) =
      (let calls = ct_recent_calls ct @ [call_record (tm_args c) (tm_now c)] in
       if length calls > ct_max_recent_calls ct then last_slice (int (ct_max_recent_calls ct)) calls else calls)"
  by (simp_all add: summary_def record_timed_def record_call_def Let_def call_record_def call_cost_def
      qm_record_usage_def record_usage_now add_usage_def)

lemma task_books:
  "dict_ok (ct_task_costs (record_all (ct_new m) cs)) \<and>
   sum_list (map tc_total_cost (dict_values (ct_task_costs (record_all (ct_new m) cs)))) = sum_list (map call_cost cs)"
proof (induction cs rule: rev_induct)
  case Nil
  then show ?case by (simp add: ct_new_def dict_values_def)
next
  case (snoc c cs)
  then have "dict_ok (ct_task_costs (record_all (ct_new m) cs))" by simp
  with snoc show ?case
    by (simp add: record_timed_fields(1) task_total_set dict_get_or_def new_summary_def split: option.split)
qed

lemma task_summary_books:
  "case get_task_summary (record_all (ct_new m) cs) tid of
     None \<Rightarrow> calls_of cs tid = []
   | Some s \<Rightarrow> calls_of cs tid \<noteq> [] \<and> tc_agent_name s = ca_agent_name (tm_args (hd (calls_of cs tid))) \<and>
       tc_llm_calls s = int (length (calls_of cs tid)) \<and>
       tc_total_cost s = sum_list (map call_cost (calls_of cs tid))"
proof (induction cs rule: rev_induct)
  case Nil
  then show ?case by (simp add: get_task_summary_def ct_new_def calls_of_def)
next
  case (snoc c cs)
  show ?case
    using snoc
    by (cases "ca_task_id (tm_args c) = tid")
       (auto simp: get_task_summary_def record_timed_fields(1) calls_of_def dict_get_or_def new_summary_def
          hd_append split: option.splits)
qed

lemma system_books:
  "us_total_cost (get_system_usage (ct_quota_mgr (record_all (ct_new (qm_new d n)) cs))) = sum_list (map call_cost (last_day cs)) \<and>
   us_total_requests (get_system_usage (ct_quota_mgr (record_all (ct_new (qm_new d n)) cs))) = int (length (last_day cs)) \<and>
   (cs \<noteq> [] \<longrightarrow> qs_today (qm_store (ct_quota_mgr (record_all (ct_new (qm_new d n)) cs))) = tm_today (last cs))"
proof (induction cs rule: rev_induct)
  case Nil
  then show ?case by (simp add: get_system_usage_def ct_new_def qm_new_def qs_new_def new_snapshot_def last_day_def)
next
  case (snoc c cs)
  let ?q = "qm_store (ct_quota_mgr (record_all (ct_new (qm_new d n)) cs))"
  have "us_total_cost (system_now ?q (tm_today c)) =
      (if cs \<noteq> [] \<and> tm_today (last cs) = tm_today c then sum_list (map call_cost (last_day cs)) else 0) \<and>
    us_total_requests (system_now ?q (tm_today c)) =
      (if cs \<noteq> [] \<and> tm_today (last cs) = tm_today c then int (length (last_day cs)) else 0)"
  proof (cases "cs = []")
    case True
    then show ?thesis
      by (simp add: system_now_def check_reset_def ct_new_def qm_new_def qs_new_def new_snapshot_def)
  next
    case False
    with snoc show ?thesis
      by (simp add: system_now_def check_reset_def get_system_usage_def new_snapshot_def)
  qed
  then show ?case
    by (simp add: get_system_usage_def record_timed_fields(3,4) system_now_today last_day_snoc)
qed

lemma recent_books:
  "ct_recent_calls (record_all (ct_new m) cs) =
     drop (length cs - 1000) (map (\<lambda>c. call_record (tm_args c) (tm_now c)) cs) \<and>
   ct_max_recent_calls (record_all (ct_new m) cs) = 1000"
proof (induction cs rule: rev_induct)
  case Nil
  then show ?case by (simp add: ct_new_def)
next
  case (snoc c cs)
  have "Suc (length cs - 1000) = length cs - 999" if "999 < length cs - (length cs - 1000)"
    using that by simp
  with snoc show ?case
    by (auto simp: record_timed_fields(2,5) Let_def last_slice_def)
qed

text \<open>C36: The books agree. Whatever calls were recorded, the total is the sum of the costs of the calls, a
  task's summary is that of its own calls, the quota manager has the calls since the date last
  changed, and the buffer has the last 1000 calls.\<close>

theorem costs_agree:
  "let ct = record_all (ct_new (qm_new d n)) cs in
   get_total_costs ct = sum_list (map call_cost cs) \<and>
   (case get_task_summary ct tid of
      None \<Rightarrow> calls_of cs tid = []
    | Some s \<Rightarrow> calls_of cs tid \<noteq> [] \<and> tc_agent_name s = ca_agent_name (tm_args (hd (calls_of cs tid))) \<and>
        tc_llm_calls s = int (length (calls_of cs tid)) \<and>
        tc_total_cost s = sum_list (map call_cost (calls_of cs tid))) \<and>
   us_total_cost (get_system_usage (ct_quota_mgr ct)) = sum_list (map call_cost (last_day cs)) \<and>
   us_total_requests (get_system_usage (ct_quota_mgr ct)) = int (length (last_day cs)) \<and>
   ct_recent_calls ct = drop (length cs - 1000) (map (\<lambda>c. call_record (tm_args c) (tm_now c)) cs)"
  using task_books[where m = "qm_new d n"] task_summary_books[where m = "qm_new d n"] system_books
    recent_books[where m = "qm_new d n"]
  by (simp add: Let_def get_total_costs_def)

subsection \<open>Which alerts are suppressed\<close>

lemma after_last_by_plain: "\<not> str_in '' by '' s \<Longrightarrow> after_last_by piece s = piece"
proof (induction s)
  case Nil
  then show ?case by (simp add: after_last_by.simps)
next
  case (Cons c s)
  then have "\<not> prefix '' by '' (c # s)" and "\<not> str_in '' by '' s" by (simp_all only: str_in.simps, simp_all)
  with Cons.IH show ?case by (subst after_last_by.simps) (simp only: if_False list.sel list.distinct not_False_eq_True simp_thms)
qed

text \<open>A task that goes on past five dollars gets an alert for every call: the source of a message
  without \<open>by\<close> is compared as the empty text with the whole of the earlier message.\<close>

lemma task_alert_repeats:
  assumes "\<not> str_in '' by '' (aa_message a)" and "\<forall>x \<in> set existing. aa_message x = aa_message a" and "aa_message a \<noteq> []"
  shows "\<not> should_suppress existing a"
  using assms by (auto simp: should_suppress_def list_ex_iff after_last_by_plain)

end
