(* ===== verification/Time_Handling.thy ===== *)
theory Time_Handling
  imports Py_Time
begin

section \<open>Working time (core/time/handling.py)\<close>

text \<open>
  Zones by name, the calendar of holidays, working hours and the next working moment. A date is
  the number of its day, a time of day the microseconds from midnight. The zone database is the
  parameter \<open>db\<close>: what \<open>zoneinfo.ZoneInfo\<close> returns, \<^const>\<open>None\<close> when it raises. \<open>now\<close> is the UTC
  clock.
\<close>

subsection \<open>Zones\<close>

definition hour_us :: int where
  "hour_us = 3600000000"

definition fixed_offsets :: "(string \<times> zone) list" where
  "fixed_offsets =
     [(''UTC'', utc_zone), (''Etc/UTC'', utc_zone),
      (''Asia/Shanghai'', fixed_zone ''+8'' (8 * hour_us)), (''Asia/Tokyo'', fixed_zone ''+9'' (9 * hour_us)),
      (''Asia/Kolkata'', fixed_zone ''+5:30'' (5 * hour_us + hour_us div 2)),
      (''Europe/London'', utc_zone),
      (''America/New_York'', fixed_zone ''-5'' (-5 * hour_us)),
      (''America/Los_Angeles'', fixed_zone ''-8'' (-8 * hour_us))]"

definition resolve_timezone :: "(string \<Rightarrow> zone option) \<Rightarrow> string \<Rightarrow> zone" where
  "resolve_timezone db tz_name =
     (case dict_get fixed_offsets tz_name of
        Some z \<Rightarrow> z
      | None \<Rightarrow> (case db tz_name of Some z \<Rightarrow> z | None \<Rightarrow> utc_zone))"

record timezone_handler =
  th_tz :: zone
  th_tz_name :: string

definition th_new :: "(string \<Rightarrow> zone option) \<Rightarrow> string \<Rightarrow> timezone_handler" where
  "th_new db tz_name = \<lparr> th_tz = resolve_timezone db tz_name, th_tz_name = tz_name \<rparr>"

definition now_utc :: "int \<Rightarrow> datetime" where
  "now_utc now = in_zone utc_zone now"

definition now_local :: "timezone_handler \<Rightarrow> int \<Rightarrow> datetime" where
  "now_local th now = in_zone (th_tz th) now"

definition to_local :: "timezone_handler \<Rightarrow> datetime \<Rightarrow> datetime" where
  "to_local th d = astimezone (case dt_tz d of None \<Rightarrow> utc_zone | Some z \<Rightarrow> z) (th_tz th) d"

definition to_utc :: "timezone_handler \<Rightarrow> datetime \<Rightarrow> datetime" where
  "to_utc th d = astimezone (case dt_tz d of None \<Rightarrow> th_tz th | Some z \<Rightarrow> z) utc_zone d"

definition offset_hours :: "timezone_handler \<Rightarrow> int \<Rightarrow> rat" where
  "offset_hours th now =
     (let d = now_local th now in of_int (zn_offset (th_tz th) (dt_wall d) (dt_fold d)) / 1000000 / 3600)"

subsection \<open>Holidays and working days\<close>

definition default_holidays :: "int list" where
  "default_holidays =
     [days_of_civil 2026 1 1, days_of_civil 2026 2 17, days_of_civil 2026 4 5, days_of_civil 2026 5 1,
      days_of_civil 2026 10 1]"

type_synonym holiday_calendar = "int list"

definition hc_new :: "int list \<Rightarrow> holiday_calendar" where
  "hc_new holidays = remdups (if holidays = [] then default_holidays else holidays)"

definition add_holiday :: "holiday_calendar \<Rightarrow> int \<Rightarrow> holiday_calendar" where
  "add_holiday cal d = List.insert d cal"

definition is_holiday :: "holiday_calendar \<Rightarrow> int \<Rightarrow> bool" where
  "is_holiday cal d = (d \<in> set cal)"

definition is_workday :: "holiday_calendar \<Rightarrow> int \<Rightarrow> bool" where
  "is_workday cal d = (weekday d < 5 \<and> \<not> is_holiday cal d)"

function count_loop :: "holiday_calendar \<Rightarrow> int \<Rightarrow> int \<Rightarrow> nat \<Rightarrow> nat" where
  "count_loop cal d last_day count =
     (if d \<le> last_day
      then count_loop cal (d + 1) last_day (if is_workday cal d then count + 1 else count)
      else count)"
  by pat_completeness auto
termination by (relation "measure (\<lambda>(cal, d, last_day, count). nat (last_day + 1 - d))") auto

declare count_loop.simps [simp del]

definition count_workdays_between :: "holiday_calendar \<Rightarrow> int \<Rightarrow> int \<Rightarrow> nat" where
  "count_workdays_between cal start_day end_day =
     (if end_day < start_day then 0 else count_loop cal start_day end_day 0)"

subsection \<open>Working hours\<close>

datatype work_urgency = WU_HIGH | WU_NORMAL | WU_LOW

record working_hours =
  wh_tz :: timezone_handler
  wh_work_start :: int
  wh_work_end :: int
  wh_calendar :: holiday_calendar

text \<open>The code tests \<open>calendar or HolidayCalendar()\<close>; an object without \<open>__len__\<close> is true.\<close>

definition wh_new :: "timezone_handler \<Rightarrow> int \<Rightarrow> int \<Rightarrow> holiday_calendar option \<Rightarrow> working_hours" where
  "wh_new th ws we cal =
     \<lparr> wh_tz = th, wh_work_start = ws, wh_work_end = we,
       wh_calendar = (case cal of None \<Rightarrow> hc_new [] | Some c \<Rightarrow> c) \<rparr>"

definition is_working_time :: "working_hours \<Rightarrow> datetime option \<Rightarrow> int \<Rightarrow> bool" where
  "is_working_time wh when now =
     (let d = (case when of None \<Rightarrow> now_local (wh_tz wh) now | Some d \<Rightarrow> d);
          loc = (case dt_tz d of None \<Rightarrow> d | Some _ \<Rightarrow> to_local (wh_tz wh) d)
      in if \<not> is_workday (wh_calendar wh) (dt_date loc) then False
         else wh_work_start wh \<le> dt_time loc \<and> dt_time loc \<le> wh_work_end wh)"

definition should_notify_now :: "working_hours \<Rightarrow> datetime option \<Rightarrow> work_urgency \<Rightarrow> int \<Rightarrow> bool" where
  "should_notify_now wh when urgency now =
     (if urgency = WU_HIGH then True else is_working_time wh when now)"

text \<open>\<open>d.replace(hour=..., minute=..., second=0, microsecond=0)\<close> with the hour and the minute of a time.\<close>

definition at_minute_of :: "datetime \<Rightarrow> int \<Rightarrow> datetime" where
  "at_minute_of d t = d\<lparr>dt_wall := dt_date d * day_us + (t div 60000000) * 60000000\<rparr>"

fun next_workday :: "nat \<Rightarrow> working_hours \<Rightarrow> datetime \<Rightarrow> datetime option" where
  "next_workday 0 wh candidate = None"
| "next_workday (Suc n) wh candidate =
     (let c = at_minute_of (dt_add_days candidate 1) (wh_work_start wh) in
      if is_workday (wh_calendar wh) (dt_date c) then Some c else next_workday n wh c)"

definition next_working_moment :: "working_hours \<Rightarrow> datetime option \<Rightarrow> int \<Rightarrow> datetime" where
  "next_working_moment wh after now =
     (let d = (case after of None \<Rightarrow> now_local (wh_tz wh) now | Some d \<Rightarrow> d) in
      if is_working_time wh (Some d) now then to_utc (wh_tz wh) d
      else case next_workday 14 wh d of
             Some c \<Rightarrow> to_utc (wh_tz wh) c
           | None \<Rightarrow> to_utc (wh_tz wh) (dt_add_days d 1))"

definition default_timeouts :: "(string \<times> int) list" where
  "default_timeouts =
     [(''quick'', 60), (''standard'', 300), (''complex'', 1800), (''long'', 7200), (''batch'', 86400)]"

definition get_timeout_for :: "string \<Rightarrow> int" where
  "get_timeout_for task_type = dict_get_or default_timeouts task_type 300"

definition is_within_work_hours ::
  "(string \<Rightarrow> zone option) \<Rightarrow> datetime option \<Rightarrow> string \<Rightarrow> holiday_calendar option \<Rightarrow> int \<Rightarrow> int \<Rightarrow> int \<Rightarrow> bool" where
  "is_within_work_hours db when tz_name cal ws we now =
     is_working_time (wh_new (th_new db tz_name) ws we cal) when now"

subsection \<open>Counting working days\<close>

lemma finite_days [simp]:
  "finite {x :: int. a \<le> x \<and> x \<le> b \<and> P x}" "finite {x :: int. a \<le> x \<and> x < b \<and> P x}"
  by (rule finite_subset[of _ "{a..b}"]; auto)+

lemma days_from: "d \<le> l \<Longrightarrow> {d..l} = insert d {d + 1..l}" for d l :: int
  by auto

lemma count_loop_card:
  "count_loop cal d l count = count + card {x \<in> {d..l}. is_workday cal x}"
proof (induction cal d l count rule: count_loop.induct)
  case (1 cal d l count)
  show ?case
  proof (cases "d \<le> l")
    case True
    have "{x \<in> {d..l}. is_workday cal x} =
        (if is_workday cal d then insert d {x \<in> {d + 1..l}. is_workday cal x} else {x \<in> {d + 1..l}. is_workday cal x})"
      using True by (auto simp: days_from)
    with True 1 show ?thesis by (simp add: count_loop.simps[of cal d])
  next
    case False
    then show ?thesis by (simp add: count_loop.simps)
  qed
qed

lemma weekdays_of_week: "card {x \<in> {d..d + 6}. weekday x < 5} = 5"
proof -
  have "bij_betw weekday {x \<in> {d..d + 6}. weekday x < 5} {0..<5}"
  proof (rule bij_betw_byWitness[where f' = "\<lambda>w. d + (w - weekday d) mod 7"])
    show "\<forall>x \<in> {x \<in> {d..d + 6}. weekday x < 5}. d + (weekday x - weekday d) mod 7 = x"
    proof
      fix x assume "x \<in> {x \<in> {d..d + 6}. weekday x < 5}"
      then have "0 \<le> x - d" "x - d < 7" by auto
      then have "(x - d) mod 7 = x - d" by (rule mod_pos_pos_trivial)
      moreover have "(weekday x - weekday d) mod 7 = (x - d) mod 7"
        by (simp add: weekday_def mod_diff_eq)
      ultimately show "d + (weekday x - weekday d) mod 7 = x" by simp
    qed
    have onto: "weekday (d + (w - weekday d) mod 7) = w" if "w \<in> {0..<5}" for w
    proof -
      have "weekday (d + (w - weekday d) mod 7) = ((d + 3) + (w - (d + 3) mod 7) mod 7) mod 7"
        by (simp only: weekday_def add.assoc add.left_commute add.commute)
      also have "\<dots> = ((d + 3) + w - (d + 3) mod 7) mod 7"
        by (simp only: mod_add_right_eq add_diff_eq)
      also have "\<dots> = ((d + 3) + w - (d + 3)) mod 7" by (rule mod_diff_right_eq)
      finally have "weekday (d + (w - weekday d) mod 7) = w mod 7" by (simp only: add_diff_cancel_left')
      with that show ?thesis by simp
    qed
    then show "\<forall>w \<in> {0..<5}. weekday (d + (w - weekday d) mod 7) = w" by blast
    show "weekday ` {x \<in> {d..d + 6}. weekday x < 5} \<subseteq> {0..<5}" by (auto simp: weekday_def)
    show "(\<lambda>w. d + (w - weekday d) mod 7) ` {0..<5} \<subseteq> {x \<in> {d..d + 6}. weekday x < 5}"
    proof
      fix x assume "x \<in> (\<lambda>w. d + (w - weekday d) mod 7) ` {0..<5}"
      then obtain w where w: "w \<in> {0..<5}" and x: "x = d + (w - weekday d) mod 7" by blast
      have "0 \<le> (w - weekday d) mod 7" "(w - weekday d) mod 7 < 7" by simp_all
      with x onto[OF w] w show "x \<in> {x \<in> {d..d + 6}. weekday x < 5}" by auto
    qed
  qed
  then show ?thesis by (simp add: bij_betw_same_card)
qed

lemma weekdays_of_weeks: "card {x \<in> {d..<d + 7 * int n}. weekday x < 5} = 5 * n"
proof (induction n)
  case 0
  then show ?case by simp
next
  case (Suc n)
  define e where "e = d + 7 * int n"
  have e: "d \<le> e" "d + 7 * int (Suc n) = e + 7" by (simp_all add: e_def)
  have "{x \<in> {d..<e + 7}. weekday x < 5} = {x \<in> {d..<e}. weekday x < 5} \<union> {x \<in> {e..e + 6}. weekday x < 5}"
    using e(1) by auto
  moreover have "{x \<in> {d..<e}. weekday x < 5} \<inter> {x \<in> {e..e + 6}. weekday x < 5} = {}" by auto
  ultimately have "card {x \<in> {d..<e + 7}. weekday x < 5} =
      card {x \<in> {d..<e}. weekday x < 5} + card {x \<in> {e..e + 6}. weekday x < 5}"
    using card_Un_disjoint[of "{x \<in> {d..<e}. weekday x < 5}" "{x \<in> {e..e + 6}. weekday x < 5}"] by simp
  then show ?case by (simp only: e(2) Suc[folded e_def] weekdays_of_week mult_Suc_right add.commute)
qed

text \<open>The number of working days is the number of weekdays in the closed interval that are no holidays,
  and n whole weeks without a holiday have 5 n of them.\<close>

theorem workdays_exact:
  "count_workdays_between cal s e = card {x. s \<le> x \<and> x \<le> e \<and> weekday x < 5 \<and> x \<notin> set cal} \<and>
   ((\<forall>x \<in> set cal. x < s \<or> s + 7 * int n \<le> x) \<longrightarrow> count_workdays_between cal s (s + 7 * int n - 1) = 5 * n)"
proof -
  have count: "count_workdays_between cal s e = card {x \<in> {s..e}. is_workday cal x}" for e
    by (simp add: count_workdays_between_def count_loop_card)
  have "count_workdays_between cal s (s + 7 * int n - 1) = 5 * n" if "\<forall>x \<in> set cal. x < s \<or> s + 7 * int n \<le> x"
  proof -
    have "{x \<in> {s..s + 7 * int n - 1}. is_workday cal x} = {x \<in> {s..<s + 7 * int n}. weekday x < 5}"
      using that by (fastforce simp: is_workday_def is_holiday_def)
    then show ?thesis by (simp only: count weekdays_of_weeks)
  qed
  then show ?thesis
    by (simp add: count is_workday_def is_holiday_def conj_assoc)
qed

theorem workdays_exact_witness:
  "count_workdays_between (hc_new []) 0 (0 + 7 * int 2 - 1) = 5 * 2"
proof -
  have "\<forall>x \<in> set (hc_new []). x < 0 \<or> 0 + 7 * int 2 \<le> x" by code_simp
  then show ?thesis using workdays_exact[of "hc_new []" 0 0 2] by blast
qed

subsection \<open>The next working moment\<close>

lemma at_minute_simps:
  assumes "0 \<le> t" "t < day_us"
  shows "dt_date (at_minute_of d t) = dt_date d" and "dt_tz (at_minute_of d t) = dt_tz d"
    and "dt_fold (at_minute_of d t) = dt_fold d"
    and "dt_wall (at_minute_of d t) = dt_date d * day_us + (t div 60000000) * 60000000"
proof -
  have "0 \<le> (t div 60000000) * 60000000" "(t div 60000000) * 60000000 < day_us"
    using assms by (simp_all add: day_us_def)
  then show "dt_date (at_minute_of d t) = dt_date d"
    using dt_date_at by (simp add: at_minute_of_def dt_date_def)
qed (simp_all add: at_minute_of_def)

lemma next_workday_first:
  assumes t: "0 \<le> wh_work_start wh" "wh_work_start wh < day_us"
    and k: "0 < k" "k \<le> n" "is_workday (wh_calendar wh) (dt_date d + int k)"
    and min: "\<And>j. 0 < j \<Longrightarrow> j < k \<Longrightarrow> \<not> is_workday (wh_calendar wh) (dt_date d + int j)"
  shows "next_workday n wh d = Some (at_minute_of (dt_add_days d (int k)) (wh_work_start wh))"
  using k min
proof (induction n arbitrary: d k)
  case 0
  then show ?case by simp
next
  case (Suc n)
  let ?c = "at_minute_of (dt_add_days d 1) (wh_work_start wh)"
  have date: "dt_date ?c = dt_date d + 1" by (simp add: at_minute_simps[OF t])
  show ?case
  proof (cases "k = 1")
    case True
    with Suc.prems date show ?thesis by (simp add: Let_def)
  next
    case False
    with Suc.prems(1) have k1: "0 < k - 1" "int (k - 1) = int k - 1" by (simp_all add: of_nat_diff)
    have "\<not> is_workday (wh_calendar wh) (dt_date d + 1)" using Suc.prems(4)[of 1] False Suc.prems(1) by simp
    then have "next_workday (Suc n) wh d = next_workday n wh ?c" by (simp add: Let_def date)
    also have "\<dots> = Some (at_minute_of (dt_add_days ?c (int (k - 1))) (wh_work_start wh))"
    proof (rule Suc.IH[OF k1(1)])
      show "k - 1 \<le> n" using Suc.prems(2) by simp
      show "is_workday (wh_calendar wh) (dt_date ?c + int (k - 1))" using Suc.prems(3) by (simp only: date k1) simp
      show "\<not> is_workday (wh_calendar wh) (dt_date ?c + int j)" if "0 < j" "j < k - 1" for j
        using Suc.prems(4)[of "j + 1"] that by (simp add: date ac_simps)
    qed
    also have "at_minute_of (dt_add_days ?c (int (k - 1))) (wh_work_start wh) =
        at_minute_of (dt_add_days d (int k)) (wh_work_start wh)"
      by (rule datetime.equality)
         (simp_all only: at_minute_simps[OF t] date k1 dt_date_add, simp_all add: dt_add_days_def at_minute_of_def)
    finally show ?thesis .
  qed
qed

text \<open>The conversions keep the instant.\<close>

lemma utc_zone_laws: "zone_laws utc_zone"
  unfolding utc_zone_def by (rule fixed_laws.zone_laws_axioms)

lemma to_utc_instant:
  assumes "dt_tz d = Some z" and "zn_id z = ''UTC'' \<Longrightarrow> z = utc_zone"
  shows "dt_tz (to_utc th d) = Some utc_zone" and "dt_wall (to_utc th d) = utc_of z d"
  using assms by (auto simp: to_utc_def astimezone_def utc_zone_def in_zone_def utc_of_def)

lemma to_local_wall:
  assumes "dt_tz d = Some utc_zone" and "zn_id (th_tz th) = ''UTC'' \<Longrightarrow> th_tz th = utc_zone"
  shows "to_local th d = (if th_tz th = utc_zone then d else in_zone (th_tz th) (dt_wall d))"
proof (cases "th_tz th = utc_zone")
  case True
  then show ?thesis using assms(1) by (simp add: to_local_def astimezone_def)
next
  case False
  then have "zn_id (th_tz th) \<noteq> ''UTC''" using assms(2) by blast
  then show ?thesis using False assms(1) by (auto simp: to_local_def astimezone_def utc_of_def utc_zone_def)
qed

lemma working_at_instant:
  assumes "dt_tz d = Some utc_zone" and "zn_id (th_tz (wh_tz wh)) = ''UTC'' \<Longrightarrow> th_tz (wh_tz wh) = utc_zone"
  shows "is_working_time wh (Some d) now \<longleftrightarrow> is_working_time wh None (dt_wall d)"
proof -
  have self: "to_local (wh_tz wh) (in_zone (th_tz (wh_tz wh)) u) = in_zone (th_tz (wh_tz wh)) u" for u
    by (auto simp: to_local_def astimezone_def in_zone_def split: prod.split)
  have tz: "dt_tz (in_zone z u) = Some z" for z u by (simp add: in_zone_def split: prod.split)
  have utc: "dt_date (in_zone utc_zone (dt_wall d)) = dt_date d" "dt_time (in_zone utc_zone (dt_wall d)) = dt_time d"
    by (simp_all add: in_zone_def utc_zone_def dt_date_def dt_time_def)
  show ?thesis
    using to_local_wall[of d "wh_tz wh", OF assms] assms(1)
    by (auto simp: is_working_time_def Let_def now_local_def self tz utc)
qed

lemma working_local:
  "is_working_time wh (Some (in_zone (th_tz (wh_tz wh)) now)) now' = is_working_time wh None now"
  by (auto simp: is_working_time_def Let_def now_local_def in_zone_def to_local_def astimezone_def split: prod.split)

lemma next_moment_spec:
  fixes wh :: working_hours and now :: int and k :: nat
  defines "z \<equiv> th_tz (wh_tz wh)"
  defines "begins \<equiv> (dt_date (in_zone z now) + int k) * day_us + wh_work_start wh"
  assumes law: "zone_laws z" and id: "zn_id z = ''UTC'' \<Longrightarrow> z = utc_zone"
    and ws: "0 \<le> wh_work_start wh" "wh_work_start wh < day_us" "wh_work_start wh mod 60000000 = 0"
      "wh_work_start wh \<le> wh_work_end wh"
    and k: "0 < k" "k \<le> 14" "is_workday (wh_calendar wh) (dt_date (in_zone z now) + int k)"
      "\<And>j. 0 < j \<Longrightarrow> j < k \<Longrightarrow> \<not> is_workday (wh_calendar wh) (dt_date (in_zone z now) + int j)"
    and once: "zn_from_utc z (begins - zn_offset z begins False) = (begins, False)"
  shows "dt_tz (next_working_moment wh None now) = Some utc_zone \<and>
    dt_wall (next_working_moment wh None now) =
      (if is_working_time wh None now then now else begins - zn_offset z begins False) \<and>
    is_working_time wh None (dt_wall (next_working_moment wh None now))"
proof -
  have tz: "dt_tz (in_zone z u) = Some z" for u by (simp add: in_zone_def split: prod.split)
  let ?d = "in_zone z now"
  let ?c = "at_minute_of (dt_add_days ?d (int k)) (wh_work_start wh)"
  have "wh_work_start wh div 60000000 * 60000000 = wh_work_start wh"
    using ws(3) div_mult_mod_eq[of "wh_work_start wh" 60000000] by simp
  then have c: "dt_wall ?c = begins" "dt_tz ?c = Some z" "dt_fold ?c = False"
    using tz by (simp_all add: at_minute_of_def begins_def dt_add_days_def[of ?d "int k"] flip: dt_date_add)
  have first: "next_workday 14 wh ?d = Some ?c"
    using next_workday_first[OF ws(1,2) k] by blast
  have working: "is_working_time wh None (begins - zn_offset z begins False)"
  proof -
    have "in_zone z (begins - zn_offset z begins False) = \<lparr> dt_wall = begins, dt_tz = Some z, dt_fold = False \<rparr>"
      by (simp add: in_zone_def once)
    moreover have "begins div day_us = dt_date ?d + int k" "begins mod day_us = wh_work_start wh"
      using dt_date_at[OF ws(1,2)] by (simp_all add: begins_def)
    ultimately show ?thesis
      using k(3) ws(4)
      by (simp add: is_working_time_def now_local_def z_def[symmetric] to_local_def astimezone_def
          dt_date_def dt_time_def)
  qed
  show ?thesis
  proof (cases "is_working_time wh None now")
    case True
    then have "next_working_moment wh None now = to_utc (wh_tz wh) ?d"
      using working_local[of wh now] by (simp add: next_working_moment_def now_local_def z_def)
    moreover have "utc_of z ?d = now" by (rule zone_laws.utc_of_in_zone[OF law])
    ultimately show ?thesis using to_utc_instant[OF tz id, where th = "wh_tz wh"] True by simp
  next
    case False
    then have "next_working_moment wh None now = to_utc (wh_tz wh) ?c"
      using working_local[of wh now] first by (simp add: next_working_moment_def now_local_def z_def)
    moreover have "utc_of z ?c = begins - zn_offset z begins False" by (simp add: utc_of_def c)
    ultimately show ?thesis using to_utc_instant[OF c(2) id, where th = "wh_tz wh"] False working by simp
  qed
qed

text \<open>C33: The next working moment of the clock is working time: now, when now is working time, and
  otherwise the start of work on the first working day after today, when there is one in the two
  weeks that follow. The zone may be any that keeps its laws and in which that start of work
  occurs once.\<close>

theorem next_working_moment_exact:
  fixes wh :: working_hours and now :: int and k :: nat
  defines "z \<equiv> th_tz (wh_tz wh)"
  defines "begins \<equiv> (dt_date (in_zone z now) + int k) * day_us + wh_work_start wh"
  assumes law: "zone_laws z" and id: "zn_id z = ''UTC'' \<Longrightarrow> z = utc_zone"
    and ws: "0 \<le> wh_work_start wh" "wh_work_start wh < day_us" "wh_work_start wh mod 60000000 = 0"
      "wh_work_start wh \<le> wh_work_end wh"
    and k: "0 < k" "k \<le> 14" "is_workday (wh_calendar wh) (dt_date (in_zone z now) + int k)"
      "\<And>j. 0 < j \<Longrightarrow> j < k \<Longrightarrow> \<not> is_workday (wh_calendar wh) (dt_date (in_zone z now) + int j)"
    and once: "zn_from_utc z (begins - zn_offset z begins False) = (begins, False)"
  shows "dt_tz (next_working_moment wh None now) = Some utc_zone \<and>
    dt_wall (next_working_moment wh None now) =
      (if is_working_time wh None now then now else begins - zn_offset z begins False) \<and>
    is_working_time wh None (dt_wall (next_working_moment wh None now))"
  using next_moment_spec[where wh = wh and now = now and k = k] law id ws k once unfolding z_def begins_def by blast

definition office :: "string \<Rightarrow> working_hours" where
  "office tz = wh_new (th_new (\<lambda>_. None) tz) (9 * hour_us) (18 * hour_us) None"

text \<open>Saturday 2026-06-06, 12:00 in Shanghai: the next working moment is Monday, 09:00.\<close>

theorem next_working_moment_exact_witness:
  "is_working_time (office ''Asia/Shanghai'') None
     (dt_wall (next_working_moment (office ''Asia/Shanghai'') None (days_of_civil 2026 6 6 * day_us + 4 * hour_us)))"
proof -
  let ?z = "th_tz (wh_tz (office ''Asia/Shanghai''))"
  let ?now = "days_of_civil 2026 6 6 * day_us + 4 * hour_us"
  have z: "?z = fixed_zone ''+8'' (8 * hour_us)"
    by (simp add: office_def wh_new_def th_new_def resolve_timezone_def fixed_offsets_def)
  have law: "zone_laws ?z" unfolding z by (rule fixed_laws.zone_laws_axioms)
  have id: "zn_id ?z = ''UTC'' \<Longrightarrow> ?z = utc_zone" by (simp add: z)
  have ws: "0 \<le> wh_work_start (office ''Asia/Shanghai'')" "wh_work_start (office ''Asia/Shanghai'') < day_us"
    "wh_work_start (office ''Asia/Shanghai'') mod 60000000 = 0"
    "wh_work_start (office ''Asia/Shanghai'') \<le> wh_work_end (office ''Asia/Shanghai'')"
    by (simp_all add: office_def wh_new_def hour_us_def day_us_def)
  have days: "is_workday (wh_calendar (office ''Asia/Shanghai'')) (dt_date (in_zone ?z ?now) + int 2)"
    "\<not> is_workday (wh_calendar (office ''Asia/Shanghai'')) (dt_date (in_zone ?z ?now) + int 1)"
    by code_simp+
  have gap: "\<not> is_workday (wh_calendar (office ''Asia/Shanghai'')) (dt_date (in_zone ?z ?now) + int j)"
    if "0 < j" "j < 2" for j
    using that days(2) by (cases "j = 1") simp_all
  have once: "zn_from_utc ?z (b - zn_offset ?z b False) = (b, False)" for b by (simp add: z)
  show ?thesis
    by (rule conjunct2[OF conjunct2[OF next_working_moment_exact[where k = 2, OF law id ws _ _ days(1) gap once]]])
      simp_all
qed

text \<open>Monday 2026-06-08, 07:00: the office opens at 9, and the next working moment is Tuesday.\<close>

lemma early_morning_skips_day:
  "dt_wall (next_working_moment (office ''UTC'') None (days_of_civil 2026 6 8 * day_us + 7 * hour_us)) =
     days_of_civil 2026 6 9 * day_us + 9 * hour_us"
  by code_simp

text \<open>A Saturday given in UTC: the moment is 09:00 UTC on Monday, which is no working time in New York.\<close>

lemma foreign_argument_foreign_hours:
  "let r = next_working_moment (office ''America/New_York'')
             (Some (now_utc (days_of_civil 2026 6 6 * day_us + 17 * hour_us))) 0
   in dt_wall r = days_of_civil 2026 6 8 * day_us + 9 * hour_us \<and>
      \<not> is_working_time (office ''America/New_York'') (Some r) 0"
  by code_simp

text \<open>A calendar asked for without holidays has the default ones.\<close>

lemma empty_calendar_is_default: "hc_new [] = default_holidays"
  by code_simp

end
