(* ===== verification/LLM_Router.thy ===== *)
theory LLM_Router
  imports Cost_Tracker Py_Value
begin

section \<open>Calls of language models (core/llm_router.py)\<close>

text \<open>
  The router in front of the model providers: prices, truncation of a conversation to the context window,
  one call with its retries, the loops that run the tools a model asks for, the record of each call in the
  cost tracker, mock replies, and the events of a streamed reply.

  The provider, the tools, \<open>json\<close> and the clock are parameters that act on the rest of the program
  (\<open>'x\<close>); settings from the environment are fields of \<open>router_env\<close>. A tool does not call a model itself.
\<close>

subsection \<open>Data\<close>

record llm_usage =
  lu_model :: string
  lu_input_tokens :: int
  lu_output_tokens :: int
  lu_cache_read_tokens :: int
  lu_cache_creation_tokens :: int
  lu_cost_estimate :: rat
  lu_duration_ms :: rat
  lu_num_retries :: nat
  lu_mock :: bool

definition new_usage :: "string \<Rightarrow> llm_usage" where
  "new_usage model = \<lparr> lu_model = model, lu_input_tokens = 0, lu_output_tokens = 0, lu_cache_read_tokens = 0,
     lu_cache_creation_tokens = 0, lu_cost_estimate = 0, lu_duration_ms = 0, lu_num_retries = 0, lu_mock = False \<rparr>"

datatype llm_error = TransientLLMError string | FatalLLMError string | LLMError string

record llm_config =
  lg_model :: string
  lg_max_tokens :: int
  lg_temperature :: rat

record agent_llm_config =
  al_default :: llm_config
  al_fast :: llm_config
  al_agents :: "(string, llm_config) dict"

definition get_llm_config :: "agent_llm_config \<Rightarrow> string \<Rightarrow> llm_config" where
  "get_llm_config s agent = dict_get_or (al_agents s) agent (al_default s)"

definition get_config :: "agent_llm_config \<Rightarrow> string \<Rightarrow> string option \<Rightarrow> llm_config" where
  "get_config s agent complexity =
     (let config = get_llm_config s agent in
      if complexity = Some ''simple''
      then \<lparr> lg_model = lg_model (al_fast s), lg_max_tokens = min (lg_max_tokens config) (lg_max_tokens (al_fast s)),
             lg_temperature = lg_temperature (al_fast s) \<rparr>
      else config)"

text \<open>Blocks of a reply, and the content of a message: text, a JSON value, or the blocks of an earlier reply.\<close>

datatype block = TextBlock string | ToolUseBlock string string pydict | OtherBlock

datatype content = CText string | CValue pyval | CBlocks "block list"

record message =
  ms_role :: string
  ms_content :: content

subsection \<open>Prices and limits\<close>

record pricing =
  pr_input :: rat
  pr_output :: rat
  pr_cache_read :: rat
  pr_cache_write :: rat

definition router_pricing :: "(string, pricing) dict" where
  "router_pricing =
     [(''claude-sonnet-4-20250514'', \<lparr> pr_input = 3, pr_output = 15, pr_cache_read = 3/10, pr_cache_write = 15/4 \<rparr>),
      (''claude-haiku-4-5-20251001'', \<lparr> pr_input = 1/4, pr_output = 5/4, pr_cache_read = 3/100, pr_cache_write = 3/10 \<rparr>),
      (''deepseek-chat'', \<lparr> pr_input = 14/100, pr_output = 28/100, pr_cache_read = 7/100, pr_cache_write = 14/100 \<rparr>)]"

definition default_pricing :: pricing where
  "default_pricing = \<lparr> pr_input = 3, pr_output = 15, pr_cache_read = 3/10, pr_cache_write = 15/4 \<rparr>"

definition model_limits :: "(string, int) dict" where
  "model_limits = [(''claude-sonnet-4-20250514'', 200000), (''claude-haiku-4-5-20251001'', 200000),
                   (''deepseek-chat'', 64000)]"

definition router_estimate_cost :: "string \<Rightarrow> int \<Rightarrow> int \<Rightarrow> int \<Rightarrow> int \<Rightarrow> rat" where
  "router_estimate_cost model input_tokens output_tokens cache_read cache_write =
     (let p = dict_get_or router_pricing model default_pricing in
      of_int input_tokens / 1000000 * pr_input p + of_int output_tokens / 1000000 * pr_output p +
      of_int cache_read / 1000000 * pr_cache_read p + of_int cache_write / 1000000 * pr_cache_write p)"

definition get_model_limit :: "string \<Rightarrow> int" where
  "get_model_limit model = dict_get_or model_limits model 200000"

definition estimate_complexity :: "string \<Rightarrow> string" where
  "estimate_complexity task_input =
     (if length task_input < 30 then ''simple''
      else if any_in [''design'', ''architect'', ''full'', ''complete'', ''end-to-end'',
                      ''comprehensive'', ''secure'', ''production'', ''database'',
                      ''multi-step'', ''pipeline'', ''coordinated'', ''parallel'',
                      ''optimize'', ''refactor'', ''migrate'', ''integration''] (lower task_input)
      then ''complex'' else ''standard'')"

subsection \<open>Truncation\<close>

definition est_tokens :: "nat \<Rightarrow> int" where
  "est_tokens len = max 1 (int (len div 4))"

text \<open>The length the first estimate uses: text as it is, anything else as JSON. \<open>None\<close> is a \<open>TypeError\<close>:
  a block object has no JSON form.\<close>

fun json_size :: "(pyval \<Rightarrow> string) \<Rightarrow> content \<Rightarrow> nat option" where
  "json_size dumps (CText s) = Some (length s)"
| "json_size dumps (CValue (PStr s)) = Some (length s)"
| "json_size dumps (CValue v) = Some (length (dumps v))"
| "json_size dumps (CBlocks bs) = (if bs = [] then Some 2 else None)"

text \<open>\<open>len(content)\<close>, which the loop uses.\<close>

fun len_size :: "content \<Rightarrow> nat option" where
  "len_size (CText s) = Some (length s)"
| "len_size (CValue (PStr s)) = Some (length s)"
| "len_size (CValue (PList xs)) = Some (length xs)"
| "len_size (CValue (PDict kvs)) = Some (length kvs)"
| "len_size (CValue v) = None"
| "len_size (CBlocks bs) = Some (length bs)"

fun sum_tokens :: "(content \<Rightarrow> nat option) \<Rightarrow> message list \<Rightarrow> int option" where
  "sum_tokens sz [] = Some 0"
| "sum_tokens sz (m # ms) =
     (case sz (ms_content m) of
        None \<Rightarrow> None
      | Some n \<Rightarrow> map_option (\<lambda>t. est_tokens n + t) (sum_tokens sz ms))"

fun drop_oldest :: "int \<Rightarrow> int \<Rightarrow> message list \<Rightarrow> message list option" where
  "drop_oldest sys available [] = Some []"
| "drop_oldest sys available (m # ms) =
     (case sum_tokens len_size (m # ms) of
        None \<Rightarrow> None
      | Some t \<Rightarrow> if sys + t > available then drop_oldest sys available ms else Some (m # ms))"

definition truncate_messages ::
  "(pyval \<Rightarrow> string) \<Rightarrow> string \<Rightarrow> message list \<Rightarrow> string \<Rightarrow> int \<Rightarrow> (string \<times> message list) option" where
  "truncate_messages dumps system_prompt messages model reserve =
     (let available = get_model_limit model - reserve;
          sys_tokens = est_tokens (length system_prompt)
      in case sum_tokens (json_size dumps) messages of
           None \<Rightarrow> None
         | Some msg_tokens \<Rightarrow>
             if sys_tokens + msg_tokens \<le> available then Some (system_prompt, messages)
             else map_option (\<lambda>ms. (system_prompt, ms)) (drop_oldest sys_tokens available messages))"

subsection \<open>Errors of the provider\<close>

text \<open>What an SDK raises; \<open>SdkOther\<close> is any other exception, a timeout of the event loop among them. The
  classes of the two SDKs have the same names and the code treats them alike.\<close>

datatype sdk_error = SdkStatus int string | SdkTimeout string | SdkConnection string | SdkApi string | SdkOther string

definition retriable_status_codes :: "int list" where
  "retriable_status_codes = [408, 409, 429, 500, 502, 503, 504, 529]"

fun classify_sdk :: "sdk_error \<Rightarrow> llm_error" where
  "classify_sdk (SdkStatus code msg) =
     (if code \<in> set retriable_status_codes then TransientLLMError (''Status '' @ show_int code @ '': '' @ msg)
      else FatalLLMError (''Status '' @ show_int code @ '': '' @ msg))"
| "classify_sdk (SdkTimeout msg) = TransientLLMError msg"
| "classify_sdk (SdkConnection msg) = TransientLLMError msg"
| "classify_sdk (SdkApi msg) = FatalLLMError msg"
| "classify_sdk (SdkOther msg) = LLMError msg"

subsection \<open>Tools\<close>

text \<open>How looking a tool up and running it can end; an output is given by its text.\<close>

datatype tool_reply = TR_Unknown | TR_Success "string option" | TR_Failed string | TR_Raised string

definition tool_text :: "string \<Rightarrow> tool_reply \<Rightarrow> string \<times> bool" where
  "tool_text name r =
     (case r of
        TR_Unknown \<Rightarrow> (''Unknown tool: '' @ name, True)
      | TR_Success out \<Rightarrow> (case out of None \<Rightarrow> [] | Some s \<Rightarrow> s, False)
      | TR_Failed err \<Rightarrow> (''Tool error: '' @ err, True)
      | TR_Raised msg \<Rightarrow> (''Tool exception: '' @ take 500 msg, True))"

type_synonym 'x tools = "'x \<Rightarrow> string \<Rightarrow> pydict \<Rightarrow> 'x \<times> tool_reply"

definition execute_tool :: "'x tools \<Rightarrow> 'x \<Rightarrow> string \<Rightarrow> pydict \<Rightarrow> 'x \<times> string \<times> bool" where
  "execute_tool tools x name inputs = (case tools x name inputs of (x', r) \<Rightarrow> (x', tool_text name r))"

subsection \<open>State and parameters\<close>

text \<open>The cost tracker, the two context variables of the attribution, and the rest of the program.\<close>

record 'x router_world =
  rw_costs :: cost_tracker
  rw_agent :: string
  rw_task :: string
  rw_rest :: 'x

record api_usage =
  au_input :: "int option"
  au_output :: "int option"
  au_cache_read :: "int option"
  au_cache_write :: "int option"

record api_response =
  ar_content :: "block list"
  ar_model :: string
  ar_usage :: api_usage

datatype system_field = PlainSystem string | CachedSystem string

record api_request =
  aq_model :: string
  aq_max_tokens :: int
  aq_temperature :: rat
  aq_system :: system_field
  aq_messages :: "message list"
  aq_tools :: "pydict list option"

text \<open>The same for an OpenAI-compatible provider; the reply has the first choice, if there is one.\<close>

record tool_call =
  tl_id :: string
  tl_name :: string
  tl_arguments :: string

datatype openai_message = OM_Plain message | OM_Reply string "tool_call list" | OM_Tool string string

record openai_tool =
  ot_name :: pyval
  ot_description :: pyval
  ot_parameters :: pyval

record openai_request =
  oq_model :: string
  oq_max_tokens :: int
  oq_temperature :: rat
  oq_messages :: "openai_message list"
  oq_tools :: "openai_tool list option"

record openai_response =
  or_choice :: "(string option \<times> tool_call list) option"
  or_usage :: "(int option \<times> int option) option"

text \<open>\<open>re_clock\<close> gives the date of the day and the time in seconds and microseconds.\<close>

record 'x router_env =
  re_mock_mode :: bool
  re_provider :: string
  re_anthropic_client :: bool
  re_openai_client :: bool
  re_prompt_cache :: bool
  re_max_retries :: nat
  re_dumps :: "pyval \<Rightarrow> string"
  re_loads :: "string \<Rightarrow> pydict option"
  re_clock :: "'x \<Rightarrow> int \<times> rat \<times> int"
  re_sleep :: "rat \<Rightarrow> 'x \<Rightarrow> 'x"
  re_create :: "'x \<Rightarrow> api_request \<Rightarrow> 'x \<times> (sdk_error + api_response)"
  re_openai_create :: "'x \<Rightarrow> openai_request \<Rightarrow> 'x \<times> (string + openai_response)"

definition set_llm_context :: "string \<Rightarrow> string \<Rightarrow> 'x router_world \<Rightarrow> 'x router_world" where
  "set_llm_context agent task w = w \<lparr> rw_agent := agent, rw_task := task \<rparr>"

definition require_real_key :: "string \<Rightarrow> bool \<Rightarrow> string + unit" where
  "require_real_key environment mock_mode =
     (if (lower environment = ''production'' \<or> lower environment = ''prod'') \<and> mock_mode
      then Inl ''API key is missing in production environment. Refusing to run in mock mode.'' else Inr ())"

text \<open>The client of the configured provider: \<open>None\<close> without a key or without its package; then kept.\<close>

definition api_key :: "string \<Rightarrow> string \<Rightarrow> string \<Rightarrow> string" where
  "api_key provider openai_key anthropic_key = (if provider = ''openai'' then strip openai_key else strip anthropic_key)"

definition is_mock_mode :: "bool option \<Rightarrow> string \<Rightarrow> bool \<times> bool option" where
  "is_mock_mode cached key = (case cached of Some b \<Rightarrow> (b, cached) | None \<Rightarrow> (key = [], Some (key = [])))"

definition get_client :: "'c option \<Rightarrow> string \<Rightarrow> (string \<Rightarrow> 'c option) \<Rightarrow> 'c option \<times> 'c option" where
  "get_client cached key mk =
     (case cached of
        Some c \<Rightarrow> (Some c, cached)
      | None \<Rightarrow> if strip key = [] then (None, None) else (mk (strip key), mk (strip key)))"

definition call_args_of :: "'x router_world \<Rightarrow> llm_usage \<Rightarrow> call_args" where
  "call_args_of w u =
     \<lparr> ca_agent_name = rw_agent w, ca_task_id = rw_task w, ca_model = lu_model u,
       ca_input_tokens = lu_input_tokens u, ca_output_tokens = lu_output_tokens u,
       ca_duration_ms = lu_duration_ms u, ca_success = True, ca_user_id = [], ca_department_id = [] \<rparr>"

definition record_cost :: "'x router_env \<Rightarrow> 'x router_world \<Rightarrow> llm_usage \<Rightarrow> 'x router_world" where
  "record_cost env w u =
     (case re_clock env (rw_rest w) of (today, now, dt) \<Rightarrow>
      w \<lparr> rw_costs := fst (record_call (rw_costs w) (call_args_of w u) today now dt) \<rparr>)"

subsection \<open>One call\<close>

definition or_zero :: "int option \<Rightarrow> int" where
  "or_zero x = (case x of None \<Rightarrow> 0 | Some n \<Rightarrow> n)"

definition text_of_blocks :: "block list \<Rightarrow> string" where
  "text_of_blocks bs = concat (map (\<lambda>b. case b of TextBlock s \<Rightarrow> s | _ \<Rightarrow> []) bs)"

definition raw_blocks :: "block list \<Rightarrow> block list" where
  "raw_blocks bs = filter (\<lambda>b. b \<noteq> OtherBlock) bs"

definition usage_of :: "api_response \<Rightarrow> rat \<Rightarrow> llm_usage" where
  "usage_of r duration =
     (let i = or_zero (au_input (ar_usage r)); out = or_zero (au_output (ar_usage r));
          cr = or_zero (au_cache_read (ar_usage r)); cw = or_zero (au_cache_write (ar_usage r))
      in (new_usage (ar_model r)) \<lparr> lu_input_tokens := i, lu_output_tokens := out, lu_cache_read_tokens := cr,
           lu_cache_creation_tokens := cw, lu_cost_estimate := router_estimate_cost (ar_model r) i out cr cw,
           lu_duration_ms := duration \<rparr>)"

definition build_request :: "'x router_env \<Rightarrow> llm_config \<Rightarrow> string \<Rightarrow> message list \<Rightarrow> pydict list option \<Rightarrow> api_request" where
  "build_request env config system_prompt messages tools =
     \<lparr> aq_model = lg_model config, aq_max_tokens = lg_max_tokens config, aq_temperature = lg_temperature config,
       aq_system = (if re_prompt_cache env \<and> length system_prompt > 4000 then CachedSystem system_prompt
                    else PlainSystem system_prompt),
       aq_messages = messages,
       aq_tools = (case tools of None \<Rightarrow> None | Some ts \<Rightarrow> if ts = [] then None else Some ts) \<rparr>"

definition seconds :: "'x router_env \<Rightarrow> 'x \<Rightarrow> rat" where
  "seconds env x = fst (snd (re_clock env x))"

definition call_once ::
  "'x router_env \<Rightarrow> llm_config \<Rightarrow> string \<Rightarrow> message list \<Rightarrow> pydict list option \<Rightarrow> 'x router_world \<Rightarrow>
   'x router_world \<times> (llm_error + string \<times> llm_usage \<times> block list)" where
  "call_once env config system_prompt messages tools w =
     (case re_create env (rw_rest w) (build_request env config system_prompt messages tools) of
        (x', Inl e) \<Rightarrow> (w \<lparr> rw_rest := x' \<rparr>, Inl (classify_sdk e))
      | (x', Inr r) \<Rightarrow>
          let u = usage_of r ((seconds env x' - seconds env (rw_rest w)) * 1000);
              w' = record_cost env (w \<lparr> rw_rest := x' \<rparr>) u
          in (w', Inr (text_of_blocks (ar_content r), u, raw_blocks (ar_content r))))"

subsection \<open>Retries\<close>

definition backoff :: "nat \<Rightarrow> rat" where
  "backoff attempt = of_nat (min (2 ^ attempt) 8) + of_nat attempt / 2"

text \<open>Attempt number \<open>attempt\<close> of \<open>re_max_retries + 1\<close>; \<open>left\<close> counts those that may follow.\<close>

fun retry_loop ::
  "'x router_env \<Rightarrow> ('x router_world \<Rightarrow> 'x router_world \<times> (llm_error + string \<times> llm_usage \<times> block list)) \<Rightarrow>
   nat \<Rightarrow> nat \<Rightarrow> 'x router_world \<Rightarrow> 'x router_world \<times> (llm_error + string \<times> llm_usage \<times> block list)" where
  "retry_loop env call left attempt w =
     (case call w of
        (w', Inr (text, u, raw)) \<Rightarrow>
          (w', Inr (text, u \<lparr> lu_num_retries := max (lu_num_retries u) attempt \<rparr>, raw))
      | (w', Inl (TransientLLMError m)) \<Rightarrow>
          (case left of
             0 \<Rightarrow> (w', Inl (TransientLLMError m))
           | Suc n \<Rightarrow> retry_loop env call n (Suc attempt) (w' \<lparr> rw_rest := re_sleep env (backoff attempt) (rw_rest w') \<rparr>))
      | (w', Inl e) \<Rightarrow> (w', Inl e))"

declare retry_loop.simps [simp del]

definition call_with_retry ::
  "'x router_env \<Rightarrow> llm_config \<Rightarrow> string \<Rightarrow> message list \<Rightarrow> pydict list option \<Rightarrow> 'x router_world \<Rightarrow>
   'x router_world \<times> (llm_error + string \<times> llm_usage \<times> block list)" where
  "call_with_retry env config system_prompt messages tools w =
     retry_loop env (call_once env config system_prompt messages tools) (re_max_retries env) 0 w"

subsection \<open>The loop over tools\<close>

datatype call_failure = LlmFailure llm_error | TypeFailure

definition is_tool_use :: "block \<Rightarrow> bool" where
  "is_tool_use b = (case b of ToolUseBlock _ _ _ \<Rightarrow> True | _ \<Rightarrow> False)"

definition add_call_usage :: "llm_usage \<Rightarrow> llm_usage \<Rightarrow> llm_usage" where
  "add_call_usage sofar u = sofar
     \<lparr> lu_input_tokens := lu_input_tokens sofar + lu_input_tokens u,
       lu_output_tokens := lu_output_tokens sofar + lu_output_tokens u,
       lu_cache_read_tokens := lu_cache_read_tokens sofar + lu_cache_read_tokens u,
       lu_cache_creation_tokens := lu_cache_creation_tokens sofar + lu_cache_creation_tokens u,
       lu_cost_estimate := lu_cost_estimate sofar + lu_cost_estimate u,
       lu_num_retries := max (lu_num_retries sofar) (lu_num_retries u),
       lu_duration_ms := lu_duration_ms sofar + lu_duration_ms u \<rparr>"

fun run_tools :: "'x tools \<Rightarrow> block list \<Rightarrow> 'x \<Rightarrow> 'x \<times> pyval list" where
  "run_tools tools [] x = (x, [])"
| "run_tools tools (ToolUseBlock i name inputs # bs) x =
     (case execute_tool tools x name inputs of (x1, out, is_error) \<Rightarrow>
      case run_tools tools bs x1 of (x2, rs) \<Rightarrow>
        (x2, PDict [(''type'', PStr ''tool_result''), (''tool_use_id'', PStr i), (''content'', PStr (take 8000 out)),
                    (''is_error'', PBool is_error)] # rs))"
| "run_tools tools (b # bs) x = run_tools tools bs x"

text \<open>One round after another; \<open>turns\<close> rounds may follow. The tools the last round asks for are run too.\<close>

fun tool_loop ::
  "'x router_env \<Rightarrow> llm_config \<Rightarrow> string \<Rightarrow> pydict list option \<Rightarrow> 'x tools option \<Rightarrow> nat \<Rightarrow> message list \<Rightarrow> llm_usage \<Rightarrow>
   'x router_world \<Rightarrow> 'x router_world \<times> (call_failure + string \<times> llm_usage)" where
  "tool_loop env config sp defs executor turns msgs sofar w =
     (case call_with_retry env config sp msgs defs w of
        (w1, Inl e) \<Rightarrow> (w1, Inl (LlmFailure e))
      | (w1, Inr (text, u, raw)) \<Rightarrow>
          let sofar' = add_call_usage sofar u; uses = filter is_tool_use raw in
          (case executor of
             None \<Rightarrow> (w1, Inr (text, sofar'))
           | Some tools \<Rightarrow>
               if uses = [] then (w1, Inr (text, sofar'))
               else
                 (case run_tools tools uses (rw_rest w1) of (x, results) \<Rightarrow>
                    let w2 = w1 \<lparr> rw_rest := x \<rparr>;
                        msgs' = msgs @ [\<lparr> ms_role = ''assistant'', ms_content = CBlocks raw \<rparr>,
                                        \<lparr> ms_role = ''user'', ms_content = CValue (PList results) \<rparr>]
                    in case turns of
                         0 \<Rightarrow> (w2, Inr (text, sofar'))
                       | Suc n \<Rightarrow> tool_loop env config sp defs executor n msgs' sofar' w2)))"

declare tool_loop.simps [simp del]

subsection \<open>Mock replies\<close>

definition last_text :: "message list \<Rightarrow> string" where
  "last_text messages =
     (case find (\<lambda>m. case ms_content m of CText s \<Rightarrow> s \<noteq> [] | CValue (PStr s) \<Rightarrow> s \<noteq> [] | _ \<Rightarrow> False) (rev messages) of
        Some m \<Rightarrow> (case ms_content m of CText s \<Rightarrow> s | CValue (PStr s) \<Rightarrow> s | _ \<Rightarrow> [])
      | None \<Rightarrow> [])"

definition strs_val :: "string list \<Rightarrow> pyval" where
  "strs_val xs = PList (map PStr xs)"

definition mock_main :: string where
  "mock_main = ''def main():'' @ [CHR 0x0A] @ ''    print('' @ [CHR 0x27] @ ''Hello World'' @ [CHR 0x27] @ '')'' @ [CHR 0x0A, CHR 0x0A] @
     ''if __name__ == '' @ [CHR 0x27] @ ''__main__'' @ [CHR 0x27] @ '':'' @ [CHR 0x0A] @ ''    main()''"

definition mock_test :: string where
  "mock_test = ''def test_main():'' @ [CHR 0x0A] @ ''    assert True'' @ [CHR 0x0A]"

definition mock_payload :: "string \<Rightarrow> string \<Rightarrow> pydict" where
  "mock_payload system_prompt last_msg =
     (let sp = lower system_prompt in
      if any_in [''tech_agent'', ''code implementation'', ''technical design''] sp
      then [(''files'', PList [PDict [(''path'', PStr ''src/main.py''), (''language'', PStr ''python''), (''content'', PStr mock_main)]]),
            (''architecture'', PStr ''Single module''), (''dependencies'', PList [])]
      else if any_in [''test_agent'', ''test generation'', ''automated tests''] sp
      then [(''test_files'', PList [PDict [(''path'', PStr ''tests/test_main.py''), (''content'', PStr mock_test)]]),
            (''test_framework'', PStr ''pytest''), (''coverage_target'', PStr ''80%'')]
      else [(''title'', PStr (''Requirement: '' @ take 40 last_msg)), (''version'', PStr ''1.0''),
            (''background'', PStr (''Based on the requirement: '' @ take 100 last_msg)),
            (''goals'', strs_val [''Implement core functionality'', ''Ensure quality'', ''Support iteration'']),
            (''features'', PList
              [PDict [(''name'', PStr ''Core Feature''), (''description'', PStr (''Implement: '' @ take 60 last_msg)),
                      (''priority'', PStr ''P0''), (''acceptance_criteria'', strs_val [''Works correctly''])],
               PDict [(''name'', PStr ''Testing''), (''description'', PStr ''Write automated tests''),
                      (''priority'', PStr ''P1''), (''acceptance_criteria'', strs_val [''Coverage > 80%''])]]),
            (''constraints'', strs_val [''Compatible with existing system'']), (''timeline'', PStr ''2 weeks'')])"

definition mock_usage :: llm_usage where
  "mock_usage = (new_usage ''mock_mode'') \<lparr> lu_mock := True \<rparr>"

definition mock_response :: "(pyval \<Rightarrow> string) \<Rightarrow> string \<Rightarrow> message list \<Rightarrow> string \<times> llm_usage" where
  "mock_response dumps system_prompt messages =
     (dumps (PDict (mock_payload system_prompt (last_text messages))), mock_usage)"

subsection \<open>OpenAI-compatible providers\<close>

definition get_or :: "pydict \<Rightarrow> string \<Rightarrow> pyval \<Rightarrow> pyval" where
  "get_or d k v = dict_get_or d k v"

text \<open>The name of a tool falls back on that of its \<open>function\<close> entry (evaluated in every case, so the entry
  has to be a dictionary where there is one).\<close>

definition openai_tool_of :: "pydict \<Rightarrow> openai_tool" where
  "openai_tool_of t =
     \<lparr> ot_name = get_or t ''name''
         (case get_or t ''function'' (PDict []) of PDict f \<Rightarrow> get_or f ''name'' (PStr ''unknown'') | _ \<Rightarrow> PStr ''unknown''),
       ot_description = get_or t ''description'' (PStr []),
       ot_parameters = get_or t ''input_schema'' (get_or t ''parameters'' (PDict [])) \<rparr>"

definition openai_tools_of :: "pydict list option \<Rightarrow> openai_tool list option" where
  "openai_tools_of tools =
     (case tools of None \<Rightarrow> None | Some ts \<Rightarrow> if ts = [] then None else Some (map openai_tool_of ts))"

fun run_tool_calls :: "'x router_env \<Rightarrow> 'x tools \<Rightarrow> tool_call list \<Rightarrow> 'x \<Rightarrow> 'x \<times> openai_message list" where
  "run_tool_calls env tools [] x = (x, [])"
| "run_tool_calls env tools (c # cs) x =
     (let inputs = (case re_loads env (tl_arguments c) of None \<Rightarrow> [] | Some d \<Rightarrow> d) in
      case execute_tool tools x (tl_name c) inputs of (x1, out, is_error) \<Rightarrow>
      case run_tool_calls env tools cs x1 of (x2, ms) \<Rightarrow> (x2, OM_Tool (tl_id c) (take 8000 out) # ms))"

definition openai_usage :: "llm_usage \<Rightarrow> string \<Rightarrow> openai_response \<Rightarrow> rat \<Rightarrow> llm_usage" where
  "openai_usage sofar model r duration =
     (let i = (case or_usage r of None \<Rightarrow> 0 | Some (p, c) \<Rightarrow> or_zero p);
          out = (case or_usage r of None \<Rightarrow> 0 | Some (p, c) \<Rightarrow> or_zero c)
      in sofar \<lparr> lu_input_tokens := lu_input_tokens sofar + i, lu_output_tokens := lu_output_tokens sofar + out,
                 lu_cost_estimate := lu_cost_estimate sofar + router_estimate_cost model i out 0 0,
                 lu_duration_ms := lu_duration_ms sofar + duration \<rparr>)"

fun openai_loop ::
  "'x router_env \<Rightarrow> llm_config \<Rightarrow> openai_tool list option \<Rightarrow> 'x tools option \<Rightarrow> nat \<Rightarrow> openai_message list \<Rightarrow> llm_usage \<Rightarrow>
   'x router_world \<Rightarrow> 'x router_world \<times> (call_failure + string \<times> llm_usage)" where
  "openai_loop env config defs executor turns msgs sofar w =
     (case re_openai_create env (rw_rest w)
             \<lparr> oq_model = lg_model config, oq_max_tokens = lg_max_tokens config, oq_temperature = lg_temperature config,
               oq_messages = msgs, oq_tools = defs \<rparr> of
        (x1, Inl m) \<Rightarrow> (w \<lparr> rw_rest := x1 \<rparr>, Inl (LlmFailure (TransientLLMError (''OpenAI API call failed: '' @ m))))
      | (x1, Inr r) \<Rightarrow>
          (case or_choice r of
             None \<Rightarrow> (w \<lparr> rw_rest := x1 \<rparr>, Inl (LlmFailure (LLMError ''No response choices returned'')))
           | Some (content, calls) \<Rightarrow>
               let text = (case content of None \<Rightarrow> [] | Some t \<Rightarrow> t);
                   sofar' = openai_usage sofar (lg_model config) r ((seconds env x1 - seconds env (rw_rest w)) * 1000);
                   w1 = record_cost env (w \<lparr> rw_rest := x1 \<rparr>) sofar'
               in (case executor of
                     None \<Rightarrow> (w1, Inr (text, sofar'))
                   | Some tools \<Rightarrow>
                       if calls = [] then (w1, Inr (text, sofar'))
                       else
                         (case run_tool_calls env tools calls (rw_rest w1) of (x2, answers) \<Rightarrow>
                            let w2 = w1 \<lparr> rw_rest := x2 \<rparr>; msgs' = msgs @ OM_Reply text calls # answers
                            in case turns of
                                 0 \<Rightarrow> (w2, Inr (text, sofar'))
                               | Suc n \<Rightarrow> openai_loop env config defs executor n msgs' sofar' w2))))"

declare openai_loop.simps [simp del]

definition system_messages :: "string \<Rightarrow> message list \<Rightarrow> openai_message list" where
  "system_messages system_prompt messages =
     (if system_prompt = [] then [] else [OM_Plain \<lparr> ms_role = ''system'', ms_content = CText system_prompt \<rparr>]) @
     map OM_Plain messages"

definition call_openai ::
  "'x router_env \<Rightarrow> llm_config \<Rightarrow> string \<Rightarrow> message list \<Rightarrow> pydict list option \<Rightarrow> 'x tools option \<Rightarrow> nat \<Rightarrow>
   'x router_world \<Rightarrow> 'x router_world \<times> (call_failure + string \<times> llm_usage)" where
  "call_openai env config system_prompt messages tools executor turns w =
     (if \<not> re_openai_client env then (w, Inr (mock_response (re_dumps env) system_prompt messages))
      else openai_loop env config (openai_tools_of tools) executor turns (system_messages system_prompt messages)
             (new_usage (lg_model config)) w)"

subsection \<open>call\_llm\<close>

text \<open>\<open>who\<close> is the agent and the task the caller names, each possibly empty.\<close>

definition call_llm ::
  "'x router_env \<Rightarrow> llm_config \<Rightarrow> string \<Rightarrow> message list \<Rightarrow> pydict list option \<Rightarrow> 'x tools option \<Rightarrow> nat \<Rightarrow>
   string \<times> string \<Rightarrow> 'x router_world \<Rightarrow> 'x router_world \<times> (call_failure + string \<times> llm_usage)" where
  "call_llm env config system_prompt messages tools executor turns who w0 =
     (let w = (if fst who = [] \<and> snd who = [] then w0
               else set_llm_context (if fst who = [] then rw_agent w0 else fst who)
                      (if snd who = [] then rw_task w0 else snd who) w0)
      in if re_mock_mode env then (w, Inr (mock_response (re_dumps env) system_prompt messages))
         else if re_provider env = ''openai'' then call_openai env config system_prompt messages tools executor turns w
         else if \<not> re_anthropic_client env then (w, Inr (mock_response (re_dumps env) system_prompt messages))
         else
           (case truncate_messages (re_dumps env) system_prompt messages (lg_model config) (lg_max_tokens config) of
              None \<Rightarrow> (w, Inl TypeFailure)
            | Some (sp, ms) \<Rightarrow> tool_loop env config sp tools executor turns ms (new_usage (lg_model config)) w))"

subsection \<open>What truncation keeps\<close>

definition text_message :: "message \<Rightarrow> bool" where
  "text_message m = (case ms_content m of CText _ \<Rightarrow> True | CValue (PStr _) \<Rightarrow> True | _ \<Rightarrow> False)"

definition text_tokens :: "message list \<Rightarrow> int" where
  "text_tokens ms = sum_list (map (\<lambda>m. case len_size (ms_content m) of None \<Rightarrow> 0 | Some n \<Rightarrow> est_tokens n) ms)"

lemma text_sizes:
  assumes "text_message m"
  shows "\<exists>n. len_size (ms_content m) = Some n \<and> json_size dumps (ms_content m) = Some n"
  using assms by (auto simp: text_message_def split: content.splits pyval.splits)

lemma sum_tokens_text:
  "list_all text_message ms \<Longrightarrow> sum_tokens len_size ms = Some (text_tokens ms) \<and> sum_tokens (json_size dumps) ms = Some (text_tokens ms)"
proof (induction ms)
  case (Cons m ms)
  then obtain n where "len_size (ms_content m) = Some n" "json_size dumps (ms_content m) = Some n"
    using text_sizes[of m dumps] by auto
  with Cons show ?case by (simp add: text_tokens_def)
qed (simp add: text_tokens_def)

lemma drop_oldest_longest:
  assumes "list_all text_message ms"
  shows "\<exists>k. drop_oldest sys available ms = Some (drop k ms) \<and> k \<le> length ms \<and>
    (k = length ms \<or> sys + text_tokens (drop k ms) \<le> available) \<and>
    (\<forall>j < k. available < sys + text_tokens (drop j ms))"
  using assms
proof (induction ms)
  case (Cons m ms)
  have t: "sum_tokens len_size (m # ms) = Some (text_tokens (m # ms))" using sum_tokens_text Cons.prems by blast
  show ?case
  proof (cases "sys + text_tokens (m # ms) > available")
    case True
    from Cons obtain k where k: "drop_oldest sys available ms = Some (drop k ms)" "k \<le> length ms"
      "k = length ms \<or> sys + text_tokens (drop k ms) \<le> available" "\<forall>j < k. available < sys + text_tokens (drop j ms)"
      by auto
    from k(4) True have "\<forall>j < Suc k. available < sys + text_tokens (drop j (m # ms))"
      by (auto simp: less_Suc_eq_0_disj)
    with k t True show ?thesis by (intro exI[of _ "Suc k"]) auto
  next
    case False
    with t show ?thesis by (intro exI[of _ 0]) auto
  qed
qed simp

text \<open>Truncation of a conversation of texts drops the oldest messages, and no more of them than needed:
  what is left fits the context window by the estimate, or nothing is left; the system prompt stays.\<close>

theorem truncation_keeps_recent:
  assumes "list_all text_message messages"
  shows "let available = get_model_limit model - reserve; sys = est_tokens (length sp);
             fits = (\<lambda>ms. sys + text_tokens ms \<le> available) in
    \<exists>k. truncate_messages dumps sp messages model reserve = Some (sp, drop k messages) \<and>
      (drop k messages = [] \<or> fits (drop k messages)) \<and> (\<forall>j < k. \<not> fits (drop j messages))"
proof -
  define avail where "avail = get_model_limit model - reserve"
  define sys where "sys = est_tokens (length sp)"
  have t: "sum_tokens (json_size dumps) messages = Some (text_tokens messages)" using sum_tokens_text assms by blast
  obtain k where k: "drop_oldest sys avail messages = Some (drop k messages)" "k \<le> length messages"
      "k = length messages \<or> sys + text_tokens (drop k messages) \<le> avail"
      "\<forall>j < k. avail < sys + text_tokens (drop j messages)"
    using drop_oldest_longest[OF assms] by blast
  have "\<exists>k. truncate_messages dumps sp messages model reserve = Some (sp, drop k messages) \<and>
      (drop k messages = [] \<or> sys + text_tokens (drop k messages) \<le> avail) \<and>
      (\<forall>j < k. \<not> sys + text_tokens (drop j messages) \<le> avail)"
  proof (cases "sys + text_tokens messages \<le> avail")
    case True
    then show ?thesis
      by (intro exI[of _ 0]) (simp add: truncate_messages_def t avail_def[symmetric] sys_def[symmetric] Let_def)
  next
    case False
    then have "truncate_messages dumps sp messages model reserve = Some (sp, drop k messages)"
      using k(1) by (simp add: truncate_messages_def t avail_def[symmetric] sys_def[symmetric] Let_def)
    moreover have "drop k messages = [] \<or> sys + text_tokens (drop k messages) \<le> avail" using k(3) by auto
    moreover have "\<forall>j < k. \<not> sys + text_tokens (drop j messages) \<le> avail" using k(4) by auto
    ultimately show ?thesis by blast
  qed
  then show ?thesis by (simp add: Let_def avail_def sys_def)
qed

definition two_messages :: "message list" where
  "two_messages = [\<lparr> ms_role = ''user'', ms_content = CText ''an earlier question'' \<rparr>,
                   \<lparr> ms_role = ''user'', ms_content = CText ''and the next'' \<rparr>]"

theorem truncation_keeps_recent_witness:
  "list_all text_message two_messages \<and>
   (\<exists>k. truncate_messages (\<lambda>_. []) ''be brief'' two_messages ''deepseek-chat'' 63995 =
          Some (''be brief'', drop k two_messages) \<and> k = 1)"
proof -
  have alltext: "list_all text_message two_messages" by (simp add: two_messages_def text_message_def)
  have lim: "get_model_limit ''deepseek-chat'' = 64000" by (simp add: get_model_limit_def model_limits_def dict_get_or_def)
  have tok: "text_tokens two_messages = 7" "text_tokens (drop 1 two_messages) = 3"
    by (simp_all add: text_tokens_def two_messages_def est_tokens_def)
  obtain k where k: "truncate_messages (\<lambda>_. []) ''be brief'' two_messages ''deepseek-chat'' 63995 = Some (''be brief'', drop k two_messages)"
    "drop k two_messages = [] \<or> est_tokens (length ''be brief'') + text_tokens (drop k two_messages) \<le> 5"
    "\<forall>j < k. \<not> est_tokens (length ''be brief'') + text_tokens (drop j two_messages) \<le> 5"
    using truncation_keeps_recent[OF alltext, where model = "''deepseek-chat''" and reserve = 63995 and sp = "''be brief''" and dumps = "\<lambda>_. []"]
    by (auto simp: Let_def lim)
  have e: "est_tokens (length ''be brief'') = 2" by (simp add: est_tokens_def)
  have "k \<noteq> 0"
  proof
    assume "k = 0"
    then show False using k(2) tok(1) e by (simp add: two_messages_def)
  qed
  moreover have "\<not> 1 < k" using k(3) tok e by auto
  ultimately have "k = 1" by linarith
  with k(1) alltext show ?thesis by blast
qed

text \<open>A system prompt larger than the window empties the conversation.\<close>

lemma large_prompt_empties_conversation:
  assumes "list_all text_message messages" and "get_model_limit model - reserve < est_tokens (length sp)"
  shows "truncate_messages dumps sp messages model reserve = Some (sp, [])"
proof -
  have nn: "0 \<le> text_tokens ms" for ms
    by (induction ms) (auto simp: text_tokens_def est_tokens_def split: option.split)
  obtain k where k: "truncate_messages dumps sp messages model reserve = Some (sp, drop k messages)"
    "drop k messages = [] \<or> est_tokens (length sp) + text_tokens (drop k messages) \<le> get_model_limit model - reserve"
    using sum_tokens_text[OF assms(1), of dumps] drop_oldest_longest[OF assms(1)] nn[of messages] assms(2)
    by (simp add: truncate_messages_def Let_def) (metis drop_all order_refl)
  then have "drop k messages = []" using nn[of "drop k messages"] assms(2) by linarith
  with k(1) show ?thesis by simp
qed

text \<open>The loop counts a list of parts by its number of parts, so what is left can exceed the window.\<close>

lemma parts_are_undercounted:
  "drop_oldest 1 5 [\<lparr> ms_role = ''user'', ms_content = CValue (PList [PStr (replicate 100 CHR 0x61)]) \<rparr>] =
     Some [\<lparr> ms_role = ''user'', ms_content = CValue (PList [PStr (replicate 100 CHR 0x61)]) \<rparr>]"
  by (simp add: est_tokens_def)

subsection \<open>Which attempt decides\<close>

definition transient :: "llm_error + 'a \<Rightarrow> bool" where
  "transient r = (case r of Inl (TransientLLMError _) \<Rightarrow> True | _ \<Rightarrow> False)"

definition note_retries :: "nat \<Rightarrow> llm_error + string \<times> llm_usage \<times> block list \<Rightarrow> llm_error + string \<times> llm_usage \<times> block list" where
  "note_retries n r = map_sum id (\<lambda>(t, u, raw). (t, u \<lparr> lu_num_retries := max (lu_num_retries u) n \<rparr>, raw)) r"

text \<open>The state before the attempt \<open>a + k\<close>, when all attempts from \<open>a\<close> on failed.\<close>

fun attempt_world ::
  "'x router_env \<Rightarrow> ('x router_world \<Rightarrow> 'x router_world \<times> 'r) \<Rightarrow> nat \<Rightarrow> nat \<Rightarrow> 'x router_world \<Rightarrow> 'x router_world" where
  "attempt_world env call a 0 w = w"
| "attempt_world env call a (Suc k) w =
     attempt_world env call (Suc a) k
       ((fst (call w)) \<lparr> rw_rest := re_sleep env (backoff a) (rw_rest (fst (call w))) \<rparr>)"

lemma retry_loop_cases:
  "retry_loop env call left a w =
     (if transient (snd (call w)) \<and> left \<noteq> 0
      then retry_loop env call (left - 1) (Suc a)
             ((fst (call w)) \<lparr> rw_rest := re_sleep env (backoff a) (rw_rest (fst (call w))) \<rparr>)
      else (fst (call w), note_retries a (snd (call w))))"
  by (subst retry_loop.simps)
     (auto simp: transient_def note_retries_def split_beta split: sum.splits llm_error.splits nat.splits)

lemma retry_loop_decides:
  "\<exists>k \<le> left. (\<forall>j < k. transient (snd (call (attempt_world env call a j w)))) \<and>
     (k = left \<or> \<not> transient (snd (call (attempt_world env call a k w)))) \<and>
     retry_loop env call left a w =
       (fst (call (attempt_world env call a k w)), note_retries (a + k) (snd (call (attempt_world env call a k w))))"
proof (induction left arbitrary: a w)
  case 0
  show ?case by (intro exI[of _ 0]) (simp add: retry_loop_cases)
next
  case (Suc left)
  let ?w' = "(fst (call w)) \<lparr> rw_rest := re_sleep env (backoff a) (rw_rest (fst (call w))) \<rparr>"
  show ?case
  proof (cases "transient (snd (call w))")
    case False
    then show ?thesis by (intro exI[of _ 0]) (simp add: retry_loop_cases)
  next
    case True
    obtain k where k: "k \<le> left" "\<forall>j < k. transient (snd (call (attempt_world env call (Suc a) j ?w')))"
      "k = left \<or> \<not> transient (snd (call (attempt_world env call (Suc a) k ?w')))"
      "retry_loop env call left (Suc a) ?w' = (fst (call (attempt_world env call (Suc a) k ?w')),
         note_retries (Suc a + k) (snd (call (attempt_world env call (Suc a) k ?w'))))"
      using Suc by blast
    from True k(2) have "\<forall>j < Suc k. transient (snd (call (attempt_world env call a j w)))"
      by (auto simp: less_Suc_eq_0_disj)
    moreover have "retry_loop env call (Suc left) a w = retry_loop env call left (Suc a) ?w'"
      using True by (subst retry_loop_cases) simp
    ultimately show ?thesis using k by (intro exI[of _ "Suc k"]) auto
  qed
qed

text \<open>A call is tried at most the allowed number of times plus one. The first attempt that does not fail
  with a transient error decides, else the last one: its outcome is returned, with the number of retries
  noted, and no attempt follows it. Before each retry the router waits between 1 and 8 seconds plus half
  a second for every earlier attempt.\<close>

theorem retries_bounded:
  "let call = call_once env config sp messages tools; before = (\<lambda>k. attempt_world env call 0 k w) in
   (\<exists>k \<le> re_max_retries env. (\<forall>j < k. transient (snd (call (before j)))) \<and>
      (k = re_max_retries env \<or> \<not> transient (snd (call (before k)))) \<and>
      call_with_retry env config sp messages tools w = (fst (call (before k)), note_retries k (snd (call (before k))))) \<and>
   (\<forall>k. 1 + of_nat k / 2 \<le> backoff k \<and> backoff k \<le> 8 + of_nat k / 2)"
proof -
  have "1 + of_nat k / 2 \<le> backoff k \<and> backoff k \<le> 8 + of_nat k / 2" for k
    by (auto simp: backoff_def min_def)
  then show ?thesis
    using retry_loop_decides[where env = env and call = "call_once env config sp messages tools" and a = 0
        and left = "re_max_retries env" and w = w]
    by (simp add: Let_def call_with_retry_def)
qed

text \<open>An exception of the event loop's timeout is not one of the SDK's classes: it is not tried again.\<close>

lemma plain_timeout_is_not_retried:
  assumes "re_create env (rw_rest w) (build_request env config sp messages tools) = (x, Inl (SdkOther m))"
  shows "call_with_retry env config sp messages tools w = (w \<lparr> rw_rest := x \<rparr>, Inl (LLMError m))"
  by (simp add: call_with_retry_def retry_loop_cases call_once_def assms transient_def note_retries_def)

subsection \<open>What a call costs\<close>

definition task_tokens :: "cost_tracker \<Rightarrow> string \<Rightarrow> int \<times> int" where
  "task_tokens ct t = (case get_task_summary ct t of None \<Rightarrow> (0, 0)
     | Some s \<Rightarrow> (tc_total_input_tokens s, tc_total_output_tokens s))"

lemma task_tokens_record:
  "task_tokens (fst (record_call ct a today now dt)) t =
     (if t = ca_task_id a then (fst (task_tokens ct t) + ca_input_tokens a, snd (task_tokens ct t) + ca_output_tokens a)
      else task_tokens ct t)"
  by (auto simp: task_tokens_def record_call_def Let_def get_task_summary_def dict_get_or_def new_summary_def
      split: option.split)

lemma record_cost_world [simp]:
  "rw_task (record_cost env w u) = rw_task w" "rw_agent (record_cost env w u) = rw_agent w"
  "rw_rest (record_cost env w u) = rw_rest w"
  by (simp_all add: record_cost_def split_beta)

lemma tokens_record_cost:
  "task_tokens (rw_costs (record_cost env w u)) t =
     (if t = rw_task w then (fst (task_tokens (rw_costs w) t) + lu_input_tokens u, snd (task_tokens (rw_costs w) t) + lu_output_tokens u)
      else task_tokens (rw_costs w) t)"
  by (simp add: record_cost_def split_beta task_tokens_record call_args_of_def)

text \<open>What a reply reports, or nothing for a failure.\<close>

definition reported :: "'e + string \<times> llm_usage \<times> block list \<Rightarrow> int \<times> int" where
  "reported r = (case r of Inl _ \<Rightarrow> (0, 0) | Inr (t, u, raw) \<Rightarrow> (lu_input_tokens u, lu_output_tokens u))"

definition books_add :: "'x router_world \<Rightarrow> 'x router_world \<Rightarrow> int \<Rightarrow> int \<Rightarrow> bool" where
  "books_add w w' i out \<longleftrightarrow> rw_task w' = rw_task w \<and>
     (\<forall>t. task_tokens (rw_costs w') t =
        (if t = rw_task w then (fst (task_tokens (rw_costs w) t) + i, snd (task_tokens (rw_costs w) t) + out)
         else task_tokens (rw_costs w) t))"

lemma books_add_trans:
  "books_add w w1 i out \<Longrightarrow> books_add w1 w2 j out' \<Longrightarrow> books_add w w2 (i + j) (out + out')"
  by (auto simp: books_add_def)

lemma books_add_rest [simp]: "books_add w (w' \<lparr> rw_rest := x \<rparr>) i out = books_add w w' i out"
  "books_add (w \<lparr> rw_rest := x \<rparr>) w' i out = books_add w w' i out"
  by (simp_all add: books_add_def)

lemma books_add_zero [simp]: "books_add w w 0 0"
  by (simp add: books_add_def)

lemma books_record_cost: "books_add w (record_cost env w u) (lu_input_tokens u) (lu_output_tokens u)"
  by (simp add: books_add_def tokens_record_cost)

lemma books_call_once:
  "books_add w (fst (call_once env config sp msgs tools w))
     (fst (reported (snd (call_once env config sp msgs tools w)))) (snd (reported (snd (call_once env config sp msgs tools w))))"
proof (cases "re_create env (rw_rest w) (build_request env config sp msgs tools)")
  case (Pair x r)
  show ?thesis
  proof (cases r)
    case (Inl e)
    then show ?thesis using Pair by (simp add: call_once_def reported_def)
  next
    case (Inr resp)
    let ?u = "usage_of resp ((seconds env x - seconds env (rw_rest w)) * 1000)"
    show ?thesis
      using Pair Inr books_record_cost[of "w \<lparr> rw_rest := x \<rparr>" env ?u]
      by (simp add: call_once_def reported_def Let_def)
  qed
qed

lemma reported_note [simp]: "reported (note_retries n r) = reported r"
  by (auto simp: reported_def note_retries_def split: sum.split)

lemma reported_transient: "transient r \<Longrightarrow> reported r = (0, 0)"
  by (auto simp: reported_def transient_def split: sum.splits)

lemma books_retry_loop:
  assumes "\<And>w. books_add w (fst (call w)) (fst (reported (snd (call w)))) (snd (reported (snd (call w))))"
  shows "books_add w (fst (retry_loop env call left a w)) (fst (reported (snd (retry_loop env call left a w))))
           (snd (reported (snd (retry_loop env call left a w))))"
proof (induction left arbitrary: a w)
  case 0
  show ?case using assms[of w] by (simp add: retry_loop_cases)
next
  case (Suc left)
  show ?case
  proof (cases "transient (snd (call w))")
    case True
    then have "books_add w (fst (call w)) 0 0" using assms[of w] by (simp add: reported_transient)
    then have "books_add w ((fst (call w)) \<lparr> rw_rest := re_sleep env (backoff a) (rw_rest (fst (call w))) \<rparr>) 0 0" by simp
    from books_add_trans[OF this Suc, of "Suc a"] show ?thesis
      using True by (subst (1 2 3) retry_loop_cases) simp
  next
    case False
    then show ?thesis using assms[of w] by (simp add: retry_loop_cases)
  qed
qed

lemma books_call_with_retry:
  assumes "call_with_retry env config sp msgs defs w = (w1, r)"
  shows "books_add w w1 (fst (reported r)) (snd (reported r))"
proof -
  let ?loop = "retry_loop env (call_once env config sp msgs defs) (re_max_retries env) 0 w"
  have l: "?loop = (w1, r)" using assms by (simp add: call_with_retry_def)
  have "books_add w (fst ?loop) (fst (reported (snd ?loop))) (snd (reported (snd ?loop)))"
    by (rule books_retry_loop) (rule books_call_once)
  then show ?thesis by (simp only: l fst_conv snd_conv)
qed

lemma add_call_usage_simps [simp]:
  "lu_mock (add_call_usage sofar u) = lu_mock sofar"
  "lu_input_tokens (add_call_usage sofar u) = lu_input_tokens sofar + lu_input_tokens u"
  "lu_output_tokens (add_call_usage sofar u) = lu_output_tokens sofar + lu_output_tokens u"
  by (simp_all add: add_call_usage_def)

text \<open>A round of a loop that returns is the last one, or hands on to the next.\<close>

lemma tool_loop_round:
  assumes "tool_loop env config sp defs executor turns msgs sofar w = (w', Inr (text, u))"
  obtains (last) w1 u0 raw x where "call_with_retry env config sp msgs defs w = (w1, Inr (text, u0, raw))"
      "w' = w1 \<lparr> rw_rest := x \<rparr>" "u = add_call_usage sofar u0"
  | (more) w1 t0 u0 raw x n msgs' where "call_with_retry env config sp msgs defs w = (w1, Inr (t0, u0, raw))"
      "turns = Suc n"
      "tool_loop env config sp defs executor n msgs' (add_call_usage sofar u0) (w1 \<lparr> rw_rest := x \<rparr>) = (w', Inr (text, u))"
proof (cases "call_with_retry env config sp msgs defs w")
  case (Pair w1 r)
  note e = assms[unfolded tool_loop.simps[of env config sp defs executor turns] Pair, simplified]
  show thesis
  proof (cases r)
    case (Inl err)
    then show thesis using e by simp
  next
    case (Inr res)
    obtain t0 u0 raw where res: "res = (t0, u0, raw)" by (cases res)
    show thesis
    proof (cases "executor = None \<or> filter is_tool_use raw = []")
      case True
      then have "w' = w1 \<lparr> rw_rest := rw_rest w1 \<rparr>" "u = add_call_usage sofar u0" "text = t0"
        using e Inr res by (auto simp: Let_def split: option.splits)
      then show thesis using last Pair Inr res by blast
    next
      case False
      then obtain tools where ex: "executor = Some tools" "filter is_tool_use raw \<noteq> []" by auto
      obtain x results where rt: "run_tools tools (filter is_tool_use raw) (rw_rest w1) = (x, results)" by force
      show thesis
      proof (cases turns)
        case 0
        then have "w' = w1 \<lparr> rw_rest := x \<rparr>" "u = add_call_usage sofar u0" "text = t0"
          using e Inr res ex rt by (simp_all add: Let_def)
        then show thesis using last Pair Inr res by blast
      next
        case (Suc n)
        then show thesis using more[OF _ Suc] e Inr res ex rt Pair by (simp add: Let_def)
      qed
    qed
  qed
qed

lemma tool_loop_mock:
  "tool_loop env config sp defs executor turns msgs sofar w = (w', Inr (text, u)) \<Longrightarrow> lu_mock u = lu_mock sofar"
proof (induction turns arbitrary: msgs sofar w)
  case 0
  then show ?case by (auto elim: tool_loop_round)
next
  case (Suc turns)
  from Suc.prems show ?case
    by (cases rule: tool_loop_round) (auto dest!: Suc.IH)
qed

lemma tool_loop_books:
  "tool_loop env config sp defs executor turns msgs sofar w = (w', Inr (text, u)) \<Longrightarrow>
   books_add w w' (lu_input_tokens u - lu_input_tokens sofar) (lu_output_tokens u - lu_output_tokens sofar)"
proof (induction turns arbitrary: msgs sofar w)
  case 0
  from 0 show ?case
    by (cases rule: tool_loop_round) (auto dest!: books_call_with_retry simp: reported_def)
next
  case (Suc turns)
  from Suc.prems show ?case
  proof (cases rule: tool_loop_round)
    case (last w1 u0 raw x)
    then show ?thesis using books_call_with_retry[OF last(1)] by (simp add: reported_def)
  next
    case (more w1 t0 u0 raw x n msgs')
    from books_call_with_retry[OF more(1)] have a: "books_add w (w1 \<lparr> rw_rest := x \<rparr>) (lu_input_tokens u0) (lu_output_tokens u0)"
      by (simp add: reported_def)
    from more(2,3) Suc.IH have "books_add (w1 \<lparr> rw_rest := x \<rparr>) w' (lu_input_tokens u - lu_input_tokens (add_call_usage sofar u0))
        (lu_output_tokens u - lu_output_tokens (add_call_usage sofar u0))" by blast
    from books_add_trans[OF a this] show ?thesis by simp
  qed
qed


text \<open>A provider that is overloaded once and then answers.\<close>

definition sample_response :: api_response where
  "sample_response = \<lparr> ar_content = [TextBlock ''done''], ar_model = ''claude-sonnet-4-20250514'',
     ar_usage = \<lparr> au_input = Some 10, au_output = Some 5, au_cache_read = None, au_cache_write = None \<rparr> \<rparr>"

definition sample_env :: "nat router_env" where
  "sample_env = \<lparr> re_mock_mode = False, re_provider = ''anthropic'', re_anthropic_client = True, re_openai_client = False,
     re_prompt_cache = True, re_max_retries = 3, re_dumps = (\<lambda>_. []), re_loads = (\<lambda>_. None),
     re_clock = (\<lambda>x. (0, of_nat x, 0)), re_sleep = (\<lambda>_ x. x + 1),
     re_create = (\<lambda>x r. (x + 1, if x = 0 then Inl (SdkStatus 529 ''overloaded'') else Inr sample_response)),
     re_openai_create = (\<lambda>x r. (x, Inl [])) \<rparr>"

definition sample_world :: "nat router_world" where
  "sample_world = \<lparr> rw_costs = ct_new (qm_new 0 0), rw_agent = ''unknown'', rw_task = ''unknown'', rw_rest = 0 \<rparr>"

definition sample_config :: llm_config where
  "sample_config = \<lparr> lg_model = ''claude-sonnet-4-20250514'', lg_max_tokens = 4096, lg_temperature = 7/10 \<rparr>"

lemma sample_retry:
  "\<exists>w u. call_with_retry sample_env sample_config ''hi'' [] None sample_world = (w, Inr (''done'', u, [TextBlock ''done''])) \<and>
     lu_num_retries u = 1 \<and> lu_input_tokens u = 10"
proof -
  have r0: "re_max_retries sample_env = 3" by (simp add: sample_env_def)
  have c0: "call_once sample_env sample_config ''hi'' [] None sample_world =
      (sample_world \<lparr> rw_rest := 1 \<rparr>, Inl (TransientLLMError (''Status '' @ show_int 529 @ '': overloaded'')))"
    by (simp add: call_once_def sample_env_def sample_world_def retriable_status_codes_def)
  have c1: "\<exists>w u. call_once sample_env sample_config ''hi'' [] None (sample_world \<lparr> rw_rest := 2 \<rparr>) =
      (w, Inr (''done'', u, [TextBlock ''done''])) \<and> lu_num_retries u = 0 \<and> lu_input_tokens u = 10"
    by (simp add: call_once_def sample_env_def sample_response_def usage_of_def new_usage_def or_zero_def
        text_of_blocks_def raw_blocks_def Let_def)
  have sl: "re_sleep sample_env b (Suc 0) = 2" for b by (simp add: sample_env_def)
  from c1 show ?thesis
    unfolding call_with_retry_def r0
    by (subst retry_loop_cases) (auto simp: c0 transient_def sl retry_loop_cases note_retries_def)
qed

theorem retries_bounded_witness:
  "\<exists>k \<le> 3. \<exists>w u. call_with_retry sample_env sample_config ''hi'' [] None sample_world = (w, Inr (''done'', u, [TextBlock ''done''])) \<and>
     lu_num_retries u = 1 \<and> backoff k \<le> 8 + of_nat k / 2"
proof -
  have "re_max_retries sample_env = 3" by (simp add: sample_env_def)
  with retries_bounded[where env = sample_env and config = sample_config and sp = "''hi''" and messages = "[]"
      and tools = None and w = sample_world] sample_retry
  show ?thesis unfolding Let_def by (metis (no_types, lifting))
qed


subsection \<open>OpenAI-compatible calls\<close>

text \<open>A failed call is reported as transient and not tried again.\<close>

lemma openai_call_is_not_retried:
  assumes "re_openai_create env (rw_rest w) \<lparr> oq_model = lg_model config, oq_max_tokens = lg_max_tokens config,
      oq_temperature = lg_temperature config, oq_messages = msgs, oq_tools = defs \<rparr> = (x, Inl m)"
  shows "openai_loop env config defs executor turns msgs sofar w =
    (w \<lparr> rw_rest := x \<rparr>, Inl (LlmFailure (TransientLLMError (''OpenAI API call failed: '' @ m))))"
  by (subst openai_loop.simps) (simp add: assms)

text \<open>One round of the loop: the usage so far, not that of the round, goes to the cost tracker.\<close>

lemma openai_round:
  fixes sofar :: llm_usage
  assumes "re_openai_create env (rw_rest w) \<lparr> oq_model = lg_model config, oq_max_tokens = lg_max_tokens config,
      oq_temperature = lg_temperature config, oq_messages = msgs, oq_tools = defs \<rparr> = (x, Inr r)"
    and "or_choice r = Some (content, calls)"
  defines "u \<equiv> openai_usage sofar (lg_model config) r ((seconds env x - seconds env (rw_rest w)) * 1000)"
  shows "executor = None \<or> calls = [] \<Longrightarrow>
      openai_loop env config defs executor turns msgs sofar w =
        (record_cost env (w \<lparr> rw_rest := x \<rparr>) u, Inr (case content of None \<Rightarrow> [] | Some t \<Rightarrow> t, u))"
    and "executor = Some tools \<Longrightarrow> calls \<noteq> [] \<Longrightarrow> turns = Suc n \<Longrightarrow>
      \<exists>x2 msgs'. openai_loop env config defs executor turns msgs sofar w =
        openai_loop env config defs executor n msgs' u ((record_cost env (w \<lparr> rw_rest := x \<rparr>) u) \<lparr> rw_rest := x2 \<rparr>)"
proof -
  show "executor = None \<or> calls = [] \<Longrightarrow>
      openai_loop env config defs executor turns msgs sofar w =
        (record_cost env (w \<lparr> rw_rest := x \<rparr>) u, Inr (case content of None \<Rightarrow> [] | Some t \<Rightarrow> t, u))"
    using assms(1,2) by (subst openai_loop.simps) (auto simp: u_def Let_def split: option.split)
  assume a: "executor = Some tools" "calls \<noteq> []" "turns = Suc n"
  show "\<exists>x2 msgs'. openai_loop env config defs executor turns msgs sofar w =
        openai_loop env config defs executor n msgs' u ((record_cost env (w \<lparr> rw_rest := x \<rparr>) u) \<lparr> rw_rest := x2 \<rparr>)"
    using assms(1,2) a by (subst openai_loop.simps) (auto simp: u_def Let_def split: prod.split)
qed

text \<open>A conversation with one round of tools: the tokens of the first round are recorded twice.\<close>

definition tool_response :: openai_response where
  "tool_response = \<lparr> or_choice = Some (None, [\<lparr> tl_id = ''c1'', tl_name = ''search'', tl_arguments = ''{}'' \<rparr>]),
     or_usage = Some (Some 100, Some 20) \<rparr>"

definition final_response :: openai_response where
  "final_response = \<lparr> or_choice = Some (Some ''done'', []), or_usage = Some (Some 150, Some 30) \<rparr>"

definition openai_env :: "nat router_env" where
  "openai_env = sample_env \<lparr> re_provider := ''openai'', re_openai_client := True,
     re_openai_create := (\<lambda>x r. (x + 1, Inr (if x = 0 then tool_response else final_response))) \<rparr>"

lemma openai_rounds_recorded_twice:
  "\<exists>w u. call_openai openai_env sample_config [] [] None (Some (\<lambda>x _ _. (x, TR_Success None))) 5 sample_world = (w, Inr (''done'', u)) \<and>
     lu_input_tokens u = 250 \<and> lu_output_tokens u = 50 \<and>
     fst (task_tokens (rw_costs w) ''unknown'') = fst (task_tokens (rw_costs sample_world) ''unknown'') + 350 \<and>
     snd (task_tokens (rw_costs w) ''unknown'') = snd (task_tokens (rw_costs sample_world) ''unknown'') + 70"
proof -
  let ?ex = "Some (\<lambda>x _ _. (x, TR_Success None)) :: nat tools option"
  let ?u1 = "openai_usage (new_usage (lg_model sample_config)) (lg_model sample_config) tool_response
      ((seconds openai_env 1 - seconds openai_env 0) * 1000)"
  let ?u2 = "openai_usage ?u1 (lg_model sample_config) final_response ((seconds openai_env 2 - seconds openai_env 1) * 1000)"
  have oe: "re_openai_create openai_env x r = (x + 1, Inr (if x = 0 then tool_response else final_response))"
    "seconds openai_env x = of_nat x" "re_loads openai_env t = None" for x r t
    by (simp_all add: openai_env_def sample_env_def seconds_def)
  have start: "rw_rest sample_world = 0" by (simp add: sample_world_def)
  have tool_response_choice: "or_choice tool_response = Some (None, [\<lparr> tl_id = ''c1'', tl_name = ''search'', tl_arguments = ''{}'' \<rparr>])"
    by (simp add: tool_response_def)
  have "call_openai openai_env sample_config [] [] None ?ex 5 sample_world =
      openai_loop openai_env sample_config None ?ex 5 [] (new_usage (lg_model sample_config)) sample_world"
    by (simp add: call_openai_def openai_env_def openai_tools_of_def system_messages_def)
  also have "\<dots> = openai_loop openai_env sample_config None ?ex 4
      [OM_Reply [] [\<lparr> tl_id = ''c1'', tl_name = ''search'', tl_arguments = ''{}'' \<rparr>], OM_Tool ''c1'' []] ?u1
      ((record_cost openai_env (sample_world \<lparr> rw_rest := 1 \<rparr>) ?u1) \<lparr> rw_rest := 1 \<rparr>)"
    by (subst openai_loop.simps)
       (simp add: oe tool_response_choice start execute_tool_def tool_text_def Let_def eval_nat_numeral)
  also have "\<dots> = (record_cost openai_env ((record_cost openai_env (sample_world \<lparr> rw_rest := 1 \<rparr>) ?u1) \<lparr> rw_rest := 2 \<rparr>) ?u2,
      Inr (''done'', ?u2))"
    by (subst openai_loop.simps) (simp add: oe final_response_def Let_def numeral_2_eq_2)
  finally have e: "call_openai openai_env sample_config [] [] None ?ex 5 sample_world =
      (record_cost openai_env ((record_cost openai_env (sample_world \<lparr> rw_rest := 1 \<rparr>) ?u1) \<lparr> rw_rest := 2 \<rparr>) ?u2,
       Inr (''done'', ?u2))" .
  have "lu_input_tokens ?u1 = 100" "lu_output_tokens ?u1 = 20" "lu_input_tokens ?u2 = 250" "lu_output_tokens ?u2 = 50"
    by (simp_all add: openai_usage_def tool_response_def final_response_def new_usage_def or_zero_def Let_def)
  then show ?thesis
    unfolding e by (auto simp: tokens_record_cost sample_world_def)
qed

text \<open>The router and the cost tracker price the same call differently.\<close>

lemma prices_disagree:
  "router_estimate_cost ''deepseek-chat'' 1000000 0 0 0 = 14/100"
  "estimate_cost ''deepseek-chat'' 1000000 0 = 3"
  by (simp_all add: router_estimate_cost_def router_pricing_def dict_get_or_def estimate_cost_def model_pricing_def Let_def)

end
