(* ===== verification/LLM_Stream.thy ===== *)
theory LLM_Stream
  imports LLM_Router
begin

section \<open>Streamed replies (core/llm\_router.py)\<close>

text \<open>
  The events the router yields for a streamed reply. The events of the two SDKs are given as lists, with
  the way the stream ends. A generator is the list of what it yields and a flag that tells whether it raises
  at the end. Durations are parameters.
\<close>

subsection \<open>Data\<close>

datatype stream_event =
    SE_Text string
  | SE_ToolStart string string
  | SE_ToolInput string string string
  | SE_ToolEnd string string
  | SE_Error string
  | SE_Done llm_usage

datatype stream_item = Chunk string | StreamEnd llm_usage

text \<open>An event of the Anthropic SDK by the index of its block; a started block is a tool call with a name and
  an id, or something else.\<close>

datatype sdk_event =
    BlockStart int "(string \<times> string) option"
  | TextDelta string
  | JsonDelta int string
  | BlockStop int
  | OtherEvent

datatype anthropic_end = AnthropicRaised string | AnthropicFinal api_usage

text \<open>A part of a tool call in a chunk of the OpenAI SDK, by the index of the call. Absent and empty fields
  count alike.\<close>

record tool_delta =
  td_index :: int
  td_id :: string
  td_name :: string
  td_arguments :: string

record openai_chunk =
  oc_delta :: "(string \<times> tool_delta list) option"
  oc_has_choice :: bool
  oc_usage :: "(int option \<times> int option) option"

subsection \<open>Mock streams\<close>

function chunks_of :: "nat \<Rightarrow> string \<Rightarrow> string list" where
  "chunks_of n s = (if s = [] \<or> n = 0 then [] else take n s # chunks_of n (drop n s))"
  by pat_completeness auto
termination by (relation "measure (\<lambda>(n, s). length s)") auto

declare chunks_of.simps [simp del]

definition mock_chunks :: "string \<Rightarrow> string list" where
  "mock_chunks full = chunks_of (max 1 (length full div 5)) full"

definition mock_stream_events :: "(pyval \<Rightarrow> string) \<Rightarrow> stream_event list" where
  "mock_stream_events dumps =
     (case mock_response dumps [] [\<lparr> ms_role = ''user'', ms_content = CText ''x'' \<rparr>] of (full, usage) \<Rightarrow>
      map SE_Text (mock_chunks full) @ [SE_Done usage])"

subsection \<open>Anthropic\<close>

text \<open>The dictionaries of names and ids have the same keys and are one here.\<close>

type_synonym open_tools = "(int, string \<times> string) dict"

definition anthropic_step :: "open_tools \<Rightarrow> sdk_event \<Rightarrow> open_tools \<times> stream_event list" where
  "anthropic_step d e =
     (case e of
        BlockStart i (Some (name, tid)) \<Rightarrow> (dict_set d i (name, tid), [SE_ToolStart name tid])
      | BlockStart i None \<Rightarrow> (d, [])
      | TextDelta s \<Rightarrow> (d, if s = [] then [] else [SE_Text s])
      | JsonDelta i delta \<Rightarrow> (case dict_get_or d i (''?'', []) of (name, tid) \<Rightarrow> (d, [SE_ToolInput name tid delta]))
      | BlockStop i \<Rightarrow> (case dict_get d i of None \<Rightarrow> (d, []) | Some (name, tid) \<Rightarrow> (dict_pop d i, [SE_ToolEnd name tid]))
      | OtherEvent \<Rightarrow> (d, []))"

fun anthropic_body :: "open_tools \<Rightarrow> sdk_event list \<Rightarrow> stream_event list" where
  "anthropic_body d [] = []"
| "anthropic_body d (e # es) = snd (anthropic_step d e) @ anthropic_body (fst (anthropic_step d e)) es"

definition done_usage :: "string \<Rightarrow> int \<Rightarrow> int \<Rightarrow> int \<Rightarrow> int \<Rightarrow> rat \<Rightarrow> llm_usage" where
  "done_usage model i out cr cw duration = (new_usage model)
     \<lparr> lu_input_tokens := i, lu_output_tokens := out, lu_cache_read_tokens := cr, lu_cache_creation_tokens := cw,
       lu_duration_ms := duration, lu_cost_estimate := router_estimate_cost model i out 0 0 \<rparr>"

text \<open>Token counts the final message does not have make the cost estimate raise, after the \<open>try\<close>.\<close>

definition stream_anthropic_events ::
  "bool \<Rightarrow> (pyval \<Rightarrow> string) \<Rightarrow> llm_config \<Rightarrow> string \<Rightarrow> message list \<Rightarrow> sdk_event list \<Rightarrow> anthropic_end \<Rightarrow> rat \<Rightarrow>
   stream_event list \<times> bool" where
  "stream_anthropic_events client dumps config system_prompt messages es ending duration =
     (if \<not> client then (mock_stream_events dumps, False)
      else case truncate_messages dumps system_prompt messages (lg_model config) (lg_max_tokens config) of
        None \<Rightarrow> ([], True)
      | Some _ \<Rightarrow>
          (case ending of
             AnthropicRaised m \<Rightarrow>
               (anthropic_body [] es @ [SE_Error (''Anthropic stream error: '' @ m),
                  SE_Done (done_usage (lg_model config) 0 0 0 0 duration)], False)
           | AnthropicFinal u \<Rightarrow>
               (case (au_input u, au_output u) of
                  (Some i, Some out) \<Rightarrow>
                    (anthropic_body [] es @ [SE_Done (done_usage (lg_model config) i out (or_zero (au_cache_read u))
                       (or_zero (au_cache_write u)) duration)], False)
                | _ \<Rightarrow> (anthropic_body [] es, True))))"

subsection \<open>OpenAI-compatible\<close>

definition delta_step :: "open_tools \<Rightarrow> tool_delta \<Rightarrow> open_tools \<times> stream_event list" where
  "delta_step d t =
     (let name = (if td_name t = [] then ''?'' else td_name t);
          (d1, started) = (if td_id t = [] then (d, [])
                           else (dict_set d (td_index t) (name, td_id t), [SE_ToolStart name (td_id t)]));
          (n, i) = dict_get_or d1 (td_index t) (''?'', [])
      in (d1, started @ (if td_arguments t = [] then [] else [SE_ToolInput n i (td_arguments t)])))"

fun deltas :: "open_tools \<Rightarrow> tool_delta list \<Rightarrow> open_tools \<times> stream_event list" where
  "deltas d [] = (d, [])"
| "deltas d (t # ts) =
     (case delta_step d t of (d1, es) \<Rightarrow> case deltas d1 ts of (d2, es') \<Rightarrow> (d2, es @ es'))"

definition chunk_step :: "open_tools \<Rightarrow> openai_chunk \<Rightarrow> open_tools \<times> stream_event list" where
  "chunk_step d c =
     (if \<not> oc_has_choice c then (d, [])
      else case oc_delta c of
        None \<Rightarrow> (d, [])
      | Some (text, ts) \<Rightarrow> (case deltas d ts of (d', es) \<Rightarrow> (d', (if text = [] then [] else [SE_Text text]) @ es)))"

fun openai_body :: "open_tools \<Rightarrow> openai_chunk list \<Rightarrow> open_tools \<times> stream_event list" where
  "openai_body d [] = (d, [])"
| "openai_body d (c # cs) =
     (case chunk_step d c of (d1, es) \<Rightarrow> case openai_body d1 cs of (d2, es') \<Rightarrow> (d2, es @ es'))"

text \<open>The usage reported by chunks without a choice, the last one last, and by the last chunk of all.\<close>

definition chunk_usage :: "openai_chunk list \<Rightarrow> int \<times> int" where
  "chunk_usage cs =
     foldl (\<lambda>acc c. case oc_usage c of None \<Rightarrow> acc | Some (p, q) \<Rightarrow> (or_zero p, or_zero q)) (0, 0)
       (filter (\<lambda>c. \<not> oc_has_choice c) (butlast cs) @ (if cs = [] then [] else [last cs]))"

text \<open>\<open>raised\<close> is the message of an exception that ends the stream. Without one the open tools are closed; then
  the last chunk is read, which an empty stream does not have.\<close>

definition stream_openai_events ::
  "bool \<Rightarrow> (pyval \<Rightarrow> string) \<Rightarrow> llm_config \<Rightarrow> openai_chunk list \<Rightarrow> string option \<Rightarrow> string \<Rightarrow> rat \<Rightarrow> stream_event list \<times> bool" where
  "stream_openai_events client dumps config cs raised unbound duration =
     (if \<not> client then (mock_stream_events dumps, False)
      else
        let (d, body) = openai_body [] cs;
            finish = (\<lambda>i out. SE_Done (done_usage (lg_model config) i out 0 0 duration));
            seen = chunk_usage (filter (\<lambda>c. \<not> oc_has_choice c) cs)
        in case raised of
             Some m \<Rightarrow> (body @ [SE_Error (''OpenAI stream error: '' @ m), finish (fst seen) (snd seen)], False)
           | None \<Rightarrow>
               let closed = body @ map (\<lambda>(k, n, i). SE_ToolEnd n i) d in
               if cs = [] then (closed @ [SE_Error (''OpenAI stream error: '' @ unbound), finish 0 0], False)
               else (closed @ [finish (fst (chunk_usage cs)) (snd (chunk_usage cs))], False))"

subsection \<open>Dispatch and the text-only wrapper\<close>

record stream_input =
  si_anthropic :: "sdk_event list"
  si_anthropic_end :: anthropic_end
  si_openai :: "openai_chunk list"
  si_openai_raised :: "string option"
  si_unbound_text :: string
  si_duration :: rat

definition stream_events ::
  "'x router_env \<Rightarrow> llm_config \<Rightarrow> string \<Rightarrow> message list \<Rightarrow> stream_input \<Rightarrow> stream_event list \<times> bool" where
  "stream_events env config system_prompt messages s =
     (if re_mock_mode env then (mock_stream_events (re_dumps env), False)
      else if re_provider env = ''anthropic'' then
        stream_anthropic_events (re_anthropic_client env) (re_dumps env) config system_prompt messages
          (si_anthropic s) (si_anthropic_end s) (si_duration s)
      else if re_provider env = ''openai'' then
        stream_openai_events (re_openai_client env) (re_dumps env) config (si_openai s) (si_openai_raised s)
          (si_unbound_text s) (si_duration s)
      else (mock_stream_events (re_dumps env), False))"

fun text_items :: "stream_event list \<Rightarrow> stream_item list" where
  "text_items [] = []"
| "text_items (SE_Text s # es) = Chunk s # text_items es"
| "text_items (SE_Done u # es) = [StreamEnd u]"
| "text_items (e # es) = text_items es"

definition ends_done :: "stream_event list \<Rightarrow> bool" where
  "ends_done es = list_ex (\<lambda>e. case e of SE_Done _ \<Rightarrow> True | _ \<Rightarrow> False) es"

definition stream_chunks ::
  "'x router_env \<Rightarrow> llm_config \<Rightarrow> string \<Rightarrow> message list \<Rightarrow> stream_input \<Rightarrow> stream_item list \<times> bool" where
  "stream_chunks env config system_prompt messages s =
     (let (full, usage) = mock_response (re_dumps env) system_prompt messages in
      if re_mock_mode env then (map Chunk (mock_chunks full) @ [StreamEnd usage], False)
      else if re_provider env = ''anthropic'' \<or> re_provider env = ''openai'' then
        (case stream_events env config system_prompt messages s of (es, raises) \<Rightarrow>
           (text_items es, raises \<and> \<not> ends_done es))
      else ([Chunk full, StreamEnd usage], False))"

subsection \<open>The protocol of a stream\<close>

text \<open>Every end of the tool call \<open>x\<close> closes an earlier start, with \<open>n\<close> starts open at the beginning.\<close>

fun paired :: "string \<times> string \<Rightarrow> nat \<Rightarrow> stream_event list \<Rightarrow> bool" where
  "paired x n [] = True"
| "paired x n (e # es) =
     (case e of
        SE_ToolStart a b \<Rightarrow> paired x (if (a, b) = x then Suc n else n) es
      | SE_ToolEnd a b \<Rightarrow> if (a, b) = x then 0 < n \<and> paired x (n - 1) es else paired x n es
      | _ \<Rightarrow> paired x n es)"

definition body_event :: "stream_event \<Rightarrow> bool" where
  "body_event e = (case e of SE_Done _ \<Rightarrow> False | SE_Error _ \<Rightarrow> False | _ \<Rightarrow> True)"

definition texts :: "stream_event list \<Rightarrow> string" where
  "texts es = concat (map (\<lambda>e. case e of SE_Text s \<Rightarrow> s | _ \<Rightarrow> []) es)"

definition sdk_texts :: "sdk_event list \<Rightarrow> string" where
  "sdk_texts es = concat (map (\<lambda>e. case e of TextDelta s \<Rightarrow> s | _ \<Rightarrow> []) es)"

definition chunk_texts :: "openai_chunk list \<Rightarrow> string" where
  "chunk_texts cs = concat (map (\<lambda>c. if oc_has_choice c then (case oc_delta c of None \<Rightarrow> [] | Some (t, _) \<Rightarrow> t) else []) cs)"

lemma texts_append [simp]: "texts (xs @ ys) = texts xs @ texts ys" "texts [] = []"
  by (simp_all add: texts_def)

lemma texts_Cons [simp]: "texts (e # es) = (case e of SE_Text s \<Rightarrow> s | _ \<Rightarrow> []) @ texts es"
  by (simp add: texts_def)

lemma paired_mono: "paired x n es \<Longrightarrow> n \<le> m \<Longrightarrow> paired x m es"
proof (induction es arbitrary: n m)
  case (Cons e es)
  show ?case
  proof (cases e)
    case (SE_ToolStart a b)
    then show ?thesis using Cons.prems Cons.IH[of "Suc n" "Suc m"] Cons.IH[of n m] by (auto split: if_splits)
  next
    case (SE_ToolEnd a b)
    then show ?thesis using Cons.prems Cons.IH[of "n - 1" "m - 1"] Cons.IH[of n m] by (auto split: if_splits)
  qed (use Cons in auto)
qed simp

text \<open>The open calls with the name and id \<open>x\<close>.\<close>

definition open_count :: "open_tools \<Rightarrow> string \<times> string \<Rightarrow> nat" where
  "open_count d x = length (filter (\<lambda>(k, v). v = x) d)"

lemma open_count_simps [simp]:
  "open_count [] x = 0" "open_count ((k, v) # d) x = (if v = x then Suc (open_count d x) else open_count d x)"
  by (simp_all add: open_count_def)

lemma open_count_set: "open_count (dict_set d k v) x \<le> open_count d x + (if v = x then 1 else 0)"
  by (induction d) (auto split: prod.splits)

lemma open_count_delete: "open_count (dict_pop d k) x \<le> open_count d x"
proof (induction d)
  case (Cons kv d)
  then show ?case by (cases kv) (auto split: if_splits intro: le_SucI)
qed simp

lemma open_count_pop: "dict_get d k = Some v \<Longrightarrow> open_count (dict_pop d k) v < open_count d v"
proof (induction d)
  case (Cons kv d)
  then show ?case
    using open_count_delete[where d = d and k = k and x = v] by (cases kv) (auto split: if_splits simp: less_Suc_eq_le)
qed simp

lemma anthropic_body_paired: "paired x (open_count d x) (anthropic_body d es)"
proof (induction es arbitrary: d)
  case (Cons e es)
  show ?case
  proof (cases e)
    case (BlockStart i b)
    show ?thesis
    proof (cases b)
      case (Some ni)
      have "paired x (if ni = x then Suc (open_count d x) else open_count d x) (anthropic_body (dict_set d i ni) es)"
        by (rule paired_mono[OF Cons]) (use open_count_set[of i ni d x] in auto)
      then show ?thesis using BlockStart Some by (cases ni) (auto simp: anthropic_step_def)
    qed (use BlockStart Cons in \<open>simp add: anthropic_step_def\<close>)
  next
    case (BlockStop i)
    show ?thesis
    proof (cases "dict_get d i")
      case (Some ni)
      show ?thesis
      proof (cases "ni = x")
        case True
        have "paired x (open_count d x - 1) (anthropic_body (dict_pop d i) es)"
          by (rule paired_mono[OF Cons]) (use open_count_pop[OF Some] True in auto)
        then show ?thesis using BlockStop Some True open_count_pop[OF Some]
          by (cases ni) (auto simp: anthropic_step_def)
      next
        case False
        have "paired x (open_count d x) (anthropic_body (dict_pop d i) es)"
          by (rule paired_mono[OF Cons open_count_delete])
        then show ?thesis using BlockStop Some False by (cases ni) (auto simp: anthropic_step_def)
      qed
    qed (use BlockStop Cons in \<open>simp add: anthropic_step_def\<close>)
  qed (use Cons in \<open>auto simp: anthropic_step_def split: prod.splits\<close>)
qed simp

lemma anthropic_body_events: "list_all body_event (anthropic_body d es)" "texts (anthropic_body d es) = sdk_texts es"
proof (induction es arbitrary: d)
  case (Cons e es)
  {
    case 1
    show ?case using Cons(1)
      by (cases e) (auto simp: anthropic_step_def body_event_def split: option.splits prod.splits)
  next
    case 2
    show ?case using Cons(2)
      by (cases e) (auto simp: anthropic_step_def sdk_texts_def texts_def split: option.splits prod.splits)
  }
qed (simp_all add: sdk_texts_def)

text \<open>A step keeps a continuation paired that is paired after it.\<close>

definition keeps_paired :: "(open_tools \<Rightarrow> open_tools \<times> stream_event list) \<Rightarrow> bool" where
  "keeps_paired f \<longleftrightarrow> (\<forall>d x rest. paired x (open_count (fst (f d)) x) rest \<longrightarrow>
     paired x (open_count d x) (snd (f d) @ rest))"

lemma keeps_paired_then:
  "keeps_paired f \<Longrightarrow> keeps_paired g \<Longrightarrow>
   keeps_paired (\<lambda>d. case f d of (d1, es) \<Rightarrow> case g d1 of (d2, es') \<Rightarrow> (d2, es @ es'))"
  by (simp add: keeps_paired_def split_beta)

lemma delta_step_keeps: "keeps_paired (\<lambda>d. delta_step d t)"
  unfolding keeps_paired_def
proof (intro allI impI)
  fix d x rest
  define name where "name = (if td_name t = [] then ''?'' else td_name t)"
  assume p: "paired x (open_count (fst (delta_step d t)) x) rest"
  show "paired x (open_count d x) (snd (delta_step d t) @ rest)"
  proof (cases "td_id t = []")
    case True
    with p show ?thesis by (auto simp: delta_step_def Let_def split_beta)
  next
    case False
    then have d1: "fst (delta_step d t) = dict_set d (td_index t) (name, td_id t)"
      by (simp add: delta_step_def name_def Let_def split_beta)
    have "paired x (if (name, td_id t) = x then Suc (open_count d x) else open_count d x) rest"
      by (rule paired_mono[OF p]) (use open_count_set[of "td_index t" "(name, td_id t)" d x] in \<open>auto simp: d1\<close>)
    with False show ?thesis
      by (cases x) (auto simp: delta_step_def name_def Let_def split_beta split: if_splits)
  qed
qed

lemma deltas_keep: "keeps_paired (\<lambda>d. deltas d ts)"
proof (induction ts)
  case (Cons t ts)
  have "keeps_paired (\<lambda>d. case delta_step d t of (d1, es) \<Rightarrow> case deltas d1 ts of (d2, es') \<Rightarrow> (d2, es @ es'))"
    by (rule keeps_paired_then[OF delta_step_keeps Cons])
  then show ?case by simp
qed (simp add: keeps_paired_def)

lemma chunk_step_keeps: "keeps_paired (\<lambda>d. chunk_step d c)"
  using deltas_keep by (auto simp: keeps_paired_def chunk_step_def split_beta split: option.split)

lemma openai_body_keeps: "keeps_paired (\<lambda>d. openai_body d cs)"
proof (induction cs)
  case (Cons c cs)
  have "keeps_paired (\<lambda>d. case chunk_step d c of (d1, es) \<Rightarrow> case openai_body d1 cs of (d2, es') \<Rightarrow> (d2, es @ es'))"
    by (rule keeps_paired_then[OF chunk_step_keeps Cons])
  then show ?case by simp
qed (simp add: keeps_paired_def)

lemma flush_paired: "paired x (open_count d x) (map (\<lambda>(k, n, i). SE_ToolEnd n i) d @ rest) \<longleftrightarrow> paired x 0 rest"
  by (induction d) (auto split: prod.splits)

lemma delta_step_events: "list_all body_event (snd (delta_step d t))" "texts (snd (delta_step d t)) = []"
  by (auto simp: delta_step_def Let_def split_beta body_event_def)

lemma deltas_events: "list_all body_event (snd (deltas d ts)) \<and> texts (snd (deltas d ts)) = []"
proof (induction ts arbitrary: d)
  case (Cons t ts)
  then show ?case using delta_step_events[of d t] by (simp add: split_beta)
qed simp

lemma chunk_step_events:
  "list_all body_event (snd (chunk_step d c)) \<and> texts (snd (chunk_step d c)) = chunk_texts [c]"
  using deltas_events[of d] by (auto simp: chunk_step_def chunk_texts_def split_beta body_event_def split: option.splits)

lemma openai_body_events: "list_all body_event (snd (openai_body d cs)) \<and> texts (snd (openai_body d cs)) = chunk_texts cs"
proof (induction cs arbitrary: d)
  case (Cons c cs)
  have "chunk_texts (c # cs) = chunk_texts [c] @ chunk_texts cs" by (simp add: chunk_texts_def)
  then show ?case using Cons chunk_step_events[of d c] by (simp add: split_beta)
qed (simp add: chunk_texts_def)

lemma flush_events:
  fixes d :: open_tools
  shows "list_all body_event (map (\<lambda>(k, n, i). SE_ToolEnd n i) d)" "texts (map (\<lambda>(k, n, i). SE_ToolEnd n i) d) = []"
  by (induction d) (auto simp: body_event_def)

lemma chunks_concat: "0 < n \<Longrightarrow> concat (chunks_of n s) = s"
proof (induction n s rule: chunks_of.induct)
  case (1 n s)
  then show ?case by (subst chunks_of.simps) auto
qed

lemma mock_chunks_concat: "concat (mock_chunks s) = s"
  by (simp add: mock_chunks_def chunks_concat)

text \<open>What a stream of events looks like that ends without an exception.\<close>

definition stream_shape :: "stream_event list \<Rightarrow> bool" where
  "stream_shape es \<longleftrightarrow> (\<exists>body tail u. es = body @ tail @ [SE_Done u] \<and> list_all body_event body \<and>
     (tail = [] \<or> (\<exists>m. tail = [SE_Error m]))) \<and> (\<forall>x. paired x 0 es)"

lemma stream_shapeI:
  assumes "list_all body_event body" and "\<forall>x. paired x 0 (body @ tail @ [SE_Done u])" and "tail = [] \<or> (\<exists>m. tail = [SE_Error m])"
  shows "stream_shape (body @ tail @ [SE_Done u])"
  using assms unfolding stream_shape_def by blast

lemma paired_append_rest:
  "paired x n body \<Longrightarrow> list_all (\<lambda>e. case e of SE_ToolEnd _ _ \<Rightarrow> False | _ \<Rightarrow> True) rest \<Longrightarrow> paired x n (body @ rest)"
proof (induction body arbitrary: n)
  case Nil
  have "paired x n rest" for n using Nil(2) by (induction rest arbitrary: n) (auto split: stream_event.splits)
  then show ?case by simp
qed (auto split: stream_event.splits if_splits)

lemma map_text_paired: "paired x n (map SE_Text ss @ [SE_Done u])" "list_all body_event (map SE_Text ss)"
  "texts (map SE_Text ss) = concat ss"
  by (induction ss) (auto simp: body_event_def texts_def)

lemma mock_shape: "stream_shape (mock_stream_events dumps)"
  "texts (mock_stream_events dumps) = fst (mock_response dumps [] [\<lparr> ms_role = ''user'', ms_content = CText ''x'' \<rparr>])"
  using stream_shapeI[where tail = "[]" and body = "map SE_Text ss" and u = u for ss u] map_text_paired mock_chunks_concat
  by (auto simp: mock_stream_events_def split_beta)

lemma openai_shape:
  assumes "client"
  shows "stream_shape (fst (stream_openai_events client dumps config cs raised unbound duration))" (is ?s)
    and "texts (fst (stream_openai_events client dumps config cs raised unbound duration)) = chunk_texts cs" (is ?t)
    and "\<not> snd (stream_openai_events client dumps config cs raised unbound duration)" (is ?r)
proof -
  obtain d body where b: "openai_body [] cs = (d, body)" by force
  have ev: "list_all body_event body" "texts body = chunk_texts cs" using openai_body_events[of "[]" cs] b by simp_all
  have k: "paired x (open_count d x) rest \<Longrightarrow> paired x 0 (body @ rest)" for x rest
    using openai_body_keeps[of cs] b unfolding keeps_paired_def by (metis fst_conv snd_conv open_count_simps(1))
  have tail: "paired x n (tail @ [SE_Done u])" if "tail = [] \<or> (\<exists>m. tail = [SE_Error m])" for x n tail u
    using that by auto
  have raised_shape: "stream_shape (body @ [SE_Error m, SE_Done u])" for m u
    using stream_shapeI[OF ev(1), where tail = "[SE_Error m]" and u = u] k tail by auto
  have closed: "list_all body_event (body @ map (\<lambda>(k, n, i). SE_ToolEnd n i) d)" using ev flush_events(1)[of d] by simp
  have closed_shape: "stream_shape ((body @ map (\<lambda>(k, n, i). SE_ToolEnd n i) d) @ t @ [SE_Done u])"
    if "t = [] \<or> (\<exists>m. t = [SE_Error m])" for t u
    by (rule stream_shapeI[OF closed _ that]) (use k flush_paired tail[OF that] in auto)
  show ?s
    using assms raised_shape closed_shape[of "[]"] closed_shape[of "[SE_Error _]"] b
    by (cases raised) (auto simp: stream_openai_events_def Let_def)
  show ?t using assms ev(2) flush_events(2)[of d] b
    by (cases raised) (auto simp: stream_openai_events_def Let_def texts_def)
  show ?r using assms b by (cases raised) (auto simp: stream_openai_events_def Let_def)
qed

lemma anthropic_shape:
  assumes "client" and "stream_anthropic_events client dumps config sp ms es ending duration = (out, False)"
  shows "stream_shape out" and "texts out = sdk_texts es"
proof -
  note ev = anthropic_body_events[of "[]" es]
  have p: "paired x 0 (anthropic_body [] es @ rest)"
    if "list_all (\<lambda>e. case e of SE_ToolEnd _ _ \<Rightarrow> False | _ \<Rightarrow> True) rest" for x rest
    using paired_append_rest[OF anthropic_body_paired[of x "[]" es] that] by simp
  obtain tail u where o: "out = anthropic_body [] es @ tail @ [SE_Done u]" "tail = [] \<or> (\<exists>m. tail = [SE_Error m])"
  proof -
    from assms show thesis
      by (auto simp: stream_anthropic_events_def intro: that[of "[]"] that[of "[SE_Error _]"]
        split: option.splits anthropic_end.splits prod.splits)
  qed
  have "list_all (\<lambda>e. case e of SE_ToolEnd _ _ \<Rightarrow> False | _ \<Rightarrow> True) (tail @ [SE_Done u])" using o(2) by auto
  from stream_shapeI[OF ev(1) _ o(2)] p[OF this] show "stream_shape out" unfolding o(1) by blast
  show "texts out = sdk_texts es" using o ev(2) by auto
qed

text \<open>C11: A stream of events that does not raise is a sequence of texts and tool events, at most one error,
  and one final \<open>done\<close>; every end of a tool call follows its start; and the texts are those of the provider,
  in order and complete up to where the stream broke off.\<close>

theorem stream_protocol:
  assumes "stream_events env config sp ms s = (es, False)"
  shows "(\<exists>body tail u. es = body @ tail @ [SE_Done u] \<and> list_all body_event body \<and> (tail = [] \<or> (\<exists>m. tail = [SE_Error m]))) \<and>
    (\<forall>x. paired x 0 es) \<and>
    texts es =
      (if re_mock_mode env \<or> re_provider env \<notin> {''anthropic'', ''openai''} \<or>
          (re_provider env = ''anthropic'' \<and> \<not> re_anthropic_client env) \<or> (re_provider env = ''openai'' \<and> \<not> re_openai_client env)
       then fst (mock_response (re_dumps env) [] [\<lparr> ms_role = ''user'', ms_content = CText ''x'' \<rparr>])
       else if re_provider env = ''anthropic'' then sdk_texts (si_anthropic s) else chunk_texts (si_openai s))"
proof -
  let ?mock = "re_mock_mode env \<or> re_provider env \<notin> {''anthropic'', ''openai''} \<or>
     (re_provider env = ''anthropic'' \<and> \<not> re_anthropic_client env) \<or> (re_provider env = ''openai'' \<and> \<not> re_openai_client env)"
  have "stream_shape es \<and> texts es = (if ?mock then fst (mock_response (re_dumps env) [] [\<lparr> ms_role = ''user'', ms_content = CText ''x'' \<rparr>])
       else if re_provider env = ''anthropic'' then sdk_texts (si_anthropic s) else chunk_texts (si_openai s))"
  proof (cases ?mock)
    case True
    then have "es = mock_stream_events (re_dumps env)"
      using assms by (auto simp: stream_events_def stream_anthropic_events_def stream_openai_events_def split: if_splits)
    then show ?thesis using True mock_shape by simp
  next
    case False
    show ?thesis
    proof (cases "re_provider env = ''anthropic''")
      case True
      then show ?thesis using False assms anthropic_shape[where client = True] by (auto simp: stream_events_def)
    next
      case nope: False
      then have "es = fst (stream_openai_events True (re_dumps env) config (si_openai s) (si_openai_raised s) (si_unbound_text s) (si_duration s))"
        using False assms by (auto simp: stream_events_def)
      then show ?thesis using False nope openai_shape(1,2)[where client = True] by auto
    qed
  qed
  then show ?thesis unfolding stream_shape_def by blast
qed

definition stream_env :: "nat router_env" where
  "stream_env = sample_env \<lparr> re_provider := ''openai'', re_openai_client := True \<rparr>"

definition stream_sample :: stream_input where
  "stream_sample = \<lparr> si_anthropic = [], si_anthropic_end = AnthropicRaised [],
     si_openai = [\<lparr> oc_delta = Some (''Let me look'', [\<lparr> td_index = 0, td_id = ''c1'', td_name = ''search'', td_arguments = [] \<rparr>]),
                    oc_has_choice = True, oc_usage = None \<rparr>,
                  \<lparr> oc_delta = Some ([], [\<lparr> td_index = 0, td_id = [], td_name = [], td_arguments = ''{}'' \<rparr>]),
                    oc_has_choice = True, oc_usage = None \<rparr>],
     si_openai_raised = None, si_unbound_text = [], si_duration = 0 \<rparr>"

theorem stream_protocol_witness:
  "\<exists>es. stream_events stream_env sample_config [] [] stream_sample = (es, False) \<and>
     texts es = ''Let me look'' \<and> paired (''search'', ''c1'') 0 es \<and>
     SE_ToolStart ''search'' ''c1'' \<in> set es \<and> SE_ToolEnd ''search'' ''c1'' \<in> set es"
proof -
  let ?es = "[SE_Text ''Let me look'', SE_ToolStart ''search'' ''c1'', SE_ToolInput ''search'' ''c1'' ''{}'', SE_ToolEnd ''search'' ''c1'',
      SE_Done (done_usage (lg_model sample_config) 0 0 0 0 0)]"
  have e: "stream_events stream_env sample_config [] [] stream_sample = (?es, False)"
    by (simp add: stream_events_def stream_openai_events_def stream_env_def sample_env_def stream_sample_def
        chunk_step_def delta_step_def dict_get_or_def chunk_usage_def Let_def)
  from stream_protocol[OF this] have "texts ?es = ''Let me look''" "paired (''search'', ''c1'') 0 ?es"
    by (simp_all add: stream_env_def sample_env_def stream_sample_def chunk_texts_def)
  with e show ?thesis by (intro exI[of _ ?es]) simp
qed

subsection \<open>Where a stream says less than the call\<close>

text \<open>A stream without chunks is an error: the code reads the last chunk.\<close>

lemma empty_stream_is_error:
  "fst (stream_openai_events True dumps config [] None m duration) =
     [SE_Error (''OpenAI stream error: '' @ m), SE_Done (done_usage (lg_model config) 0 0 0 0 duration)]"
  by (simp add: stream_openai_events_def Let_def)

text \<open>A final message without token counts ends the generator with an exception and no \<open>done\<close>.\<close>

lemma missing_counts_lose_done:
  assumes "truncate_messages dumps sp ms (lg_model config) (lg_max_tokens config) = Some r" and "au_input u = None"
  shows "stream_anthropic_events True dumps config sp ms es (AnthropicFinal u) duration = (anthropic_body [] es, True)"
  using assms by (simp add: stream_anthropic_events_def)

text \<open>In the text-only wrapper a stream that broke off looks like a complete one.\<close>

lemma text_items_body:
  assumes "list_all body_event body"
  shows "text_items (body @ SE_Error m # [SE_Done u]) = text_items (body @ [SE_Done u])"
  using assms
proof (induction body)
  case (Cons e body)
  then show ?case by (cases e) (simp_all add: body_event_def)
qed simp

text \<open>The mock stream has no tool events.\<close>

lemma mock_stream_has_no_tools:
  "e \<in> set (mock_stream_events dumps) \<Longrightarrow> (\<exists>s. e = SE_Text s) \<or> (\<exists>u. e = SE_Done u)"
  by (auto simp: mock_stream_events_def split_beta)

text \<open>Cached tokens are free in the cost of a stream, unlike in that of a call.\<close>

lemma stream_cost_ignores_cache:
  "lu_cost_estimate (done_usage model i out cr cw dur) = router_estimate_cost model i out 0 0"
  by (simp add: done_usage_def)

text \<open>A second call with the index of an open one replaces it: the first one never ends.\<close>

lemma reused_index_never_ends:
  "fst (stream_openai_events True dumps config
      [\<lparr> oc_delta = Some ([], [\<lparr> td_index = 0, td_id = ''a'', td_name = ''f'', td_arguments = [] \<rparr>,
                              \<lparr> td_index = 0, td_id = ''b'', td_name = ''g'', td_arguments = [] \<rparr>]),
         oc_has_choice = True, oc_usage = None \<rparr>] None m dur) =
     [SE_ToolStart ''f'' ''a'', SE_ToolStart ''g'' ''b'', SE_ToolEnd ''g'' ''b'', SE_Done (done_usage (lg_model config) 0 0 0 0 dur)]"
  by (simp add: stream_openai_events_def chunk_step_def delta_step_def dict_get_or_def chunk_usage_def Let_def)

end
