(* ===== verification/Schema_Validation.thy ===== *)
theory Schema_Validation
  imports Memory_Graph Py_Time
begin

section \<open>Validation of outputs (core/schema.py)\<close>

text \<open>
  The standard output of an agent, its tiered validation with repairs, and the record of a
  validation in the memory graph. A custom validator is a function that may change the output
  and returns its findings, returns something else, or raises. The random part of a generated
  id is a parameter.
\<close>

subsection \<open>Data\<close>

record next_step =
  ns_action :: string
  ns_agent :: string
  ns_description :: "string option"

record output_schema =
  os_id :: string
  os_type :: string
  os_created_at :: "int option"
  os_created_by :: string
  os_schema_version :: string
  os_payload :: pydict
  os_metadata :: pydict
  os_next_steps :: "next_step list"
  os_partial :: bool
  os_validation_warnings :: "string list"

record validation_result =
  vr_valid :: bool
  vr_errors :: "string list"
  vr_warnings :: "string list"
  vr_repairs :: "string list"

text \<open>The id as it is stored: \<open>None\<close> becomes empty, anything else is stripped text.\<close>

definition validate_id :: "(pyval \<Rightarrow> string) \<Rightarrow> pyval \<Rightarrow> string" where
  "validate_id to_str v = (if v = PNone then [] else strip (to_str v))"

definition date_digits :: "int \<Rightarrow> string" where
  "date_digits days = (case civil_of_days days of (y, m, d) \<Rightarrow> padded 4 y @ padded 2 m @ padded 2 d)"

definition generate_id :: "string \<Rightarrow> string \<Rightarrow> microseconds \<Rightarrow> string" where
  "generate_id pre hex now = pre @ ''-'' @ date_digits (now div day) @ ''-'' @ take 8 hex"

subsection \<open>The validator\<close>

datatype validator_reply =
    VReply validation_result
  | VOther
  | VRaised string string

type_synonym output_validator = "output_schema \<Rightarrow> output_schema \<times> validator_reply"

type_synonym schema_validator = "(string, output_validator) dict"

definition min_payload_fields :: nat where
  "min_payload_fields = 2"

definition register_validator :: "schema_validator \<Rightarrow> string \<Rightarrow> output_validator \<Rightarrow> schema_validator" where
  "register_validator sv ty v = dict_set sv ty v"

text \<open>Tier 3: filling in what is missing. The second part is the repairs, the third the errors.\<close>

definition repair_fields ::
  "output_schema \<Rightarrow> string option \<Rightarrow> string \<Rightarrow> microseconds \<Rightarrow> output_schema \<times> string list \<times> string list" where
  "repair_fields out agent hex now =
     (let auto_id = generate_id ''auto'' hex now;
          o1 = (if os_id out = [] then out\<lparr>os_id := auto_id\<rparr> else out);
          r1 = (if os_id out = [] then [''id auto-repaired to '' @ repr_str auto_id] else []);
          o2 = (if os_schema_version o1 = [] then o1\<lparr>os_schema_version := ''1.0''\<rparr> else o1);
          r2 = (if os_schema_version o1 = [] then r1 @ [''schema_version auto-repaired to '' @ repr_str ''1.0''] else r1);
          o3 = (if os_created_at o2 = None then o2\<lparr>os_created_at := Some now\<rparr> else o2);
          r3 = (if os_created_at o2 = None then r2 @ [''created_at auto-repaired to now()''] else r2)
      in if os_created_by o3 \<noteq> [] then (o3, r3, [])
         else case agent of
             Some a \<Rightarrow> if a = [] then (o3, r3, [''created_by is required and could not be auto-repaired''])
                      else (o3\<lparr>os_created_by := a\<rparr>,
                            r3 @ [''created_by auto-repaired to agent_name='' @ repr_str a], [])
           | None \<Rightarrow> (o3, r3, [''created_by is required and could not be auto-repaired'']))"

text \<open>Tier 2: the payload decides whether the output is partial.\<close>

definition check_payload :: "output_schema \<Rightarrow> output_schema \<times> string list" where
  "check_payload out =
     (if os_payload out = [] then (out, [''payload is empty; treating as empty result''])
      else if dict_has (os_payload out) ''raw_output'' \<and> length (os_payload out) = 1
      then (out\<lparr>os_partial := True\<rparr>,
            [''payload contains only raw_output; LLM did not return valid JSON. Marked as partial output.''])
      else if length (os_payload out) < min_payload_fields
      then (out\<lparr>os_partial := True\<rparr>,
            [''payload has only '' @ show_nat (length (os_payload out)) @ '' fields (min '' @
             show_nat min_payload_fields @ ''); marked as partial output''])
      else (out, []))"

definition run_validator :: "schema_validator \<Rightarrow> output_schema \<Rightarrow> output_schema \<times> string list \<times> string list" where
  "run_validator sv out =
     (case dict_get sv (os_type out) of
        None \<Rightarrow> (out, [], [])
      | Some v \<Rightarrow>
          (case v out of
             (out', VReply r) \<Rightarrow> (out', vr_errors r, vr_warnings r)
           | (out', VOther) \<Rightarrow> (out', [], [])
           | (out', VRaised ty msg) \<Rightarrow> (out', [''custom validator raised: '' @ ty @ '': '' @ msg], [])))"

fun step_errors :: "nat \<Rightarrow> next_step list \<Rightarrow> string list" where
  "step_errors i [] = []"
| "step_errors i (s # ss) =
     (if ns_action s = [] then [''next_steps['' @ show_nat i @ ''].action is empty''] else []) @
     (if ns_agent s = [] then [''next_steps['' @ show_nat i @ ''].agent is empty''] else []) @
     step_errors (Suc i) ss"

definition validate_and_repair ::
  "schema_validator \<Rightarrow> output_schema \<Rightarrow> string option \<Rightarrow> string \<Rightarrow> microseconds \<Rightarrow> output_schema \<times> validation_result" where
  "validate_and_repair sv out agent hex now =
     (case repair_fields out agent hex now of (o1, repairs, errors1) \<Rightarrow>
      let errors2 = (if os_type o1 = [] then errors1 @ [''type is required (cannot auto-repair)''] else errors1) in
      case check_payload o1 of (o2, warnings1) \<Rightarrow>
      let warnings2 = (if os_metadata o2 = [] then warnings1 @ [''metadata is empty''] else warnings1);
          warnings3 = (if os_next_steps o2 = []
                       then warnings2 @ [''next_steps is empty (no follow-up actions specified)''] else warnings2)
      in case run_validator sv o2 of (o3, custom_errors, custom_warnings) \<Rightarrow>
      let errors3 = errors2 @ custom_errors @ step_errors 0 (os_next_steps o3);
          warnings4 = warnings3 @ custom_warnings
      in (o3\<lparr>os_validation_warnings := warnings4\<rparr>,
          \<lparr> vr_valid = (length errors3 = 0), vr_errors = errors3, vr_warnings = warnings4, vr_repairs = repairs \<rparr>))"

definition validate :: "schema_validator \<Rightarrow> output_schema \<Rightarrow> string \<Rightarrow> microseconds \<Rightarrow> output_schema \<times> validation_result" where
  "validate sv out hex now = validate_and_repair sv out None hex now"

subsection \<open>The record of a validation\<close>

definition strs :: "string list \<Rightarrow> pyval" where
  "strs xs = PList (map PStr xs)"

definition validation_payload ::
  "string \<Rightarrow> string \<Rightarrow> output_schema \<Rightarrow> validation_result \<Rightarrow> string option \<Rightarrow> pydict" where
  "validation_payload task_id agent out result raw =
     (let p = [(''task_id'', PStr task_id), (''agent_name'', PStr agent), (''valid'', PBool (vr_valid result)),
               (''errors'', strs (vr_errors result)), (''warnings'', strs (vr_warnings result)),
               (''repairs'', strs (vr_repairs result)), (''partial'', PBool (os_partial out)),
               (''output_id'', PStr (os_id out)), (''output_type'', PStr (os_type out))]
      in case raw of
           Some t \<Rightarrow> if t = [] then p else dict_set p ''raw_llm_text_preview'' (PStr (take 2000 t))
         | None \<Rightarrow> p)"

definition validation_outcome :: "output_schema \<Rightarrow> validation_result \<Rightarrow> node_type \<times> string" where
  "validation_outcome out result =
     (if \<not> vr_valid result then (N_FAILURE, ''schema_violation'')
      else if os_partial out then (N_FAILURE, ''partial_output'')
      else (N_OUTPUT, ''validation_passed''))"

definition record_validation ::
  "graph \<Rightarrow> string \<Rightarrow> string \<Rightarrow> output_schema \<Rightarrow> validation_result \<Rightarrow> string option \<Rightarrow> string \<Rightarrow> microseconds \<Rightarrow>
   graph \<times> string" where
  "record_validation g task_id agent out result raw hex now =
     (let node_id = generate_id ''validation'' hex now;
          (ty, action) = validation_outcome out result;
          node = \<lparr> gn_id = node_id, gn_type = ty,
                   gn_content = dict_set (validation_payload task_id agent out result raw) ''action'' (PStr action),
                   gn_metadata = [(''source'', PStr ''schema_validator''), (''task_id'', PStr task_id)],
                   gn_created_at = now, gn_updated_at = now \<rparr>
      in (add_node g node now, node_id))"

subsection \<open>What the validator guarantees\<close>

definition agent_known :: "string option \<Rightarrow> bool" where
  "agent_known agent \<longleftrightarrow> agent \<noteq> None \<and> agent \<noteq> Some []"

text \<open>The output after the repairs.\<close>

definition repaired :: "output_schema \<Rightarrow> string option \<Rightarrow> string \<Rightarrow> microseconds \<Rightarrow> output_schema" where
  "repaired out agent hex now =
     out\<lparr>os_id := (if os_id out = [] then generate_id ''auto'' hex now else os_id out),
         os_schema_version := (if os_schema_version out = [] then ''1.0'' else os_schema_version out),
         os_created_at := (case os_created_at out of None \<Rightarrow> Some now | Some t \<Rightarrow> Some t),
         os_created_by := (if os_created_by out = [] \<and> agent_known agent then the agent else os_created_by out)\<rparr>"

definition needs_no_repair :: "output_schema \<Rightarrow> string option \<Rightarrow> bool" where
  "needs_no_repair out agent \<longleftrightarrow> os_id out \<noteq> [] \<and> os_schema_version out \<noteq> [] \<and> os_created_at out \<noteq> None \<and>
     (os_created_by out \<noteq> [] \<or> \<not> agent_known agent)"

text \<open>Validators that only read the output, and not the warnings of an earlier run.\<close>

definition reads_only :: "schema_validator \<Rightarrow> bool" where
  "reads_only sv \<longleftrightarrow> (\<forall>ty v. dict_get sv ty = Some v \<longrightarrow>
     (\<forall>x w. fst (v x) = x \<and> snd (v (x\<lparr>os_validation_warnings := w\<rparr>)) = snd (v x)))"

lemma generate_id_nonempty [simp]: "generate_id pre hex now \<noteq> []"
  by (simp add: generate_id_def)

lemma repair_fields_output: "fst (repair_fields out agent hex now) = repaired out agent hex now"
  by (cases "os_id out = []"; cases "os_schema_version out = []"; cases "os_created_at out";
      cases "os_created_by out = []"; cases "agent_known agent"; cases agent)
     (simp_all add: repair_fields_def repaired_def agent_known_def Let_def)

lemma repair_fields_errors:
  "snd (snd (repair_fields out agent hex now)) =
     (if os_created_by (repaired out agent hex now) = []
      then [''created_by is required and could not be auto-repaired''] else [])"
  by (cases "os_created_by out = []"; cases "agent_known agent"; cases agent)
     (simp_all add: repair_fields_def repaired_def agent_known_def Let_def)

lemma repair_fields_noop:
  "needs_no_repair out agent \<Longrightarrow> fst (snd (repair_fields out agent hex now)) = []"
  by (auto simp: repair_fields_def needs_no_repair_def agent_known_def Let_def split: option.split)

lemma repaired_noop: "needs_no_repair out agent \<Longrightarrow> repaired out agent hex now = out"
  by (rule output_schema.equality) (auto simp: repaired_def needs_no_repair_def)

lemma repaired_needs_no_repair: "needs_no_repair (repaired out agent hex now) agent"
  by (auto simp: needs_no_repair_def repaired_def agent_known_def split: option.split)

lemma repaired_other [simp]:
  "os_type (repaired out agent hex now) = os_type out" "os_payload (repaired out agent hex now) = os_payload out"
  "os_metadata (repaired out agent hex now) = os_metadata out"
  "os_next_steps (repaired out agent hex now) = os_next_steps out"
  "os_partial (repaired out agent hex now) = os_partial out"
  by (simp_all add: repaired_def)

lemma check_payload_output:
  "fst (check_payload out) = out\<lparr>os_partial := (os_partial out \<or> length (os_payload out) = 1)\<rparr>"
  by (rule output_schema.equality)
     (auto simp: check_payload_def min_payload_fields_def less_Suc_eq numeral_2_eq_2)

lemma step_errors_empty: "step_errors i ss = [] \<longleftrightarrow> (\<forall>s \<in> set ss. ns_action s \<noteq> [] \<and> ns_agent s \<noteq> [])"
  by (induction i ss rule: step_errors.induct) auto

lemma run_validator_reads:
  assumes "reads_only sv"
  shows "fst (run_validator sv out) = out"
    and "snd (run_validator sv (out\<lparr>os_validation_warnings := w\<rparr>)) = snd (run_validator sv out)"
proof -
  have r: "fst (v x) = x" "snd (v (x\<lparr>os_validation_warnings := w\<rparr>)) = snd (v x)"
    if "dict_get sv (os_type out) = Some v" for v x
    using assms that unfolding reads_only_def by blast+
  show "fst (run_validator sv out) = out"
    using r(1)[of _ out] by (auto simp: run_validator_def split: option.splits prod.splits validator_reply.splits)
  show "snd (run_validator sv (out\<lparr>os_validation_warnings := w\<rparr>)) = snd (run_validator sv out)"
    using r(2)[of _ out] by (auto simp: run_validator_def split: option.splits prod.splits validator_reply.splits)
qed

text \<open>The output and the errors of a run with validators that only read.\<close>

definition checked :: "output_schema \<Rightarrow> string option \<Rightarrow> string \<Rightarrow> microseconds \<Rightarrow> output_schema" where
  "checked out agent hex now =
     (repaired out agent hex now)\<lparr>os_partial := (os_partial out \<or> length (os_payload out) = 1)\<rparr>"

definition custom_ok :: "schema_validator \<Rightarrow> output_schema \<Rightarrow> bool" where
  "custom_ok sv out \<longleftrightarrow> fst (snd (run_validator sv out)) = []"

lemma validate_output:
  assumes "reads_only sv"
  shows "fst (validate_and_repair sv out agent hex now) =
    (checked out agent hex now)\<lparr>os_validation_warnings := vr_warnings (snd (validate_and_repair sv out agent hex now))\<rparr>"
  by (simp add: validate_and_repair_def Let_def split_beta repair_fields_output check_payload_output
      run_validator_reads(1)[OF assms] checked_def)

lemma validate_valid:
  assumes "reads_only sv"
  shows "vr_valid (snd (validate_and_repair sv out agent hex now)) \<longleftrightarrow>
    os_type out \<noteq> [] \<and> (os_created_by out \<noteq> [] \<or> agent_known agent) \<and>
    (\<forall>s \<in> set (os_next_steps out). ns_action s \<noteq> [] \<and> ns_agent s \<noteq> []) \<and>
    custom_ok sv (checked out agent hex now)"
proof -
  have "os_created_by (repaired out agent hex now) \<noteq> [] \<longleftrightarrow> os_created_by out \<noteq> [] \<or> agent_known agent"
    by (auto simp: repaired_def agent_known_def)
  then show ?thesis
    by (auto simp: validate_and_repair_def Let_def split_beta repair_fields_output check_payload_output
        run_validator_reads(1)[OF assms] checked_def custom_ok_def step_errors_empty repair_fields_errors)
qed


definition sample_output :: output_schema where
  "sample_output = \<lparr> os_id = [], os_type = ''report'', os_created_at = None, os_created_by = [], os_schema_version = [],
     os_payload = [(''raw_output'', PStr ''text'')], os_metadata = [], os_next_steps = [], os_partial = False,
     os_validation_warnings = [] \<rparr>"

definition sample_validators :: schema_validator where
  "sample_validators = [(''report'', \<lambda>x. (x, VReply \<lparr> vr_valid = True, vr_errors = [],
     vr_warnings = (if os_partial x then [''partial report''] else []), vr_repairs = [] \<rparr>))]"

lemma sample_reads_only: "reads_only sample_validators"
  by (simp add: reads_only_def sample_validators_def)


lemma check_payload_reads:
  "os_payload a = os_payload b \<Longrightarrow> snd (check_payload a) = snd (check_payload b)"
  by (simp add: check_payload_def)

text \<open>Repairing is idempotent: a second validation of the output, at any later time, repairs nothing, changes
  nothing and gives the same errors, warnings and verdict.\<close>

theorem validation_idempotent:
  assumes "reads_only sv" and "validate_and_repair sv out agent hex now = (o', r)"
  shows "validate_and_repair sv o' agent hex' now' = (o', r\<lparr>vr_repairs := []\<rparr>)"
proof -
  let ?o1 = "repaired out agent hex now" and ?o2 = "checked out agent hex now"
  have o': "o' = ?o2\<lparr>os_validation_warnings := vr_warnings r\<rparr>"
    using validate_output[OF assms(1), of out agent hex now] assms(2) by simp
  have same: "os_payload o' = os_payload ?o1" "os_type o' = os_type ?o1" "os_created_by o' = os_created_by ?o1"
    "os_metadata o' = os_metadata ?o1" "os_next_steps o' = os_next_steps ?o1"
    by (simp_all add: o' checked_def)
  have need: "needs_no_repair o' agent"
    using repaired_needs_no_repair[of out agent hex now] by (simp add: o' checked_def needs_no_repair_def)
  have rf: "repair_fields o' agent hex' now' = (o', [], snd (snd (repair_fields out agent hex now)))"
    using repair_fields_output[of o' agent hex' now'] repair_fields_noop[OF need, of hex' now']
    by (intro prod_eqI) (simp_all add: repair_fields_errors repaired_noop[OF need] same)
  have cp: "check_payload o' = (o', snd (check_payload ?o1))"
    using check_payload_output[of o'] check_payload_reads[of o' ?o1]
    by (intro prod_eqI) (auto simp: o' checked_def)
  have rv: "run_validator sv o' = (o', snd (run_validator sv ?o2))"
    using run_validator_reads[OF assms(1)] by (intro prod_eqI) (simp_all add: o')
  have first: "r = snd (validate_and_repair sv out agent hex now)" using assms(2) by simp
  have fields: "os_metadata ?o2 = os_metadata out" "os_next_steps ?o2 = os_next_steps out" "os_type ?o2 = os_type out"
    by (simp_all add: checked_def)
  have payload: "fst (check_payload ?o1) = ?o2" by (simp add: check_payload_output checked_def)
  show ?thesis
    unfolding validate_and_repair_def[of sv o'] rf cp rv prod.case Let_def same
    by (rule prod_eqI)
       (simp_all add: o' first validate_and_repair_def[of sv out] Let_def split_beta repair_fields_output
          payload fields run_validator_reads(1)[OF assms(1)])
qed

theorem validation_idempotent_witness:
  "vr_repairs (snd (validate_and_repair sample_validators
     (fst (validate_and_repair sample_validators sample_output (Some ''tech'') ''0123456789'' 0))
     (Some ''tech'') ''abcdefgh'' 1)) = []"
proof -
  obtain o' r where v: "validate_and_repair sample_validators sample_output (Some ''tech'') ''0123456789'' 0 = (o', r)"
    by fastforce
  show ?thesis using validation_idempotent[OF sample_reads_only v, of "''abcdefgh''" 1] by (simp add: v)
qed

subsection \<open>The audit trail of validations\<close>

lemma get_node_add:
  "get_node (add_node g n now) k =
     (if k = gn_id n
      then Some (n\<lparr>gn_created_at := (case get_node g k of None \<Rightarrow> gn_created_at n | Some m \<Rightarrow> gn_created_at m),
                   gn_updated_at := now\<rparr>)
      else get_node g k)"
  by (auto simp: add_node_def get_node_def Let_def split: option.split)

text \<open>Every validation leaves its trace: the graph gets one node, of type failure exactly when the output is
  invalid, was partial or has a single field of payload; a search for the records of the task finds it,
  no node under another id changes, and the graph keeps its invariant.\<close>

theorem validation_audited:
  assumes "graph_reach g" and "reads_only sv"
    and "validate_and_repair sv out agent hex now = (o', r)"
    and "record_validation g task who o' r raw hex2 now2 = (g', node_id)"
  shows "graph_reach g' \<and>
    (\<exists>n. get_node g' node_id = Some n \<and>
       (gn_type n = N_FAILURE \<longleftrightarrow> \<not> vr_valid r \<or> os_partial out \<or> length (os_payload out) = 1) \<and>
       n \<in> set (find_nodes g' (Some (gn_type n)) [(''metadata.task_id'', PStr task)])) \<and>
    (\<forall>k. k \<noteq> node_id \<longrightarrow> get_node g' k = get_node g k)"
proof -
  obtain ty action where out: "validation_outcome o' r = (ty, action)" by fastforce
  define n where "n = \<lparr> gn_id = node_id, gn_type = ty,
    gn_content = dict_set (validation_payload task who o' r raw) ''action'' (PStr action),
    gn_metadata = [(''source'', PStr ''schema_validator''), (''task_id'', PStr task)],
    gn_created_at = now2, gn_updated_at = now2 \<rparr>"
  have g': "g' = add_node g n now2"
    using assms(4) by (auto simp: record_validation_def Let_def out n_def)
  have reach: "graph_reach g'" unfolding g' by (rule graph_reach.reach_add[OF assms(1)])
  obtain m where m: "get_node g' node_id = Some m" "gn_type m = ty" "gn_metadata m = gn_metadata n"
    by (simp add: g' get_node_add n_def)
  have partial: "os_partial o' \<longleftrightarrow> os_partial out \<or> length (os_payload out) = 1"
    using validate_output[OF assms(2), of out agent hex now] assms(3) by (simp add: checked_def)
  have type: "ty = N_FAILURE \<longleftrightarrow> \<not> vr_valid r \<or> os_partial o'"
    using out by (auto simp: validation_outcome_def split: if_splits)
  have "nodes_ok g'" using graph_reach_ok[OF reach] by (simp add: graph_ok_def)
  then have "node_id \<in> set (dict_get_or (gr_types g') ty [])"
    using m unfolding nodes_ok_def by blast
  moreover have "filters_match [(''metadata.task_id'', PStr task)] m"
    by (simp add: filters_match_def filter_value_def m(3) n_def dict_get_or_def)
  ultimately have "m \<in> set (find_nodes g' (Some ty) [(''metadata.task_id'', PStr task)])"
    using m(1) by (auto simp: find_nodes_def map_filter_def image_iff intro!: bexI[of _ node_id])
  then show ?thesis
    using reach m type partial by (auto simp: g' get_node_add n_def)
qed

theorem validation_audited_witness:
  "\<exists>n. get_node (fst (record_validation empty_graph ''t1'' ''tech''
       (fst (validate_and_repair sample_validators sample_output (Some ''tech'') ''0123456789'' 0))
       (snd (validate_and_repair sample_validators sample_output (Some ''tech'') ''0123456789'' 0)) None ''abcdefgh'' 1))
     (generate_id ''validation'' ''abcdefgh'' 1) = Some n \<and> gn_type n = N_FAILURE"
proof -
  obtain o' r where v: "validate_and_repair sample_validators sample_output (Some ''tech'') ''0123456789'' 0 = (o', r)"
    by fastforce
  obtain g' i where g: "record_validation empty_graph ''t1'' ''tech'' o' r None ''abcdefgh'' 1 = (g', i)" by fastforce
  have "i = generate_id ''validation'' ''abcdefgh'' 1"
    using g by (auto simp: record_validation_def Let_def split: prod.splits)
  moreover have "length (os_payload sample_output) = 1" by (simp add: sample_output_def)
  ultimately show ?thesis
    using validation_audited[OF graph_reach.reach_new sample_reads_only v g] by (auto simp: v g)
qed

text \<open>A validation that passes leaves an output node, not a failure node.\<close>

lemma passed_validation_is_output:
  "vr_valid r \<Longrightarrow> \<not> os_partial out \<Longrightarrow> validation_outcome out r = (N_OUTPUT, ''validation_passed'')"
  by (simp add: validation_outcome_def)

text \<open>The older entry point repairs the output too.\<close>

lemma validate_repairs: "os_id (fst (validate [] sample_output ''0123456789'' 0)) \<noteq> []"
  by code_simp

end
