(* ===== verification/Provenance.thy ===== *)
theory Provenance
  imports LLM_Router Schema_Validation
begin

section \<open>Where an output comes from (core/observability.py)\<close>

text \<open>
  The provenance of an output: a real model, a mock, a failed call, or unknown. It is stored in the metadata
  of the output as a dictionary and read back from there. A badge is given by its parts, and its text, which
  has symbols outside ASCII, by a parameter. Reading back covers dictionaries with entries of the declared types;
  pydantic's conversions from other types are left out.
\<close>

datatype provenance_source = PV_REAL_LLM | PV_MOCK | PV_LLM_FAILURE | PV_UNKNOWN

fun source_value :: "provenance_source \<Rightarrow> string" where
  "source_value PV_REAL_LLM = ''real_llm''"
| "source_value PV_MOCK = ''mock''"
| "source_value PV_LLM_FAILURE = ''llm_failure''"
| "source_value PV_UNKNOWN = ''unknown''"

definition source_of_value :: "string \<Rightarrow> provenance_source option" where
  "source_of_value s = find (\<lambda>p. source_value p = s) [PV_REAL_LLM, PV_MOCK, PV_LLM_FAILURE, PV_UNKNOWN]"

record data_provenance =
  dp_source :: provenance_source
  dp_timestamp :: string
  dp_model :: string
  dp_provider :: string
  dp_confidence :: rat
  dp_agent_name :: string
  dp_task_id :: string
  dp_duration_ms :: rat
  dp_input_tokens :: int
  dp_output_tokens :: int
  dp_cost_usd :: rat
  dp_error :: string

text \<open>\<open>datetime.now(timezone.utc).isoformat()\<close>\<close>

definition iso_text :: "microseconds \<Rightarrow> string" where
  "iso_text t =
     (let s = t div 1000000; us = t mod 1000000; r = s mod 86400 in
      date_str (s div 86400) @ ''T'' @ padded 2 (r div 3600) @ '':'' @ padded 2 (r div 60 mod 60) @ '':'' @ padded 2 (r mod 60) @
      (if us = 0 then [] else ''.'' @ padded 6 us) @ ''+00:00'')"

definition provenance_dict :: "data_provenance \<Rightarrow> pydict" where
  "provenance_dict p =
     [(''source'', PStr (source_value (dp_source p))), (''timestamp'', PStr (dp_timestamp p)), (''model'', PStr (dp_model p)),
      (''provider'', PStr (dp_provider p)), (''confidence'', PFloat (dp_confidence p)), (''agent_name'', PStr (dp_agent_name p)),
      (''task_id'', PStr (dp_task_id p)), (''duration_ms'', PFloat (dp_duration_ms p)), (''input_tokens'', PInt (dp_input_tokens p)),
      (''output_tokens'', PInt (dp_output_tokens p)), (''cost_usd'', PFloat (dp_cost_usd p)), (''error'', PStr (dp_error p))]"

definition is_real :: "data_provenance \<Rightarrow> bool" where
  "is_real p = (dp_source p = PV_REAL_LLM)"

definition is_mock :: "data_provenance \<Rightarrow> bool" where
  "is_mock p = (dp_source p = PV_MOCK)"

datatype badge = BadgeReal string string string | BadgeMock | BadgeFailed string | BadgeOther string

text \<open>\<open>s.split("/")[-1]\<close>\<close>

definition after_slash :: "string \<Rightarrow> string" where
  "after_slash s = rev (takeWhile (\<lambda>c. c \<noteq> CHR ''/'') (rev s))"

definition badge_of :: "data_provenance \<Rightarrow> badge" where
  "badge_of p =
     (if is_real p
      then BadgeReal (if dp_model p = [] then ''LLM'' else after_slash (dp_model p)) (fixed_dec 1 (dp_duration_ms p / 1000))
             (fixed_dec 4 (dp_cost_usd p))
      else if is_mock p then BadgeMock
      else if dp_source p = PV_LLM_FAILURE then BadgeFailed (if dp_error p = [] then ''unknown'' else take 60 (dp_error p))
      else BadgeOther (source_value (dp_source p)))"

text \<open>\<open>provider\<close> is the provider the default router is configured for.\<close>

definition build_provenance ::
  "provenance_source \<Rightarrow> string \<Rightarrow> string \<Rightarrow> llm_usage option \<Rightarrow> string \<Rightarrow> string \<Rightarrow> microseconds \<Rightarrow> data_provenance" where
  "build_provenance source agent_name task_id usage error provider now =
     (let p = \<lparr> dp_source = source, dp_timestamp = iso_text now, dp_model = [], dp_provider = [],
                dp_confidence = (if source = PV_REAL_LLM then 85/100 else 0), dp_agent_name = agent_name, dp_task_id = task_id,
                dp_duration_ms = 0, dp_input_tokens = 0, dp_output_tokens = 0, dp_cost_usd = 0, dp_error = error \<rparr>
      in case usage of
           None \<Rightarrow> p
         | Some u \<Rightarrow> p \<lparr> dp_model := lu_model u, dp_duration_ms := lu_duration_ms u, dp_input_tokens := lu_input_tokens u,
                        dp_output_tokens := lu_output_tokens u, dp_cost_usd := lu_cost_estimate u, dp_provider := provider \<rparr>)"

definition attach_provenance :: "(badge \<Rightarrow> string) \<Rightarrow> output_schema \<Rightarrow> data_provenance \<Rightarrow> output_schema" where
  "attach_provenance show_badge out p = out \<lparr> os_metadata :=
     dict_set (dict_set (os_metadata out) ''data_provenance'' (PDict (provenance_dict p)))
       ''data_provenance_badge'' (PStr (show_badge (badge_of p))) \<rparr>"

text \<open>Reading an entry of a declared type, with the default where it is absent.\<close>

definition read_text :: "pydict \<Rightarrow> string \<Rightarrow> string option" where
  "read_text d k = (case dict_get d k of None \<Rightarrow> Some [] | Some (PStr s) \<Rightarrow> Some s | _ \<Rightarrow> None)"

definition read_number :: "pydict \<Rightarrow> string \<Rightarrow> rat option" where
  "read_number d k = (case dict_get d k of None \<Rightarrow> Some 0 | Some (PFloat r) \<Rightarrow> Some r | Some (PInt i) \<Rightarrow> Some (of_int i) | _ \<Rightarrow> None)"

definition read_int :: "pydict \<Rightarrow> string \<Rightarrow> int option" where
  "read_int d k = (case dict_get d k of None \<Rightarrow> Some 0 | Some (PInt i) \<Rightarrow> Some i | _ \<Rightarrow> None)"

definition validate_provenance :: "pydict \<Rightarrow> data_provenance option" where
  "validate_provenance d =
     (case (case dict_get d ''source'' of Some (PStr s) \<Rightarrow> source_of_value s | _ \<Rightarrow> None,
            case dict_get d ''timestamp'' of Some (PStr s) \<Rightarrow> Some s | _ \<Rightarrow> None,
            read_text d ''model'', read_text d ''provider'', read_number d ''confidence'', read_text d ''agent_name'',
            read_text d ''task_id'', read_number d ''duration_ms'', read_int d ''input_tokens'', read_int d ''output_tokens'',
            read_number d ''cost_usd'', read_text d ''error'') of
        (Some so, Some ts, Some m, Some pr, Some c, Some ag, Some t, Some du, Some i, Some out, Some co, Some er) \<Rightarrow>
          Some \<lparr> dp_source = so, dp_timestamp = ts, dp_model = m, dp_provider = pr, dp_confidence = c, dp_agent_name = ag,
                 dp_task_id = t, dp_duration_ms = du, dp_input_tokens = i, dp_output_tokens = out, dp_cost_usd = co, dp_error = er \<rparr>
      | _ \<Rightarrow> None)"

definition get_provenance :: "output_schema \<Rightarrow> data_provenance option" where
  "get_provenance out =
     (let raw = dict_get_or (os_metadata out) ''data_provenance'' PNone in
      if \<not> py_truthy raw then None
      else case raw of PDict d \<Rightarrow> validate_provenance d | _ \<Rightarrow> None)"

subsection \<open>What is attached is read back\<close>

lemma source_value_inverse: "source_of_value (source_value s) = Some s"
  by (cases s) (simp_all add: source_of_value_def)

lemma get_attached [simp]: "get_provenance (attach_provenance show_badge out p) = Some p"
proof -
  have v: "validate_provenance (provenance_dict p) = Some p"
    by (simp add: validate_provenance_def provenance_dict_def source_value_inverse read_text_def read_number_def read_int_def)
  have "provenance_dict p \<noteq> []" by (simp add: provenance_dict_def)
  then show ?thesis by (simp add: get_provenance_def attach_provenance_def Let_def dict_get_or_def v)
qed

lemma attached_fields [simp]:
  "os_payload (attach_provenance show_badge out p) = os_payload out" "os_id (attach_provenance show_badge out p) = os_id out"
  "os_type (attach_provenance show_badge out p) = os_type out" "os_partial (attach_provenance show_badge out p) = os_partial out"
  "k \<noteq> ''data_provenance'' \<Longrightarrow> k \<noteq> ''data_provenance_badge'' \<Longrightarrow>
     dict_get (os_metadata (attach_provenance show_badge out p)) k = dict_get (os_metadata out) k"
  by (simp_all add: attach_provenance_def)

lemma build_provenance_source [simp]: "dp_source (build_provenance s ag t u er pv now) = s"
  by (simp add: build_provenance_def Let_def split: option.split)

text \<open>The provenance attached to an output is the one read back from it, the payload and the other metadata
  stay, and what does not come from a real model is marked so: its confidence is 0 and its badge is not
  that of a real model.\<close>

theorem provenance_roundtrip:
  "let out' = attach_provenance show_badge out p in
   get_provenance out' = Some p \<and> os_payload out' = os_payload out \<and>
   (\<forall>k. k \<noteq> ''data_provenance'' \<and> k \<noteq> ''data_provenance_badge'' \<longrightarrow> dict_get (os_metadata out') k = dict_get (os_metadata out) k) \<and>
   ((\<exists>m d c. badge_of p = BadgeReal m d c) \<longleftrightarrow> dp_source p = PV_REAL_LLM) \<and>
   (\<forall>ag t u er pv now. 0 < dp_confidence (build_provenance (dp_source p) ag t u er pv now) \<longleftrightarrow> dp_source p = PV_REAL_LLM)"
proof -
  have "(\<exists>m d c. badge_of p = BadgeReal m d c) \<longleftrightarrow> dp_source p = PV_REAL_LLM"
    by (simp add: badge_of_def is_real_def is_mock_def)
  moreover have "0 < dp_confidence (build_provenance s ag t u er pv now) \<longleftrightarrow> s = PV_REAL_LLM" for s ag t u er pv now
    by (cases u) (simp_all add: build_provenance_def Let_def)
  ultimately show ?thesis by (simp add: Let_def)
qed

theorem provenance_roundtrip_witness:
  "let p = build_provenance PV_MOCK ''writer'' ''t1'' None [] ''anthropic'' 0;
       out' = attach_provenance (\<lambda>_. ''badge'') sample_output p in
   get_provenance out' = Some p \<and> dict_get (os_metadata out') ''other'' = dict_get (os_metadata sample_output) ''other''"
  using provenance_roundtrip[where p = "build_provenance PV_MOCK ''writer'' ''t1'' None [] ''anthropic'' 0" and out = sample_output
      and show_badge = "\<lambda>_. ''badge''"]
  by (simp add: Let_def)

end
