(* ===== verification/Experience.thy ===== *)
theory Experience
  imports Schema_Validation
begin

section \<open>Experience: similarity, decay and the record of runs (memory/embeddings.py, memory/experience.py)\<close>

text \<open>
  Similarity of texts, its decay with age, the search for similar experiences, and the nodes and
  links a run leaves in the memory graph. The vectorizers of external packages are parameters of a
  backend: one scores a query against a corpus, the other compares two vectors. \<open>json.dumps\<close>,
  \<open>str\<close> of a dictionary and \<open>0.5 ** x\<close> are fields of \<open>text_lib\<close>. Writing nodes and links to disk is
  left out. A recording function reads the clock once.
\<close>

subsection \<open>Backends\<close>

record text_lib =
  tl_dumps :: "pydict \<Rightarrow> string"
  tl_str :: "pydict \<Rightarrow> string"
  tl_half_pow :: "rat \<Rightarrow> rat"

text \<open>\<open>Corpus sc\<close>: \<open>sc query corpus text\<close> is the similarity under a vectorizer fitted on the corpus.\<close>

datatype backend =
    Corpus "string \<Rightarrow> string list \<Rightarrow> string \<Rightarrow> rat"
  | Pairwise "string \<Rightarrow> rat list" "rat list \<Rightarrow> rat list \<Rightarrow> rat"

text \<open>\<open>s.split()\<close>\<close>

function split_ws :: "string \<Rightarrow> string list" where
  "split_ws s =
     (let t = dropWhile is_space s in
      if t = [] then []
      else takeWhile (\<lambda>c. \<not> is_space c) t # split_ws (dropWhile (\<lambda>c. \<not> is_space c) t))"
  by pat_completeness auto
termination
proof (relation "measure length")
  fix s and t :: string
  assume t: "t = dropWhile is_space s" "t \<noteq> []"
  then have "\<not> is_space (hd t)" using hd_dropWhile by metis
  with t(2) have "length (dropWhile (\<lambda>c. \<not> is_space c) t) < length t"
    by (cases t) (simp_all add: le_imp_less_Suc length_dropWhile_le)
  also have "length t \<le> length s" unfolding t(1) by (rule length_dropWhile_le)
  finally show "(dropWhile (\<lambda>c. \<not> is_space c) t, s) \<in> measure length" by simp
qed simp

declare split_ws.simps [simp del]

definition decay_factor :: "text_lib \<Rightarrow> graph_node \<Rightarrow> microseconds \<Rightarrow> rat \<Rightarrow> rat" where
  "decay_factor lib n now half_life =
     (if half_life \<le> 0 then 1
      else let age_days = max 0 (of_int (now - gn_created_at n) / 1000000 / 86400)
           in tl_half_pow lib (age_days / half_life))"

definition effective_score :: "text_lib \<Rightarrow> rat \<Rightarrow> graph_node \<Rightarrow> microseconds \<Rightarrow> rat \<Rightarrow> rat" where
  "effective_score lib sim n now half_life = sim * decay_factor lib n now half_life"

definition jaccard_sets :: "'a set \<Rightarrow> 'a set \<Rightarrow> rat" where
  "jaccard_sets a b =
     (if a = {} \<or> b = {} then 0 else of_nat (card (a \<inter> b)) / of_nat (max (card a) (card b)))"

definition jaccard_words :: "string \<Rightarrow> string \<Rightarrow> rat" where
  "jaccard_words a b = jaccard_sets (set (take 200 (split_ws (lower a)))) (set (take 200 (split_ws (lower b))))"

definition jaccard_lists :: "rat list \<Rightarrow> rat list \<Rightarrow> rat" where
  "jaccard_lists a b = jaccard_sets (set (filter (\<lambda>x. x \<noteq> 0) a)) (set (filter (\<lambda>x. x \<noteq> 0) b))"

text \<open>The vector of a text: one entry per distinct word, in the unspecified order of a set.\<close>

definition word_set :: "string \<Rightarrow> rat list" where
  "word_set text = (let words = split_ws (lower text) in map (\<lambda>w. if w \<in> set words then 1 else 0) (remdups words))"

definition keyword_backend :: backend where
  "keyword_backend = Pairwise word_set jaccard_lists"

text \<open>A stable sort by descending score, as \<open>sort(key=..., reverse=True)\<close>.\<close>

definition by_score :: "('a \<times> rat) list \<Rightarrow> ('a \<times> rat) list" where
  "by_score xs = sort_key (\<lambda>p. - snd p) xs"

definition find_top_k :: "(string \<Rightarrow> string list \<Rightarrow> string \<Rightarrow> rat) \<Rightarrow> string \<Rightarrow> string list \<Rightarrow> int \<Rightarrow> (nat \<times> rat) list" where
  "find_top_k sc query candidates k =
     (if candidates = [] then []
      else py_slice 0 k (by_score (List.enumerate 0 (map (sc query candidates) candidates))))"

subsection \<open>Searching experiences\<close>

text \<open>The part the two searches share: scoring the candidates, dropping similarities below 0.01.\<close>

definition score_candidates ::
  "text_lib \<Rightarrow> backend \<Rightarrow> string \<Rightarrow> (graph_node \<times> string) list \<Rightarrow> int \<Rightarrow> microseconds \<Rightarrow> rat \<Rightarrow> (graph_node \<times> rat) list" where
  "score_candidates lib be query candidates max_results now half_life =
     (let ranked =
        (case be of
           Corpus sc \<Rightarrow> map (\<lambda>(i, sim). (fst (candidates ! i), sim))
                          (find_top_k sc query (map snd candidates) (max_results * 2))
         | Pairwise vec sim \<Rightarrow> map (\<lambda>(n, text). (n, sim (vec query) (vec text))) candidates)
      in map (\<lambda>(n, sim). (n, effective_score lib sim n now half_life))
           (filter (\<lambda>(n, sim). \<not> sim < 1/100) ranked))"

definition find_similar_failures ::
  "text_lib \<Rightarrow> backend \<Rightarrow> graph \<Rightarrow> string \<Rightarrow> int \<Rightarrow> rat \<Rightarrow> microseconds \<Rightarrow> (graph_node \<times> rat) list" where
  "find_similar_failures lib be g error_text max_results half_life now =
     (if error_text = [] then []
      else
        let candidates = map (\<lambda>n. (n, tl_dumps lib (gn_content n))) (find_nodes g (Some N_EXPERIENCE) []) in
        if candidates = [] then []
        else py_slice 0 max_results (by_score (score_candidates lib be error_text candidates max_results now half_life)))"

text \<open>A summary that is not a text is outside the model; \<open>record_experience\<close> writes texts.\<close>

definition summary_of :: "graph_node \<Rightarrow> string" where
  "summary_of n = (case dict_get_or (gn_content n) ''summary'' (PStr []) of PStr s \<Rightarrow> s | _ \<Rightarrow> [])"

definition get_relevant_experiences ::
  "text_lib \<Rightarrow> backend \<Rightarrow> graph \<Rightarrow> string \<Rightarrow> int \<Rightarrow> rat \<Rightarrow> microseconds \<Rightarrow> string list" where
  "get_relevant_experiences lib be g task_input max_results half_life now =
     (if task_input = [] then []
      else
        let candidates = filter (\<lambda>(n, s). s \<noteq> []) (map (\<lambda>n. (n, summary_of n)) (find_nodes g (Some N_EXPERIENCE) [])) in
        if candidates = [] then []
        else
          let scored = by_score (score_candidates lib be task_input candidates max_results now half_life) in
          map (\<lambda>(n, s). ''- ['' @ gn_id n @ ''] '' @ take 200 (summary_of n))
            (filter (\<lambda>(n, s). summary_of n \<noteq> []) (py_slice 0 max_results scored)))"

subsection \<open>Recording a run\<close>

definition record_task_start :: "graph \<Rightarrow> string \<Rightarrow> string \<Rightarrow> string \<Rightarrow> microseconds \<Rightarrow> graph" where
  "record_task_start g task_id input_text agent now =
     add_node g \<lparr> gn_id = task_id, gn_type = N_TASK,
       gn_content = [(''input'', PStr (take 500 input_text)), (''agent'', PStr agent)],
       gn_metadata = [(''agent_name'', PStr agent), (''status'', PStr ''running'')],
       gn_created_at = now, gn_updated_at = now \<rparr> now"

text \<open>Entries written into the content of the stored node itself.\<close>

definition put_content :: "graph \<Rightarrow> string \<Rightarrow> (string \<times> pyval) list \<Rightarrow> microseconds \<Rightarrow> graph" where
  "put_content g k kvs now =
     (case get_node g k of
        None \<Rightarrow> g
      | Some n \<Rightarrow> g\<lparr>gr_nodes := dict_set (gr_nodes g) k
          (n\<lparr>gn_content := foldl (\<lambda>d (x, v). dict_set d x v) (gn_content n) kvs, gn_updated_at := now\<rparr>)\<rparr>)"

definition record_task_complete :: "text_lib \<Rightarrow> graph \<Rightarrow> string \<Rightarrow> output_schema \<Rightarrow> microseconds \<Rightarrow> graph" where
  "record_task_complete lib g task_id out now =
     (let g1 = put_content g task_id [(''status'', PStr ''completed''), (''output_id'', PStr (os_id out))] now;
          g2 = add_node g1 \<lparr> gn_id = os_id out, gn_type = N_OUTPUT,
                 gn_content = [(''type'', PStr (os_type out)),
                   (''payload_summary'', PStr (take 300 (tl_str lib (os_payload out)))),
                   (''created_by'', PStr (os_created_by out))],
                 gn_metadata = [(''task_id'', PStr task_id), (''agent_name'', PStr (os_created_by out))],
                 gn_created_at = now, gn_updated_at = now \<rparr> now
      in fst (link g2 task_id (os_id out) L_CREATED_BY 1 [(''step'', PStr ''execution'')] (os_created_by out) now))"

definition failure_id :: "string \<Rightarrow> string" where
  "failure_id task_id = ''failure-'' @ task_id"

definition link_similar :: "graph \<Rightarrow> string \<Rightarrow> string \<Rightarrow> microseconds \<Rightarrow> (graph_node \<times> rat) list \<Rightarrow> graph" where
  "link_similar g k agent now similar =
     foldl (\<lambda>g (n, s). fst (link g k (gn_id n) L_REFERENCES 1 [(''relevance'', PStr ''similar_failure'')] agent now))
       g (take 3 similar)"

definition record_task_failure ::
  "text_lib \<Rightarrow> backend \<Rightarrow> graph \<Rightarrow> string \<Rightarrow> string \<Rightarrow> string \<Rightarrow> pydict option \<Rightarrow> microseconds \<Rightarrow> graph" where
  "record_task_failure lib be g task_id error agent details now =
     (let g1 = put_content g task_id [(''status'', PStr ''failed''), (''error'', PStr (take 500 error))] now;
          g2 = add_node g1 \<lparr> gn_id = failure_id task_id, gn_type = N_FAILURE,
                 gn_content = [(''error'', PStr (take 1000 error)), (''agent'', PStr agent), (''task_id'', PStr task_id)],
                 gn_metadata = (case details of None \<Rightarrow> [] | Some d \<Rightarrow> d),
                 gn_created_at = now, gn_updated_at = now \<rparr> now;
          g3 = fst (link g2 task_id (failure_id task_id) L_CAUSED_BY 1 [(''error'', PStr (take 200 error))] agent now)
      in link_similar g3 (failure_id task_id) agent now (find_similar_failures lib be g3 error 5 30 now))"

definition experience_id :: "string \<Rightarrow> string" where
  "experience_id task_id = ''exp-'' @ task_id"

definition record_experience ::
  "graph \<Rightarrow> string \<Rightarrow> string \<Rightarrow> string \<Rightarrow> bool \<Rightarrow> string list \<Rightarrow> microseconds \<Rightarrow> graph" where
  "record_experience g task_id summary agent success related now =
     (let e = experience_id task_id;
          g1 = add_node g \<lparr> gn_id = e, gn_type = N_EXPERIENCE,
                 gn_content = [(''summary'', PStr (take 1000 summary)), (''agent'', PStr agent),
                   (''success'', PBool success), (''task_id'', PStr task_id)],
                 gn_metadata = [(''source'', PStr ''experience_loop'')],
                 gn_created_at = now, gn_updated_at = now \<rparr> now;
          g2 = fst (link g1 task_id e L_EVOLVED_FROM 1 [] agent now)
      in foldl (\<lambda>g f. if has_node g f
                      then fst (link g f e L_REFERENCES 1 [(''relationship'', PStr ''resolved_by'')] agent now)
                      else g) g2 related)"

subsection \<open>The hook around a run\<close>

record task_context =
  tx_task_id :: string
  tx_input :: string
  tx_metadata :: pydict
  tx_retry_count :: int

text \<open>A run may change the graph and the task; it returns an output or raises with a message.\<close>

type_synonym agent_run = "graph \<Rightarrow> task_context \<Rightarrow> graph \<times> task_context \<times> (string + output_schema)"

definition memory_aware_execute ::
  "text_lib \<Rightarrow> backend \<Rightarrow> string \<Rightarrow> agent_run \<Rightarrow> graph \<Rightarrow> task_context \<Rightarrow> microseconds \<Rightarrow> microseconds \<Rightarrow>
   graph \<times> task_context \<times> (string + output_schema)" where
  "memory_aware_execute lib be agent run g task now1 now2 =
     (let g1 = record_task_start g (tx_task_id task) (tx_input task) agent now1;
          experiences = get_relevant_experiences lib be g1 (tx_input task) 3 30 now1;
          task1 = (if experiences = [] then task
                   else task\<lparr>tx_metadata := dict_set (tx_metadata task) ''experiences'' (strs experiences)\<rparr>)
      in case run g1 task1 of
           (g2, task2, Inr out) \<Rightarrow>
             let g3 = record_task_complete lib g2 (tx_task_id task2) out now2;
                 g4 = (if py_truthy (dict_get_or (tx_metadata task2) ''skip_experience_recording'' PNone) then g3
                       else record_experience g3 (tx_task_id task2)
                              (''Agent '' @ agent @ '' completed task: '' @ take 100 (tx_input task2)) agent True [] now2)
             in (g4, task2, Inr out)
         | (g2, task2, Inl msg) \<Rightarrow>
             (record_task_failure lib be g2 (tx_task_id task2) msg agent
                (Some [(''attempts'', PInt (tx_retry_count task2))]) now2, task2, Inl msg))"

subsection \<open>What a search returns\<close>

lemma set_by_score [simp]: "set (by_score xs) = set xs"
  by (simp add: by_score_def)

lemma length_by_score [simp]: "length (by_score xs) = length xs"
  by (simp add: by_score_def)

lemma by_score_desc: "i < j \<Longrightarrow> j < length xs \<Longrightarrow> snd (by_score xs ! j) \<le> snd (by_score xs ! i)"
  using sorted_nth_mono[of "map (\<lambda>p. - snd p) (by_score xs)" i j]
  by (simp add: by_score_def)

lemma py_slice_take: "0 \<le> k \<Longrightarrow> py_slice 0 k xs = take (nat k) xs"
  by (simp add: py_slice_def slice_bound_def Let_def min_def)

lemma take_by_score:
  assumes "p \<in> set (take n (by_score xs))" and "q \<in> set (drop n (by_score xs))"
  shows "snd q \<le> snd p"
proof -
  obtain i where i: "i < n" "i < length xs" "p = by_score xs ! i"
    using assms(1) by (auto simp: in_set_conv_nth)
  obtain j where j: "n + j < length xs" "q = by_score xs ! (n + j)"
  proof -
    from assms(2) obtain j where "j < length (drop n (by_score xs))" "drop n (by_score xs) ! j = q"
      by (auto simp only: in_set_conv_nth)
    then show ?thesis by (intro that[of j]) auto
  qed
  show ?thesis using by_score_desc[of i "n + j" xs] i j by simp
qed

lemma sorted_take_by_score: "sorted (rev (map snd (take n (by_score xs))))"
proof -
  have "sorted (map (\<lambda>p. - snd p) (take n (by_score xs)))"
    using sorted_wrt_take[of "(\<le>)" "map (\<lambda>p. - snd p) (by_score xs)" n]
    by (simp add: by_score_def take_map)
  then have "sorted_wrt (\<lambda>x y. y \<le> x) (map snd (take n (by_score xs)))"
    by (simp add: sorted_wrt_map)
  then show ?thesis by (simp add: sorted_wrt_rev)
qed

lemma enumerate_entry: "(i, s) \<in> set (List.enumerate 0 xs) \<Longrightarrow> i < length xs \<and> s = xs ! i"
  by (auto simp: in_set_enumerate_eq)

lemma find_top_k_entry:
  "(i, s) \<in> set (find_top_k sc query cands k) \<Longrightarrow> i < length cands \<and> s = sc query cands (cands ! i)"
  by (auto simp: find_top_k_def dest!: in_py_slice enumerate_entry split: if_splits)

text \<open>The similarity a backend gives a text.\<close>

fun similarity :: "backend \<Rightarrow> string \<Rightarrow> string list \<Rightarrow> string \<Rightarrow> rat" where
  "similarity (Corpus sc) query corpus text = sc query corpus text"
| "similarity (Pairwise vec sim) query corpus text = sim (vec query) (vec text)"

lemma score_candidates_entry:
  assumes "(n, s) \<in> set (score_candidates lib be query cands k now hl)"
  shows "\<exists>text. (n, text) \<in> set cands \<and> 1/100 \<le> similarity be query (map snd cands) text \<and>
    s = effective_score lib (similarity be query (map snd cands) text) n now hl"
proof (cases be)
  case (Corpus sc)
  with assms obtain i sim where i: "(i, sim) \<in> set (find_top_k sc query (map snd cands) (k * 2))"
    and n: "n = fst (cands ! i)" "s = effective_score lib sim n now hl" "\<not> sim < 1/100"
    by (auto simp: score_candidates_def)
  from find_top_k_entry[OF i] have "i < length cands" "sim = sc query (map snd cands) (snd (cands ! i))" by auto
  then show ?thesis
    using n Corpus by (intro exI[of _ "snd (cands ! i)"]) (auto simp: not_less)
next
  case (Pairwise vec sim)
  with assms show ?thesis by (auto simp: score_candidates_def not_less)
qed

text \<open>The experience nodes of a graph with the texts they are compared by.\<close>

definition experiences :: "text_lib \<Rightarrow> graph \<Rightarrow> (graph_node \<times> string) list" where
  "experiences lib g = map (\<lambda>n. (n, tl_dumps lib (gn_content n))) (find_nodes g (Some N_EXPERIENCE) [])"

lemma find_similar_unfold:
  "error_text \<noteq> [] \<Longrightarrow> find_similar_failures lib be g error_text k hl now =
     py_slice 0 k (by_score (score_candidates lib be error_text (experiences lib g) k now hl))"
  by (cases be)
     (auto simp: find_similar_failures_def Let_def experiences_def score_candidates_def find_top_k_def
        py_slice_def by_score_def)

lemma similar_facts:
  fixes lib :: text_lib and be :: backend and g :: graph and hl :: rat and now :: int
  assumes "text \<noteq> []" and "0 \<le> k"
  defines "res \<equiv> find_similar_failures lib be g text k hl now"
  shows "length res \<le> nat k" and "sorted (rev (map snd res))"
    and "\<And>n s. (n, s) \<in> set res \<Longrightarrow> n \<in> set (find_nodes g (Some N_EXPERIENCE) []) \<and>
      1/100 \<le> similarity be text (map snd (experiences lib g)) (tl_dumps lib (gn_content n)) \<and>
      s = effective_score lib (similarity be text (map snd (experiences lib g)) (tl_dumps lib (gn_content n))) n now hl"
proof -
  let ?all = "score_candidates lib be text (experiences lib g) k now hl"
  have res: "res = take (nat k) (by_score ?all)"
    using assms by (simp add: res_def find_similar_unfold py_slice_take)
  show "length res \<le> nat k" by (simp add: res)
  show "sorted (rev (map snd res))" unfolding res by (rule sorted_take_by_score)
  fix n s assume "(n, s) \<in> set res"
  then have "(n, s) \<in> set ?all" by (auto simp: res dest!: in_set_takeD)
  from score_candidates_entry[OF this]
  show "n \<in> set (find_nodes g (Some N_EXPERIENCE) []) \<and>
      1/100 \<le> similarity be text (map snd (experiences lib g)) (tl_dumps lib (gn_content n)) \<and>
      s = effective_score lib (similarity be text (map snd (experiences lib g)) (tl_dumps lib (gn_content n))) n now hl"
    by (auto simp: experiences_def)
qed

lemma similar_best:
  fixes vec and sim and lib :: text_lib and g :: graph and hl :: rat and now :: int
  assumes "text \<noteq> []" and "0 \<le> k"
  defines "score \<equiv> \<lambda>n. effective_score lib (sim (vec text) (vec (tl_dumps lib (gn_content n)))) n now hl"
    and "res \<equiv> find_similar_failures lib (Pairwise vec sim) g text k hl now"
    and "alike \<equiv> filter (\<lambda>n. 1/100 \<le> sim (vec text) (vec (tl_dumps lib (gn_content n)))) (find_nodes g (Some N_EXPERIENCE) [])"
  shows "length res = min (nat k) (length alike)"
    and "n \<in> set alike \<Longrightarrow> n \<notin> fst ` set res \<Longrightarrow> (m, s) \<in> set res \<Longrightarrow> score n \<le> s"
proof -
  let ?all = "score_candidates lib (Pairwise vec sim) text (experiences lib g) k now hl"
  have all: "?all = map (\<lambda>n. (n, score n)) alike"
    by (simp add: score_candidates_def experiences_def alike_def score_def filter_map comp_def not_less)
  have res: "res = take (nat k) (by_score ?all)"
    using assms(1,2) by (simp add: res_def find_similar_unfold py_slice_take)
  show "length res = min (nat k) (length alike)" by (simp add: res all min.commute)
  assume n: "n \<in> set alike" "n \<notin> fst ` set res" and m: "(m, s) \<in> set res"
  have "(n, score n) \<in> set (by_score ?all)" using n(1) by (simp add: all)
  moreover have "(n, score n) \<notin> set (take (nat k) (by_score ?all))" using n(2) by (force simp: res)
  ultimately have "(n, score n) \<in> set (drop (nat k) (by_score ?all))"
    by (metis Un_iff append_take_drop_id set_append)
  then show "score n \<le> s" using take_by_score[OF m[unfolded res]] by fastforce
qed


subsection \<open>The keyword backend\<close>

text \<open>Its vectors hold a one for every word, and the comparison of two lists looks at the distinct
  entries: any two texts with words are equally similar.\<close>

lemma word_set_ones: "set (filter (\<lambda>x. x \<noteq> 0) (word_set t)) = (if split_ws (lower t) = [] then {} else {1})"
  by (auto simp: word_set_def Let_def image_iff neq_Nil_conv)

lemma keyword_similarity_constant:
  "similarity keyword_backend query corpus text =
     (if split_ws (lower query) = [] \<or> split_ws (lower text) = [] then 0 else 1)"
  unfolding keyword_backend_def similarity.simps jaccard_lists_def word_set_ones jaccard_sets_def by simp

subsection \<open>What a run leaves in the graph\<close>

text \<open>A step that keeps the graph well formed and loses neither nodes nor links.\<close>

definition extends :: "graph \<Rightarrow> graph \<Rightarrow> bool" where
  "extends g g' \<longleftrightarrow> (graph_ok g \<longrightarrow> graph_ok g') \<and> (\<forall>k. has_node g k \<longrightarrow> has_node g' k) \<and>
     (\<forall>k. set (get_outgoing g k None) \<subseteq> set (get_outgoing g' k None))"

lemma extends_trans: "extends a b \<Longrightarrow> extends b c \<Longrightarrow> extends a c"
  unfolding extends_def by blast

lemma extends_refl [simp]: "extends g g"
  by (simp add: extends_def)

lemma get_outgoing_untyped: "get_outgoing g k None = links_of (gr_out g) k"
  by (simp add: get_outgoing_def of_type_def)

lemma extends_add: "extends g (add_node g n now)"
  using graph_ok_add[of g n now]
  by (simp add: extends_def get_outgoing_untyped) (simp add: add_node_def has_node_def Let_def)

lemma get_node_link [simp]: "get_node (fst (link g s t ty w c b now)) = get_node g"
  by (simp add: link_def Let_def)

lemma extends_link: "extends g (fst (link g s t ty w c b now))"
  using graph_ok_link[of g s t ty w c b now]
  by (auto simp: extends_def get_outgoing_untyped link_def has_node_def Let_def)

lemma get_node_put_content:
  "get_node (put_content g k kvs now) j =
     (if j = k then map_option (\<lambda>n. n\<lparr>gn_content := foldl (\<lambda>d (x, v). dict_set d x v) (gn_content n) kvs,
                                     gn_updated_at := now\<rparr>) (get_node g k)
      else get_node g j)"
  by (simp add: put_content_def get_node_def split: option.split)

lemma extends_put_content: "extends g (put_content g k kvs now)"
proof -
  have has: "has_node (put_content g k kvs now) = has_node g"
    by (rule ext) (simp add: has_node_def put_content_def get_node_def split: option.split)
  have index: "gr_out (put_content g k kvs now) = gr_out g" "gr_in (put_content g k kvs now) = gr_in g"
    "gr_types (put_content g k kvs now) = gr_types g"
    by (simp_all add: put_content_def split: option.split)
  have "nodes_ok (put_content g k kvs now)" if ok: "nodes_ok g"
  proof -
    have "dict_ok (gr_nodes (put_content g k kvs now))"
      using ok by (simp add: nodes_ok_def put_content_def split: option.split)
    moreover have "gn_id m = j \<and> j \<in> set (dict_get_or (gr_types (put_content g k kvs now)) (gn_type m) [])"
      if "get_node (put_content g k kvs now) j = Some m" for j m
      using that ok unfolding get_node_put_content index nodes_ok_def by (auto split: if_splits)
    ultimately show ?thesis by (simp add: nodes_ok_def)
  qed
  then show ?thesis
    by (simp add: extends_def graph_ok_def get_outgoing_untyped has index)
qed

lemma extends_fold:
  assumes "\<And>g x. extends g (f g x)"
  shows "extends g (foldl f g xs)"
proof (induction xs arbitrary: g)
  case (Cons x xs)
  then show ?case using extends_trans[OF assms[of g x] Cons.IH[of "f g x"]] by simp
qed simp

lemma get_node_fold:
  assumes "\<And>g x. get_node (f g x) = get_node g"
  shows "get_node (foldl f g xs) = get_node g"
  by (induction xs arbitrary: g) (simp_all add: assms)

lemma link_recorded:
  assumes "has_node g s" and "has_node g t"
  shows "\<exists>l \<in> set (get_outgoing (fst (link g s t ty w c b now)) s None). gl_target l = t \<and> gl_type l = ty"
  using assms by (simp add: link_def has_node_def get_outgoing_untyped Let_def)

definition linked :: "graph \<Rightarrow> string \<Rightarrow> link_type \<Rightarrow> string \<Rightarrow> bool" where
  "linked g s ty t \<longleftrightarrow> (\<exists>l \<in> set (get_outgoing g s (Some ty)). gl_target l = t)"

lemma linked_link: "has_node g s \<Longrightarrow> has_node g t \<Longrightarrow> linked (fst (link g s t ty w c b now)) s ty t"
  using link_recorded[of g s t ty w c b now]
  by (auto simp: linked_def get_outgoing_def of_type_def)

lemma linked_extends: "linked g s ty t \<Longrightarrow> extends g g' \<Longrightarrow> linked g' s ty t"
  by (auto simp: linked_def extends_def get_outgoing_def of_type_def)

lemma has_node_get: "has_node g k \<longleftrightarrow> (\<exists>n. get_node g k = Some n)"
  by (simp add: has_node_def get_node_def)

text \<open>The entry of a stored node's content.\<close>

definition content_at :: "graph \<Rightarrow> string \<Rightarrow> string \<Rightarrow> pyval option" where
  "content_at g k key = (case get_node g k of None \<Rightarrow> None | Some n \<Rightarrow> dict_get (gn_content n) key)"

definition type_at :: "graph \<Rightarrow> string \<Rightarrow> node_type option" where
  "type_at g k = map_option gn_type (get_node g k)"

lemma complete_facts:
  fixes lib :: text_lib and g :: graph and tid :: string and out :: output_schema and now :: microseconds
  defines "g' \<equiv> record_task_complete lib g tid out now"
  assumes "has_node g tid"
  shows "extends g g'" and "linked g' tid L_CREATED_BY (os_id out)" and "type_at g' (os_id out) = Some N_OUTPUT"
    and "os_id out \<noteq> tid \<Longrightarrow> content_at g' tid ''status'' = Some (PStr ''completed'') \<and>
      content_at g' tid ''output_id'' = Some (PStr (os_id out))"
proof -
  define g1 where "g1 = put_content g tid [(''status'', PStr ''completed''), (''output_id'', PStr (os_id out))] now"
  define n where "n = \<lparr> gn_id = os_id out, gn_type = N_OUTPUT,
    gn_content = [(''type'', PStr (os_type out)), (''payload_summary'', PStr (take 300 (tl_str lib (os_payload out)))),
      (''created_by'', PStr (os_created_by out))],
    gn_metadata = [(''task_id'', PStr tid), (''agent_name'', PStr (os_created_by out))],
    gn_created_at = now, gn_updated_at = now \<rparr>"
  have g': "g' = fst (link (add_node g1 n now) tid (os_id out) L_CREATED_BY 1 [(''step'', PStr ''execution'')] (os_created_by out) now)"
    by (simp add: g'_def record_task_complete_def Let_def g1_def n_def)
  have up: "extends g (add_node g1 n now)"
    unfolding g1_def by (rule extends_trans[OF extends_put_content extends_add])
  then show "extends g g'" unfolding g' by (rule extends_trans[OF _ extends_link])
  have "has_node (add_node g1 n now) tid" using up assms(2) by (simp add: extends_def)
  moreover have "has_node (add_node g1 n now) (os_id out)" by (simp add: has_node_get get_node_add n_def)
  ultimately show "linked g' tid L_CREATED_BY (os_id out)" unfolding g' by (rule linked_link)
  show "type_at g' (os_id out) = Some N_OUTPUT" by (simp add: type_at_def g' get_node_add n_def)
  show "content_at g' tid ''status'' = Some (PStr ''completed'') \<and>
      content_at g' tid ''output_id'' = Some (PStr (os_id out))" if "os_id out \<noteq> tid"
    using that assms(2) by (auto simp: content_at_def g' get_node_add n_def g1_def get_node_put_content has_node_get)
qed

lemma failure_facts:
  fixes lib :: text_lib and be :: backend and g :: graph and tid :: string and err :: string and agent and details and now
  defines "g' \<equiv> record_task_failure lib be g tid err agent details now"
  assumes "has_node g tid"
  shows "extends g g'" and "linked g' tid L_CAUSED_BY (failure_id tid)" and "type_at g' (failure_id tid) = Some N_FAILURE"
    and "content_at g' tid ''status'' = Some (PStr ''failed'') \<and> content_at g' tid ''error'' = Some (PStr (take 500 err)) \<and>
      content_at g' (failure_id tid) ''error'' = Some (PStr (take 1000 err))"
proof -
  define g1 where "g1 = put_content g tid [(''status'', PStr ''failed''), (''error'', PStr (take 500 err))] now"
  define n where "n = \<lparr> gn_id = failure_id tid, gn_type = N_FAILURE,
    gn_content = [(''error'', PStr (take 1000 err)), (''agent'', PStr agent), (''task_id'', PStr tid)],
    gn_metadata = (case details of None \<Rightarrow> [] | Some d \<Rightarrow> d), gn_created_at = now, gn_updated_at = now \<rparr>"
  define g3 where "g3 = fst (link (add_node g1 n now) tid (failure_id tid) L_CAUSED_BY 1 [(''error'', PStr (take 200 err))] agent now)"
  have g': "g' = link_similar g3 (failure_id tid) agent now (find_similar_failures lib be g3 err 5 30 now)"
    by (simp add: g'_def record_task_failure_def Let_def g1_def n_def g3_def)
  have ne: "failure_id tid \<noteq> tid" using arg_cong[of "failure_id tid" tid length] by (auto simp: failure_id_def)
  have up: "extends g (add_node g1 n now)"
    unfolding g1_def by (rule extends_trans[OF extends_put_content extends_add])
  have up3: "extends g3 g'"
    unfolding g' link_similar_def by (rule extends_fold) (simp add: split_beta extends_link)
  show "extends g g'"
    using extends_trans[OF extends_trans[OF up extends_link] up3[unfolded g3_def]] .
  have same: "get_node g' = get_node g3"
    unfolding g' link_similar_def by (rule get_node_fold) (simp add: split_beta)
  have "has_node (add_node g1 n now) tid" using up assms(2) by (simp add: extends_def)
  moreover have "has_node (add_node g1 n now) (failure_id tid)" by (simp add: has_node_get get_node_add n_def)
  ultimately have "linked g3 tid L_CAUSED_BY (failure_id tid)" unfolding g3_def by (rule linked_link)
  then show "linked g' tid L_CAUSED_BY (failure_id tid)" using up3 by (rule linked_extends)
  show "type_at g' (failure_id tid) = Some N_FAILURE" by (simp add: type_at_def same g3_def get_node_add n_def)
  show "content_at g' tid ''status'' = Some (PStr ''failed'') \<and> content_at g' tid ''error'' = Some (PStr (take 500 err)) \<and>
      content_at g' (failure_id tid) ''error'' = Some (PStr (take 1000 err))"
    using ne assms(2)
    by (auto simp: content_at_def same g3_def get_node_add n_def g1_def get_node_put_content has_node_get)
qed

lemma experience_facts:
  fixes g :: graph and tid :: string and summary and agent and success and related and now
  defines "g' \<equiv> record_experience g tid summary agent success related now"
  assumes "has_node g tid"
  shows "extends g g'" and "linked g' tid L_EVOLVED_FROM (experience_id tid)"
    and "k \<noteq> experience_id tid \<Longrightarrow> get_node g' k = get_node g k"
    and "type_at g' (experience_id tid) = Some N_EXPERIENCE"
    and "content_at g' (experience_id tid) ''success'' = Some (PBool success)"
proof -
  define n where "n = \<lparr> gn_id = experience_id tid, gn_type = N_EXPERIENCE,
    gn_content = [(''summary'', PStr (take 1000 summary)), (''agent'', PStr agent), (''success'', PBool success),
      (''task_id'', PStr tid)],
    gn_metadata = [(''source'', PStr ''experience_loop'')], gn_created_at = now, gn_updated_at = now \<rparr>"
  define g2 where "g2 = fst (link (add_node g n now) tid (experience_id tid) L_EVOLVED_FROM 1 [] agent now)"
  have g': "g' = foldl (\<lambda>g f. if has_node g f
      then fst (link g f (experience_id tid) L_REFERENCES 1 [(''relationship'', PStr ''resolved_by'')] agent now)
      else g) g2 related"
    by (simp add: g'_def record_experience_def Let_def g2_def n_def)
  have up2: "extends g2 g'" unfolding g' by (rule extends_fold) (simp add: extends_link)
  have same: "get_node g' = get_node g2" unfolding g' by (rule get_node_fold) simp
  have up: "extends g (add_node g n now)" by (rule extends_add)
  show "extends g g'"
    using extends_trans[OF extends_trans[OF up extends_link] up2[unfolded g2_def]] .
  have "has_node (add_node g n now) tid" using up assms(2) by (simp add: extends_def)
  moreover have "has_node (add_node g n now) (experience_id tid)" by (simp add: has_node_get get_node_add n_def)
  ultimately have "linked g2 tid L_EVOLVED_FROM (experience_id tid)" unfolding g2_def by (rule linked_link)
  then show "linked g' tid L_EVOLVED_FROM (experience_id tid)" using up2 by (rule linked_extends)
  show "get_node g' k = get_node g k" if "k \<noteq> experience_id tid"
    using that by (simp add: same g2_def get_node_add n_def)
  show "type_at g' (experience_id tid) = Some N_EXPERIENCE" by (simp add: type_at_def same g2_def get_node_add n_def)
  show "content_at g' (experience_id tid) ''success'' = Some (PBool success)"
    by (simp add: content_at_def same g2_def get_node_add n_def)
qed

text \<open>A run that keeps the graph well formed, removes nothing from it and keeps the id of the task.\<close>

definition run_extends :: "agent_run \<Rightarrow> bool" where
  "run_extends run \<longleftrightarrow> (\<forall>g t. extends g (fst (run g t)) \<and> tx_task_id (fst (snd (run g t))) = tx_task_id t)"

text \<open>C24: The hook leaves a complete record of a run in the graph. After a run that returns, the task is marked
  completed and linked to its output, and unless the task opts out there is an experience linked to
  it; after a run that raises, the error is passed on, the task is marked failed and it is linked to a
  failure with the error. The graph stays well formed and loses nothing.\<close>

theorem run_is_recorded:
  assumes "run_extends run" and "graph_ok g"
    and "memory_aware_execute lib be agent run g task now1 now2 = (g', task', res)"
  shows "graph_ok g' \<and> (\<forall>k. has_node g k \<longrightarrow> has_node g' k) \<and>
    (case res of
       Inr out \<Rightarrow>
         linked g' (tx_task_id task) L_CREATED_BY (os_id out) \<and>
         (os_id out \<noteq> tx_task_id task \<longrightarrow>
            content_at g' (tx_task_id task) ''status'' = Some (PStr ''completed'') \<and>
            content_at g' (tx_task_id task) ''output_id'' = Some (PStr (os_id out))) \<and>
         (os_id out \<noteq> experience_id (tx_task_id task) \<longrightarrow> type_at g' (os_id out) = Some N_OUTPUT) \<and>
         (\<not> py_truthy (dict_get_or (tx_metadata task') ''skip_experience_recording'' PNone) \<longrightarrow>
            type_at g' (experience_id (tx_task_id task)) = Some N_EXPERIENCE \<and>
            content_at g' (experience_id (tx_task_id task)) ''success'' = Some (PBool True) \<and>
            linked g' (tx_task_id task) L_EVOLVED_FROM (experience_id (tx_task_id task)))
     | Inl msg \<Rightarrow>
         content_at g' (tx_task_id task) ''status'' = Some (PStr ''failed'') \<and>
         content_at g' (tx_task_id task) ''error'' = Some (PStr (take 500 msg)) \<and>
         type_at g' (failure_id (tx_task_id task)) = Some N_FAILURE \<and>
         content_at g' (failure_id (tx_task_id task)) ''error'' = Some (PStr (take 1000 msg)) \<and>
         linked g' (tx_task_id task) L_CAUSED_BY (failure_id (tx_task_id task)))"
proof -
  let ?tid = "tx_task_id task"
  define g1 where "g1 = record_task_start g ?tid (tx_input task) agent now1"
  define task1 where "task1 = (let es = get_relevant_experiences lib be g1 (tx_input task) 3 30 now1 in
    if es = [] then task else task\<lparr>tx_metadata := dict_set (tx_metadata task) ''experiences'' (strs es)\<rparr>)"
  obtain g2 task2 r where run: "run g1 task1 = (g2, task2, r)" by (cases "run g1 task1") auto
  have "tx_task_id task1 = ?tid" by (simp add: task1_def Let_def)
  moreover have "extends g1 (fst (run g1 task1)) \<and> tx_task_id (fst (snd (run g1 task1))) = tx_task_id task1"
    using assms(1) unfolding run_extends_def by blast
  ultimately have tid: "tx_task_id task2 = ?tid" and up12: "extends g1 g2" by (simp_all add: run)
  have up1: "extends g g1" unfolding g1_def record_task_start_def by (rule extends_add)
  have up2: "extends g g2" using up1 up12 by (rule extends_trans)
  have "has_node g1 ?tid" by (simp add: g1_def record_task_start_def has_node_get get_node_add)
  with up12 have has: "has_node g2 ?tid" by (simp add: extends_def)
  note exec = assms(3)[unfolded memory_aware_execute_def Let_def, folded g1_def, folded task1_def[unfolded Let_def]]
  have ne: "experience_id ?tid \<noteq> ?tid"
    using arg_cong[of "experience_id ?tid" ?tid length] by (auto simp: experience_id_def)
  have ok: "extends g g' \<Longrightarrow> graph_ok g' \<and> (\<forall>k. has_node g k \<longrightarrow> has_node g' k)"
    using assms(2) by (simp add: extends_def)
  show ?thesis
  proof (cases r)
    case (Inl msg)
    with exec run tid have g': "res = Inl msg"
      "g' = record_task_failure lib be g2 ?tid msg agent (Some [(''attempts'', PInt (tx_retry_count task2))]) now2"
      by auto
    note f = failure_facts[OF has, where lib = lib and be = be and err = msg and agent = agent and now = now2
      and details = "Some [(''attempts'', PInt (tx_retry_count task2))]", folded g'(2)]
    show ?thesis using ok[OF extends_trans[OF up2 f(1)]] f by (simp add: g'(1))
  next
    case (Inr out)
    define g3 where "g3 = record_task_complete lib g2 ?tid out now2"
    define skip where "skip = py_truthy (dict_get_or (tx_metadata task2) ''skip_experience_recording'' PNone)"
    define g4 where "g4 = record_experience g3 ?tid
      (''Agent '' @ agent @ '' completed task: '' @ take 100 (tx_input task2)) agent True [] now2"
    from Inr exec run tid have g': "res = Inr out" "task' = task2" "g' = (if skip then g3 else g4)"
      by (auto simp: g3_def g4_def skip_def)
    note c = complete_facts[OF has, where lib = lib and out = out and now = now2, folded g3_def]
    have has3: "has_node g3 ?tid" using c(1) has by (simp add: extends_def)
    note e = experience_facts[OF has3, where summary = "''Agent '' @ agent @ '' completed task: '' @ take 100 (tx_input task2)"
        and agent = agent and success = True and related = "[]" and now = now2,
        folded g4_def]
    have up34: "extends g3 g'" using e(1) by (simp add: g'(3))
    have same: "get_node g' k = get_node g3 k" if "k \<noteq> experience_id ?tid" for k
      using e(3)[OF that] by (simp add: g'(3))
    have "linked g' ?tid L_CREATED_BY (os_id out)" using c(2) up34 by (rule linked_extends)
    moreover have "content_at g' ?tid key = content_at g3 ?tid key" for key
      using same[OF ne[symmetric]] by (simp add: content_at_def)
    moreover have "os_id out \<noteq> experience_id ?tid \<Longrightarrow> type_at g' (os_id out) = Some N_OUTPUT"
      using same[of "os_id out"] c(3) by (simp add: type_at_def)
    moreover have "\<not> skip \<Longrightarrow> g' = g4" by (simp add: g'(3))
    ultimately show ?thesis
      using ok[OF extends_trans[OF extends_trans[OF up2 c(1)] up34]] c(4) e(2,4,5)
      by (simp add: g'(1,2) skip_def[symmetric])
  qed
qed

definition sample_lib :: text_lib where
  "sample_lib = \<lparr> tl_dumps = (\<lambda>d. concat (map fst d)), tl_str = (\<lambda>d. []), tl_half_pow = (\<lambda>x. 1 / (1 + abs x)) \<rparr>"

definition sample_context :: task_context where
  "sample_context = \<lparr> tx_task_id = ''t1'', tx_input = ''build'', tx_metadata = [], tx_retry_count = 0 \<rparr>"

definition quiet_run :: agent_run where
  "quiet_run g t = (g, t, Inr (sample_output\<lparr>os_id := ''o1''\<rparr>))"

definition failing_run :: agent_run where
  "failing_run g t = (g, t, Inl ''timeout'')"

theorem run_is_recorded_witness:
  "type_at (fst (memory_aware_execute sample_lib keyword_backend ''tech'' quiet_run empty_graph sample_context 1 2))
     (experience_id ''t1'') = Some N_EXPERIENCE"
proof -
  have run: "run_extends quiet_run" by (simp add: run_extends_def quiet_run_def)
  obtain g' task' res
    where e: "memory_aware_execute sample_lib keyword_backend ''tech'' quiet_run empty_graph sample_context 1 2 = (g', task', res)"
    by (rule prod_cases3)
  have res: "res = Inr (sample_output\<lparr>os_id := ''o1''\<rparr>)" and skip: "dict_get_or (tx_metadata task') ''skip_experience_recording'' PNone = PNone"
    using e by (auto simp: memory_aware_execute_def quiet_run_def Let_def sample_context_def dict_get_or_def)
  show ?thesis
    using run_is_recorded[OF run graph_ok_empty e] by (simp add: e res skip) (simp add: sample_context_def)
qed


text \<open>The status in the metadata is never brought up to date: a completed task is still running there.\<close>

lemma metadata_status_stays:
  assumes "os_id out \<noteq> tid"
    and "get_node (record_task_complete lib (record_task_start g tid input_text agent t1) tid out t2) tid = Some n"
  shows "dict_get (gn_content n) ''status'' = Some (PStr ''completed'')"
    and "dict_get (gn_metadata n) ''status'' = Some (PStr ''running'')"
  using assms
  by (auto simp: record_task_complete_def record_task_start_def Let_def get_node_add get_node_put_content)

end
