(* ===== verification/Agent_Execution.thy ===== *)
theory Agent_Execution
  imports Provenance Checkpoint Experience
begin

section \<open>Running a task on an agent (core/agent.py)\<close>

text \<open>
  The base class of the agents: its events, the levels of errors, the retry loop around \<open>do_work\<close> with
  the validation of its output, the checkpoint on disk, and what a success and a failure leave behind. What
  follows a failure when the agent has a resolver is in \<open>Resolver\<close>.

  \<open>do_work\<close> is the subclass's code, a parameter: it may change the state and the task, and returns an output or
  raises. The subscribers of the events act on the rest of the program (\<open>'x\<close>), which also answers for the
  clock, the random ids and the disk. \<open>model_dump\<close> is pydantic's and a parameter. Spans for tracing are
  left out.
\<close>

subsection \<open>Events\<close>

datatype event_type =
    TASK_STARTED | TASK_COMPLETED | TASK_FAILED | TASK_RETRYING | OUTPUT_VALIDATED | OUTPUT_INVALID
  | PEER_REQUESTED | HUMAN_REQUESTED | ESCALATED

fun event_type_value :: "event_type \<Rightarrow> string" where
  "event_type_value TASK_STARTED = ''agent.task.started''"
| "event_type_value TASK_COMPLETED = ''agent.task.completed''"
| "event_type_value TASK_FAILED = ''agent.task.failed''"
| "event_type_value TASK_RETRYING = ''agent.task.retrying''"
| "event_type_value OUTPUT_VALIDATED = ''agent.output.validated''"
| "event_type_value OUTPUT_INVALID = ''agent.output.invalid''"
| "event_type_value PEER_REQUESTED = ''agent.peer.requested''"
| "event_type_value HUMAN_REQUESTED = ''agent.human.requested''"
| "event_type_value ESCALATED = ''agent.escalated''"

record agent_event =
  ae_event_type :: event_type
  ae_agent_name :: string
  ae_task_id :: string
  ae_data :: pydict

text \<open>Handlers by type of event. A handler has an identity, acts on \<open>'x\<close>, and may raise, which is logged.\<close>

type_synonym 'x handlers = "(event_type, (nat \<times> ('x \<Rightarrow> agent_event \<Rightarrow> 'x \<times> bool)) list) dict"

definition eh_subscribe :: "'x handlers \<Rightarrow> event_type \<Rightarrow> nat \<times> ('x \<Rightarrow> agent_event \<Rightarrow> 'x \<times> bool) \<Rightarrow> 'x handlers" where
  "eh_subscribe hs ty h = dict_set hs ty (dict_get_or hs ty [] @ [h])"

fun remove_handler :: "nat \<Rightarrow> (nat \<times> 'h) list \<Rightarrow> (nat \<times> 'h) list" where
  "remove_handler i [] = []"
| "remove_handler i (h # hs) = (if fst h = i then hs else h # remove_handler i hs)"

definition eh_unsubscribe :: "'x handlers \<Rightarrow> event_type \<Rightarrow> nat \<Rightarrow> 'x handlers" where
  "eh_unsubscribe hs ty i =
     (case dict_get hs ty of None \<Rightarrow> hs | Some l \<Rightarrow> dict_set hs ty (remove_handler i l))"

definition eh_publish :: "'x handlers \<Rightarrow> agent_event \<Rightarrow> 'x \<Rightarrow> 'x" where
  "eh_publish hs e x = foldl (\<lambda>x (i, h). fst (h x e)) x (dict_get_or hs (ae_event_type e) [])"

subsection \<open>Errors\<close>

datatype error_level = L1_TEMPORARY | L2_RECOVERABLE | L3_BUSINESS | L4_SYSTEM

fun level_value :: "error_level \<Rightarrow> string" where
  "level_value L1_TEMPORARY = ''temporary''"
| "level_value L2_RECOVERABLE = ''recoverable''"
| "level_value L3_BUSINESS = ''business''"
| "level_value L4_SYSTEM = ''system''"

record agent_error =
  er_level :: error_level
  er_message :: string
  er_details :: pydict
  er_exception :: "string option"

definition error_dict :: "agent_error \<Rightarrow> pydict" where
  "error_dict e = [(''level'', PStr (level_value (er_level e))), (''message'', PStr (er_message e)),
     (''details'', PDict (er_details e)), (''exception'', case er_exception e of None \<Rightarrow> PNone | Some t \<Rightarrow> PStr t)]"

definition agent_classify_error :: "string \<Rightarrow> string \<Rightarrow> agent_error" where
  "agent_classify_error msg tb =
     (let s = lower msg;
          lv = (if any_in [''timeout'', ''rate limit'', ''429'', ''503'', ''connection''] s then L1_TEMPORARY
                else if any_in [''permission denied'', ''access denied''] s then L4_SYSTEM
                else L2_RECOVERABLE)
      in \<lparr> er_level = lv, er_message = msg, er_details = [], er_exception = Some tb \<rparr>)"

subsection \<open>Tasks, the state, and the agent\<close>

record agent_task = task_context +
  at_config :: pydict
  at_upstream_output :: "pydict option"
  at_started_at :: "microseconds option"
  at_completed_at :: "microseconds option"
  at_max_retries :: int

record 'x agent_world =
  aw_graph :: graph
  aw_disk :: cp_disk
  aw_events :: "agent_event list"
  aw_handlers :: "'x handlers"
  aw_rest :: 'x

type_synonym 'x work = "'x agent_world \<Rightarrow> agent_task \<Rightarrow> 'x agent_world \<times> agent_task \<times> (string + output_schema)"

text \<open>\<open>an_usage\<close> is the attribute \<open>_last_usage\<close>, \<open>None\<close> when it is absent.\<close>

record 'x smart_agent =
  an_name :: string
  an_capabilities :: "string list"
  an_do_work :: "'x work"
  an_usage :: "'x \<Rightarrow> llm_usage option"
  an_memory_enabled :: bool
  an_has_resolver :: bool

record 'x agent_env =
  ne_lib :: text_lib
  ne_backend :: backend
  ne_validators :: schema_validator
  ne_provider :: string
  ne_badge :: "badge \<Rightarrow> string"
  ne_hash :: "string \<Rightarrow> int"
  ne_dump_output :: "output_schema \<Rightarrow> pydict"
  ne_dump_usage :: "llm_usage \<Rightarrow> pydict"
  ne_traceback :: "string \<Rightarrow> string"
  ne_clock :: "'x \<Rightarrow> microseconds"
  ne_hex :: "'x \<Rightarrow> string"
  ne_disk_ok :: "'x \<Rightarrow> bool"

definition now_of :: "'x agent_env \<Rightarrow> 'x agent_world \<Rightarrow> microseconds" where
  "now_of env w = ne_clock env (aw_rest w)"

text \<open>Publishing an event: it is noted, and the handlers run.\<close>

definition publish_event ::
  "string \<Rightarrow> event_type \<Rightarrow> agent_task \<Rightarrow> pydict \<Rightarrow> 'x agent_world \<Rightarrow> 'x agent_world" where
  "publish_event name ty task data w =
     (let e = \<lparr> ae_event_type = ty, ae_agent_name = name, ae_task_id = tx_task_id task, ae_data = data \<rparr>
      in w \<lparr> aw_events := aw_events w @ [e], aw_rest := eh_publish (aw_handlers w) e (aw_rest w) \<rparr>)"

definition save_checkpoint :: "'x agent_env \<Rightarrow> checkpoint \<Rightarrow> 'x agent_world \<Rightarrow> 'x agent_world" where
  "save_checkpoint env cp w = w \<lparr> aw_disk := fst (cs_save (aw_disk w) (ne_disk_ok env (aw_rest w)) cp) \<rparr>"

definition system_prompt_of :: "'x smart_agent \<Rightarrow> string \<Rightarrow> (string \<times> string) list \<Rightarrow> string" where
  "system_prompt_of a description tools =
     (let nl = [CHR 0x0A] in
      ''You are '' @ an_name a @ '', '' @ description @ ''.'' @ nl @ nl @
      ''Capabilities: '' @ join_with '', '' (an_capabilities a) @ nl @ nl @
      ''Available tools:'' @ nl @ join_with nl (map (\<lambda>(n, d). ''  - '' @ n @ '': '' @ d) tools) @ nl @ nl @
      ''Requirements:'' @ nl @
      ''1. Output must conform to the standard schema (id, type, created_at, schema_version, payload, next_steps)'' @ nl @
      ''2. Be clear, complete, and actionable'' @ nl @
      ''3. If uncertain, state your assumptions clearly'' @ nl @ nl @ ''Begin.'')"

subsection \<open>The steps of a run\<close>

definition setup_checkpoint :: "'x agent_env \<Rightarrow> 'x smart_agent \<Rightarrow> agent_task \<Rightarrow> 'x agent_world \<Rightarrow> 'x agent_world \<times> checkpoint" where
  "setup_checkpoint env a task w =
     (let now = now_of env w;
          cp = cp_start \<lparr> cp_task_id = tx_task_id task, cp_agent_name = an_name a,
             cp_task_type = estimate_task_type (tx_input task), cp_completed_steps = [],
             cp_pending_steps = [new_step ''do_work'' (''Execute '' @ an_name a) now], cp_intermediate_outputs = [],
             cp_error_history = [], cp_started_at = now, cp_updated_at = now, cp_can_resume = True,
             cp_timeout_seconds = 300, cp_deadline = None \<rparr> (of_int now / 1000000)
      in (save_checkpoint env cp w, cp))"

definition provenance_of :: "llm_usage option \<Rightarrow> bool \<Rightarrow> provenance_source" where
  "provenance_of usage partial =
     (if partial then PV_LLM_FAILURE
      else case usage of None \<Rightarrow> PV_UNKNOWN | Some u \<Rightarrow> if lu_mock u then PV_MOCK else PV_REAL_LLM)"

definition on_validation_success ::
  "'x agent_env \<Rightarrow> 'x smart_agent \<Rightarrow> agent_task \<Rightarrow> checkpoint \<Rightarrow> output_schema \<Rightarrow> nat \<Rightarrow> 'x agent_world \<Rightarrow>
   'x agent_world \<times> agent_task \<times> checkpoint \<times> output_schema" where
  "on_validation_success env a task cp out attempt w =
     (let m1 = dict_set (dict_set (os_metadata out) ''retry_count'' (PInt (int attempt))) ''agent_name'' (PStr (an_name a));
          task' = task \<lparr> at_completed_at := Some (now_of env w) \<rparr>;
          usage = an_usage a (aw_rest w);
          m2 = (case usage of None \<Rightarrow> m1 | Some u \<Rightarrow> dict_set m1 ''llm_usage'' (PDict (ne_dump_usage env u)));
          prov = build_provenance (provenance_of usage (os_partial out)) (an_name a) (tx_task_id task) usage []
                   (ne_provider env) (now_of env w);
          out' = attach_provenance (ne_badge env) (out \<lparr> os_metadata := m2 \<rparr>) prov;
          w1 = publish_event (an_name a) TASK_COMPLETED task' [(''output_id'', PStr (os_id out')), (''type'', PStr (os_type out'))] w;
          cp' = cp_complete_step cp ''do_work'' (Some (ne_dump_output env out')) (now_of env w1);
          w2 = w1 \<lparr> aw_disk := fst (cs_delete (aw_disk w1) (tx_task_id task')) \<rparr>
      in (w2, task', cp', out'))"

definition validation_message :: "validation_result \<Rightarrow> string" where
  "validation_message v = ''Output validation failed: '' @ join_with '', '' (vr_errors v)"

definition log_validation ::
  "'x agent_env \<Rightarrow> 'x smart_agent \<Rightarrow> agent_task \<Rightarrow> output_schema \<Rightarrow> validation_result \<Rightarrow> 'x agent_world \<Rightarrow> 'x agent_world" where
  "log_validation env a task out v w =
     w \<lparr> aw_graph := fst (record_validation (aw_graph w) (tx_task_id task) (an_name a) out v None (ne_hex env (aw_rest w)) (now_of env w)) \<rparr>"

definition announce_retry :: "'x smart_agent \<Rightarrow> agent_task \<Rightarrow> nat \<Rightarrow> string \<Rightarrow> 'x agent_world \<Rightarrow> 'x agent_world" where
  "announce_retry a task attempt msg w =
     publish_event (an_name a) TASK_RETRYING task [(''attempt'', PInt (int attempt)), (''error'', PStr msg)] w"

text \<open>\<open>left\<close> counts the iterations of the \<open>range\<close> that are left, \<open>err\<close> is the last error. Whether a retry is announced
  is decided on the limit the task has after \<open>do_work\<close>.\<close>

fun run_loop ::
  "'x agent_env \<Rightarrow> 'x smart_agent \<Rightarrow> nat \<Rightarrow> nat \<Rightarrow> agent_task \<Rightarrow> checkpoint \<Rightarrow> string option \<Rightarrow> 'x agent_world \<Rightarrow>
   'x agent_world \<times> agent_task \<times> checkpoint \<times> (string + output_schema)" where
  "run_loop env a 0 attempt task cp err w =
     (w, task, cp, Inl (case err of None \<Rightarrow> ''Unknown error'' | Some m \<Rightarrow> m))"
| "run_loop env a (Suc left) attempt task cp err w =
     (case an_do_work a w (task \<lparr> tx_retry_count := int attempt \<rparr>) of
        (w1, task1, Inl msg) \<Rightarrow>
          if int attempt < at_max_retries task1 \<and> er_level (agent_classify_error msg (ne_traceback env msg)) = L1_TEMPORARY
          then run_loop env a left (Suc attempt) task1 cp (Some msg) (announce_retry a task1 attempt msg w1)
          else (w1, task1, cp, Inl msg)
      | (w1, task1, Inr out0) \<Rightarrow>
          (case validate_and_repair (ne_validators env) out0 (Some (an_name a)) (ne_hex env (aw_rest w1)) (now_of env w1) of
             (out, v) \<Rightarrow>
               let w2 = log_validation env a task1 out v w1 in
               if vr_valid v
               then (case on_validation_success env a task1 cp out attempt w2 of (w3, task2, cp', out') \<Rightarrow> (w3, task2, cp', Inr out'))
               else run_loop env a left (Suc attempt) task1 cp (Some (validation_message v))
                      (if int attempt < at_max_retries task1
                       then announce_retry a task1 attempt (validation_message v) w2 else w2)))"

definition run_with_retry ::
  "'x agent_env \<Rightarrow> 'x smart_agent \<Rightarrow> agent_task \<Rightarrow> checkpoint \<Rightarrow> 'x agent_world \<Rightarrow>
   'x agent_world \<times> agent_task \<times> checkpoint \<times> (string + output_schema)" where
  "run_with_retry env a task cp w = run_loop env a (nat (at_max_retries task + 1)) 0 task cp None w"

definition handle_final_failure ::
  "'x agent_env \<Rightarrow> 'x smart_agent \<Rightarrow> agent_task \<Rightarrow> checkpoint \<Rightarrow> agent_error \<Rightarrow> 'x agent_world \<Rightarrow> 'x agent_world \<times> checkpoint" where
  "handle_final_failure env a task cp err w =
     (let w1 = publish_event (an_name a) TASK_FAILED task
                 [(''error'', PDict (error_dict err)), (''attempts'', PInt (tx_retry_count task))] w;
          cp' = cp_fail_step cp ''do_work'' (Some (er_message err)) (now_of env w1)
      in (save_checkpoint env cp' w1, cp'))"

subsection \<open>The life of a task\<close>

text \<open>
  The specification: which events may follow each other for one task. \<open>Running k\<close> is the attempt number \<open>k\<close>
  (from 0) of at most \<open>limit + 1\<close>; a failed task may be resolved, wait for a human, or be handed up.
\<close>

datatype life = Fresh | Running nat | Completed | Failed | Resolved | Waiting | Handed_Up

inductive life_step :: "int \<Rightarrow> life \<Rightarrow> event_type \<Rightarrow> life \<Rightarrow> bool" for limit where
  start: "life_step limit Fresh TASK_STARTED (Running 0)"
| retry: "int k < limit \<Longrightarrow> life_step limit (Running k) TASK_RETRYING (Running (Suc k))"
| complete: "life_step limit (Running k) TASK_COMPLETED Completed"
| fail: "life_step limit (Running k) TASK_FAILED Failed"
| resolve: "life_step limit Failed TASK_COMPLETED Resolved"
| ask: "life_step limit Failed HUMAN_REQUESTED Waiting"
| escalate: "life_step limit Failed ESCALATED Handed_Up"

inductive life_path :: "int \<Rightarrow> life \<Rightarrow> event_type list \<Rightarrow> life \<Rightarrow> bool" for limit where
  stay: "life_path limit s [] s"
| move: "life_step limit s e s' \<Longrightarrow> life_path limit s' es s'' \<Longrightarrow> life_path limit s (e # es) s''"

code_pred life_step .
code_pred life_path .

inductive_cases life_step_from_running: "life_step limit (Running k) e s"
inductive_cases life_path_Nil: "life_path limit s [] s'"
inductive_cases life_path_Cons: "life_path limit s (e # es) s'"

lemma life_path_append: "life_path limit s es s' \<Longrightarrow> life_path limit s' es' s'' \<Longrightarrow> life_path limit s (es @ es') s''"
  by (induction rule: life_path.induct) (auto intro: life_path.intros)

lemma life_path_single: "life_step limit s e s' \<Longrightarrow> life_path limit s [e] s'"
  by (auto intro: life_path.intros)

definition events_of :: "string \<Rightarrow> 'x agent_world \<Rightarrow> event_type list" where
  "events_of tid w = map ae_event_type (filter (\<lambda>e. ae_task_id e = tid) (aw_events w))"

lemma events_publish:
  "events_of tid (publish_event name ty task data w) = events_of tid w @ (if tx_task_id task = tid then [ty] else [])"
  by (simp add: publish_event_def events_of_def Let_def)

lemma events_other [simp]:
  "events_of tid (w \<lparr> aw_graph := g \<rparr>) = events_of tid w" "events_of tid (w \<lparr> aw_disk := d \<rparr>) = events_of tid w"
  "events_of tid (save_checkpoint env cp w) = events_of tid w" "events_of tid (log_validation env a task out v w) = events_of tid w"
  by (simp_all add: events_of_def save_checkpoint_def log_validation_def)

text \<open>Code that minds its own business: it leaves the id and the limit of the task alone, publishes no event of the
  task, and leaves the task's checkpoint on disk alone.\<close>

definition minds_own_task :: "'x work \<Rightarrow> bool" where
  "minds_own_task work \<longleftrightarrow> (\<forall>w t. case work w t of (w', t', r) \<Rightarrow>
     tx_task_id t' = tx_task_id t \<and> at_max_retries t' = at_max_retries t \<and>
     events_of (tx_task_id t) w' = events_of (tx_task_id t) w \<and>
     dict_get (aw_disk w') (tx_task_id t) = dict_get (aw_disk w) (tx_task_id t))"

lemma minds_own_taskD:
  assumes "minds_own_task work" and "work w t = (w', t', r)"
  shows "tx_task_id t' = tx_task_id t" "at_max_retries t' = at_max_retries t"
    "events_of (tx_task_id t) w' = events_of (tx_task_id t) w"
    "dict_get (aw_disk w') (tx_task_id t) = dict_get (aw_disk w) (tx_task_id t)"
  using assms unfolding minds_own_task_def by (metis (mono_tags, lifting) case_prod_conv)+

lemma success_facts:
  assumes "on_validation_success env a task cp out attempt w = (w', task', cp', out')"
  shows "events_of (tx_task_id task) w' = events_of (tx_task_id task) w @ [TASK_COMPLETED]"
    and "tx_task_id task' = tx_task_id task" and "at_max_retries task' = at_max_retries task"
    and "dict_get (aw_disk w') (tx_task_id task) = None"
    and "os_payload out' = os_payload out" "os_id out' = os_id out" "os_type out' = os_type out"
    and "dict_get (os_metadata out') ''retry_count'' = Some (PInt (int attempt))"
    and "dict_get (os_metadata out') ''agent_name'' = Some (PStr (an_name a))"
    and "map_option dp_source (get_provenance out') = Some (provenance_of (an_usage a (aw_rest w)) (os_partial out))"
proof -
  note def = assms[unfolded on_validation_success_def Let_def prod.inject]
  show "events_of (tx_task_id task) w' = events_of (tx_task_id task) w @ [TASK_COMPLETED]"
    using def by (auto simp: events_publish)
  show "tx_task_id task' = tx_task_id task" "at_max_retries task' = at_max_retries task" using def by auto
  show "dict_get (aw_disk w') (tx_task_id task) = None" using def by (auto simp: cs_delete_def)
  show "os_payload out' = os_payload out" "os_id out' = os_id out" "os_type out' = os_type out" using def by auto
  show "dict_get (os_metadata out') ''retry_count'' = Some (PInt (int attempt))"
    "dict_get (os_metadata out') ''agent_name'' = Some (PStr (an_name a))"
    using def by (auto split: option.split)
  show "map_option dp_source (get_provenance out') = Some (provenance_of (an_usage a (aw_rest w)) (os_partial out))"
    using def by auto
qed

text \<open>One iteration: it ends the loop, or announces a retry and goes on, or was the last one.\<close>

lemma run_loop_round:
  assumes "run_loop env a (Suc left) k task cp err w = (w', task', cp', r)"
  obtains (raised) w1 msg where "an_do_work a w (task \<lparr> tx_retry_count := int k \<rparr>) = (w1, task', Inl msg)"
      "w' = w1" "cp' = cp" "r = Inl msg"
      "\<not> (int k < at_max_retries task' \<and> er_level (agent_classify_error msg (ne_traceback env msg)) = L1_TEMPORARY)"
  | (again) w1 task1 msg where "an_do_work a w (task \<lparr> tx_retry_count := int k \<rparr>) = (w1, task1, Inl msg)"
      "int k < at_max_retries task1" "er_level (agent_classify_error msg (ne_traceback env msg)) = L1_TEMPORARY"
      "run_loop env a left (Suc k) task1 cp (Some msg) (announce_retry a task1 k msg w1) = (w', task', cp', r)"
  | (valid) w1 task1 out0 out v w2 out' where "an_do_work a w (task \<lparr> tx_retry_count := int k \<rparr>) = (w1, task1, Inr out0)"
      "validate_and_repair (ne_validators env) out0 (Some (an_name a)) (ne_hex env (aw_rest w1)) (now_of env w1) = (out, v)"
      "vr_valid v" "w2 = log_validation env a task1 out v w1"
      "on_validation_success env a task1 cp out k w2 = (w', task', cp', out')" "r = Inr out'"
  | (invalid) w1 task1 out0 out v w2 where "an_do_work a w (task \<lparr> tx_retry_count := int k \<rparr>) = (w1, task1, Inr out0)"
      "validate_and_repair (ne_validators env) out0 (Some (an_name a)) (ne_hex env (aw_rest w1)) (now_of env w1) = (out, v)"
      "\<not> vr_valid v" "w2 = log_validation env a task1 out v w1"
      "run_loop env a left (Suc k) task1 cp (Some (validation_message v))
         (if int k < at_max_retries task1 then announce_retry a task1 k (validation_message v) w2 else w2) = (w', task', cp', r)"
proof -
  obtain w1 task1 res where d: "an_do_work a w (task \<lparr> tx_retry_count := int k \<rparr>) = (w1, task1, res)" by (metis prod_cases3)
  show thesis
  proof (cases res)
    case (Inl msg)
    show thesis
    proof (cases "int k < at_max_retries task1 \<and> er_level (agent_classify_error msg (ne_traceback env msg)) = L1_TEMPORARY")
      case True
      then show thesis using again[of w1 task1 msg] d Inl assms by simp
    next
      case False
      then have "w' = w1" "task' = task1" "cp' = cp" "r = Inl msg" using d Inl assms by auto
      then show thesis using raised[of w1 msg] False d Inl by simp
    qed
  next
    case (Inr out0)
    obtain out v where val: "validate_and_repair (ne_validators env) out0 (Some (an_name a)) (ne_hex env (aw_rest w1)) (now_of env w1) = (out, v)"
      by force
    show thesis
    proof (cases "vr_valid v")
      case True
      obtain w3 t3 c3 o3 where s: "on_validation_success env a task1 cp out k (log_validation env a task1 out v w1) = (w3, t3, c3, o3)"
        by (metis prod_cases4)
      then have "w' = w3" "task' = t3" "cp' = c3" "r = Inr o3" using True d Inr val assms by (simp_all add: Let_def)
      then show thesis using valid[OF d[unfolded Inr] val True refl] s by simp
    next
      case False
      then show thesis using invalid[OF d[unfolded Inr] val False refl] d Inr val assms by (simp add: Let_def)
    qed
  qed
qed

lemma events_announce [simp]:
  "events_of tid (announce_retry a task k msg w) = events_of tid w @ (if tx_task_id task = tid then [TASK_RETRYING] else [])"
  by (simp add: announce_retry_def events_publish)

lemma retry_then:
  assumes "int k < limit" and "life_path limit (Running (Suc k)) es s"
  shows "life_path limit (Running k) (TASK_RETRYING # es) s"
  using life_path.move[OF life_step.retry[OF assms(1)] assms(2)] .

lemma run_loop_life:
  assumes "minds_own_task (an_do_work a)"
  shows "run_loop env a left k task cp err w = (w', task', cp', r) \<Longrightarrow> 0 < left \<Longrightarrow>
    int left + int k = at_max_retries task + 1 \<Longrightarrow>
    (\<exists>es k'. events_of (tx_task_id task) w' = events_of (tx_task_id task) w @ es \<and>
       life_path (at_max_retries task) (Running k) es (case r of Inl _ \<Rightarrow> Running k' | Inr _ \<Rightarrow> Completed)) \<and>
    tx_task_id task' = tx_task_id task \<and> at_max_retries task' = at_max_retries task"
proof (induction left arbitrary: k task err w)
  case 0
  then show ?case by simp
next
  case (Suc left)
  have work: "tx_task_id t1 = tx_task_id task \<and> at_max_retries t1 = at_max_retries task \<and>
      events_of (tx_task_id task) w1 = events_of (tx_task_id task) w"
    if "an_do_work a w (task \<lparr> tx_retry_count := int k \<rparr>) = (w1, t1, res)" for w1 t1 res
    using minds_own_taskD[OF assms that] by simp
  from Suc.prems(1) show ?case
  proof (cases rule: run_loop_round)
    case (raised w1 msg)
    with work[OF raised(1)] show ?thesis
      by (intro conjI exI[of _ "[]"] exI[of _ k]) (auto intro: life_path.stay)
  next
    case (again w1 task1 msg)
    note t = work[OF again(1)]
    have "0 < left" using again(2) t Suc.prems(3) by auto
    from Suc.IH[OF again(4) this] t Suc.prems(3) obtain es k' where
      "events_of (tx_task_id task) w' = events_of (tx_task_id task) w @ TASK_RETRYING # es"
      "life_path (at_max_retries task) (Running (Suc k)) es (case r of Inl _ \<Rightarrow> Running k' | Inr _ \<Rightarrow> Completed)"
      "tx_task_id task' = tx_task_id task" "at_max_retries task' = at_max_retries task"
      by auto
    with again(2) t show ?thesis using retry_then by metis
  next
    case (valid w1 task1 out0 out v w2 out')
    note t = work[OF valid(1)]
    have "events_of (tx_task_id task) w' = events_of (tx_task_id task) w @ [TASK_COMPLETED]"
      "tx_task_id task' = tx_task_id task" "at_max_retries task' = at_max_retries task"
      using success_facts(1-3)[OF valid(5)] t valid(4) by auto
    moreover have "life_path (at_max_retries task) (Running k) [TASK_COMPLETED] Completed"
      by (rule life_path_single[OF life_step.complete])
    ultimately show ?thesis using valid(6) by auto
  next
    case (invalid w1 task1 out0 out v w2)
    note t = work[OF invalid(1)]
    show ?thesis
    proof (cases left)
      case 0
      then have "\<not> int k < at_max_retries task1" using t Suc.prems(3) by simp
      then have "w' = w2" "task' = task1" "r = Inl (validation_message v)" using invalid(5) 0 by auto
      with t invalid(4) show ?thesis by (intro conjI exI[of _ "[]"] exI[of _ k]) (auto intro: life_path.stay)
    next
      case (Suc l)
      then have k: "int k < at_max_retries task1" and "0 < left" using t Suc.prems(3) by auto
      from Suc.IH[OF invalid(5) this(2)] t Suc.prems(3) k invalid(4) obtain es k' where
        "events_of (tx_task_id task) w' = events_of (tx_task_id task) w @ TASK_RETRYING # es"
        "life_path (at_max_retries task) (Running (Suc k)) es (case r of Inl _ \<Rightarrow> Running k' | Inr _ \<Rightarrow> Completed)"
        "tx_task_id task' = tx_task_id task" "at_max_retries task' = at_max_retries task"
        by auto
      with k t show ?thesis using retry_then by metis
    qed
  qed
qed

text \<open>What a run of the loop that returns gives back: the last output of \<open>do_work\<close>, valid after its repair, stamped
  with the attempt, the agent and its provenance; the checkpoint is gone from the disk.\<close>

definition stamped :: "'x smart_agent \<Rightarrow> nat \<Rightarrow> output_schema \<Rightarrow> output_schema \<Rightarrow> bool" where
  "stamped a k out out' \<longleftrightarrow> os_payload out' = os_payload out \<and> os_id out' = os_id out \<and> os_type out' = os_type out \<and>
     dict_get (os_metadata out') ''retry_count'' = Some (PInt (int k)) \<and>
     dict_get (os_metadata out') ''agent_name'' = Some (PStr (an_name a)) \<and>
     (\<exists>p. get_provenance out' = Some p \<and> (os_partial out \<longrightarrow> dp_source p = PV_LLM_FAILURE))"

definition accepted_at :: "'x agent_env \<Rightarrow> 'x smart_agent \<Rightarrow> nat \<Rightarrow> output_schema \<Rightarrow> bool" where
  "accepted_at env a j out' \<longleftrightarrow> (\<exists>w0 t0 w1 t1 out0 hex now out v.
     an_do_work a w0 t0 = (w1, t1, Inr out0) \<and> tx_retry_count t0 = int j \<and>
     validate_and_repair (ne_validators env) out0 (Some (an_name a)) hex now = (out, v) \<and> vr_valid v \<and> stamped a j out out')"

lemma run_loop_output:
  assumes "minds_own_task (an_do_work a)"
  shows "run_loop env a left k task cp err w = (w', task', cp', Inr out') \<Longrightarrow>
    (\<exists>j. k \<le> j \<and> j < k + left \<and> accepted_at env a j out') \<and> dict_get (aw_disk w') (tx_task_id task) = None"
proof (induction left arbitrary: k task err w)
  case 0
  then show ?case by simp
next
  case (Suc left)
  have tid: "tx_task_id t1 = tx_task_id task" if "an_do_work a w (task \<lparr> tx_retry_count := int k \<rparr>) = (w1, t1, res)" for w1 t1 res
    using minds_own_taskD(1)[OF assms that] by simp
  have later: ?case if "(\<exists>j. Suc k \<le> j \<and> j < Suc k + left \<and> accepted_at env a j out') \<and> dict_get (aw_disk w') (tx_task_id task) = None"
    using that by (auto intro: Suc_leD)
  from Suc.prems show ?case
  proof (cases rule: run_loop_round)
    case (again w1 task1 msg)
    from Suc.IH[OF again(4)] tid[OF again(1)] later show ?thesis by simp
  next
    case (valid w1 task1 out0 out v w2 o2)
    have "stamped a k out out'"
      using success_facts(5-10)[OF valid(5)] valid(6) by (auto simp: stamped_def provenance_of_def)
    moreover have "tx_retry_count (task \<lparr> tx_retry_count := int k \<rparr>) = int k" by simp
    ultimately have "accepted_at env a k out'" unfolding accepted_at_def using valid(1-3) by blast
    moreover have "dict_get (aw_disk w') (tx_task_id task) = None"
      using success_facts(4)[OF valid(5)] tid[OF valid(1)] by simp
    ultimately show ?thesis by auto
  next
    case (invalid w1 task1 out0 out v w2)
    from Suc.IH[OF invalid(5)] tid[OF invalid(1)] later show ?thesis by simp
  qed auto
qed

end
