(* ===== verification/Evaluator.thy ===== *)
theory Evaluator
  imports Experience
begin

section \<open>Problem evaluation (core/evaluator.py)\<close>

text \<open>
  What kind of action failed, how severe the failure is, whether the agent can solve it alone, and
  which way the resolution goes: a retry, peers, a human or the coordinating agent. The experiences it
  looks up are those of the memory graph.
\<close>

subsection \<open>Data\<close>

datatype problem_severity = PS_LOW | PS_MEDIUM | PS_HIGH | PS_CRITICAL

fun severity_value :: "problem_severity \<Rightarrow> string" where
  "severity_value PS_LOW = ''low''"
| "severity_value PS_MEDIUM = ''medium''"
| "severity_value PS_HIGH = ''high''"
| "severity_value PS_CRITICAL = ''critical''"

datatype resolution_path = RP_SELF | RP_PEER | RP_HUMAN | RP_ESCALATE

fun path_value :: "resolution_path \<Rightarrow> string" where
  "path_value RP_SELF = ''self''"
| "path_value RP_PEER = ''peer''"
| "path_value RP_HUMAN = ''human''"
| "path_value RP_ESCALATE = ''escalate''"

datatype action_category = AC_NORMAL | AC_IRREVERSIBLE | AC_COMPLIANCE | AC_HIGH_IMPACT | AC_DANGEROUS

fun category_value :: "action_category \<Rightarrow> string" where
  "category_value AC_NORMAL = ''normal''"
| "category_value AC_IRREVERSIBLE = ''irreversible''"
| "category_value AC_COMPLIANCE = ''compliance''"
| "category_value AC_HIGH_IMPACT = ''high_impact''"
| "category_value AC_DANGEROUS = ''dangerous''"

record problem_analysis =
  pa_severity :: problem_severity
  pa_confidence :: rat
  pa_can_self_solve :: bool
  pa_needs_peer_help :: bool
  pa_action_category :: action_category
  pa_suggested_path :: resolution_path
  pa_similar_experiences :: "pydict list"
  pa_reasoning :: string
  pa_error_summary :: string

definition should_route_direct_to_human :: "problem_analysis \<Rightarrow> bool" where
  "should_route_direct_to_human pa =
     (pa_action_category pa \<in> {AC_IRREVERSIBLE, AC_COMPLIANCE, AC_DANGEROUS})"

definition irreversible_patterns :: "string list" where
  "irreversible_patterns =
     [''delete'', ''drop'', ''truncate'', ''remove'', ''destroy'',
      ''deploy'', ''release'', ''publish'', ''production'',
      ''modify config'', ''change setting'', ''update config'',
      ''overwrite'', ''replace all'', ''mass update'',
      ''reset password'', ''change permission'', ''grant admin'']"

definition compliance_patterns :: "string list" where
  "compliance_patterns =
     [''gdpr'', ''pii'', ''personal data'', ''compliance'',
      ''legal'', ''regulatory'', ''audit'', ''sensitive'',
      ''financial'', ''payment'', ''credit card'', ''hipaa'',
      ''soc2'', ''iso'', ''certification'', ''license'']"

definition high_impact_patterns :: "string list" where
  "high_impact_patterns =
     [''all users'', ''mass'', ''bulk'', ''entire'', ''global'',
      ''production'', ''system-wide'', ''company-wide'']"

subsection \<open>The steps\<close>

definition classify_action :: "string \<Rightarrow> string \<Rightarrow> action_category" where
  "classify_action action_lower input_lower =
     (let combined = action_lower @ '' '' @ input_lower in
      if any_in irreversible_patterns combined
      then (if any_in [''delete'', ''drop'', ''truncate'', ''remove'', ''destroy''] combined
            then AC_DANGEROUS else AC_IRREVERSIBLE)
      else if any_in compliance_patterns combined then AC_COMPLIANCE
      else if any_in high_impact_patterns combined then AC_HIGH_IMPACT
      else AC_NORMAL)"

definition assess_severity :: "string \<Rightarrow> string \<Rightarrow> problem_severity" where
  "assess_severity error_lower action_lower =
     (let combined = error_lower @ '' '' @ action_lower in
      if any_in [''data loss'', ''security'', ''breach'', ''crash'', ''down'',
                 ''corrupt'', ''integrity'', ''vulnerability''] combined then PS_CRITICAL
      else if any_in [''permission denied'', ''access denied'', ''timeout'',
                      ''unavailable'', ''exception'', ''failed''] combined then PS_HIGH
      else if any_in [''invalid'', ''not found'', ''bad request'', ''validation'',
                      ''conflict'', ''limit'', ''quota''] combined then PS_MEDIUM
      else PS_LOW)"

definition succeeded :: "graph_node \<Rightarrow> bool" where
  "succeeded n = py_truthy (dict_get_or (gn_content n) ''success'' (PBool False))"

fun experience_boost :: "(graph_node \<times> rat) list \<Rightarrow> rat \<Rightarrow> rat" where
  "experience_boost [] boost = boost"
| "experience_boost ((n, score) # rest) boost =
     experience_boost rest (if succeeded n then boost + 1/5 * score else boost)"

definition assess_self_solve :: "string \<Rightarrow> string list \<Rightarrow> (graph_node \<times> rat) list \<Rightarrow> int \<Rightarrow> bool \<times> rat" where
  "assess_self_solve error_lower capabilities similar retry_count =
     (if 2 \<le> retry_count then (False, 1/10)
      else
        let boost = experience_boost similar 0;
            is_temporary = any_in [''timeout'', ''rate limit'', ''429'', ''503'', ''temporary'',
                                   ''retry'', ''busy'', ''throttl''] error_lower
        in if is_temporary then (True, min (4/5 + boost) (19/20))
           else if any_in (map lower capabilities) error_lower then (True, min (3/5 + boost) (9/10))
           else (False, min (3/10 + boost) (1/2)))"

definition assess_peer_needed :: "problem_severity \<Rightarrow> bool \<Rightarrow> rat \<Rightarrow> string \<Rightarrow> bool" where
  "assess_peer_needed severity can_self_solve confidence error_lower =
     (if can_self_solve \<and> confidence > 7/10 then False
      else if any_in [''complex'', ''ambiguous'', ''unclear'', ''multiple'',
                      ''integration'', ''depend'', ''conflict''] error_lower then True
      else if (severity = PS_HIGH \<or> severity = PS_CRITICAL) \<and> confidence < 1/2 then True
      else False)"

definition decide_path :: "action_category \<Rightarrow> bool \<Rightarrow> rat \<Rightarrow> bool \<Rightarrow> int \<Rightarrow> resolution_path" where
  "decide_path action_cat can_self_solve confidence needs_peer retry_count =
     (if action_cat = AC_IRREVERSIBLE \<or> action_cat = AC_COMPLIANCE \<or> action_cat = AC_DANGEROUS then RP_HUMAN
      else if action_cat = AC_HIGH_IMPACT \<and> confidence < 4/5 then RP_HUMAN
      else if can_self_solve \<and> confidence > 7/10 then RP_SELF
      else if can_self_solve \<and> confidence > 2/5 then (if retry_count = 0 then RP_SELF else RP_PEER)
      else if needs_peer then RP_PEER
      else RP_ESCALATE)"

definition bool_text :: "bool \<Rightarrow> string" where
  "bool_text b = (if b then ''True'' else ''False'')"

definition evaluate ::
  "text_lib \<Rightarrow> backend \<Rightarrow> graph \<Rightarrow> string \<Rightarrow> string list \<Rightarrow> string option \<Rightarrow> string option \<Rightarrow> int \<Rightarrow> microseconds \<Rightarrow>
   problem_analysis" where
  "evaluate lib be g error_message capabilities attempted_action task_input retry_count now =
     (let error_lower = lower error_message;
          action_lower = lower (case attempted_action of None \<Rightarrow> [] | Some a \<Rightarrow> a);
          input_lower = lower (case task_input of None \<Rightarrow> [] | Some t \<Rightarrow> t);
          action_cat = classify_action action_lower input_lower
      in if action_cat = AC_IRREVERSIBLE \<or> action_cat = AC_COMPLIANCE \<or> action_cat = AC_DANGEROUS
         then \<lparr> pa_severity = (if action_cat \<noteq> AC_COMPLIANCE then PS_HIGH else PS_MEDIUM), pa_confidence = 1,
                pa_can_self_solve = False, pa_needs_peer_help = False, pa_action_category = action_cat,
                pa_suggested_path = RP_HUMAN, pa_similar_experiences = [],
                pa_reasoning = ''Action classified as '' @ category_value action_cat @ '': requires human approval'',
                pa_error_summary = take 500 error_message \<rparr>
         else
           let severity = assess_severity error_lower action_lower;
               similar = find_similar_failures lib be g error_message 3 30 now;
               similar_data = map (\<lambda>(n, s). [(''id'', PStr (gn_id n)), (''summary'', PStr (take 200 (summary_of n))),
                 (''success'', dict_get_or (gn_content n) ''success'' (PBool False))]) similar;
               (can_self_solve, confidence) = assess_self_solve error_lower capabilities similar retry_count;
               needs_peer = assess_peer_needed severity can_self_solve confidence error_lower;
               path = decide_path action_cat can_self_solve confidence needs_peer retry_count
           in \<lparr> pa_severity = severity, pa_confidence = confidence, pa_can_self_solve = can_self_solve,
                pa_needs_peer_help = needs_peer, pa_action_category = action_cat, pa_suggested_path = path,
                pa_similar_experiences = similar_data,
                pa_reasoning = join_with ''; ''
                  [''Severity: '' @ severity_value severity,
                   ''Self-solve: '' @ (if can_self_solve then ''yes'' else ''no'') @ '' (confidence='' @ fixed_dec 2 confidence @ '')'',
                   ''Peer help needed: '' @ bool_text needs_peer,
                   ''Similar past experiences: '' @ show_nat (length similar),
                   ''Suggested path: '' @ path_value path],
                pa_error_summary = take 500 error_message \<rparr>)"

subsection \<open>Where a problem goes\<close>

definition risky :: "action_category \<Rightarrow> bool" where
  "risky c \<longleftrightarrow> c = AC_IRREVERSIBLE \<or> c = AC_COMPLIANCE \<or> c = AC_DANGEROUS"

lemma any_in_append: "any_in (ps @ qs) s \<longleftrightarrow> any_in ps s \<or> any_in qs s"
  by (auto simp: any_in_def)

lemma risky_classify:
  "risky (classify_action a i) \<longleftrightarrow> any_in (irreversible_patterns @ compliance_patterns) (a @ '' '' @ i)"
  by (simp add: risky_def classify_action_def any_in_append Let_def)

lemma evaluate_risky:
  assumes "risky (pa_action_category (evaluate lib be g err caps act inp retry now))"
  shows "pa_suggested_path (evaluate lib be g err caps act inp retry now) = RP_HUMAN"
    and "\<not> pa_can_self_solve (evaluate lib be g err caps act inp retry now)"
    and "\<not> pa_needs_peer_help (evaluate lib be g err caps act inp retry now)"
    and "pa_confidence (evaluate lib be g err caps act inp retry now) = 1"
    and "pa_similar_experiences (evaluate lib be g err caps act inp retry now) = []"
  using assms by (auto simp: evaluate_def Let_def risky_def split_beta split: if_splits)

lemma evaluate_category:
  "pa_action_category (evaluate lib be g err caps act inp retry now) =
     classify_action (lower (case act of None \<Rightarrow> [] | Some a \<Rightarrow> a)) (lower (case inp of None \<Rightarrow> [] | Some t \<Rightarrow> t))"
  by (simp add: evaluate_def Let_def split_beta)

lemma evaluate_ordinary:
  assumes "\<not> risky (pa_action_category (evaluate lib be g err caps act inp retry now))"
  shows "(pa_can_self_solve (evaluate lib be g err caps act inp retry now),
          pa_confidence (evaluate lib be g err caps act inp retry now)) =
      assess_self_solve (lower err) caps (find_similar_failures lib be g err 3 30 now) retry"
    and "pa_needs_peer_help (evaluate lib be g err caps act inp retry now) =
      assess_peer_needed (pa_severity (evaluate lib be g err caps act inp retry now))
        (pa_can_self_solve (evaluate lib be g err caps act inp retry now))
        (pa_confidence (evaluate lib be g err caps act inp retry now)) (lower err)"
    and "pa_suggested_path (evaluate lib be g err caps act inp retry now) =
      decide_path (pa_action_category (evaluate lib be g err caps act inp retry now))
        (pa_can_self_solve (evaluate lib be g err caps act inp retry now))
        (pa_confidence (evaluate lib be g err caps act inp retry now))
        (pa_needs_peer_help (evaluate lib be g err caps act inp retry now)) retry"
proof -
  define c where "c = classify_action (lower (case act of None \<Rightarrow> [] | Some a \<Rightarrow> a)) (lower (case inp of None \<Rightarrow> [] | Some t \<Rightarrow> t))"
  have c: "\<not> (c = AC_IRREVERSIBLE \<or> c = AC_COMPLIANCE \<or> c = AC_DANGEROUS)"
    using assms by (simp add: evaluate_category risky_def c_def)
  note e = evaluate_def[of lib be g err caps act inp retry now, unfolded Let_def, folded c_def, unfolded if_not_P[OF c] split_beta]
  show "(pa_can_self_solve (evaluate lib be g err caps act inp retry now),
          pa_confidence (evaluate lib be g err caps act inp retry now)) =
      assess_self_solve (lower err) caps (find_similar_failures lib be g err 3 30 now) retry"
    by (simp only: e problem_analysis.simps prod.collapse)
  show "pa_needs_peer_help (evaluate lib be g err caps act inp retry now) =
      assess_peer_needed (pa_severity (evaluate lib be g err caps act inp retry now))
        (pa_can_self_solve (evaluate lib be g err caps act inp retry now))
        (pa_confidence (evaluate lib be g err caps act inp retry now)) (lower err)"
    by (simp only: e problem_analysis.simps)
  show "pa_suggested_path (evaluate lib be g err caps act inp retry now) =
      decide_path (pa_action_category (evaluate lib be g err caps act inp retry now))
        (pa_can_self_solve (evaluate lib be g err caps act inp retry now))
        (pa_confidence (evaluate lib be g err caps act inp retry now))
        (pa_needs_peer_help (evaluate lib be g err caps act inp retry now)) retry"
    by (simp only: e problem_analysis.simps)
qed

lemma decide_path_cases:
  "decide_path c self conf peer retry = RP_HUMAN \<longleftrightarrow> risky c \<or> c = AC_HIGH_IMPACT \<and> conf < 4/5"
  "decide_path c self conf peer retry = RP_SELF \<longleftrightarrow>
     \<not> risky c \<and> \<not> (c = AC_HIGH_IMPACT \<and> conf < 4/5) \<and> self \<and> (conf > 7/10 \<or> conf > 2/5 \<and> retry = 0)"
  "decide_path c self conf peer retry = RP_ESCALATE \<longleftrightarrow>
     \<not> risky c \<and> \<not> (c = AC_HIGH_IMPACT \<and> conf < 4/5) \<and> \<not> (self \<and> conf > 2/5) \<and> \<not> peer"
  by (auto simp: decide_path_def risky_def)

lemma experience_boost_mono: "\<forall>(n, s) \<in> set xs. 0 \<le> s \<Longrightarrow> b \<le> experience_boost xs b"
proof (induction xs b rule: experience_boost.induct)
  case (2 n score rest boost)
  let ?b = "if succeeded n then boost + 1/5 * score else boost"
  have "boost \<le> ?b" using 2(2) by auto
  also have "\<dots> \<le> experience_boost rest ?b" using 2 by simp
  finally show ?case by simp
qed simp

lemma assess_self_solve_bounds:
  assumes "\<forall>(n, s) \<in> set similar. 0 \<le> s" and "assess_self_solve err caps similar retry = (self, conf)"
  shows "1/10 \<le> conf" and "conf \<le> 19/20" and "self \<Longrightarrow> retry < 2 \<and> 3/5 \<le> conf" and "\<not> self \<Longrightarrow> conf \<le> 1/2"
  using assms(2) experience_boost_mono[OF assms(1), of 0]
  by (auto simp: assess_self_solve_def Let_def min_def split: if_splits)

lemma similar_scores_nonneg:
  assumes "\<And>x. 0 \<le> tl_half_pow lib x"
  shows "\<forall>(n, s) \<in> set (find_similar_failures lib be g err 3 30 now). 0 \<le> s"
proof (cases "err = []")
  case True
  then show ?thesis by (simp add: find_similar_failures_def)
next
  case False
  have "0 \<le> effective_score lib sim n now 30" if "1/100 \<le> sim" for sim n
  proof -
    have "0 \<le> decay_factor lib n now 30" using assms by (simp add: decay_factor_def Let_def)
    moreover have "0 \<le> sim" using that by (rule order_trans[rotated]) simp
    ultimately show ?thesis by (simp add: effective_score_def)
  qed
  with similar_facts(3)[OF False, of 3 _ _ lib be g 30 now] show ?thesis by fastforce
qed

text \<open>C23: Where a problem goes. An action that names anything irreversible or regulated goes to a human, with no
  attempt of the agent; so does one of high impact without high confidence, and nothing else does. The
  agent retries alone only when it can solve the problem, has retried less than twice, and is
  confident or has not retried yet; a problem is escalated exactly when it goes to no human, the
  agent cannot solve it and no peer would help. The confidence is between 0.1 and 1.\<close>

theorem evaluate_routes:
  fixes lib :: text_lib and act inp :: "string option"
  assumes "\<And>x. 0 \<le> tl_half_pow lib x"
  shows "let pa = evaluate lib be g err caps act inp retry now;
      text = lower (case act of None \<Rightarrow> [] | Some a \<Rightarrow> a) @ '' '' @ lower (case inp of None \<Rightarrow> [] | Some t \<Rightarrow> t)
    in (should_route_direct_to_human pa \<longleftrightarrow> any_in (irreversible_patterns @ compliance_patterns) text) \<and>
       (should_route_direct_to_human pa \<longrightarrow> \<not> pa_can_self_solve pa \<and> \<not> pa_needs_peer_help pa \<and> pa_confidence pa = 1) \<and>
       (pa_suggested_path pa = RP_HUMAN \<longleftrightarrow>
          should_route_direct_to_human pa \<or> pa_action_category pa = AC_HIGH_IMPACT \<and> pa_confidence pa < 4/5) \<and>
       (pa_suggested_path pa = RP_SELF \<longrightarrow>
          pa_can_self_solve pa \<and> retry < 2 \<and> (pa_confidence pa > 7/10 \<or> retry = 0)) \<and>
       (pa_suggested_path pa = RP_ESCALATE \<longleftrightarrow>
          pa_suggested_path pa \<noteq> RP_HUMAN \<and> \<not> pa_can_self_solve pa \<and> \<not> pa_needs_peer_help pa) \<and>
       1/10 \<le> pa_confidence pa \<and> pa_confidence pa \<le> 1"
proof -
  let ?pa = "evaluate lib be g err caps act inp retry now"
  have risky: "should_route_direct_to_human ?pa \<longleftrightarrow> risky (pa_action_category ?pa)"
    by (simp add: should_route_direct_to_human_def risky_def)
  show ?thesis
  proof (cases "risky (pa_action_category ?pa)")
    case True
    then show ?thesis
      using evaluate_risky[OF True] by (simp add: Let_def risky evaluate_category risky_classify)
  next
    case False
    note e = evaluate_ordinary[OF False]
    note b = assess_self_solve_bounds[OF similar_scores_nonneg[OF assms] e(1)[symmetric]]
    have conf: "pa_can_self_solve ?pa \<Longrightarrow> 2/5 < pa_confidence ?pa"
    proof -
      assume "pa_can_self_solve ?pa"
      with b(3) have "3/5 \<le> pa_confidence ?pa" by simp
      then show ?thesis by (rule less_le_trans[rotated]) simp
    qed
    have le1: "pa_confidence ?pa \<le> 1" using b(2) by (rule order_trans) simp
    have cat: "\<not> any_in (irreversible_patterns @ compliance_patterns)
        (lower (case act of None \<Rightarrow> [] | Some a \<Rightarrow> a) @ '' '' @ lower (case inp of None \<Rightarrow> [] | Some t \<Rightarrow> t))"
      using False by (simp add: evaluate_category risky_classify)
    show ?thesis
      unfolding Let_def risky e(3) decide_path_cases using False b(1,3) conf le1 cat by blast
  qed
qed

theorem evaluate_routes_witness:
  "pa_suggested_path (evaluate sample_lib keyword_backend empty_graph ''timeout'' [''docs'']
     (Some ''Delete the old records'') None 0 1) = RP_HUMAN"
proof -
  have pow: "0 \<le> tl_half_pow sample_lib x" for x by (simp add: sample_lib_def)
  have found: "any_in (irreversible_patterns @ compliance_patterns) (lower ''Delete the old records'' @ '' '' @ lower [])"
    by code_simp
  show ?thesis
    using evaluate_routes[OF pow, where act = "Some ''Delete the old records''" and inp = None and be = keyword_backend
        and g = empty_graph and err = "''timeout''" and caps = "[''docs'']" and retry = 0 and now = 1]
    by (simp only: Let_def option.case found simp_thms)
qed

text \<open>The patterns match inside words: a harmless action counts as dangerous.\<close>

lemma dropdown_is_dangerous: "classify_action ''add a dropdown menu'' [] = AC_DANGEROUS"
  by code_simp

text \<open>A production deployment is irreversible, not dangerous.\<close>

lemma production_deploy_category: "classify_action ''deploy to production'' [] = AC_IRREVERSIBLE"
  by code_simp

text \<open>The pattern \<open>production\<close> of high impact is never reached: it is irreversible already.\<close>

lemma production_never_high_impact:
  "str_in ''production'' (a @ '' '' @ i) \<Longrightarrow> classify_action a i \<noteq> AC_HIGH_IMPACT"
  by (auto simp: classify_action_def Let_def any_in_def irreversible_patterns_def)

end
