(* ===== verification/Discussion.thy ===== *)
theory Discussion
  imports Evaluator
begin

section \<open>Peer discussions (core/mixins/discussion.py)\<close>

text \<open>
  One round of a discussion: choosing the peers, asking each for advice, and the consensus drawn from
  the answers. How a peer answers, whether in time, and whether the round as a whole runs out of time are
  parameters; so are \<open>str\<close> of a value and of a dictionary. The measured durations are left out.
\<close>

subsection \<open>Data\<close>

record discussion_context =
  dc_task_id :: string
  dc_task_input :: string
  dc_error :: "string option"
  dc_capability_hint :: "string option"
  dc_agent_capabilities :: "string list"
  dc_max_participants :: int

datatype discussion_role = DR_ASKER | DR_ADVISOR | DR_SYNTHESIZER | DR_MODERATOR

fun role_text :: "discussion_role \<Rightarrow> string" where
  "role_text DR_ASKER = ''asker''"
| "role_text DR_ADVISOR = ''advisor''"
| "role_text DR_SYNTHESIZER = ''synthesizer''"
| "role_text DR_MODERATOR = ''moderator''"

record discussion_message =
  dm_agent :: string
  dm_role :: discussion_role
  dm_message :: string
  dm_unavailable :: bool

record consensus =
  cn_summary :: string
  cn_actionable_suggestion :: string
  cn_confidence :: rat
  cn_agreement_ratio :: rat

record discussion_result =
  ds_transcript :: "discussion_message list"
  ds_consensus :: "consensus option"
  ds_timed_out :: bool
  ds_no_peers_available :: bool
  ds_error :: "string option"

definition discussion_successful :: "discussion_result \<Rightarrow> bool" where
  "discussion_successful r = (case ds_consensus r of None \<Rightarrow> False | Some c \<Rightarrow> cn_confidence c > 0)"

text \<open>What a peer function returns, and how asking it can end.\<close>

datatype peer_output = PO_None | PO_Text string | PO_Payload pydict | PO_Dict pydict | PO_Other string

datatype peer_reply = PR_Output peer_output | PR_TimedOut | PR_Raised string

record text_of =
  to_val :: "pyval \<Rightarrow> string"
  to_dict :: "pydict \<Rightarrow> string"

record peer_context =
  pc_task_id :: string
  pc_input :: string
  pc_original_agent :: string

record peer_provider =
  pp_capabilities :: "string list"
  pp_peer_fn :: "string \<Rightarrow> peer_context \<Rightarrow> peer_reply"

type_synonym peers = "(string, peer_provider) dict"

subsection \<open>Registering peers\<close>

text \<open>
  The class attribute \<open>_peer_registry\<close> is one dictionary of the mixin: every agent class that inherits it
  writes to the same object. An instance may have a dictionary of its own.
\<close>

record peer_world =
  pw_shared :: peers
  pw_own :: "(string, peers) dict"

definition register_peer :: "string \<Rightarrow> string \<Rightarrow> peer_provider \<Rightarrow> bool \<Rightarrow> peer_world \<Rightarrow> peer_world" where
  "register_peer agent name p class_level w =
     (let w' = w \<lparr> pw_shared := dict_set (pw_shared w) name p \<rparr> in
      if class_level then w'
      else w' \<lparr> pw_own := dict_set (pw_own w) agent (dict_set (dict_get_or (pw_own w) agent []) name p) \<rparr>)"

definition register_peer_class :: "string \<Rightarrow> peer_provider \<Rightarrow> peer_world \<Rightarrow> peer_world" where
  "register_peer_class name p w = w \<lparr> pw_shared := dict_set (pw_shared w) name p \<rparr>"

definition all_peers_of :: "string \<Rightarrow> peer_world \<Rightarrow> peers" where
  "all_peers_of agent w =
     foldl (\<lambda>d (name, p). dict_set d name p) (pw_shared w) (dict_get_or (pw_own w) agent [])"

lemma get_merged:
  "dict_ok e \<Longrightarrow> dict_get (foldl (\<lambda>d (k, v). dict_set d k v) d e) k =
     (case dict_get e k of None \<Rightarrow> dict_get d k | Some v \<Rightarrow> Some v)"
proof (induction e arbitrary: d)
  case (Cons kv e)
  have "dict_get e (fst kv) = None" using Cons.prems by (cases kv) (auto simp: map_of_eq_None_iff)
  then show ?case using Cons by (cases kv) (auto split: option.splits)
qed simp

text \<open>A peer registered for one agent is offered to every agent that has no peer of that name of its own.\<close>

lemma registration_is_global:
  assumes "dict_ok (dict_get_or (pw_own w) other [])" and "dict_get (dict_get_or (pw_own w) other []) name = None"
    and "other \<noteq> agent"
  shows "dict_get (all_peers_of other (register_peer agent name p class_level w)) name = Some p"
  using assms by (simp add: all_peers_of_def register_peer_def Let_def dict_get_or_def get_merged)

lemma own_peer_wins:
  assumes "dict_ok (dict_get_or (pw_own w) agent [])"
  shows "dict_get (all_peers_of agent (register_peer_class name q (register_peer agent name p False w))) name = Some p"
  using assms by (simp add: all_peers_of_def register_peer_def register_peer_class_def Let_def dict_get_or_def get_merged)

subsection \<open>Choosing peers\<close>

definition opt_text :: "string option \<Rightarrow> string" where
  "opt_text s = (case s of None \<Rightarrow> [] | Some t \<Rightarrow> t)"

definition word_hits :: "string list \<Rightarrow> string \<Rightarrow> int" where
  "word_hits caps topic =
     int (length (filter (\<lambda>w. length w > 3 \<and> str_in w topic) (concat (map (\<lambda>c. split_ws (lower c)) caps))))"

definition score_peer :: "string \<Rightarrow> peer_provider \<Rightarrow> discussion_context \<Rightarrow> int" where
  "score_peer name p ctx =
     (let topic = lower (dc_task_input ctx @ '' '' @ opt_text (dc_error ctx) @ '' '' @ opt_text (dc_capability_hint ctx))
      in (if str_in name topic then 3 else 0) + word_hits (pp_capabilities p) topic +
         word_hits (dc_agent_capabilities ctx) topic)"

definition select_peers :: "peers \<Rightarrow> discussion_context \<Rightarrow> peers" where
  "select_peers all_peers ctx =
     (if dc_max_participants ctx \<le> 0 then []
      else py_slice 0 (dc_max_participants ctx) (sort_key (\<lambda>(name, p). - score_peer name p ctx) all_peers))"

subsection \<open>The round\<close>

definition format_opening :: "discussion_context \<Rightarrow> string" where
  "format_opening ctx =
     join_with '' ''
       ([''I'' @ [CHR 0x27] @ ''m working on: '' @ take 300 (dc_task_input ctx)] @
        (if opt_text (dc_error ctx) = [] then [] else [''Error encountered: '' @ take 200 (opt_text (dc_error ctx))]) @
        [''My capabilities: '' @ join_with '', '' (take 5 (dc_agent_capabilities ctx)),
         ''I'' @ [CHR 0x27] @ ''d like your perspective. In 1-2 sentences, what should I try next?''])"

definition newline :: string where
  "newline = [CHR 0x0A]"

definition format_peer_prompt :: "string \<Rightarrow> discussion_context \<Rightarrow> string" where
  "format_peer_prompt name ctx =
     ''You are '' @ [CHR 0x27] @ name @ [CHR 0x27] @ ''. A colleague asked for help with this task:'' @ newline @ newline @
     ''Task: '' @ take 400 (dc_task_input ctx) @ newline @
     (if opt_text (dc_error ctx) = [] then [] else ''Error: '' @ take 300 (opt_text (dc_error ctx)) @ newline) @
     newline @ ''The asker has capabilities: '' @ join_with '', '' (take 5 (dc_agent_capabilities ctx)) @ ''.'' @ newline @ newline @
     ''Reply with a brief (1-2 sentences) practical suggestion. '' @
     ''Focus on what they should try next, not on restating the problem.''"

definition message_keys :: "string list" where
  "message_keys = [''summary'', ''suggestion'', ''advice'', ''message'', ''response'', ''answer'', ''raw_output'']"

definition truthy_at :: "pydict \<Rightarrow> string \<Rightarrow> bool" where
  "truthy_at d k = py_truthy (dict_get_or d k PNone)"

fun extract_peer_message :: "text_of \<Rightarrow> peer_output \<Rightarrow> string" where
  "extract_peer_message tx PO_None = ''[no output]''"
| "extract_peer_message tx (PO_Text s) = take 500 s"
| "extract_peer_message tx (PO_Payload d) =
     (case find (truthy_at d) message_keys of
        Some k \<Rightarrow> take 500 (to_val tx (dict_get_or d k PNone))
      | None \<Rightarrow> take 500 (to_dict tx d))"
| "extract_peer_message tx (PO_Dict d) =
     take 500 (if truthy_at d ''summary'' then to_val tx (dict_get_or d ''summary'' PNone)
               else if truthy_at d ''response'' then to_val tx (dict_get_or d ''response'' PNone)
               else to_dict tx d)"
| "extract_peer_message tx (PO_Other s) = take 500 s"

definition ask_one :: "text_of \<Rightarrow> string \<Rightarrow> discussion_context \<Rightarrow> string \<times> peer_provider \<Rightarrow> discussion_message" where
  "ask_one tx asker ctx peer =
     (case peer of (name, p) \<Rightarrow>
      let pctx = \<lparr> pc_task_id = dc_task_id ctx @ ''-peer-'' @ name, pc_input = format_peer_prompt name ctx,
                   pc_original_agent = asker \<rparr>;
          msg = (case pp_peer_fn p name pctx of
                   PR_Output out \<Rightarrow> extract_peer_message tx out
                 | PR_TimedOut \<Rightarrow> ''[peer did not respond in time]''
                 | PR_Raised ty \<Rightarrow> ''[peer error: '' @ ty @ '']'')
      in \<lparr> dm_agent = name, dm_role = DR_ADVISOR, dm_message = msg, dm_unavailable = prefix ''['' msg \<rparr>)"

definition synthesize :: "discussion_message list \<Rightarrow> string" where
  "synthesize ms =
     (if ms = [] then ''No actionable input from peers.''
      else ''Peer advice received:'' @ newline @
        join_with newline (map (\<lambda>m. ''- '' @ dm_agent m @ '': '' @ take 200 (dm_message m)) ms) @ newline @ newline @
        ''Next step: pick the most actionable suggestion above and retry.'')"

definition round2 :: "rat \<Rightarrow> rat" where
  "round2 x = of_int (round_half_even (x * 100)) / 100"

definition extract_consensus :: "discussion_message list \<Rightarrow> string \<Rightarrow> consensus" where
  "extract_consensus ms synthesis =
     (let all_text = join_with '' '' (map (\<lambda>m. lower (dm_message m)) ms) in
      if ms = [] \<or> strip all_text = []
      then \<lparr> cn_summary = synthesis, cn_actionable_suggestion = [], cn_confidence = 0, cn_agreement_ratio = 0 \<rparr>
      else
        let sorted_msgs = sort_key (\<lambda>m. - int (length (dm_message m))) ms;
            actionable = take 300 (dm_message (hd sorted_msgs));
            words = filter (\<lambda>w. length w > 4) (split_ws all_text);
            overlap = (of_nat (length words) :: rat) / of_nat (max (card (set words)) 1);
            agreement = min 1 (overlap / 2);
            confidence = 3/10 + 7/10 * agreement
        in \<lparr> cn_summary = ''Discussed with '' @ show_nat (length ms) @ '' peer(s).'',
             cn_actionable_suggestion = actionable, cn_confidence = round2 confidence,
             cn_agreement_ratio = round2 agreement \<rparr>)"

text \<open>\<open>timed_out\<close> tells whether the round as a whole runs out of time; then the answers are lost. \<open>limit_text\<close>
  is the text of the time limit.\<close>

definition discuss :: "text_of \<Rightarrow> string \<Rightarrow> peers \<Rightarrow> discussion_context \<Rightarrow> bool \<Rightarrow> string \<Rightarrow> discussion_result" where
  "discuss tx asker all_peers ctx timed_out limit_text =
     (let selected = select_peers all_peers ctx in
      if selected = []
      then \<lparr> ds_transcript = [], ds_consensus = None, ds_timed_out = False, ds_no_peers_available = True,
             ds_error = Some ''No peers available for this discussion'' \<rparr>
      else
        let opening = \<lparr> dm_agent = asker, dm_role = DR_ASKER, dm_message = format_opening ctx, dm_unavailable = False \<rparr> in
        if timed_out
        then \<lparr> ds_transcript = [opening], ds_consensus = None, ds_timed_out = True, ds_no_peers_available = False,
               ds_error = Some (''Discussion timed out after '' @ limit_text @ ''s'') \<rparr>
        else
          let messages = map (ask_one tx asker ctx) selected;
              advice = filter (\<lambda>m. \<not> dm_unavailable m) messages;
              synthesis = synthesize advice
          in \<lparr> ds_transcript = opening # messages @
                 [\<lparr> dm_agent = asker, dm_role = DR_SYNTHESIZER, dm_message = synthesis, dm_unavailable = False \<rparr>],
               ds_consensus = Some (extract_consensus advice synthesis), ds_timed_out = False,
               ds_no_peers_available = False, ds_error = None \<rparr>)"

subsection \<open>What a round yields\<close>

lemma round2_bounds:
  assumes "of_int a / 100 \<le> x" and "x \<le> of_int b / 100"
  shows "of_int a / 100 \<le> round2 x" and "round2 x \<le> of_int b / 100"
  using round_half_even_bounds(1)[of a "x * 100"] round_half_even_bounds(2)[of "x * 100" b] assms
  by (simp_all add: round2_def field_simps)

text \<open>The advice a round collects.\<close>

definition advice_of :: "text_of \<Rightarrow> string \<Rightarrow> peers \<Rightarrow> discussion_context \<Rightarrow> discussion_message list" where
  "advice_of tx asker all_peers ctx =
     filter (\<lambda>m. \<not> dm_unavailable m) (map (ask_one tx asker ctx) (select_peers all_peers ctx))"

definition says_something :: "discussion_message list \<Rightarrow> bool" where
  "says_something ms \<longleftrightarrow> ms \<noteq> [] \<and> strip (join_with '' '' (map (\<lambda>m. lower (dm_message m)) ms)) \<noteq> []"

lemma extract_consensus_silent:
  "\<not> says_something ms \<Longrightarrow> cn_confidence (extract_consensus ms s) = 0"
  by (auto simp: extract_consensus_def says_something_def Let_def)

lemma hd_sort_key_longest:
  fixes ms :: "discussion_message list"
  assumes "ms \<noteq> []"
  defines "m \<equiv> hd (sort_key (\<lambda>m. - int (length (dm_message m))) ms)"
  shows "m \<in> set ms" and "x \<in> set ms \<Longrightarrow> length (dm_message x) \<le> length (dm_message m)"
proof -
  let ?s = "sort_key (\<lambda>m. - int (length (dm_message m))) ms"
  have ne: "?s \<noteq> []" using assms(1) by (metis set_empty set_sort)
  then show "m \<in> set ms" unfolding m_def by (metis hd_in_set set_sort)
  assume "x \<in> set ms"
  then have x: "x \<in> set ?s" by simp
  have "sorted (map (\<lambda>m. - int (length (dm_message m))) ?s)" by (rule sorted_sort_key)
  with ne have "\<forall>y \<in> set ?s. - int (length (dm_message (hd ?s))) \<le> - int (length (dm_message y))"
    by (cases ?s) auto
  with x show "length (dm_message x) \<le> length (dm_message m)" unfolding m_def by fastforce
qed

lemma extract_consensus_speaks:
  assumes "says_something ms"
  shows "3/10 \<le> cn_confidence (extract_consensus ms s)" and "cn_confidence (extract_consensus ms s) \<le> 1"
    and "0 \<le> cn_agreement_ratio (extract_consensus ms s)" and "cn_agreement_ratio (extract_consensus ms s) \<le> 1"
    and "\<exists>m \<in> set ms. cn_actionable_suggestion (extract_consensus ms s) = take 300 (dm_message m) \<and>
      (\<forall>x \<in> set ms. length (dm_message x) \<le> length (dm_message m))"
proof -
  define words where "words = filter (\<lambda>w. length w > 4) (split_ws (join_with '' '' (map (\<lambda>m. lower (dm_message m)) ms)))"
  define ag :: rat where "ag = min 1 (of_nat (length words) / of_nat (max (card (set words)) 1) / 2)"
  have e: "extract_consensus ms s =
      \<lparr> cn_summary = ''Discussed with '' @ show_nat (length ms) @ '' peer(s).'',
        cn_actionable_suggestion = take 300 (dm_message (hd (sort_key (\<lambda>m. - int (length (dm_message m))) ms))),
        cn_confidence = round2 (3/10 + 7/10 * ag), cn_agreement_ratio = round2 ag \<rparr>"
    using assms by (simp add: extract_consensus_def says_something_def Let_def words_def ag_def)
  have ag: "0 \<le> ag" "ag \<le> 1" by (simp_all add: ag_def)
  then have "of_int 30 / 100 \<le> 3/10 + 7/10 * ag" "3/10 + 7/10 * ag \<le> of_int 100 / 100" by (simp_all add: field_simps)
  from round2_bounds[OF this] show "3/10 \<le> cn_confidence (extract_consensus ms s)"
    "cn_confidence (extract_consensus ms s) \<le> 1" by (simp_all add: e)
  from round2_bounds[of 0 ag 100] ag show "0 \<le> cn_agreement_ratio (extract_consensus ms s)"
    "cn_agreement_ratio (extract_consensus ms s) \<le> 1" by (simp_all add: e)
  have "ms \<noteq> []" using assms by (simp add: says_something_def)
  from hd_sort_key_longest[OF this] show "\<exists>m \<in> set ms. cn_actionable_suggestion (extract_consensus ms s) = take 300 (dm_message m) \<and>
      (\<forall>x \<in> set ms. length (dm_message x) \<le> length (dm_message m))"
    unfolding e by (intro bexI[of _ "hd (sort_key (\<lambda>m. - int (length (dm_message m))) ms)"]) auto
qed

text \<open>A round asks at most the number of participants allowed, each once and in the order of relevance, and
  reports one answer of each. It is successful exactly when it does not run out of time and an available
  peer says something; then the suggestion is the beginning of the longest available answer, with a
  confidence between 0.3 and 1.\<close>

theorem discussion_outcomes:
  "let r = discuss tx asker all_peers ctx timed_out limit_text; advice = advice_of tx asker all_peers ctx in
   int (length (select_peers all_peers ctx)) \<le> max 0 (dc_max_participants ctx) \<and>
   set (select_peers all_peers ctx) \<subseteq> set all_peers \<and>
   (ds_consensus r = None \<longleftrightarrow> select_peers all_peers ctx = [] \<or> timed_out) \<and>
   (ds_consensus r \<noteq> None \<longrightarrow>
      map dm_agent (filter (\<lambda>m. dm_role m = DR_ADVISOR) (ds_transcript r)) = map fst (select_peers all_peers ctx)) \<and>
   (discussion_successful r \<longleftrightarrow> \<not> timed_out \<and> says_something advice) \<and>
   (discussion_successful r \<longrightarrow>
      (\<exists>c. ds_consensus r = Some c \<and> 3/10 \<le> cn_confidence c \<and> cn_confidence c \<le> 1 \<and>
         0 \<le> cn_agreement_ratio c \<and> cn_agreement_ratio c \<le> 1 \<and>
         (\<exists>m \<in> set advice. cn_actionable_suggestion c = take 300 (dm_message m) \<and>
            (\<forall>x \<in> set advice. length (dm_message x) \<le> length (dm_message m)))))"
proof -
  let ?sel = "select_peers all_peers ctx" and ?adv = "advice_of tx asker all_peers ctx"
  let ?r = "discuss tx asker all_peers ctx timed_out limit_text"
  let ?c = "extract_consensus ?adv (synthesize ?adv)"
  have len: "int (length ?sel) \<le> max 0 (dc_max_participants ctx)"
    by (auto simp: select_peers_def py_slice_take)
  have sub: "set ?sel \<subseteq> set all_peers"
    by (auto simp: select_peers_def dest!: in_py_slice)
  have agents: "map dm_agent (filter (\<lambda>m. dm_role m = DR_ADVISOR) (map (ask_one tx asker ctx) ps)) = map fst ps" for ps
    by (induction ps) (auto simp: ask_one_def Let_def)
  have adv: "?sel = [] \<Longrightarrow> \<not> says_something ?adv" by (simp add: advice_of_def says_something_def)
  have pos: "0 < cn_confidence ?c \<longleftrightarrow> says_something ?adv"
    using extract_consensus_silent[of ?adv] extract_consensus_speaks(1)[of ?adv "synthesize ?adv"]
    by (cases "says_something ?adv") (auto intro: less_le_trans[rotated])
  have cons: "ds_consensus ?r = (if ?sel = [] \<or> timed_out then None else Some ?c)"
    by (simp add: discuss_def Let_def advice_of_def)
  have "discussion_successful ?r \<longleftrightarrow> \<not> timed_out \<and> says_something ?adv"
    using adv pos unfolding discussion_successful_def cons by auto
  moreover have "ds_consensus ?r \<noteq> None \<Longrightarrow>
      map dm_agent (filter (\<lambda>m. dm_role m = DR_ADVISOR) (ds_transcript ?r)) = map fst ?sel"
    by (simp add: cons split: if_splits) (simp add: discuss_def Let_def agents)
  moreover have "says_something ?adv \<Longrightarrow> \<not> timed_out \<Longrightarrow> ds_consensus ?r = Some ?c"
    using adv by (subst cons) auto
  ultimately show ?thesis
    using len sub cons extract_consensus_speaks[of ?adv "synthesize ?adv"]
    by (simp add: Let_def)
qed

definition helper_peer :: peer_provider where
  "helper_peer = \<lparr> pp_capabilities = [''restart services''], pp_peer_fn = (\<lambda>_ _. PR_Output (PO_Text ''Restart the worker'')) \<rparr>"

definition sample_discussion :: discussion_context where
  "sample_discussion = \<lparr> dc_task_id = ''t'', dc_task_input = ''restart'', dc_error = None, dc_capability_hint = None,
     dc_agent_capabilities = [], dc_max_participants = 3 \<rparr>"

lemma discussion_outcomes_witness:
  "\<forall>tx. select_peers [(''helper'', helper_peer)] sample_discussion = [(''helper'', helper_peer)] \<and>
   discussion_successful (discuss tx ''asker'' [(''helper'', helper_peer)] sample_discussion False ''30.0'') \<and>
   (\<exists>c. ds_consensus (discuss tx ''asker'' [(''helper'', helper_peer)] sample_discussion False ''30.0'') = Some c \<and>
      cn_confidence c \<le> 1)"
proof
  fix tx
  let ?ps = "[(''helper'', helper_peer)]"
  have sel: "select_peers ?ps sample_discussion = ?ps"
    by (simp add: select_peers_def sample_discussion_def py_slice_take)
  have "advice_of tx ''asker'' ?ps sample_discussion =
      [\<lparr> dm_agent = ''helper'', dm_role = DR_ADVISOR, dm_message = ''Restart the worker'', dm_unavailable = False \<rparr>]"
    unfolding advice_of_def sel by (simp add: ask_one_def helper_peer_def)
  then have says: "says_something (advice_of tx ''asker'' ?ps sample_discussion)"
    by (simp add: says_something_def) code_simp
  have "ds_consensus (discuss tx ''asker'' ?ps sample_discussion False ''30.0'') \<noteq> None"
    by (simp add: discuss_def Let_def sel)
  then show "select_peers ?ps sample_discussion = ?ps \<and>
     discussion_successful (discuss tx ''asker'' ?ps sample_discussion False ''30.0'') \<and>
     (\<exists>c. ds_consensus (discuss tx ''asker'' ?ps sample_discussion False ''30.0'') = Some c \<and> cn_confidence c \<le> 1)"
    using discussion_outcomes[where tx = tx and asker = "''asker''" and all_peers = ?ps and ctx = sample_discussion
        and timed_out = False and limit_text = "''30.0''"] sel says
    by (auto simp: Let_def)
qed

text \<open>An answer that begins with a bracket counts as no answer, whatever it says.\<close>

lemma bracket_answer_is_lost:
  "pp_peer_fn p name \<lparr> pc_task_id = dc_task_id ctx @ ''-peer-'' @ name, pc_input = format_peer_prompt name ctx,
                       pc_original_agent = asker \<rparr> = PR_Output (PO_Text ''[1] Restart the service.'') \<Longrightarrow>
   dm_unavailable (ask_one tx asker ctx (name, p))"
  by (simp add: ask_one_def)

text \<open>One peer alone reaches an agreement of at least a half, as soon as it uses one longer word.\<close>

lemma one_peer_agrees_with_itself:
  assumes "w \<in> set (split_ws (lower (dm_message m)))" and "4 < length w" and "strip (lower (dm_message m)) \<noteq> []"
  shows "1/2 \<le> cn_agreement_ratio (extract_consensus [m] s)"
proof -
  define words where "words = filter (\<lambda>w. length w > 4) (split_ws (lower (dm_message m)))"
  have "words \<noteq> []" using assms(1,2) by (auto simp: words_def filter_empty_conv)
  then have "1 \<le> (of_nat (length words) :: rat) / of_nat (max (card (set words)) 1)"
    using card_length[of words] by (auto simp: max_def Suc_le_eq field_simps)
  then have "of_int 50 / 100 \<le> min 1 ((of_nat (length words) :: rat) / of_nat (max (card (set words)) 1) / 2)"
    by simp
  from round2_bounds(1)[OF this, of 100] assms(3) show ?thesis
    by (simp add: extract_consensus_def words_def Let_def)
qed

end
