(* ===== verification/Agent_Registry.thy ===== *)
theory Agent_Registry
  imports Prelude
begin

section \<open>The registry of agent classes (core/registry.py)\<close>

text \<open>
  Classes are registered under their Python name and filed under the name of their agent when the registry
  is first queried. A class is given by its names and by what its constructor returns (\<open>None\<close> when it
  raises); instances are kept once made. Importing the agent modules is left out.
\<close>

record 'a agent_class =
  ag_class_name :: string
  ag_attribute :: "string option"
  ag_field :: "string option"
  ag_v1_field :: "string option"
  ag_make :: "'a option"

record 'a agent_registry =
  rg_classes :: "(string, 'a agent_class) dict"
  rg_instances :: "(string, 'a) dict"
  rg_indexed :: bool

definition new_registry :: "'a agent_registry" where
  "new_registry = \<lparr> rg_classes = [], rg_instances = [], rg_indexed = False \<rparr>"

definition register_class :: "'a agent_registry \<Rightarrow> 'a agent_class \<Rightarrow> 'a agent_registry" where
  "register_class r c = r \<lparr> rg_classes := dict_set (rg_classes r) (ag_class_name c) c, rg_indexed := False \<rparr>"

text \<open>The first text that is there and not empty.\<close>

definition resolve_name :: "'a agent_class \<Rightarrow> string option" where
  "resolve_name c =
     (case find (\<lambda>v. v \<noteq> None \<and> v \<noteq> Some []) [ag_attribute c, ag_field c, ag_v1_field c] of
        Some v \<Rightarrow> v | None \<Rightarrow> None)"

definition index_class :: "(string, 'a agent_class) dict \<Rightarrow> 'a agent_class \<Rightarrow> (string, 'a agent_class) dict" where
  "index_class d c = (case resolve_name c of None \<Rightarrow> d | Some n \<Rightarrow> dict_set d n c)"

definition rebuild_index :: "'a agent_registry \<Rightarrow> 'a agent_registry" where
  "rebuild_index r =
     (if rg_indexed r then r
      else r \<lparr> rg_classes := foldl index_class [] (dict_values (rg_classes r)), rg_indexed := True \<rparr>)"

definition get_class :: "'a agent_registry \<Rightarrow> string \<Rightarrow> 'a agent_registry \<times> 'a agent_class option" where
  "get_class r0 name = (let r = rebuild_index r0 in (r, dict_get (rg_classes r) name))"

definition get_instance :: "'a agent_registry \<Rightarrow> string \<Rightarrow> 'a agent_registry \<times> 'a option" where
  "get_instance r0 name =
     (let r = rebuild_index r0 in
      case dict_get (rg_instances r) name of
        Some i \<Rightarrow> (r, Some i)
      | None \<Rightarrow>
          (case dict_get (rg_classes r) name of
             None \<Rightarrow> (r, None)
           | Some c \<Rightarrow>
               (case ag_make c of
                  None \<Rightarrow> (r, None)
                | Some i \<Rightarrow> (r \<lparr> rg_instances := dict_set (rg_instances r) name i \<rparr>, Some i))))"

definition all_classes :: "'a agent_registry \<Rightarrow> 'a agent_registry \<times> 'a agent_class list" where
  "all_classes r0 = (let r = rebuild_index r0 in (r, dict_values (rg_classes r)))"

definition all_names :: "'a agent_registry \<Rightarrow> 'a agent_registry \<times> string list" where
  "all_names r0 = (let r = rebuild_index r0 in (r, map fst (rg_classes r)))"

fun instances_of :: "'a agent_registry \<Rightarrow> string list \<Rightarrow> 'a agent_registry \<times> 'a list" where
  "instances_of r [] = (r, [])"
| "instances_of r (n # ns) =
     (case get_instance r n of
        (r1, None) \<Rightarrow> instances_of r1 ns
      | (r1, Some i) \<Rightarrow> (case instances_of r1 ns of (r2, is) \<Rightarrow> (r2, i # is)))"

text \<open>The names are those of the dictionary before the query files the classes.\<close>

definition all_instances :: "'a agent_registry \<Rightarrow> 'a agent_registry \<times> 'a list" where
  "all_instances r = instances_of r (map fst (rg_classes r))"

definition names_excluding :: "'a agent_registry \<Rightarrow> string \<Rightarrow> 'a agent_registry \<times> string list" where
  "names_excluding r0 excluded = (let r = rebuild_index r0 in (r, filter (\<lambda>n. n \<noteq> excluded) (map fst (rg_classes r))))"

definition instances_excluding :: "'a agent_registry \<Rightarrow> string \<Rightarrow> 'a agent_registry \<times> 'a list" where
  "instances_excluding r0 excluded =
     (let r = rebuild_index r0 in instances_of r (filter (\<lambda>n. n \<noteq> excluded) (map fst (rg_classes r))))"

definition count_classes :: "'a agent_registry \<Rightarrow> 'a agent_registry \<times> nat" where
  "count_classes r0 = (let r = rebuild_index r0 in (r, length (rg_classes r)))"

definition reset_registry :: "'a agent_registry \<Rightarrow> 'a agent_registry" where
  "reset_registry r = new_registry"

subsection \<open>The index\<close>

text \<open>Every class of an indexed registry is filed under its own name, and every name once.\<close>

definition registry_ok :: "'a agent_registry \<Rightarrow> bool" where
  "registry_ok r \<longleftrightarrow> dict_ok (rg_classes r) \<and>
     (rg_indexed r \<longrightarrow> (\<forall>(n, c) \<in> set (rg_classes r). resolve_name c = Some n))"

lemma set_dict_set: "(k', v') \<in> set (dict_set d k v) \<Longrightarrow> (k', v') = (k, v) \<or> (k', v') \<in> set d"
  by (induction d) (auto split: if_splits)

lemma index_fold:
  assumes "dict_ok d" and "\<forall>(n, c) \<in> set d. resolve_name c = Some n"
  shows "dict_ok (foldl index_class d cs) \<and> (\<forall>(n, c) \<in> set (foldl index_class d cs). resolve_name c = Some n)"
  using assms
proof (induction cs arbitrary: d)
  case (Cons c cs)
  have "dict_ok (index_class d c)" using Cons.prems(1) by (auto simp: index_class_def split: option.split)
  moreover have "\<forall>(n, x) \<in> set (index_class d c). resolve_name x = Some n"
    using Cons.prems(2) by (auto simp: index_class_def dest!: set_dict_set split: option.splits)
  ultimately show ?case using Cons.IH by simp
qed simp

lemma registry_ok_rebuild: "registry_ok r \<Longrightarrow> registry_ok (rebuild_index r) \<and> rg_indexed (rebuild_index r)"
  using index_fold[of "[]" "dict_values (rg_classes r)"] by (auto simp: registry_ok_def rebuild_index_def)

lemma registry_ok_new: "registry_ok new_registry"
  by (simp add: registry_ok_def new_registry_def)

lemma registry_ok_register: "registry_ok r \<Longrightarrow> registry_ok (register_class r c)"
  by (auto simp: registry_ok_def register_class_def)

lemma registry_ok_get_instance: "registry_ok r \<Longrightarrow> registry_ok (fst (get_instance r n))"
  using registry_ok_rebuild[of r]
  by (auto simp: get_instance_def registry_ok_def Let_def split: option.splits)

text \<open>An agent is offered every other agent once, and never itself.\<close>

lemma names_excluding_others:
  assumes "registry_ok r"
  shows "set (snd (names_excluding r me)) = {n. n \<noteq> me \<and> snd (get_class r n) \<noteq> None}"
    and "distinct (snd (names_excluding r me))"
proof -
  have ok: "dict_ok (rg_classes (rebuild_index r))" using registry_ok_rebuild[OF assms] by (simp add: registry_ok_def)
  show "distinct (snd (names_excluding r me))" using ok by (simp add: names_excluding_def Let_def)
  show "set (snd (names_excluding r me)) = {n. n \<noteq> me \<and> snd (get_class r n) \<noteq> None}"
    by (auto simp: names_excluding_def get_class_def Let_def map_of_eq_None_iff)
qed

text \<open>Asked first, \<open>all_instances\<close> looks the classes up by their Python names, under which they are no longer filed.\<close>

lemma first_all_instances_is_empty:
  assumes "resolve_name c = Some n" and "n \<noteq> ag_class_name c"
  shows "snd (all_instances (register_class new_registry c)) = []"
    and "ag_make c = Some i \<Longrightarrow> snd (all_instances (fst (all_instances (register_class new_registry c)))) = [i]"
  using assms
  by (simp_all add: all_instances_def register_class_def new_registry_def get_instance_def rebuild_index_def
      index_class_def dict_values_def Let_def)

text \<open>A class registered under the name of another one replaces the class but not its instance.\<close>

lemma replaced_class_keeps_instance:
  assumes "dict_get (rg_instances r) n = Some i"
  shows "snd (get_instance (register_class r c) n) = Some i"
  using assms by (simp add: get_instance_def register_class_def rebuild_index_def Let_def)

end
