(* ===== verification/Resolver.thy ===== *)
theory Resolver
  imports Agent_Execution Discussion Agent_Registry
begin

section \<open>Resolving a failure (core/resolver.py), and the whole run of a task (core/agent.py)\<close>

text \<open>
  The four ways a failure can go: a retry with the experiences found, a discussion with peers and a retry with
  their advice, a request to a human, or the escalation to the coordinating agent; and \<open>execute\<close>, which
  runs a task, keeps its record in the memory graph, and calls the resolver when the run has failed.

  The answers of the peers, the AutoGen package and the coordinating agent are parameters, and so is whether a
  discussion runs out of time. An attempted action in the metadata that is not a text is left out.
\<close>

subsection \<open>Data\<close>

datatype resolution_status = RS_SUCCESS | RS_FAILED | RS_PENDING | RS_CANCELLED

record resolution_result =
  rr_path :: resolution_path
  rr_status :: resolution_status
  rr_output :: "output_schema option"
  rr_error :: "string option"
  rr_analysis :: problem_analysis
  rr_discussion_log :: "pydict list"
  rr_human_request :: "pydict option"
  rr_metadata :: pydict

text \<open>An instance of an agent class as a peer: its capabilities, and what its \<open>do_work\<close> answers.\<close>

record peer_agent =
  pi_capabilities :: "string list"
  pi_do_work :: "agent_task \<Rightarrow> peer_reply"

datatype autogen_reply = AG_Success | AG_Unsuccessful | AG_Raised

record 'x resolver_env =
  rv_env :: "'x agent_env"
  rv_registry :: "peer_agent agent_registry"
  rv_text :: text_of
  rv_timed_out :: "'x \<Rightarrow> bool"
  rv_autogen :: "('x agent_world \<Rightarrow> agent_task \<Rightarrow> 'x agent_world \<times> autogen_reply) option"
  rv_ceo :: "'x work"

definition action_of :: "agent_task \<Rightarrow> string option" where
  "action_of task = (case dict_get (tx_metadata task) ''action'' of Some (PStr s) \<Rightarrow> Some s | _ \<Rightarrow> None)"

definition evaluate_failure :: "'x resolver_env \<Rightarrow> 'x smart_agent \<Rightarrow> string \<Rightarrow> agent_task \<Rightarrow> int \<Rightarrow> 'x agent_world \<Rightarrow> problem_analysis" where
  "evaluate_failure env a msg task retries w =
     evaluate (ne_lib (rv_env env)) (ne_backend (rv_env env)) (aw_graph w) msg (an_capabilities a) (action_of task)
       (Some (tx_input task)) retries (now_of (rv_env env) w)"

subsection \<open>Helpers\<close>

definition val_text :: "text_of \<Rightarrow> pyval \<Rightarrow> string" where
  "val_text tx v = (case v of PStr s \<Rightarrow> s | _ \<Rightarrow> to_val tx v)"

definition enrich_with_experience :: "text_of \<Rightarrow> string \<Rightarrow> problem_analysis \<Rightarrow> string" where
  "enrich_with_experience tx task_input an =
     (if pa_similar_experiences an = [] then task_input
      else task_input @ newline @ newline @ ''[Relevant past experiences]'' @ newline @
        concat (map (\<lambda>e. ''- '' @ val_text tx (dict_get_or e ''summary'' (PStr [])) @ newline) (take 2 (pa_similar_experiences an))))"

definition assess_risk :: "problem_analysis \<Rightarrow> pydict" where
  "assess_risk an =
     (case pa_severity an of
        PS_CRITICAL \<Rightarrow> [(''level'', PStr ''critical''), (''description'', PStr ''May cause system-wide impact'')]
      | PS_HIGH \<Rightarrow> [(''level'', PStr ''high''), (''description'', PStr ''May cause significant impact'')]
      | PS_MEDIUM \<Rightarrow> [(''level'', PStr ''medium''), (''description'', PStr ''May cause moderate impact'')]
      | PS_LOW \<Rightarrow> [(''level'', PStr ''low''), (''description'', PStr ''Minimal impact expected'')])"

definition relevance_score :: "string \<Rightarrow> peer_agent \<Rightarrow> int" where
  "relevance_score error_lower p =
     int (length (filter (\<lambda>w. length w > 4 \<and> str_in w error_lower) (concat (map (\<lambda>c. split_ws (lower c)) (pi_capabilities p)))))"

definition discover_peers :: "peer_agent agent_registry \<Rightarrow> string \<Rightarrow> problem_analysis \<Rightarrow> (string \<times> peer_agent) list" where
  "discover_peers r me an =
     (let (r1, names) = names_excluding r me;
          found = concat (map (\<lambda>n. case snd (get_instance r1 n) of None \<Rightarrow> [] | Some p \<Rightarrow> [(n, p)]) names)
      in take 3 (sort_key (\<lambda>(n, p). - relevance_score (lower (pa_error_summary an)) p) found))"

definition extract_solution :: "pydict list \<Rightarrow> pyval" where
  "extract_solution discussion =
     (case find (\<lambda>m. dict_get m ''role'' = Some (PStr ''synthesizer'')) (rev discussion) of
        Some m \<Rightarrow> dict_get_or m ''message'' PNone
      | None \<Rightarrow>
          (case find (\<lambda>m. dict_get m ''role'' = Some (PStr ''advisor'')) discussion of
             Some m \<Rightarrow> dict_get_or m ''message'' PNone
           | None \<Rightarrow> PStr ''no_solution''))"

subsection \<open>The discussion with peers\<close>

definition has_autogen :: "bool \<Rightarrow> string \<Rightarrow> string option \<Rightarrow> bool" where
  "has_autogen installed openai_key llm_provider =
     (installed \<and> strip openai_key \<noteq> [] \<and>
      lower (strip (case llm_provider of None \<Rightarrow> ''openai'' | Some p \<Rightarrow> p)) = ''openai'')"

definition list_repr :: "string list \<Rightarrow> string" where
  "list_repr xs = ''['' @ join_with '', '' (map repr_str xs) @ '']''"

definition make_peer_provider :: "string \<Rightarrow> peer_agent \<Rightarrow> peer_provider" where
  "make_peer_provider me p =
     \<lparr> pp_capabilities = pi_capabilities p,
       pp_peer_fn = (\<lambda>name ctx. pi_do_work p
         \<lparr> tx_task_id = pc_task_id ctx,
           tx_input = ''You'' @ [CHR 0x27] @ ''re a peer agent with capabilities: '' @ list_repr (pi_capabilities p) @ ''. '' @
             ''A colleague '' @ [CHR 0x27] @ me @ [CHR 0x27] @ '' is facing this issue:'' @ newline @ newline @
             ''Context: '' @ take 300 (pc_input ctx) @ newline @ newline @
             ''Reply with a brief (1-2 sentences) practical suggestion.'',
           tx_metadata = [(''peer_discussion'', PBool True), (''original_agent'', PStr me)], tx_retry_count = 0,
           at_config = [], at_upstream_output = None, at_started_at = None, at_completed_at = None, at_max_retries = 1 \<rparr>) \<rparr>"

text \<open>The adapter starts with empty registries and registers every other class that can be made.\<close>

definition setup_default_peers :: "peer_agent agent_registry \<Rightarrow> string \<Rightarrow> peer_world" where
  "setup_default_peers r me =
     (let (r1, names) = names_excluding r me in
      foldl (\<lambda>w n. case snd (get_class r1 n) of
                      None \<Rightarrow> w
                    | Some c \<Rightarrow> (case ag_make c of None \<Rightarrow> w
                                | Some p \<Rightarrow> register_peer me n (make_peer_provider me p) False w))
        \<lparr> pw_shared = [], pw_own = [] \<rparr> names)"

text \<open>The branch that converts a successful AutoGen result uses two names that are not bound there; the exception is
  logged, so whatever AutoGen answers, the discussion of the mixin follows.\<close>

definition run_peer_discussion ::
  "'x resolver_env \<Rightarrow> 'x smart_agent \<Rightarrow> agent_task \<Rightarrow> string \<Rightarrow> problem_analysis \<Rightarrow> 'x agent_world \<Rightarrow>
   'x agent_world \<times> discussion_result" where
  "run_peer_discussion env a task msg an w =
     (let w1 = (case rv_autogen env of None \<Rightarrow> w | Some run \<Rightarrow> fst (run w task));
          ctx = \<lparr> dc_task_id = tx_task_id task, dc_task_input = tx_input task, dc_error = Some msg,
                  dc_capability_hint = Some (take 100 (pa_error_summary an)), dc_agent_capabilities = an_capabilities a,
                  dc_max_participants = 2 \<rparr>
      in (w1, discuss (rv_text env) (an_name a) (all_peers_of (an_name a) (setup_default_peers (rv_registry env) (an_name a)))
                ctx (rv_timed_out env (aw_rest w1)) ''20.0''))"

subsection \<open>The four paths\<close>

definition resolve_escalate ::
  "'x resolver_env \<Rightarrow> 'x smart_agent \<Rightarrow> agent_task \<Rightarrow> string \<Rightarrow> problem_analysis \<Rightarrow> 'x agent_world \<Rightarrow>
   'x agent_world \<times> resolution_result" where
  "resolve_escalate env a task msg an w =
     (let w1 = publish_event (an_name a) ESCALATED task
                 [(''task_id'', PStr (tx_task_id task)), (''agent'', PStr (an_name a)),
                  (''severity'', PStr (severity_value (pa_severity an))), (''error'', PStr (take 500 msg)),
                  (''analysis'', PStr (pa_reasoning an)), (''capabilities'', strs (an_capabilities a)),
                  (''similar_experiences'', PList (map PDict (pa_similar_experiences an)))] w;
          w2 = w1 \<lparr> aw_graph := record_task_failure (ne_lib (rv_env env)) (ne_backend (rv_env env)) (aw_graph w1) (tx_task_id task)
                     msg (an_name a) None (now_of (rv_env env) w1) \<rparr>
      in (w2, \<lparr> rr_path = RP_ESCALATE, rr_status = RS_FAILED, rr_output = None, rr_error = Some msg, rr_analysis = an,
                rr_discussion_log = [], rr_human_request = None, rr_metadata = [(''escalated_to'', PStr ''ceo_agent'')] \<rparr>))"

definition option_entry :: "string \<Rightarrow> string \<Rightarrow> string \<Rightarrow> pyval" where
  "option_entry i label description = PDict [(''id'', PStr i), (''label'', PStr label), (''description'', PStr description)]"

definition human_request_of ::
  "'x smart_agent \<Rightarrow> agent_task \<Rightarrow> string \<Rightarrow> problem_analysis \<Rightarrow> microseconds \<Rightarrow> pydict" where
  "human_request_of a task msg an now =
     [(''title'', PStr (''Approval Required: '' @ an_name a)), (''task_id'', PStr (tx_task_id task)), (''agent'', PStr (an_name a)),
      (''action'', dict_get_or (tx_metadata task) ''action'' (PStr (take 200 (tx_input task)))),
      (''reason'', PStr (pa_reasoning an)), (''severity'', PStr (severity_value (pa_severity an))),
      (''risk_assessment'', PDict (assess_risk an)), (''created_at'', PStr (iso_text now)),
      (''context'', PDict [(''task_input'', PStr (take 500 (tx_input task))), (''error'', PStr (take 500 msg)),
         (''capabilities'', strs (an_capabilities a))]),
      (''options'', PList [option_entry ''approve'' ''Approve'' ''Allow the agent to proceed'',
         option_entry ''reject'' ''Reject'' ''Cancel this operation'',
         option_entry ''modify'' ''Modify & Proceed'' ''Adjust the approach and continue''])]"

definition resolve_human ::
  "'x resolver_env \<Rightarrow> 'x smart_agent \<Rightarrow> agent_task \<Rightarrow> string \<Rightarrow> problem_analysis \<Rightarrow> 'x agent_world \<Rightarrow>
   'x agent_world \<times> resolution_result" where
  "resolve_human env a task msg an w =
     (let req = human_request_of a task msg an (now_of (rv_env env) w) in
      (publish_event (an_name a) HUMAN_REQUESTED task req w,
       \<lparr> rr_path = RP_HUMAN, rr_status = RS_PENDING, rr_output = None, rr_error = None, rr_analysis = an,
         rr_discussion_log = [], rr_human_request = Some req, rr_metadata = [] \<rparr>))"

definition log_entry :: "discussion_message \<Rightarrow> pydict" where
  "log_entry m = [(''agent'', PStr (dm_agent m)), (''message'', PStr (dm_message m)), (''role'', PStr (role_text (dm_role m)))]"

definition resolve_peer ::
  "'x resolver_env \<Rightarrow> 'x smart_agent \<Rightarrow> agent_task \<Rightarrow> string \<Rightarrow> problem_analysis \<Rightarrow> 'x agent_world \<Rightarrow>
   'x agent_world \<times> resolution_result" where
  "resolve_peer env a task msg an w =
     (case run_peer_discussion env a task msg an w of (w1, d) \<Rightarrow>
      case (if discussion_successful d then ds_consensus d else None) of
        None \<Rightarrow> resolve_escalate env a task msg an w1
      | Some c \<Rightarrow>
          let retry_task = task \<lparr> tx_input := tx_input task @ newline @ newline @ ''[Peer discussion insight]'' @ newline @
                                    cn_actionable_suggestion c,
                                  tx_metadata := dict_set (dict_set (dict_set (tx_metadata task) ''resolution_path'' (PStr ''peer''))
                                    ''peer_confidence'' (PFloat (cn_confidence c))) ''peer_agreement'' (PFloat (cn_agreement_ratio c)),
                                  tx_retry_count := tx_retry_count task + 1, at_upstream_output := None,
                                  at_started_at := None, at_completed_at := None \<rparr>
          in case an_do_work a w1 retry_task of
               (w2, _, Inl _) \<Rightarrow> resolve_escalate env a task msg an w2
             | (w2, _, Inr out) \<Rightarrow>
                 (publish_event (an_name a) TASK_COMPLETED task
                    [(''resolution'', PStr ''peer_discussion''), (''output_id'', PStr (os_id out))] w2,
                  \<lparr> rr_path = RP_PEER, rr_status = RS_SUCCESS, rr_output = Some out, rr_error = None, rr_analysis = an,
                    rr_discussion_log = map log_entry (ds_transcript d), rr_human_request = None,
                    rr_metadata = [(''solution'', PStr (cn_actionable_suggestion c)),
                      (''consensus_confidence'', PFloat (cn_confidence c)), (''consensus_agreement'', PFloat (cn_agreement_ratio c))] \<rparr>))"

definition resolve_self ::
  "'x resolver_env \<Rightarrow> 'x smart_agent \<Rightarrow> agent_task \<Rightarrow> string \<Rightarrow> problem_analysis \<Rightarrow> 'x agent_world \<Rightarrow>
   'x agent_world \<times> resolution_result" where
  "resolve_self env a task msg an w =
     (let retry_task = task \<lparr> tx_input := enrich_with_experience (rv_text env) (tx_input task) an,
                              tx_metadata := dict_set (tx_metadata task) ''resolution_path'' (PStr ''self''),
                              tx_retry_count := tx_retry_count task + 1, at_upstream_output := None,
                              at_started_at := None, at_completed_at := None \<rparr>
      in case an_do_work a w retry_task of
           (w1, task1, Inr out) \<Rightarrow>
             (publish_event (an_name a) TASK_COMPLETED task [(''resolution'', PStr ''self''), (''output_id'', PStr (os_id out))] w1,
              \<lparr> rr_path = RP_SELF, rr_status = RS_SUCCESS, rr_output = Some out, rr_error = None, rr_analysis = an,
                rr_discussion_log = [], rr_human_request = None,
                rr_metadata = [(''modified_input'', PBool True), (''retry_count'', PInt (tx_retry_count task1))] \<rparr>)
         | (w1, task1, Inl e) \<Rightarrow>
             let fallback = evaluate_failure env a e task (tx_retry_count task1) w1 in
             if pa_suggested_path fallback = RP_PEER then resolve_peer env a task1 e fallback w1
             else resolve_escalate env a task1 e fallback w1)"

definition resolve ::
  "'x resolver_env \<Rightarrow> 'x smart_agent \<Rightarrow> agent_task \<Rightarrow> string \<Rightarrow> problem_analysis option \<Rightarrow> 'x agent_world \<Rightarrow>
   'x agent_world \<times> resolution_result" where
  "resolve env a task msg analysis w =
     (let an = (case analysis of Some x \<Rightarrow> x | None \<Rightarrow> evaluate_failure env a msg task (tx_retry_count task) w) in
      case pa_suggested_path an of
        RP_SELF \<Rightarrow> resolve_self env a task msg an w
      | RP_PEER \<Rightarrow> resolve_peer env a task msg an w
      | RP_HUMAN \<Rightarrow> resolve_human env a task msg an w
      | RP_ESCALATE \<Rightarrow> resolve_escalate env a task msg an w)"

subsection \<open>How a resolution ends\<close>

definition leaves_alone :: "string \<Rightarrow> ('x agent_world \<Rightarrow> agent_task \<Rightarrow> 'x agent_world \<times> 'b) \<Rightarrow> bool" where
  "leaves_alone tid f \<longleftrightarrow> (\<forall>w t. events_of tid (fst (f w t)) = events_of tid w \<and>
     dict_get (aw_disk (fst (f w t))) tid = dict_get (aw_disk w) tid)"

definition autogen_quiet :: "string \<Rightarrow> 'x resolver_env \<Rightarrow> bool" where
  "autogen_quiet tid env \<longleftrightarrow> (case rv_autogen env of None \<Rightarrow> True | Some run \<Rightarrow> leaves_alone tid run)"

lemma run_peer_discussion_quiet:
  assumes "autogen_quiet tid env" and "run_peer_discussion env a task msg an w = (w1, d)"
  shows "events_of tid w1 = events_of tid w" "dict_get (aw_disk w1) tid = dict_get (aw_disk w) tid"
  using assms by (auto simp: run_peer_discussion_def autogen_quiet_def leaves_alone_def Let_def split: option.splits)

lemma disk_publish [simp]: "aw_disk (publish_event name ty task data w) = aw_disk w"
  by (simp add: publish_event_def Let_def)

lemma graph_publish [simp]: "aw_graph (publish_event name ty task data w) = aw_graph w"
  by (simp add: publish_event_def Let_def)

text \<open>The event a result comes with.\<close>

fun event_of_status :: "resolution_status \<Rightarrow> event_type" where
  "event_of_status RS_SUCCESS = TASK_COMPLETED"
| "event_of_status RS_FAILED = ESCALATED"
| "event_of_status RS_PENDING = HUMAN_REQUESTED"
| "event_of_status RS_CANCELLED = TASK_FAILED"

definition result_ok :: "string \<Rightarrow> resolution_result \<Rightarrow> bool" where
  "result_ok tid r \<longleftrightarrow>
     (rr_status r = RS_SUCCESS \<and> rr_path r \<in> {RP_SELF, RP_PEER} \<and> rr_output r \<noteq> None \<or>
      rr_status r = RS_PENDING \<and> rr_path r = RP_HUMAN \<and> rr_output r = None \<and>
        (\<exists>req. rr_human_request r = Some req \<and> dict_get req ''task_id'' = Some (PStr tid)) \<or>
      rr_status r = RS_FAILED \<and> rr_path r = RP_ESCALATE \<and> rr_output r = None \<and> rr_error r \<noteq> None)"

definition resolved :: "string \<Rightarrow> 'x agent_world \<Rightarrow> 'x agent_world \<times> resolution_result \<Rightarrow> bool" where
  "resolved tid w out \<longleftrightarrow> result_ok tid (snd out) \<and>
     events_of tid (fst out) = events_of tid w @ [event_of_status (rr_status (snd out))] \<and>
     dict_get (aw_disk (fst out)) tid = dict_get (aw_disk w) tid"

lemma resolved_cong:
  "resolved tid w1 out \<Longrightarrow> events_of tid w1 = events_of tid w \<Longrightarrow> dict_get (aw_disk w1) tid = dict_get (aw_disk w) tid \<Longrightarrow>
   resolved tid w out"
  by (simp add: resolved_def)

lemma resolved_escalate: "resolved (tx_task_id task) w (resolve_escalate env a task msg an w)"
  by (simp add: resolved_def resolve_escalate_def result_ok_def events_publish Let_def)

lemma resolved_human: "resolved (tx_task_id task) w (resolve_human env a task msg an w)"
  by (simp add: resolved_def resolve_human_def result_ok_def human_request_of_def events_publish Let_def)

lemma resolved_peer:
  assumes "minds_own_task (an_do_work a)" and "autogen_quiet (tx_task_id task) env"
  shows "resolved (tx_task_id task) w (resolve_peer env a task msg an w)"
proof -
  obtain w1 d where r: "run_peer_discussion env a task msg an w = (w1, d)" by force
  note q = run_peer_discussion_quiet[OF assms(2) r]
  show ?thesis
  proof (cases "if discussion_successful d then ds_consensus d else None")
    case None
    have "resolve_peer env a task msg an w = resolve_escalate env a task msg an w1"
      unfolding resolve_peer_def r by (simp only: prod.case None option.case)
    with resolved_cong[OF resolved_escalate q] show ?thesis by simp
  next
    case (Some c)
    define rt where "rt = task \<lparr> tx_input := tx_input task @ newline @ newline @ ''[Peer discussion insight]'' @ newline @
                                    cn_actionable_suggestion c,
                                  tx_metadata := dict_set (dict_set (dict_set (tx_metadata task) ''resolution_path'' (PStr ''peer''))
                                    ''peer_confidence'' (PFloat (cn_confidence c))) ''peer_agreement'' (PFloat (cn_agreement_ratio c)),
                                  tx_retry_count := tx_retry_count task + 1, at_upstream_output := None,
                                  at_started_at := None, at_completed_at := None \<rparr>"
    obtain w2 t2 res where d2: "an_do_work a w1 rt = (w2, t2, res)" by (metis prod_cases3)
    have tid: "tx_task_id rt = tx_task_id task" by (simp add: rt_def)
    note m = minds_own_taskD(3,4)[OF assms(1) d2, unfolded tid]
    show ?thesis
    proof (cases res)
      case (Inl e)
      have "resolve_peer env a task msg an w = resolve_escalate env a task msg an w2"
        unfolding resolve_peer_def r Let_def by (simp only: prod.case Some option.case rt_def[symmetric] d2 Inl sum.case)
      with resolved_cong[OF resolved_escalate] m q show ?thesis by simp
    next
      case (Inr out)
      have "resolve_peer env a task msg an w =
          (publish_event (an_name a) TASK_COMPLETED task [(''resolution'', PStr ''peer_discussion''), (''output_id'', PStr (os_id out))] w2,
           \<lparr> rr_path = RP_PEER, rr_status = RS_SUCCESS, rr_output = Some out, rr_error = None, rr_analysis = an,
             rr_discussion_log = map log_entry (ds_transcript d), rr_human_request = None,
             rr_metadata = [(''solution'', PStr (cn_actionable_suggestion c)),
               (''consensus_confidence'', PFloat (cn_confidence c)), (''consensus_agreement'', PFloat (cn_agreement_ratio c))] \<rparr>)"
        unfolding resolve_peer_def r Let_def by (simp only: prod.case Some option.case rt_def[symmetric] d2 Inr sum.case)
      with m q show ?thesis by (simp add: resolved_def result_ok_def events_publish)
    qed
  qed
qed

lemma resolved_self:
  assumes "minds_own_task (an_do_work a)" and "autogen_quiet (tx_task_id task) env"
  shows "resolved (tx_task_id task) w (resolve_self env a task msg an w)"
proof -
  define rt where "rt = task \<lparr> tx_input := enrich_with_experience (rv_text env) (tx_input task) an,
                              tx_metadata := dict_set (tx_metadata task) ''resolution_path'' (PStr ''self''),
                              tx_retry_count := tx_retry_count task + 1, at_upstream_output := None,
                              at_started_at := None, at_completed_at := None \<rparr>"
  obtain w1 t1 res where d1: "an_do_work a w rt = (w1, t1, res)" by (metis prod_cases3)
  have tid: "tx_task_id rt = tx_task_id task" by (simp add: rt_def)
  note m = minds_own_taskD(1,3,4)[OF assms(1) d1, unfolded tid]
  note def = resolve_self_def[of env a task msg an w, unfolded Let_def, folded rt_def, unfolded d1 prod.case]
  show ?thesis
  proof (cases res)
    case (Inl e)
    define fb where "fb = evaluate_failure env a e task (tx_retry_count t1) w1"
    have "resolved (tx_task_id task) w1 (resolve_peer env a t1 e fb w1)"
      using resolved_peer[OF assms(1), of t1 env w1 e fb] m(1) assms(2) by simp
    moreover have "resolved (tx_task_id task) w1 (resolve_escalate env a t1 e fb w1)"
      using resolved_escalate[of t1 w1 env a e fb] m(1) by simp
    ultimately show ?thesis
      using def resolved_cong m(2,3) unfolding Inl sum.case fb_def[symmetric] by (cases "pa_suggested_path fb = RP_PEER") simp_all
  next
    case (Inr out)
    then show ?thesis using def m by (simp add: resolved_def result_ok_def events_publish)
  qed
qed

lemma resolve_resolved:
  assumes "minds_own_task (an_do_work a)" and "autogen_quiet (tx_task_id task) env"
  shows "resolved (tx_task_id task) w (resolve env a task msg analysis w)"
  by (simp add: resolve_def Let_def resolved_self[OF assms] resolved_peer[OF assms] resolved_human resolved_escalate
      split: resolution_path.split)

text \<open>What the graph says after an escalation.\<close>

lemma resolve_human_untouched:
  "aw_graph (fst (resolve_human env a task msg an w)) = aw_graph w"
  by (simp add: resolve_human_def Let_def)

text \<open>C10: Every resolution ends in one of three ways, and says so with one event of the task: a success has an
  output of a retry and comes as completed; a pending one has a request to a human for this task; a failed one
  is an escalation with the error. A risky action is never tried again: it goes to a human, and
  nothing but the request happens.\<close>

theorem resolve_outcomes:
  assumes "minds_own_task (an_do_work a)" and "autogen_quiet (tx_task_id task) env"
  shows "let (w', r) = resolve env a task msg None w in
    events_of (tx_task_id task) w' = events_of (tx_task_id task) w @ [event_of_status (rr_status r)] \<and>
    result_ok (tx_task_id task) r \<and>
    dict_get (aw_disk w') (tx_task_id task) = dict_get (aw_disk w) (tx_task_id task) \<and>
    (any_in (irreversible_patterns @ compliance_patterns)
       (lower (case action_of task of None \<Rightarrow> [] | Some s \<Rightarrow> s) @ '' '' @ lower (tx_input task)) \<longrightarrow>
     rr_status r = RS_PENDING \<and> aw_graph w' = aw_graph w \<and> aw_disk w' = aw_disk w \<and>
     (\<exists>req. w' = publish_event (an_name a) HUMAN_REQUESTED task req w))"
proof -
  obtain w' r where wr: "resolve env a task msg None w = (w', r)" by force
  define an where "an = evaluate_failure env a msg task (tx_retry_count task) w"
  have all: "resolved (tx_task_id task) w (w', r)" using resolve_resolved[OF assms, of w msg None] wr by simp
  moreover have "rr_status r = RS_PENDING \<and> aw_graph w' = aw_graph w \<and> aw_disk w' = aw_disk w \<and>
      (\<exists>req. w' = publish_event (an_name a) HUMAN_REQUESTED task req w)"
    if "any_in (irreversible_patterns @ compliance_patterns)
       (lower (case action_of task of None \<Rightarrow> [] | Some s \<Rightarrow> s) @ '' '' @ lower (tx_input task))"
  proof -
    have "risky (pa_action_category an)"
      using that by (simp add: an_def evaluate_failure_def evaluate_category risky_classify)
    then have "pa_suggested_path an = RP_HUMAN" unfolding an_def evaluate_failure_def by (rule evaluate_risky(1))
    then have "(w', r) = resolve_human env a task msg an w" using wr by (simp add: resolve_def an_def Let_def)
    then show ?thesis by (auto simp: resolve_human_def Let_def)
  qed
  ultimately show ?thesis by (simp add: wr resolved_def)
qed

subsection \<open>After a failed run (\<open>SmartAgent._escalate\<close>)\<close>

definition failure_text :: "'x smart_agent \<Rightarrow> agent_error \<Rightarrow> string" where
  "failure_text a err = ''['' @ level_value (er_level err) @ ''] '' @ an_name a @ '' failed: '' @ er_message err"

text \<open>The coordinating agent is asked for a decision; what it raises is logged.\<close>

definition invoke_ceo ::
  "'x resolver_env \<Rightarrow> 'x smart_agent \<Rightarrow> agent_task \<Rightarrow> agent_error \<Rightarrow> problem_analysis \<Rightarrow> 'x agent_world \<Rightarrow>
   'x agent_world \<times> agent_task" where
  "invoke_ceo env a task err an w =
     (let data = [(''task_id'', PStr (tx_task_id task)), (''agent'', PStr (an_name a)),
                  (''severity'', PStr (severity_value (pa_severity an))), (''error'', PStr (er_message err)),
                  (''analysis'', PStr (pa_reasoning an)), (''capabilities'', strs (an_capabilities a)),
                  (''similar_experiences'', PList (map PDict (pa_similar_experiences an)))];
          esc = \<lparr> tx_task_id = tx_task_id task @ ''-esc'',
                  tx_input = ''Escalation from '' @ an_name a @ '': '' @ er_message err,
                  tx_metadata = [(''is_escalation'', PBool True), (''escalation_data'', PDict data)], tx_retry_count = 0,
                  at_config = [], at_upstream_output = None, at_started_at = None, at_completed_at = None, at_max_retries = 1 \<rparr>
      in case rv_ceo env w esc of
           (w', _, Inl _) \<Rightarrow> (w', task)
         | (w', _, Inr out) \<Rightarrow>
             (w', task \<lparr> tx_metadata := dict_set (tx_metadata task) ''ceo_decision'' (PDict (os_payload out)) \<rparr>))"

definition agent_escalate ::
  "'x resolver_env \<Rightarrow> 'x smart_agent \<Rightarrow> agent_task \<Rightarrow> agent_error \<Rightarrow> 'x agent_world \<Rightarrow>
   'x agent_world \<times> agent_task \<times> (string + output_schema)" where
  "agent_escalate env a task err w =
     (let an = evaluate_failure env a (er_message err) task (tx_retry_count task) w in
      case resolve env a task (er_message err) (Some an) w of
        (w1, r) \<Rightarrow>
          (case (if rr_status r = RS_SUCCESS then rr_output r else None) of
             Some out \<Rightarrow> (w1 \<lparr> aw_disk := fst (cs_delete (aw_disk w1) (tx_task_id task)) \<rparr>, task, Inr out)
           | None \<Rightarrow>
               (case (if rr_path r = RP_ESCALATE then invoke_ceo env a task err an w1 else (w1, task)) of
                  (w2, task') \<Rightarrow> (w2, task', Inl (failure_text a err)))))"

subsection \<open>The whole run (\<open>SmartAgent.execute\<close>)\<close>

text \<open>Before the run: the record of the start, and the experiences handed to the agent.\<close>

definition prepare_run :: "'x resolver_env \<Rightarrow> 'x smart_agent \<Rightarrow> agent_task \<Rightarrow> 'x agent_world \<Rightarrow> 'x agent_world \<times> agent_task" where
  "prepare_run env a task w =
     (if an_memory_enabled a
      then let w1 = w \<lparr> aw_graph := record_task_start (aw_graph w) (tx_task_id task) (tx_input task) (an_name a) (now_of (rv_env env) w) \<rparr>;
               es = get_relevant_experiences (ne_lib (rv_env env)) (ne_backend (rv_env env)) (aw_graph w1) (tx_input task) 3 30
                      (now_of (rv_env env) w1)
           in (w1, if es = [] then task else task \<lparr> tx_metadata := dict_set (tx_metadata task) ''experiences'' (strs es) \<rparr>)
      else (w, task))"

definition record_success :: "'x resolver_env \<Rightarrow> 'x smart_agent \<Rightarrow> agent_task \<Rightarrow> output_schema \<Rightarrow> 'x agent_world \<Rightarrow> 'x agent_world" where
  "record_success env a task out w =
     (if an_memory_enabled a
      then let g1 = record_task_complete (ne_lib (rv_env env)) (aw_graph w) (tx_task_id task) out (now_of (rv_env env) w);
               g2 = (if py_truthy (dict_get_or (tx_metadata task) ''skip_experience_recording'' PNone) then g1
                     else record_experience g1 (tx_task_id task) (''Agent '' @ an_name a @ '' completed: '' @ take 100 (tx_input task))
                            (an_name a) True [] (now_of (rv_env env) w))
           in w \<lparr> aw_graph := g2 \<rparr>
      else w)"

definition record_failure :: "'x resolver_env \<Rightarrow> 'x smart_agent \<Rightarrow> agent_task \<Rightarrow> string \<Rightarrow> 'x agent_world \<Rightarrow> 'x agent_world" where
  "record_failure env a task msg w =
     (if an_memory_enabled a
      then w \<lparr> aw_graph := record_task_failure (ne_lib (rv_env env)) (ne_backend (rv_env env)) (aw_graph w) (tx_task_id task) msg
                 (an_name a) (Some [(''attempts'', PInt (tx_retry_count task))]) (now_of (rv_env env) w) \<rparr>
      else w)"

definition execute ::
  "'x resolver_env \<Rightarrow> 'x smart_agent \<Rightarrow> agent_task \<Rightarrow> 'x agent_world \<Rightarrow> 'x agent_world \<times> agent_task \<times> (string + output_schema)" where
  "execute env a task0 w0 =
     (case prepare_run env a task0 w0 of (w1, task1) \<Rightarrow>
      let task2 = task1 \<lparr> at_started_at := Some (now_of (rv_env env) w1) \<rparr> in
      case setup_checkpoint (rv_env env) a task2 w1 of (w2, cp) \<Rightarrow>
      let w3 = publish_event (an_name a) TASK_STARTED task2 [(''input_hash'', PInt (ne_hash (rv_env env) (take 200 (tx_input task2))))] w2 in
      case run_with_retry (rv_env env) a task2 cp w3 of
        (w4, task3, cp', Inr out) \<Rightarrow> (record_success env a task3 out w4, task3, Inr out)
      | (w4, task3, cp', Inl msg) \<Rightarrow>
          let w5 = record_failure env a task3 msg w4;
              err = agent_classify_error msg (ne_traceback (rv_env env) msg);
              w6 = fst (handle_final_failure (rv_env env) a task3 cp' err w5)
          in if an_has_resolver a then agent_escalate env a task3 err w6
             else (w6, task3, Inl (failure_text a err)))"

subsection \<open>A run follows the life of a task\<close>

lemma life_failed_event:
  assumes "result_ok tid r"
  shows "\<exists>s. life_step limit Failed (event_of_status (rr_status r)) s \<and>
    (rr_status r = RS_SUCCESS \<longrightarrow> s = Resolved) \<and> (rr_status r \<noteq> RS_SUCCESS \<longrightarrow> s = Waiting \<or> s = Handed_Up)"
  using assms life_step.resolve[of limit] life_step.ask[of limit] life_step.escalate[of limit] by (auto simp: result_ok_def)

lemma invoke_ceo_quiet:
  assumes "leaves_alone tid (rv_ceo env)" and "invoke_ceo env a task err an w = (w', task')"
  shows "events_of tid w' = events_of tid w" "dict_get (aw_disk w') tid = dict_get (aw_disk w) tid"
proof -
  define esc where "esc = fst (rv_ceo env w
     \<lparr> tx_task_id = tx_task_id task @ ''-esc'', tx_input = ''Escalation from '' @ an_name a @ '': '' @ er_message err,
       tx_metadata = [(''is_escalation'', PBool True), (''escalation_data'', PDict
         [(''task_id'', PStr (tx_task_id task)), (''agent'', PStr (an_name a)),
          (''severity'', PStr (severity_value (pa_severity an))), (''error'', PStr (er_message err)),
          (''analysis'', PStr (pa_reasoning an)), (''capabilities'', strs (an_capabilities a)),
          (''similar_experiences'', PList (map PDict (pa_similar_experiences an)))])], tx_retry_count = 0,
       at_config = [], at_upstream_output = None, at_started_at = None, at_completed_at = None, at_max_retries = 1 \<rparr>)"
  have "w' = esc"
    using assms(2) by (auto simp: invoke_ceo_def esc_def Let_def split: prod.splits sum.splits)
  then show "events_of tid w' = events_of tid w" "dict_get (aw_disk w') tid = dict_get (aw_disk w) tid"
    using assms(1) by (auto simp: esc_def leaves_alone_def)
qed

lemma agent_escalate_life:
  assumes "minds_own_task (an_do_work a)" and "autogen_quiet (tx_task_id task) env" and "leaves_alone (tx_task_id task) (rv_ceo env)"
    and "agent_escalate env a task err w = (w', task', r)"
  shows "\<exists>e s. events_of (tx_task_id task) w' = events_of (tx_task_id task) w @ [e] \<and> life_step limit Failed e s \<and>
    (case r of Inr _ \<Rightarrow> s = Resolved \<and> dict_get (aw_disk w') (tx_task_id task) = None
     | Inl _ \<Rightarrow> (s = Waiting \<or> s = Handed_Up) \<and> dict_get (aw_disk w') (tx_task_id task) = dict_get (aw_disk w) (tx_task_id task))"
proof -
  define an where "an = evaluate_failure env a (er_message err) task (tx_retry_count task) w"
  obtain w1 res where rs: "resolve env a task (er_message err) (Some an) w = (w1, res)" by force
  have ok: "resolved (tx_task_id task) w (w1, res)"
    using resolve_resolved[OF assms(1,2), of w "er_message err" "Some an"] rs by simp
  obtain s where s: "life_step limit Failed (event_of_status (rr_status res)) s"
    "rr_status res = RS_SUCCESS \<longrightarrow> s = Resolved" "rr_status res \<noteq> RS_SUCCESS \<longrightarrow> s = Waiting \<or> s = Handed_Up"
    using life_failed_event ok by (metis resolved_def snd_conv)
  note def = assms(4)[unfolded agent_escalate_def Let_def an_def[symmetric] rs prod.case]
  show ?thesis
  proof (cases "rr_status res = RS_SUCCESS")
    case True
    then obtain out where "rr_output res = Some out" using ok by (auto simp: resolved_def result_ok_def)
    with True def have w: "w' = w1 \<lparr> aw_disk := fst (cs_delete (aw_disk w1) (tx_task_id task)) \<rparr>" "r = Inr out" by auto
    have gone: "dict_get (aw_disk w') (tx_task_id task) = None" by (simp add: w(1) cs_delete_def)
    have "events_of (tx_task_id task) w' = events_of (tx_task_id task) w @ [event_of_status (rr_status res)]"
      using ok by (simp add: resolved_def w(1))
    then show ?thesis using s(1,2) True gone w(2)
      by (intro exI[of _ "event_of_status (rr_status res)"] exI[of _ s]) simp
  next
    case False
    obtain w2 t2 where ceo: "(if rr_path res = RP_ESCALATE then invoke_ceo env a task err an w1 else (w1, task)) = (w2, t2)" by force
    have "events_of (tx_task_id task) w2 = events_of (tx_task_id task) w1 \<and>
        dict_get (aw_disk w2) (tx_task_id task) = dict_get (aw_disk w1) (tx_task_id task)"
      using ceo invoke_ceo_quiet[OF assms(3)] by (auto split: if_splits)
    moreover have "w' = w2" "r = Inl (failure_text a err)" using def False ceo by auto
    ultimately show ?thesis using s(1,3) False ok
      by (intro exI[of _ "event_of_status (rr_status res)"] exI[of _ s]) (simp add: resolved_def)
  qed
qed

lemma run_loop_cp: "run_loop env a left k task cp err w = (w', task', cp', Inl m) \<Longrightarrow> cp' = cp"
proof (induction left arbitrary: k task err w)
  case (Suc left)
  from Suc.prems show ?case by (cases rule: run_loop_round) (auto dest: Suc.IH)
qed simp

lemma prepare_run_facts:
  assumes "prepare_run env a task w = (w1, task1)"
  shows "events_of tid w1 = events_of tid w" "tx_task_id task1 = tx_task_id task" "at_max_retries task1 = at_max_retries task"
  using assms by (auto simp: prepare_run_def Let_def split: if_splits)

lemma record_events [simp]:
  "events_of tid (record_success env a task out w) = events_of tid w" "aw_disk (record_success env a task out w) = aw_disk w"
  "events_of tid (record_failure env a task msg w) = events_of tid w" "aw_disk (record_failure env a task msg w) = aw_disk w"
  by (simp_all add: record_success_def record_failure_def Let_def)

lemma setup_facts:
  assumes "setup_checkpoint env a task w = (w2, cp)"
  shows "events_of tid w2 = events_of tid w" "cp_task_id cp = tx_task_id task"
    "cp_completed_steps cp = []" "cp_error_history cp = []" "\<exists>n. cp_pending_steps cp = [new_step ''do_work'' n (now_of env w)]"
  using assms by (auto simp: setup_checkpoint_def cp_start_def Let_def)

lemma final_failure_facts:
  assumes "\<exists>n now. cp_pending_steps cp = [new_step ''do_work'' n now]" and "cp_error_history cp = []"
    and w': "w' = fst (handle_final_failure env a task cp err w)"
  shows "events_of (tx_task_id task) w' = events_of (tx_task_id task) w @ [TASK_FAILED]"
    and "(\<forall>x. ne_disk_ok env x) \<Longrightarrow> \<exists>c. dict_get (aw_disk w') (cp_task_id cp) = Some c \<and> cp_pending_steps c = [] \<and>
      map ee_error (cp_error_history c) = [Some (er_message err)]"
  using assms(1,2)
  by (auto simp: w' handle_final_failure_def Let_def events_publish save_checkpoint_def cs_save_def cp_fail_step_def new_step_def)

text \<open>The outcome of a run in the life of its task.\<close>

definition run_outcome :: "bool \<Rightarrow> string + output_schema \<Rightarrow> life \<Rightarrow> bool" where
  "run_outcome has_resolver r s \<longleftrightarrow>
     (case r of Inr _ \<Rightarrow> s = Completed \<or> (has_resolver \<and> s = Resolved)
      | Inl _ \<Rightarrow> (if has_resolver then s = Waiting \<or> s = Handed_Up else s = Failed))"

lemma run_until_loop:
  assumes "minds_own_task (an_do_work a)" and "run_with_retry env a task cp w = (w', task', cp', r)"
  shows "\<exists>es k. events_of (tx_task_id task) w' = events_of (tx_task_id task) w @ es \<and>
      life_path (at_max_retries task) (Running 0) es (case r of Inl _ \<Rightarrow> Running k | Inr _ \<Rightarrow> Completed)"
    and "tx_task_id task' = tx_task_id task" "at_max_retries task' = at_max_retries task"
proof -
  have "(\<exists>es k. events_of (tx_task_id task) w' = events_of (tx_task_id task) w @ es \<and>
      life_path (at_max_retries task) (Running 0) es (case r of Inl _ \<Rightarrow> Running k | Inr _ \<Rightarrow> Completed)) \<and>
      tx_task_id task' = tx_task_id task \<and> at_max_retries task' = at_max_retries task"
  proof (cases "at_max_retries task + 1 \<le> 0")
    case True
    then have "w' = w" "task' = task" "\<exists>m. r = Inl m" using assms(2) by (auto simp: run_with_retry_def)
    then show ?thesis by (intro conjI exI[of _ "[]"] exI[of _ 0]) (auto intro: life_path.stay)
  next
    case False
    then show ?thesis
      using run_loop_life[OF assms(1), of env "nat (at_max_retries task + 1)" 0 task cp None w w' task' cp' r] assms(2)
      by (simp add: run_with_retry_def)
  qed
  then show "\<exists>es k. events_of (tx_task_id task) w' = events_of (tx_task_id task) w @ es \<and>
      life_path (at_max_retries task) (Running 0) es (case r of Inl _ \<Rightarrow> Running k | Inr _ \<Rightarrow> Completed)"
    "tx_task_id task' = tx_task_id task" "at_max_retries task' = at_max_retries task" by blast+
qed


subsection \<open>What a resolution does not do\<close>

definition quiet_on_graph :: "'x work \<Rightarrow> bool" where
  "quiet_on_graph work \<longleftrightarrow> (\<forall>w t. aw_graph (fst (work w t)) = aw_graph w)"

lemma quiet_on_graphD: "quiet_on_graph work \<Longrightarrow> work w t = (w', t', r) \<Longrightarrow> aw_graph w' = aw_graph w"
  unfolding quiet_on_graph_def by (metis fst_conv)

lemma resolve_peer_success_graph:
  assumes "quiet_on_graph (an_do_work a)" and "rv_autogen env = None"
    and "resolve_peer env a task msg an w = (w', r)" and "rr_status r = RS_SUCCESS"
  shows "aw_graph w' = aw_graph w"
proof -
  have esc: "rr_status (snd (resolve_escalate env a t m an w0)) = RS_FAILED" for t m w0
    by (simp add: resolve_escalate_def Let_def)
  show ?thesis
    using assms(2-4) esc[of task msg] quiet_on_graphD[OF assms(1)]
    by (auto simp: resolve_peer_def run_peer_discussion_def Let_def split: prod.splits sum.splits option.splits if_splits)
       (metis resolution_status.distinct(1) snd_conv)+
qed

text \<open>A task that the resolver brings to an end stays failed in the memory graph: nothing records the completion,
  which \<open>execute\<close> does only for an output of the first run.\<close>

lemma resolved_task_stays_failed:
  assumes "quiet_on_graph (an_do_work a)" and "rv_autogen env = None" and "an_memory_enabled a"
    and "has_node (aw_graph w) (tx_task_id task)"
    and "agent_escalate env a task err (record_failure env a task msg w) = (w', task', Inr out)"
  shows "content_at (aw_graph w') (tx_task_id task) ''status'' = Some (PStr ''failed'')"
proof -
  let ?w5 = "record_failure env a task msg w"
  define an where "an = evaluate_failure env a (er_message err) task (tx_retry_count task) ?w5"
  obtain w1 r where rs: "resolve env a task (er_message err) (Some an) ?w5 = (w1, r)" by force
  have r: "rr_status r = RS_SUCCESS" "aw_graph w' = aw_graph w1"
    using assms(5) by (auto simp: agent_escalate_def Let_def an_def[symmetric] rs split: prod.splits if_splits option.splits)
  have esc: "rr_status (snd (resolve_escalate env a t m x w0)) = RS_FAILED" for t m x w0
    by (simp add: resolve_escalate_def Let_def)
  have "aw_graph w1 = aw_graph ?w5"
  proof (cases "pa_suggested_path an")
    case RP_PEER
    then show ?thesis using rs r(1) resolve_peer_success_graph[OF assms(1,2)] by (simp add: resolve_def)
  next
    case RP_SELF
    then have s: "resolve_self env a task (er_message err) an ?w5 = (w1, r)" using rs by (simp add: resolve_def)
    define rt where "rt = task \<lparr> tx_input := enrich_with_experience (rv_text env) (tx_input task) an,
                              tx_metadata := dict_set (tx_metadata task) ''resolution_path'' (PStr ''self''),
                              tx_retry_count := tx_retry_count task + 1, at_upstream_output := None,
                              at_started_at := None, at_completed_at := None \<rparr>"
    obtain w2 t2 res where d: "an_do_work a ?w5 rt = (w2, t2, res)" by (metis prod_cases3)
    note g2 = quiet_on_graphD[OF assms(1) d]
    note def = s[unfolded resolve_self_def Let_def, folded rt_def, unfolded d prod.case]
    show ?thesis
    proof (cases res)
      case (Inl e)
      define fb where "fb = evaluate_failure env a e task (tx_retry_count t2) w2"
      from def have f: "(if pa_suggested_path fb = RP_PEER then resolve_peer env a t2 e fb w2 else resolve_escalate env a t2 e fb w2) = (w1, r)"
        unfolding Inl sum.case fb_def[symmetric] .
      show ?thesis
      proof (cases "pa_suggested_path fb = RP_PEER")
        case True
        then show ?thesis using f r(1) g2 resolve_peer_success_graph[OF assms(1,2), of t2 e fb w2 w1 r] by simp
      next
        case False
        then show ?thesis using f r(1) esc[of t2 e fb w2] by simp
      qed
    qed (use def g2 in auto)
  next
    case RP_HUMAN
    then show ?thesis using rs by (auto simp: resolve_def resolve_human_def Let_def)
  next
    case RP_ESCALATE
    then show ?thesis using rs r(1) esc[of task "er_message err" an ?w5] by (simp add: resolve_def)
  qed
  moreover have "content_at (aw_graph ?w5) (tx_task_id task) ''status'' = Some (PStr ''failed'')"
    using failure_facts(4)[OF assms(4)] assms(3) by (simp add: record_failure_def)
  ultimately show ?thesis using r(2) by simp
qed

text \<open>A retry that fails and would now go to a human is escalated instead.\<close>

lemma human_fallback_is_escalated:
  assumes "an_do_work a w (task \<lparr> tx_input := enrich_with_experience (rv_text env) (tx_input task) an,
        tx_metadata := dict_set (tx_metadata task) ''resolution_path'' (PStr ''self''), tx_retry_count := tx_retry_count task + 1,
        at_upstream_output := None, at_started_at := None, at_completed_at := None \<rparr>) = (w1, t1, Inl e)"
    and "pa_suggested_path (evaluate_failure env a e task (tx_retry_count t1) w1) = RP_HUMAN"
  shows "rr_status (snd (resolve_self env a task msg an w)) = RS_FAILED"
    and "rr_human_request (snd (resolve_self env a task msg an w)) = None"
  using assms by (simp_all add: resolve_self_def Let_def resolve_escalate_def)

text \<open>Without \<open>LLM_PROVIDER\<close> the adapter takes OpenAI, while the router takes Anthropic.\<close>

lemma autogen_without_provider: "strip key \<noteq> [] \<Longrightarrow> has_autogen True key None"
  by (simp add: has_autogen_def) code_simp

subsection \<open>An example\<close>

definition demo_agent :: "unit smart_agent" where
  "demo_agent = \<lparr> an_name = ''writer'', an_capabilities = [''writing''], an_do_work = (\<lambda>w t. (w, t, Inl ''timeout'')),
     an_usage = (\<lambda>_. None), an_memory_enabled = True, an_has_resolver = True \<rparr>"

definition demo_env :: "unit resolver_env" where
  "demo_env = \<lparr> rv_env = \<lparr> ne_lib = sample_lib, ne_backend = keyword_backend, ne_validators = [], ne_provider = ''anthropic'',
       ne_badge = (\<lambda>_. []), ne_hash = (\<lambda>_. 0), ne_dump_output = (\<lambda>_. []), ne_dump_usage = (\<lambda>_. []), ne_traceback = (\<lambda>_. []),
       ne_clock = (\<lambda>_. 0), ne_hex = (\<lambda>_. ''0123456789''), ne_disk_ok = (\<lambda>_. True) \<rparr>,
     rv_registry = new_registry, rv_text = \<lparr> to_val = (\<lambda>_. []), to_dict = (\<lambda>_. []) \<rparr>, rv_timed_out = (\<lambda>_. False),
     rv_autogen = None, rv_ceo = (\<lambda>w t. (w, t, Inl ''busy'')) \<rparr>"

definition demo_task :: agent_task where
  "demo_task = \<lparr> tx_task_id = ''t1'', tx_input = ''drop the old table'', tx_metadata = [], tx_retry_count = 0, at_config = [],
     at_upstream_output = None, at_started_at = None, at_completed_at = None, at_max_retries = 3 \<rparr>"

definition demo_world :: "unit agent_world" where
  "demo_world = \<lparr> aw_graph = empty_graph, aw_disk = [], aw_events = [], aw_handlers = [], aw_rest = () \<rparr>"

lemma demo_hypotheses:
  "minds_own_task (an_do_work demo_agent)" "autogen_quiet tid demo_env" "leaves_alone tid (rv_ceo demo_env)"
  by (simp_all add: minds_own_task_def demo_agent_def autogen_quiet_def leaves_alone_def demo_env_def)


theorem resolve_outcomes_witness:
  "\<exists>w' r. resolve demo_env demo_agent demo_task ''timeout'' None demo_world = (w', r) \<and> rr_status r = RS_PENDING \<and>
     events_of ''t1'' w' = [HUMAN_REQUESTED]"
proof -
  obtain w' r where e: "resolve demo_env demo_agent demo_task ''timeout'' None demo_world = (w', r)" by force
  have risky: "any_in (irreversible_patterns @ compliance_patterns)
      (lower (case action_of demo_task of None \<Rightarrow> [] | Some s \<Rightarrow> s) @ '' '' @ lower (tx_input demo_task))"
    by (simp add: demo_task_def action_of_def) code_simp
  have d: "tx_task_id demo_task = ''t1''" "events_of ''t1'' demo_world = []"
    by (simp_all add: demo_task_def demo_world_def events_of_def)
  from resolve_outcomes[OF demo_hypotheses(1,2), where msg = "''timeout''" and w = demo_world and task = demo_task]
  show ?thesis using risky by (simp add: e d)
qed

end
