(* ===== verification/Metrics.thy ===== *)
theory Metrics
  imports Dataview_Exec
begin

section \<open>Metrics and spans (core/observability.py)\<close>

text \<open>
  The nine metrics over the memory graph, each computed by queries of the query language, the two
  implementations of before that are kept in the code, and the tracer with its buffer of spans.
\<close>

subsection \<open>Values\<close>

record metric_value =
  mv_name :: string
  mv_value :: rat
  mv_unit :: string
  mv_labels :: "(string, string) dict"

text \<open>\<open>round(x, n)\<close>\<close>

definition round_dec :: "nat \<Rightarrow> rat \<Rightarrow> rat" where
  "round_dec n x = of_int (round_half_even (x * 10 ^ n)) / 10 ^ n"

definition safe_query :: "py_lib \<Rightarrow> graph \<Rightarrow> string \<Rightarrow> (string, rat) dict" where
  "safe_query lib g sql = (case query lib g None sql of Inl _ \<Rightarrow> [] | Inr r \<Rightarrow> qr_aggregations r)"

definition safe_count :: "py_lib \<Rightarrow> graph \<Rightarrow> string \<Rightarrow> int" where
  "safe_count lib g sql = py_trunc (dict_get_or (safe_query lib g sql) ''count'' 0)"

definition quoted :: "string \<Rightarrow> string" where
  "quoted s = [CHR 0x27] @ s @ [CHR 0x27]"

definition rate_of :: "rat \<Rightarrow> int \<Rightarrow> int \<Rightarrow> rat" where
  "rate_of dflt a b = (if b > 0 then of_int a / of_int b else dflt)"

definition all_tasks_query :: string where
  "all_tasks_query = ''SELECT COUNT(*) AS count FROM tasks;''"

definition failures_query :: string where
  "failures_query = ''SELECT COUNT(*) AS count FROM failures;''"

subsection \<open>The nine metrics\<close>

definition end_to_end_success_rate :: "py_lib \<Rightarrow> graph \<Rightarrow> metric_value" where
  "end_to_end_success_rate lib g =
     (let completed = safe_count lib g (''SELECT COUNT(*) AS count FROM tasks WHERE status = '' @ quoted ''completed'' @ '';'');
          total_tasks = safe_count lib g all_tasks_query
      in \<lparr> mv_name = ''end_to_end_success_rate'', mv_value = round_dec 4 (rate_of 1 completed total_tasks), mv_unit = ''ratio'',
           mv_labels = [(''total'', show_int total_tasks), (''completed'', show_int completed)] \<rparr>)"

definition avg_completion_time :: "py_lib \<Rightarrow> graph \<Rightarrow> metric_value" where
  "avg_completion_time lib g =
     (let aggs = safe_query lib g ''SELECT AVG(content.duration_seconds) AS avg FROM tasks;''
      in \<lparr> mv_name = ''avg_completion_time'', mv_value = round_dec 2 (dict_get_or aggs ''avg'' 0), mv_unit = ''seconds'',
           mv_labels = [(''source'', ''dataview'')] \<rparr>)"

definition cost_per_task :: "py_lib \<Rightarrow> graph \<Rightarrow> metric_value" where
  "cost_per_task lib g =
     (let aggs = safe_query lib g ''SELECT SUM(content.cost) AS sum FROM tasks;'';
          total_tasks = safe_count lib g all_tasks_query;
          total_cost = dict_get_or aggs ''sum'' 0;
          avg_cost = (if total_tasks > 0 then total_cost / of_int total_tasks else 0)
      in \<lparr> mv_name = ''cost_per_task'', mv_value = round_dec 4 avg_cost, mv_unit = ''usd'',
           mv_labels = [(''total_cost'', lib_str lib (PFloat (round_dec 4 total_cost)))] \<rparr>)"

definition user_satisfaction :: "py_lib \<Rightarrow> graph \<Rightarrow> metric_value" where
  "user_satisfaction lib g =
     (let aggs = safe_query lib g ''SELECT AVG(content.score) AS avg FROM feedbacks;''
      in \<lparr> mv_name = ''user_satisfaction'', mv_value = round_dec 2 (dict_get_or aggs ''avg'' 0), mv_unit = ''score'',
           mv_labels = [(''source'', ''dataview'')] \<rparr>)"

definition failure_rate_by_agent :: "py_lib \<Rightarrow> graph \<Rightarrow> metric_value" where
  "failure_rate_by_agent lib g =
     (let failed = safe_count lib g (''SELECT COUNT(*) AS count FROM tasks WHERE status = '' @ quoted ''failed'' @ '';'');
          total_tasks = safe_count lib g all_tasks_query
      in \<lparr> mv_name = ''failure_rate_by_agent'', mv_value = round_dec 4 (rate_of 0 failed total_tasks), mv_unit = ''ratio'',
           mv_labels = [(''failed'', show_int failed), (''total'', show_int total_tasks),
                        (''note'', ''per-agent breakdown deferred to PR2+'')] \<rparr>)"

definition reflection_trigger_rate :: "py_lib \<Rightarrow> graph \<Rightarrow> metric_value" where
  "reflection_trigger_rate lib g =
     (let reflections = safe_count lib g (''SELECT COUNT(*) AS count FROM decisions WHERE content.type = '' @ quoted ''reflection'' @ '';'');
          failures = safe_count lib g failures_query
      in \<lparr> mv_name = ''reflection_trigger_rate'', mv_value = round_dec 4 (rate_of 0 reflections failures), mv_unit = ''ratio'',
           mv_labels = [(''reflections'', show_int reflections), (''failures'', show_int failures)] \<rparr>)"

definition escalation_request_rate :: "py_lib \<Rightarrow> graph \<Rightarrow> metric_value" where
  "escalation_request_rate lib g =
     (let escalations = safe_count lib g (''SELECT COUNT(*) AS count FROM decisions WHERE content.type = '' @ quoted ''escalation'' @ '';'');
          failures = safe_count lib g failures_query
      in \<lparr> mv_name = ''escalation_request_rate'', mv_value = round_dec 4 (rate_of 0 escalations failures), mv_unit = ''ratio'',
           mv_labels = [(''escalations'', show_int escalations), (''failures'', show_int failures)] \<rparr>)"

definition validation_failure_rate :: "py_lib \<Rightarrow> graph \<Rightarrow> metric_value" where
  "validation_failure_rate lib g =
     (let invalid = safe_count lib g ''SELECT COUNT(*) AS count FROM outputs WHERE content.valid = false;'';
          total_outputs = safe_count lib g ''SELECT COUNT(*) AS count FROM outputs;''
      in \<lparr> mv_name = ''validation_failure_rate'', mv_value = round_dec 4 (rate_of 0 invalid total_outputs), mv_unit = ''ratio'',
           mv_labels = [(''invalid'', show_int invalid), (''total'', show_int total_outputs)] \<rparr>)"

definition experience_effectiveness :: "py_lib \<Rightarrow> graph \<Rightarrow> metric_value" where
  "experience_effectiveness lib g =
     (let successes = safe_count lib g ''SELECT COUNT(*) AS count FROM experiences WHERE content.success = true;'';
          total_exps = safe_count lib g ''SELECT COUNT(*) AS count FROM experiences;''
      in \<lparr> mv_name = ''experience_effectiveness'', mv_value = round_dec 4 (rate_of 0 successes total_exps), mv_unit = ''ratio'',
           mv_labels = [(''successful'', show_int successes), (''total'', show_int total_exps)] \<rparr>)"

definition calculate_all :: "py_lib \<Rightarrow> graph \<Rightarrow> (string, metric_value) dict" where
  "calculate_all lib g =
     [(''end_to_end_success_rate'', end_to_end_success_rate lib g), (''avg_completion_time'', avg_completion_time lib g),
      (''cost_per_task'', cost_per_task lib g), (''user_satisfaction'', user_satisfaction lib g),
      (''failure_rate_by_agent'', failure_rate_by_agent lib g), (''reflection_trigger_rate'', reflection_trigger_rate lib g),
      (''escalation_request_rate'', escalation_request_rate lib g), (''validation_failure_rate'', validation_failure_rate lib g),
      (''experience_effectiveness'', experience_effectiveness lib g)]"

definition label_text :: "(string, string) dict \<Rightarrow> string" where
  "label_text labels = join_with '','' (map (\<lambda>(k, v). k @ ''='' @ [CHR 0x22] @ v @ [CHR 0x22]) labels)"

definition to_prometheus_text :: "py_lib \<Rightarrow> graph \<Rightarrow> string" where
  "to_prometheus_text lib g =
     join_with [CHR 0x0A]
       ([''# HELP agent_system_metrics Agent System metrics'', ''# TYPE agent_system_metrics gauge''] @
        map (\<lambda>(name, m). let labels = label_text (mv_labels m) in
               if labels \<noteq> [] then ''agent_'' @ name @ ''{'' @ labels @ ''} '' @ lib_str lib (PFloat (mv_value m))
               else ''agent_'' @ name @ '' '' @ lib_str lib (PFloat (mv_value m))) (calculate_all lib g))"

subsection \<open>The implementations of before\<close>

definition legacy_end_to_end_success_rate :: "graph \<Rightarrow> rat" where
  "legacy_end_to_end_success_rate g =
     (let tasks = find_nodes g (Some N_TASK) []; n = length tasks in
      if n = 0 then 1
      else of_nat (length (filter (\<lambda>t. py_eq (dict_get_or (gn_content t) ''status'' PNone) (PStr ''completed'')) tasks)) / of_nat n)"

definition legacy_avg_completion_time :: "graph \<Rightarrow> rat" where
  "legacy_avg_completion_time g =
     (let tasks = find_nodes g (Some N_TASK) [];
          durations = filter (\<lambda>d. d > 0) (map (\<lambda>t. of_int (gn_updated_at t - gn_created_at t) / 1000000 :: rat) tasks)
      in if durations = [] then 0 else sum_list durations / of_nat (length durations))"

subsection \<open>Spans\<close>

record trace_span =
  ts_span_id :: string
  ts_trace_id :: string
  ts_parent_id :: "string option"
  ts_name :: string
  ts_start_time :: rat
  ts_end_time :: rat
  ts_duration_ms :: rat
  ts_status :: string
  ts_attributes :: pydict

record tracer =
  tr_spans :: "trace_span list"
  tr_max_spans :: nat

definition new_tracer :: tracer where
  "new_tracer = \<lparr> tr_spans = [], tr_max_spans = 10000 \<rparr>"

definition start_span ::
  "string \<Rightarrow> string \<Rightarrow> string option \<Rightarrow> pydict option \<Rightarrow> string \<Rightarrow> string \<Rightarrow> rat \<Rightarrow> trace_span" where
  "start_span name trace_id parent_id attributes hex1 hex2 now =
     \<lparr> ts_span_id = ''span-'' @ take 8 hex1, ts_trace_id = (if trace_id = [] then ''trace-'' @ take 8 hex2 else trace_id),
       ts_parent_id = parent_id, ts_name = name, ts_start_time = now, ts_end_time = 0, ts_duration_ms = 0, ts_status = ''ok'',
       ts_attributes = (case attributes of None \<Rightarrow> [] | Some d \<Rightarrow> d) \<rparr>"

definition end_span :: "tracer \<Rightarrow> trace_span \<Rightarrow> string \<Rightarrow> rat \<Rightarrow> tracer \<times> trace_span" where
  "end_span tr sp status now =
     (let sp' = sp \<lparr> ts_end_time := now, ts_duration_ms := round_dec 2 ((now - ts_start_time sp) * 1000), ts_status := status \<rparr>;
          spans = tr_spans tr @ [sp']
      in (tr \<lparr> tr_spans := (if length spans > tr_max_spans tr then last_slice (int (tr_max_spans tr)) spans else spans) \<rparr>, sp'))"

definition get_trace :: "tracer \<Rightarrow> string \<Rightarrow> trace_span list" where
  "get_trace tr trace_id = filter (\<lambda>s. ts_trace_id s = trace_id) (tr_spans tr)"

definition get_recent_spans :: "tracer \<Rightarrow> int \<Rightarrow> trace_span list" where
  "get_recent_spans tr limit = last_slice limit (tr_spans tr)"

record trace_stats =
  st_total_spans :: nat
  st_avg_duration_ms :: rat
  st_error_count :: nat
  st_span_names :: "string set"

text \<open>\<open>None\<close> for the dictionary with the count 0 only.\<close>

definition get_stats :: "tracer \<Rightarrow> trace_stats option" where
  "get_stats tr =
     (if tr_spans tr = [] then None
      else let durations = filter (\<lambda>d. d > 0) (map ts_duration_ms (tr_spans tr)) in
        Some \<lparr> st_total_spans = length (tr_spans tr),
               st_avg_duration_ms = (if durations = [] then 0 else round_dec 2 (sum_list durations / of_nat (length durations))),
               st_error_count = length (filter (\<lambda>s. ts_status s = ''error'') (tr_spans tr)),
               st_span_names = set (map ts_name (tr_spans tr)) \<rparr>)"

subsection \<open>The queries\<close>

lemma parse_all_tasks: "parse_sql all_tasks_query = Inr (SelectStmt [AggExpr AggCount (FieldRef ''*'' 1 14) (Some ''count'') None 1 8]
    (FromClause ''tasks'' 1 26) None None None True)"
  by code_simp

lemma parse_failures: "parse_sql failures_query = Inr (SelectStmt [AggExpr AggCount (FieldRef ''*'' 1 14) (Some ''count'') None 1 8]
    (FromClause ''failures'' 1 26) None None None True)"
  by code_simp

lemma parse_completed: "parse_sql (''SELECT COUNT(*) AS count FROM tasks WHERE status = '' @ quoted ''completed'' @ '';'') =
    Inr (SelectStmt [AggExpr AggCount (FieldRef ''*'' 1 14) (Some ''count'') None 1 8] (FromClause ''tasks'' 1 26)
      (Some (Comparison (FieldRef ''status'' 1 43) OpEq (PStr ''completed'') 1 50)) None None True)"
  by code_simp

lemma parse_failed: "parse_sql (''SELECT COUNT(*) AS count FROM tasks WHERE status = '' @ quoted ''failed'' @ '';'') =
    Inr (SelectStmt [AggExpr AggCount (FieldRef ''*'' 1 14) (Some ''count'') None 1 8] (FromClause ''tasks'' 1 26)
      (Some (Comparison (FieldRef ''status'' 1 43) OpEq (PStr ''failed'') 1 50)) None None True)"
  by code_simp

lemma parse_durations: "parse_sql ''SELECT AVG(content.duration_seconds) AS avg FROM tasks;'' =
    Inr (SelectStmt [AggExpr AggAvg (FieldRef ''content.duration_seconds'' 1 12) (Some ''avg'') None 1 8]
      (FromClause ''tasks'' 1 45) None None None True)"
  by code_simp

lemma parse_costs: "parse_sql ''SELECT SUM(content.cost) AS sum FROM tasks;'' =
    Inr (SelectStmt [AggExpr AggSum (FieldRef ''content.cost'' 1 12) (Some ''sum'') None 1 8]
      (FromClause ''tasks'' 1 33) None None None True)"
  by code_simp

lemma parse_scores: "parse_sql ''SELECT AVG(content.score) AS avg FROM feedbacks;'' =
    Inr (SelectStmt [AggExpr AggAvg (FieldRef ''content.score'' 1 12) (Some ''avg'') None 1 8]
      (FromClause ''feedbacks'' 1 34) None None None True)"
  by code_simp

lemma parse_reflections: "parse_sql (''SELECT COUNT(*) AS count FROM decisions WHERE content.type = '' @ quoted ''reflection'' @ '';'') =
    Inr (SelectStmt [AggExpr AggCount (FieldRef ''*'' 1 14) (Some ''count'') None 1 8] (FromClause ''decisions'' 1 26)
      (Some (Comparison (FieldRef ''content.type'' 1 47) OpEq (PStr ''reflection'') 1 60)) None None True)"
  by code_simp

lemma parse_escalations: "parse_sql (''SELECT COUNT(*) AS count FROM decisions WHERE content.type = '' @ quoted ''escalation'' @ '';'') =
    Inr (SelectStmt [AggExpr AggCount (FieldRef ''*'' 1 14) (Some ''count'') None 1 8] (FromClause ''decisions'' 1 26)
      (Some (Comparison (FieldRef ''content.type'' 1 47) OpEq (PStr ''escalation'') 1 60)) None None True)"
  by code_simp

lemma parse_invalid: "parse_sql ''SELECT COUNT(*) AS count FROM outputs WHERE content.valid = false;'' =
    Inr (SelectStmt [AggExpr AggCount (FieldRef ''*'' 1 14) (Some ''count'') None 1 8] (FromClause ''outputs'' 1 26)
      (Some (Comparison (FieldRef ''content.valid'' 1 45) OpEq (PBool False) 1 59)) None None True)"
  by code_simp

lemma parse_outputs: "parse_sql ''SELECT COUNT(*) AS count FROM outputs;'' =
    Inr (SelectStmt [AggExpr AggCount (FieldRef ''*'' 1 14) (Some ''count'') None 1 8] (FromClause ''outputs'' 1 26)
      None None None True)"
  by code_simp

lemma parse_successes: "parse_sql ''SELECT COUNT(*) AS count FROM experiences WHERE content.success = true;'' =
    Inr (SelectStmt [AggExpr AggCount (FieldRef ''*'' 1 14) (Some ''count'') None 1 8] (FromClause ''experiences'' 1 26)
      (Some (Comparison (FieldRef ''content.success'' 1 49) OpEq (PBool True) 1 65)) None None True)"
  by code_simp

lemma parse_experiences: "parse_sql ''SELECT COUNT(*) AS count FROM experiences;'' =
    Inr (SelectStmt [AggExpr AggCount (FieldRef ''*'' 1 14) (Some ''count'') None 1 8] (FromClause ''experiences'' 1 26)
      None None None True)"
  by code_simp

lemmas metric_queries = parse_all_tasks parse_failures parse_completed parse_failed parse_durations parse_costs
  parse_scores parse_reflections parse_escalations parse_invalid parse_outputs parse_successes parse_experiences

text \<open>The types named by the queries, in the plural.\<close>

lemma metric_types: "parse_node_type ''tasks'' = Inr N_TASK" "parse_node_type ''failures'' = Inr N_FAILURE"
  "parse_node_type ''decisions'' = Inr N_DECISION" "parse_node_type ''outputs'' = Inr N_OUTPUT"
  "parse_node_type ''experiences'' = Inr N_EXPERIENCE" "parse_node_type ''feedbacks'' = Inr N_FEEDBACK"
  by code_simp+

subsection \<open>What the metrics are\<close>

text \<open>The reference: nodes of a type, counted, and the numbers found under a key of their content.\<close>

definition count_of :: "graph \<Rightarrow> node_type \<Rightarrow> int" where
  "count_of g ty = int (length (find_nodes g (Some ty) []))"

definition count_with :: "graph \<Rightarrow> node_type \<Rightarrow> (graph_node \<Rightarrow> pyval) \<Rightarrow> pyval \<Rightarrow> int" where
  "count_with g ty fld v = int (length (filter (\<lambda>n. py_eq (fld n) v) (find_nodes g (Some ty) [])))"

definition numbers_of :: "graph \<Rightarrow> node_type \<Rightarrow> string \<Rightarrow> rat list" where
  "numbers_of g ty key = List.map_filter (\<lambda>n. py_float (dict_get_or (gn_content n) key PNone)) (find_nodes g (Some ty) [])"

definition mean_of :: "rat list \<Rightarrow> rat" where
  "mean_of xs = (if xs = [] then 0 else sum_list xs / of_nat (length xs))"

definition content_of :: "string \<Rightarrow> graph_node \<Rightarrow> pyval" where
  "content_of key n = dict_get_or (gn_content n) key PNone"

definition status_of :: "graph_node \<Rightarrow> pyval" where
  "status_of n = (case dict_get (gn_content n) ''status'' of Some v \<Rightarrow> v | None \<Rightarrow> dict_get_or (gn_metadata n) ''status'' PNone)"

lemma resolve_content: "resolve_field n (FieldRef ''content.valid'' l c) = content_of ''valid'' n"
  "resolve_field n (FieldRef ''content.type'' l c) = content_of ''type'' n"
  "resolve_field n (FieldRef ''content.success'' l c) = content_of ''success'' n"
  "resolve_field n (FieldRef ''content.duration_seconds'' l c) = content_of ''duration_seconds'' n"
  "resolve_field n (FieldRef ''content.cost'' l c) = content_of ''cost'' n"
  "resolve_field n (FieldRef ''content.score'' l c) = content_of ''score'' n"
  "resolve_field n (FieldRef ''status'' l c) = status_of n"
  by (simp_all add: resolve_field_def content_of_def status_of_def content_prefix_def metadata_prefix_def Let_def)

lemma compare_eq: "v \<noteq> PNone \<Longrightarrow> compare x OpEq v = py_eq x v"
  by (cases "x = PNone"; cases v) (auto simp: compare_def)

lemma filter_res_pure: "filter_res (\<lambda>x. Inr (p x)) xs = Inr (filter p xs)"
  by (induction xs) auto

lemma count_all_query:
  assumes "parse_sql sql = Inr (SelectStmt [AggExpr AggCount (FieldRef ''*'' l c) (Some ''count'') None l' c']
      (FromClause t l'' c'') None None None True)"
    and "parse_node_type t = Inr ty"
  shows "safe_count lib g sql = count_of g ty"
  using assms
  by (simp add: safe_count_def safe_query_def query_def rbind_def agg_result_def agg_key_def alias_or_def query_result_of_def
      Let_def count_of_def dict_get_or_def py_trunc_def)

lemma count_where_query:
  assumes "parse_sql sql = Inr (SelectStmt [AggExpr AggCount (FieldRef ''*'' l c) (Some ''count'') None l' c']
      (FromClause t l'' c'') (Some (Comparison f OpEq v l3 c3)) None None True)"
    and "parse_node_type t = Inr ty" and "v \<noteq> PNone" and "\<And>n. resolve_field n f = fld n"
  shows "safe_count lib g sql = count_with g ty fld v"
  using assms
  by (simp add: safe_count_def safe_query_def query_def rbind_def agg_result_def agg_key_def alias_or_def query_result_of_def
      Let_def count_with_def dict_get_or_def py_trunc_def filter_res_pure compare_eq)

lemmas metric_counts =
  parse_all_tasks[THEN count_all_query, OF metric_types(1)]
  parse_failures[THEN count_all_query, OF metric_types(2)]
  parse_outputs[THEN count_all_query, OF metric_types(4)]
  parse_experiences[THEN count_all_query, OF metric_types(5)]
  parse_completed[THEN count_where_query, OF metric_types(1) _ resolve_content(7), simplified]
  parse_failed[THEN count_where_query, OF metric_types(1) _ resolve_content(7), simplified]
  parse_reflections[THEN count_where_query, OF metric_types(3) _ resolve_content(2), simplified]
  parse_escalations[THEN count_where_query, OF metric_types(3) _ resolve_content(2), simplified]
  parse_invalid[THEN count_where_query, OF metric_types(4) _ resolve_content(1), simplified]
  parse_successes[THEN count_where_query, OF metric_types(5) _ resolve_content(3), simplified]

lemma number_queries:
  "dict_get_or (safe_query lib g ''SELECT AVG(content.duration_seconds) AS avg FROM tasks;'') ''avg'' 0 =
    mean_of (numbers_of g N_TASK ''duration_seconds'')"
  "dict_get_or (safe_query lib g ''SELECT AVG(content.score) AS avg FROM feedbacks;'') ''avg'' 0 =
    mean_of (numbers_of g N_FEEDBACK ''score'')"
  "dict_get_or (safe_query lib g ''SELECT SUM(content.cost) AS sum FROM tasks;'') ''sum'' 0 =
    sum_list (numbers_of g N_TASK ''cost'')"
  by (simp_all add: safe_query_def query_def parse_durations parse_scores parse_costs metric_types rbind_def agg_result_def
      agg_key_def alias_or_def query_result_of_def Let_def dict_get_or_def resolve_content mean_of_def numbers_of_def content_of_def)

lemma count_with_bounds: "0 \<le> count_with g ty fld v" "count_with g ty fld v \<le> count_of g ty" "0 \<le> count_of g ty"
  by (simp_all add: count_with_def count_of_def)

lemma rate_unit: "0 \<le> a \<Longrightarrow> a \<le> b \<Longrightarrow> 0 \<le> d \<Longrightarrow> d \<le> 1 \<Longrightarrow> 0 \<le> rate_of d a b \<and> rate_of d a b \<le> 1"
  by (simp add: rate_of_def)

lemma round_dec_unit: "0 \<le> x \<Longrightarrow> x \<le> 1 \<Longrightarrow> 0 \<le> round_dec 4 x \<and> round_dec 4 x \<le> 1"
  using round_half_even_bounds(1)[of 0 "x * 10 ^ 4"] round_half_even_bounds(2)[of "x * 10 ^ 4" 10000]
  by (simp add: round_dec_def)

text \<open>C16: Each of the nine metrics that the queries of the query language compute is the count, mean or ratio
  over the nodes of the memory graph that it documents: the texts of the queries parse, run without an
  error, and yield the reference value; the four rates of a part to its whole lie between 0 and 1.\<close>

theorem metrics_exact:
  "map (\<lambda>(name, m). (name, mv_value m)) (calculate_all lib g) =
     [(''end_to_end_success_rate'', round_dec 4 (rate_of 1 (count_with g N_TASK status_of (PStr ''completed'')) (count_of g N_TASK))),
      (''avg_completion_time'', round_dec 2 (mean_of (numbers_of g N_TASK ''duration_seconds''))),
      (''cost_per_task'', round_dec 4 (if count_of g N_TASK > 0 then sum_list (numbers_of g N_TASK ''cost'') / of_int (count_of g N_TASK) else 0)),
      (''user_satisfaction'', round_dec 2 (mean_of (numbers_of g N_FEEDBACK ''score''))),
      (''failure_rate_by_agent'', round_dec 4 (rate_of 0 (count_with g N_TASK status_of (PStr ''failed'')) (count_of g N_TASK))),
      (''reflection_trigger_rate'', round_dec 4 (rate_of 0 (count_with g N_DECISION (content_of ''type'') (PStr ''reflection'')) (count_of g N_FAILURE))),
      (''escalation_request_rate'', round_dec 4 (rate_of 0 (count_with g N_DECISION (content_of ''type'') (PStr ''escalation'')) (count_of g N_FAILURE))),
      (''validation_failure_rate'', round_dec 4 (rate_of 0 (count_with g N_OUTPUT (content_of ''valid'') (PBool False)) (count_of g N_OUTPUT))),
      (''experience_effectiveness'', round_dec 4 (rate_of 0 (count_with g N_EXPERIENCE (content_of ''success'') (PBool True)) (count_of g N_EXPERIENCE)))] \<and>
   list_all (\<lambda>m. 0 \<le> mv_value m \<and> mv_value m \<le> 1)
     [end_to_end_success_rate lib g, failure_rate_by_agent lib g, validation_failure_rate lib g, experience_effectiveness lib g]"
  by (simp add: calculate_all_def end_to_end_success_rate_def avg_completion_time_def cost_per_task_def user_satisfaction_def
      failure_rate_by_agent_def reflection_trigger_rate_def escalation_request_rate_def validation_failure_rate_def
      experience_effectiveness_def Let_def metric_counts number_queries round_dec_unit rate_unit count_with_bounds)

text \<open>The first metric is the one of the implementation of before, rounded, wherever a task keeps its status
  in its content.\<close>

lemma success_rate_as_legacy:
  assumes "\<And>n. n \<in> set (find_nodes g (Some N_TASK) []) \<Longrightarrow> dict_get (gn_content n) ''status'' \<noteq> None"
  shows "mv_value (end_to_end_success_rate lib g) = round_dec 4 (legacy_end_to_end_success_rate g)"
proof -
  have "filter (\<lambda>n. py_eq (status_of n) (PStr ''completed'')) (find_nodes g (Some N_TASK) []) =
      filter (\<lambda>n. py_eq (dict_get_or (gn_content n) ''status'' PNone) (PStr ''completed'')) (find_nodes g (Some N_TASK) [])"
    by (rule filter_cong[OF refl]) (use assms in \<open>fastforce simp: status_of_def dict_get_or_def split: option.splits\<close>)
  then show ?thesis
    by (simp add: end_to_end_success_rate_def Let_def metric_counts legacy_end_to_end_success_rate_def rate_of_def
        count_with_def count_of_def)
qed

subsection \<open>What the tracer keeps\<close>

lemma end_span_keeps:
  assumes "length (tr_spans tr) \<le> tr_max_spans tr" and "0 < tr_max_spans tr"
  shows "length (tr_spans (fst (end_span tr sp status now))) \<le> tr_max_spans (fst (end_span tr sp status now))"
    and "last (tr_spans (fst (end_span tr sp status now))) = snd (end_span tr sp status now)"
  using assms by (simp_all add: end_span_def Let_def last_slice_def)

lemma end_span_suffix:
  "\<exists>k. tr_spans (fst (end_span tr sp status now)) = drop k (tr_spans tr @ [snd (end_span tr sp status now)])"
  by (simp add: end_span_def Let_def last_slice_def del: drop_append) (metis drop0)

lemma recent_spans_whole_for_zero: "get_recent_spans tr 0 = tr_spans tr"
  by (simp add: get_recent_spans_def last_slice_def)

end
