(* ===== verification/Token_Auth.thy ===== *)
theory Token_Auth
  imports Access_Control Memory_Graph
begin

section \<open>Tokens, keys and the current tenant (core/auth/jwt.py, core/auth/context.py, api/routes/auth.py)\<close>

text \<open>
  The service that issues and verifies tokens, the parsing of its key lists, the key ring with its rotation, the
  public key document, the request middleware with the two context variables, and the token route.
  The signature scheme and the key loader are packages: \<open>jwt_lib\<close> holds the functions of theirs that the
  code calls, and \<open>jwt_laws\<close> what it relies on. \<open>encode\<close> is \<^const>\<open>None\<close> when the package raises, and
  \<open>jl_int_text\<close> is pydantic's reading of an integer from a text.
\<close>

subsection \<open>Data\<close>

record token_payload =
  tp_sub :: string
  tp_tenant_id :: string
  tp_role :: string
  tp_scopes :: "string list"
  tp_iat :: int
  tp_exp :: int

record auth_key =
  ak_kid :: string
  ak_material :: string
  ak_is_private :: bool

datatype algorithm = RS256 | HS256

datatype jwt_error = ExpiredSignature | InvalidToken | OtherJwtError

datatype loaded_key = LoadFails | NotRsa | RsaKey string

record jwt_lib =
  jl_public_pem :: "string \<Rightarrow> loaded_key"
  jl_numbers :: "string \<Rightarrow> (nat \<times> nat) option"
  jl_encode :: "algorithm \<Rightarrow> string \<Rightarrow> pydict \<Rightarrow> pydict \<Rightarrow> string option"
  jl_peek :: "string \<Rightarrow> pydict option"
  jl_decode :: "algorithm \<Rightarrow> string \<Rightarrow> rat \<Rightarrow> string \<Rightarrow> jwt_error + pydict"
  jl_int_text :: "string \<Rightarrow> int option"

datatype auth_error = AuthRuntimeError string | AuthValueError string | AuthTypeError string | KeyLoadError
  | AuthValidationError | AuthJwtError | HttpError int string

record auth_environ =
  ae_private_key :: "string option"
  ae_public_keys :: "string option"
  ae_signing_kid :: "string option"
  ae_secrets :: "string option"
  ae_secret :: "string option"

record auth_service =
  as_algorithm :: algorithm
  as_signing_key :: auth_key
  as_signing_kid :: string
  as_verify_keys :: "auth_key list"
  as_current_kid :: string
  as_current_secret :: "string option"
  as_default_ttl :: int

subsection \<open>Key lists\<close>

text \<open>\<open>s.split(c)\<close> for a separator of one character, and \<open>s.split(c, 1)\<close>.\<close>

fun split_on :: "char \<Rightarrow> string \<Rightarrow> string list" where
  "split_on c [] = [[]]"
| "split_on c (x # xs) =
     (if x = c then [] # split_on c xs
      else case split_on c xs of [] \<Rightarrow> [[x]] | s # ss \<Rightarrow> (x # s) # ss)"

definition split_once :: "char \<Rightarrow> string \<Rightarrow> string \<times> string" where
  "split_once c s = (let a = takeWhile (\<lambda>x. x \<noteq> c) s in (a, drop (length a + 1) s))"

fun parse_entries :: "string list \<Rightarrow> (string \<times> string) list \<Rightarrow> auth_error + (string \<times> string) list" where
  "parse_entries [] result =
     (if result = [] then Inl (AuthValueError ''AUTH_SECRETS is empty'') else Inr result)"
| "parse_entries (e # es) result =
     (let entry = strip e in
      if entry = [] then parse_entries es result
      else if CHR '':'' \<notin> set entry then parse_entries es (result @ [(''key'' @ show_int (int (length result)), entry)])
      else let kid = strip (fst (split_once CHR '':'' entry)); sec = strip (snd (split_once CHR '':'' entry)) in
        if kid = [] \<or> sec = []
        then Inl (AuthValueError (''Invalid AUTH_SECRETS entry: '' @ repr_str entry @ ''. Expected format '' @
               [CHR 0x27] @ ''kid:secret'' @ [CHR 0x27]))
        else parse_entries es (result @ [(kid, sec)]))"

definition parse_auth_secrets :: "string \<Rightarrow> auth_error + (string \<times> string) list" where
  "parse_auth_secrets raw = parse_entries (split_on CHR '','' raw) []"

definition dashes :: string where "dashes = ''-----''"

definition flush_pem :: "string option \<Rightarrow> string list \<Rightarrow> (string \<times> string) list \<Rightarrow> (string \<times> string) list" where
  "flush_pem kid pem_lines out =
     (case kid of None \<Rightarrow> out | Some k \<Rightarrow> out @ [(k, join_with [CHR 0x0A] pem_lines)])"

fun pem_loop :: "string list \<Rightarrow> string option \<Rightarrow> string list \<Rightarrow> (string \<times> string) list \<Rightarrow> (string \<times> string) list" where
  "pem_loop [] kid pem_lines out = flush_pem kid pem_lines out"
| "pem_loop (c # cs) kid pem_lines out =
     (let chunk = strip c in
      if chunk = [] then pem_loop cs kid pem_lines out
      else if prefix dashes chunk \<and> pem_lines \<noteq> [] then pem_loop cs kid (pem_lines @ [chunk]) out
      else if CHR '':'' \<in> set chunk \<and> \<not> prefix dashes chunk
      then pem_loop cs (Some (strip (fst (split_once CHR '':'' chunk)))) [strip (snd (split_once CHR '':'' chunk))]
             (flush_pem kid pem_lines out)
      else pem_loop cs kid (if kid = None then pem_lines else pem_lines @ [chunk]) (flush_pem kid pem_lines out))"

definition parse_kv_pem_list :: "string \<Rightarrow> (string \<times> string) list" where
  "parse_kv_pem_list raw = pem_loop (split_on CHR '','' raw) None [] []"

subsection \<open>The service\<close>

definition stripped :: "string option \<Rightarrow> string" where
  "stripped v = (case v of None \<Rightarrow> [] | Some s \<Rightarrow> strip s)"

definition first_text :: "string option \<Rightarrow> string \<Rightarrow> string" where
  "first_text v dflt = (case v of None \<Rightarrow> dflt | Some s \<Rightarrow> if s = [] then dflt else s)"

definition public_key :: "string \<times> string \<Rightarrow> auth_key" where
  "public_key kp = \<lparr> ak_kid = fst kp, ak_material = snd kp, ak_is_private = False \<rparr>"

text \<open>The two loops over key lists: an entry is skipped when its \<open>kid\<close> is there already.\<close>

fun register_keys :: "(string \<times> string) list \<Rightarrow> auth_key list \<times> string set \<Rightarrow> auth_key list \<times> string set" where
  "register_keys [] st = st"
| "register_keys (kp # kps) (ks, seen) =
     (if fst kp \<in> seen then register_keys kps (ks, seen)
      else register_keys kps (ks @ [public_key kp], insert (fst kp) seen))"

definition rs256_ring :: "(string \<times> string) list \<Rightarrow> string \<Rightarrow> string \<Rightarrow> string \<Rightarrow> auth_key list" where
  "rs256_ring explicit_keys env_public signing_kid derived =
     (let (ks1, seen1) = register_keys explicit_keys ([], {});
          (ks, seen) = (if env_public = [] then (ks1, seen1) else register_keys (parse_kv_pem_list env_public) (ks1, seen1));
          need_derived = (signing_kid \<notin> seen \<or> \<not> list_ex (\<lambda>k. ak_material k = derived) ks)
      in if need_derived then ks @ [public_key (signing_kid, derived)] else ks)"

definition new_auth_service ::
  "jwt_lib \<Rightarrow> auth_environ \<Rightarrow> string option \<Rightarrow> int \<Rightarrow> string option \<Rightarrow> (string \<times> string) list option \<Rightarrow>
   string option \<Rightarrow> auth_error + auth_service" where
  "new_auth_service lib env secret default_ttl private_pem public_pems signing_kid =
     (let env_private = stripped (ae_private_key env);
          priv = first_text private_pem env_private;
          kid = first_text signing_kid (first_text (Some (stripped (ae_signing_kid env))) ''current'')
      in if priv \<noteq> [] then
           (case jl_public_pem lib priv of
              LoadFails \<Rightarrow> Inl KeyLoadError
            | NotRsa \<Rightarrow> Inl (AuthTypeError ''AUTH_PRIVATE_KEY is not an RSA private key'')
            | RsaKey derived \<Rightarrow>
                Inr \<lparr> as_algorithm = RS256, as_signing_key = \<lparr> ak_kid = kid, ak_material = priv, ak_is_private = True \<rparr>,
                      as_signing_kid = kid,
                      as_verify_keys = rs256_ring (case public_pems of None \<Rightarrow> [] | Some ps \<Rightarrow> ps)
                        (stripped (ae_public_keys env)) kid derived,
                      as_current_kid = kid, as_current_secret = None, as_default_ttl = default_ttl \<rparr>)
         else
           (let secrets_env = stripped (ae_secrets env); secret_env = stripped (ae_secret env);
                secrets = (if first_text secret [] \<noteq> [] then Inr [(''default'', first_text secret [])]
                   else if secrets_env \<noteq> [] then parse_auth_secrets secrets_env
                   else if secret_env \<noteq> [] then Inr [(''default'', secret_env)]
                   else Inl (AuthRuntimeError (''No JWT credentials configured. Set one of: '' @
                          ''AUTH_PRIVATE_KEY (RS256), AUTH_SECRETS (HS256 multi-key), AUTH_SECRET (HS256 single-key).'')))
            in case secrets of
                 Inl e \<Rightarrow> Inl e
               | Inr [] \<Rightarrow> Inl (AuthRuntimeError ''No valid secrets configured'')
               | Inr ((k, s) # rest) \<Rightarrow>
                   Inr \<lparr> as_algorithm = HS256, as_signing_key = \<lparr> ak_kid = k, ak_material = s, ak_is_private = True \<rparr>,
                         as_signing_kid = k, as_verify_keys = map public_key ((k, s) # rest),
                         as_current_kid = k, as_current_secret = Some s, as_default_ttl = default_ttl \<rparr>))"

text \<open>\<open>get_auth_service\<close>: the service of the process, made at the first call.\<close>

definition get_auth_service ::
  "jwt_lib \<Rightarrow> auth_environ \<Rightarrow> auth_service option \<Rightarrow> (auth_error + auth_service) \<times> auth_service option" where
  "get_auth_service lib env current =
     (case current of
        Some s \<Rightarrow> (Inr s, Some s)
      | None \<Rightarrow> (case new_auth_service lib env None 3600 None None None of
                  Inl e \<Rightarrow> (Inl e, None)
                | Inr s \<Rightarrow> (Inr s, Some s)))"

definition get_keys_for_rotation :: "auth_service \<Rightarrow> (string \<times> string) list" where
  "get_keys_for_rotation svc = map (\<lambda>k. (ak_kid k, ak_material k)) (as_verify_keys svc)"

subsection \<open>The public key document\<close>

text \<open>\<open>n.to_bytes((n.bit_length() + 7) // 8, "big")\<close>\<close>

fun big_endian :: "nat \<Rightarrow> nat list" where
  "big_endian n = (if n = 0 then [] else big_endian (n div 256) @ [n mod 256])"

declare big_endian.simps [simp del]

definition b64_alphabet :: string where
  "b64_alphabet = ''ABCDEFGHIJKLMNOPQRSTUVWXYZabcdefghijklmnopqrstuvwxyz0123456789-_''"

definition b64_char :: "nat \<Rightarrow> char" where
  "b64_char i = b64_alphabet ! i"

text \<open>\<open>base64.urlsafe_b64encode(b).rstrip(b"=")\<close>\<close>

fun b64url :: "nat list \<Rightarrow> string" where
  "b64url [] = []"
| "b64url [a] = [b64_char (a div 4), b64_char (a mod 4 * 16)]"
| "b64url [a, b] = [b64_char (a div 4), b64_char (a mod 4 * 16 + b div 16), b64_char (b mod 16 * 4)]"
| "b64url (a # b # c # rest) =
     [b64_char (a div 4), b64_char (a mod 4 * 16 + b div 16), b64_char (b mod 16 * 4 + c div 64), b64_char (c mod 64)] @
     b64url rest"

definition b64url_uint :: "nat \<Rightarrow> string" where
  "b64url_uint n = b64url (big_endian n)"

fun jwks_loop :: "jwt_lib \<Rightarrow> auth_service \<Rightarrow> auth_key list \<Rightarrow> string set \<Rightarrow>
    (string, string) dict list \<Rightarrow> auth_error + (string, string) dict list" where
  "jwks_loop lib svc [] seen keys = Inr keys"
| "jwks_loop lib svc (k # ks) seen keys =
     (if as_algorithm svc \<noteq> RS256 \<or> ak_is_private k then jwks_loop lib svc ks seen keys
      else if ak_kid k \<in> seen then jwks_loop lib svc ks seen keys
      else case jl_numbers lib (ak_material k) of
             None \<Rightarrow> Inl KeyLoadError
           | Some (n, e) \<Rightarrow> jwks_loop lib svc ks (insert (ak_kid k) seen)
               (keys @ [[(''kty'', ''RSA''), (''kid'', ak_kid k), (''use'', ''sig''), (''alg'', ''RS256''),
                         (''n'', b64url_uint n), (''e'', b64url_uint e)]]))"

definition get_jwks :: "jwt_lib \<Rightarrow> auth_service \<Rightarrow> auth_error + (string, string) dict list" where
  "get_jwks lib svc = jwks_loop lib svc (as_verify_keys svc) {} []"

subsection \<open>Issuing and verifying\<close>

definition or_ttl :: "int option \<Rightarrow> int \<Rightarrow> int" where
  "or_ttl ttl dflt = (case ttl of None \<Rightarrow> dflt | Some t \<Rightarrow> if t = 0 then dflt else t)"

definition claims_of :: "auth_service \<Rightarrow> string \<Rightarrow> string \<Rightarrow> string \<Rightarrow> string list option \<Rightarrow> int option \<Rightarrow> rat \<Rightarrow> pydict" where
  "claims_of svc user_id tenant_id role scopes ttl now =
     (let issued = py_trunc now in
      [(''sub'', PStr user_id), (''tenant_id'', PStr tenant_id), (''role'', PStr role),
       (''scopes'', PList (map PStr (case scopes of None \<Rightarrow> [] | Some ss \<Rightarrow> ss))), (''iat'', PInt issued),
       (''exp'', PInt (issued + or_ttl ttl (as_default_ttl svc))), (''kid'', PStr (as_signing_kid svc))])"

definition issue_token ::
  "jwt_lib \<Rightarrow> auth_service \<Rightarrow> string \<Rightarrow> string \<Rightarrow> string \<Rightarrow> string list option \<Rightarrow> int option \<Rightarrow> rat \<Rightarrow> auth_error + string" where
  "issue_token lib svc user_id tenant_id role scopes ttl now =
     (case jl_encode lib (as_algorithm svc) (ak_material (as_signing_key svc))
             (if as_algorithm svc = RS256 then [(''kid'', PStr (as_signing_kid svc))] else [])
             (claims_of svc user_id tenant_id role scopes ttl now) of
        None \<Rightarrow> Inl AuthJwtError | Some t \<Rightarrow> Inr t)"

definition resolve_verify_key :: "auth_service \<Rightarrow> pyval \<Rightarrow> auth_key" where
  "resolve_verify_key svc kid =
     (case (if py_truthy kid then find (\<lambda>k. py_eq (PStr (ak_kid k)) kid) (as_verify_keys svc) else None) of
        Some k \<Rightarrow> k | None \<Rightarrow> hd (as_verify_keys svc))"

text \<open>\<open>TokenPayload(**data)\<close> with pydantic's conversions of integers; other entries are ignored.\<close>

definition lax_int :: "jwt_lib \<Rightarrow> pyval \<Rightarrow> int option" where
  "lax_int lib v =
     (case v of PInt i \<Rightarrow> Some i | PBool b \<Rightarrow> Some (if b then 1 else 0)
      | PFloat r \<Rightarrow> if of_int (floor r) = r then Some (floor r) else None
      | PStr s \<Rightarrow> jl_int_text lib s | _ \<Rightarrow> None)"

definition field_text :: "pydict \<Rightarrow> string \<Rightarrow> string option \<Rightarrow> string option" where
  "field_text d k dflt = (case dict_get d k of None \<Rightarrow> dflt | Some (PStr s) \<Rightarrow> Some s | Some _ \<Rightarrow> None)"

definition field_int :: "jwt_lib \<Rightarrow> pydict \<Rightarrow> string \<Rightarrow> int option" where
  "field_int lib d k = (case dict_get d k of None \<Rightarrow> Some 0 | Some v \<Rightarrow> lax_int lib v)"

fun text_list :: "pyval list \<Rightarrow> string list option" where
  "text_list [] = Some []"
| "text_list (PStr s # vs) = map_option ((#) s) (text_list vs)"
| "text_list (v # vs) = None"

definition field_texts :: "pydict \<Rightarrow> string \<Rightarrow> string list option" where
  "field_texts d k = (case dict_get d k of None \<Rightarrow> Some [] | Some (PList vs) \<Rightarrow> text_list vs | Some _ \<Rightarrow> None)"

definition token_payload_of :: "jwt_lib \<Rightarrow> pydict \<Rightarrow> auth_error + token_payload" where
  "token_payload_of lib d =
     (case (field_text d ''sub'' None, field_text d ''tenant_id'' (Some ''default''), field_text d ''role'' (Some ''user''),
            field_texts d ''scopes'', field_int lib d ''iat'', field_int lib d ''exp'') of
        (Some s, Some t, Some r, Some sc, Some i, Some e) \<Rightarrow>
          Inr \<lparr> tp_sub = s, tp_tenant_id = t, tp_role = r, tp_scopes = sc, tp_iat = i, tp_exp = e \<rparr>
      | _ \<Rightarrow> Inl AuthValidationError)"

definition verify_token :: "jwt_lib \<Rightarrow> auth_service \<Rightarrow> rat \<Rightarrow> string \<Rightarrow> auth_error + token_payload option" where
  "verify_token lib svc now token =
     (let kid = (case jl_peek lib token of None \<Rightarrow> PNone | Some d \<Rightarrow> dict_get_or d ''kid'' PNone);
          key = resolve_verify_key svc kid
      in case jl_decode lib (as_algorithm svc) (ak_material key) now token of
           Inl ExpiredSignature \<Rightarrow> Inr None
         | Inl InvalidToken \<Rightarrow> Inr None
         | Inl OtherJwtError \<Rightarrow> Inl AuthJwtError
         | Inr d \<Rightarrow> (case token_payload_of lib d of Inl e \<Rightarrow> Inl e | Inr p \<Rightarrow> Inr (Some p)))"

definition role_from_str :: "string \<Rightarrow> global_role" where
  "role_from_str s =
     (case find (\<lambda>r. role_value r = s) [PLATFORM_ADMIN, TENANT_ADMIN, GROUP_ADMIN, USER, AGENT, VIEWER] of
        Some r \<Rightarrow> r | None \<Rightarrow> USER)"

definition user_from_payload :: "token_payload \<Rightarrow> user" where
  "user_from_payload p =
     \<lparr> usr_id = tp_sub p, usr_tenant_id = tp_tenant_id p, usr_email = [], usr_display_name = [],
       usr_global_role = role_from_str (tp_role p), usr_group_ids = [], usr_perm_group_ids = [], usr_project_ids = [],
       usr_is_agent = False, usr_status = ''active'' \<rparr>"

subsection \<open>The context variables\<close>

text \<open>\<open>_UserStub\<close> has the fields that the access control reads of a \<open>UserContext\<close>, and is passed to it in its place.\<close>

type_synonym user_stub = user_context

record tenant_context =
  tc_user :: "user_stub option"
  tc_tenant_id :: string
  tc_group_ids :: "string list"
  tc_request_id :: string

record context_vars =
  cv_tenant :: "tenant_context option"
  cv_user :: "user option"

text \<open>The token of \<open>set\<close> is the value of before, which \<open>reset\<close> puts back.\<close>

datatype 'a var_token = VarToken "'a option"

definition get_current_tenant :: "context_vars \<Rightarrow> tenant_context option" where
  "get_current_tenant cv = cv_tenant cv"

definition set_tenant_context :: "tenant_context option \<Rightarrow> context_vars \<Rightarrow> tenant_context var_token \<times> context_vars" where
  "set_tenant_context c cv = (VarToken (cv_tenant cv), cv \<lparr> cv_tenant := c \<rparr>)"

fun reset_tenant_context :: "tenant_context var_token \<Rightarrow> context_vars \<Rightarrow> context_vars" where
  "reset_tenant_context (VarToken old) cv = cv \<lparr> cv_tenant := old \<rparr>"

definition get_current_user :: "context_vars \<Rightarrow> user option" where
  "get_current_user cv = cv_user cv"

definition set_current_user :: "user option \<Rightarrow> context_vars \<Rightarrow> user var_token \<times> context_vars" where
  "set_current_user u cv = (VarToken (cv_user cv), cv \<lparr> cv_user := u \<rparr>)"

fun reset_current_user :: "user var_token \<Rightarrow> context_vars \<Rightarrow> context_vars" where
  "reset_current_user (VarToken old) cv = cv \<lparr> cv_user := old \<rparr>"

text \<open>\<open>with tenant_scope(ctx): body\<close>, whether the body returns or raises.\<close>

definition tenant_scope :: "tenant_context \<Rightarrow> (context_vars \<Rightarrow> 'r \<times> context_vars) \<Rightarrow> context_vars \<Rightarrow> 'r \<times> context_vars" where
  "tenant_scope ctx body cv =
     (let (token, cv1) = set_tenant_context (Some ctx) cv; (r, cv2) = body cv1 in (r, reset_tenant_context token cv2))"

subsection \<open>Requests\<close>

definition bearer :: string where "bearer = ''bearer ''"

definition extract_bearer :: "string option \<Rightarrow> string option" where
  "extract_bearer authorization =
     (case authorization of
        None \<Rightarrow> None
      | Some a \<Rightarrow> if a = [] then None else if prefix bearer (lower a) then Some (drop 7 a) else Some a)"

definition require_auth :: "jwt_lib \<Rightarrow> auth_service \<Rightarrow> rat \<Rightarrow> string option \<Rightarrow> auth_error + user" where
  "require_auth lib svc now authorization =
     (case extract_bearer authorization of
        None \<Rightarrow> Inl (HttpError 401 ''Missing or invalid Authorization header'')
      | Some token \<Rightarrow>
          if token = [] then Inl (HttpError 401 ''Missing or invalid Authorization header'')
          else case verify_token lib svc now token of
                 Inl e \<Rightarrow> Inl e
               | Inr None \<Rightarrow> Inl (HttpError 401 ''Invalid or expired token'')
               | Inr (Some p) \<Rightarrow> Inr (user_from_payload p))"

definition context_of_user :: "user \<Rightarrow> tenant_context" where
  "context_of_user u =
     \<lparr> tc_user = Some \<lparr> uc_user_id = usr_id u, uc_tenant_id = usr_tenant_id u, uc_global_role = role_value (usr_global_role u),
                       uc_perm_group_ids = usr_perm_group_ids u, uc_group_ids = usr_group_ids u,
                       uc_project_ids = usr_project_ids u, uc_is_agent = False \<rparr>,
       tc_tenant_id = usr_tenant_id u, tc_group_ids = usr_group_ids u, tc_request_id = [] \<rparr>"

text \<open>
  The middleware around an application: headers are name and value, a later one of a name winning; the result
  of the application may itself be an exception, and the context variables are put back in both cases.
\<close>

definition request_user :: "jwt_lib \<Rightarrow> auth_service \<Rightarrow> rat \<Rightarrow> (string \<times> string) list \<Rightarrow> auth_error + user option" where
  "request_user lib svc now headers =
     (let header = dict_get_or (foldl (\<lambda>d (k, v). dict_set d k v) [] headers) ''authorization'' [];
          token = first_text (extract_bearer (Some header)) []
      in if token = [] then Inr None
         else case verify_token lib svc now token of
                Inl e \<Rightarrow> Inl e
              | Inr None \<Rightarrow> Inr None
              | Inr (Some p) \<Rightarrow> Inr (Some (user_from_payload p)))"

definition auth_middleware ::
  "jwt_lib \<Rightarrow> auth_service \<Rightarrow> rat \<Rightarrow> (context_vars \<Rightarrow> 'r \<times> context_vars) \<Rightarrow> string \<Rightarrow> (string \<times> string) list \<Rightarrow>
   context_vars \<Rightarrow> (auth_error + 'r) \<times> context_vars" where
  "auth_middleware lib svc now app scope_type headers cv =
     (if scope_type \<noteq> ''http'' then (let (r, cv') = app cv in (Inr r, cv'))
      else case request_user lib svc now headers of
             Inl e \<Rightarrow> (Inl e, cv)
           | Inr None \<Rightarrow> (let (r, cv') = app cv in (Inr r, cv'))
           | Inr (Some u) \<Rightarrow>
               (let (ctx_token, cv1) = set_tenant_context (Some (context_of_user u)) cv;
                    (user_token, cv2) = set_current_user (Some u) cv1;
                    (r, cv3) = app cv2
                in (Inr r, reset_current_user user_token (reset_tenant_context ctx_token cv3))))"

text \<open>The route that issues a token.\<close>

record token_request =
  trq_user_id :: string
  trq_tenant_id :: string
  trq_role :: string
  trq_ttl :: "int option"

record token_response =
  trs_access_token :: string
  trs_expires_in :: int

definition issue_token_route :: "jwt_lib \<Rightarrow> auth_service \<Rightarrow> token_request \<Rightarrow> rat \<Rightarrow> auth_error + token_response" where
  "issue_token_route lib svc req now =
     (let ttl = or_ttl (trq_ttl req) 3600 in
      case issue_token lib svc (trq_user_id req) (trq_tenant_id req) (trq_role req) None (Some ttl) now of
        Inl e \<Rightarrow> Inl e
      | Inr t \<Rightarrow> Inr \<lparr> trs_access_token = t, trs_expires_in = ttl \<rparr>)"

definition jwks_route :: "jwt_lib \<Rightarrow> auth_service \<Rightarrow> auth_error + (string, string) dict list" where
  "jwks_route lib svc = get_jwks lib svc"

subsection \<open>The encoding of the key numbers is invertible\<close>

definition b64_value :: "char \<Rightarrow> nat" where
  "b64_value c = length (takeWhile (\<lambda>x. x \<noteq> c) b64_alphabet)"

fun b64url_inv :: "string \<Rightarrow> nat list" where
  "b64url_inv (p # q # r # s # rest) =
     (b64_value p * 4 + b64_value q div 16) # (b64_value q mod 16 * 16 + b64_value r div 4) #
     (b64_value r mod 4 * 64 + b64_value s) # b64url_inv rest"
| "b64url_inv [p, q, r] = [b64_value p * 4 + b64_value q div 16, b64_value q mod 16 * 16 + b64_value r div 4]"
| "b64url_inv [p, q] = [b64_value p * 4 + b64_value q div 16]"
| "b64url_inv [p] = []"
| "b64url_inv [] = []"

definition number_of :: "nat list \<Rightarrow> nat" where
  "number_of bs = foldl (\<lambda>n b. n * 256 + b) 0 bs"

lemma b64_all: "\<forall>i \<in> set [0..<64]. b64_value (b64_char i) = i"
  by code_simp

lemma b64_value_char [simp]: "i < 64 \<Longrightarrow> b64_value (b64_char i) = i"
  using b64_all by simp

lemma big_endian_bytes: "b \<in> set (big_endian n) \<Longrightarrow> b < 256"
proof (induction n rule: big_endian.induct)
  case (1 n)
  then show ?case by (subst (asm) (2) big_endian.simps) (auto split: if_splits)
qed

lemma number_of_big_endian: "number_of (big_endian n) = n"
proof (induction n rule: big_endian.induct)
  case (1 n)
  then show ?case by (subst big_endian.simps) (simp add: number_of_def)
qed

lemma byte_parts:
  fixes a b :: nat
  shows "a < 256 \<Longrightarrow> a div 4 < 64" "a mod 4 * 16 < 64" "b < 256 \<Longrightarrow> a mod 4 * 16 + b div 16 < 64"
    and "b mod 16 * 4 < 64" "b < 256 \<Longrightarrow> a mod 16 * 4 + b div 64 < 64" "a mod 64 < 64"
  by linarith+

lemma byte_joins:
  fixes a b :: nat
  assumes "b < 256"
  shows "(a mod 4 * 16 + b div 16) div 16 = a mod 4" "(a mod 4 * 16 + b div 16) mod 16 = b div 16"
    and "(a mod 16 * 4 + b div 64) div 4 = a mod 16" "(a mod 16 * 4 + b div 64) mod 4 = b div 64"
proof -
  have "b div 16 < 16" "b div 64 < 4" using assms by linarith+
  then show "(a mod 4 * 16 + b div 16) div 16 = a mod 4" "(a mod 4 * 16 + b div 16) mod 16 = b div 16"
    "(a mod 16 * 4 + b div 64) div 4 = a mod 16" "(a mod 16 * 4 + b div 64) mod 4 = b div 64"
    by simp_all
qed

lemma b64url_inv: "\<forall>b \<in> set bs. b < 256 \<Longrightarrow> b64url_inv (b64url bs) = bs"
proof (induction bs rule: b64url.induct)
  case (2 a)
  have "a mod 4 * 16 div 16 = a mod 4" by simp
  then show ?case using 2 by (simp add: byte_parts div_mult_mod_eq)
next
  case (3 a b)
  have "b div 16 < 16" using 3 by simp linarith
  then have "b div 16 mod 16 * 16 + b mod 16 = b" "b div 16 div 16 = 0" by simp_all
  then show ?case using 3 by (simp add: byte_parts byte_joins del: div_eq_0_iff)
next
  case (4 a b c rest)
  have "b div 16 < 16" "c div 64 < 4" using 4 by (simp, linarith)+
  then have "b div 16 mod 16 * 16 + b mod 16 = b" "b div 16 div 16 = 0" "c div 64 mod 4 * 64 + c mod 64 = c" "c div 64 div 4 = 0"
    by simp_all
  then show ?case using 4 by (simp add: byte_parts byte_joins del: div_eq_0_iff)
qed simp

lemma key_numbers_roundtrip: "number_of (b64url_inv (b64url_uint n)) = n"
  by (simp add: b64url_uint_def b64url_inv big_endian_bytes number_of_big_endian)

subsection \<open>The key ring\<close>

text \<open>The keys an operator lists, in the order they are registered.\<close>

definition listed_keys :: "auth_environ \<Rightarrow> (string \<times> string) list option \<Rightarrow> (string \<times> string) list" where
  "listed_keys env public_pems =
     (case public_pems of None \<Rightarrow> [] | Some ps \<Rightarrow> ps) @
     (if stripped (ae_public_keys env) = [] then [] else parse_kv_pem_list (stripped (ae_public_keys env)))"

definition key_named :: "string \<Rightarrow> auth_key list \<Rightarrow> auth_key option" where
  "key_named kid ks = find (\<lambda>k. ak_kid k = kid) ks"

lemma key_named_append: "key_named kid (ks @ ls) = (case key_named kid ks of None \<Rightarrow> key_named kid ls | Some k \<Rightarrow> Some k)"
  by (induction ks) (auto simp: key_named_def)

lemma key_named_Nil [simp]: "key_named kid [] = None"
  by (simp add: key_named_def)

lemma key_named_one [simp]: "key_named kid [public_key kp] = (if fst kp = kid then Some (public_key kp) else None)"
  by (simp add: key_named_def public_key_def)

lemma key_named_None: "key_named kid ks = None \<longleftrightarrow> kid \<notin> ak_kid ` set ks"
  by (force simp: key_named_def find_None_iff)

lemma register_keys_seen: "snd (register_keys kps (ks, ak_kid ` set ks)) = ak_kid ` set (fst (register_keys kps (ks, ak_kid ` set ks)))"
proof (induction kps arbitrary: ks)
  case (Cons kp kps)
  have "ak_kid ` set (ks @ [public_key kp]) = insert (fst kp) (ak_kid ` set ks)" by (simp add: public_key_def)
  then show ?case using Cons[of "ks @ [public_key kp]"] Cons[of ks] by simp
qed simp

lemma register_keys_named:
  "key_named kid (fst (register_keys kps (ks, ak_kid ` set ks))) =
     (case key_named kid ks of Some k \<Rightarrow> Some k | None \<Rightarrow> map_option (\<lambda>m. public_key (kid, m)) (map_of kps kid))"
proof (induction kps arbitrary: ks)
  case (Cons kp kps)
  have i: "ak_kid ` set (ks @ [public_key kp]) = insert (fst kp) (ak_kid ` set ks)" by (simp add: public_key_def)
  show ?case
    using Cons[of "ks @ [public_key kp]", unfolded i] Cons[of ks] key_named_None[of kid ks]
    by (cases kp) (auto simp: key_named_append split: option.splits)
qed (simp split: option.split)

lemma register_keys_append: "register_keys (kps @ lps) st = register_keys lps (register_keys kps st)"
  by (induction kps st rule: register_keys.induct) simp_all

lemma ring_named:
  assumes "d = listed_keys env public_pems"
  shows "key_named kid (rs256_ring (case public_pems of None \<Rightarrow> [] | Some ps \<Rightarrow> ps) (stripped (ae_public_keys env)) kid derived) =
     Some (public_key (kid, case map_of d kid of None \<Rightarrow> derived | Some m \<Rightarrow> m))"
proof -
  have r: "rs256_ring (case public_pems of None \<Rightarrow> [] | Some ps \<Rightarrow> ps) (stripped (ae_public_keys env)) kid derived =
    (let (ks, seen) = register_keys d ([], {}) in
     if kid \<notin> seen \<or> \<not> list_ex (\<lambda>k. ak_material k = derived) ks then ks @ [public_key (kid, derived)] else ks)"
    by (simp add: rs256_ring_def assms listed_keys_def register_keys_append Let_def split: prod.split)
  have n: "key_named kid (fst (register_keys d ([], {}))) = map_option (\<lambda>m. public_key (kid, m)) (map_of d kid)"
    using register_keys_named[of kid d "[]"] by simp
  have "snd (register_keys d ([], {})) = ak_kid ` set (fst (register_keys d ([], {})))"
    using register_keys_seen[of d "[]"] by simp
  then have "kid \<in> snd (register_keys d ([], {})) \<longleftrightarrow> map_of d kid \<noteq> None"
    using n key_named_None[of kid "fst (register_keys d ([], {}))"] by auto
  then show ?thesis
    unfolding r using n by (auto simp: split_def key_named_append Let_def split: option.splits)
qed

lemma resolve_named: "kid \<noteq> [] \<Longrightarrow> key_named kid (as_verify_keys svc) = Some k \<Longrightarrow> resolve_verify_key svc (PStr kid) = k"
  using eq_commute[of kid] by (simp add: resolve_verify_key_def key_named_def)

lemma parse_entries_nonempty: "parse_entries es result = Inr kps \<Longrightarrow> kps \<noteq> []"
  by (induction es result rule: parse_entries.induct) (auto simp: Let_def split: if_splits)

text \<open>Which key a token of the service is verified with.\<close>

lemma service_keys:
  assumes "new_auth_service lib env secret dflt priv pubs skid = Inr svc"
  shows "as_algorithm svc = HS256 \<Longrightarrow>
      ak_material (resolve_verify_key svc (PStr (as_signing_kid svc))) = ak_material (as_signing_key svc)"
    and "as_algorithm svc = RS256 \<Longrightarrow> \<exists>derived. jl_public_pem lib (ak_material (as_signing_key svc)) = RsaKey derived \<and>
      ak_material (resolve_verify_key svc (PStr (as_signing_kid svc))) =
        (case map_of (listed_keys env pubs) (as_signing_kid svc) of None \<Rightarrow> derived | Some m \<Rightarrow> m)"
    and "as_default_ttl svc = dflt"
proof -
  define kid where "kid = first_text skid (first_text (Some (stripped (ae_signing_kid env))) ''current'')"
  have kid: "kid \<noteq> []" by (auto simp: kid_def first_text_def split: option.split)
  note new = assms[unfolded new_auth_service_def Let_def, folded kid_def]
  {
    assume "as_algorithm svc = HS256"
    with new show "ak_material (resolve_verify_key svc (PStr (as_signing_kid svc))) = ak_material (as_signing_key svc)"
      by (auto simp: resolve_verify_key_def public_key_def split: if_splits loaded_key.splits sum.splits list.splits)
  next
    assume "as_algorithm svc = RS256"
    then obtain derived where d: "jl_public_pem lib (ak_material (as_signing_key svc)) = RsaKey derived"
      and k: "as_signing_kid svc = kid"
      and ks: "as_verify_keys svc = rs256_ring (case pubs of None \<Rightarrow> [] | Some ps \<Rightarrow> ps) (stripped (ae_public_keys env)) kid derived"
      using new by (auto split: if_splits loaded_key.splits sum.splits list.splits)
    have "resolve_verify_key svc (PStr kid) =
        public_key (kid, case map_of (listed_keys env pubs) kid of None \<Rightarrow> derived | Some m \<Rightarrow> m)"
      by (rule resolve_named[OF kid]) (simp add: ks ring_named[OF refl])
    with d k show "\<exists>derived. jl_public_pem lib (ak_material (as_signing_key svc)) = RsaKey derived \<and>
        ak_material (resolve_verify_key svc (PStr (as_signing_kid svc))) =
          (case map_of (listed_keys env pubs) (as_signing_kid svc) of None \<Rightarrow> derived | Some m \<Rightarrow> m)"
      by (auto simp: public_key_def)
  next
    show "as_default_ttl svc = dflt"
      using new by (auto split: if_splits loaded_key.splits sum.splits list.splits)
  }
qed

subsection \<open>A token that is issued is accepted until it expires\<close>

definition key_pair :: "jwt_lib \<Rightarrow> algorithm \<Rightarrow> string \<Rightarrow> string \<Rightarrow> bool" where
  "key_pair lib alg sk vk = (case alg of HS256 \<Rightarrow> vk = sk | RS256 \<Rightarrow> jl_public_pem lib sk = RsaKey vk)"

definition session_claims :: "pydict \<Rightarrow> int \<Rightarrow> int \<Rightarrow> bool" where
  "session_claims d issued expires \<longleftrightarrow>
     set (map fst d) = {''sub'', ''tenant_id'', ''role'', ''scopes'', ''iat'', ''exp'', ''kid''} \<and>
     (\<exists>s. dict_get d ''sub'' = Some (PStr s)) \<and> dict_get d ''iat'' = Some (PInt issued) \<and> dict_get d ''exp'' = Some (PInt expires)"

text \<open>
  What the code relies on: a token shows its claims, and decoding it with the key that belongs to the signing key
  checks the time of issue, then the expiry, and gives the claims back.
\<close>

definition jwt_laws :: "jwt_lib \<Rightarrow> bool" where
  "jwt_laws lib \<longleftrightarrow>
     (\<forall>alg sk hdr d tok i e. jl_encode lib alg sk hdr d = Some tok \<longrightarrow> session_claims d i e \<longrightarrow>
        tok \<noteq> [] \<and> jl_peek lib tok = Some d \<and>
        (\<forall>vk now. key_pair lib alg sk vk \<longrightarrow>
           jl_decode lib alg vk now tok =
             (if now < of_int i then Inl InvalidToken else if of_int e \<le> now then Inl ExpiredSignature else Inr d)))"

lemma jwt_lawsD:
  assumes "jwt_laws lib" "jl_encode lib alg sk hdr d = Some tok" "session_claims d i e"
  shows "tok \<noteq> []" "jl_peek lib tok = Some d"
    and "key_pair lib alg sk vk \<Longrightarrow> jl_decode lib alg vk now tok =
        (if now < of_int i then Inl InvalidToken else if of_int e \<le> now then Inl ExpiredSignature else Inr d)"
  using assms unfolding jwt_laws_def by blast+

lemma text_list_of_texts [simp]: "text_list (map PStr ss) = Some ss"
  by (induction ss) simp_all

lemma claims_session:
  "session_claims (claims_of svc uid t r sc ttl now) (py_trunc now) (py_trunc now + or_ttl ttl (as_default_ttl svc))"
  by (auto simp: session_claims_def claims_of_def Let_def)

lemma claims_payload:
  "token_payload_of lib (claims_of svc uid t r sc ttl now) =
     Inr \<lparr> tp_sub = uid, tp_tenant_id = t, tp_role = r, tp_scopes = (case sc of None \<Rightarrow> [] | Some ss \<Rightarrow> ss),
           tp_iat = py_trunc now, tp_exp = py_trunc now + or_ttl ttl (as_default_ttl svc) \<rparr>"
  by (simp add: token_payload_of_def claims_of_def Let_def field_text_def field_int_def field_texts_def lax_int_def)

lemma py_trunc_le: "0 \<le> x \<Longrightarrow> of_int (py_trunc x) \<le> x"
  by (simp add: py_trunc_def)

lemma context_vars_set [simp]: "cv \<lparr> cv_tenant := a, cv_user := b \<rparr> = \<lparr> cv_tenant = a, cv_user = b \<rparr>"
  by (cases cv) simp

lemma lower_bearer: "lower (''Bearer '' @ tok) = bearer @ lower tok"
proof -
  have "lower ''Bearer '' = bearer" by code_simp
  then show ?thesis by (simp add: lower_def)
qed

lemma bearer_token: "extract_bearer (Some (''Bearer '' @ tok)) = Some tok"
  using lower_bearer[of tok] by (simp add: extract_bearer_def)

text \<open>The signing key and the key a token of the service is verified with belong together, unless the
  operator lists another key under the signing \<open>kid\<close>.\<close>

definition ring_agrees :: "jwt_lib \<Rightarrow> auth_environ \<Rightarrow> (string \<times> string) list option \<Rightarrow> auth_service \<Rightarrow> bool" where
  "ring_agrees lib env pubs svc \<longleftrightarrow>
     (as_algorithm svc = RS256 \<longrightarrow>
        (case map_of (listed_keys env pubs) (as_signing_kid svc) of
           None \<Rightarrow> True
         | Some m \<Rightarrow> jl_public_pem lib (ak_material (as_signing_key svc)) = RsaKey m))"

lemma issued_verifies:
  assumes "jwt_laws lib" and "new_auth_service lib env secret dflt priv pubs skid = Inr svc" and "ring_agrees lib env pubs svc"
    and "issue_token lib svc uid t r sc ttl now = Inr tok" and "0 \<le> now" "now \<le> later"
  shows "tok \<noteq> []"
    and "verify_token lib svc later tok =
      Inr (if later < of_int (py_trunc now + or_ttl ttl dflt)
           then Some \<lparr> tp_sub = uid, tp_tenant_id = t, tp_role = r, tp_scopes = (case sc of None \<Rightarrow> [] | Some ss \<Rightarrow> ss),
                       tp_iat = py_trunc now, tp_exp = py_trunc now + or_ttl ttl dflt \<rparr>
           else None)"
proof -
  let ?d = "claims_of svc uid t r sc ttl now"
  let ?vk = "ak_material (resolve_verify_key svc (PStr (as_signing_kid svc)))"
  obtain hdr where enc: "jl_encode lib (as_algorithm svc) (ak_material (as_signing_key svc)) hdr ?d = Some tok"
    using assms(4) by (auto simp: issue_token_def split: option.splits)
  note laws = jwt_lawsD[OF assms(1) enc claims_session]
  have pair: "key_pair lib (as_algorithm svc) (ak_material (as_signing_key svc)) ?vk"
    using service_keys(1,2)[OF assms(2)] assms(3)
    by (cases "as_algorithm svc") (auto simp: key_pair_def ring_agrees_def split: option.splits)
  have kid: "dict_get_or ?d ''kid'' PNone = PStr (as_signing_kid svc)"
    by (simp add: claims_of_def Let_def dict_get_or_def)
  have "\<not> later < of_int (py_trunc now)" using py_trunc_le[OF assms(5)] assms(6) by linarith
  then show "verify_token lib svc later tok =
      Inr (if later < of_int (py_trunc now + or_ttl ttl dflt)
           then Some \<lparr> tp_sub = uid, tp_tenant_id = t, tp_role = r, tp_scopes = (case sc of None \<Rightarrow> [] | Some ss \<Rightarrow> ss),
                       tp_iat = py_trunc now, tp_exp = py_trunc now + or_ttl ttl dflt \<rparr>
           else None)"
    using laws(3)[OF pair, of later] service_keys(3)[OF assms(2)]
    by (simp add: verify_token_def Let_def laws(2) kid claims_payload not_less)
  show "tok \<noteq> []" by (rule laws(1))
qed

text \<open>A scheme that signs one set of claims, to see that the laws can hold.\<close>

definition sample_jwt :: "pydict \<Rightarrow> int \<Rightarrow> int \<Rightarrow> jwt_lib" where
  "sample_jwt claims i e =
     \<lparr> jl_public_pem = (\<lambda>sk. RsaKey (''public '' @ sk)), jl_numbers = (\<lambda>_. Some (65537, 3)),
       jl_encode = (\<lambda>alg sk hdr d. if d = claims then Some (''token '' @ sk) else None),
       jl_peek = (\<lambda>tok. if prefix ''token '' tok then Some claims else None),
       jl_decode = (\<lambda>alg vk now tok.
         if tok = ''token '' @ (if alg = RS256 then drop 7 vk else vk)
         then (if now < of_int i then Inl InvalidToken else if of_int e \<le> now then Inl ExpiredSignature else Inr claims)
         else Inl InvalidToken),
       jl_int_text = (\<lambda>_. None) \<rparr>"

lemma session_claims_unique: "session_claims d i e \<Longrightarrow> session_claims d i' e' \<Longrightarrow> i' = i \<and> e' = e"
  by (auto simp: session_claims_def)

lemma sample_jwt_laws: "session_claims claims i e \<Longrightarrow> jwt_laws (sample_jwt claims i e)"
  unfolding jwt_laws_def
  by (auto simp: sample_jwt_def key_pair_def split: if_splits algorithm.splits dest: session_claims_unique)

definition sample_env :: auth_environ where
  "sample_env = \<lparr> ae_private_key = None, ae_public_keys = None, ae_signing_kid = None, ae_secrets = None,
     ae_secret = Some ''a long and private text'' \<rparr>"

definition sample_service :: auth_service where
  "sample_service = \<lparr> as_algorithm = HS256,
     as_signing_key = \<lparr> ak_kid = ''default'', ak_material = ''a long and private text'', ak_is_private = True \<rparr>,
     as_signing_kid = ''default'', as_verify_keys = [public_key (''default'', ''a long and private text'')],
     as_current_kid = ''default'', as_current_secret = Some ''a long and private text'', as_default_ttl = 3600 \<rparr>"

lemma sample_env_service: "new_auth_service lib sample_env None 3600 None None None = Inr sample_service"
proof -
  have "strip ''a long and private text'' = ''a long and private text''" by code_simp
  then show ?thesis
    by (simp add: new_auth_service_def sample_env_def sample_service_def stripped_def first_text_def strip_def Let_def)
qed

definition sample_claims :: pydict where
  "sample_claims = claims_of sample_service ''ann'' ''acme'' ''tenant_admin'' None None 1000"

lemma sample_claims_session: "session_claims sample_claims 1000 4600"
  using claims_session[of sample_service "''ann''" "''acme''" "''tenant_admin''" None None 1000]
  by (simp add: sample_claims_def or_ttl_def sample_service_def py_trunc_def)

definition sample_scheme :: jwt_lib where
  "sample_scheme = sample_jwt sample_claims 1000 4600"

subsection \<open>Properties\<close>

text \<open>C4: A token issued by a service is accepted by the same service until it expires and by no request after, in the
  route dependency and in the middleware alike: the request acts for the user, the tenant and the role it was
  issued for, the application runs with their context, and both context variables are put back afterwards
  whatever the application does to them. It rests on the signature scheme (\<open>jwt_laws\<close>), and on the operator
  not listing another key under the signing \<open>kid\<close>.\<close>

theorem issued_tokens_accepted:
  assumes "jwt_laws lib" and "new_auth_service lib env secret dflt priv pubs skid = Inr svc" and "ring_agrees lib env pubs svc"
    and "issue_token lib svc uid t r sc ttl now = Inr tok" and "0 \<le> now" "now \<le> later"
    and "u = \<lparr> usr_id = uid, usr_tenant_id = t, usr_email = [], usr_display_name = [], usr_global_role = role_from_str r,
      usr_group_ids = [], usr_perm_group_ids = [], usr_project_ids = [], usr_is_agent = False, usr_status = ''active'' \<rparr>"
    and "hdr = ''Bearer '' @ tok"
  shows "if later < of_int (py_trunc now + or_ttl ttl dflt)
    then require_auth lib svc later (Some hdr) = Inr u \<and>
      auth_middleware lib svc later app ''http'' [(''authorization'', hdr)] cv =
        (Inr (fst (app \<lparr> cv_tenant = Some (context_of_user u), cv_user = Some u \<rparr>)), cv)
    else require_auth lib svc later (Some hdr) = Inl (HttpError 401 ''Invalid or expired token'') \<and>
      auth_middleware lib svc later app ''http'' [(''authorization'', hdr)] cv = (Inr (fst (app cv)), snd (app cv))"
  using issued_verifies[OF assms(1-6)]
  by (simp add: require_auth_def auth_middleware_def request_user_def first_text_def bearer_token[simplified] assms(7,8) user_from_payload_def
      set_tenant_context_def set_current_user_def dict_get_or_def Let_def split_def split: option.split)

theorem issued_tokens_accepted_witness:
  "\<exists>tok u. issue_token sample_scheme sample_service ''ann'' ''acme'' ''tenant_admin'' None None 1000 = Inr tok \<and>
     require_auth sample_scheme sample_service 4599 (Some (''Bearer '' @ tok)) = Inr u \<and> usr_tenant_id u = ''acme'' \<and>
     require_auth sample_scheme sample_service 4600 (Some (''Bearer '' @ tok)) = Inl (HttpError 401 ''Invalid or expired token'')"
proof -
  have laws: "jwt_laws sample_scheme" unfolding sample_scheme_def by (rule sample_jwt_laws[OF sample_claims_session])
  have ring: "ring_agrees sample_scheme sample_env None sample_service" by (simp add: ring_agrees_def sample_service_def)
  obtain tok where tok: "issue_token sample_scheme sample_service ''ann'' ''acme'' ''tenant_admin'' None None 1000 = Inr tok"
    by (simp add: issue_token_def sample_scheme_def sample_jwt_def sample_claims_def)
  note use = issued_tokens_accepted[OF laws sample_env_service ring tok _ _ refl refl]
  show ?thesis
    using tok use[of 4599 "\<lambda>cv. ((), cv)" "\<lparr> cv_tenant = None, cv_user = None \<rparr>"]
      use[of 4600 "\<lambda>cv. ((), cv)" "\<lparr> cv_tenant = None, cv_user = None \<rparr>"]
    by (intro exI[of _ tok]) (simp add: or_ttl_def py_trunc_def)
qed

subsection \<open>Where the key ring and the tokens fall short\<close>

text \<open>The retired public key, kept under the signing \<open>kid\<close> (whose default is the same for every key), is the
  one new tokens are verified with: the derived key that is appended for them is never found.\<close>

lemma retained_key_shadows:
  assumes "new_auth_service lib env secret dflt priv pubs skid = Inr svc" "as_algorithm svc = RS256"
    and "map_of (listed_keys env pubs) (as_signing_kid svc) = Some old" "jl_public_pem lib (ak_material (as_signing_key svc)) \<noteq> RsaKey old"
  shows "\<not> key_pair lib RS256 (ak_material (as_signing_key svc)) (ak_material (resolve_verify_key svc (PStr (as_signing_kid svc))))"
  using service_keys(2)[OF assms(1,2)] assms(3,4) by (auto simp: key_pair_def)

lemma pem_continuation_lost:
  "parse_kv_pem_list ''old:AAA,BBB,new:CCC'' =
     [(''old'', ''AAA''), (''old'', ''AAA'' @ [CHR 0x0A] @ ''BBB''), (''new'', ''CCC'')]"
  "map ak_material (fst (register_keys (parse_kv_pem_list ''old:AAA,BBB,new:CCC'') ([], {}))) = [''AAA'', ''CCC'']"
  by code_simp+

lemma unnamed_secret_clash:
  "parse_auth_secrets ''key1:one,two'' = Inr [(''key1'', ''one''), (''key1'', ''two'')]"
  by code_simp

lemma jwks_hides_secrets: "as_algorithm svc = HS256 \<Longrightarrow> get_jwks lib svc = Inr []"
proof -
  assume a: "as_algorithm svc = HS256"
  have "jwks_loop lib svc ks seen keys = Inr keys" for ks seen keys
    using a by (induction ks) simp_all
  then show ?thesis by (simp add: get_jwks_def)
qed

text \<open>A token that is signed and has no subject does not yield \<^const>\<open>None\<close> but an exception, also in the middleware.\<close>

lemma missing_subject_raises:
  assumes "jl_decode lib (as_algorithm svc) (ak_material (resolve_verify_key svc
      (case jl_peek lib tok of None \<Rightarrow> PNone | Some d \<Rightarrow> dict_get_or d ''kid'' PNone))) now tok = Inr d"
    and "dict_get d ''sub'' = None"
  shows "verify_token lib svc now tok = Inl AuthValidationError"
  using assms by (simp add: verify_token_def Let_def token_payload_of_def field_text_def)

text \<open>A user of a token is in no group: what is shared with groups or projects is closed to them.\<close>

lemma token_user_in_no_group:
  assumes "tc_user (context_of_user (user_from_payload p)) = Some u" and "res_visibility r \<in> {PERM_GROUP, GROUP, PROJECT}"
    and "uc_global_role u \<notin> {''platform_admin'', ''tenant_admin''}" "res_owner_id r \<noteq> uc_user_id u" "uc_user_id u \<notin> set (res_shared_with r)"
  shows "\<not> can_read u r"
  using assms by (auto simp: context_of_user_def user_from_payload_def can_read_def check_access_def check_space_level_def lists_meet_def)

lemma zero_ttl_is_default: "or_ttl (Some 0) d = d"
  by (simp add: or_ttl_def)

lemma unknown_role_is_user: "role_from_str ''admin'' = USER" "role_from_str ''platform_admin'' = PLATFORM_ADMIN"
  by (simp_all add: role_from_str_def)

end
