(* ===== verification/Group_Isolation.thy ===== *)
theory Group_Isolation
  imports Token_Auth
begin

section \<open>Memory of a tenant (core/mixins/group_isolation.py)\<close>

text \<open>
  What an agent with the isolation mixin reads and writes in the memory graph under the tenant context of its
  request. A metadata entry of another type than the declared one makes pydantic reject the resource:
  \<open>recall_tenant_visible\<close> is \<^const>\<open>None\<close> then.
\<close>

record isolated_agent =
  ia_agent_name :: string
  ia_default_tenant_id :: string
  ia_default_group_id :: string

definition context_user :: "context_vars \<Rightarrow> user_stub option" where
  "context_user cv = (case get_current_tenant cv of None \<Rightarrow> None | Some ctx \<Rightarrow> tc_user ctx)"

definition current_tenant_id :: "isolated_agent \<Rightarrow> context_vars \<Rightarrow> string" where
  "current_tenant_id a cv =
     (case context_user cv of
        None \<Rightarrow> ia_default_tenant_id a
      | Some u \<Rightarrow> if uc_tenant_id u = [] then ia_default_tenant_id a else uc_tenant_id u)"

definition current_group_ids :: "isolated_agent \<Rightarrow> context_vars \<Rightarrow> string list" where
  "current_group_ids a cv = (case context_user cv of None \<Rightarrow> [ia_default_group_id a] | Some u \<Rightarrow> uc_group_ids u)"

definition current_user_id :: "isolated_agent \<Rightarrow> context_vars \<Rightarrow> string" where
  "current_user_id a cv = (case context_user cv of None \<Rightarrow> ia_agent_name a | Some u \<Rightarrow> uc_user_id u)"

text \<open>\<open>d.setdefault(k, v)\<close>\<close>

definition set_default :: "pydict \<Rightarrow> string \<Rightarrow> pyval \<Rightarrow> pydict" where
  "set_default d k v = (case dict_get d k of None \<Rightarrow> dict_set d k v | Some _ \<Rightarrow> d)"

definition tag_node :: "isolated_agent \<Rightarrow> context_vars \<Rightarrow> graph_node \<Rightarrow> graph_node" where
  "tag_node a cv n = n \<lparr> gn_metadata :=
     set_default (set_default (gn_metadata n) ''tenant_id'' (PStr (current_tenant_id a cv)))
       ''group_ids'' (PList (map PStr (current_group_ids a cv))) \<rparr>"

definition remember_isolated :: "isolated_agent \<Rightarrow> context_vars \<Rightarrow> graph \<Rightarrow> graph_node \<Rightarrow> microseconds \<Rightarrow> graph" where
  "remember_isolated a cv g n now = add_node g (tag_node a cv n) now"

definition node_tenant :: "graph_node \<Rightarrow> pyval" where
  "node_tenant n = dict_get_or (gn_metadata n) ''tenant_id'' (PStr ''default'')"

definition recall_tenant_nodes ::
  "isolated_agent \<Rightarrow> context_vars \<Rightarrow> graph \<Rightarrow> node_type option \<Rightarrow> (string \<times> pyval) list \<Rightarrow> graph_node list" where
  "recall_tenant_nodes a cv g ty fs =
     filter (\<lambda>n. py_eq (node_tenant n) (PStr (current_tenant_id a cv))) (find_nodes g ty fs)"

definition node_visibility :: "graph_node \<Rightarrow> space_visibility" where
  "node_visibility n =
     (case dict_get_or (gn_metadata n) ''visibility'' (PStr ''private'') of
        PStr s \<Rightarrow> (case visibility_of_str s of Some v \<Rightarrow> v | None \<Rightarrow> PRIVATE)
      | _ \<Rightarrow> PRIVATE)"

definition node_resource :: "graph_node \<Rightarrow> resource option" where
  "node_resource n =
     (case (field_text (gn_metadata n) ''tenant_id'' (Some ''default''), field_text (gn_metadata n) ''owner_id'' (Some []),
            field_texts (gn_metadata n) ''group_ids'', field_texts (gn_metadata n) ''project_ids'',
            field_texts (gn_metadata n) ''shared_with'') of
        (Some t, Some owner, Some gs, Some ps, Some sh) \<Rightarrow>
          Some \<lparr> res_id = gn_id n, res_type = ''node'', res_tenant_id = t, res_owner_id = owner,
                 res_visibility = node_visibility n, res_perm_group_ids = [], res_group_ids = gs, res_project_ids = ps,
                 res_shared_with = sh, res_metadata = [] \<rparr>
      | _ \<Rightarrow> None)"

fun visible_nodes :: "user_stub \<Rightarrow> graph_node list \<Rightarrow> graph_node list option" where
  "visible_nodes u [] = Some []"
| "visible_nodes u (n # ns) =
     (case node_resource n of
        None \<Rightarrow> None
      | Some r \<Rightarrow> map_option (\<lambda>ms. if can_read u r then n # ms else ms) (visible_nodes u ns))"

definition recall_tenant_visible ::
  "isolated_agent \<Rightarrow> context_vars \<Rightarrow> graph \<Rightarrow> node_type option \<Rightarrow> (string \<times> pyval) list \<Rightarrow> graph_node list option" where
  "recall_tenant_visible a cv g ty fs =
     (case context_user cv of
        None \<Rightarrow> Some (recall_tenant_nodes a cv g ty fs)
      | Some u \<Rightarrow> visible_nodes u (find_nodes g ty fs))"

definition tag_for_tenant :: "isolated_agent \<Rightarrow> context_vars \<Rightarrow> pydict option \<Rightarrow> pydict" where
  "tag_for_tenant a cv metadata =
     set_default (set_default (set_default (case metadata of None \<Rightarrow> [] | Some d \<Rightarrow> d)
       ''tenant_id'' (PStr (current_tenant_id a cv))) ''owner_id'' (PStr (current_user_id a cv)))
       ''group_ids'' (PList (map PStr (current_group_ids a cv)))"

datatype cross_tenant_error = CrossTenantAccess string string string

definition assert_same_tenant :: "isolated_agent \<Rightarrow> context_vars \<Rightarrow> string \<Rightarrow> cross_tenant_error + unit" where
  "assert_same_tenant a cv resource_tenant =
     (if resource_tenant \<noteq> [] \<and> resource_tenant \<noteq> current_tenant_id a cv
      then Inl (CrossTenantAccess (ia_agent_name a) (current_tenant_id a cv) resource_tenant)
      else Inr ())"

subsection \<open>What is remembered and what is recalled\<close>

lemma set_default_get [simp]:
  "dict_get (set_default d k v) k' = (if k' = k \<and> dict_get d k = None then Some v else dict_get d k')"
  by (auto simp: set_default_def split: option.split)

lemma find_nodes_mem: "m \<in> set (find_nodes g ty fs) \<longleftrightarrow> filters_match fs m \<and>
    (case ty of None \<Rightarrow> m \<in> set (dict_values (gr_nodes g))
     | Some t \<Rightarrow> \<exists>k \<in> set (dict_get_or (gr_types g) t []). get_node g k = Some m)"
  by (cases ty) (auto simp: find_nodes_def Let_def List.map_filter_def image_iff; metis option.sel)+

lemma nodes_okD:
  assumes "nodes_ok g"
  shows "m \<in> set (dict_values (gr_nodes g)) \<longleftrightarrow> (\<exists>k. get_node g k = Some m)"
    and "get_node g k = Some m \<Longrightarrow> gn_id m = k" "get_node g k = Some m \<Longrightarrow> k \<in> set (dict_get_or (gr_types g) (gn_type m) [])"
  using assms by (auto simp: nodes_ok_def dict_values_get get_node_def)

lemma found_is_stored:
  assumes "nodes_ok g" and "m \<in> set (find_nodes g ty fs)"
  shows "get_node g (gn_id m) = Some m"
proof -
  obtain k where "get_node g k = Some m"
    using assms by (cases ty) (auto simp: find_nodes_mem nodes_okD(1))
  with nodes_okD(2)[OF assms(1)] show ?thesis by blast
qed

lemma stored_is_found:
  assumes "nodes_ok g" and "get_node g k = Some m" and "ty = None \<or> ty = Some (gn_type m)" and "filters_match fs m"
  shows "m \<in> set (find_nodes g ty fs)"
  using assms(2-4) nodes_okD(1)[OF assms(1)] nodes_okD(3)[OF assms(1,2)] by (auto simp: find_nodes_mem)

lemma get_added: "get_node (add_node g n now) (gn_id n) =
    Some (n \<lparr> gn_created_at := (case get_node g (gn_id n) of None \<Rightarrow> gn_created_at n | Some e \<Rightarrow> gn_created_at e), gn_updated_at := now \<rparr>)"
  by (simp add: add_node_def get_node_def Let_def split: option.split)

lemma get_added_other: "k \<noteq> gn_id n \<Longrightarrow> get_node (add_node g n now) k = get_node g k"
  by (simp add: add_node_def get_node_def Let_def)

lemma node_tenant_text: "field_text (gn_metadata n) ''tenant_id'' (Some ''default'') = Some t \<Longrightarrow> node_tenant n = PStr t"
  by (auto simp: field_text_def node_tenant_def dict_get_or_def split: option.splits pyval.splits)

lemma visible_of_tenant:
  "visible_nodes u ns = Some ms \<Longrightarrow> m \<in> set ms \<Longrightarrow>
     m \<in> set ns \<and> (uc_global_role u = ''platform_admin'' \<or> node_tenant m = PStr (uc_tenant_id u))"
proof (induction ns arbitrary: ms)
  case (Cons n ns)
  then obtain r rest where r: "node_resource n = Some r" and rest: "visible_nodes u ns = Some rest"
    and ms: "ms = (if can_read u r then n # rest else rest)"
    by (auto split: option.splits)
  have "uc_global_role u = ''platform_admin'' \<or> node_tenant n = PStr (uc_tenant_id u)" if "can_read u r"
    using that r by (auto simp: can_read_def check_access_def node_resource_def split: option.splits if_splits
        dest!: node_tenant_text)
  with Cons.IH[OF rest] Cons.prems(2) ms show ?case by (auto split: if_splits)
qed simp

lemma remembered:
  assumes "dict_get (gn_metadata n) ''tenant_id'' = None"
  obtains m where "get_node (remember_isolated a cv g n now) (gn_id n) = Some m" and "gn_id m = gn_id n"
    and "node_tenant m = PStr (current_tenant_id a cv)" and "gn_type m = gn_type n"
  using get_added[of g "tag_node a cv n" now] assms
  by (simp add: remember_isolated_def tag_node_def node_tenant_def dict_get_or_def)

lemma filters_match_Nil [simp]: "filters_match [] m"
  by (simp add: filters_match_def)

text \<open>C14: A node remembered in the context of a tenant is recalled in a context of the same tenant, under no filter, and
  never in a context of another tenant, whatever the filters: neither by the recall of the tenant's nodes nor by
  the recall of the visible ones, except for a platform administrator. The other nodes of the graph are left as
  they are.\<close>

theorem isolated_memory:
  assumes "graph_ok g" and "dict_get (gn_metadata n) ''tenant_id'' = None" and "g' = remember_isolated a cv g n now"
  shows "(current_tenant_id b cv' = current_tenant_id a cv \<longrightarrow> gn_id n \<in> gn_id ` set (recall_tenant_nodes b cv' g' None [])) \<and>
    (current_tenant_id b cv' \<noteq> current_tenant_id a cv \<longrightarrow> gn_id n \<notin> gn_id ` set (recall_tenant_nodes b cv' g' ty fs)) \<and>
    (\<forall>u ms. context_user cv' = Some u \<and> uc_global_role u \<noteq> ''platform_admin'' \<and> uc_tenant_id u \<noteq> current_tenant_id a cv \<and>
       recall_tenant_visible b cv' g' ty fs = Some ms \<longrightarrow> gn_id n \<notin> gn_id ` set ms) \<and>
    (\<forall>k. k \<noteq> gn_id n \<longrightarrow> get_node g' k = get_node g k)"
proof -
  have ok: "nodes_ok g'"
    using graph_ok_add[OF assms(1)] by (simp add: assms(3) remember_isolated_def graph_ok_def)
  obtain m where m: "get_node g' (gn_id n) = Some m" "gn_id m = gn_id n" "node_tenant m = PStr (current_tenant_id a cv)"
    using remembered[OF assms(2)] unfolding assms(3) by metis
  have same: "node_tenant x = PStr (current_tenant_id a cv)" if "x \<in> set (find_nodes g' ty fs)" "gn_id x = gn_id n" for x
    using found_is_stored[OF ok that(1)] that(2) m by simp
  have "m \<in> set (find_nodes g' None [])" by (rule stored_is_found[OF ok m(1)]) simp_all
  then have "gn_id n \<in> gn_id ` set (recall_tenant_nodes b cv' g' None [])" if "current_tenant_id b cv' = current_tenant_id a cv"
    using m(2,3) that by (intro image_eqI[of _ _ m]) (simp_all add: recall_tenant_nodes_def)
  moreover have "current_tenant_id b cv' \<noteq> current_tenant_id a cv \<Longrightarrow> gn_id n \<notin> gn_id ` set (recall_tenant_nodes b cv' g' ty fs)"
    using same by (fastforce simp: recall_tenant_nodes_def)
  moreover have "gn_id n \<notin> gn_id ` set ms"
    if "context_user cv' = Some u" "uc_global_role u \<noteq> ''platform_admin''" "uc_tenant_id u \<noteq> current_tenant_id a cv"
      "recall_tenant_visible b cv' g' ty fs = Some ms" for u ms
    using visible_of_tenant[of u "find_nodes g' ty fs" ms] that same by (fastforce simp: recall_tenant_visible_def)
  moreover have "get_node g' k = get_node g k" if "k \<noteq> gn_id n" for k
    using get_added_other[of k "tag_node a cv n" g now] that by (simp add: assms(3) remember_isolated_def tag_node_def)
  ultimately show ?thesis by blast
qed

definition sample_agent :: isolated_agent where
  "sample_agent = \<lparr> ia_agent_name = ''writer'', ia_default_tenant_id = ''default'', ia_default_group_id = ''default'' \<rparr>"

definition in_tenant :: "string \<Rightarrow> context_vars" where
  "in_tenant t = \<lparr> cv_tenant = Some (context_of_user (user_from_payload
     \<lparr> tp_sub = ''ann'', tp_tenant_id = t, tp_role = ''user'', tp_scopes = [], tp_iat = 0, tp_exp = 0 \<rparr>)), cv_user = None \<rparr>"

lemma in_tenant_id: "t \<noteq> [] \<Longrightarrow> current_tenant_id a (in_tenant t) = t"
  by (simp add: current_tenant_id_def context_user_def get_current_tenant_def in_tenant_def context_of_user_def user_from_payload_def)

theorem isolated_memory_witness:
  "let g = remember_isolated sample_agent (in_tenant ''acme'') sample_graph (sample_node ''note'' N_OUTPUT) 5 in
   ''note'' \<in> gn_id ` set (recall_tenant_nodes sample_agent (in_tenant ''acme'') g None []) \<and>
   ''note'' \<notin> gn_id ` set (recall_tenant_nodes sample_agent (in_tenant ''other'') g (Some N_OUTPUT) [])"
proof -
  have ok: "graph_ok sample_graph" by (rule graph_reach_ok[OF sample_graph_reach])
  have md: "dict_get (gn_metadata (sample_node ''note'' N_OUTPUT)) ''tenant_id'' = None" by (simp add: sample_node_def)
  note use = isolated_memory[OF ok md refl, where a = sample_agent and b = sample_agent and cv = "in_tenant ''acme''" and now = 5]
  show ?thesis
    using use[where cv' = "in_tenant ''acme''"] use[where cv' = "in_tenant ''other''" and ty = "Some N_OUTPUT" and fs = "[]"]
    by (simp add: in_tenant_id Let_def) (simp add: sample_node_def)
qed

subsection \<open>What the tags miss\<close>

text \<open>A node is remembered without an owner, so its author does not see it among the visible nodes.\<close>

lemma author_does_not_see:
  assumes "node_resource (tag_node a cv n) = Some r" and "dict_get (gn_metadata n) ''owner_id'' = None"
    and "dict_get (gn_metadata n) ''visibility'' = None" "dict_get (gn_metadata n) ''shared_with'' = None"
    and "uc_user_id u \<noteq> []" "uc_global_role u \<notin> {''platform_admin'', ''tenant_admin''}"
  shows "\<not> can_read u r"
  using assms by (auto simp: node_resource_def tag_node_def field_text_def field_texts_def node_visibility_def dict_get_or_def
      visibility_of_str_def can_read_def check_access_def check_space_level_def split: option.splits)

text \<open>The permission groups of a node are not passed on: a node shared with one is closed to its members.\<close>

lemma perm_group_nodes_closed:
  assumes "node_resource n = Some r" and "node_visibility n = PERM_GROUP" and "res_owner_id r \<noteq> uc_user_id u"
    and "uc_user_id u \<notin> set (res_shared_with r)" "uc_global_role u \<notin> {''platform_admin'', ''tenant_admin''}"
  shows "\<not> can_read u r"
  using assms by (auto simp: node_resource_def can_read_def check_access_def check_space_level_def lists_meet_def split: option.splits)

lemma untagged_resource_passes: "assert_same_tenant a cv [] = Inr ()"
  by (simp add: assert_same_tenant_def)

end
