(* ===== verification/Grouping.thy ===== *)
theory Grouping
  imports Prelude "HOL-Library.Multiset"
begin

section \<open>Dictionaries of lists\<close>

text \<open>
  Values appended to the list of a key, lists grouped by a key, and the groups put together again in the order
  of the keys: what the files of the audit log and of the stored graph have in common.
\<close>

text \<open>\<open>d.setdefault(k, []).extend(vs)\<close>\<close>

definition append_at :: "('k, 'v list) dict \<Rightarrow> 'k \<Rightarrow> 'v list \<Rightarrow> ('k, 'v list) dict" where
  "append_at d k vs = dict_set d k (dict_get_or d k [] @ vs)"

lemma append_at_get [simp]:
  "dict_get_or (append_at d k vs) k' [] = (if k' = k then dict_get_or d k [] @ vs else dict_get_or d k' [])"
  by (simp add: append_at_def)

lemma append_at_ok [simp]: "dict_ok d \<Longrightarrow> dict_ok (append_at d k vs)"
  by (simp add: append_at_def)

lemma append_at_keys [simp]: "fst ` set (append_at d k vs) = insert k (fst ` set d)"
  by (simp add: append_at_def dom_map_of_conv_image_fst[symmetric] update_conv')

text \<open>Values grouped by a key, each group in the order of the list.\<close>

definition grouped :: "('a \<Rightarrow> 'k) \<Rightarrow> ('a \<Rightarrow> 'v) \<Rightarrow> 'a list \<Rightarrow> ('k, 'v list) dict \<Rightarrow> ('k, 'v list) dict" where
  "grouped f g xs d = foldl (\<lambda>d x. append_at d (f x) [g x]) d xs"

lemma grouped_simps [simp]: "grouped f g [] d = d" "grouped f g (x # xs) d = grouped f g xs (append_at d (f x) [g x])"
  by (simp_all add: grouped_def)

lemma grouped_ok [simp]: "dict_ok d \<Longrightarrow> dict_ok (grouped f g xs d)"
  by (induction xs arbitrary: d) simp_all

lemma grouped_keys: "fst ` set (grouped f g xs d) = f ` set xs \<union> fst ` set d"
  by (induction xs arbitrary: d) auto

lemma grouped_get: "dict_get_or (grouped f g xs d) k [] = dict_get_or d k [] @ map g (filter (\<lambda>x. f x = k) xs)"
  by (induction xs arbitrary: d) simp_all

text \<open>Groups in the order of their keys are a stable sort.\<close>

lemma concat_filter_sort:
  assumes "sorted ks" "distinct ks" "f ` set es \<subseteq> set ks"
  shows "concat (map (\<lambda>k. filter (\<lambda>e. f e = k) es) ks) = sort_key f es"
proof -
  let ?ys = "concat (map (\<lambda>k. filter (\<lambda>e. f e = k) es) ks)"
  have pick: "filter (\<lambda>e. f e = k) (concat (map (\<lambda>k. filter (\<lambda>e. f e = k) es) ls)) =
      (if k \<in> set ls then filter (\<lambda>e. f e = k) es else [])" if "distinct ls" for k ls
    using that
  proof (induction ls)
    case (Cons l ls)
    have "filter (\<lambda>e. f e = k) (filter (\<lambda>e. f e = l) es) = (if k = l then filter (\<lambda>e. f e = k) es else [])"
      by (auto simp: filter_empty_conv intro: filter_cong)
    with Cons show ?case by auto
  qed simp
  have "filter (\<lambda>e. f e = k) es = []" if "k \<notin> set ks" for k
    using that assms(3) by (auto simp: filter_empty_conv)
  then have same: "filter (\<lambda>e. f e = k) ?ys = filter (\<lambda>e. f e = k) es" for k
    using pick[OF assms(2), of k] by (cases "k \<in> set ks") simp_all
  have "mset ?ys = mset es"
  proof (rule multiset_eqI)
    fix x
    have "count (mset zs) x = count (mset (filter (\<lambda>e. f e = f x) zs)) x" for zs by (induction zs) auto
    then show "count (mset ?ys) x = count (mset es) x" using same[of "f x"] by metis
  qed
  moreover have "sorted (map f ?ys)"
    using assms(1)
  proof (induction ks)
    case (Cons k ks)
    have "sorted (map f (filter (\<lambda>e. f e = k) es))" by (induction es) auto
    with Cons show ?case by (auto simp: sorted_append)
  qed simp
  moreover have "filter (\<lambda>x. f k = f x) ?ys = filter (\<lambda>x. f k = f x) es" for k
  proof -
    have "(\<lambda>x. f k = f x) = (\<lambda>x. f x = f k)" by auto
    then show ?thesis using same[of "f k"] by simp
  qed
  ultimately show ?thesis by (intro properties_for_sort_key[symmetric])
qed

text \<open>Values stored one after the other under their keys.\<close>

definition put_all :: "('a \<Rightarrow> 'k) \<Rightarrow> ('a \<Rightarrow> 'v) \<Rightarrow> 'a list \<Rightarrow> ('k, 'v) dict \<Rightarrow> ('k, 'v) dict" where
  "put_all key val xs d = foldl (\<lambda>d x. dict_set d (key x) (val x)) d xs"

lemma put_all_simps [simp]: "put_all key val [] d = d"
  "put_all key val (x # xs) d = put_all key val xs (dict_set d (key x) (val x))"
  by (simp_all add: put_all_def)

lemma put_all_ok [simp]: "dict_ok d \<Longrightarrow> dict_ok (put_all key val xs d)"
  by (induction xs arbitrary: d) simp_all

lemma put_all_other: "k \<notin> key ` set xs \<Longrightarrow> dict_get (put_all key val xs d) k = dict_get d k"
  by (induction xs arbitrary: d) auto

lemma put_all_get: "inj_on key (set xs) \<Longrightarrow> x \<in> set xs \<Longrightarrow> dict_get (put_all key val xs d) (key x) = Some (val x)"
proof (induction xs arbitrary: d)
  case (Cons y ys)
  show ?case
  proof (cases "x \<in> set ys")
    case True
    with Cons show ?thesis by (simp add: inj_on_def)
  next
    case False
    with Cons.prems have "x = y" "key x \<notin> key ` set ys" by (auto simp: inj_on_def)
    then show ?thesis by (simp add: put_all_other)
  qed
qed simp

lemma put_all_iff:
  assumes "inj_on key (set xs)"
  shows "dict_get (put_all key val xs []) k = Some v \<longleftrightarrow> (\<exists>x \<in> set xs. key x = k \<and> val x = v)"
proof (cases "k \<in> key ` set xs")
  case True
  then obtain x where x: "x \<in> set xs" "k = key x" by blast
  have "dict_get (put_all key val xs []) k = Some (val x)" unfolding x(2) by (rule put_all_get[OF assms x(1)])
  with x show ?thesis by (auto dest: inj_onD[OF assms] simp del: map_of_eq_Some_iff)
next
  case False
  then show ?thesis using put_all_other[OF False, of val "[]"] by auto
qed

end
