(* ===== verification/Audit_Log.thy ===== *)
theory Audit_Log
  imports Dataview_Exec Grouping
begin

section \<open>The audit log (core/audit_logger.py, core/security.py, core/audit/query.py, api/routes/audit.py)\<close>

text \<open>
  The two loggers with their in-memory list, the bounded queue of the batch logger and its flushes, retention,
  the queries over memory and over the files, the fourteen standard queries and the alert rules.

  The directory is a dictionary from the day of a file \<open>audit-<day>.jsonl\<close> to its lines; other files are
  left out. A time stamp is naive or in UTC: \<open>AuditLogEntry\<close> of \<open>audit_logger.py\<close> takes \<open>datetime.utcnow\<close>
  and is naive, that of \<open>security.py\<close> and every limit of a query is in UTC, and comparing the two raises. The text of
  an entry and the reading of a line (json and pydantic) are fields of \<open>audit_io\<close>, as are the writes that fail.
  \<open>AuditLogEntry\<close> of \<open>security.py\<close> has the first nine fields only.
\<close>

subsection \<open>Entries\<close>

datatype stamp = Naive microseconds | Utc microseconds

fun stamp_time :: "stamp \<Rightarrow> microseconds" where
  "stamp_time (Naive t) = t"
| "stamp_time (Utc t) = t"

text \<open>\<open>a < b\<close> on time stamps; \<^const>\<open>None\<close> is the \<open>TypeError\<close>.\<close>

fun stamp_less :: "stamp \<Rightarrow> stamp \<Rightarrow> bool option" where
  "stamp_less (Naive a) (Naive b) = Some (a < b)"
| "stamp_less (Utc a) (Utc b) = Some (a < b)"
| "stamp_less _ _ = None"

fun stamp_iso :: "stamp \<Rightarrow> string" where
  "stamp_iso (Utc t) = iso_utc t"
| "stamp_iso (Naive t) = (let s = iso_utc t in take (length s - 6) s)"

record basic_entry =
  en_timestamp :: stamp
  en_user_id :: string
  en_action :: string
  en_resource_id :: string
  en_resource_type :: string
  en_details :: pydict
  en_ip_address :: string
  en_user_agent :: string
  en_outcome :: string

record log_entry = basic_entry +
  en_request_id :: string
  en_tenant_id :: string
  en_session_id :: string
  en_duration_ms :: rat
  en_task_id :: string

definition entry_day :: "'a basic_entry_scheme \<Rightarrow> int" where
  "entry_day e = stamp_time (en_timestamp e) div day"

type_synonym audit_dir = "(int, string list) dict"

record audit_io =
  ai_dump :: "log_entry \<Rightarrow> string"
  ai_dump_basic :: "basic_entry \<Rightarrow> string"
  ai_parse :: "string \<Rightarrow> log_entry option"
  ai_parse_basic :: "string \<Rightarrow> basic_entry option"
  ai_write_fails :: "int \<Rightarrow> bool"
  ai_read_fails :: "int \<Rightarrow> bool"

text \<open>An optional filter that is empty is no filter.\<close>

definition wants :: "string option \<Rightarrow> string \<Rightarrow> bool" where
  "wants f v = (case f of None \<Rightarrow> True | Some s \<Rightarrow> s = [] \<or> v = s)"

definition wants_task :: "string option \<Rightarrow> log_entry \<Rightarrow> bool" where
  "wants_task f e =
     (case f of None \<Rightarrow> True
      | Some t \<Rightarrow> t = [] \<or> en_task_id e = t \<or> (en_resource_type e = ''task'' \<and> en_resource_id e = t))"

text \<open>Append, then stop once there are \<open>limit\<close> results: at least one is taken.\<close>

fun collect :: "('a \<Rightarrow> bool) \<Rightarrow> int \<Rightarrow> 'a list \<Rightarrow> 'a list \<Rightarrow> 'a list" where
  "collect p lmt [] acc = acc"
| "collect p lmt (x # xs) acc =
     (if \<not> p x then collect p lmt xs acc
      else if lmt \<le> int (length acc) + 1 then acc @ [x]
      else collect p lmt xs (acc @ [x]))"

subsection \<open>The plain logger\<close>

record audit_state =
  au_memory :: "log_entry list"
  au_dir :: audit_dir
  au_queue :: "log_entry list option"
  au_closed :: bool

definition new_audit :: audit_state where
  "new_audit = \<lparr> au_memory = [], au_dir = [], au_queue = None, au_closed = False \<rparr>"

text \<open>\<open>AuditLogger.log\<close>, and \<open>_sync_write\<close> where it keeps the entry in memory as well.\<close>

definition plain_log :: "audit_io \<Rightarrow> audit_state \<Rightarrow> log_entry \<Rightarrow> audit_state \<times> bool" where
  "plain_log io st e =
     (let st1 = st\<lparr>au_memory := au_memory st @ [e]\<rparr> in
      if ai_write_fails io (entry_day e) then (st1, False)
      else (st1\<lparr>au_dir := append_at (au_dir st) (entry_day e) [ai_dump io e]\<rparr>, True))"

definition plain_sync_log :: "audit_io \<Rightarrow> audit_state \<Rightarrow> log_entry \<Rightarrow> bool \<Rightarrow> audit_state \<times> bool" where
  "plain_sync_log io st e loop_running = (if loop_running then (st, False) else plain_log io st e)"

definition memory_query ::
  "audit_state \<Rightarrow> string option \<Rightarrow> string option \<Rightarrow> string option \<Rightarrow> string option \<Rightarrow> string option \<Rightarrow> int \<Rightarrow> log_entry list" where
  "memory_query st user_id action start_date end_date task_id lmt =
     collect (\<lambda>e. wants user_id (en_user_id e) \<and> wants action (en_action e) \<and> wants_task task_id e) lmt (au_memory st) []"

subsection \<open>The logger of security.py\<close>

definition basic_log :: "audit_io \<Rightarrow> audit_dir \<Rightarrow> basic_entry \<Rightarrow> audit_dir \<times> bool" where
  "basic_log io d e =
     (if ai_write_fails io (entry_day e) then (d, False)
      else (append_at d (entry_day e) [ai_dump_basic io e], True))"

text \<open>The lines of a file that are read as entries; a file that cannot be read has none.\<close>

definition entries_in :: "audit_io \<Rightarrow> (string \<Rightarrow> 'e option) \<Rightarrow> audit_dir \<Rightarrow> int \<Rightarrow> 'e list" where
  "entries_in io parse d k =
     (if ai_read_fails io k then []
      else List.map_filter (\<lambda>l. let s = strip l in if s = [] then None else parse s) (dict_get_or d k []))"

definition days_of :: "audit_dir \<Rightarrow> int list" where
  "days_of d = sort (map fst d)"

fun basic_files :: "audit_io \<Rightarrow> audit_dir \<Rightarrow> (basic_entry \<Rightarrow> bool) \<Rightarrow> int \<Rightarrow> int list \<Rightarrow> basic_entry list \<Rightarrow> basic_entry list" where
  "basic_files io d p lmt [] acc = acc"
| "basic_files io d p lmt (k # ks) acc =
     (if lmt \<le> int (length acc) then acc
      else basic_files io d p lmt ks (collect p lmt (entries_in io (ai_parse_basic io) d k) acc))"

definition basic_query :: "audit_io \<Rightarrow> audit_dir \<Rightarrow> string option \<Rightarrow> string option \<Rightarrow> int \<Rightarrow> basic_entry list" where
  "basic_query io d user_id action lmt =
     basic_files io d (\<lambda>e. wants user_id (en_user_id e) \<and> wants action (en_action e)) lmt (rev (days_of d)) []"

subsection \<open>The batch logger\<close>

record audit_config =
  ac_enabled :: bool
  ac_sampling_rate :: rat
  ac_batch_size :: int
  ac_flush_interval_seconds :: rat
  ac_retention_days :: int
  ac_log_dir :: string
  ac_queue_max_size :: int

definition default_audit_config :: audit_config where
  "default_audit_config =
     \<lparr> ac_enabled = True, ac_sampling_rate = 1, ac_batch_size = 100, ac_flush_interval_seconds = 5, ac_retention_days = 90,
       ac_log_dir = ''./data/audit'', ac_queue_max_size = 10000 \<rparr>"

text \<open>\<open>_ensure_queue\<close> inside a running event loop.\<close>

definition ensure_queue :: "audit_state \<Rightarrow> audit_state" where
  "ensure_queue st = (case au_queue st of None \<Rightarrow> st\<lparr>au_queue := Some []\<rparr> | Some _ \<Rightarrow> st)"

text \<open>\<open>put_nowait\<close>; \<^const>\<open>None\<close> is \<open>QueueFull\<close>. A size of 0 or less means no bound.\<close>

definition put_nowait :: "int \<Rightarrow> 'a list \<Rightarrow> 'a \<Rightarrow> 'a list option" where
  "put_nowait maxsize q x = (if 0 < maxsize \<and> maxsize \<le> int (length q) then None else Some (q @ [x]))"

definition batch_log :: "audit_config \<Rightarrow> audit_state \<Rightarrow> log_entry \<Rightarrow> rat \<Rightarrow> audit_state \<times> bool" where
  "batch_log cfg st e draw =
     (if \<not> ac_enabled cfg then (st, False)
      else if ac_sampling_rate cfg < 1 \<and> draw > ac_sampling_rate cfg then (st, False)
      else
        let st1 = ensure_queue (st\<lparr>au_memory := au_memory st @ [e]\<rparr>); q = the (au_queue st1) in
        case put_nowait (ac_queue_max_size cfg) q e of
          Some q' \<Rightarrow> (st1\<lparr>au_queue := Some q'\<rparr>, True)
        | None \<Rightarrow>
            (case put_nowait (ac_queue_max_size cfg) (tl q) e of
               Some q' \<Rightarrow> (st1\<lparr>au_queue := Some q'\<rparr>, True)
             | None \<Rightarrow> (st1\<lparr>au_queue := Some (tl q)\<rparr>, False)))"

definition batch_sync_log :: "audit_io \<Rightarrow> audit_config \<Rightarrow> audit_state \<Rightarrow> log_entry \<Rightarrow> audit_state \<times> bool" where
  "batch_sync_log io cfg st e = (if \<not> ac_enabled cfg then (st, False) else plain_log io st e)"

text \<open>\<open>_write_batch\<close>: lines grouped by day in the order of first occurrence; the first write that fails ends it, and
  what was written before stays.\<close>

definition group_by_day :: "audit_io \<Rightarrow> log_entry list \<Rightarrow> audit_dir" where
  "group_by_day io batch = grouped entry_day (ai_dump io) batch []"

fun write_groups :: "audit_io \<Rightarrow> (int \<times> string list) list \<Rightarrow> nat \<Rightarrow> audit_dir \<Rightarrow> audit_dir \<times> nat option" where
  "write_groups io [] n d = (d, Some n)"
| "write_groups io ((k, ls) # gs) n d =
     (if ai_write_fails io k then (d, None) else write_groups io gs (n + length ls) (append_at d k ls))"

definition write_batch :: "audit_io \<Rightarrow> log_entry list \<Rightarrow> audit_dir \<Rightarrow> audit_dir \<times> nat" where
  "write_batch io batch d =
     (case write_groups io (group_by_day io batch) 0 d of (d', None) \<Rightarrow> (d', 0) | (d', Some n) \<Rightarrow> (d', n))"

definition flush_batch :: "audit_io \<Rightarrow> audit_config \<Rightarrow> audit_state \<Rightarrow> audit_state \<times> nat" where
  "flush_batch io cfg st =
     (case au_queue st of
        None \<Rightarrow> (st, 0)
      | Some q \<Rightarrow>
          let n = nat (ac_batch_size cfg); batch = take n q in
          if batch = [] then (st, 0)
          else let (d, w) = write_batch io batch (au_dir st) in (st\<lparr>au_queue := Some (drop n q), au_dir := d\<rparr>, w))"

text \<open>\<open>flush\<close> is one batch; \<open>close\<close> ends the background task and flushes.\<close>

definition close_audit :: "audit_io \<Rightarrow> audit_config \<Rightarrow> audit_state \<Rightarrow> audit_state" where
  "close_audit io cfg st = fst (flush_batch io cfg (st\<lparr>au_closed := True\<rparr>))"

text \<open>\<open>purge_old_entries\<close>: a file is deleted when its midnight in UTC lies before the cutoff; \<open>undeletable\<close> files
  are skipped.\<close>

definition purge_old_entries ::
  "audit_config \<Rightarrow> audit_dir \<Rightarrow> int option \<Rightarrow> microseconds \<Rightarrow> (int \<Rightarrow> bool) \<Rightarrow> audit_dir \<times> nat" where
  "purge_old_entries cfg d retention_days now undeletable =
     (let retention = (case retention_days of None \<Rightarrow> ac_retention_days cfg | Some r \<Rightarrow> r);
          cutoff = now - retention * day;
          old = (\<lambda>k. k * day < cutoff \<and> \<not> undeletable k)
      in (filter (\<lambda>(k, ls). \<not> old k) d, length (filter old (map fst d))))"

subsection \<open>Queries over the files\<close>

text \<open>\<open>fromiso\<close> is \<open>datetime.fromisoformat\<close>; the days of the files are naive midnights, and a file whose day cannot be
  compared with a limit is skipped.\<close>

definition day_in_range :: "stamp option \<Rightarrow> stamp option \<Rightarrow> int \<Rightarrow> bool" where
  "day_in_range start finish k =
     ((case start of None \<Rightarrow> True | Some s \<Rightarrow> stamp_less (Naive (k * day)) s = Some False) \<and>
      (case finish of None \<Rightarrow> True | Some f \<Rightarrow> stamp_less f (Naive (k * day)) = Some False))"

definition opt_stamp :: "(string \<Rightarrow> stamp option) \<Rightarrow> string option \<Rightarrow> stamp option option" where
  "opt_stamp fromiso s =
     (case s of None \<Rightarrow> Some None | Some t \<Rightarrow> if t = [] then Some None else map_option Some (fromiso t))"

definition disk_wants :: "string option \<Rightarrow> string option \<Rightarrow> string option \<Rightarrow> string option \<Rightarrow> string option \<Rightarrow> log_entry \<Rightarrow> bool" where
  "disk_wants user_id action outcome request_id task_id e =
     (wants user_id (en_user_id e) \<and> wants action (en_action e) \<and> wants outcome (en_outcome e) \<and>
      wants request_id (en_request_id e) \<and> wants_task task_id e)"

definition query_from_disk ::
  "audit_io \<Rightarrow> (string \<Rightarrow> stamp option) \<Rightarrow> audit_dir \<Rightarrow> string option \<Rightarrow> string option \<Rightarrow> string option \<Rightarrow> string option \<Rightarrow>
   string option \<Rightarrow> string option \<Rightarrow> string option \<Rightarrow> int \<Rightarrow> log_entry list option" where
  "query_from_disk io fromiso d user_id action outcome start_date end_date request_id task_id lmt =
     (case (opt_stamp fromiso start_date, opt_stamp fromiso end_date) of
        (Some start, Some finish) \<Rightarrow>
          Some (collect (disk_wants user_id action outcome request_id task_id) lmt
            (concat (map (entries_in io (ai_parse io) d) (filter (day_in_range start finish) (days_of d)))) [])
      | _ \<Rightarrow> None)"

text \<open>The route: any user with a valid token; the framework rejects a limit above 1000.\<close>

definition query_audit_route ::
  "audit_io \<Rightarrow> (string \<Rightarrow> stamp option) \<Rightarrow> audit_dir \<Rightarrow> 'u option \<Rightarrow> string option \<Rightarrow> string option \<Rightarrow> string option \<Rightarrow>
   string option \<Rightarrow> string option \<Rightarrow> string option \<Rightarrow> string option \<Rightarrow> int \<Rightarrow> int + nat \<times> log_entry list" where
  "query_audit_route io fromiso d caller user_id action outcome start_date end_date request_id task_id lmt =
     (case caller of
        None \<Rightarrow> Inl 401
      | Some _ \<Rightarrow>
          if lmt > 1000 then Inl 422
          else case query_from_disk io fromiso d user_id action outcome start_date end_date request_id task_id lmt of
                 None \<Rightarrow> Inl 500
               | Some es \<Rightarrow> Inr (length es, es))"

subsection \<open>The standard queries\<close>

definition all_entries :: "audit_io \<Rightarrow> audit_dir \<Rightarrow> stamp option \<Rightarrow> int \<Rightarrow> basic_entry list" where
  "all_entries io d since lmt =
     collect (\<lambda>e. case since of None \<Rightarrow> True | Some s \<Rightarrow> stamp_less (en_timestamp e) s = Some False) lmt
       (concat (map (entries_in io (ai_parse_basic io) d) (rev (days_of d)))) []"

text \<open>A list comprehension whose condition compares time stamps: \<^const>\<open>None\<close> when one comparison raises.\<close>

fun filter_opt :: "('a \<Rightarrow> bool option) \<Rightarrow> 'a list \<Rightarrow> 'a list option" where
  "filter_opt p [] = Some []"
| "filter_opt p (x # xs) =
     (case p x of None \<Rightarrow> None | Some b \<Rightarrow> map_option (\<lambda>ys. if b then x # ys else ys) (filter_opt p xs))"

definition filter_entries ::
  "basic_entry list \<Rightarrow> string option \<Rightarrow> string option \<Rightarrow> string option \<Rightarrow> stamp option \<Rightarrow> stamp option \<Rightarrow> basic_entry list option" where
  "filter_entries es user_id action outcome since until =
     (let out = filter (\<lambda>e. wants user_id (en_user_id e) \<and> wants action (en_action e) \<and> wants outcome (en_outcome e)) es;
          late = (case since of None \<Rightarrow> Some out | Some s \<Rightarrow> filter_opt (\<lambda>e. map_option Not (stamp_less (en_timestamp e) s)) out)
      in case late of
           None \<Rightarrow> None
         | Some ls \<Rightarrow> (case until of None \<Rightarrow> Some ls
             | Some u \<Rightarrow> filter_opt (\<lambda>e. map_option Not (stamp_less u (en_timestamp e))) ls))"

definition since_days :: "microseconds \<Rightarrow> int \<Rightarrow> stamp" where
  "since_days now days = Utc (now - days * day)"

definition recent :: "audit_io \<Rightarrow> audit_dir \<Rightarrow> microseconds \<Rightarrow> int \<Rightarrow> basic_entry list" where
  "recent io d now days = all_entries io d (Some (since_days now days)) 10000"

definition query_by_user :: "audit_io \<Rightarrow> audit_dir \<Rightarrow> microseconds \<Rightarrow> string \<Rightarrow> int \<Rightarrow> int \<Rightarrow> basic_entry list option" where
  "query_by_user io d now user_id days lmt =
     filter_entries (all_entries io d (Some (since_days now days)) lmt) (Some user_id) None None None None"

definition query_by_resource :: "audit_io \<Rightarrow> audit_dir \<Rightarrow> microseconds \<Rightarrow> string \<Rightarrow> string \<Rightarrow> int \<Rightarrow> basic_entry list" where
  "query_by_resource io d now rtype rid days =
     filter (\<lambda>e. en_resource_type e = rtype \<and> en_resource_id e = rid) (recent io d now days)"

definition query_permission_denials :: "audit_io \<Rightarrow> audit_dir \<Rightarrow> microseconds \<Rightarrow> int \<Rightarrow> basic_entry list" where
  "query_permission_denials io d now days = filter (\<lambda>e. en_outcome e = ''denied'') (recent io d now days)"

definition query_logins :: "audit_io \<Rightarrow> audit_dir \<Rightarrow> microseconds \<Rightarrow> string option \<Rightarrow> int \<Rightarrow> basic_entry list option" where
  "query_logins io d now user_id days = filter_entries (recent io d now days) user_id (Some ''auth.login'') None None None"

definition query_data_exports :: "audit_io \<Rightarrow> audit_dir \<Rightarrow> microseconds \<Rightarrow> int \<Rightarrow> basic_entry list option" where
  "query_data_exports io d now days = filter_entries (recent io d now days) None (Some ''data.export'') None None None"

definition is_config_change :: "basic_entry \<Rightarrow> bool" where
  "is_config_change e = prefix ''config.'' (en_action e)"

definition is_cross_tenant :: "basic_entry \<Rightarrow> bool" where
  "is_cross_tenant e = dict_has (en_details e) ''cross_tenant''"

definition is_deletion :: "basic_entry \<Rightarrow> bool" where
  "is_deletion e = (prefix ''delete'' (en_action e) \<or> en_outcome e = ''deletion'')"

definition query_config_changes :: "audit_io \<Rightarrow> audit_dir \<Rightarrow> microseconds \<Rightarrow> int \<Rightarrow> basic_entry list" where
  "query_config_changes io d now days = filter is_config_change (recent io d now days)"

definition query_cross_tenant_ops :: "audit_io \<Rightarrow> audit_dir \<Rightarrow> microseconds \<Rightarrow> int \<Rightarrow> basic_entry list" where
  "query_cross_tenant_ops io d now days = filter is_cross_tenant (recent io d now days)"

definition query_deletions :: "audit_io \<Rightarrow> audit_dir \<Rightarrow> microseconds \<Rightarrow> int \<Rightarrow> basic_entry list" where
  "query_deletions io d now days = filter is_deletion (recent io d now days)"

definition query_failures :: "audit_io \<Rightarrow> audit_dir \<Rightarrow> microseconds \<Rightarrow> int \<Rightarrow> basic_entry list option" where
  "query_failures io d now days = filter_entries (recent io d now days) None None (Some ''failure'') None None"

definition count_ips :: "basic_entry list \<Rightarrow> (string, nat) dict" where
  "count_ips es = foldl (\<lambda>d e. if en_outcome e \<in> {''denied'', ''failure''} \<and> en_ip_address e \<noteq> [] then bump d (en_ip_address e) else d) [] es"

definition query_suspicious_ips :: "audit_io \<Rightarrow> audit_dir \<Rightarrow> microseconds \<Rightarrow> int \<Rightarrow> int \<Rightarrow> (string \<times> nat \<times> int) list" where
  "query_suspicious_ips io d now days threshold =
     map (\<lambda>(ip, n). (ip, n, threshold))
       (filter (\<lambda>(ip, n). threshold \<le> int n) (sort_key (\<lambda>(ip, n). - int n) (count_ips (recent io d now days))))"

definition query_escalations :: "audit_io \<Rightarrow> audit_dir \<Rightarrow> microseconds \<Rightarrow> int \<Rightarrow> basic_entry list option" where
  "query_escalations io d now days = filter_entries (recent io d now days) None (Some ''agent.escalated'') None None None"

definition query_discussions :: "audit_io \<Rightarrow> audit_dir \<Rightarrow> microseconds \<Rightarrow> int \<Rightarrow> basic_entry list option" where
  "query_discussions io d now days = filter_entries (recent io d now days) None (Some ''agent.peer.discussion'') None None None"

definition query_billing_events :: "audit_io \<Rightarrow> audit_dir \<Rightarrow> microseconds \<Rightarrow> int \<Rightarrow> basic_entry list" where
  "query_billing_events io d now days = filter (\<lambda>e. prefix ''billing.'' (en_action e)) (recent io d now days)"

record custom_filter =
  cf_user_id :: "string option"
  cf_action :: "string option"
  cf_action_prefix :: "string option"
  cf_resource_type :: "string option"
  cf_resource_id :: "string option"
  cf_outcome :: "string option"
  cf_since :: "stamp option"
  cf_until :: "stamp option"
  cf_ip_address :: "string option"

fun custom_loop :: "custom_filter \<Rightarrow> int \<Rightarrow> basic_entry list \<Rightarrow> basic_entry list \<Rightarrow> basic_entry list option" where
  "custom_loop f lmt [] out = Some out"
| "custom_loop f lmt (e # es) out =
     (if \<not> (wants (cf_user_id f) (en_user_id e) \<and> wants (cf_action f) (en_action e) \<and>
            (case cf_action_prefix f of None \<Rightarrow> True | Some p \<Rightarrow> prefix p (en_action e)) \<and>
            wants (cf_resource_type f) (en_resource_type e) \<and> wants (cf_resource_id f) (en_resource_id e) \<and>
            wants (cf_outcome f) (en_outcome e))
      then custom_loop f lmt es out
      else case (case cf_until f of None \<Rightarrow> Some False | Some u \<Rightarrow> stamp_less u (en_timestamp e)) of
             None \<Rightarrow> None
           | Some late \<Rightarrow>
               if late \<or> \<not> wants (cf_ip_address f) (en_ip_address e) then custom_loop f lmt es out
               else if lmt \<le> int (length out) + 1 then Some (out @ [e])
               else custom_loop f lmt es (out @ [e]))"

definition custom_query :: "audit_io \<Rightarrow> audit_dir \<Rightarrow> microseconds \<Rightarrow> custom_filter \<Rightarrow> int \<Rightarrow> basic_entry list option" where
  "custom_query io d now f lmt =
     custom_loop f lmt (all_entries io d (Some (case cf_since f of None \<Rightarrow> since_days now 30 | Some s \<Rightarrow> s)) lmt) []"

subsection \<open>Alert rules\<close>

record alert_rule =
  ar_name :: string
  ar_severity :: string
  ar_window_minutes :: int
  ar_threshold :: int
  ar_description :: string

record alert_event =
  av_rule_name :: string
  av_severity :: string
  av_message :: string
  av_value :: int
  av_threshold :: int
  av_window_minutes :: int
  av_related_entries :: "string list"

definition default_rules :: "alert_rule list" where
  "default_rules =
     [\<lparr> ar_name = ''permission_denied_spike'', ar_severity = ''HIGH'', ar_window_minutes = 5, ar_threshold = 5,
        ar_description = ''5+ permission denials in 5 minutes'' \<rparr>,
      \<lparr> ar_name = ''login_failure_spike'', ar_severity = ''MEDIUM'', ar_window_minutes = 10, ar_threshold = 10,
        ar_description = ''10+ login failures in 10 minutes'' \<rparr>,
      \<lparr> ar_name = ''deletion_event'', ar_severity = ''HIGH'', ar_window_minutes = 0, ar_threshold = 1,
        ar_description = ''A deletion event occurred'' \<rparr>,
      \<lparr> ar_name = ''config_change'', ar_severity = ''MEDIUM'', ar_window_minutes = 0, ar_threshold = 1,
        ar_description = ''A config change occurred'' \<rparr>,
      \<lparr> ar_name = ''cross_tenant_access'', ar_severity = ''HIGH'', ar_window_minutes = 0, ar_threshold = 1,
        ar_description = ''A cross-tenant access was attempted'' \<rparr>]"

definition make_alert :: "alert_rule \<Rightarrow> nat \<Rightarrow> string \<Rightarrow> string list \<Rightarrow> alert_event" where
  "make_alert r value message ids =
     \<lparr> av_rule_name = ar_name r, av_severity = ar_severity r, av_message = message, av_value = int value,
       av_threshold = ar_threshold r, av_window_minutes = ar_window_minutes r, av_related_entries = ids \<rparr>"

definition alert_of :: "alert_rule \<Rightarrow> basic_entry list \<Rightarrow> (nat \<Rightarrow> string) \<Rightarrow> alert_event list" where
  "alert_of r matched message =
     (if ar_threshold r \<le> int (length matched)
      then [make_alert r (length matched) (message (length matched)) (map (\<lambda>e. stamp_iso (en_timestamp e)) (take 5 matched))]
      else [])"

definition check_count_rule :: "alert_rule \<Rightarrow> basic_entry list \<Rightarrow> string \<Rightarrow> string option \<Rightarrow> alert_event list" where
  "check_count_rule r es outcome action_filter =
     alert_of r (filter (\<lambda>e. en_outcome e = outcome \<and> wants action_filter (en_action e)) es)
       (\<lambda>n. show_int (int n) @ '' '' @ outcome @ '' events (threshold '' @ show_int (ar_threshold r) @ '')'')"

text \<open>2000-01-01 in microseconds, the start of \<open>all time\<close>.\<close>

definition year_2000 :: microseconds where
  "year_2000 = 10957 * day"

definition rule_since :: "alert_rule \<Rightarrow> int option \<Rightarrow> microseconds \<Rightarrow> stamp" where
  "rule_since r window_minutes now =
     (if ar_window_minutes r > 0
      then Utc (now - (case window_minutes of None \<Rightarrow> ar_window_minutes r
                       | Some w \<Rightarrow> if w = 0 then ar_window_minutes r else w) * 60000000)
      else Utc year_2000)"

definition evaluate_rule :: "audit_io \<Rightarrow> audit_dir \<Rightarrow> int option \<Rightarrow> microseconds \<Rightarrow> alert_rule \<Rightarrow> alert_event list" where
  "evaluate_rule io d window_minutes now r =
     (let es = all_entries io d (Some (rule_since r window_minutes now)) 10000 in
      if ar_name r = ''permission_denied_spike'' then check_count_rule r es ''denied'' None
      else if ar_name r = ''login_failure_spike'' then check_count_rule r es ''failure'' (Some ''auth.login'')
      else if ar_name r = ''deletion_event''
      then alert_of r (filter is_deletion es) (\<lambda>n. show_int (int n) @ '' deletion(s) detected'')
      else if ar_name r = ''config_change''
      then alert_of r (filter is_config_change es) (\<lambda>n. show_int (int n) @ '' config change(s) detected'')
      else if ar_name r = ''cross_tenant_access''
      then alert_of r (filter is_cross_tenant es) (\<lambda>n. show_int (int n) @ '' cross-tenant attempt(s) detected'')
      else [])"

definition evaluate_alerts :: "audit_io \<Rightarrow> audit_dir \<Rightarrow> int option \<Rightarrow> microseconds \<Rightarrow> alert_rule list \<Rightarrow> alert_event list" where
  "evaluate_alerts io d window_minutes now rules = concat (map (evaluate_rule io d window_minutes now) rules)"

subsection \<open>Collecting\<close>

lemma collect_acc: "collect p lmt xs acc = acc @ take (nat (max 1 (lmt - int (length acc)))) (filter p xs)"
proof (induction xs arbitrary: acc)
  case (Cons x xs)
  show ?case
  proof (cases "p x \<and> \<not> lmt \<le> int (length acc) + 1")
    case True
    then have "nat (max 1 (lmt - int (length acc))) = Suc (nat (max 1 (lmt - int (length (acc @ [x])))))" by auto
    with True Cons[of "acc @ [x]"] show ?thesis by simp
  next
    case False
    then have "p x \<Longrightarrow> nat (max 1 (lmt - int (length acc))) = Suc 0" by simp
    with False show ?thesis using Cons[of acc] by auto
  qed
qed simp

lemma collect_take: "collect p lmt xs [] = take (nat (max 1 lmt)) (filter p xs)"
  by (simp add: collect_acc)

lemma all_entries_take:
  "all_entries io d since lmt = take (nat (max 1 lmt))
     (filter (\<lambda>e. case since of None \<Rightarrow> True | Some s \<Rightarrow> stamp_less (en_timestamp e) s = Some False)
       (concat (map (entries_in io (ai_parse_basic io) d) (rev (days_of d)))))"
  by (simp add: all_entries_def collect_take)

subsection \<open>Nothing is lost between the queue and the files\<close>

datatype audit_op = LogEntry log_entry rat | FlushBatch

fun audit_step :: "audit_io \<Rightarrow> audit_config \<Rightarrow> audit_state \<Rightarrow> audit_op \<Rightarrow> audit_state" where
  "audit_step io cfg st (LogEntry e draw) = fst (batch_log cfg st e draw)"
| "audit_step io cfg st FlushBatch = fst (flush_batch io cfg st)"

definition run_audit :: "audit_io \<Rightarrow> audit_config \<Rightarrow> audit_op list \<Rightarrow> audit_state" where
  "run_audit io cfg ops = foldl (audit_step io cfg) new_audit ops"

definition logged :: "audit_op list \<Rightarrow> log_entry list" where
  "logged ops = List.map_filter (\<lambda>oper. case oper of LogEntry e _ \<Rightarrow> Some e | FlushBatch \<Rightarrow> None) ops"

definition pending :: "audit_state \<Rightarrow> log_entry list" where
  "pending st = (case au_queue st of None \<Rightarrow> [] | Some q \<Rightarrow> q)"

text \<open>The files hold the texts of the entries \<open>w\<close>, each in the file of its day, in order.\<close>

definition holds_lines :: "audit_io \<Rightarrow> audit_dir \<Rightarrow> log_entry list \<Rightarrow> bool" where
  "holds_lines io d w \<longleftrightarrow> dict_ok d \<and> (\<forall>k. dict_get_or d k [] = map (ai_dump io) (filter (\<lambda>e. entry_day e = k) w))"

lemma group_holds: "holds_lines io (group_by_day io batch) batch"
  by (simp add: group_by_day_def holds_lines_def grouped_get)

lemma write_groups_all:
  assumes "\<And>k. \<not> ai_write_fails io k"
  shows "dict_ok gs \<Longrightarrow> dict_ok d \<Longrightarrow> \<exists>n'. write_groups io gs n d = (fst (write_groups io gs n d), Some n') \<and>
    dict_ok (fst (write_groups io gs n d)) \<and>
    (\<forall>k. dict_get_or (fst (write_groups io gs n d)) k [] = dict_get_or d k [] @ dict_get_or gs k [])"
proof (induction gs arbitrary: n d)
  case (Cons g gs)
  obtain k ls where g: "g = (k, ls)" by (cases g)
  have "dict_get gs k = None" using Cons.prems by (auto simp: g map_of_eq_None_iff)
  with Cons.IH[of "append_at d k ls" "n + length ls"] Cons.prems show ?case
    by (auto simp: g assms append_at_def dict_get_or_def)
qed simp

lemma write_batch_holds:
  assumes "\<And>k. \<not> ai_write_fails io k" and "holds_lines io d w"
  shows "holds_lines io (fst (write_batch io batch d)) (w @ batch)"
  using write_groups_all[OF assms(1), of "group_by_day io batch" d 0] group_holds[of io batch] assms(2)
  by (auto simp: holds_lines_def write_batch_def split: prod.split option.split)

text \<open>After any logging and flushing, the entries that are in the files or in the queue are those that were logged,
  less some that a full queue dropped.\<close>

definition audit_inv :: "audit_io \<Rightarrow> audit_config \<Rightarrow> audit_state \<Rightarrow> log_entry list \<Rightarrow> log_entry list \<Rightarrow> bool" where
  "audit_inv io cfg st w es \<longleftrightarrow>
     au_memory st = es \<and> holds_lines io (au_dir st) w \<and> subseq (w @ pending st) es \<and>
     (0 < ac_queue_max_size cfg \<longrightarrow> int (length (pending st)) \<le> ac_queue_max_size cfg) \<and>
     (ac_queue_max_size cfg \<le> 0 \<or> int (length es) \<le> ac_queue_max_size cfg \<longrightarrow> w @ pending st = es)"

lemma subseq_drop_mid:
  assumes "subseq (w @ q) es"
  shows "subseq (w @ tl q @ [e]) (es @ [e])"
proof -
  have "subseq (tl q) q" by (cases q) auto
  then have "subseq (w @ tl q) (w @ q)" by (intro list_emb_append_mono) simp_all
  then have "subseq ((w @ tl q) @ [e]) (es @ [e])"
    using assms by (intro list_emb_append_mono) (auto intro: subseq_order.order_trans)
  then show ?thesis by simp
qed

lemma pending_ensure [simp]: "pending (ensure_queue st) = pending st" "au_queue (ensure_queue st) = Some (pending st)"
  "au_memory (ensure_queue st) = au_memory st" "au_dir (ensure_queue st) = au_dir st"
  by (auto simp: pending_def ensure_queue_def split: option.split)

lemma pending_memory [simp]: "pending (st\<lparr>au_memory := m\<rparr>) = pending st" "pending (st\<lparr>au_queue := Some q\<rparr>) = q"
  "pending (st\<lparr>au_queue := Some q, au_dir := d\<rparr>) = q"
  by (simp_all add: pending_def)

lemma log_inv:
  assumes "audit_inv io cfg st w es" and "ac_enabled cfg" "1 \<le> ac_sampling_rate cfg"
  shows "audit_inv io cfg (fst (batch_log cfg st e draw)) w (es @ [e])"
proof (cases "0 < ac_queue_max_size cfg \<and> ac_queue_max_size cfg \<le> int (length (pending st))")
  case full: True
  then have "int (length (tl (pending st))) < ac_queue_max_size cfg"
    using assms(1) by (cases "pending st") (auto simp: audit_inv_def)
  moreover have "length (pending st) \<le> length es"
    using assms(1) list_emb_length[of "(=)" "w @ pending st" es] by (simp add: audit_inv_def)
  then have "\<not> int (length (es @ [e])) \<le> ac_queue_max_size cfg" using full by simp
  ultimately show ?thesis using full assms
    by (auto simp: audit_inv_def batch_log_def put_nowait_def Let_def subseq_drop_mid)
next
  case False
  with assms show ?thesis
    by (auto simp: audit_inv_def batch_log_def put_nowait_def Let_def intro: list_emb_append_mono[of _ "w @ pending st" _ "[e]", simplified])
qed

lemma flush_inv:
  assumes "audit_inv io cfg st w es" and "\<And>k. \<not> ai_write_fails io k"
  shows "\<exists>w'. audit_inv io cfg (fst (flush_batch io cfg st)) w' es"
proof -
  let ?n = "nat (ac_batch_size cfg)"
  have "w @ take ?n (pending st) @ drop ?n (pending st) = w @ pending st" by simp
  moreover have "holds_lines io (fst (write_batch io (take ?n (pending st)) (au_dir st))) (w @ take ?n (pending st))"
    by (rule write_batch_holds[OF assms(2)]) (use assms(1) in \<open>simp add: audit_inv_def\<close>)
  ultimately have "audit_inv io cfg (fst (flush_batch io cfg st)) (w @ take ?n (pending st)) es \<or> fst (flush_batch io cfg st) = st"
    using assms(1) unfolding audit_inv_def flush_batch_def
    by (auto simp: Let_def split: option.split prod.split if_splits) (auto simp: pending_def)
  with assms(1) show ?thesis by metis
qed

lemma run_audit_inv:
  assumes "ac_enabled cfg" "1 \<le> ac_sampling_rate cfg" "\<And>k. \<not> ai_write_fails io k"
  shows "\<exists>w. audit_inv io cfg (run_audit io cfg ops) w (logged ops)"
proof (induction ops rule: rev_induct)
  case Nil
  have "audit_inv io cfg (run_audit io cfg []) [] (logged [])"
    by (simp add: audit_inv_def run_audit_def new_audit_def logged_def List.map_filter_def pending_def holds_lines_def)
  then show ?case by blast
next
  case (snoc oper ops)
  then obtain w where w: "audit_inv io cfg (run_audit io cfg ops) w (logged ops)" by blast
  show ?case
  proof (cases oper)
    case (LogEntry e draw)
    with log_inv[OF w assms(1,2), of e draw] show ?thesis by (auto simp: run_audit_def logged_def List.map_filter_def)
  next
    case FlushBatch
    with flush_inv[OF w assms(3)] show ?thesis by (auto simp: run_audit_def logged_def List.map_filter_def)
  qed
qed

text \<open>The batch logger with sampling off keeps every entry in memory; in whatever order entries are logged and
  batches flushed, each file holds the lines of its day in order, what is in the files and the queue are
  entries that were logged, in order, the queue stays within its bound, and as long as no more entries were
  logged than it holds, nothing is lost.\<close>

theorem audit_log_conserved:
  assumes "ac_enabled cfg" "1 \<le> ac_sampling_rate cfg" and "\<And>k. \<not> ai_write_fails io k" and "st = run_audit io cfg ops"
  shows "au_memory st = logged ops \<and>
    (\<exists>w. (\<forall>k. dict_get_or (au_dir st) k [] = map (ai_dump io) (filter (\<lambda>e. entry_day e = k) w)) \<and>
         subseq (w @ pending st) (logged ops) \<and>
         (ac_queue_max_size cfg \<le> 0 \<or> int (length (logged ops)) \<le> ac_queue_max_size cfg \<longrightarrow> w @ pending st = logged ops)) \<and>
    (0 < ac_queue_max_size cfg \<longrightarrow> int (length (pending st)) \<le> ac_queue_max_size cfg)"
  using run_audit_inv[OF assms(1-3), of ops] by (auto simp: assms(4) audit_inv_def holds_lines_def)

definition sample_io :: audit_io where
  "sample_io = \<lparr> ai_dump = (\<lambda>e. en_user_id e), ai_dump_basic = (\<lambda>e. en_user_id e), ai_parse = (\<lambda>_. None), ai_parse_basic = (\<lambda>_. None),
     ai_write_fails = (\<lambda>_. False), ai_read_fails = (\<lambda>_. False) \<rparr>"

definition sample_entry :: "string \<Rightarrow> log_entry" where
  "sample_entry u = \<lparr> en_timestamp = Naive 0, en_user_id = u, en_action = ''task.submit'', en_resource_id = ''t1'', en_resource_type = ''task'',
     en_details = [], en_ip_address = [], en_user_agent = [], en_outcome = ''success'', en_request_id = [], en_tenant_id = [],
     en_session_id = [], en_duration_ms = 0, en_task_id = [] \<rparr>"

theorem audit_log_conserved_witness:
  "\<exists>w. (let st = run_audit sample_io default_audit_config [LogEntry (sample_entry ''ann'') 0, FlushBatch, LogEntry (sample_entry ''bob'') 0] in
     w @ pending st = [sample_entry ''ann'', sample_entry ''bob''] \<and> int (length (pending st)) \<le> 10000)"
  using audit_log_conserved[where cfg = default_audit_config and io = sample_io
      and ops = "[LogEntry (sample_entry ''ann'') 0, FlushBatch, LogEntry (sample_entry ''bob'') 0]", OF _ _ _ refl]
  by (auto simp: default_audit_config_def sample_io_def logged_def List.map_filter_def Let_def)

subsection \<open>What was flushed is found\<close>

text \<open>The lines of an entry are read back.\<close>

definition io_laws :: "audit_io \<Rightarrow> log_entry list \<Rightarrow> bool" where
  "io_laws io es \<longleftrightarrow>
     (\<forall>e \<in> set es. strip (ai_dump io e) \<noteq> [] \<and> ai_parse io (strip (ai_dump io e)) = Some e \<and>
          ai_parse_basic io (strip (ai_dump io e)) = Some (basic_entry.truncate e)) \<and>
     (\<forall>k. \<not> ai_write_fails io k \<and> \<not> ai_read_fails io k)"

lemma entries_of_lines:
  assumes "\<And>e. e \<in> set es \<Longrightarrow> strip (ai_dump io e) \<noteq> [] \<and> parse (strip (ai_dump io e)) = Some (f e)" "\<not> ai_read_fails io k"
    and "dict_get_or d k [] = map (ai_dump io) es"
  shows "entries_in io parse d k = map f es"
proof -
  have "List.map_filter (\<lambda>l. let s = strip l in if s = [] then None else parse s) (map (ai_dump io) es) = map f es"
    using assms(1) by (induction es) (simp_all add: Let_def List.map_filter_simps)
  then show ?thesis using assms(2,3) by (simp add: entries_in_def)
qed

lemma held_entries:
  assumes "io_laws io w" and "holds_lines io d w"
  shows "entries_in io (ai_parse io) d k = filter (\<lambda>e. entry_day e = k) w"
    and "entries_in io (ai_parse_basic io) d k = map basic_entry.truncate (filter (\<lambda>e. entry_day e = k) w)"
proof -
  have l: "dict_get_or d k [] = map (ai_dump io) (filter (\<lambda>e. entry_day e = k) w)" using assms(2) by (simp add: holds_lines_def)
  have "entries_in io (ai_parse io) d k = map (\<lambda>e. e) (filter (\<lambda>e. entry_day e = k) w)"
    by (rule entries_of_lines[OF _ _ l]) (use assms(1) in \<open>auto simp: io_laws_def\<close>)
  then show "entries_in io (ai_parse io) d k = filter (\<lambda>e. entry_day e = k) w" by simp
  show "entries_in io (ai_parse_basic io) d k = map basic_entry.truncate (filter (\<lambda>e. entry_day e = k) w)"
    by (rule entries_of_lines[OF _ _ l]) (use assms(1) in \<open>auto simp: io_laws_def\<close>)
qed

lemma held_days:
  assumes "holds_lines io d w"
  shows "sorted (days_of d)" "distinct (days_of d)" "entry_day ` set w \<subseteq> set (days_of d)"
proof -
  show "sorted (days_of d)" "distinct (days_of d)" using assms by (simp_all add: days_of_def holds_lines_def)
  have "entry_day e \<in> set (days_of d)" if "e \<in> set w" for e
  proof -
    have "dict_get_or d (entry_day e) [] \<noteq> []" using assms that by (auto simp: holds_lines_def filter_empty_conv)
    then have "dict_has d (entry_day e)" by (cases "dict_get d (entry_day e)") (simp_all add: dict_get_or_def)
    then show ?thesis by (auto simp: days_of_def image_iff dest: map_of_SomeD) (metis fst_conv map_of_SomeD)
  qed
  then show "entry_day ` set w \<subseteq> set (days_of d)" by blast
qed

text \<open>C15: Once the queue is empty and was never full, a query over the files finds exactly the entries that were logged
  and match all filters, by day and within a day in the order they were logged, the first \<open>limit\<close> of them
  (one when the limit is not positive). It rests on the lines being read back as they were written.\<close>

theorem flushed_entries_found:
  assumes "io_laws io (logged ops)" and "ac_enabled cfg" "1 \<le> ac_sampling_rate cfg" and "st = run_audit io cfg ops" "pending st = []"
    and "ac_queue_max_size cfg \<le> 0 \<or> int (length (logged ops)) \<le> ac_queue_max_size cfg"
  shows "query_from_disk io fromiso (au_dir st) user_id action outcome None None request_id task_id lmt =
    Some (take (nat (max 1 lmt)) (filter (disk_wants user_id action outcome request_id task_id) (sort_key entry_day (logged ops))))"
proof -
  have "\<And>k. \<not> ai_write_fails io k" using assms(1) by (simp add: io_laws_def)
  from run_audit_inv[OF assms(2,3) this] obtain w where "audit_inv io cfg st w (logged ops)"
    unfolding assms(4) by blast
  then have w: "holds_lines io (au_dir st) (logged ops)" using assms(5,6) by (auto simp: audit_inv_def)
  have "filter (day_in_range None None) (days_of (au_dir st)) = days_of (au_dir st)"
    by (simp add: day_in_range_def)
  moreover have "map (entries_in io (ai_parse io) (au_dir st)) = map (\<lambda>k. filter (\<lambda>e. entry_day e = k) (logged ops))"
    by (rule arg_cong[of _ _ map]) (rule ext, rule held_entries(1)[OF assms(1) w])
  ultimately show ?thesis
    using concat_filter_sort[OF held_days[OF w]] by (simp add: query_from_disk_def opt_stamp_def collect_take)
qed

definition one_entry_io :: "log_entry \<Rightarrow> audit_io" where
  "one_entry_io e = sample_io \<lparr> ai_parse := (\<lambda>s. if s = en_user_id e then Some e else None),
     ai_parse_basic := (\<lambda>s. if s = en_user_id e then Some (basic_entry.truncate e) else None) \<rparr>"

lemma one_entry_laws:
  assumes "strip (en_user_id e) = en_user_id e" "en_user_id e \<noteq> []"
  shows "io_laws (one_entry_io e) [e]"
  using assms by (simp add: io_laws_def one_entry_io_def sample_io_def)

lemma flush_one: "pending (run_audit io default_audit_config [LogEntry e 0, FlushBatch]) = []"
proof -
  have "batch_log default_audit_config new_audit e 0 =
      (\<lparr> au_memory = [e], au_dir = [], au_queue = Some [e], au_closed = False \<rparr>, True)"
    by (simp add: batch_log_def default_audit_config_def new_audit_def ensure_queue_def put_nowait_def)
  moreover have "take (nat (ac_batch_size default_audit_config)) [e] = [e]" by (simp add: default_audit_config_def)
  ultimately show ?thesis by (simp add: run_audit_def flush_batch_def split_def Let_def pending_def)
qed

theorem flushed_entries_found_witness:
  "query_from_disk (one_entry_io (sample_entry ''ann'')) (\<lambda>_. None)
     (au_dir (run_audit (one_entry_io (sample_entry ''ann'')) default_audit_config [LogEntry (sample_entry ''ann'') 0, FlushBatch]))
     (Some ''ann'') None None None None None None 100 = Some [sample_entry ''ann'']"
proof -
  let ?e = "sample_entry ''ann''"
  have l: "logged [LogEntry ?e 0, FlushBatch] = [?e]" by (simp add: logged_def List.map_filter_def)
  have u: "en_user_id ?e = ''ann''" by (simp add: sample_entry_def)
  have "strip ''ann'' = ''ann''" by code_simp
  then have "io_laws (one_entry_io ?e) (logged [LogEntry ?e 0, FlushBatch])" unfolding l by (intro one_entry_laws) (simp_all add: u)
  note found = flushed_entries_found[OF this _ _ refl flush_one, where user_id = "Some ''ann''" and action = None and outcome = None
      and request_id = None and task_id = None and lmt = 100 and fromiso = "\<lambda>_. None", unfolded l]
  show ?thesis
    by (subst found) (simp_all add: default_audit_config_def disk_wants_def wants_def wants_task_def u)
qed

subsection \<open>When an alert fires\<close>

text \<open>The reference: what each rule looks for.\<close>

definition rule_matches :: "alert_rule \<Rightarrow> basic_entry \<Rightarrow> bool" where
  "rule_matches r e =
     (if ar_name r = ''permission_denied_spike'' then en_outcome e = ''denied''
      else if ar_name r = ''login_failure_spike'' then en_outcome e = ''failure'' \<and> en_action e = ''auth.login''
      else if ar_name r = ''deletion_event'' then is_deletion e
      else if ar_name r = ''config_change'' then is_config_change e
      else is_cross_tenant e)"

definition seen_since :: "audit_io \<Rightarrow> audit_dir \<Rightarrow> stamp \<Rightarrow> basic_entry list" where
  "seen_since io d s =
     filter (\<lambda>e. stamp_less (en_timestamp e) s = Some False) (concat (map (entries_in io (ai_parse_basic io) d) (rev (days_of d))))"

lemma all_entries_seen: "all_entries io d (Some s) lmt = take (nat (max 1 lmt)) (seen_since io d s)"
  by (simp add: all_entries_take seen_since_def)

lemma evaluate_rule_default:
  assumes "r \<in> set default_rules"
  shows "\<exists>message. evaluate_rule io d wm now r =
    alert_of r (filter (rule_matches r) (take 10000 (seen_since io d (rule_since r wm now)))) message"
  using assms
  by (auto simp: default_rules_def evaluate_rule_def check_count_rule_def rule_matches_def[abs_def] wants_def Let_def all_entries_seen)

text \<open>The entries of a time stamp without a zone, which is what the API writes, are passed over by every query with a time
  limit, so the alerts see none of them.\<close>

lemma naive_entries_unseen:
  assumes "\<And>k e. e \<in> set (entries_in io (ai_parse_basic io) d k) \<Longrightarrow> \<exists>t. en_timestamp e = Naive t"
  shows "seen_since io d (Utc s) = []"
proof -
  have "stamp_less (Naive t) (Utc s) \<noteq> Some False" for t by simp
  then show ?thesis using assms unfolding seen_since_def by (fastforce simp: filter_empty_conv)
qed

lemma api_entries_never_alert:
  assumes "io_laws io w" "holds_lines io d w" and "\<And>e. e \<in> set w \<Longrightarrow> \<exists>t. en_timestamp e = Naive t"
  shows "evaluate_alerts io d wm now default_rules = []" and "recent io d now days = []"
proof -
  have naive: "\<exists>t. en_timestamp e = Naive t" if "e \<in> set (entries_in io (ai_parse_basic io) d k)" for k e
    using that assms(3) unfolding held_entries(2)[OF assms(1,2)] by (auto simp: basic_entry.truncate_def)
  have none: "seen_since io d (Utc s) = []" for s by (rule naive_entries_unseen[OF naive])
  have "evaluate_rule io d wm now r = []" if "r \<in> set default_rules" for r
  proof -
    have "seen_since io d (rule_since r wm now) = []" by (simp add: rule_since_def none)
    moreover have "0 < ar_threshold r" using that by (auto simp: default_rules_def)
    ultimately show ?thesis using evaluate_rule_default[OF that, of io d wm now] by (auto simp: alert_of_def)
  qed
  then show "evaluate_alerts io d wm now default_rules = []" by (simp add: evaluate_alerts_def)
  show "recent io d now days = []" by (simp add: recent_def since_days_def all_entries_seen none)
qed

text \<open>An evaluation raises one alert for each default rule whose matches among the entries of its window, counted in the
  10000 that are read first (newest day first), reach its threshold, in the order of the rules and with that
  count as value; it raises no other.\<close>

theorem alerts_exact:
  "map (\<lambda>a. (av_rule_name a, av_value a)) (evaluate_alerts io d wm now default_rules) =
   List.map_filter (\<lambda>r. let n = int (length (filter (rule_matches r) (take 10000 (seen_since io d (rule_since r wm now))))) in
     if ar_threshold r \<le> n then Some (ar_name r, n) else None) default_rules"
proof -
  have "map (\<lambda>a. (av_rule_name a, av_value a)) (concat (map (evaluate_rule io d wm now) rs)) =
   List.map_filter (\<lambda>r. let n = int (length (filter (rule_matches r) (take 10000 (seen_since io d (rule_since r wm now))))) in
     if ar_threshold r \<le> n then Some (ar_name r, n) else None) rs" if "set rs \<subseteq> set default_rules" for rs
    using that
  proof (induction rs)
    case (Cons r rs)
    obtain m where "evaluate_rule io d wm now r =
        alert_of r (filter (rule_matches r) (take 10000 (seen_since io d (rule_since r wm now)))) m"
      using evaluate_rule_default[of r io d wm now] Cons.prems by auto
    with Cons show ?case by (simp add: alert_of_def make_alert_def List.map_filter_simps Let_def)
  qed (simp add: List.map_filter_simps)
  then show ?thesis by (simp add: evaluate_alerts_def)
qed

text \<open>\<open>flush\<close> and \<open>close\<close> write one batch: with more than a batch in the queue, entries stay there for ever.\<close>

lemma close_leaves_entries:
  "pending (close_audit io cfg st) = (if take (nat (ac_batch_size cfg)) (pending st) = [] then pending st
     else drop (nat (ac_batch_size cfg)) (pending st))"
  by (auto simp: close_audit_def flush_batch_def pending_def Let_def split: option.split prod.split)

lemma date_filters_ignored: "memory_query st u a (Some s) (Some f) t lmt = memory_query st u a None None t lmt"
  by (simp add: memory_query_def)

lemma limit_zero_yields_one: "collect p 0 (x # xs) [] = (if p x then [x] else collect p 0 xs [])"
  by simp

text \<open>The limit cuts before the user is looked at: a user whose entries come after those of others is not found.\<close>

lemma user_query_after_limit:
  "query_by_user io d now u days lmt = Some (filter (\<lambda>e. wants (Some u) (en_user_id e))
     (take (nat (max 1 lmt)) (seen_since io d (since_days now days))))"
  by (simp add: query_by_user_def filter_entries_def wants_def all_entries_seen)

lemma route_needs_no_role: "query_audit_route io fi d (Some u) a b c s f r t lmt = query_audit_route io fi d (Some v) a b c s f r t lmt"
  by (simp add: query_audit_route_def)

end
