(* ===== verification/Graph_Storage.thy ===== *)
theory Graph_Storage
  imports Dataview_Exec Grouping
begin

section \<open>The graph on disk (memory/persistence.py)\<close>

text \<open>
  The files of the graph: a node under the directory of its type and its id, the links as lines under the month of
  their creation (year times 12 plus month), the archived nodes with their time of modification. The texts of nodes and
  links (json and pydantic), and which ids can be file names, are fields of \<open>disk_io\<close>; a write fails as a whole. An
  id with a slash names a file elsewhere and is not writable here. The directory is a parameter of each function
  of the code, and the facade over other back ends is left out.
\<close>

datatype link_line = BadJson | BadLink | GoodLink graph_link

record disk_io =
  di_node_text :: "graph_node \<Rightarrow> string"
  di_read_node :: "string \<Rightarrow> graph_node option"
  di_link_text :: "graph_link \<Rightarrow> string"
  di_read_link :: "string \<Rightarrow> link_line"
  di_writable :: "string \<Rightarrow> bool"
  di_link_fails :: "int \<Rightarrow> bool"

record graph_disk =
  dk_nodes :: "(node_type \<times> string, string) dict"
  dk_links :: "(int, string list) dict"
  dk_archive :: "(node_type \<times> string, string \<times> microseconds) dict"

definition empty_disk :: graph_disk where
  "empty_disk = \<lparr> dk_nodes = [], dk_links = [], dk_archive = [] \<rparr>"

subsection \<open>Saving\<close>

definition save_node :: "disk_io \<Rightarrow> graph_disk \<Rightarrow> graph_node \<Rightarrow> graph_disk \<times> bool" where
  "save_node io d n =
     (if di_writable io (gn_id n)
      then (d\<lparr>dk_nodes := dict_set (dk_nodes d) (gn_type n, gn_id n) (di_node_text io n)\<rparr>, True)
      else (d, False))"

definition month_of :: "microseconds \<Rightarrow> int" where
  "month_of t = (case civil_of_days (t div day) of (y, m, _) \<Rightarrow> y * 12 + (m - 1))"

definition save_link :: "disk_io \<Rightarrow> graph_disk \<Rightarrow> graph_link \<Rightarrow> graph_disk \<times> bool" where
  "save_link io d l =
     (let k = month_of (gl_created_at l) in
      if di_link_fails io k then (d, False)
      else (d\<lparr>dk_links := append_at (dk_links d) k [di_link_text io l]\<rparr>, True))"

fun save_nodes :: "disk_io \<Rightarrow> graph_node list \<Rightarrow> graph_disk \<times> nat \<Rightarrow> graph_disk \<times> nat" where
  "save_nodes io [] st = st"
| "save_nodes io (n # ns) (d, c) = (let (d', ok) = save_node io d n in save_nodes io ns (d', if ok then c + 1 else c))"

fun save_links :: "disk_io \<Rightarrow> graph_link list \<Rightarrow> graph_disk \<times> nat \<Rightarrow> graph_disk \<times> nat" where
  "save_links io [] st = st"
| "save_links io (l # ls) (d, c) = (let (d', ok) = save_link io d l in save_links io ls (d', if ok then c + 1 else c))"

definition all_links :: "graph \<Rightarrow> graph_link list" where
  "all_links g = concat (dict_values (gr_out g))"

definition save_graph :: "disk_io \<Rightarrow> graph_disk \<Rightarrow> graph \<Rightarrow> graph_disk \<times> nat" where
  "save_graph io d g = save_links io (all_links g) (save_nodes io (dict_values (gr_nodes g)) (d, 0))"

subsection \<open>Loading\<close>

text \<open>\<open>dirs\<close> is the order in which the directories of the types are listed.\<close>

fun load_node :: "disk_io \<Rightarrow> graph_disk \<Rightarrow> node_type list \<Rightarrow> string \<Rightarrow> graph_node option" where
  "load_node io d [] k = None"
| "load_node io d (ty # tys) k =
     (case dict_get (dk_nodes d) (ty, k) of
        None \<Rightarrow> load_node io d tys k
      | Some s \<Rightarrow> di_read_node io s)"

definition node_files :: "graph_disk \<Rightarrow> (node_type \<times> string) list" where
  "node_files d =
     concat (map (\<lambda>ty. map (Pair ty) (sort_by (\<lambda>a b. str_cmp (a @ ''.json'') (b @ ''.json'') = Less)
         (map snd (filter (\<lambda>k. fst k = ty) (map fst (dk_nodes d))))))
       (sort_by (\<lambda>a b. str_cmp (node_type_value a) (node_type_value b) = Less) all_node_types))"

definition read_file :: "disk_io \<Rightarrow> graph_disk \<Rightarrow> node_type \<times> string \<Rightarrow> graph_node option" where
  "read_file io d k = (case dict_get (dk_nodes d) k of None \<Rightarrow> None | Some s \<Rightarrow> di_read_node io s)"

definition put_node :: "graph \<Rightarrow> graph_node \<Rightarrow> graph" where
  "put_node g n = g\<lparr>gr_nodes := dict_set (gr_nodes g) (gn_id n) n,
     gr_types := dict_set (gr_types g) (gn_type n) (List.insert (gn_id n) (dict_get_or (gr_types g) (gn_type n) []))\<rparr>"

text \<open>A line that is not json is skipped; one that is no link ends the file.\<close>

fun month_links :: "disk_io \<Rightarrow> string list \<Rightarrow> graph_link list" where
  "month_links io [] = []"
| "month_links io (s # ss) =
     (let line = strip s in
      if line = [] then month_links io ss
      else case di_read_link io line of
             BadJson \<Rightarrow> month_links io ss
           | BadLink \<Rightarrow> []
           | GoodLink l \<Rightarrow> l # month_links io ss)"

definition put_link :: "graph \<Rightarrow> graph_link \<Rightarrow> graph" where
  "put_link g l = g\<lparr>gr_out := append_at (gr_out g) (gl_source l) [l], gr_in := append_at (gr_in g) (gl_target l) [l]\<rparr>"

definition loaded_links :: "disk_io \<Rightarrow> graph_disk \<Rightarrow> graph_link list" where
  "loaded_links io d = concat (map (\<lambda>k. month_links io (dict_get_or (dk_links d) k [])) (sort (map fst (dk_links d))))"

definition load_graph :: "disk_io \<Rightarrow> graph_disk \<Rightarrow> graph" where
  "load_graph io d = foldl put_link (foldl put_node empty_graph (List.map_filter (read_file io d) (node_files d))) (loaded_links io d)"

subsection \<open>The archive\<close>

text \<open>\<open>strftime("%Y%m%d-%H%M%S")\<close>\<close>

definition archive_stamp :: "microseconds \<Rightarrow> string" where
  "archive_stamp t =
     (let secs = t mod day div 1000000 in
      case civil_of_days (t div day) of (y, m, dy) \<Rightarrow>
        padded 4 y @ padded 2 m @ padded 2 dy @ ''-'' @ padded 2 (secs div 3600) @ padded 2 (secs div 60 mod 60) @ padded 2 (secs mod 60))"

definition archive_node_to_disk :: "disk_io \<Rightarrow> graph_disk \<Rightarrow> graph_node \<Rightarrow> microseconds \<Rightarrow> graph_disk \<times> bool" where
  "archive_node_to_disk io d n now =
     (if di_writable io (gn_id n)
      then (d\<lparr>dk_archive := dict_set (dk_archive d) (gn_type n, gn_id n @ ''-'' @ archive_stamp (gn_updated_at n)) (di_node_text io n, now)\<rparr>, True)
      else (d, False))"

definition list_archived :: "graph_disk \<Rightarrow> (node_type \<times> string) list" where
  "list_archived d = map fst (dk_archive d)"

definition vacuum_archived :: "graph_disk \<Rightarrow> int \<Rightarrow> microseconds \<Rightarrow> graph_disk \<times> nat" where
  "vacuum_archived d retention_days now =
     (let old = (\<lambda>f. snd (snd f) < now - retention_days * day) in
      (d\<lparr>dk_archive := filter (\<lambda>f. \<not> old f) (dk_archive d)\<rparr>, length (filter old (dk_archive d))))"

subsection \<open>What was saved is loaded\<close>

text \<open>The texts of the nodes and links of the graph are read back, and nothing fails.\<close>

definition disk_laws :: "disk_io \<Rightarrow> graph \<Rightarrow> bool" where
  "disk_laws io g \<longleftrightarrow>
     (\<forall>n \<in> set (dict_values (gr_nodes g)). di_writable io (gn_id n) \<and> di_read_node io (di_node_text io n) = Some n) \<and>
     (\<forall>l \<in> set (all_links g). strip (di_link_text io l) \<noteq> [] \<and> di_read_link io (strip (di_link_text io l)) = GoodLink l) \<and>
     (\<forall>k. \<not> di_link_fails io k)"

lemma save_nodes_all:
  "\<forall>n \<in> set ns. di_writable io (gn_id n) \<Longrightarrow> save_nodes io ns (d, c) =
    (d\<lparr>dk_nodes := put_all (\<lambda>n. (gn_type n, gn_id n)) (di_node_text io) ns (dk_nodes d)\<rparr>, c + length ns)"
  by (induction ns arbitrary: d c) (simp_all add: save_node_def)

lemma save_links_all:
  "\<forall>k. \<not> di_link_fails io k \<Longrightarrow> save_links io ls (d, c) =
    (d\<lparr>dk_links := grouped (\<lambda>l. month_of (gl_created_at l)) (di_link_text io) ls (dk_links d)\<rparr>, c + length ls)"
  by (induction ls arbitrary: d c) (simp_all add: save_link_def Let_def)

lemma month_links_read:
  "\<forall>l \<in> set ls. strip (di_link_text io l) \<noteq> [] \<and> di_read_link io (strip (di_link_text io l)) = GoodLink l \<Longrightarrow>
   month_links io (map (di_link_text io) ls) = ls"
  by (induction ls) (simp_all add: Let_def)

lemma put_nodes:
  "gr_nodes (foldl put_node g ns) = put_all gn_id (\<lambda>n. n) ns (gr_nodes g)"
  "gr_out (foldl put_node g ns) = gr_out g" "gr_in (foldl put_node g ns) = gr_in g"
  "set (dict_get_or (gr_types (foldl put_node g ns)) ty []) =
     gn_id ` {n \<in> set ns. gn_type n = ty} \<union> set (dict_get_or (gr_types g) ty [])"
  by (induction ns arbitrary: g) (auto simp: put_node_def)

lemma put_links:
  "gr_nodes (foldl put_link g ls) = gr_nodes g" "gr_types (foldl put_link g ls) = gr_types g"
  "gr_out (foldl put_link g ls) = grouped gl_source (\<lambda>l. l) ls (gr_out g)"
  "gr_in (foldl put_link g ls) = grouped gl_target (\<lambda>l. l) ls (gr_in g)"
  by (induction ls arbitrary: g) (simp_all add: put_link_def)

lemma all_types: "ty \<in> set all_node_types"
  by (cases ty) (simp_all add: all_node_types_def)

lemma node_files_set: "set (node_files d) = fst ` set (dk_nodes d)"
  by (force simp: node_files_def all_types image_iff)

lemma values_inj: "nodes_ok g \<Longrightarrow> inj_on gn_id (set (dict_values (gr_nodes g)))"
  by (auto simp: inj_on_def nodes_ok_def dict_values_get get_node_def simp del: map_of_eq_Some_iff)

lemma read_saved:
  assumes "inj_on gn_id (set ns)" and "\<forall>n \<in> set ns. di_read_node io (di_node_text io n) = Some n"
    and "dk_nodes d = put_all (\<lambda>n. (gn_type n, gn_id n)) (di_node_text io) ns []"
  shows "set (List.map_filter (read_file io d) (node_files d)) = set ns"
proof -
  have inj: "inj_on (\<lambda>n. (gn_type n, gn_id n)) (set ns)" using assms(1) by (auto simp: inj_on_def)
  have get: "dict_get (dk_nodes d) k = Some s \<longleftrightarrow> (\<exists>n \<in> set ns. (gn_type n, gn_id n) = k \<and> di_node_text io n = s)" for k s
    unfolding assms(3) by (rule put_all_iff[OF inj])
  have read: "read_file io d k = Some m \<longleftrightarrow> m \<in> set ns \<and> (gn_type m, gn_id m) = k" for k m
    using get[of k] assms(2) inj_onD[OF inj] by (auto simp: read_file_def split: option.split) (metis option.inject)+
  have "k \<in> fst ` set (dk_nodes d)" if "read_file io d k = Some m" for k m
    using that by (auto simp: read_file_def split: option.splits dest!: map_of_SomeD) (metis fst_conv imageI)
  then show ?thesis
    by (auto simp: List.map_filter_def node_files_set read image_iff) (metis read option.sel)+
qed

lemma links_saved:
  assumes "\<forall>l \<in> set ls. strip (di_link_text io l) \<noteq> [] \<and> di_read_link io (strip (di_link_text io l)) = GoodLink l"
    and "dk_links d = grouped (\<lambda>l. month_of (gl_created_at l)) (di_link_text io) ls []"
  shows "loaded_links io d = sort_key (\<lambda>l. month_of (gl_created_at l)) ls"
proof -
  let ?m = "\<lambda>l. month_of (gl_created_at l)"
  have read: "month_links io (dict_get_or (dk_links d) k []) = filter (\<lambda>l. ?m l = k) ls" for k
    unfolding assms(2) grouped_get using assms(1) by (simp add: month_links_read)
  have "dict_ok (dk_links d)" "?m ` set ls \<subseteq> set (sort (map fst (dk_links d)))"
    by (simp_all add: assms(2) grouped_keys)
  then show ?thesis
    unfolding loaded_links_def read by (intro concat_filter_sort) simp_all
qed

lemma loaded_of_saved:
  assumes "graph_ok g" and "disk_laws io g" and "save_graph io empty_disk g = (d, c)"
  shows "load_graph io d = foldl put_link (foldl put_node empty_graph (List.map_filter (read_file io d) (node_files d)))
      (sort_key (\<lambda>l. month_of (gl_created_at l)) (all_links g))"
    and "set (List.map_filter (read_file io d) (node_files d)) = set (dict_values (gr_nodes g))"
    and "c = node_count g + length (all_links g)"
proof -
  have d: "dk_nodes d = put_all (\<lambda>n. (gn_type n, gn_id n)) (di_node_text io) (dict_values (gr_nodes g)) []"
    "dk_links d = grouped (\<lambda>l. month_of (gl_created_at l)) (di_link_text io) (all_links g) []"
    and c: "c = node_count g + length (all_links g)"
    using assms(2,3) by (auto simp: save_graph_def disk_laws_def save_nodes_all save_links_all empty_disk_def node_count_def dict_values_def)
  show "c = node_count g + length (all_links g)" by (rule c)
  show "set (List.map_filter (read_file io d) (node_files d)) = set (dict_values (gr_nodes g))"
    by (rule read_saved[OF values_inj _ d(1)]) (use assms(1,2) in \<open>simp_all add: graph_ok_def disk_laws_def\<close>)
  have "loaded_links io d = sort_key (\<lambda>l. month_of (gl_created_at l)) (all_links g)"
    by (rule links_saved[OF _ d(2)]) (use assms(2) in \<open>simp add: disk_laws_def\<close>)
  then show "load_graph io d = foldl put_link (foldl put_node empty_graph (List.map_filter (read_file io d) (node_files d)))
      (sort_key (\<lambda>l. month_of (gl_created_at l)) (all_links g))"
    by (simp add: load_graph_def)
qed

text \<open>The links of a well-formed graph, counted.\<close>

lemma outs_of_all:
  assumes "graph_ok g"
  shows "filter (\<lambda>l. gl_source l = s) (all_links g) = links_of (gr_out g) s"
proof -
  have src: "gl_source l = k" if "(k, ls) \<in> set (gr_out g)" "l \<in> set ls" for k ls l
  proof -
    have "links_of (gr_out g) k = ls" using assms that(1) by (simp add: graph_ok_def links_of_def dict_get_or_def)
    with assms that(2) show ?thesis by (auto simp: graph_ok_def links_ok_def)
  qed
  have "filter (\<lambda>l. gl_source l = s) (concat (map snd d)) = links_of d s"
    if "dict_ok d" "\<And>k ls l. (k, ls) \<in> set d \<Longrightarrow> l \<in> set ls \<Longrightarrow> gl_source l = k" for d
    using that
  proof (induction d)
    case (Cons e d)
    obtain k ls where e: "e = (k, ls)" by (cases e)
    have "\<forall>l \<in> set ls. gl_source l = k" using Cons.prems(2)[of k ls] by (simp add: e)
    then have "filter (\<lambda>l. gl_source l = s) ls = (if k = s then ls else [])" by (auto simp: filter_empty_conv filter_id_conv)
    moreover have "filter (\<lambda>l. gl_source l = s) (concat (map snd d)) = links_of d s"
      by (rule Cons.IH) (use Cons.prems in auto)
    moreover have "links_of d k = []"
      using Cons.prems(1) by (simp add: e links_of_def dict_get_or_def map_of_eq_None_iff[THEN iffD2])
    ultimately show ?case by (auto simp: e links_of_def dict_get_or_def)
  qed (simp add: links_of_def)
  from this[of "gr_out g"] src assms show ?thesis by (simp add: all_links_def dict_values_def graph_ok_def)
qed

lemma ins_of_all:
  assumes "graph_ok g"
  shows "mset (filter (\<lambda>l. gl_target l = t) (all_links g)) = mset (links_of (gr_in g) t)"
proof (rule multiset_eqI)
  fix l
  have drop: "count (mset (filter P xs)) l = (if P l then count (mset xs) l else 0)" for P and xs :: "graph_link list"
    by (induction xs) auto
  have "count (mset (all_links g)) l = count (mset (links_of (gr_out g) (gl_source l))) l"
    unfolding outs_of_all[OF assms, symmetric] by (simp add: drop)
  moreover have "filter (\<lambda>x. gl_target x = t) (links_of (gr_out g) (gl_source l)) =
      filter (\<lambda>x. gl_source x = gl_source l) (links_of (gr_in g) t)"
    using assms by (simp add: graph_ok_def links_ok_def)
  then have "count (mset (filter (\<lambda>x. gl_target x = t) (links_of (gr_out g) (gl_source l)))) l =
      count (mset (filter (\<lambda>x. gl_source x = gl_source l) (links_of (gr_in g) t))) l" by simp
  ultimately have "(if gl_target l = t then count (mset (all_links g)) l else 0) = count (mset (links_of (gr_in g) t)) l"
    by (simp only: drop simp_thms if_True)
  then show "count (mset (filter (\<lambda>l. gl_target l = t) (all_links g))) l = count (mset (links_of (gr_in g) t)) l"
    by (simp only: drop)
qed

lemma link_count_all: "link_count g = length (all_links g)"
  by (simp only: link_count_def all_links_def dict_values_def length_concat map_map o_def)

lemma has_endpoints:
  assumes "graph_ok g" and "l \<in> set (all_links g)"
  shows "has_node g (gl_source l)" "has_node g (gl_target l)"
proof -
  have "l \<in> set (links_of (gr_out g) (gl_source l))" using assms(2) unfolding outs_of_all[OF assms(1), symmetric] by simp
  then show "has_node g (gl_source l)" "has_node g (gl_target l)"
    using assms(1) unfolding graph_ok_def links_ok_def by blast+
qed

text \<open>C17: A well-formed graph that is saved to an empty directory is loaded as the same graph: the same nodes, the links out
  of a node in the order of their months, the links into it the same up to order, an index of types that lists
  exactly the nodes of each type, and again well-formed; the count of saved items is that of its nodes and
  links. It rests on the texts being read back and the ids being file names.\<close>

theorem saved_graph_loads:
  assumes "graph_ok g" and "disk_laws io g" and "save_graph io empty_disk g = (d, c)" and "g' = load_graph io d"
  shows "c = node_count g + link_count g \<and> graph_ok g' \<and> (\<forall>k. get_node g' k = get_node g k) \<and>
    (\<forall>k. links_of (gr_out g') k = sort_key (\<lambda>l. month_of (gl_created_at l)) (links_of (gr_out g) k) \<and>
         mset (links_of (gr_in g') k) = mset (links_of (gr_in g) k)) \<and>
    (\<forall>ty. set (find_nodes g' (Some ty) []) = {n. get_node g (gn_id n) = Some n \<and> gn_type n = ty})"
proof -
  let ?f = "\<lambda>l. month_of (gl_created_at l)"
  define ns where "ns = List.map_filter (read_file io d) (node_files d)"
  note loaded = loaded_of_saved[OF assms(1-3)]
  have ns: "set ns = set (dict_values (gr_nodes g))" unfolding ns_def by (rule loaded(2))
  have ok: "nodes_ok g" using assms(1) by (simp add: graph_ok_def)
  have g': "g' = foldl put_link (foldl put_node empty_graph ns) (sort_key ?f (all_links g))"
    unfolding assms(4) ns_def by (rule loaded(1))
  have nodes: "gr_nodes g' = put_all gn_id (\<lambda>n. n) ns []"
    and types: "\<And>ty. set (dict_get_or (gr_types g') ty []) = gn_id ` {n \<in> set ns. gn_type n = ty}"
    and outs: "gr_out g' = grouped gl_source (\<lambda>l. l) (sort_key ?f (all_links g)) []"
    and ins: "gr_in g' = grouped gl_target (\<lambda>l. l) (sort_key ?f (all_links g)) []"
    by (simp_all add: g' put_links put_nodes empty_graph_def)
  have mem: "n \<in> set ns \<longleftrightarrow> get_node g (gn_id n) = Some n" for n
    using ok unfolding ns by (auto simp: dict_values_get nodes_ok_def get_node_def simp del: map_of_eq_Some_iff)
  have some: "get_node g' k = Some m \<longleftrightarrow> get_node g k = Some m" for k m
  proof -
    have "get_node g' k = Some m \<longleftrightarrow> m \<in> set ns \<and> gn_id m = k"
      unfolding get_node_def nodes using put_all_iff[of gn_id ns "\<lambda>n. n" k m] values_inj[OF ok] by (auto simp: ns)
    also have "\<dots> \<longleftrightarrow> get_node g k = Some m" using mem ok by (auto simp: nodes_ok_def)
    finally show ?thesis .
  qed
  have get: "get_node g' k = get_node g k" for k
    using some by (metis not_None_eq)
  have out: "links_of (gr_out g') k = sort_key ?f (links_of (gr_out g) k)" for k
    unfolding links_of_def outs grouped_get by (simp add: filter_sort outs_of_all[OF assms(1), unfolded links_of_def])
  have into: "links_of (gr_in g') k = sort_key ?f (filter (\<lambda>l. gl_target l = k) (all_links g))" for k
    unfolding links_of_def ins grouped_get by (simp add: filter_sort)
  have nodes_ok': "nodes_ok g'"
    using ok get types mem by (force simp: nodes_ok_def nodes)
  moreover have "links_ok (has_node g') (links_of (gr_out g')) (links_of (gr_in g'))"
  proof -
    have has: "has_node g' k = has_node g k" for k
      using get[of k] by (simp add: has_node_def get_node_def)
    have "\<forall>l \<in> set (links_of (gr_out g') k). gl_source l = k \<and> has_node g k \<and> has_node g (gl_target l)" for k
      using has_endpoints[OF assms(1)] by (auto simp: out outs_of_all[OF assms(1), symmetric])
    moreover have "\<forall>l \<in> set (links_of (gr_in g') k). gl_target l = k \<and> has_node g k \<and> has_node g (gl_source l)" for k
      using has_endpoints[OF assms(1)] by (auto simp: into)
    moreover have "filter (\<lambda>l. gl_target l = t) (links_of (gr_out g') s) = filter (\<lambda>l. gl_source l = s) (links_of (gr_in g') t)" for s t
      unfolding out into outs_of_all[OF assms(1), symmetric] filter_sort filter_filter
      by (rule arg_cong[where f = "sort_key ?f"]) (rule filter_cong, auto)
    ultimately show ?thesis unfolding links_ok_def has by blast
  qed
  ultimately have "graph_ok g'" by (simp add: graph_ok_def outs ins)
  moreover have "set (find_nodes g' (Some ty) []) = {n. get_node g (gn_id n) = Some n \<and> gn_type n = ty}" for ty
  proof -
    have "find_nodes g' (Some ty) [] = List.map_filter (get_node g) (dict_get_or (gr_types g') ty [])"
      using get by (simp add: find_nodes_def filters_match_def ext[of "get_node g'" "get_node g"])
    moreover have "set (List.map_filter (get_node g) ks) = {n. \<exists>k \<in> set ks. get_node g k = Some n}" for ks
      by (induction ks) (auto simp: List.map_filter_simps split: option.split)
    ultimately have "set (find_nodes g' (Some ty) []) = {n. \<exists>m \<in> set ns. gn_type m = ty \<and> get_node g (gn_id m) = Some n}"
      using types[of ty] by auto
    also have "\<dots> = {n. get_node g (gn_id n) = Some n \<and> gn_type n = ty}"
      by (rule Collect_cong) (metis mem option.inject)
    finally show ?thesis .
  qed
  moreover have "mset (links_of (gr_in g') k) = mset (links_of (gr_in g) k)" for k
    by (simp add: into ins_of_all[OF assms(1)] del: mset_filter)
  ultimately show ?thesis using loaded(3) by (simp add: get out link_count_all)
qed

definition sample_disk :: disk_io where
  "sample_disk = \<lparr> di_node_text = gn_id, di_read_node = get_node sample_graph, di_link_text = (\<lambda>l. ''link''),
     di_read_link = (\<lambda>s. GoodLink (hd (all_links sample_graph))), di_writable = (\<lambda>k. k \<noteq> ''''), di_link_fails = (\<lambda>k. False) \<rparr>"

lemma sample_graph_links: "length (all_links sample_graph) = 1"
  by (simp add: all_links_def dict_values_def sample_graph_def link_def links_of_def add_node_def empty_graph_def sample_node_def Let_def)

lemma sample_disk_laws: "disk_laws sample_disk sample_graph"
proof -
  have "\<forall>n \<in> set (dict_values (gr_nodes sample_graph)). gn_id n \<noteq> [] \<and> get_node sample_graph (gn_id n) = Some n"
    by (simp add: dict_values_def get_node_def sample_graph_def link_def add_node_def empty_graph_def sample_node_def Let_def)
  moreover have "strip ''link'' \<noteq> []" by code_simp
  moreover have "\<forall>l \<in> set (all_links sample_graph). hd (all_links sample_graph) = l"
    using sample_graph_links by (cases "all_links sample_graph") auto
  ultimately show ?thesis by (simp add: disk_laws_def sample_disk_def)
qed

lemma saved_graph_loads_witness:
  "let (d, c) = save_graph sample_disk empty_disk sample_graph; g = load_graph sample_disk d in
   c = 3 \<and> graph_ok g \<and> get_node g ''a'' \<noteq> None \<and> link_count sample_graph = 1"
proof -
  obtain d c where s: "save_graph sample_disk empty_disk sample_graph = (d, c)" by fastforce
  have "node_count sample_graph = 2" "get_node sample_graph ''a'' \<noteq> None"
    by (simp_all add: node_count_def get_node_def sample_graph_def link_def add_node_def empty_graph_def sample_node_def Let_def)
  with saved_graph_loads[OF graph_reach_ok[OF sample_graph_reach] sample_disk_laws s refl] show ?thesis
    by (simp add: s link_count_all sample_graph_links)
qed

subsection \<open>What the files get wrong\<close>

text \<open>A file is removed by nothing: a node deleted from the graph is loaded again after the next save.\<close>

lemma save_keeps_files:
  assumes "dict_has (dk_nodes d) k"
  shows "dict_has (dk_nodes (fst (save_graph io d g))) k"
proof -
  have links: "dk_nodes (fst (save_links io ls (d, c))) = dk_nodes d" for ls d c
    by (induction ls arbitrary: d c) (simp_all add: save_link_def Let_def)
  have nodes: "dict_has (dk_nodes d) k \<Longrightarrow> dict_has (dk_nodes (fst (save_nodes io ns (d, c)))) k" for ns d c
    by (induction ns arbitrary: d c) (simp_all add: save_node_def)
  show ?thesis
    using nodes[OF assms, of "dict_values (gr_nodes g)" 0] links by (metis save_graph_def surj_pair fst_conv)
qed

text \<open>The lines of the links are appended: a graph saved twice has every link twice.\<close>

lemma save_appends_links:
  assumes "save_graph io d g = (d', c)" and "\<forall>k. \<not> di_link_fails io k"
  shows "dict_get_or (dk_links d') k [] =
    dict_get_or (dk_links d) k [] @ map (di_link_text io) (filter (\<lambda>l. month_of (gl_created_at l) = k) (all_links g))"
proof -
  have nodes: "dk_links (fst (save_nodes io ns (d, c))) = dk_links d" for ns d c
    by (induction ns arbitrary: d c) (simp_all add: save_node_def)
  obtain d1 c1 where n: "save_nodes io (dict_values (gr_nodes g)) (d, 0) = (d1, c1)" by fastforce
  have "dk_links d1 = dk_links d" using nodes[of "dict_values (gr_nodes g)" d 0] n by simp
  moreover have "dk_links d' = grouped (\<lambda>l. month_of (gl_created_at l)) (di_link_text io) (all_links g) (dk_links d1)"
    using assms n by (auto simp: save_graph_def save_links_all)
  ultimately show ?thesis by (simp add: grouped_get)
qed

text \<open>A line that is valid json and no link hides every link after it in the month.\<close>

lemma bad_link_ends_month:
  "strip s \<noteq> [] \<Longrightarrow> di_read_link io (strip s) = BadLink \<Longrightarrow> month_links io (pre @ s # post) = month_links io pre"
  by (induction pre) (auto simp: Let_def split: link_line.split)

text \<open>The deletion of old archives: exactly the files older than the retention are gone.\<close>

lemma vacuum_exact:
  assumes "vacuum_archived d days now = (d', c)"
  shows "set (dk_archive d') = {f \<in> set (dk_archive d). now - days * day \<le> snd (snd f)}"
    and "c + length (dk_archive d') = length (dk_archive d)" and "dk_nodes d' = dk_nodes d \<and> dk_links d' = dk_links d"
  using assms sum_length_filter_compl[of "\<lambda>f. snd (snd f) < now - days * day" "dk_archive d"]
  by (auto simp: vacuum_archived_def Let_def not_less)

end
