(* ===== verification/Redis_Limiter.thy ===== *)
theory Redis_Limiter
  imports Rate_Limit Py_Time "HOL-Library.Multiset"
begin

section \<open>The Redis rate limiter (core/rate_limit/backend.py)\<close>

text \<open>
  The backend that keeps each bucket as a sorted set of a Redis server: the Lua script, the fallback by WATCH and
  MULTI for servers without scripts, the probe that chooses between them, and the backend's operations, which admit
  whenever the server does not answer. The server is a parameter: the commands the code sends, each with the reading of
  the server's clock. \<open>redis_laws\<close> states what Redis documents of them, over the members of a set with
  their scores and its time of expiry. Times are in milliseconds where the server sees them.
\<close>

record 'r redis =
  rd_trim :: "'r \<Rightarrow> rat \<Rightarrow> string \<Rightarrow> rat \<Rightarrow> 'r"
  rd_card :: "'r \<Rightarrow> rat \<Rightarrow> string \<Rightarrow> nat"
  rd_add :: "'r \<Rightarrow> rat \<Rightarrow> string \<Rightarrow> rat \<Rightarrow> string \<Rightarrow> 'r"
  rd_expire :: "'r \<Rightarrow> rat \<Rightarrow> string \<Rightarrow> rat \<Rightarrow> 'r"
  rd_first :: "'r \<Rightarrow> rat \<Rightarrow> string \<Rightarrow> rat option"
  rd_delete :: "'r \<Rightarrow> string list \<Rightarrow> 'r"
  rd_scan :: "'r \<Rightarrow> string \<Rightarrow> nat \<Rightarrow> nat \<times> string list"

type_synonym script_result = "bool \<times> int \<times> rat"

subsection \<open>The two scripts\<close>

definition reset_ms :: "'r redis \<Rightarrow> 'r \<Rightarrow> rat \<Rightarrow> string \<Rightarrow> rat \<Rightarrow> rat \<Rightarrow> rat" where
  "reset_ms srv r t k now window = (case rd_first srv r t k of None \<Rightarrow> now + window | Some s \<Rightarrow> s + window)"

text \<open>A number a script returns is truncated to an integer by the server.\<close>

definition lua_script :: "'r redis \<Rightarrow> 'r \<Rightarrow> rat \<Rightarrow> string \<Rightarrow> rat \<Rightarrow> rat \<Rightarrow> int \<Rightarrow> string \<Rightarrow> 'r \<times> script_result" where
  "lua_script srv r t k now window limit member =
     (let cutoff = now - window; r1 = rd_trim srv r t k cutoff; cnt = int (rd_card srv r1 t k) in
      if cnt < limit then
        let r2 = rd_expire srv (rd_add srv r1 t k now member) t k window in
        (r2, (True, cnt + 1, of_int (py_trunc (reset_ms srv r2 t k now window))))
      else (r1, (False, cnt, of_int (py_trunc (reset_ms srv r1 t k now window)))))"

text \<open>What a call of the server can end with beside its result: not sent, or executed and not answered.\<close>

datatype redis_fault = Unsent | Unanswered

definition with_fault :: "redis_fault option \<Rightarrow> 'r \<Rightarrow> 'r \<times> 'a \<Rightarrow> 'r \<times> 'a option" where
  "with_fault fault r done =
     (case fault of None \<Rightarrow> (fst done, Some (snd done)) | Some Unsent \<Rightarrow> (r, None) | Some Unanswered \<Rightarrow> (fst done, None))"

text \<open>A round of the fallback: it trims and counts, or another client wrote the key, or an error was raised.\<close>

datatype watch_round = Round_ok | Round_conflict | Round_error

definition do_watch_round :: "'r redis \<Rightarrow> 'r \<Rightarrow> rat \<Rightarrow> string \<Rightarrow> rat \<Rightarrow> 'r \<times> int" where
  "do_watch_round srv r t k cutoff = (let r1 = rd_trim srv r t k cutoff in (r1, int (rd_card srv r1 t k)))"

fun watch_rounds :: "'r redis \<Rightarrow> 'r \<Rightarrow> rat \<Rightarrow> string \<Rightarrow> rat \<Rightarrow> watch_round list \<Rightarrow> 'r \<times> int option" where
  "watch_rounds srv r t k cutoff [] = (r, None)"
| "watch_rounds srv r t k cutoff (Round_ok # os) = (case do_watch_round srv r t k cutoff of (r1, n) \<Rightarrow> (r1, Some n))"
| "watch_rounds srv r t k cutoff (Round_conflict # os) = watch_rounds srv r t k cutoff os"
| "watch_rounds srv r t k cutoff (Round_error # os) = (r, None)"

definition do_admit :: "'r redis \<Rightarrow> 'r \<Rightarrow> rat \<Rightarrow> string \<Rightarrow> string \<Rightarrow> rat \<Rightarrow> rat \<Rightarrow> 'r" where
  "do_admit srv r t k member now window =
     rd_expire srv (rd_add srv r t k now member) t k (of_int (py_trunc window))"

text \<open>The decision on a count that was read, a call of its own.\<close>

definition watch_decide :: "'r redis \<Rightarrow> 'r \<Rightarrow> rat \<Rightarrow> string \<Rightarrow> rat \<Rightarrow> rat \<Rightarrow> int \<Rightarrow> string \<Rightarrow> int \<Rightarrow> 'r \<times> script_result" where
  "watch_decide srv r t k now window limit member zcard =
     (if zcard < limit then
        let r1 = do_admit srv r t k member now window in (r1, (True, zcard + 1, reset_ms srv r1 t k now window))
      else (r, (False, zcard, reset_ms srv r t k now window)))"

definition run_watch ::
  "'r redis \<Rightarrow> 'r \<Rightarrow> rat \<Rightarrow> string \<Rightarrow> rat \<Rightarrow> rat \<Rightarrow> int \<Rightarrow> string \<Rightarrow> (nat \<Rightarrow> watch_round) \<Rightarrow> redis_fault option \<Rightarrow>
   'r \<times> script_result option" where
  "run_watch srv r t k now window limit member rounds fault =
     (case watch_rounds srv r t k (now - window) (map rounds [0..<5]) of
        (r1, None) \<Rightarrow> (r1, Some (True, 0, now + window))
      | (r1, Some zcard) \<Rightarrow> with_fault fault r1 (watch_decide srv r1 t k now window limit member zcard))"

subsection \<open>The wrapper and the backend\<close>

datatype script_impl = Impl_lua | Impl_watch

text \<open>What the probe of the script ends with: it ran, or an error with its text.\<close>

datatype probe_result = Probe_ran | Probe_error string

definition try_lua :: "probe_result \<Rightarrow> bool" where
  "try_lua p =
     (case p of Probe_ran \<Rightarrow> True
      | Probe_error e \<Rightarrow>
          (let msg = lower e in \<not> (str_in ''evalsha'' msg \<or> str_in ''unknown command'' msg \<or> str_in ''eval'' msg)))"

record redis_backend =
  rb_prefix :: string
  rb_impl :: "script_impl option"

definition rb_new :: "string \<Rightarrow> redis_backend" where
  "rb_new pfx = \<lparr> rb_prefix = pfx, rb_impl = None \<rparr>"

text \<open>What the world does during one call: the server's clock, the probe, the rounds, a fault, the random
  token, and the clock when the answer is built.\<close>

record redis_env =
  re_clock :: rat
  re_probe :: probe_result
  re_rounds :: "nat \<Rightarrow> watch_round"
  re_fault :: "redis_fault option"
  re_token :: string
  re_later :: rat

definition probe :: "'r redis \<Rightarrow> redis_env \<Rightarrow> redis_backend \<Rightarrow> 'r \<Rightarrow> redis_backend \<times> 'r" where
  "probe srv env b r =
     (if rb_impl b \<noteq> None then (b, r)
      else (b\<lparr>rb_impl := Some (if try_lua (re_probe env) then Impl_lua else Impl_watch)\<rparr>,
            if re_probe env = Probe_ran then fst (lua_script srv r (re_clock env) ''__rl_probe__'' 0 1 1 ''p'') else r))"

definition run_script ::
  "'r redis \<Rightarrow> redis_env \<Rightarrow> redis_backend \<Rightarrow> 'r \<Rightarrow> string \<Rightarrow> rat \<Rightarrow> rat \<Rightarrow> int \<Rightarrow> string \<Rightarrow>
   redis_backend \<times> 'r \<times> script_result option" where
  "run_script srv env b r k now window limit member =
     (case probe srv env b r of (b1, r1) \<Rightarrow>
        (b1, if rb_impl b1 = Some Impl_lua
             then with_fault (re_fault env) r1 (lua_script srv r1 (re_clock env) k now window limit member)
             else run_watch srv r1 (re_clock env) k now window limit member (re_rounds env) (re_fault env)))"

definition redis_member :: "rat \<Rightarrow> string \<Rightarrow> string" where
  "redis_member now_ms token = fixed_dec 6 now_ms @ '':'' @ token"

text \<open>The request is admitted when the server fails.\<close>

definition fallback_admit :: "rat \<Rightarrow> rat \<Rightarrow> int \<Rightarrow> string \<Rightarrow> string \<Rightarrow> limit_decision" where
  "fallback_admit now_ms window_ms limit scope key =
     \<lparr> ld_allowed = True, ld_remaining = limit, ld_reset_at = (now_ms + window_ms) / 1000, ld_retry_after = 0,
       ld_scope = scope, ld_key = key \<rparr>"

definition redis_reject :: "rat \<Rightarrow> rat \<Rightarrow> string \<Rightarrow> string \<Rightarrow> limit_decision" where
  "redis_reject reset_at later scope key =
     \<lparr> ld_allowed = False, ld_remaining = 0, ld_reset_at = reset_at, ld_retry_after = max 0 (reset_at - later),
       ld_scope = scope, ld_key = key \<rparr>"

definition redis_check ::
  "'r redis \<Rightarrow> redis_env \<Rightarrow> redis_backend \<times> 'r \<Rightarrow> string \<Rightarrow> int \<Rightarrow> rat \<Rightarrow> string \<Rightarrow> rat \<Rightarrow>
   (redis_backend \<times> 'r) \<times> limit_decision" where
  "redis_check srv env st key limit window scope now =
     (let now_ms = now * 1000; window_ms = window * 1000; member = redis_member now_ms (re_token env) in
      case run_script srv env (fst st) (snd st) (rb_prefix (fst st) @ key) now_ms window_ms limit member of
        (b1, r1, None) \<Rightarrow> ((b1, r1), fallback_admit now_ms window_ms limit scope key)
      | (b1, r1, Some (allowed, cnt, reset)) \<Rightarrow>
          ((b1, r1),
           if allowed
           then \<lparr> ld_allowed = True, ld_remaining = max 0 (limit - cnt), ld_reset_at = reset / 1000, ld_retry_after = 0,
                  ld_scope = scope, ld_key = key \<rparr>
           else redis_reject (reset / 1000) (re_later env) scope key))"

text \<open>A peek trims, too; its three commands are separate calls.\<close>

definition redis_peek ::
  "'r redis \<Rightarrow> redis_env \<Rightarrow> redis_backend \<times> 'r \<Rightarrow> string \<Rightarrow> int \<Rightarrow> rat \<Rightarrow> string \<Rightarrow> rat \<Rightarrow>
   (redis_backend \<times> 'r) \<times> limit_decision" where
  "redis_peek srv env st key limit window scope now =
     (let now_ms = now * 1000; window_ms = window * 1000; k = rb_prefix (fst st) @ key;
          r1 = rd_trim srv (snd st) (re_clock env) k (now_ms - window_ms);
          cnt = int (rd_card srv r1 (re_clock env) k)
      in case with_fault (re_fault env) (snd st) (r1, reset_ms srv r1 (re_clock env) k now_ms window_ms / 1000) of
           (r, None) \<Rightarrow> ((fst st, r), fallback_admit now_ms window_ms limit scope key)
         | (r, Some reset_at) \<Rightarrow>
             ((fst st, r),
              if cnt < limit
              then \<lparr> ld_allowed = True, ld_remaining = limit - cnt, ld_reset_at = reset_at, ld_retry_after = 0,
                     ld_scope = scope, ld_key = key \<rparr>
              else redis_reject reset_at (re_later env) scope key))"

text \<open>The loops over SCAN end when the server returns the cursor 0; until then they go on.\<close>

partial_function (option) delete_loop :: "'r redis \<Rightarrow> string \<Rightarrow> nat \<Rightarrow> 'r \<Rightarrow> 'r option" where
  "delete_loop srv pattern cursor r =
     (case rd_scan srv r pattern cursor of (cursor', keys) \<Rightarrow>
        let r1 = (if keys = [] then r else rd_delete srv r keys) in
        if cursor' = 0 then Some r1 else delete_loop srv pattern cursor' r1)"

partial_function (option) count_loop :: "'r redis \<Rightarrow> string \<Rightarrow> 'r \<Rightarrow> nat \<Rightarrow> nat \<Rightarrow> nat option" where
  "count_loop srv pattern r cursor tot =
     (case rd_scan srv r pattern cursor of (cursor', keys) \<Rightarrow>
        let tot1 = tot + length keys in if cursor' = 0 then Some tot1 else count_loop srv pattern r cursor' tot1)"

definition redis_reset :: "'r redis \<Rightarrow> redis_backend \<times> 'r \<Rightarrow> string option \<Rightarrow> (redis_backend \<times> 'r) option" where
  "redis_reset srv st key =
     (case key of
        Some k \<Rightarrow> if k \<noteq> [] then Some (fst st, rd_delete srv (snd st) [rb_prefix (fst st) @ k])
                  else map_option (Pair (fst st)) (delete_loop srv (rb_prefix (fst st) @ ''*'') 0 (snd st))
      | None \<Rightarrow> map_option (Pair (fst st)) (delete_loop srv (rb_prefix (fst st) @ ''*'') 0 (snd st)))"

definition redis_stats :: "'r redis \<Rightarrow> redis_backend \<times> 'r \<Rightarrow> nat option" where
  "redis_stats srv st = count_loop srv (rb_prefix (fst st) @ ''*'') (snd st) 0 0"

text \<open>The choice of the backend: \<open>reachable\<close> says whether the package, the connection and the ping succeed.\<close>

definition create_backend_from_env :: "string option \<Rightarrow> (string \<Rightarrow> bool) \<Rightarrow> rat \<Rightarrow> mem_backend + redis_backend" where
  "create_backend_from_env url reachable now =
     (let u = strip (case url of None \<Rightarrow> [] | Some u \<Rightarrow> u) in
      if u = [] \<or> \<not> reachable u then Inl (mb_new 300 now) else Inr (rb_new ''rl:''))"

subsection \<open>What Redis documents\<close>

text \<open>The members of a set that has not expired.\<close>

definition live :: "('r \<Rightarrow> string \<Rightarrow> (string \<times> rat) list) \<Rightarrow> ('r \<Rightarrow> string \<Rightarrow> rat option) \<Rightarrow> 'r \<Rightarrow> rat \<Rightarrow> string \<Rightarrow> (string \<times> rat) list" where
  "live zs ex r t k = (case ex r k of None \<Rightarrow> zs r k | Some e \<Rightarrow> if e < t then [] else zs r k)"

definition untouched :: "('r \<Rightarrow> string \<Rightarrow> (string \<times> rat) list) \<Rightarrow> ('r \<Rightarrow> string \<Rightarrow> rat option) \<Rightarrow> string \<Rightarrow> 'r \<Rightarrow> 'r \<Rightarrow> bool" where
  "untouched zs ex k r r' \<longleftrightarrow> (\<forall>k'. k' \<noteq> k \<longrightarrow> zs r' k' = zs r k' \<and> ex r' k' = ex r k')"

definition redis_laws :: "'r redis \<Rightarrow> ('r \<Rightarrow> string \<Rightarrow> (string \<times> rat) list) \<Rightarrow> ('r \<Rightarrow> string \<Rightarrow> rat option) \<Rightarrow> bool" where
  "redis_laws srv zs ex \<longleftrightarrow>
     (\<forall>r k. sorted (map snd (zs r k))) \<and>
     (\<forall>r t k c. let r' = rd_trim srv r t k c in
        untouched zs ex k r r' \<and> zs r' k = filter (\<lambda>m. c \<le> snd m) (live zs ex r t k) \<and> (zs r' k \<noteq> [] \<longrightarrow> ex r' k = ex r k)) \<and>
     (\<forall>r t k. rd_card srv r t k = length (live zs ex r t k)) \<and>
     (\<forall>r t k s m. let r' = rd_add srv r t k s m in
        untouched zs ex k r r' \<and> ex r' k = (if live zs ex r t k = [] then None else ex r k) \<and>
        mset (zs r' k) = add_mset (m, s) (mset (filter (\<lambda>x. fst x \<noteq> m) (live zs ex r t k)))) \<and>
     (\<forall>r t k w. 0 < w \<longrightarrow> (let r' = rd_expire srv r t k w in
        untouched zs ex k r r' \<and> zs r' k = live zs ex r t k \<and> (zs r' k \<noteq> [] \<longrightarrow> ex r' k = Some (t + w)))) \<and>
     (\<forall>r t k. rd_first srv r t k = (case live zs ex r t k of [] \<Rightarrow> None | m # ms \<Rightarrow> Some (snd m)))"

subsection \<open>The script decides by the window\<close>

text \<open>No set expires before its youngest member has left the window.\<close>

definition lasts :: "('r \<Rightarrow> string \<Rightarrow> (string \<times> rat) list) \<Rightarrow> ('r \<Rightarrow> string \<Rightarrow> rat option) \<Rightarrow> rat \<Rightarrow> 'r \<Rightarrow> string \<Rightarrow> bool" where
  "lasts zs ex window r k \<longleftrightarrow> (\<forall>m \<in> set (zs r k). \<forall>e. ex r k = Some e \<longrightarrow> snd m + window \<le> e)"

lemma live_window:
  "lasts zs ex window r k \<Longrightarrow> filter (\<lambda>m. t - window \<le> snd m) (live zs ex r t k) = filter (\<lambda>m. t - window \<le> snd m) (zs r k)"
proof -
  assume last: "lasts zs ex window r k"
  have "\<not> t - window \<le> snd m" if "ex r k = Some e" "e < t" "m \<in> set (zs r k)" for e m
    using last that by (force simp: lasts_def)
  then show ?thesis by (auto simp: live_def filter_empty_conv split: option.split)
qed

lemma sorted_scores:
  assumes "sorted (map snd xs)" and "mset xs = add_mset (m, s) (mset ys)" and "sorted (map snd ys)" and "\<forall>y \<in> set ys. snd y \<le> s"
  shows "map snd xs = map snd ys @ [s :: rat]"
proof -
  have "mset (map snd xs) = mset (map snd ys @ [s])" using assms(2) by simp
  moreover have "sorted (map snd ys @ [s])" using assms(3,4) by (auto simp: sorted_append)
  ultimately show ?thesis using assms(1) by (metis properties_for_sort)
qed

lemma lua_step:
  assumes laws: "redis_laws srv zs ex" and w: "0 < window" and last: "lasts zs ex window r k"
    and upto: "\<forall>m \<in> set (zs r k). snd m \<le> now" and fresh: "member \<notin> fst ` set (zs r k)"
    and run: "lua_script srv r now k now window limit member = (r', allowed, cnt, reset)"
  shows "untouched zs ex k r r'" and "lasts zs ex window r' k"
    and "allowed \<longleftrightarrow> int (length (filter (\<lambda>m. now - window \<le> snd m) (zs r k))) < limit"
    and "map snd (zs r' k) = map snd (filter (\<lambda>m. now - window \<le> snd m) (zs r k)) @ (if allowed then [now] else [])"
proof -
  define f where "f = filter (\<lambda>m. now - window \<le> snd m) (zs r k)"
  define r1 where "r1 = rd_trim srv r now k (now - window)"
  define r2 where "r2 = rd_add srv r1 now k now member"
  define r3 where "r3 = rd_expire srv r2 now k window"
  have r1: "untouched zs ex k r r1" "zs r1 k = f" "f \<noteq> [] \<Longrightarrow> ex r1 k = ex r k"
    using laws live_window[OF last, of now] by (auto simp: redis_laws_def Let_def r1_def f_def)
  have last1: "lasts zs ex window r1 k"
  proof (cases "f = []")
    case False
    with last r1 show ?thesis by (auto simp: lasts_def f_def)
  qed (simp add: lasts_def r1)
  have live1: "live zs ex r1 now k = f"
    using live_window[OF last1, of now] r1(2) by (auto simp: live_def f_def split: option.splits if_splits)
  have card: "rd_card srv r1 now k = length f" using laws live1 by (simp add: redis_laws_def)
  have r2: "untouched zs ex k r1 r2" "ex r2 k = (if f = [] then None else ex r1 k)"
    "mset (zs r2 k) = add_mset (member, now) (mset (filter (\<lambda>x. fst x \<noteq> member) f))"
    using laws live1 by (auto simp: redis_laws_def Let_def r2_def)
  have new: "filter (\<lambda>x. fst x \<noteq> member) f = f" using fresh unfolding f_def by (intro filter_True) force
  have "sorted (map snd (zs r k))" and sorted2: "sorted (map snd (zs r2 k))" using laws by (auto simp: redis_laws_def)
  then have "sorted (map snd f)" by (simp add: f_def sorted_filter)
  then have scores: "map snd (zs r2 k) = map snd f @ [now]"
    by (rule sorted_scores[OF sorted2 r2(3)[unfolded new]]) (use upto in \<open>auto simp: f_def\<close>)
  have "live zs ex r2 now k = zs r2 k"
    using live1 r1(2) r2(2) by (auto simp: live_def split: option.splits if_splits)
  then have r3: "untouched zs ex k r2 r3" "zs r3 k = zs r2 k" "zs r3 k \<noteq> [] \<Longrightarrow> ex r3 k = Some (now + window)"
    using laws w by (auto simp: redis_laws_def Let_def r3_def)
  have run': "allowed \<longleftrightarrow> int (length f) < limit" "r' = (if allowed then r3 else r1)"
    using run by (auto simp: lua_script_def Let_def r1_def[symmetric] r2_def[symmetric] r3_def[symmetric] card split: if_splits)
  show "untouched zs ex k r r'" using run'(2) r1(1) r2(1) r3(1) by (auto simp: untouched_def)
  have "snd m \<le> now" if "m \<in> set (zs r3 k)" for m
  proof -
    have "snd m \<in> set (map snd f @ [now])" unfolding scores[symmetric] using that r3(2) by simp
    then show ?thesis using upto by (auto simp: f_def)
  qed
  then have "lasts zs ex window r3 k" using r3(3) by (fastforce simp: lasts_def)
  with last1 run'(2) show "lasts zs ex window r' k" by simp
  show "allowed \<longleftrightarrow> int (length (filter (\<lambda>m. now - window \<le> snd m) (zs r k))) < limit" using run'(1) by (simp add: f_def)
  show "map snd (zs r' k) = map snd (filter (\<lambda>m. now - window \<le> snd m) (zs r k)) @ (if allowed then [now] else [])"
    using run'(2) r1(2) r3(2) scores by (simp add: f_def)
qed

lemma lua_untouched:
  assumes "redis_laws srv zs ex" and "0 < window"
  shows "untouched zs ex k r (fst (lua_script srv r t k now window limit member))"
proof -
  have "untouched zs ex k r (rd_trim srv r t k c)" "untouched zs ex k r (rd_add srv r t k s m)"
    "untouched zs ex k r (rd_expire srv r t k window)" for r c s m
    using assms by (auto simp: redis_laws_def Let_def)
  then show ?thesis by (simp add: lua_script_def Let_def untouched_def)
qed

lemma lua_scores:
  assumes "redis_laws srv zs ex" and "0 < window"
  shows "snd ` set (zs (fst (lua_script srv r t k now window limit member)) k) \<subseteq> insert now (snd ` set (zs r k))"
proof -
  have live: "set (live zs ex r t k) \<subseteq> set (zs r k)" for r by (simp add: live_def split: option.split)
  have trim: "set (zs (rd_trim srv r t k c) k) \<subseteq> set (zs r k)" for r c
    using assms live[of r] by (auto simp: redis_laws_def Let_def)
  have "set (zs (rd_add srv r t k now member) k) = set_mset (mset (zs (rd_add srv r t k now member) k))" for r by simp
  also have "\<dots> r \<subseteq> insert (member, now) (set (zs r k))" for r
    using assms live[of r] by (auto simp: redis_laws_def Let_def)
  finally have add: "set (zs (rd_add srv r t k now member) k) \<subseteq> insert (member, now) (set (zs r k))" for r .
  have expire: "set (zs (rd_expire srv r t k window) k) \<subseteq> set (zs r k)" for r
    using assms live[of r] by (auto simp: redis_laws_def Let_def)
  let ?r1 = "rd_trim srv r t k (now - window)"
  have "set (zs (rd_expire srv (rd_add srv ?r1 t k now member) t k window) k) \<subseteq> insert (member, now) (set (zs r k))"
    using expire[of "rd_add srv ?r1 t k now member"] add[of ?r1] trim[of r] by blast
  moreover have "set (zs ?r1 k) \<subseteq> insert (member, now) (set (zs r k))" using trim[of r] by blast
  ultimately have "set (zs (fst (lua_script srv r t k now window limit member)) k) \<subseteq> insert (member, now) (set (zs r k))"
    by (simp add: lua_script_def Let_def)
  then have "snd ` set (zs (fst (lua_script srv r t k now window limit member)) k) \<subseteq> snd ` insert (member, now) (set (zs r k))"
    by (rule image_mono)
  then show ?thesis by simp
qed

subsection \<open>The backend keeps the contract of the limiters\<close>

definition redis_allows ::
  "'r redis \<Rightarrow> (redis_backend \<times> 'r \<Rightarrow> string \<Rightarrow> rat \<Rightarrow> redis_env) \<Rightarrow> int \<Rightarrow> rat \<Rightarrow> redis_backend \<times> 'r \<Rightarrow> string \<Rightarrow> rat \<Rightarrow>
   (redis_backend \<times> 'r) \<times> bool" where
  "redis_allows srv env limit window st key now =
     (case redis_check srv (env st key now) st key limit window [] now of (st', d) \<Rightarrow> (st', ld_allowed d))"

text \<open>The server answers and runs the script, its clock is that of the caller, and a random token is new.\<close>

definition redis_world ::
  "'r redis \<Rightarrow> ('r \<Rightarrow> string \<Rightarrow> (string \<times> rat) list) \<Rightarrow> ('r \<Rightarrow> string \<Rightarrow> rat option) \<Rightarrow>
   (redis_backend \<times> 'r \<Rightarrow> string \<Rightarrow> rat \<Rightarrow> redis_env) \<Rightarrow> bool" where
  "redis_world srv zs ex env \<longleftrightarrow> redis_laws srv zs ex \<and>
     (\<forall>st key now. re_clock (env st key now) = now * 1000 \<and> re_probe (env st key now) = Probe_ran \<and>
        re_fault (env st key now) = None \<and>
        redis_member (now * 1000) (re_token (env st key now)) \<notin> fst ` set (zs (snd st) (rb_prefix (fst st) @ key)))"

definition redis_inv ::
  "'r redis \<Rightarrow> ('r \<Rightarrow> string \<Rightarrow> (string \<times> rat) list) \<Rightarrow> ('r \<Rightarrow> string \<Rightarrow> rat option) \<Rightarrow>
   (redis_backend \<times> 'r \<Rightarrow> string \<Rightarrow> rat \<Rightarrow> redis_env) \<Rightarrow> rat \<Rightarrow> redis_backend \<times> 'r \<Rightarrow> bool" where
  "redis_inv srv zs ex env window st \<longleftrightarrow> redis_world srv zs ex env \<and> 0 < window \<and> rb_prefix (fst st) = ''rl:'' \<and>
     rb_impl (fst st) \<in> {None, Some Impl_lua} \<and> (\<forall>key. lasts zs ex (window * 1000) (snd st) (''rl:'' @ key))"

definition redis_entries :: "('r \<Rightarrow> string \<Rightarrow> (string \<times> rat) list) \<Rightarrow> redis_backend \<times> 'r \<Rightarrow> string \<Rightarrow> rat list" where
  "redis_entries zs st key = map (\<lambda>m. snd m / 1000) (zs (snd st) (''rl:'' @ key))"

lemma redis_world_at:
  assumes "redis_world srv zs ex env"
  shows "redis_laws srv zs ex" "re_clock (env st key now) = now * 1000" "re_probe (env st key now) = Probe_ran"
    "re_fault (env st key now) = None"
    "redis_member (now * 1000) (re_token (env st key now)) \<notin> fst ` set (zs (snd st) (rb_prefix (fst st) @ key))"
  using assms unfolding redis_world_def by blast+

lemma redis_allows_lua:
  assumes "redis_inv srv zs ex env window st"
  obtains r r' cnt reset where "redis_allows srv env limit window st key now = ((fst st\<lparr>rb_impl := Some Impl_lua\<rparr>, r'), snd (redis_allows srv env limit window st key now))"
    and "lua_script srv r (now * 1000) (''rl:'' @ key) (now * 1000) (window * 1000) limit (redis_member (now * 1000) (re_token (env st key now)))
      = (r', snd (redis_allows srv env limit window st key now), cnt, reset)"
    and "\<And>k. zs r (''rl:'' @ k) = zs (snd st) (''rl:'' @ k) \<and> ex r (''rl:'' @ k) = ex (snd st) (''rl:'' @ k)"
proof -
  let ?e = "env st key now" and ?m = "redis_member (now * 1000) (re_token (env st key now))"
  define r where "r = snd (probe srv ?e (fst st) (snd st))"
  have world: "redis_laws srv zs ex" "re_clock ?e = now * 1000" "re_probe ?e = Probe_ran" "re_fault ?e = None"
    using redis_world_at[of srv zs ex env] assms unfolding redis_inv_def by simp_all
  have impl: "rb_impl (fst st) = None \<or> rb_impl (fst st) = Some Impl_lua" and pfx: "rb_prefix (fst st) = ''rl:''"
    using assms by (auto simp: redis_inv_def)
  have p: "probe srv ?e (fst st) (snd st) = (fst st\<lparr>rb_impl := Some Impl_lua\<rparr>, r)"
    using impl world(3) by (cases st) (auto simp: probe_def try_lua_def r_def)
  obtain r' ok cnt reset where run: "lua_script srv r (now * 1000) (''rl:'' @ key) (now * 1000) (window * 1000) limit ?m = (r', ok, cnt, reset)"
    by (metis surj_pair)
  have "redis_allows srv env limit window st key now = ((fst st\<lparr>rb_impl := Some Impl_lua\<rparr>, r'), ok)"
    using run by (simp add: redis_allows_def redis_check_def run_script_def p world with_fault_def pfx Let_def redis_reject_def)
  moreover have "zs r (''rl:'' @ k) = zs (snd st) (''rl:'' @ k) \<and> ex r (''rl:'' @ k) = ex (snd st) (''rl:'' @ k)" for k
    using lua_untouched[OF world(1), of 1 "''__rl_probe__''" "snd st"] by (auto simp: r_def probe_def world untouched_def)
  ultimately show ?thesis using run that by auto
qed

lemma redis_allows_step:
  assumes inv: "redis_inv srv zs ex env window st" and upto: "\<forall>k. \<forall>t \<in> set (redis_entries zs st k). t \<le> now"
  shows "redis_inv srv zs ex env window (fst (redis_allows srv env limit window st key now))"
    and "snd (redis_allows srv env limit window st key now) \<longleftrightarrow>
      int (length (filter (\<lambda>t. now - window \<le> t) (redis_entries zs st key))) < limit"
    and "redis_entries zs (fst (redis_allows srv env limit window st key now)) k' =
      (if k' = key then filter (\<lambda>t. now - window \<le> t) (redis_entries zs st key) @
         (if snd (redis_allows srv env limit window st key now) then [now] else []) else redis_entries zs st k')"
proof -
  let ?ok = "snd (redis_allows srv env limit window st key now)" and ?k = "''rl:'' @ key"
  obtain r r' cnt reset where eq: "redis_allows srv env limit window st key now = ((fst st\<lparr>rb_impl := Some Impl_lua\<rparr>, r'), ?ok)"
    and run: "lua_script srv r (now * 1000) ?k (now * 1000) (window * 1000) limit (redis_member (now * 1000) (re_token (env st key now)))
      = (r', ?ok, cnt, reset)"
    and same: "\<And>k. zs r (''rl:'' @ k) = zs (snd st) (''rl:'' @ k) \<and> ex r (''rl:'' @ k) = ex (snd st) (''rl:'' @ k)"
    using redis_allows_lua[OF inv] by metis
  have world: "redis_laws srv zs ex" "0 < window * 1000" and pfx: "rb_prefix (fst st) = ''rl:''"
    and last: "\<And>k. lasts zs ex (window * 1000) r (''rl:'' @ k)"
    using inv same by (auto simp: redis_inv_def redis_world_def lasts_def)
  have fresh: "redis_member (now * 1000) (re_token (env st key now)) \<notin> fst ` set (zs r ?k)"
    using redis_world_at(5)[of srv zs ex env now st key] inv pfx same[of key] unfolding redis_inv_def by metis
  have "snd m \<le> now * 1000" if "m \<in> set (zs r ?k)" for m
    using upto that same[of key] by (force simp: redis_entries_def divide_le_eq)
  then have le: "\<forall>m \<in> set (zs r ?k). snd m \<le> now * 1000" by blast
  note step = lua_step[OF world last le fresh run]
  have scale: "now - window \<le> x / 1000 \<longleftrightarrow> now * 1000 - window * 1000 \<le> x" for x :: rat
    by (simp add: le_divide_eq algebra_simps)
  have f: "filter (\<lambda>t. now - window \<le> t) (redis_entries zs st key) =
      map (\<lambda>x. x / 1000) (map snd (filter (\<lambda>m. now * 1000 - window * 1000 \<le> snd m) (zs r ?k)))"
    using same[of key] by (simp add: redis_entries_def filter_map o_def scale)
  show "?ok \<longleftrightarrow> int (length (filter (\<lambda>t. now - window \<le> t) (redis_entries zs st key))) < limit"
    unfolding f using step(3) by simp
  have st': "fst (redis_allows srv env limit window st key now) = (fst st\<lparr>rb_impl := Some Impl_lua\<rparr>, r')"
    by (subst eq) simp
  have other: "zs r' (''rl:'' @ k) = zs r (''rl:'' @ k) \<and> ex r' (''rl:'' @ k) = ex r (''rl:'' @ k)" if "k \<noteq> key" for k
    using step(1) that by (simp add: untouched_def)
  have own: "redis_entries zs (fst st\<lparr>rb_impl := Some Impl_lua\<rparr>, r') key = filter (\<lambda>t. now - window \<le> t) (redis_entries zs st key) @ (if ?ok then [now] else [])"
  proof -
    have "redis_entries zs (fst st\<lparr>rb_impl := Some Impl_lua\<rparr>, r') key = map (\<lambda>x. x / 1000) (map snd (zs r' ?k))"
      by (simp add: redis_entries_def)
    then show ?thesis unfolding step(4) f by simp
  qed
  show "redis_entries zs (fst (redis_allows srv env limit window st key now)) k' =
      (if k' = key then filter (\<lambda>t. now - window \<le> t) (redis_entries zs st key) @ (if ?ok then [now] else []) else redis_entries zs st k')"
    unfolding st' using own other[of k'] same[of k'] by (simp add: redis_entries_def)
  have "lasts zs ex (window * 1000) r' (''rl:'' @ k)" for k
    using step(2) other[of k] last[of k] by (cases "k = key") (simp_all add: lasts_def)
  then show "redis_inv srv zs ex env window (fst (redis_allows srv env limit window st key now))"
    unfolding st' using inv by (simp add: redis_inv_def)
qed

interpretation rdl: window_limiter "redis_allows srv env limit window" "redis_entries zs" "redis_inv srv zs ex env window"
  limit window for srv env limit window zs ex
proof unfold_locales
  fix st key now k'
  assume inv: "redis_inv srv zs ex env window st" and upto: "\<forall>k. \<forall>t \<in> set (redis_entries zs st k). t \<le> now"
  note step = redis_allows_step[OF inv upto]
  show "redis_inv srv zs ex env window (fst (redis_allows srv env limit window st key now))" by (rule step(1))
  show "snd (redis_allows srv env limit window st key now) \<longleftrightarrow>
      int (length (filter (\<lambda>t. now - window \<le> t) (redis_entries zs st key))) < limit" by (rule step(2))
  have "0 < window" using inv by (simp add: redis_inv_def)
  then show "filter (\<lambda>t. now - window \<le> t) (redis_entries zs (fst (redis_allows srv env limit window st key now)) k') =
      filter (\<lambda>t. now - window \<le> t) (redis_entries zs st k') @
      (if k' = key \<and> snd (redis_allows srv env limit window st key now) then [now] else [])"
    by (auto simp: step(3))
next
  fix st key now k'
  assume inv: "redis_inv srv zs ex env window st"
  show "set (redis_entries zs (fst (redis_allows srv env limit window st key now)) k') \<subseteq> insert now (set (redis_entries zs st k'))"
  proof -
    let ?ok = "snd (redis_allows srv env limit window st key now)"
    obtain r r' cnt reset where eq: "redis_allows srv env limit window st key now = ((fst st\<lparr>rb_impl := Some Impl_lua\<rparr>, r'), ?ok)"
      and run: "lua_script srv r (now * 1000) (''rl:'' @ key) (now * 1000) (window * 1000) limit (redis_member (now * 1000) (re_token (env st key now)))
        = (r', ?ok, cnt, reset)"
      and same: "\<And>k. zs r (''rl:'' @ k) = zs (snd st) (''rl:'' @ k) \<and> ex r (''rl:'' @ k) = ex (snd st) (''rl:'' @ k)"
      using redis_allows_lua[OF inv] by metis
    have world: "redis_laws srv zs ex" "0 < window * 1000" using inv by (auto simp: redis_inv_def redis_world_def)
    have st': "fst (redis_allows srv env limit window st key now) = (fst st\<lparr>rb_impl := Some Impl_lua\<rparr>, r')"
      by (subst eq) simp
    have scores: "redis_entries zs (b, r) k = map (\<lambda>x. x / 1000) (map snd (zs r (''rl:'' @ k)))" for b r k
      by (simp add: redis_entries_def)
    show ?thesis
    proof (cases "k' = key")
      case True
      have "snd ` set (zs r' (''rl:'' @ key)) \<subseteq> insert (now * 1000) (snd ` set (zs (snd st) (''rl:'' @ key)))"
        using lua_scores[OF world, of r "now * 1000" "''rl:'' @ key" "now * 1000" limit] run same[of key] by (metis fst_conv)
      with True show ?thesis unfolding st' by (force simp: redis_entries_def)
    next
      case False
      have "untouched zs ex (''rl:'' @ key) r r'" using lua_untouched[OF world] run by (metis fst_conv)
      with False same[of k'] show ?thesis unfolding st' by (auto simp: untouched_def redis_entries_def)
    qed
  qed
next
  show "0 < window" if "redis_inv srv zs ex env window st" for st using that by (simp add: redis_inv_def)
qed

text \<open>A sequence of checks of one process, from the first one on.\<close>

fun redis_exec ::
  "'r redis \<Rightarrow> (redis_backend \<times> 'r \<Rightarrow> string \<Rightarrow> rat \<Rightarrow> redis_env) \<Rightarrow> int \<Rightarrow> rat \<Rightarrow> string \<Rightarrow> redis_backend \<times> 'r \<Rightarrow> (string \<times> rat) list \<Rightarrow>
   (redis_backend \<times> 'r) \<times> limit_decision list" where
  "redis_exec srv env limit window scope st [] = (st, [])"
| "redis_exec srv env limit window scope st ((key, now) # rs) =
     (case redis_check srv (env st key now) st key limit window scope now of (st1, d) \<Rightarrow>
        (case redis_exec srv env limit window scope st1 rs of (st2, ds) \<Rightarrow> (st2, d # ds)))"

lemma redis_check_scope:
  "redis_allows srv env limit window st key now =
    map_prod id ld_allowed (redis_check srv (env st key now) st key limit window scope now)"
  by (auto simp: redis_allows_def redis_check_def fallback_admit_def redis_reject_def Let_def split: prod.split option.split)

lemma redis_exec_decisions:
  "map ld_allowed (snd (redis_exec srv env limit window scope st rs)) = rdl.decisions srv env limit window st rs"
proof (induction rs arbitrary: st)
  case (Cons q rs)
  obtain key now where q: "q = (key, now)" by (cases q)
  obtain st1 d where c: "redis_check srv (env st key now) st key limit window scope now = (st1, d)" by fastforce
  have "redis_allows srv env limit window st key now = (st1, ld_allowed d)"
    using redis_check_scope[of srv env limit window st key now scope] c by simp
  with Cons[of st1] q c show ?case by (simp add: split_beta)
qed simp


subsection \<open>A server for the laws\<close>

text \<open>A server in memory: each key with its members and its time of expiry.\<close>

type_synonym mem_server = "string \<Rightarrow> (string \<times> rat) list \<times> rat option"

definition ms_members :: "mem_server \<Rightarrow> string \<Rightarrow> (string \<times> rat) list" where
  "ms_members r k = sort_key snd (fst (r k))"

definition ms_expiry :: "mem_server \<Rightarrow> string \<Rightarrow> rat option" where
  "ms_expiry r k = snd (r k)"

definition sample_redis :: "mem_server redis" where
  "sample_redis =
     (let alive = live ms_members ms_expiry in
      \<lparr> rd_trim = (\<lambda>r t k c. r(k := (filter (\<lambda>m. c \<le> snd m) (alive r t k), snd (r k)))),
        rd_card = (\<lambda>r t k. length (alive r t k)),
        rd_add = (\<lambda>r t k s m. r(k := ((m, s) # filter (\<lambda>x. fst x \<noteq> m) (alive r t k), if alive r t k = [] then None else snd (r k)))),
        rd_expire = (\<lambda>r t k w. r(k := (alive r t k, Some (t + w)))),
        rd_first = (\<lambda>r t k. case alive r t k of [] \<Rightarrow> None | m # ms \<Rightarrow> Some (snd m)),
        rd_delete = (\<lambda>r ks k. if k \<in> set ks then ([], None) else r k),
        rd_scan = (\<lambda>r p c. (0, [])) \<rparr>)"

lemma live_sorted: "sorted (map snd (live ms_members ms_expiry r t k))"
  by (simp add: live_def ms_members_def split: option.split)

lemma sample_redis_laws: "redis_laws sample_redis ms_members ms_expiry"
proof -
  have other: "ms_members (r(k := x)) k' = (if k' = k then sort_key snd (fst x) else ms_members r k')"
    "ms_expiry (r(k := x)) k' = (if k' = k then snd x else ms_expiry r k')" for r k x k'
    by (simp_all add: ms_members_def ms_expiry_def)
  have keep: "sort_key snd (filter P (live ms_members ms_expiry r t k)) = filter P (live ms_members ms_expiry r t k)" for P r t k
    by (intro sort_key_id_if_sorted sorted_filter live_sorted)
  have "sort_key snd (live ms_members ms_expiry r t k) = live ms_members ms_expiry r t k" for r t k
    by (intro sort_key_id_if_sorted live_sorted)
  then show ?thesis
    by (simp add: redis_laws_def sample_redis_def Let_def untouched_def other keep) (simp add: ms_members_def ms_expiry_def)
qed

definition sample_redis_env :: "redis_backend \<times> mem_server \<Rightarrow> string \<Rightarrow> rat \<Rightarrow> redis_env" where
  "sample_redis_env st key now =
     \<lparr> re_clock = now * 1000, re_probe = Probe_ran, re_rounds = (\<lambda>i. Round_ok), re_fault = None,
       re_token = replicate (Suc (sum_list (map (\<lambda>m. length (fst m)) (ms_members (snd st) (rb_prefix (fst st) @ key))))) CHR ''x'',
       re_later = now \<rparr>"

lemma sample_redis_world: "redis_world sample_redis ms_members ms_expiry sample_redis_env"
proof -
  have "m \<notin> fst ` set ms" if "sum_list (map (\<lambda>x. length (fst x)) ms) < length m" for m :: string and ms :: "(string \<times> rat) list"
    using that member_le_sum_list[of "length m" "map (\<lambda>x. length (fst x)) ms"] by force
  then show ?thesis
    unfolding redis_world_def using sample_redis_laws by (simp add: sample_redis_env_def redis_member_def)
qed


subsection \<open>What the fallbacks let through\<close>

text \<open>Alone, the fallback decides as the script does, but for the report of the time of reset.\<close>

lemma watch_alone_is_lua:
  assumes "rounds 0 = Round_ok" and "window = of_int w"
  shows "fst (run_watch srv r t k now window limit member rounds None) = fst (lua_script srv r t k now window limit member)"
    and "map_option (\<lambda>(ok, cnt, reset). (ok, cnt)) (snd (run_watch srv r t k now window limit member rounds None)) =
      (case snd (lua_script srv r t k now window limit member) of (ok, cnt, reset) \<Rightarrow> Some (ok, cnt))"
proof -
  have "map rounds [0..<5] = Round_ok # map rounds [1..<5]" using assms(1) by (simp add: upt_rec)
  then show "fst (run_watch srv r t k now window limit member rounds None) = fst (lua_script srv r t k now window limit member)"
    and "map_option (\<lambda>(ok, cnt, reset). (ok, cnt)) (snd (run_watch srv r t k now window limit member rounds None)) =
      (case snd (lua_script srv r t k now window limit member) of (ok, cnt, reset) \<Rightarrow> Some (ok, cnt))"
    by (simp_all add: run_watch_def do_watch_round_def watch_decide_def do_admit_def lua_script_def with_fault_def Let_def assms(2))
qed

text \<open>The read and the write of the fallback are two transactions: two replicas that both read before either writes
  are both admitted, above the limit.\<close>

lemma watch_race_exceeds_limit:
  "\<exists>r1 n1 r2 n2 r3 d1 r4 d2.
     do_watch_round sample_redis (\<lambda>k. ([], None)) 1 ''rl:a'' 0 = (r1, n1) \<and>
     do_watch_round sample_redis r1 1 ''rl:a'' 0 = (r2, n2) \<and>
     watch_decide sample_redis r2 1 ''rl:a'' 1 1 1 ''x'' n1 = (r3, True, d1) \<and>
     watch_decide sample_redis r3 1 ''rl:a'' 1 1 1 ''y'' n2 = (r4, True, d2) \<and>
     rd_card sample_redis r4 1 ''rl:a'' = 2"
  by (simp add: do_watch_round_def watch_decide_def do_admit_def sample_redis_def Let_def live_def ms_members_def ms_expiry_def py_trunc_def)

text \<open>Five conflicts admit the request, too, and so does every fault, in the script and in the fallback.\<close>

lemma watch_conflicts_admit:
  "\<forall>i < 5. rounds i = Round_conflict \<Longrightarrow>
   run_watch srv r t k now window limit member rounds fault = (r, Some (True, 0, now + window))"
proof -
  assume "\<forall>i < 5. rounds i = Round_conflict"
  then have "map rounds [0..<5] = replicate 5 Round_conflict" by (simp add: list_eq_iff_nth_eq)
  then show ?thesis by (simp add: run_watch_def numeral_eq_Suc)
qed

lemma redis_fault_admits:
  assumes "re_fault env = Some f"
  shows "ld_allowed (snd (redis_check srv env st key limit window scope now))"
    and "ld_allowed (snd (redis_peek srv env st key limit window scope now))"
  using assms
  by (auto simp: redis_check_def redis_peek_def run_script_def run_watch_def with_fault_def fallback_admit_def Let_def
      split: prod.split option.split redis_fault.split)

text \<open>So the fail mode of the middleware is never asked: with this backend it answers no request with 503.\<close>

lemma redis_never_unavailable:
  assumes "user_cfg scopes (classify_scope path) \<noteq> None"
  shows "snd (rl_dispatch (\<lambda>b k l w s t. map_prod id Inr (redis_check srv (env t) b k l w s t))
      (\<lambda>b k l w s t. map_prod id Inr (redis_peek srv (env' t) b k l w s t))
      enabled fail_mode exempt scopes b path user_id client t1 t2 t3) \<noteq> Unavailable"
proof -
  have ok: "(map_prod id Inr x = (st, Inl e)) = False" for x :: "(redis_backend \<times> 'b) \<times> limit_decision" and st and e :: limiter_error
    by (cases x) simp
  show ?thesis
    using assms by (auto simp: ok rl_dispatch_def check_request_def check_ip_def Let_def split: prod.split sum.split option.split)
qed

end
