(* ===== verification/Regex.thy ===== *)
theory Regex
  imports Prelude
begin

section \<open>Regular expressions\<close>

text \<open>
  What the code uses of Python's \<open>re\<close>: classes of characters, sequences, alternatives, greedy repetition and word
  boundaries. A position is the character before it and the rest of the text. \<open>rx_match\<close> lists the ends of the matches
  at a position in the order in which Python's backtracking finds them, so the first is the match Python returns.
  \<open>rx_accepts\<close> says without any order what a match is, and the two agree.
\<close>

datatype rx = Eps | Cls "char \<Rightarrow> bool" | Seq rx rx | Alt rx rx | Star rx | Bnd

type_synonym position = "char option \<times> string"

definition is_alpha_char :: "char \<Rightarrow> bool" where
  "is_alpha_char c = (let n = (of_char c :: nat) in (65 \<le> n \<and> n \<le> 90) \<or> (97 \<le> n \<and> n \<le> 122))"

definition is_word :: "char \<Rightarrow> bool" where
  "is_word c \<longleftrightarrow> is_alpha_char c \<or> is_digit c \<or> c = CHR ''_''"

definition at_boundary :: "position \<Rightarrow> bool" where
  "at_boundary q = ((case fst q of None \<Rightarrow> False | Some c \<Rightarrow> is_word c) \<noteq> (case snd q of [] \<Rightarrow> False | c # _ \<Rightarrow> is_word c))"

fun rx_star :: "(position \<Rightarrow> position list) \<Rightarrow> nat \<Rightarrow> position \<Rightarrow> position list" where
  "rx_star f 0 q = [q]"
| "rx_star f (Suc n) q = concat (map (rx_star f n) (filter (\<lambda>q'. length (snd q') < length (snd q)) (f q))) @ [q]"

fun rx_match :: "rx \<Rightarrow> position \<Rightarrow> position list" where
  "rx_match Eps q = [q]"
| "rx_match (Cls P) q = (case snd q of [] \<Rightarrow> [] | c # s \<Rightarrow> if P c then [(Some c, s)] else [])"
| "rx_match (Seq a b) q = concat (map (rx_match b) (rx_match a q))"
| "rx_match (Alt a b) q = rx_match a q @ rx_match b q"
| "rx_match (Star a) q = rx_star (rx_match a) (length (snd q)) q"
| "rx_match Bnd q = (if at_boundary q then [q] else [])"

text \<open>\<open>r{n,}\<close>, \<open>r{n}\<close>, \<open>r+\<close>, \<open>r?\<close>, a literal text, and alternatives of texts.\<close>

fun rx_times :: "nat \<Rightarrow> rx \<Rightarrow> rx \<Rightarrow> rx" where
  "rx_times 0 r k = k"
| "rx_times (Suc n) r k = Seq r (rx_times n r k)"

abbreviation rx_least :: "nat \<Rightarrow> rx \<Rightarrow> rx" where
  "rx_least n r \<equiv> rx_times n r (Star r)"

abbreviation rx_opt :: "rx \<Rightarrow> rx" where
  "rx_opt r \<equiv> Alt r Eps"

fun rx_lit :: "string \<Rightarrow> rx" where
  "rx_lit [] = Eps"
| "rx_lit (c # s) = Seq (Cls (\<lambda>x. x = c)) (rx_lit s)"

fun rx_seq :: "rx list \<Rightarrow> rx" where
  "rx_seq [] = Eps"
| "rx_seq [r] = r"
| "rx_seq (r # rs) = Seq r (rx_seq rs)"

fun rx_alts :: "string list \<Rightarrow> rx" where
  "rx_alts [] = Cls (\<lambda>c. False)"
| "rx_alts [s] = rx_lit s"
| "rx_alts (s # ss) = Alt (rx_lit s) (rx_alts ss)"

text \<open>\<open>re.IGNORECASE\<close> on ASCII letters.\<close>

fun rx_lit_ci :: "string \<Rightarrow> rx" where
  "rx_lit_ci [] = Eps"
| "rx_lit_ci (c # s) = Seq (Cls (\<lambda>x. lower_char x = lower_char c)) (rx_lit_ci s)"

text \<open>The leftmost match from a position on: the text before it, the matched text, and the position after it.\<close>

fun rx_find :: "rx \<Rightarrow> char option \<Rightarrow> string \<Rightarrow> (string \<times> string \<times> position) option" where
  "rx_find r p [] = (case rx_match r (p, []) of [] \<Rightarrow> None | q # _ \<Rightarrow> Some ([], [], q))"
| "rx_find r p (c # s) =
     (case rx_match r (p, c # s) of
        q # _ \<Rightarrow> Some ([], take (length (c # s) - length (snd q)) (c # s), q)
      | [] \<Rightarrow> map_option (\<lambda>(pre, m, q). (c # pre, m, q)) (rx_find r (Some c) s))"

definition rx_search :: "rx \<Rightarrow> string \<Rightarrow> bool" where
  "rx_search r s = (rx_find r None s \<noteq> None)"

text \<open>\<open>finditer\<close>: the matched texts from left to right. An empty match ends the search here; no pattern of the code
  that is searched so matches the empty text.\<close>

fun rx_all :: "rx \<Rightarrow> nat \<Rightarrow> char option \<Rightarrow> string \<Rightarrow> string list" where
  "rx_all r 0 p s = []"
| "rx_all r (Suc n) p s =
     (case rx_find r p s of
        None \<Rightarrow> []
      | Some (pre, m, (p', s')) \<Rightarrow> if length s \<le> length s' then [] else m # rx_all r n p' s')"

definition rx_finditer :: "rx \<Rightarrow> string \<Rightarrow> string list" where
  "rx_finditer r s = rx_all r (length s) None s"

text \<open>\<open>re.sub\<close> with a replacement computed from the match, under the same condition.\<close>

fun rx_replace :: "rx \<Rightarrow> (string \<Rightarrow> string) \<Rightarrow> nat \<Rightarrow> char option \<Rightarrow> string \<Rightarrow> string" where
  "rx_replace r f 0 p s = s"
| "rx_replace r f (Suc n) p s =
     (case rx_find r p s of
        None \<Rightarrow> s
      | Some (pre, m, (p', s')) \<Rightarrow> if length s \<le> length s' then s else pre @ f m @ rx_replace r f n p' s')"

definition rx_sub :: "rx \<Rightarrow> (string \<Rightarrow> string) \<Rightarrow> string \<Rightarrow> string" where
  "rx_sub r f s = rx_replace r f (length s) None s"

subsection \<open>What a match is\<close>

inductive rx_accepts :: "rx \<Rightarrow> position \<Rightarrow> position \<Rightarrow> bool" where
  acc_eps: "rx_accepts Eps q q"
| acc_cls: "P c \<Longrightarrow> rx_accepts (Cls P) (p, c # s) (Some c, s)"
| acc_seq: "rx_accepts a q q1 \<Longrightarrow> rx_accepts b q1 q2 \<Longrightarrow> rx_accepts (Seq a b) q q2"
| acc_left: "rx_accepts a q q1 \<Longrightarrow> rx_accepts (Alt a b) q q1"
| acc_right: "rx_accepts b q q1 \<Longrightarrow> rx_accepts (Alt a b) q q1"
| acc_stop: "rx_accepts (Star a) q q"
| acc_more: "rx_accepts a q q1 \<Longrightarrow> rx_accepts (Star a) q1 q2 \<Longrightarrow> rx_accepts (Star a) q q2"
| acc_bnd: "at_boundary q \<Longrightarrow> rx_accepts Bnd q q"

inductive_cases rx_acceptsE [elim!]: "rx_accepts Eps q q'" "rx_accepts (Cls P) q q'" "rx_accepts (Seq a b) q q'"
  "rx_accepts (Alt a b) q q'" "rx_accepts Bnd q q'"

text \<open>A match of at least one character moves to a real suffix; one of none stays where it is.\<close>

definition advances :: "position \<Rightarrow> position \<Rightarrow> bool" where
  "advances q q' \<longleftrightarrow> q' = q \<or> (\<exists>m c. snd q = m @ c # snd q' \<and> fst q' = Some c)"

lemma advances_trans: "advances q q1 \<Longrightarrow> advances q1 q2 \<Longrightarrow> advances q q2"
  unfolding advances_def by (metis append.assoc append_Cons)

lemma accepts_advances: "rx_accepts r q q' \<Longrightarrow> advances q q'"
proof (induction rule: rx_accepts.induct)
  case (acc_cls P c p s)
  show ?case unfolding advances_def by (intro disjI2 exI[of _ "[]"]) simp
qed (auto simp: advances_def[of q q for q] intro: advances_trans)

lemma star_sound:
  assumes "\<And>q q'. q' \<in> set (f q) \<Longrightarrow> rx_accepts a q q'"
  shows "q' \<in> set (rx_star f n q) \<Longrightarrow> rx_accepts (Star a) q q'"
proof (induction n arbitrary: q)
  case (Suc n)
  then consider "q' = q" | q1 where "q1 \<in> set (f q)" "q' \<in> set (rx_star f n q1)" by (auto simp del: split_paired_Ex)
  then show ?case
  proof cases
    case 2
    then show ?thesis using assms Suc.IH acc_more by blast
  qed (simp add: acc_stop)
qed (simp add: acc_stop)

lemma star_complete:
  assumes "rx_accepts (Star a) q q'" and "\<And>q q'. rx_accepts a q q' \<Longrightarrow> q' \<in> set (f q)" and "length (snd q) \<le> n"
  shows "q' \<in> set (rx_star f n q)"
proof -
  have "r = Star a \<Longrightarrow> length (snd q) \<le> n \<Longrightarrow> q' \<in> set (rx_star f n q)" if "rx_accepts r q q'" for r n
    using that
  proof (induction arbitrary: n rule: rx_accepts.induct)
    case (acc_stop b q)
    show ?case by (cases n) auto
  next
    case (acc_more b q q1 q2)
    from acc_more.prems acc_more.hyps have step: "q1 \<in> set (f q)" "advances q q1" using assms(2) accepts_advances by auto
    show ?case
    proof (cases "q1 = q")
      case True
      with acc_more show ?thesis by simp
    next
      case False
      with step(2) have less: "length (snd q1) < length (snd q)" by (auto simp: advances_def)
      with acc_more.prems obtain m where n: "n = Suc m" "length (snd q1) \<le> m" by (cases n) auto
      have "q2 \<in> set (rx_star f m q1)" by (rule acc_more.IH(2)) (use acc_more.prems n in auto)
      with step(1) less n show ?thesis by (auto simp del: split_paired_Ex split_paired_All)
    qed
  qed simp_all
  with assms show ?thesis by blast
qed

lemma rx_match_iff: "q' \<in> set (rx_match r q) \<longleftrightarrow> rx_accepts r q q'"
proof (induction r arbitrary: q q')
  case (Cls P)
  show ?case by (cases q; cases "snd q") (auto intro: acc_cls)
next
  case (Star a)
  then show ?case
    using star_sound[of "rx_match a" a q' "length (snd q)" q] star_complete[of a q q' "rx_match a" "length (snd q)"]
    by (auto simp del: split_paired_Ex split_paired_All)
qed (auto intro: rx_accepts.intros)

text \<open>An end of a match is a suffix of the text.\<close>

lemma accepts_suffix:
  assumes "rx_accepts r q q'"
  shows "snd q = take (length (snd q) - length (snd q')) (snd q) @ snd q'"
proof -
  from accepts_advances[OF assms] obtain m where "snd q = m @ snd q'"
    unfolding advances_def by (metis append_Cons append_Nil append_assoc)
  then show ?thesis by simp
qed

lemma accepts_nonempty: "(\<exists>q'. rx_accepts r q q') \<longleftrightarrow> rx_match r q \<noteq> []"
  unfolding rx_match_iff[symmetric] by (cases "rx_match r q") (auto simp del: split_paired_Ex)

subsection \<open>What a search finds\<close>

definition char_after :: "char option \<Rightarrow> string \<Rightarrow> char option" where
  "char_after p u = (if u = [] then p else Some (last u))"

lemma char_after_simps [simp]: "char_after p [] = p" "char_after p (c # u) = char_after (Some c) u"
  by (simp_all add: char_after_def)

lemma rx_find_some:
  "rx_find r p s = Some (pre, m, q) \<Longrightarrow> s = pre @ m @ snd q \<and> rx_accepts r (char_after p pre, m @ snd q) q"
proof (induction r p s arbitrary: pre rule: rx_find.induct)
  case (1 r p)
  then obtain qs where "rx_match r (p, []) = q # qs" "pre = []" "m = []" by (auto split: list.splits)
  then show ?case using rx_match_iff[of q r "(p, [])"] accepts_advances[of r "(p, [])" q] by (auto simp: advances_def)
next
  case (2 r p c s)
  show ?case
  proof (cases "rx_match r (p, c # s)")
    case Nil
    with "2.prems" obtain pre' where "rx_find r (Some c) s = Some (pre', m, q)" "pre = c # pre'" by auto
    with "2.IH"[OF Nil, of pre'] show ?thesis by simp
  next
    case (Cons q0 qs)
    with "2.prems" have q: "q = q0" "pre = []" "m = take (length (c # s) - length (snd q)) (c # s)" by auto
    have acc: "rx_accepts r (p, c # s) q" using Cons q(1) rx_match_iff[of q r "(p, c # s)"] by simp
    from accepts_suffix[OF this] have eq: "c # s = m @ snd q" by (simp only: q(3) snd_conv)
    show ?thesis unfolding q(2) append_Nil char_after_simps eq[symmetric] using acc by blast
  qed
qed

lemma rx_find_iff: "rx_find r p s \<noteq> None \<longleftrightarrow> (\<exists>u v q. s = u @ v \<and> rx_accepts r (char_after p u, v) q)"
proof (induction r p s rule: rx_find.induct)
  case (1 r p)
  have "(\<exists>q. rx_accepts r (p, []) q) \<longleftrightarrow> rx_match r (p, []) \<noteq> []" by (rule accepts_nonempty)
  then show ?case by (auto split: list.split)
next
  case (2 r p c s)
  have here: "(\<exists>q. rx_accepts r (p, c # s) q) \<longleftrightarrow> rx_match r (p, c # s) \<noteq> []" by (rule accepts_nonempty)
  have "(\<exists>u v q. c # s = u @ v \<and> rx_accepts r (char_after p u, v) q) \<longleftrightarrow>
      (\<exists>q. rx_accepts r (p, c # s) q) \<or> (\<exists>u v q. s = u @ v \<and> rx_accepts r (char_after (Some c) u, v) q)"
    by (auto simp: Cons_eq_append_conv) (metis char_after_simps)+
  then show ?case using here "2.IH" by (cases "rx_match r (p, c # s)") auto
qed

lemma rx_search_iff: "rx_search r s \<longleftrightarrow> (\<exists>u v q. s = u @ v \<and> rx_accepts r (char_after None u, v) q)"
  unfolding rx_search_def by (rule rx_find_iff)

text \<open>A pattern that matches no empty text: then \<open>finditer\<close> finds something exactly when \<open>search\<close> does.\<close>

definition consumes :: "rx \<Rightarrow> bool" where
  "consumes r \<longleftrightarrow> (\<forall>q q'. rx_accepts r q q' \<longrightarrow> length (snd q') < length (snd q))"

lemma rx_finditer_iff: "consumes r \<Longrightarrow> rx_finditer r s = [] \<longleftrightarrow> \<not> rx_search r s"
proof (cases "rx_find r None s")
  case None
  then show ?thesis by (cases "length s") (simp_all add: rx_finditer_def rx_search_def)
next
  case (Some f)
  assume c: "consumes r"
  obtain pre m p' s' where f: "f = (pre, m, (p', s'))" by (cases f) auto
  with rx_find_some[of r None s pre m "(p', s')"] Some
  have "s = pre @ m @ s'" "rx_accepts r (char_after None pre, m @ s') (p', s')" by auto
  moreover from this c have "length s' < length (m @ s')" by (force simp: consumes_def)
  ultimately have "length s' < length s" by simp
  with Some f show ?thesis by (cases "length s") (auto simp: rx_finditer_def rx_search_def)
qed

lemma consumes_cls [intro]: "consumes (Cls P)"
  by (auto simp: consumes_def)

lemma consumes_seq_left [intro]: "consumes a \<Longrightarrow> consumes (Seq a b)"
proof -
  assume a: "consumes a"
  have "length (snd q') < length (snd q)" if "rx_accepts a q q1" "rx_accepts b q1 q'" for q q1 q'
  proof -
    have "length (snd q') \<le> length (snd q1)" using arg_cong[OF accepts_suffix[OF that(2)], of length] by simp
    moreover have "length (snd q1) < length (snd q)" using a that(1) unfolding consumes_def by blast
    ultimately show ?thesis by simp
  qed
  then show ?thesis by (auto simp: consumes_def simp del: split_paired_All)
qed

lemma consumes_lit [intro]: "s \<noteq> [] \<Longrightarrow> consumes (rx_lit s)"
  by (cases s) auto

text \<open>A search finds the leftmost match, and a repetition of a class takes all it can.\<close>

lemma rx_find_leftmost:
  "rx_find r p s = Some (pre, m, q) \<Longrightarrow> pre = u @ w \<Longrightarrow> w \<noteq> [] \<Longrightarrow> rx_match r (char_after p u, w @ m @ snd q) = []"
proof (induction r p s arbitrary: pre u rule: rx_find.induct)
  case (1 r p)
  then show ?case by (auto split: list.splits)
next
  case (2 r p c s)
  show ?case
  proof (cases "rx_match r (p, c # s)")
    case Nil
    with "2.prems"(1) obtain pre' where f: "rx_find r (Some c) s = Some (pre', m, q)" "pre = c # pre'" by auto
    have s: "c # s = pre @ m @ snd q" using rx_find_some[OF "2.prems"(1)] by blast
    show ?thesis
    proof (cases u)
      case Nil
      then show ?thesis using \<open>rx_match r (p, c # s) = []\<close> s "2.prems"(2) by simp
    next
      case (Cons c' u')
      with "2.prems"(2) f(2) have "c' = c" "pre' = u' @ w" by auto
      with "2.IH"[OF Nil f(1) _ "2.prems"(3), of u'] Cons show ?thesis by simp
    qed
  next
    case (Cons q0 qs)
    with "2.prems" show ?thesis by simp
  qed
qed

lemma star_cls_greedy: "length s \<le> n \<Longrightarrow> \<exists>qs p'. rx_star (rx_match (Cls P)) n (p, s) = (p', dropWhile P s) # qs"
proof (induction s arbitrary: n p)
  case Nil
  then show ?case by (cases n) auto
next
  case (Cons c s)
  then obtain m where n: "n = Suc m" "length s \<le> m" by (cases n) auto
  from Cons.IH[OF n(2), of "Some c"] n(1) show ?case by auto
qed

text \<open>Without word boundaries, a match does not depend on what is before or after it.\<close>

fun bnd_free :: "rx \<Rightarrow> bool" where
  "bnd_free Eps = True"
| "bnd_free (Cls P) = True"
| "bnd_free (Seq a b) = (bnd_free a \<and> bnd_free b)"
| "bnd_free (Alt a b) = (bnd_free a \<and> bnd_free b)"
| "bnd_free (Star a) = bnd_free a"
| "bnd_free Bnd = False"

lemma bnd_free_lit_ci [simp]: "bnd_free (rx_lit_ci s)"
  by (induction s) simp_all

lemma char_after_append [simp]: "char_after p (u @ w) = char_after (char_after p u) w"
  by (simp add: char_after_def)

lemma accepts_context:
  "rx_accepts r q q' \<Longrightarrow> bnd_free r \<Longrightarrow> snd q = u @ snd q' \<Longrightarrow> rx_accepts r (p, u @ w) (char_after p u, w)"
proof (induction arbitrary: u p w rule: rx_accepts.induct)
  case (acc_cls P c p' s)
  then have "u = [c]" by simp
  with acc_cls show ?case by (auto intro: rx_accepts.acc_cls)
next
  case (acc_seq a q q1 b q2)
  obtain u1 u2 where u: "snd q = u1 @ snd q1" "snd q1 = u2 @ snd q2"
    using accepts_suffix[OF acc_seq.hyps(1)] accepts_suffix[OF acc_seq.hyps(2)] by metis
  with acc_seq.prems have "u = u1 @ u2" by simp
  with acc_seq.IH(1)[OF _ u(1), of p "u2 @ w"] acc_seq.IH(2)[OF _ u(2), of "char_after p u1"] acc_seq.prems(1) show ?case
    by (auto intro: rx_accepts.acc_seq)
next
  case (acc_more a q q1 q2)
  obtain u1 u2 where u: "snd q = u1 @ snd q1" "snd q1 = u2 @ snd q2"
    using accepts_suffix[OF acc_more.hyps(1)] accepts_suffix[OF acc_more.hyps(2)] by metis
  with acc_more.prems have "u = u1 @ u2" by simp
  with acc_more.IH(1)[OF _ u(1), of p "u2 @ w"] acc_more.IH(2)[OF _ u(2), of "char_after p u1"] acc_more.prems(1) show ?case
    by (auto intro: rx_accepts.acc_more)
qed (auto intro: rx_accepts.intros)

lemma no_match_context: "bnd_free r \<Longrightarrow> rx_match r (p, s) = [] \<longleftrightarrow> rx_match r (p', s) = []"
proof -
  have one: "bnd_free r \<Longrightarrow> rx_match r (p, s) \<noteq> [] \<Longrightarrow> rx_match r (p', s) \<noteq> []" for p p'
  proof -
    assume free: "bnd_free r" and "rx_match r (p, s) \<noteq> []"
    then obtain q where acc: "rx_accepts r (p, s) q" using accepts_nonempty by blast
    from accepts_context[OF acc free, of "take (length s - length (snd q)) s" p' "snd q"] accepts_suffix[OF acc]
    have "rx_accepts r (p', s) (char_after p' (take (length s - length (snd q)) s), snd q)" by simp
    then show "rx_match r (p', s) \<noteq> []" using accepts_nonempty by blast
  qed
  assume "bnd_free r"
  with one show ?thesis by blast
qed

lemma rx_find_context: "bnd_free r \<Longrightarrow> rx_find r p s = None \<longleftrightarrow> rx_find r p' s = None"
proof (cases s)
  case (Cons c s')
  assume "bnd_free r"
  then have "rx_match r (p, s) = [] \<longleftrightarrow> rx_match r (p', s) = []" by (rule no_match_context)
  with Cons show ?thesis by (auto split: list.splits)
next
  case Nil
  assume "bnd_free r"
  then have "rx_match r (p, s) = [] \<longleftrightarrow> rx_match r (p', s) = []" by (rule no_match_context)
  with Nil show ?thesis by (auto split: list.splits)
qed

lemma rx_find_head:
  "rx_find r p s = Some (pre, m, q) \<Longrightarrow> \<exists>qs. rx_match r (char_after p pre, m @ snd q) = q # qs"
proof (induction r p s arbitrary: pre rule: rx_find.induct)
  case (1 r p)
  then have f: "rx_find r p [] = Some (pre, m, q)" by simp
  with rx_find_some[OF f] show ?case by (auto split: list.splits)
next
  case (2 r p c s)
  show ?case
  proof (cases "rx_match r (p, c # s)")
    case Nil
    with "2.prems" obtain pre' where "rx_find r (Some c) s = Some (pre', m, q)" "pre = c # pre'" by auto
    with "2.IH"[OF Nil, of pre'] show ?thesis by simp
  next
    case (Cons q0 qs)
    with "2.prems" have "q = q0" "pre = []" by auto
    with Cons rx_find_some[OF "2.prems"] show ?thesis by simp
  qed
qed

end
