(* ===== verification/Prom_Metrics.thy ===== *)
theory Prom_Metrics
  imports Py_Value
begin

section \<open>Counters, gauges and histograms (observability/metrics.py)\<close>

text \<open>
  The metrics that are scraped: each type with its values per set of labels, and the registry that renders them. A set
  of labels is a list of names and texts sorted by name. The text of a float is a parameter \<open>num\<close>.
\<close>

type_synonym labels = "(string, string) dict"

fun insert_label :: "string \<times> string \<Rightarrow> labels \<Rightarrow> labels" where
  "insert_label p [] = [p]"
| "insert_label p (q # qs) = (if str_cmp (fst p) (fst q) = Less then p # q # qs else q # insert_label p qs)"

text \<open>\<open>tuple(sorted(labels.items()))\<close>\<close>

definition label_key :: "labels \<Rightarrow> labels" where
  "label_key ls = foldr insert_label ls []"

subsection \<open>The three types\<close>

record counter =
  ct_name :: string
  ct_help :: string
  ct_label_names :: "string list"
  ct_values :: "(labels, rat) dict"

record gauge =
  gg_name :: string
  gg_help :: string
  gg_label_names :: "string list"
  gg_values :: "(labels, rat) dict"

record observations =
  ob_buckets :: "nat list"
  ob_sum :: rat
  ob_count :: nat

record histogram =
  hs_name :: string
  hs_help :: string
  hs_label_names :: "string list"
  hs_bounds :: "rat list"
  hs_data :: "(labels, observations) dict"

definition new_counter :: "string \<Rightarrow> string \<Rightarrow> string list option \<Rightarrow> counter" where
  "new_counter name help names =
     \<lparr> ct_name = name, ct_help = help, ct_label_names = (case names of None \<Rightarrow> [] | Some ns \<Rightarrow> ns), ct_values = [] \<rparr>"

definition check_labels :: "counter \<Rightarrow> labels \<Rightarrow> bool" where
  "check_labels c ls = list_all (\<lambda>n. dict_has ls n) (ct_label_names c)"

text \<open>A call that lacks a label is dropped.\<close>

definition counter_inc :: "counter \<Rightarrow> rat \<Rightarrow> labels \<Rightarrow> counter" where
  "counter_inc c amount ls =
     (if \<not> check_labels c ls then c
      else c\<lparr>ct_values := dict_set (ct_values c) (label_key ls) (dict_get_or (ct_values c) (label_key ls) 0 + amount)\<rparr>)"

definition new_gauge :: "string \<Rightarrow> string \<Rightarrow> string list option \<Rightarrow> gauge" where
  "new_gauge name help names =
     \<lparr> gg_name = name, gg_help = help, gg_label_names = (case names of None \<Rightarrow> [] | Some ns \<Rightarrow> ns), gg_values = [] \<rparr>"

definition gauge_set :: "gauge \<Rightarrow> rat \<Rightarrow> labels \<Rightarrow> gauge" where
  "gauge_set g v ls = g\<lparr>gg_values := dict_set (gg_values g) (label_key ls) v\<rparr>"

definition gauge_inc :: "gauge \<Rightarrow> rat \<Rightarrow> labels \<Rightarrow> gauge" where
  "gauge_inc g amount ls = g\<lparr>gg_values := dict_set (gg_values g) (label_key ls) (dict_get_or (gg_values g) (label_key ls) 0 + amount)\<rparr>"

definition gauge_dec :: "gauge \<Rightarrow> rat \<Rightarrow> labels \<Rightarrow> gauge" where
  "gauge_dec g amount ls = g\<lparr>gg_values := dict_set (gg_values g) (label_key ls) (dict_get_or (gg_values g) (label_key ls) 0 - amount)\<rparr>"

definition default_bounds :: "rat list" where
  "default_bounds = [5/1000, 1/100, 25/1000, 5/100, 1/10, 1/4, 1/2, 1, 5/2, 5, 10]"

definition new_histogram :: "string \<Rightarrow> string \<Rightarrow> rat list option \<Rightarrow> string list option \<Rightarrow> histogram" where
  "new_histogram name help bounds names =
     \<lparr> hs_name = name, hs_help = help, hs_label_names = (case names of None \<Rightarrow> [] | Some ns \<Rightarrow> ns),
       hs_bounds = sort (case bounds of None \<Rightarrow> default_bounds | Some bs \<Rightarrow> if bs = [] then default_bounds else bs), hs_data = [] \<rparr>"

definition no_observations :: "histogram \<Rightarrow> observations" where
  "no_observations h = \<lparr> ob_buckets = replicate (length (hs_bounds h)) 0, ob_sum = 0, ob_count = 0 \<rparr>"

text \<open>An observation counts in every bucket whose bound it does not exceed.\<close>

definition observe :: "histogram \<Rightarrow> rat \<Rightarrow> labels \<Rightarrow> histogram" where
  "observe h v ls =
     (let key = label_key ls; d = dict_get_or (hs_data h) key (no_observations h) in
      h\<lparr>hs_data := dict_set (hs_data h) key
          (d\<lparr>ob_buckets := map2 (\<lambda>b n. if v \<le> b then n + 1 else n) (hs_bounds h) (ob_buckets d),
             ob_sum := ob_sum d + v, ob_count := ob_count d + 1\<rparr>)\<rparr>)"

subsection \<open>The text format\<close>

definition dq :: string where "dq = [CHR 0x22]"

definition head_lines :: "string \<Rightarrow> string \<Rightarrow> string \<Rightarrow> string list" where
  "head_lines name help kind = [''# HELP '' @ name @ '' '' @ help, ''# TYPE '' @ name @ '' '' @ kind]"

definition label_str :: "labels \<Rightarrow> string" where
  "label_str ls = join_with '','' (map (\<lambda>(k, v). k @ ''='' @ dq @ v @ dq) ls)"

definition value_line :: "string \<Rightarrow> labels \<Rightarrow> string \<Rightarrow> string" where
  "value_line name ls v = (if label_str ls = [] then name @ '' '' @ v else name @ ''{'' @ label_str ls @ ''} '' @ v)"

definition render_counter :: "(rat \<Rightarrow> string) \<Rightarrow> counter \<Rightarrow> string list" where
  "render_counter num c =
     head_lines (ct_name c) (ct_help c) ''counter'' @ map (\<lambda>(ls, v). value_line (ct_name c) ls (num v)) (ct_values c)"

definition render_gauge :: "(rat \<Rightarrow> string) \<Rightarrow> gauge \<Rightarrow> string list" where
  "render_gauge num g =
     head_lines (gg_name g) (gg_help g) ''gauge'' @ map (\<lambda>(ls, v). value_line (gg_name g) ls (num v)) (gg_values g)"

definition bucket_line :: "string \<Rightarrow> labels \<Rightarrow> string \<Rightarrow> nat \<Rightarrow> string" where
  "bucket_line name ls bound n =
     name @ ''_bucket{'' @ (if label_str ls = [] then [] else label_str ls @ '','') @ ''le='' @ dq @ bound @ dq @ ''} '' @ show_nat n"

definition render_histogram :: "(rat \<Rightarrow> string) \<Rightarrow> histogram \<Rightarrow> string list" where
  "render_histogram num h =
     head_lines (hs_name h) (hs_help h) ''histogram'' @
     concat (map (\<lambda>(ls, d).
       map2 (\<lambda>b n. bucket_line (hs_name h) ls (num b) n) (hs_bounds h) (ob_buckets d) @
       [bucket_line (hs_name h) ls ''+Inf'' (ob_count d),
        value_line (hs_name h @ ''_sum'') ls (num (ob_sum d)), value_line (hs_name h @ ''_count'') ls (show_nat (ob_count d))]) (hs_data h))"

subsection \<open>The registry\<close>

datatype metric = Counter counter | Gauge gauge | Histogram histogram

type_synonym registry = "(string, metric) dict"

text \<open>A metric of another type under the name is replaced, with all its values.\<close>

definition reg_counter :: "registry \<Rightarrow> string \<Rightarrow> string \<Rightarrow> string list option \<Rightarrow> registry \<times> counter" where
  "reg_counter rg name help names =
     (case dict_get rg name of
        Some (Counter c) \<Rightarrow> (rg, c)
      | _ \<Rightarrow> (let c = new_counter name help names in (dict_set rg name (Counter c), c)))"

definition reg_gauge :: "registry \<Rightarrow> string \<Rightarrow> string \<Rightarrow> string list option \<Rightarrow> registry \<times> gauge" where
  "reg_gauge rg name help names =
     (case dict_get rg name of
        Some (Gauge g) \<Rightarrow> (rg, g)
      | _ \<Rightarrow> (let g = new_gauge name help names in (dict_set rg name (Gauge g), g)))"

definition reg_histogram :: "registry \<Rightarrow> string \<Rightarrow> string \<Rightarrow> rat list option \<Rightarrow> string list option \<Rightarrow> registry \<times> histogram" where
  "reg_histogram rg name help bounds names =
     (case dict_get rg name of
        Some (Histogram h) \<Rightarrow> (rg, h)
      | _ \<Rightarrow> (let h = new_histogram name help bounds names in (dict_set rg name (Histogram h), h)))"

definition render_metric :: "(rat \<Rightarrow> string) \<Rightarrow> metric \<Rightarrow> string list" where
  "render_metric num m =
     (case m of Counter c \<Rightarrow> render_counter num c | Gauge g \<Rightarrow> render_gauge num g | Histogram h \<Rightarrow> render_histogram num h)"

definition render_registry :: "(rat \<Rightarrow> string) \<Rightarrow> registry \<Rightarrow> string" where
  "render_registry num rg = join_with [CHR 0x0A] (concat (map (\<lambda>m. render_metric num m @ [[]]) (dict_values rg)))"

subsection \<open>What a histogram counts\<close>

definition observe_all :: "histogram \<Rightarrow> (rat \<times> labels) list \<Rightarrow> histogram" where
  "observe_all h os = foldl (\<lambda>h (v, ls). observe h v ls) h os"

definition seen :: "(rat \<times> labels) list \<Rightarrow> labels \<Rightarrow> rat list" where
  "seen os key = map fst (filter (\<lambda>p. label_key (snd p) = key) os)"

definition observed :: "histogram \<Rightarrow> labels \<Rightarrow> observations" where
  "observed h key = dict_get_or (hs_data h) key (no_observations h)"

lemma seen_snoc [simp]: "seen (os @ [(v, ls)]) key = seen os key @ (if label_key ls = key then [v] else [])"
  by (simp add: seen_def)

lemma map2_self: "map2 f xs (map g xs) = map (\<lambda>x. f x (g x)) xs"
  by (induction xs) simp_all

lemma observed_step:
  "observed (observe h v ls) key =
    (if key = label_key ls
     then (observed h key)\<lparr>ob_buckets := map2 (\<lambda>b n. if v \<le> b then n + 1 else n) (hs_bounds h) (ob_buckets (observed h key)),
             ob_sum := ob_sum (observed h key) + v, ob_count := ob_count (observed h key) + 1\<rparr>
     else observed h key)"
  by (simp add: observed_def observe_def no_observations_def Let_def)

lemma observe_bounds [simp]: "hs_bounds (observe h v ls) = hs_bounds h"
  by (simp add: observe_def Let_def)

lemma histogram_counts:
  assumes "hs_data h = []"
  shows "observed (observe_all h os) key =
    \<lparr> ob_buckets = map (\<lambda>b. length (filter (\<lambda>v. v \<le> b) (seen os key))) (hs_bounds h),
      ob_sum = sum_list (seen os key), ob_count = length (seen os key) \<rparr>"
proof (induction os rule: rev_induct)
  case Nil
  show ?case using assms by (simp add: observe_all_def seen_def observed_def no_observations_def map_replicate_const)
next
  case (snoc x os)
  obtain v ls where x: "x = (v, ls)" by (cases x)
  have b: "hs_bounds (observe_all h os) = hs_bounds h" for os
    unfolding observe_all_def by (induction os rule: rev_induct) (auto simp: split_beta)
  have "observe_all h (os @ [x]) = observe (observe_all h os) v ls" by (simp add: observe_all_def x)
  then show ?case by (cases "label_key ls = key") (simp_all add: observed_step snoc b x map2_self if_distrib cong: if_cong)
qed

end
