(* ===== verification/Request_Guards.thy ===== *)
theory Request_Guards
  imports Rate_Limit Regex Prom_Metrics
begin

section \<open>The guards around the API (core/security_middleware.py, core/security, core/metrics_middleware.py)\<close>

text \<open>
  The middlewares a request passes before a route sees it. An application takes a request and the state of the world and
  answers with a response, or raises (\<^const>\<open>Inl\<close> with the text of the error). Names of headers are in
  lower case, as the server delivers and compares them; the headers a JSON response adds for its content are left out. A body is the list of messages the server would deliver;
  after the last one the client is gone.
\<close>

datatype body_msg = Body_part string bool | Disconnected | Other_msg

record http_request =
  rq_type :: string
  rq_method :: string
  rq_path :: string
  rq_query :: string
  rq_scheme :: string
  rq_headers :: "(string \<times> string) list"
  rq_client :: "string option"
  rq_user :: "string option"
  rq_body :: "body_msg list"

record http_response =
  rs_status :: int
  rs_headers :: "(string \<times> string) list"
  rs_body :: pydict

type_synonym 'w http_app = "http_request \<Rightarrow> 'w \<Rightarrow> (string + http_response) \<times> 'w"

text \<open>What is done to a response, if there is one.\<close>

definition on_response :: "(http_response \<Rightarrow> http_response) \<Rightarrow> (string + http_response) \<times> 'w \<Rightarrow> (string + http_response) \<times> 'w" where
  "on_response f r = (case r of (Inl e, w) \<Rightarrow> (Inl e, w) | (Inr res, w) \<Rightarrow> (Inr (f res), w))"

definition header_of :: "(string \<times> string) list \<Rightarrow> string \<Rightarrow> string option" where
  "header_of hs k = map_of hs k"

text \<open>\<open>response.headers[k] = v\<close>\<close>

definition set_header :: "string \<Rightarrow> string \<Rightarrow> http_response \<Rightarrow> http_response" where
  "set_header k v res = res\<lparr>rs_headers := dict_set (rs_headers res) k v\<rparr>"

subsection \<open>Security headers\<close>

definition default_security_headers :: "(string \<times> string) list" where
  "default_security_headers =
     [(''x-content-type-options'', ''nosniff''), (''x-frame-options'', ''DENY''),
      (''referrer-policy'', ''strict-origin-when-cross-origin''),
      (''permissions-policy'', ''geolocation=(), microphone=(), camera=()''), (''x-xss-protection'', ''1; mode=block'')]"

definition production_security_headers :: "(string \<times> string) list" where
  "production_security_headers =
     default_security_headers @ [(''strict-transport-security'', ''max-age=31536000; includeSubDomains'')]"

definition add_missing :: "(string \<times> string) list \<Rightarrow> http_response \<Rightarrow> http_response" where
  "add_missing hs res = foldl (\<lambda>r (k, v). if header_of (rs_headers r) k = None then set_header k v r else r) res hs"

definition security_headers_mw :: "bool \<Rightarrow> 'w http_app \<Rightarrow> 'w http_app" where
  "security_headers_mw is_production app rq w =
     (if rq_type rq \<noteq> ''http'' then app rq w
      else on_response (add_missing (if is_production then production_security_headers else default_security_headers)) (app rq w))"

subsection \<open>The size of a body\<close>

fun first_header :: "(string \<times> string) list \<Rightarrow> string \<Rightarrow> string option" where
  "first_header [] k = None"
| "first_header ((n, v) # hs) k = (if n = k then Some v else first_header hs k)"

definition too_large :: "int \<Rightarrow> http_request \<Rightarrow> bool" where
  "too_large max_bytes rq =
     (case first_header (rq_headers rq) ''content-length'' of
        None \<Rightarrow> False | Some v \<Rightarrow> (case py_int v of None \<Rightarrow> False | Some n \<Rightarrow> n > max_bytes))"

definition json_response :: "int \<Rightarrow> pydict \<Rightarrow> (string \<times> string) list \<Rightarrow> http_response" where
  "json_response status content hs = \<lparr> rs_status = status, rs_headers = hs, rs_body = content \<rparr>"

definition size_limit_mw :: "int \<Rightarrow> 'w http_app \<Rightarrow> 'w http_app" where
  "size_limit_mw max_bytes app rq w =
     (if rq_type rq \<noteq> ''http'' then app rq w
      else if too_large max_bytes rq
      then (Inr (json_response 413 [(''error'', PStr ''payload_too_large''),
              (''message'', PStr (''Request body exceeds '' @ show_int max_bytes @ '' bytes''))] []), w)
      else app rq w)"

subsection \<open>Secrets in a body\<close>

definition alnum :: "char \<Rightarrow> bool" where
  "alnum c \<longleftrightarrow> is_alpha_char c \<or> is_digit c"

definition alnum_dash :: "char \<Rightarrow> bool" where
  "alnum_dash c \<longleftrightarrow> alnum c \<or> c = CHR ''-''"

definition token_char :: "char \<Rightarrow> bool" where
  "token_char c \<longleftrightarrow> alnum c \<or> c = CHR ''_'' \<or> c = CHR ''-''"

definition upper_digit :: "char \<Rightarrow> bool" where
  "upper_digit c \<longleftrightarrow> is_digit c \<or> (is_alpha_char c \<and> lower_char c \<noteq> c)"

definition prefixed :: "string \<Rightarrow> rx \<Rightarrow> rx" where
  "prefixed s r = Seq (rx_lit s) r"

definition secrets_patterns :: "(rx \<times> string) list" where
  "secrets_patterns =
     [(prefixed ''sk-'' (rx_least 20 (Cls alnum)), ''Anthropic/OpenAI-style key''),
      (prefixed ''sk-ant-'' (rx_least 20 (Cls alnum_dash)), ''Anthropic admin key''),
      (prefixed ''sk-proj-'' (rx_least 20 (Cls alnum)), ''OpenAI project key''),
      (prefixed ''ghp_'' (rx_least 20 (Cls alnum)), ''GitHub PAT''),
      (prefixed ''gho_'' (rx_least 20 (Cls alnum)), ''GitHub OAuth''),
      (prefixed ''github_pat_'' (rx_least 20 (Cls (\<lambda>c. alnum c \<or> c = CHR ''_''))), ''GitHub fine-grained PAT''),
      (prefixed ''xoxb-'' (rx_least 1 (Cls alnum_dash)), ''Slack bot token''),
      (prefixed ''xoxp-'' (rx_least 1 (Cls alnum_dash)), ''Slack user token''),
      (prefixed ''AKIA'' (rx_times 16 (Cls upper_digit) Eps), ''AWS access key''),
      (prefixed ''AIza'' (rx_times 35 (Cls token_char) Eps), ''Google API key''),
      (prefixed ''ya29.'' (rx_least 1 (Cls token_char)), ''Google OAuth token''),
      (prefixed ''-----BEGIN '' (Seq (rx_opt (rx_alts [''RSA '', ''EC '', ''DSA '', ''OPENSSH ''])) (rx_lit ''PRIVATE KEY-----'')), ''Private key''),
      (prefixed ''eyJ'' (rx_seq [rx_least 1 (Cls token_char), rx_lit ''.eyJ'', rx_least 1 (Cls token_char), rx_lit ''.'', rx_least 1 (Cls token_char)]), ''JWT token''),
      (prefixed ''AKIA'' (rx_times 16 (Cls upper_digit) Eps), ''AWS access key ID''),
      (prefixed ''ASIA'' (rx_times 16 (Cls upper_digit) Eps), ''AWS STS token''),
      (prefixed ''AIza'' (rx_times 35 (Cls token_char) Eps), ''Google API key''),
      (prefixed ''ya29.'' (rx_least 1 (Cls token_char)), ''Google OAuth'')]"

definition scan_for_secrets :: "string \<Rightarrow> (string \<times> string) list" where
  "scan_for_secrets text =
     (if text = [] \<or> length text > 100000 then []
      else concat (map (\<lambda>(r, name). map (\<lambda>m. (name, take 8 m @ ''...'')) (rx_finditer r text)) secrets_patterns))"

text \<open>The messages up to the last part of the body are taken off the stream.\<close>

fun drain_body :: "body_msg list \<Rightarrow> string \<Rightarrow> string" where
  "drain_body [] body = body"
| "drain_body (Body_part s goes_on # ms) body = (if goes_on then drain_body ms (body @ s) else body @ s)"
| "drain_body (Disconnected # ms) body = body"
| "drain_body (Other_msg # ms) body = drain_body ms body"

definition exempt_paths :: "string list" where
  "exempt_paths = [''/api/health'', ''/api/ready'']"

definition scanned :: "http_request \<Rightarrow> bool" where
  "scanned rq \<longleftrightarrow> rq_type rq = ''http'' \<and> rq_path rq \<notin> set exempt_paths \<and> rq_method rq \<in> {''POST'', ''PUT'', ''PATCH''}"

text \<open>\<open>_passthrough_receive\<close>: the body once, then the disconnect. \<open>slow\<close> says that the scan times out.\<close>

definition replay_body :: "string \<Rightarrow> http_request \<Rightarrow> http_request" where
  "replay_body body rq = rq\<lparr>rq_body := [Body_part body False, Disconnected]\<rparr>"

definition secrets_response :: "(string \<times> string) list \<Rightarrow> http_response" where
  "secrets_response found =
     json_response 400 [(''error'', PStr ''secrets_detected''),
       (''message'', PStr (''Request body contains what appears to be credentials. '' @
          ''Please remove secrets and use environment variables.'')),
       (''matches'', PList (map (\<lambda>p. PStr (fst p)) found))] []"

definition secrets_mw :: "(string \<Rightarrow> bool) \<Rightarrow> 'w http_app \<Rightarrow> 'w http_app" where
  "secrets_mw slow app rq w =
     (if \<not> scanned rq then app rq w
      else let body = drain_body (rq_body rq) [];
               found = (if body = [] \<or> slow body then [] else scan_for_secrets body)
           in if found \<noteq> [] then (Inr (secrets_response found), w) else app (replay_body body rq) w)"

subsection \<open>The limiter by address\<close>

definition client_ip :: "http_request \<Rightarrow> string" where
  "client_ip rq = (case rq_client rq of None \<Rightarrow> ''unknown'' | Some h \<Rightarrow> h)"

text \<open>The state of the middlewares; the state of the application extends it.\<close>

record api_world =
  aw_request_id :: "string option"
  aw_tokens :: token_limiter
  aw_limiter :: mem_backend
  aw_prom :: registry

definition rate_limit_mw :: "rat \<times> rat \<times> rat \<Rightarrow> 'w api_world_scheme http_app \<Rightarrow> 'w api_world_scheme http_app" where
  "rate_limit_mw ts app rq w =
     (if rq_type rq \<noteq> ''http'' \<or> rq_path rq \<in> set exempt_paths then app rq w
      else case ts of (t1, t2, t3) \<Rightarrow>
        (case tl_check (aw_tokens w) (client_ip rq) t1 t2 t3 of (l, ok) \<Rightarrow>
           if ok then app rq (w\<lparr>aw_tokens := l\<rparr>)
           else (Inr (json_response 429 [(''error'', PStr ''rate_limited''), (''message'', PStr ''Too many requests. Please retry later.'')]
                   [(''retry-after'', ''60'')]), w\<lparr>aw_tokens := l\<rparr>)))"

definition mask_internal_error :: pydict where
  "mask_internal_error =
     [(''error'', PStr ''internal_error''), (''message'', PStr ''An unexpected error occurred. Please contact support.'')]"

subsection \<open>The sliding window as a middleware\<close>

definition limit_headers :: "int \<Rightarrow> int \<Rightarrow> int \<Rightarrow> string \<Rightarrow> http_response \<Rightarrow> http_response" where
  "limit_headers limit remaining reset scope res =
     set_header ''x-ratelimit-scope'' scope (set_header ''x-ratelimit-reset'' (show_int reset)
       (set_header ''x-ratelimit-remaining'' (show_int remaining) (set_header ''x-ratelimit-limit'' (show_int limit) res)))"

definition too_many_response :: "int \<Rightarrow> int \<Rightarrow> string \<Rightarrow> string \<Rightarrow> int \<Rightarrow> http_response" where
  "too_many_response limit reset scope dimension retry_after =
     json_response 429
       [(''error'', PStr ''rate_limited''), (''message'', PStr (''Too many requests. Retry after '' @ show_int retry_after @ ''s.'')),
        (''scope'', PStr scope), (''dimension'', PStr dimension)]
       [(''x-ratelimit-limit'', show_int limit), (''x-ratelimit-remaining'', ''0''), (''x-ratelimit-reset'', show_int reset),
        (''x-ratelimit-scope'', scope), (''x-ratelimit-dimension'', dimension), (''retry-after'', show_int retry_after)]"

definition unavailable_response :: http_response where
  "unavailable_response =
     json_response 503 [(''error'', PStr ''rate_limiter_unavailable''), (''message'', PStr ''Service temporarily unavailable'')] []"

text \<open>The user is the one other code has put into the state of the request.\<close>

definition sliding_window_mw ::
  "bool \<Rightarrow> string \<Rightarrow> (string, scope_config) dict \<Rightarrow> rat \<times> rat \<times> rat \<Rightarrow> 'w api_world_scheme http_app \<Rightarrow> 'w api_world_scheme http_app" where
  "sliding_window_mw enabled fail_mode scopes ts app rq w =
     (if rq_type rq \<noteq> ''http'' then app rq w
      else case ts of (t1, t2, t3) \<Rightarrow>
        (case rl_dispatch mb_check mb_peek enabled fail_mode exempt_default scopes (aw_limiter w) (rq_path rq) (rq_user rq) (rq_client rq) t1 t2 t3 of
           (l, Forward) \<Rightarrow> app rq (w\<lparr>aw_limiter := l\<rparr>)
         | (l, ForwardWithHeaders limit remaining reset scope) \<Rightarrow>
             on_response (limit_headers limit remaining reset scope) (app rq (w\<lparr>aw_limiter := l\<rparr>))
         | (l, TooMany limit reset scope dimension retry_after) \<Rightarrow>
             (Inr (too_many_response limit reset scope dimension retry_after), w\<lparr>aw_limiter := l\<rparr>)
         | (l, Unavailable) \<Rightarrow> (Inr unavailable_response, w\<lparr>aw_limiter := l\<rparr>)))"

subsection \<open>Request ids\<close>

definition request_id_char :: "char \<Rightarrow> bool" where
  "request_id_char c \<longleftrightarrow> token_char c"

definition sanitize_request_id :: "string option \<Rightarrow> string option" where
  "sanitize_request_id value =
     (case value of
        None \<Rightarrow> None
      | Some v \<Rightarrow> (let v = strip v in if v = [] \<or> length v > 128 \<or> \<not> list_all request_id_char v then None else Some v))"

text \<open>\<open>fresh\<close> is the new random id; the variable has its old value again when the request ends, also by an exception.\<close>

definition request_id_mw :: "string \<Rightarrow> 'w api_world_scheme http_app \<Rightarrow> 'w api_world_scheme http_app" where
  "request_id_mw fresh app rq w =
     (if rq_type rq \<noteq> ''http'' then app rq w
      else let rid = (case sanitize_request_id (header_of (rq_headers rq) ''x-request-id'') of None \<Rightarrow> fresh | Some v \<Rightarrow> v);
               r = app rq (w\<lparr>aw_request_id := Some rid\<rparr>)
           in on_response (set_header ''x-request-id'' rid) (fst r, (snd r)\<lparr>aw_request_id := aw_request_id w\<rparr>))"

subsection \<open>Metrics of requests\<close>

definition hex_dash :: "char \<Rightarrow> bool" where
  "hex_dash c \<longleftrightarrow> is_digit c \<or> c = CHR ''-'' \<or> (let n = (of_char c :: nat) in 97 \<le> n \<and> n \<le> 102)"

definition path_id_pattern :: rx where
  "path_id_pattern = Alt (Seq (rx_lit ''/'') (rx_least 8 (Cls hex_dash))) (Seq (rx_lit ''/'') (rx_least 1 (Cls is_digit)))"

definition normalize_path :: "string \<Rightarrow> string" where
  "normalize_path path = rx_sub path_id_pattern (\<lambda>m. ''/{id}'') path"

text \<open>The two metrics are registered when the middleware is built; a request adds to them the time it took.\<close>

definition metrics_init :: "registry \<Rightarrow> registry" where
  "metrics_init rg =
     fst (reg_histogram (fst (reg_counter rg ''agent_http_requests_total'' ''Total HTTP requests'' (Some [''method'', ''path'', ''status''])))
            ''agent_http_request_duration_seconds'' ''HTTP request duration in seconds'' None (Some [''method'', ''path'']))"

definition count_request :: "string \<Rightarrow> string \<Rightarrow> int \<Rightarrow> rat \<Rightarrow> registry \<Rightarrow> registry" where
  "count_request meth path status seconds rg =
     (let (rg1, c) = reg_counter rg ''agent_http_requests_total'' ''Total HTTP requests'' (Some [''method'', ''path'', ''status'']);
          rg2 = dict_set rg1 ''agent_http_requests_total'' (Counter (counter_inc c 1 [(''method'', meth), (''path'', path), (''status'', show_int status)]));
          (rg3, h) = reg_histogram rg2 ''agent_http_request_duration_seconds'' ''HTTP request duration in seconds'' None (Some [''method'', ''path''])
      in dict_set rg3 ''agent_http_request_duration_seconds'' (Histogram (observe h seconds [(''method'', meth), (''path'', path)])))"

text \<open>An exception is counted where it is caught and again in the \<open>finally\<close>, a moment later.\<close>

definition metrics_mw :: "bool \<Rightarrow> rat \<times> rat \<Rightarrow> 'w api_world_scheme http_app \<Rightarrow> 'w api_world_scheme http_app" where
  "metrics_mw enabled seconds app rq w =
     (if rq_type rq \<noteq> ''http'' \<or> \<not> enabled then app rq w
      else let path = normalize_path (rq_path rq); tally = count_request (rq_method rq) path in
        (case app rq w of
           (Inr res, w1) \<Rightarrow> (Inr res, w1\<lparr>aw_prom := tally (rs_status res) (snd seconds) (aw_prom w1)\<rparr>)
         | (Inl e, w1) \<Rightarrow> (Inl e, w1\<lparr>aw_prom := tally 500 (snd seconds) (tally 500 (fst seconds) (aw_prom w1))\<rparr>)))"

subsection \<open>What the gate for secrets lets through\<close>

lemma patterns_consume: "(r, name) \<in> set secrets_patterns \<Longrightarrow> consumes r"
  by (auto simp: secrets_patterns_def prefixed_def intro!: consumes_seq_left consumes_lit)

lemma scan_names:
  "fst ` set (scan_for_secrets text) =
    (if length text \<le> 100000 then {name. \<exists>r. (r, name) \<in> set secrets_patterns \<and> rx_search r text} else {})"
proof (cases "length text \<le> 100000")
  case True
  have none: "\<not> rx_search r []" if "(r, name) \<in> set secrets_patterns" for r name
  proof
    assume "rx_search r []"
    then obtain q where "rx_accepts r (None, []) q" by (auto simp: rx_search_iff)
    with patterns_consume[OF that] have "length (snd q) < length (snd (None :: char option, [] :: string))"
      unfolding consumes_def by blast
    then show False by simp
  qed
  have finds: "rx_finditer r text \<noteq> [] \<longleftrightarrow> rx_search r text" if "(r, name) \<in> set secrets_patterns" for r name
    using rx_finditer_iff[OF patterns_consume[OF that]] by blast
  have "fst ` set (concat (map (\<lambda>(r, name). map (\<lambda>m. (name, take 8 m @ ''...'')) (rx_finditer r text)) ps)) =
      {name. \<exists>r. (r, name) \<in> set ps \<and> rx_finditer r text \<noteq> []}" for ps
  proof (induction ps)
    case (Cons p ps)
    obtain r name where p: "p = (r, name)" by (cases p)
    have "fst ` set (map (\<lambda>m. (name, take 8 m @ ''...'')) (rx_finditer r text)) = (if rx_finditer r text = [] then {} else {name})"
      by (auto simp: image_image image_constant_conv)
    with Cons.IH show ?case by (auto simp: p image_Un)
  qed simp
  note names = this[of secrets_patterns]
  have "{name. \<exists>r. (r, name) \<in> set secrets_patterns \<and> rx_finditer r text \<noteq> []} =
      {name. \<exists>r. (r, name) \<in> set secrets_patterns \<and> rx_search r text}"
    by (rule Collect_cong) (metis finds)
  moreover have "{name. \<exists>r. (r, name) \<in> set secrets_patterns \<and> rx_search r text} = {}" if "text = []"
    using none that by blast
  ultimately show ?thesis using True names by (simp add: scan_for_secrets_def)
qed (simp add: scan_for_secrets_def)

lemma drain_parts: "drain_body (map (\<lambda>p. Body_part p True) parts @ Body_part part False # rest) b = b @ concat parts @ part"
  by (induction parts arbitrary: b) simp_all

text \<open>A secret is in a text where one of the patterns matches a part of it.\<close>

definition has_secret :: "string \<Rightarrow> bool" where
  "has_secret body \<longleftrightarrow> (\<exists>r name u v q. (r, name) \<in> set secrets_patterns \<and> body = u @ v \<and> rx_accepts r (char_after None u, v) q)"

lemma scan_found: "scan_for_secrets text \<noteq> [] \<longleftrightarrow> length text \<le> 100000 \<and> has_secret text"
proof -
  have "scan_for_secrets text \<noteq> [] \<longleftrightarrow> fst ` set (scan_for_secrets text) \<noteq> {}" by simp
  then show ?thesis by (simp add: scan_names has_secret_def rx_search_iff) blast
qed

text \<open>C31: What the gate for secrets does with a request: it refuses it, with the names of exactly the patterns that
  match somewhere in the body, when the body is scanned in time, has at most 100000 characters and holds a
  secret; every other request reaches the application once, a scanned one with its whole body, all its parts, to be read once.\<close>

theorem secrets_gate_exact:
  "secrets_mw slow app rq w =
    (let body = drain_body (rq_body rq) [] in
     if scanned rq \<and> \<not> slow body \<and> length body \<le> 100000 \<and> has_secret body
     then (Inr (secrets_response (scan_for_secrets body)), w)
     else app (if scanned rq then replay_body body rq else rq) w) \<and>
   fst ` set (scan_for_secrets body) = (if length body \<le> 100000
      then {name. \<exists>r u v q. (r, name) \<in> set secrets_patterns \<and> body = u @ v \<and> rx_accepts r (char_after None u, v) q} else {}) \<and>
   drain_body (map (\<lambda>p. Body_part p True) parts @ Body_part part False # rest) [] = concat parts @ part \<and>
   drain_body (rq_body (replay_body body rq)) [] = body"
proof (intro conjI)
  have "\<not> has_secret []" using scan_found[of "[]"] by (simp add: scan_for_secrets_def)
  then show "secrets_mw slow app rq w =
    (let body = drain_body (rq_body rq) [] in
     if scanned rq \<and> \<not> slow body \<and> length body \<le> 100000 \<and> has_secret body
     then (Inr (secrets_response (scan_for_secrets body)), w)
     else app (if scanned rq then replay_body body rq else rq) w)"
    using scan_found[of "drain_body (rq_body rq) []"] by (auto simp: secrets_mw_def Let_def)
  show "fst ` set (scan_for_secrets body) = (if length body \<le> 100000
      then {name. \<exists>r u v q. (r, name) \<in> set secrets_patterns \<and> body = u @ v \<and> rx_accepts r (char_after None u, v) q} else {})"
    by (simp add: scan_names rx_search_iff)
qed (simp_all add: replay_body_def drain_parts)

text \<open>So a body that is padded above 100000 characters is forwarded with its secrets.\<close>

lemma padded_secrets_pass:
  "100000 < length (drain_body (rq_body rq) []) \<Longrightarrow> scanned rq \<Longrightarrow>
   secrets_mw slow app rq w = app (replay_body (drain_body (rq_body rq) []) rq) w"
  by (simp add: secrets_mw_def scan_for_secrets_def Let_def)

text \<open>A client that leaves in the middle of its body: what came is passed on as a whole body.\<close>

lemma cut_body_passes:
  "rq_body (replay_body (drain_body [Body_part ''{a'' True, Disconnected] []) rq) = [Body_part ''{a'' False, Disconnected]"
  by (simp add: replay_body_def)

text \<open>Only the header is asked for the size: a body without one is unbounded.\<close>

lemma chunked_body_unbounded:
  "first_header (rq_headers rq) ''content-length'' = None \<Longrightarrow> size_limit_mw n app rq w = app rq w"
  by (simp add: size_limit_mw_def too_large_def)

text \<open>A request that raises is counted and timed twice.\<close>

lemma failed_request_counted:
  "app rq w = (Inl e, w1) \<Longrightarrow> rq_type rq = ''http'' \<Longrightarrow>
   aw_prom (snd (metrics_mw True (s1, s2) app rq w)) =
     count_request (rq_method rq) (normalize_path (rq_path rq)) 500 s2
       (count_request (rq_method rq) (normalize_path (rq_path rq)) 500 s1 (aw_prom w1))"
  by (simp add: metrics_mw_def Let_def)

lemma failed_request_counted_twice:
  "case dict_get (count_request ''GET'' ''/x'' 500 2 (count_request ''GET'' ''/x'' 500 1 (metrics_init [])))
        ''agent_http_requests_total'' of
     Some (Counter c) \<Rightarrow> map snd (ct_values c) = [2] | _ \<Rightarrow> False"
  by code_simp

end
