(* ===== verification/Transport_Guards.thy ===== *)
theory Transport_Guards
  imports Request_Guards
begin

section \<open>HTTPS and origins (core/security/tls.py, core/security/cors.py)\<close>

text \<open>
  The redirect to https, the HSTS header, the check of cookies, and the configuration of the origins that may
  call the API from a browser. \<open>env\<close> is the process environment. What the framework does with the
  configuration of the origins is not part of the code.
\<close>

type_synonym environ = "string \<Rightarrow> string option"

definition env_or :: "environ \<Rightarrow> string \<Rightarrow> string \<Rightarrow> string" where
  "env_or env k dflt = (case env k of None \<Rightarrow> dflt | Some v \<Rightarrow> v)"

definition env_flag :: "environ \<Rightarrow> string \<Rightarrow> string \<Rightarrow> bool" where
  "env_flag env k dflt \<longleftrightarrow> lower (env_or env k dflt) \<in> {''1'', ''true'', ''yes''}"

definition is_production :: "environ \<Rightarrow> bool" where
  "is_production env \<longleftrightarrow> lower (strip (env_or env ''ENVIRONMENT'' ''development'')) = ''production''"

subsection \<open>The redirect\<close>

definition redirect_exempt :: "string list" where
  "redirect_exempt = [''/api/health'', ''/api/ready'', ''/health'', ''/ready'']"

definition or_text :: "string option \<Rightarrow> string \<Rightarrow> string" where
  "or_text s dflt = (case s of None \<Rightarrow> dflt | Some t \<Rightarrow> if t = [] then dflt else t)"

definition request_scheme :: "http_request \<Rightarrow> string" where
  "request_scheme rq = lower (or_text (map_option lower (first_header (rq_headers rq) ''x-forwarded-proto'')) (rq_scheme rq))"

definition https_url :: "http_request \<Rightarrow> string" where
  "https_url rq =
     ''https://'' @ or_text (first_header (rq_headers rq) ''host'') ''localhost'' @ rq_path rq @
     (if rq_query rq = [] then [] else ''?'' @ rq_query rq)"

definition https_redirect_mw :: "bool \<Rightarrow> 'w http_app \<Rightarrow> 'w http_app" where
  "https_redirect_mw enabled app rq w =
     (if \<not> enabled \<or> rq_type rq \<noteq> ''http'' \<or> rq_path rq \<in> set redirect_exempt \<or> request_scheme rq = ''https'' then app rq w
      else (Inr \<lparr> rs_status = 301, rs_headers = [(''location'', https_url rq)], rs_body = [] \<rparr>, w))"

subsection \<open>HSTS\<close>

record hsts =
  ht_enabled :: bool
  ht_value :: string

definition hsts_value :: "int \<Rightarrow> bool \<Rightarrow> bool \<Rightarrow> string" where
  "hsts_value max_age include_subdomains preload =
     join_with ''; '' ([''max-age='' @ show_int max_age] @ (if include_subdomains then [''includeSubDomains''] else []) @
       (if preload then [''preload''] else []))"

text \<open>An age that is no number raises when the application is built.\<close>

definition hsts_init :: "environ \<Rightarrow> hsts option" where
  "hsts_init env =
     (case py_int (env_or env ''TLS_HSTS_MAX_AGE'' ''31536000'') of
        None \<Rightarrow> None
      | Some age \<Rightarrow> Some
          \<lparr> ht_enabled = env_flag env ''TLS_HSTS_ENABLED'' (if is_production env then ''true'' else ''false''),
            ht_value = hsts_value age (env_flag env ''TLS_HSTS_INCLUDE_SUBDOMAINS'' ''true'') (env_flag env ''TLS_HSTS_PRELOAD'' ''false'') \<rparr>)"

definition hsts_mw :: "hsts \<Rightarrow> 'w http_app \<Rightarrow> 'w http_app" where
  "hsts_mw ht app rq w =
     (if \<not> ht_enabled ht \<or> rq_type rq \<noteq> ''http'' then app rq w
      else on_response (\<lambda>res. res\<lparr>rs_headers :=
             filter (\<lambda>h. lower (fst h) \<noteq> ''strict-transport-security'') (rs_headers res) @ [(''strict-transport-security'', ht_value ht)]\<rparr>) (app rq w))"

subsection \<open>Cookies\<close>

definition insecure_cookie :: "string \<times> string \<Rightarrow> bool" where
  "insecure_cookie h \<longleftrightarrow> lower (fst h) = ''set-cookie'' \<and> \<not> str_in ''secure'' (lower (snd h))"

text \<open>The loop goes on over the headers of the message it replaces; the body is sent as it is.\<close>

definition check_cookies :: "bool \<Rightarrow> http_response \<Rightarrow> http_response" where
  "check_cookies warn_only res =
     (if \<not> warn_only \<and> list_ex insecure_cookie (rs_headers res)
      then res\<lparr>rs_status := 500, rs_headers := [(''content-type'', ''application/json'')]\<rparr> else res)"

definition secure_cookie_mw :: "bool \<Rightarrow> bool \<Rightarrow> 'w http_app \<Rightarrow> 'w http_app" where
  "secure_cookie_mw enabled warn_only app rq w =
     (if \<not> enabled \<or> rq_type rq \<noteq> ''http'' then app rq w else on_response (check_cookies warn_only) (app rq w))"

subsection \<open>Origins\<close>

record cors_config =
  co_origins :: "string list"
  co_credentials :: bool
  co_methods :: "string list"
  co_headers :: "string list"
  co_max_age :: int
  co_environment :: string

datatype cors_error = CorsWildcard | CorsBadOrigins "string list" | CorsBadMaxAge

definition is_https_or_localhost :: "string \<Rightarrow> bool" where
  "is_https_or_localhost origin =
     (let o' = strip origin in prefix ''https://'' o' \<or> prefix ''http://localhost'' o' \<or> prefix ''http://127.0.0.1'' o')"

fun split_commas :: "string \<Rightarrow> string list" where
  "split_commas [] = [[]]"
| "split_commas (c # s) =
     (if c = CHR '','' then [] # split_commas s
      else case split_commas s of [] \<Rightarrow> [[c]] | x # xs \<Rightarrow> (c # x) # xs)"

definition origins_of :: "string \<Rightarrow> string list" where
  "origins_of raw = filter (\<lambda>x. x \<noteq> []) (map strip (split_commas raw))"

text \<open>The first of equal elements stays.\<close>

definition dedupe :: "'a list \<Rightarrow> 'a list" where
  "dedupe xs = rev (foldl (\<lambda>acc x. if x \<in> set acc then acc else x # acc) [] xs)"

definition build_cors_config ::
  "environ \<Rightarrow> string option \<Rightarrow> string option \<Rightarrow> string option \<Rightarrow> bool option \<Rightarrow> int option \<Rightarrow> cors_error + cors_config" where
  "build_cors_config env environment allowed dev creds max_age =
     (let en = lower (strip (or_text environment (env_or env ''ENVIRONMENT'' ''development'')));
          raw = strip (case allowed of None \<Rightarrow> env_or env ''CORS_ALLOWED_ORIGINS'' [] | Some a \<Rightarrow> a);
          dev_raw = strip (case dev of None \<Rightarrow> env_or env ''CORS_DEV_ORIGINS'' [] | Some a \<Rightarrow> a);
          credentials = (case creds of None \<Rightarrow> lower (env_or env ''CORS_ALLOW_CREDENTIALS'' ''true'') \<in> {''1'', ''true'', ''yes'', ''on''} | Some c \<Rightarrow> c);
          explicit = origins_of raw; dev_extra = origins_of dev_raw
      in case (case max_age of None \<Rightarrow> py_int (env_or env ''CORS_MAX_AGE'' ''600'') | Some m \<Rightarrow> Some m) of
           None \<Rightarrow> Inl CorsBadMaxAge
         | Some age \<Rightarrow>
             let bad = filter (\<lambda>x. \<not> is_https_or_localhost x) explicit;
                 config = (\<lambda>origins. \<lparr> co_origins = dedupe origins, co_credentials = credentials,
                    co_methods = [''GET'', ''POST'', ''PUT'', ''DELETE'', ''OPTIONS'', ''PATCH''],
                    co_headers = [''Authorization'', ''Content-Type'', ''X-Request-ID'', ''Idempotency-Key''],
                    co_max_age = age, co_environment = en \<rparr>)
             in if en = ''production'' then
                  (if ''*'' \<in> set explicit then Inl CorsWildcard
                   else if bad \<noteq> [] then Inl (CorsBadOrigins bad)
                   else Inr (config explicit))
                else if en = ''staging'' then Inr (config (explicit @ [''https://staging.example.com''] @ dev_extra))
                else Inr (config ((if explicit = [] then [''http://localhost:5173'', ''http://127.0.0.1:5173''] else explicit) @ dev_extra)))"

definition is_origin_allowed :: "string \<Rightarrow> cors_config \<Rightarrow> bool" where
  "is_origin_allowed origin c \<longleftrightarrow> origin \<in> set (co_origins c)"

subsection \<open>What the origins are\<close>

lemma dedupe_set [simp]: "set (dedupe xs) = set xs"
proof -
  have "set (foldl (\<lambda>acc x. if x \<in> set acc then acc else x # acc) acc xs) = set acc \<union> set xs" for acc
    by (induction xs arbitrary: acc) auto
  then show ?thesis by (simp add: dedupe_def)
qed

lemma dedupe_distinct: "distinct (dedupe xs)"
proof -
  have "distinct acc \<Longrightarrow> distinct (foldl (\<lambda>acc x. if x \<in> set acc then acc else x # acc) acc xs)" for acc
    by (induction xs arbitrary: acc) auto
  then show ?thesis by (simp add: dedupe_def)
qed

text \<open>In production no origin is a wildcard or plain http, except for names that start like localhost.\<close>

lemma production_origins:
  assumes "build_cors_config env (Some ''production'') allowed dev creds max_age = Inr c" and "is_origin_allowed o' c"
  shows "o' \<noteq> ''*'' \<and> is_https_or_localhost o'"
proof -
  have "lower (strip ''production'') = ''production''" by code_simp
  then show ?thesis
    using assms by (auto simp: build_cors_config_def Let_def or_text_def is_origin_allowed_def filter_empty_conv split: option.splits if_splits)
qed

text \<open>The test is of the beginning of a name: a host that only starts like localhost passes, with credentials.\<close>

lemma localhost_prefix_passes:
  "case build_cors_config (\<lambda>k. None) (Some ''production'') (Some ''http://localhost.evil.example'') None None None of
     Inr c \<Rightarrow> is_origin_allowed ''http://localhost.evil.example'' c \<and> co_credentials c | Inl e \<Rightarrow> False"
  by code_simp

text \<open>Outside production a wildcard is accepted with credentials.\<close>

lemma staging_wildcard:
  "case build_cors_config (\<lambda>k. None) (Some ''staging'') (Some ''*'') None None None of
     Inr c \<Rightarrow> is_origin_allowed ''*'' c \<and> co_credentials c | Inl e \<Rightarrow> False"
  by code_simp

end
