(* ===== verification/Server_Stack.thy ===== *)
theory Server_Stack
  imports Transport_Guards Token_Auth Graph_Storage
begin

section \<open>The server (api/server.py)\<close>

text \<open>
  How the guards are put around the routes, and what the server does with the graph when it starts and stops. The
  routes, the framework's composition of middlewares (\<open>stack\<close>) and its CORS middleware are parameters;
  FastAPI documents that a middleware that is added later is further out (\<open>last_is_outermost\<close>). The routes keep their
  state in the last field of the world. Telemetry and the wait for tasks in flight are left out.
\<close>

record 'a server_world = api_world +
  sv_cv :: context_vars
  sv_rest :: 'a

type_synonym 'a server_app = "'a server_world http_app"

subsection \<open>Authentication as a middleware\<close>

definition auth_mw :: "(auth_error \<Rightarrow> string) \<Rightarrow> jwt_lib \<Rightarrow> auth_service \<Rightarrow> rat \<Rightarrow> 'a server_app \<Rightarrow> 'a server_app" where
  "auth_mw err lib svc now app rq w =
     (case auth_middleware lib svc now (\<lambda>cv. case app rq (w\<lparr>sv_cv := cv\<rparr>) of (r, w1) \<Rightarrow> ((r, w1), sv_cv w1))
             (rq_type rq) (rq_headers rq) (sv_cv w) of
        (Inl e, cv) \<Rightarrow> (Inl (err e), w\<lparr>sv_cv := cv\<rparr>)
      | (Inr (r, w1), cv) \<Rightarrow> (r, w1\<lparr>sv_cv := cv\<rparr>))"

subsection \<open>The configuration\<close>

record server_config =
  sc_secured :: bool
  sc_prod :: bool
  sc_max_bytes :: int
  sc_sliding :: bool
  sc_scopes :: "(string, scope_config) dict"
  sc_cookies :: bool
  sc_cookies_warn :: bool
  sc_hsts :: hsts
  sc_redirect :: bool
  sc_cors :: cors_config

text \<open>A number that cannot be read, or origins that are refused, stop the server at its start.\<close>

definition server_config_of :: "environ \<Rightarrow> server_config option" where
  "server_config_of env =
     (case (if env ''DISABLE_SECURITY_MIDDLEWARE'' = Some ''1'' then Some 0 else py_int (env_or env ''MAX_REQUEST_BYTES'' ''1048576''), hsts_init env, build_cors_config env None None None None None) of
        (Some n, Some ht, Inr cors) \<Rightarrow> Some
          \<lparr> sc_secured = (env ''DISABLE_SECURITY_MIDDLEWARE'' \<noteq> Some ''1''), sc_prod = (env ''ENVIRONMENT'' = Some ''production''),
            sc_max_bytes = n, sc_sliding = env_flag env ''AGENT_RATE_LIMIT_ENABLED'' ''true'', sc_scopes = load_scope_config env,
            sc_cookies = env_flag env ''TLS_SECURE_COOKIES'' ''false'', sc_cookies_warn = env_flag env ''TLS_SECURE_COOKIES_WARN_ONLY'' ''true'',
            sc_hsts = ht, sc_redirect = env_flag env ''TLS_REDIRECT_ENABLED'' ''false'', sc_cors = cors \<rparr>
      | _ \<Rightarrow> None)"

text \<open>What is read during one request: the clock, the new id, the time taken, whether the scan is too slow.\<close>

record request_env =
  rn_now :: rat
  rn_limiter :: "rat \<times> rat \<times> rat"
  rn_id :: string
  rn_seconds :: "rat \<times> rat"
  rn_slow :: "string \<Rightarrow> bool"

subsection \<open>The stack, in the order in which the middlewares are added\<close>

definition security_stack :: "server_config \<Rightarrow> request_env \<Rightarrow> ('a server_app \<Rightarrow> 'a server_app) list" where
  "security_stack c n =
     (if sc_secured c
      then [security_headers_mw (sc_prod c), size_limit_mw (sc_max_bytes c), secrets_mw (rn_slow n),
            if sc_sliding c then sliding_window_mw True ''open'' (sc_scopes c) (rn_limiter n) else rate_limit_mw (rn_limiter n)]
      else [])"

definition middlewares ::
  "(auth_error \<Rightarrow> string) \<Rightarrow> jwt_lib \<Rightarrow> auth_service \<Rightarrow> server_config \<Rightarrow> bool \<Rightarrow> request_env \<Rightarrow> ('a server_app \<Rightarrow> 'a server_app) list" where
  "middlewares err lib svc c observing n =
     [auth_mw err lib svc (rn_now n), request_id_mw (rn_id n), metrics_mw observing (rn_seconds n)] @ security_stack c n @
     [secure_cookie_mw (sc_cookies c) (sc_cookies_warn c), hsts_mw (sc_hsts c), https_redirect_mw (sc_redirect c)]"

definition last_is_outermost :: "(('a server_app \<Rightarrow> 'a server_app) list \<Rightarrow> 'a server_app \<Rightarrow> 'a server_app) \<Rightarrow> bool" where
  "last_is_outermost stack \<longleftrightarrow> (\<forall>app. stack [] app = app) \<and> (\<forall>ms m app. stack (ms @ [m]) app = m (stack ms app))"

text \<open>The whole application; \<open>cors\<close> is the framework's middleware for the configured origins.\<close>

definition api_server ::
  "(('a server_app \<Rightarrow> 'a server_app) list \<Rightarrow> 'a server_app \<Rightarrow> 'a server_app) \<Rightarrow> (cors_config \<Rightarrow> 'a server_app \<Rightarrow> 'a server_app) \<Rightarrow>
   (auth_error \<Rightarrow> string) \<Rightarrow> jwt_lib \<Rightarrow> auth_service \<Rightarrow> server_config \<Rightarrow> bool \<Rightarrow> request_env \<Rightarrow> 'a server_app \<Rightarrow> 'a server_app" where
  "api_server stack cors err lib svc c observing n routes =
     stack (middlewares err lib svc c observing n @ [cors (sc_cors c)]) routes"

subsection \<open>Start and stop\<close>

text \<open>The global graph \<open>g\<close> of the process: what is loaded at the start is not assigned to it.\<close>

definition lifespan_start :: "disk_io \<Rightarrow> graph_disk \<Rightarrow> graph \<Rightarrow> graph" where
  "lifespan_start io d g = (let loaded = load_graph io d in g)"

definition lifespan_stop :: "disk_io \<Rightarrow> graph_disk \<Rightarrow> graph \<Rightarrow> graph_disk" where
  "lifespan_stop io d g = fst (save_graph io d g)"

lemma stack_last:
  assumes "last_is_outermost stack"
  shows "stack (ms @ [m]) app = m (stack ms app)" and "stack [] app = app"
  using assms by (auto simp: last_is_outermost_def)

lemma stack_foldl: "last_is_outermost stack \<Longrightarrow> stack ms app = foldl (\<lambda>a m. m a) app ms"
  by (induction ms rule: rev_induct) (simp_all add: stack_last)

subsection \<open>What reaches the routes\<close>

text \<open>A layer either answers itself, whatever is inside, or calls what is inside once; then it changes no state of the
  routes, and turns a response into a response and an exception into an exception.\<close>

definition stops :: "('a server_app \<Rightarrow> 'a server_app) \<Rightarrow> http_request \<Rightarrow> 'a server_world \<Rightarrow> (string + http_response) \<times> 'a server_world \<Rightarrow> bool" where
  "stops L rq w out \<longleftrightarrow> (\<forall>app. L app rq w = out)"

definition keeps :: "((string + http_response) \<times> 'a server_world \<Rightarrow> (string + http_response) \<times> 'a server_world) \<Rightarrow> bool" where
  "keeps f \<longleftrightarrow> (\<forall>x. sv_rest (snd (f x)) = sv_rest (snd x) \<and> isl (fst (f x)) = isl (fst x))"

definition passes ::
  "('a server_app \<Rightarrow> 'a server_app) \<Rightarrow> http_request \<Rightarrow> 'a server_world \<Rightarrow> http_request \<Rightarrow> 'a server_world \<Rightarrow> bool" where
  "passes L rq w rq1 w1 \<longleftrightarrow> sv_rest w1 = sv_rest w \<and> (\<exists>f. keeps f \<and> (\<forall>app. L app rq w = f (app rq1 w1)))"

lemma keepsD: "keeps f \<Longrightarrow> sv_rest (snd (f x)) = sv_rest (snd x)" "keeps f \<Longrightarrow> isl (fst (f x)) = isl (fst x)"
  unfolding keeps_def by blast+

lemma keeps_on_response [simp]: "keeps (on_response g)"
  by (auto simp: keeps_def on_response_def split: prod.split sum.split)

lemma passes_same: "sv_rest w1 = sv_rest w \<Longrightarrow> (\<And>app. L app rq w = app rq1 w1) \<Longrightarrow> passes L rq w rq1 w1"
  unfolding passes_def by (auto simp: keeps_def intro!: exI[of _ "\<lambda>x. x"])

lemma passes_by: "sv_rest w1 = sv_rest w \<Longrightarrow> keeps f \<Longrightarrow> (\<And>app. L app rq w = f (app rq1 w1)) \<Longrightarrow> passes L rq w rq1 w1"
  unfolding passes_def by blast

lemma passes_comp: "passes L rq w rq1 w1 \<Longrightarrow> passes M rq1 w1 rq2 w2 \<Longrightarrow> passes (\<lambda>a. L (M a)) rq w rq2 w2"
proof -
  assume "passes L rq w rq1 w1" "passes M rq1 w1 rq2 w2"
  then obtain f g where "sv_rest w1 = sv_rest w" "sv_rest w2 = sv_rest w1" and fg: "keeps f" "keeps g"
    and "\<And>app. L app rq w = f (app rq1 w1)" "\<And>app. M app rq1 w1 = g (app rq2 w2)" by (auto simp: passes_def)
  moreover have "keeps (\<lambda>x. f (g x))" unfolding keeps_def using keepsD[OF fg(1)] keepsD[OF fg(2)] by simp
  ultimately show ?thesis by (intro passes_by) auto
qed

lemma stops_comp:
  assumes "passes L rq w rq1 w1" and "stops M rq1 w1 out"
  shows "\<exists>out'. stops (\<lambda>a. L (M a)) rq w out' \<and> sv_rest (snd out') = sv_rest (snd out) \<and> isl (fst out') = isl (fst out)"
proof -
  from assms obtain f where "keeps f" "\<And>app. L app rq w = f (app rq1 w1)" "\<And>app. M app rq1 w1 = out"
    by (auto simp: passes_def stops_def)
  then show ?thesis by (intro exI[of _ "f out"]) (simp add: stops_def keepsD)
qed

text \<open>The layers inside the guards: headers, metrics and the id always pass a request on.\<close>

definition request_id_of :: "request_env \<Rightarrow> http_request \<Rightarrow> string" where
  "request_id_of n rq = (case sanitize_request_id (header_of (rq_headers rq) ''x-request-id'') of None \<Rightarrow> rn_id n | Some v \<Rightarrow> v)"

lemma headers_pass: "passes (security_headers_mw p) rq w rq w"
  by (cases "rq_type rq = ''http''") (auto simp: security_headers_mw_def intro: passes_same passes_by[OF _ keeps_on_response])

lemma metrics_pass: "passes (metrics_mw on secs) rq w rq w"
proof (cases "rq_type rq = ''http'' \<and> on")
  case True
  let ?t = "count_request (rq_method rq) (normalize_path (rq_path rq))"
  let ?f = "\<lambda>(r, w1). case r of Inr res \<Rightarrow> (Inr res, w1\<lparr>aw_prom := ?t (rs_status res) (snd secs) (aw_prom w1)\<rparr>)
    | Inl e \<Rightarrow> (Inl e, w1\<lparr>aw_prom := ?t 500 (snd secs) (?t 500 (fst secs) (aw_prom w1))\<rparr>)"
  show ?thesis
    by (rule passes_by[of _ _ ?f]) (use True in \<open>auto simp: keeps_def metrics_mw_def Let_def split: sum.split prod.split\<close>)
qed (auto simp: metrics_mw_def intro: passes_same)

lemma request_id_pass: "rq_type rq = ''http'' \<Longrightarrow> passes (request_id_mw (rn_id n)) rq w rq (w\<lparr>aw_request_id := Some (request_id_of n rq)\<rparr>)"
  by (rule passes_by[of _ _ "\<lambda>r. on_response (set_header ''x-request-id'' (request_id_of n rq)) (fst r, (snd r)\<lparr>aw_request_id := aw_request_id w\<rparr>)"])
    (auto simp: keeps_def on_response_def request_id_mw_def request_id_of_def Let_def split: sum.split)

lemma auth_pass:
  assumes "rq_type rq = ''http''"
  shows "case request_user lib svc now (rq_headers rq) of
      Inl e \<Rightarrow> stops (auth_mw err lib svc now) rq w (Inl (err e), w)
    | Inr None \<Rightarrow> passes (auth_mw err lib svc now) rq w rq w
    | Inr (Some u) \<Rightarrow> passes (auth_mw err lib svc now) rq w rq (w\<lparr>sv_cv := \<lparr> cv_tenant = Some (context_of_user u), cv_user = Some u \<rparr>\<rparr>)"
proof (cases "request_user lib svc now (rq_headers rq)")
  case (Inl e)
  then show ?thesis using assms by (simp add: stops_def auth_mw_def auth_middleware_def)
next
  case (Inr ou)
  show ?thesis
  proof (cases ou)
    case None
    then show ?thesis using assms Inr
      by (auto simp: auth_mw_def auth_middleware_def split: prod.split intro: passes_same)
  next
    case (Some u)
    let ?f = "\<lambda>(r, w1). (r, w1\<lparr>sv_cv := (sv_cv w1)\<lparr>cv_tenant := cv_tenant (sv_cv w), cv_user := cv_user (sv_cv w)\<rparr>\<rparr>)"
    have "passes (auth_mw err lib svc now) rq w rq (w\<lparr>sv_cv := \<lparr> cv_tenant = Some (context_of_user u), cv_user = Some u \<rparr>\<rparr>)"
      by (rule passes_by[of _ _ ?f])
        (use assms Inr Some in \<open>auto simp: keeps_def auth_mw_def auth_middleware_def set_tenant_context_def set_current_user_def Let_def split: prod.split\<close>)
    then show ?thesis using Inr Some by simp
  qed
qed

text \<open>The guards: each passes a request on or answers it itself.\<close>

definition answers :: "('a server_app \<Rightarrow> 'a server_app) \<Rightarrow> http_request \<Rightarrow> 'a server_world \<Rightarrow> bool" where
  "answers L rq w \<longleftrightarrow> (\<exists>out. stops L rq w out \<and> \<not> isl (fst out) \<and> sv_rest (snd out) = sv_rest w)"

lemma answersI: "(\<And>app. L app rq w = (Inr res, w1)) \<Longrightarrow> sv_rest w1 = sv_rest w \<Longrightarrow> answers L rq w"
  unfolding answers_def stops_def by (intro exI[of _ "(Inr res, w1)"]) simp

lemma answers_comp: "passes L rq w rq1 w1 \<Longrightarrow> answers M rq1 w1 \<Longrightarrow> answers (\<lambda>a. L (M a)) rq w"
proof -
  assume p: "passes L rq w rq1 w1" and "answers M rq1 w1"
  then obtain out where out: "stops M rq1 w1 out" "\<not> isl (fst out)" "sv_rest (snd out) = sv_rest w1" by (auto simp only: answers_def)
  from stops_comp[OF p out(1)] obtain out' where "stops (\<lambda>a. L (M a)) rq w out'" "sv_rest (snd out') = sv_rest (snd out)" "isl (fst out') = isl (fst out)"
    by blast
  moreover have "sv_rest w1 = sv_rest w" using p by (simp add: passes_def)
  ultimately show ?thesis unfolding answers_def using out by (intro exI[of _ out']) simp
qed

lemma answers_outer: "answers L rq w \<Longrightarrow> answers (\<lambda>a. L (M a)) rq w"
  unfolding answers_def stops_def by blast

lemma size_cases:
  assumes "rq_type rq = ''http''"
  shows "if too_large n rq then answers (size_limit_mw n) rq w else passes (size_limit_mw n) rq w rq w"
  using assms by (auto simp: size_limit_mw_def intro: answersI passes_same)

definition held_secret :: "request_env \<Rightarrow> http_request \<Rightarrow> bool" where
  "held_secret n rq \<longleftrightarrow> (let body = drain_body (rq_body rq) [] in
     scanned rq \<and> \<not> rn_slow n body \<and> length body \<le> 100000 \<and> has_secret body)"

definition scanned_request :: "http_request \<Rightarrow> http_request" where
  "scanned_request rq = (if scanned rq then replay_body (drain_body (rq_body rq) []) rq else rq)"

lemma secrets_cases:
  "if held_secret n rq then answers (secrets_mw (rn_slow n)) rq w
   else passes (secrets_mw (rn_slow n)) rq w (scanned_request rq) w"
proof -
  have "\<not> has_secret []" using scan_found[of "[]"] by (simp add: scan_for_secrets_def)
  then have "secrets_mw (rn_slow n) app rq w =
      (if held_secret n rq then (Inr (secrets_response (scan_for_secrets (drain_body (rq_body rq) []))), w)
       else app (scanned_request rq) w)" for app :: "'a server_app"
    using scan_found[of "drain_body (rq_body rq) []"]
    by (auto simp: secrets_mw_def held_secret_def scanned_request_def Let_def)
  then show ?thesis by (auto intro: answersI passes_same)
qed

text \<open>What a limiter may change.\<close>

definition only_limits :: "'a server_world \<Rightarrow> 'a server_world \<Rightarrow> bool" where
  "only_limits w w1 \<longleftrightarrow> sv_rest w1 = sv_rest w \<and> sv_cv w1 = sv_cv w \<and> aw_request_id w1 = aw_request_id w"

lemma sliding_cases:
  "answers (sliding_window_mw on mode scopes ts) rq w \<or> (\<exists>w1. only_limits w w1 \<and> passes (sliding_window_mw on mode scopes ts) rq w rq w1)"
proof (cases "rq_type rq = ''http''")
  case True
  obtain t1 t2 t3 where ts: "ts = (t1, t2, t3)" by (cases ts)
  obtain l v where d: "rl_dispatch mb_check mb_peek on mode exempt_default scopes (aw_limiter w) (rq_path rq) (rq_user rq) (rq_client rq) t1 t2 t3 = (l, v)"
    by fastforce
  let ?w = "w\<lparr>aw_limiter := l\<rparr>"
  have "only_limits w ?w" by (simp add: only_limits_def)
  moreover have "answers (sliding_window_mw on mode scopes ts) rq w \<or> passes (sliding_window_mw on mode scopes ts) rq w rq ?w"
  proof (cases v)
    case (ForwardWithHeaders a b c s)
    then show ?thesis
      using True by (intro disjI2 passes_by[of _ _ "on_response (limit_headers a b c s)"]) (simp_all add: sliding_window_mw_def ts d)
  qed (use True in \<open>auto simp: sliding_window_mw_def ts d intro: answersI passes_same\<close>)
  ultimately show ?thesis by blast
next
  case False
  then have "passes (sliding_window_mw on mode scopes ts) rq w rq w" by (intro passes_same) (simp_all add: sliding_window_mw_def)
  then show ?thesis by (intro disjI2 exI[of _ w]) (simp add: only_limits_def)
qed

lemma bucket_cases:
  "answers (rate_limit_mw ts) rq w \<or> (\<exists>w1. only_limits w w1 \<and> passes (rate_limit_mw ts) rq w rq w1)"
proof (cases "rq_type rq = ''http'' \<and> rq_path rq \<notin> set exempt_paths")
  case True
  obtain t1 t2 t3 where ts: "ts = (t1, t2, t3)" by (cases ts)
  obtain l ok where c: "tl_check (aw_tokens w) (client_ip rq) t1 t2 t3 = (l, ok)" by fastforce
  have "only_limits w (w\<lparr>aw_tokens := l\<rparr>)" by (simp add: only_limits_def)
  moreover have "if ok then passes (rate_limit_mw ts) rq w rq (w\<lparr>aw_tokens := l\<rparr>) else answers (rate_limit_mw ts) rq w"
    using True by (auto simp: rate_limit_mw_def ts c intro: answersI passes_same)
  ultimately show ?thesis by (auto split: if_splits)
next
  case False
  then have "passes (rate_limit_mw ts) rq w rq w" by (intro passes_same) (auto simp: rate_limit_mw_def)
  then show ?thesis by (intro disjI2 exI[of _ w]) (simp add: only_limits_def)
qed

lemma cookie_pass: "passes (secure_cookie_mw on warn) rq w rq w"
  by (cases "on \<and> rq_type rq = ''http''") (auto simp: secure_cookie_mw_def intro: passes_same passes_by[OF _ keeps_on_response])

lemma hsts_pass: "passes (hsts_mw ht) rq w rq w"
  by (cases "ht_enabled ht \<and> rq_type rq = ''http''") (auto simp: hsts_mw_def intro: passes_same passes_by[OF _ keeps_on_response])

lemma redirect_cases: "answers (https_redirect_mw on) rq w \<or> passes (https_redirect_mw on) rq w rq w"
  by (cases "\<not> on \<or> rq_type rq \<noteq> ''http'' \<or> rq_path rq \<in> set redirect_exempt \<or> request_scheme rq = ''https''")
    (auto simp: https_redirect_mw_def intro: answersI passes_same)

lemma secrets_size_cases:
  assumes "rq_type rq = ''http''"
  shows "if too_large n rq \<or> held_secret m rq then answers (\<lambda>a. secrets_mw (rn_slow m) (size_limit_mw n a)) rq w
    else passes (\<lambda>a. secrets_mw (rn_slow m) (size_limit_mw n a)) rq w (scanned_request rq) w"
proof -
  have same: "too_large n (scanned_request rq) = too_large n rq" "rq_type (scanned_request rq) = ''http''"
    using assms by (simp_all add: scanned_request_def replay_body_def too_large_def)
  show ?thesis
  proof (cases "held_secret m rq")
    case True
    then show ?thesis using secrets_cases[of m rq w] answers_outer[of "secrets_mw (rn_slow m)" rq w "size_limit_mw n"] by simp
  next
    case False
    then have pass: "passes (secrets_mw (rn_slow m)) rq w (scanned_request rq) w" using secrets_cases[of m rq w] by simp
    show ?thesis
      using False same size_cases[OF same(2), of n w] answers_comp[OF pass, of "size_limit_mw n"] passes_comp[OF pass, of "size_limit_mw n"]
      by (auto split: if_splits)
  qed
qed

lemma request_path:
  fixes w :: "'a server_world"
  assumes "last_is_outermost stack" and "rq_type rq = ''http''" and "sc_secured c"
  shows "(\<exists>out. (\<forall>routes. stack (middlewares err lib svc c on n) routes rq w = out) \<and> sv_rest (snd out) = sv_rest w \<and>
        (isl (fst out) \<longrightarrow> isl (request_user lib svc (rn_now n) (rq_headers rq)))) \<or>
      \<not> too_large (sc_max_bytes c) rq \<and> \<not> held_secret n rq \<and>
      (\<exists>f w1. (\<forall>routes. stack (middlewares err lib svc c on n) routes rq w = f (routes (scanned_request rq) w1)) \<and>
        sv_rest w1 = sv_rest w \<and> aw_request_id w1 = Some (request_id_of n rq) \<and>
        (case request_user lib svc (rn_now n) (rq_headers rq) of
           Inl e \<Rightarrow> False
         | Inr None \<Rightarrow> sv_cv w1 = sv_cv w
         | Inr (Some u) \<Rightarrow> sv_cv w1 = \<lparr> cv_tenant = Some (context_of_user u), cv_user = Some u \<rparr>))"
    (is "?blocked \<or> ?served")
proof -
  define outer where "outer = (\<lambda>a :: 'a server_app. https_redirect_mw (sc_redirect c) (hsts_mw (sc_hsts c) (secure_cookie_mw (sc_cookies c) (sc_cookies_warn c) a)))"
  define limit where "limit = (if sc_sliding c then sliding_window_mw True ''open'' (sc_scopes c) (rn_limiter n) else (rate_limit_mw (rn_limiter n) :: 'a server_app \<Rightarrow> 'a server_app))"
  define guard where "guard = (\<lambda>a :: 'a server_app. secrets_mw (rn_slow n) (size_limit_mw (sc_max_bytes c) a))"
  define inner where "inner = (\<lambda>a :: 'a server_app. security_headers_mw (sc_prod c) (metrics_mw on (rn_seconds n) (request_id_mw (rn_id n) a)))"
  define auth where "auth = (auth_mw err lib svc (rn_now n) :: 'a server_app \<Rightarrow> 'a server_app)"
  have S: "stack (middlewares err lib svc c on n) = (\<lambda>a. outer (limit (guard (inner (auth a)))))"
    using assms(3) by (auto simp: fun_eq_iff stack_foldl[OF assms(1)] middlewares_def security_stack_def outer_def limit_def guard_def inner_def auth_def)
  have answered: ?blocked if "answers (stack (middlewares err lib svc c on n)) rq w"
    using that unfolding answers_def stops_def by blast
  have mid: "passes (\<lambda>a. hsts_mw (sc_hsts c) (secure_cookie_mw (sc_cookies c) (sc_cookies_warn c) a)) rq w rq w"
    by (rule passes_comp[OF hsts_pass cookie_pass])
  consider "answers outer rq w" | "passes outer rq w rq w"
    unfolding outer_def using redirect_cases[of "sc_redirect c" rq w] answers_outer passes_comp[OF _ mid] by blast
  then show ?thesis
  proof cases
    case 1
    note blocks = answers_outer[OF 1, where M = "\<lambda>a. limit (guard (inner (auth a)))"]
    show ?thesis by (rule disjI1[OF answered]) (use blocks in \<open>simp only: S\<close>)
  next
    case outer: 2
    have "answers limit rq w \<or> (\<exists>w1. only_limits w w1 \<and> passes limit rq w rq w1)"
      unfolding limit_def using sliding_cases bucket_cases by (cases "sc_sliding c") (simp_all only: if_True if_False)
    then consider "answers limit rq w" | w1 where "only_limits w w1" "passes limit rq w rq w1" by blast
    then show ?thesis
    proof cases
      case 1
      note blocks = answers_comp[OF outer answers_outer[OF 1, where M = "\<lambda>a. guard (inner (auth a))"]]
      show ?thesis by (rule disjI1[OF answered]) (use blocks in \<open>simp only: S\<close>)
    next
      case (2 w1)
      note limited = passes_comp[OF outer 2(2)]
      note guards = secrets_size_cases[OF assms(2), of "sc_max_bytes c" n w1, folded guard_def]
      show ?thesis
      proof (cases "too_large (sc_max_bytes c) rq \<or> held_secret n rq")
        case True
        with guards have "answers guard rq w1" by simp
        note blocks = answers_comp[OF limited answers_outer[OF this, where M = "\<lambda>a. inner (auth a)"]]
        show ?thesis by (rule disjI1[OF answered]) (use blocks in \<open>simp only: S\<close>)
      next
        case False
        define rq' where "rq' = scanned_request rq"
        have rq': "rq_type rq' = ''http''" "rq_headers rq' = rq_headers rq" "request_id_of n rq' = request_id_of n rq"
          using assms(2) by (simp_all add: rq'_def scanned_request_def replay_body_def request_id_of_def)
        define w2 where "w2 = w1\<lparr>aw_request_id := Some (request_id_of n rq)\<rparr>"
        have "passes guard rq w1 rq' w1" using guards False by (simp add: rq'_def)
        from passes_comp[OF limited this] have guarded: "passes (\<lambda>a. outer (limit (guard a))) rq w rq' w1" .
        have "passes inner rq' w1 rq' w2"
          unfolding inner_def w2_def rq'(3)[symmetric]
          by (rule passes_comp[OF headers_pass passes_comp[OF metrics_pass request_id_pass[OF rq'(1)]]])
        from passes_comp[OF guarded this] have pass: "passes (\<lambda>a. outer (limit (guard (inner a)))) rq w rq' w2" .
        have w2: "sv_rest w2 = sv_rest w" "sv_cv w2 = sv_cv w" "aw_request_id w2 = Some (request_id_of n rq)"
          using 2(1) by (simp_all add: w2_def only_limits_def)
        note auth = auth_pass[OF rq'(1), where lib = lib and svc = svc and now = "rn_now n" and err = err and w = w2, folded auth_def, unfolded rq'(2)]
        have reached: ?served if "passes auth rq' w2 rq' w3" "sv_rest w3 = sv_rest w" "aw_request_id w3 = Some (request_id_of n rq)"
          "case request_user lib svc (rn_now n) (rq_headers rq) of Inl e \<Rightarrow> False | Inr None \<Rightarrow> sv_cv w3 = sv_cv w
            | Inr (Some u) \<Rightarrow> sv_cv w3 = \<lparr> cv_tenant = Some (context_of_user u), cv_user = Some u \<rparr>" for w3
        proof -
          from passes_comp[OF pass that(1)] obtain f where "\<And>a. outer (limit (guard (inner (auth a)))) rq w = f (a rq' w3)"
            by (auto simp only: passes_def)
          with False that(2-4) show ?served unfolding S rq'_def by blast
        qed
        show ?thesis
        proof (cases "request_user lib svc (rn_now n) (rq_headers rq)")
          case (Inl e)
          with auth have "stops auth rq' w2 (Inl (err e), w2)" by simp
          from stops_comp[OF pass this] obtain out where "stops (\<lambda>a. outer (limit (guard (inner (auth a))))) rq w out" "sv_rest (snd out) = sv_rest w"
            using w2(1) by auto
          then have ?blocked unfolding S stops_def Inl by auto
          then show ?thesis ..
        next
          case (Inr ou)
          have ?served
          proof (cases ou)
            case None
            show ?served by (rule reached[of w2]) (use auth Inr None w2 in simp_all)
          next
            case (Some u)
            show ?served by (rule reached[of "w2\<lparr>sv_cv := \<lparr> cv_tenant = Some (context_of_user u), cv_user = Some u \<rparr>\<rparr>"])
              (use auth Inr Some w2 in simp_all)
          qed
          then show ?thesis ..
        qed
      qed
    qed
  qed
qed

text \<open>C2: Nothing gets to the routes past the guards, and what gets there is known: with the security middlewares on, a
  request is either answered without the routes and without a change of their state (by an exception only when the
  token cannot be evaluated), or its declared size is allowed, no scanned secret is in its body, and the routes run
  exactly once, on the request with its whole body, under the request id it is answered with and in the
  context of the user of its token, whatever the routes are.\<close>

theorem guards_before_routes:
  fixes w :: "'a server_world"
  assumes "last_is_outermost stack" and "rq_type rq = ''http''" and "sc_secured c"
  shows "api_server stack cors err lib svc c on n routes0 = cors (sc_cors c) (stack (middlewares err lib svc c on n) routes0) \<and>
     ((\<exists>out. (\<forall>routes. stack (middlewares err lib svc c on n) routes rq w = out) \<and> sv_rest (snd out) = sv_rest w \<and>
        (isl (fst out) \<longrightarrow> isl (request_user lib svc (rn_now n) (rq_headers rq)))) \<or>
      \<not> too_large (sc_max_bytes c) rq \<and> \<not> held_secret n rq \<and>
      (\<exists>f w1. (\<forall>routes. stack (middlewares err lib svc c on n) routes rq w = f (routes (scanned_request rq) w1)) \<and>
        sv_rest w1 = sv_rest w \<and> aw_request_id w1 = Some (request_id_of n rq) \<and>
        (case request_user lib svc (rn_now n) (rq_headers rq) of
           Inl e \<Rightarrow> False
         | Inr None \<Rightarrow> sv_cv w1 = sv_cv w
         | Inr (Some u) \<Rightarrow> sv_cv w1 = \<lparr> cv_tenant = Some (context_of_user u), cv_user = Some u \<rparr>)))"
proof
  show "api_server stack cors err lib svc c on n routes0 = cors (sc_cors c) (stack (middlewares err lib svc c on n) routes0)"
    by (simp only: api_server_def stack_last[OF assms(1)])
qed (rule request_path[OF assms])

definition sample_stack :: "(unit server_app \<Rightarrow> unit server_app) list \<Rightarrow> unit server_app \<Rightarrow> unit server_app" where
  "sample_stack ms app = foldl (\<lambda>a m. m a) app ms"

definition leaking_request :: http_request where
  "leaking_request = \<lparr> rq_type = ''http'', rq_method = ''POST'', rq_path = ''/api/tasks'', rq_query = [], rq_scheme = ''https'',
     rq_headers = [], rq_client = Some ''10.0.0.1'', rq_user = None,
     rq_body = [Body_part ''key=sk-'' True, Body_part ''abcdefghijklmnopqrstuvwxyz'' False] \<rparr>"

definition sample_request_env :: request_env where
  "sample_request_env = \<lparr> rn_now = 0, rn_limiter = (0, 0, 0), rn_id = ''r1'', rn_seconds = (0, 0), rn_slow = (\<lambda>s. False) \<rparr>"

definition sample_server_world :: "unit server_world" where
  "sample_server_world = \<lparr> aw_request_id = None, aw_tokens = tl_new 60 60 None 0, aw_limiter = mb_new 300 0, aw_prom = metrics_init [],
     sv_cv = \<lparr> cv_tenant = None, cv_user = None \<rparr>, sv_rest = () \<rparr>"

definition sample_server_config :: server_config where
  "sample_server_config = \<lparr> sc_secured = True, sc_prod = False, sc_max_bytes = 1048576, sc_sliding = True,
     sc_scopes = load_scope_config (\<lambda>k. None), sc_cookies = False, sc_cookies_warn = True,
     sc_hsts = \<lparr> ht_enabled = False, ht_value = hsts_value 31536000 True False \<rparr>, sc_redirect = False,
     sc_cors = \<lparr> co_origins = [''http://localhost:5173''], co_credentials = True, co_methods = [''GET''], co_headers = [],
       co_max_age = 600, co_environment = ''development'' \<rparr> \<rparr>"

lemma leak_held: "held_secret sample_request_env leaking_request"
proof -
  let ?v = "''sk-abcdefghijklmnopqrstuvwxyz''" and ?r = "prefixed ''sk-'' (rx_least 20 (Cls alnum))"
  have body: "drain_body (rq_body leaking_request) [] = ''key='' @ ?v" by (simp add: leaking_request_def)
  have "rx_match ?r (Some CHR ''='', ?v) \<noteq> []" by code_simp
  then obtain q where "rx_accepts ?r (Some CHR ''='', ?v) q" using accepts_nonempty by blast
  moreover have "char_after None ''key='' = Some CHR ''=''" by (simp add: char_after_def)
  moreover have "(?r, ''Anthropic/OpenAI-style key'') \<in> set secrets_patterns" by (simp add: secrets_patterns_def)
  ultimately have "has_secret (''key='' @ ?v)" unfolding has_secret_def by metis
  moreover have "scanned leaking_request" by (simp add: scanned_def leaking_request_def exempt_paths_def)
  ultimately show ?thesis unfolding held_secret_def body by (simp add: sample_request_env_def)
qed

theorem guards_before_routes_witness:
  "\<exists>out. \<not> isl (fst out) \<and> (\<forall>routes. sample_stack
     (middlewares (\<lambda>e. ''auth'') sample_scheme sample_service sample_server_config True sample_request_env)
       routes leaking_request sample_server_world = out)"
proof -
  have secured: "sc_secured sample_server_config" by (simp add: sample_server_config_def)
  have stack: "last_is_outermost sample_stack" by (simp add: last_is_outermost_def sample_stack_def)
  have http: "rq_type leaking_request = ''http''" by (simp add: leaking_request_def)
  have nobody: "\<not> isl (request_user sample_scheme sample_service (rn_now sample_request_env) (rq_headers leaking_request))"
    by (simp add: request_user_def leaking_request_def first_text_def extract_bearer_def Let_def)
  show ?thesis
    using guards_before_routes[OF stack http secured, where err = "\<lambda>e. ''auth''" and lib = sample_scheme and svc = sample_service
      and on = True and n = sample_request_env and w = sample_server_world] leak_held nobody by blast
qed

subsection \<open>What the order and the start get wrong\<close>

text \<open>
  The comment of the code says that the first middleware added is the outermost; it is the innermost. So the limiter runs
  before the token is read, no other code sets a user in the state of a request, and the limits per user are never
  applied: the limiter's decision and its new state are those for a request without a user.
\<close>

lemma user_limits_unused:
  assumes "rq_user rq = None" and "rq_type rq = ''http''"
  shows "\<forall>app. snd (sliding_window_mw True ''open'' scopes (t1, t2, t3) (\<lambda>rq w. (Inl app, w)) rq w) =
    w\<lparr>aw_limiter := fst (rl_dispatch mb_check mb_peek True ''open'' exempt_default scopes (aw_limiter w) (rq_path rq) None (rq_client rq) t1 t2 t3)\<rparr>"
  using assms by (auto simp: sliding_window_mw_def on_response_def split: prod.split rl_response.split)

text \<open>What a guard answers has no security headers and no request id, and is not counted: they are added further in.\<close>

lemma guard_answers_bare:
  "rs_headers (secrets_response found) = []"
  "\<exists>hs. rs_headers (too_many_response limit reset scope dimension retry) = hs \<and> ''x-request-id'' \<notin> fst ` set hs \<and> ''x-frame-options'' \<notin> fst ` set hs"
  by (simp_all add: secrets_response_def too_many_response_def json_response_def)

text \<open>The body is drained and scanned before its declared size is looked at.\<close>

lemma scan_before_size:
  "sc_secured c \<Longrightarrow> \<exists>a d. security_stack c n = [a, size_limit_mw (sc_max_bytes c), secrets_mw (rn_slow n), d]"
  by (simp add: security_stack_def)

text \<open>What was saved is not there after a restart: the graph stays the empty one of the new process.\<close>

lemma restart_forgets: "get_node (lifespan_start io d empty_graph) k = None"
  by (simp add: lifespan_start_def get_node_def empty_graph_def)

end
