(* ===== verification/Webhook.thy ===== *)
theory Webhook
  imports Py_Value
begin

section \<open>The GitHub webhook (api/routes/github\_webhook.py)\<close>

text \<open>
  The check of signatures, the memory of deliveries, the dispatch of events, and the background review. Parameters:
  the keyed hash (\<open>hmac\<close>, the hex digest), the JSON parser (None: a \<open>JSONDecodeError\<close>; bytes that are no text are left out), the text of a value (\<open>text\<close>), the review agent's
  work, and the post of a comment, which is an element of the outcome.
\<close>

subsection \<open>Deliveries seen\<close>

definition replay_cache_max :: nat where
  "replay_cache_max = 1000"

type_synonym replay_cache = "(string, rat) dict"

text \<open>\<open>move_to_end\<close> keeps the time of an entry.\<close>

definition is_replay :: "replay_cache \<Rightarrow> rat \<Rightarrow> string \<Rightarrow> replay_cache \<times> bool" where
  "is_replay cache now k =
     (case dict_get cache k of
        Some t \<Rightarrow> (dict_pop cache k @ [(k, t)], True)
      | None \<Rightarrow> (let c = dict_set cache k now in (drop (length c - replay_cache_max) c, False)))"

subsection \<open>Signatures\<close>

fun after_equals :: "string \<Rightarrow> string" where
  "after_equals [] = []"
| "after_equals (c # s) = (if c = CHR ''='' then s else after_equals s)"

text \<open>\<open>compare_digest\<close> raises on a text that is not ASCII: None.\<close>

definition ascii :: "string \<Rightarrow> bool" where
  "ascii s \<longleftrightarrow> (\<forall>c\<in>set s. (of_char c :: nat) < 128)"

definition verify_signature :: "(string \<Rightarrow> string \<Rightarrow> string) \<Rightarrow> string \<Rightarrow> string \<Rightarrow> string option \<Rightarrow> bool option" where
  "verify_signature hmac secret body header =
     (case header of
        None \<Rightarrow> Some False
      | Some h \<Rightarrow> if \<not> prefix ''sha256='' h then Some False
                  else if \<not> ascii (after_equals h) then None
                  else Some (hmac secret body = after_equals h))"

subsection \<open>The endpoint\<close>

record webhook_request =
  wq_event :: "string option"
  wq_delivery :: "string option"
  wq_signature :: "string option"
  wq_body :: string

record review_job =
  rj_repo :: pyval
  rj_number :: pyval
  rj_title :: pyval
  rj_body :: pyval
  rj_url :: pyval
  rj_delivery :: string

record webhook_state =
  ws_cache :: replay_cache
  ws_jobs :: "review_job list"

text \<open>An \<open>AttributeError\<close> of the handler becomes a response 500 of the framework.\<close>

datatype webhook_reply = Reply pydict | Refused int string | Crashed

definition field :: "pyval \<Rightarrow> string \<Rightarrow> pyval \<Rightarrow> pyval option" where
  "field v k dflt = (case v of PDict d \<Rightarrow> Some (dict_get_or d k dflt) | _ \<Rightarrow> None)"

definition handled_action :: "pyval \<Rightarrow> bool" where
  "handled_action a \<longleftrightarrow> a \<in> {PStr ''opened'', PStr ''synchronize'', PStr ''reopened''}"

definition handle_pull_request :: "webhook_state \<Rightarrow> pyval \<Rightarrow> string \<Rightarrow> webhook_state \<times> webhook_reply" where
  "handle_pull_request st payload delivery =
     (case field payload ''action'' (PStr []) of
        None \<Rightarrow> (st, Crashed)
      | Some action \<Rightarrow>
          if \<not> handled_action action
          then (st, Reply [(''status'', PStr ''ignored''), (''delivery_id'', PStr delivery), (''event'', PStr ''pull_request''),
                           (''action'', action), (''reason'', PStr ''action not handled'')])
          else let pr = the (field payload ''pull_request'' (PDict [])); repo = the (field payload ''repository'' (PDict []));
                   sender = the (field payload ''sender'' (PDict []))
               in (case (field pr ''number'' PNone, field repo ''full_name'' (PStr []), field sender ''login'' (PStr [])) of
                     (Some number, Some full, Some login) \<Rightarrow>
                       (let body = the (field pr ''body'' (PStr []));
                            job = \<lparr> rj_repo = full, rj_number = number, rj_title = the (field pr ''title'' (PStr [])),
                                    rj_body = (if py_truthy body then body else PStr []), rj_url = the (field pr ''html_url'' (PStr [])),
                                    rj_delivery = delivery \<rparr>
                        in (st\<lparr>ws_jobs := ws_jobs st @ [job]\<rparr>,
                            Reply [(''status'', PStr ''queued''), (''delivery_id'', PStr delivery), (''action'', action),
                                   (''repo'', full), (''pr_number'', number)]))
                   | _ \<Rightarrow> (st, Crashed)))"

definition github_webhook ::
  "(string \<Rightarrow> string \<Rightarrow> string) \<Rightarrow> (string \<Rightarrow> pyval option) \<Rightarrow> string option \<Rightarrow> rat \<Rightarrow> webhook_state \<Rightarrow> webhook_request \<Rightarrow>
   webhook_state \<times> webhook_reply" where
  "github_webhook hmac json secret_env now st rq =
     (let secret = strip (case secret_env of None \<Rightarrow> [] | Some s \<Rightarrow> s) in
      if secret = [] then (st, Refused 503 ''GITHUB_WEBHOOK_SECRET is not configured'')
      else case wq_delivery rq of
        None \<Rightarrow> (st, Refused 400 ''missing X-GitHub-Delivery header'')
      | Some d \<Rightarrow>
          if d = [] then (st, Refused 400 ''missing X-GitHub-Delivery header'')
          else case is_replay (ws_cache st) now d of
            (c, True) \<Rightarrow> (st\<lparr>ws_cache := c\<rparr>, Reply [(''status'', PStr ''duplicate''), (''delivery_id'', PStr d)])
          | (c, False) \<Rightarrow>
              (let st1 = st\<lparr>ws_cache := c\<rparr> in
               case verify_signature hmac secret (wq_body rq) (wq_signature rq) of
                 None \<Rightarrow> (st1, Crashed)
               | Some False \<Rightarrow> (st1, Refused 401 ''signature verification failed'')
               | Some True \<Rightarrow> case json (wq_body rq) of
                 None \<Rightarrow> (st1, Refused 400 ''invalid JSON'')
               | Some payload \<Rightarrow>
                   (let event = (case wq_event rq of None \<Rightarrow> ''unknown'' | Some e \<Rightarrow> if e = [] then ''unknown'' else e) in
                    if event = ''pull_request'' then handle_pull_request st1 payload d
                    else (st1, Reply [(''status'', PStr ''ignored''), (''delivery_id'', PStr d), (''event'', PStr event),
                                      (''reason'', PStr ''no handler for event type'')]))))"

subsection \<open>The review\<close>

record review_task =
  rt_id :: string
  rt_input :: string
  rt_owner :: string
  rt_visibility :: string
  rt_projects :: "string list"
  rt_max_retries :: int
  rt_repo :: pyval
  rt_number :: pyval
  rt_delivery :: string

definition review_task_of :: "(pyval \<Rightarrow> string) \<Rightarrow> string option \<Rightarrow> review_job \<Rightarrow> review_task" where
  "review_task_of text bot_user j =
     (let nl = [CHR 0x0A] in
      \<lparr> rt_id = ''github-pr-'' @ rj_delivery j,
        rt_input = ''PR review for '' @ text (rj_repo j) @ ''#'' @ text (rj_number j) @ '': '' @ text (rj_title j) @ nl @ nl @
          text (rj_body j) @ nl @ nl @ ''PR URL: '' @ text (rj_url j),
        rt_owner = (case bot_user of None \<Rightarrow> ''github-bot'' | Some b \<Rightarrow> b), rt_visibility = ''project'',
        rt_projects = [''pr:'' @ text (rj_repo j)], rt_max_retries = 1,
        rt_repo = rj_repo j, rt_number = rj_number j, rt_delivery = rj_delivery j \<rparr>)"

datatype review_end = Not_registered | Posted string pyval pyval pyval | Logged pyval | Review_failed

text \<open>The first 200 elements of a summary, of a text or a list; other values have no slice.\<close>

definition slice_200 :: "pyval \<Rightarrow> pyval option" where
  "slice_200 v = (case v of PStr s \<Rightarrow> Some (PStr (take 200 s)) | PList vs \<Rightarrow> Some (PList (take 200 vs)) | _ \<Rightarrow> None)"

text \<open>\<open>work\<close> is the agent's work on the task: the payload of its output, or an exception. A post that fails is an exception, too.\<close>

definition run_review ::
  "(pyval \<Rightarrow> string) \<Rightarrow> string option \<Rightarrow> string option \<Rightarrow> (review_task \<Rightarrow> pydict option) option \<Rightarrow> bool \<Rightarrow> review_job \<Rightarrow> review_end" where
  "run_review text bot_user token agent post_fails j =
     (case agent of
        None \<Rightarrow> Not_registered
      | Some work \<Rightarrow>
          (case work (review_task_of text bot_user j) of
             None \<Rightarrow> Review_failed
           | Some payload \<Rightarrow>
               (let tok = strip (case token of None \<Rightarrow> [] | Some t \<Rightarrow> t) in
                if tok = [] then (case slice_200 (dict_get_or payload ''summary'' (PStr [])) of None \<Rightarrow> Review_failed | Some v \<Rightarrow> Logged v)
                else if post_fails then Review_failed
                else Posted tok (rj_repo j) (rj_number j) (dict_get_or payload ''summary'' (PStr ''(no summary)'')))))"

subsection \<open>The memory of deliveries is the last thousand\<close>

text \<open>The ids of all deliveries, the latest last, each once.\<close>

definition touch :: "string list \<Rightarrow> string \<Rightarrow> string list" where
  "touch ids k = filter (\<lambda>x. x \<noteq> k) ids @ [k]"

definition by_recency :: "string list \<Rightarrow> string list" where
  "by_recency ks = foldl touch [] ks"

definition last_n :: "nat \<Rightarrow> 'a list \<Rightarrow> 'a list" where
  "last_n n xs = drop (length xs - n) xs"

definition seen_all :: "replay_cache \<Rightarrow> (rat \<times> string) list \<Rightarrow> replay_cache" where
  "seen_all cache ds = foldl (\<lambda>c (t, k). fst (is_replay c t k)) cache ds"

lemma last_n_short [simp]: "length xs \<le> n \<Longrightarrow> last_n n xs = xs"
  by (simp add: last_n_def)

lemma last_n_snoc: "last_n (Suc n) (xs @ [x]) = last_n n xs @ [x]"
  by (simp add: last_n_def)

lemma length_last_n [simp]: "length (last_n n xs) = min n (length xs)"
  by (simp add: last_n_def)

lemma last_n_last_n [simp]: "m \<le> n \<Longrightarrow> last_n m (last_n n xs) = last_n m xs"
  by (auto simp: last_n_def intro!: arg_cong[where f = "\<lambda>k. drop k xs"])

lemma length_filter_neq: "distinct ys \<Longrightarrow> x \<in> set ys \<Longrightarrow> length (filter (\<lambda>y. y \<noteq> x) ys) = length ys - 1"
proof (induction ys)
  case (Cons y ys)
  show ?case
  proof (cases "y = x")
    case True
    with Cons.prems have "filter (\<lambda>z. z \<noteq> x) ys = ys" by (auto simp: filter_id_conv)
    with True show ?thesis by simp
  next
    case False
    with Cons have "x \<in> set ys" "length (filter (\<lambda>y. y \<noteq> x) ys) = length ys - 1" by auto
    then show ?thesis using False by (cases ys) auto
  qed
qed simp

lemma last_n_filter:
  assumes "distinct xs"
  shows "last_n n (filter (\<lambda>y. y \<noteq> x) xs) =
    (if x \<in> set (last_n (Suc n) xs) then filter (\<lambda>y. y \<noteq> x) (last_n (Suc n) xs) else last_n n (filter (\<lambda>y. y \<noteq> x) xs))"
    and "x \<notin> set (last_n (Suc n) xs) \<Longrightarrow> last_n n (filter (\<lambda>y. y \<noteq> x) xs) = last_n n xs"
proof -
  define u where "u = take (length xs - Suc n) xs"
  define v where "v = last_n (Suc n) xs"
  have split: "xs = u @ v" by (simp add: last_n_def u_def v_def)
  have d: "distinct v" "set u \<inter> set v = {}" using assms unfolding split by auto
  have short: "length v = Suc n \<or> (u = [] \<and> length v \<le> n)" by (auto simp: u_def v_def last_n_def)
  show "last_n n (filter (\<lambda>y. y \<noteq> x) xs) = (if x \<in> set (last_n (Suc n) xs) then filter (\<lambda>y. y \<noteq> x) (last_n (Suc n) xs)
      else last_n n (filter (\<lambda>y. y \<noteq> x) xs))"
  proof (cases "x \<in> set v")
    case True
    then have "x \<notin> set u" using d(2) by auto
    then have "filter (\<lambda>y. y \<noteq> x) u = u" by (auto simp: filter_id_conv)
    moreover have "length (filter (\<lambda>y. y \<noteq> x) v) = length v - 1" by (rule length_filter_neq[OF d(1) True])
    ultimately have "last_n n (filter (\<lambda>y. y \<noteq> x) (u @ v)) = filter (\<lambda>y. y \<noteq> x) v"
      using short by (auto simp: last_n_def)
    with True show ?thesis unfolding v_def[symmetric] by (subst split) simp
  qed (simp add: v_def)
  show "last_n n (filter (\<lambda>y. y \<noteq> x) xs) = last_n n xs" if "x \<notin> set (last_n (Suc n) xs)"
  proof -
    have "filter (\<lambda>y. y \<noteq> x) v = v" using that by (auto simp: filter_id_conv v_def)
    then have "last_n n (filter (\<lambda>y. y \<noteq> x) (u @ v)) = last_n n (u @ v)"
      using short by (auto simp: last_n_def)
    then show ?thesis using split by simp
  qed
qed

lemma touch_distinct: "distinct ids \<Longrightarrow> distinct (touch ids k)"
  by (simp add: touch_def)

lemma by_recency_distinct: "distinct (by_recency ks)"
proof -
  have "distinct ids \<Longrightarrow> distinct (foldl touch ids ks)" for ids
    by (induction ks arbitrary: ids) (simp_all add: touch_distinct)
  then show ?thesis by (simp add: by_recency_def)
qed

lemma keys_delete: "map fst (dict_pop d k) = filter (\<lambda>x. x \<noteq> k) (map fst d)"
  by (induction d) auto

text \<open>One delivery, on a cache that holds the last thousand.\<close>

lemma replay_step:
  assumes "map fst cache = last_n 1000 ids" and "distinct ids"
  shows "map fst (fst (is_replay cache now k)) = last_n 1000 (touch ids k)" and "snd (is_replay cache now k) \<longleftrightarrow> k \<in> set (last_n 1000 ids)"
proof -
  have ok: "dict_ok cache" using assms by (simp add: last_n_def)
  have keys: "fst ` set cache = set (last_n 1000 ids)" using assms(1) by (metis list.set_map)
  have has: "dict_get cache k = None \<longleftrightarrow> k \<notin> set (last_n 1000 ids)" using keys by (simp add: map_of_eq_None_iff)
  then show "snd (is_replay cache now k) \<longleftrightarrow> k \<in> set (last_n 1000 ids)"
    by (auto simp: is_replay_def Let_def split: option.split)
  have last: "last_n 1000 (touch ids k) = last_n 999 (filter (\<lambda>x. x \<noteq> k) ids) @ [k]"
    using last_n_snoc[of 999] by (simp add: touch_def)
  note drop = last_n_filter[OF assms(2), where n = 999 and x = k, simplified]
  show "map fst (fst (is_replay cache now k)) = last_n 1000 (touch ids k)"
  proof (cases "dict_get cache k")
    case None
    have "map fst (fst (is_replay cache now k)) = last_n 1000 (map fst cache @ [k])"
      using None by (simp add: is_replay_def Let_def dict_set_fresh last_n_def replay_cache_max_def drop_map)
    also have "\<dots> = last_n 999 ids @ [k]" unfolding assms(1) using last_n_snoc[of 999 "last_n 1000 ids" k] by simp
    finally show ?thesis using None has drop(2) by (simp add: last)
  next
    case (Some t)
    have "map fst (fst (is_replay cache now k)) = filter (\<lambda>x. x \<noteq> k) (map fst cache) @ [k]"
      using Some by (simp add: is_replay_def keys_delete)
    then show ?thesis using Some has drop(1) by (simp add: last assms(1))
  qed
qed

lemma seen_all_last: "map fst (seen_all [] ds) = last_n 1000 (by_recency (map snd ds))"
proof (induction ds rule: rev_induct)
  case (snoc d ds)
  obtain t k where d: "d = (t, k)" by (cases d)
  show ?case using replay_step(1)[OF snoc.IH by_recency_distinct, of t k] by (simp add: seen_all_def by_recency_def d)
qed (simp add: seen_all_def by_recency_def last_n_def)

subsection \<open>Who gets a review\<close>

definition webhook_run ::
  "(string \<Rightarrow> string \<Rightarrow> string) \<Rightarrow> (string \<Rightarrow> pyval option) \<Rightarrow> string option \<Rightarrow> (rat \<times> webhook_request) list \<Rightarrow> webhook_state" where
  "webhook_run hmac json secret_env rs =
     foldl (\<lambda>st (t, rq). fst (github_webhook hmac json secret_env t st rq)) \<lparr> ws_cache = [], ws_jobs = [] \<rparr> rs"

definition deliveries :: "(rat \<times> webhook_request) list \<Rightarrow> (rat \<times> string) list" where
  "deliveries rs = List.map_filter (\<lambda>(t, rq). case wq_delivery rq of None \<Rightarrow> None | Some d \<Rightarrow> if d = [] then None else Some (t, d)) rs"

lemma pull_request_cache [simp]: "ws_cache (fst (handle_pull_request st payload d)) = ws_cache st"
  by (auto simp: handle_pull_request_def Let_def split: option.split)

lemma webhook_cache:
  "strip secret \<noteq> [] \<Longrightarrow> ws_cache (fst (github_webhook hmac json (Some secret) t st rq)) =
    (case wq_delivery rq of None \<Rightarrow> ws_cache st | Some d \<Rightarrow> if d = [] then ws_cache st else fst (is_replay (ws_cache st) t d))"
  by (auto simp: github_webhook_def Let_def split: option.split prod.split bool.split)

lemma run_cache:
  assumes "strip secret \<noteq> []"
  shows "ws_cache (webhook_run hmac json (Some secret) rs) = seen_all [] (deliveries rs)"
proof (induction rs rule: rev_induct)
  case (snoc x rs)
  obtain t rq where x: "x = (t, rq)" by (cases x)
  have run: "webhook_run hmac json (Some secret) (rs @ [x]) = fst (github_webhook hmac json (Some secret) t (webhook_run hmac json (Some secret) rs) rq)"
    by (simp add: webhook_run_def x)
  have app: "deliveries (rs @ [x]) = deliveries rs @ deliveries [x]" by (simp add: deliveries_def List.map_filter_def)
  show ?case unfolding run webhook_cache[OF assms] snoc.IH app
    by (auto simp: seen_all_def deliveries_def List.map_filter_simps x split: option.split)
qed (simp add: webhook_run_def seen_all_def deliveries_def List.map_filter_simps)

lemma signature_holds:
  "verify_signature hmac secret body header = Some True \<Longrightarrow>
   \<exists>s. header = Some s \<and> prefix ''sha256='' s \<and> hmac secret body = after_equals s"
  by (auto simp: verify_signature_def split: option.splits if_splits)

lemma pull_request_reply:
  "handle_pull_request st payload d = (st', reply) \<Longrightarrow>
   reply \<noteq> Reply [(''status'', PStr ''duplicate''), (''delivery_id'', PStr d')] \<and>
   (ws_jobs st' = ws_jobs st \<or> (\<exists>a job. field payload ''action'' (PStr []) = Some a \<and> handled_action a \<and>
      rj_delivery job = d \<and> ws_jobs st' = ws_jobs st @ [job]))"
  by (auto simp: handle_pull_request_def Let_def split: option.splits if_splits)

text \<open>A request whose delivery is new: without a valid signature on a pull request event, no review.\<close>

lemma fresh_delivery:
  assumes "strip secret \<noteq> []" and "wq_delivery rq = Some d" and "d \<noteq> []" and "is_replay (ws_cache st) now d = (c, False)"
    and "github_webhook hmac json (Some secret) now st rq = (st', reply)"
  shows "reply \<noteq> Reply [(''status'', PStr ''duplicate''), (''delivery_id'', PStr d')] \<and>
    (ws_jobs st' = ws_jobs st \<or>
      (\<exists>payload. verify_signature hmac (strip secret) (wq_body rq) (wq_signature rq) = Some True \<and>
         wq_event rq = Some ''pull_request'' \<and> json (wq_body rq) = Some payload \<and>
         handle_pull_request (st\<lparr>ws_cache := c\<rparr>) payload d = (st', reply)))"
  using assms pull_request_reply[of "st\<lparr>ws_cache := c\<rparr>" _ d st' reply d']
  by (auto simp: github_webhook_def Let_def split: option.splits bool.splits if_splits)

lemma duplicate_delivery:
  assumes "strip secret \<noteq> []" and "wq_delivery rq = Some d" and "d = [] \<or> is_replay (ws_cache st) now d = (c, True)"
  shows "github_webhook hmac json (Some secret) now st rq =
    (if d = [] then (st, Refused 400 ''missing X-GitHub-Delivery header'')
     else (st\<lparr>ws_cache := c\<rparr>, Reply [(''status'', PStr ''duplicate''), (''delivery_id'', PStr d)]))"
  using assms by (auto simp: github_webhook_def Let_def)

text \<open>C37: After any history of requests, a request queues a review only when it carries a signature of its body under the
  configured secret, its delivery is not among the last thousand distinct ones, it is a pull request event with one
  of the three actions, and then it queues exactly one review, of its own delivery; and it is answered as a duplicate
  exactly when its delivery is among the last thousand distinct ones.\<close>

theorem reviews_authentic:
  assumes "strip secret \<noteq> []" and "st = webhook_run hmac json (Some secret) rs"
    and "github_webhook hmac json (Some secret) now st rq = (st', reply)"
  shows "(ws_jobs st' = ws_jobs st \<or>
      (\<exists>d s payload a job. wq_delivery rq = Some d \<and> d \<noteq> [] \<and> d \<notin> set (last_n 1000 (by_recency (map snd (deliveries rs)))) \<and>
        wq_signature rq = Some s \<and> prefix ''sha256='' s \<and> hmac (strip secret) (wq_body rq) = after_equals s \<and>
        wq_event rq = Some ''pull_request'' \<and> json (wq_body rq) = Some payload \<and>
        field payload ''action'' (PStr []) = Some a \<and> handled_action a \<and>
        rj_delivery job = d \<and> ws_jobs st' = ws_jobs st @ [job])) \<and>
    ((\<exists>d. reply = Reply [(''status'', PStr ''duplicate''), (''delivery_id'', PStr d)]) \<longleftrightarrow>
      (\<exists>d. wq_delivery rq = Some d \<and> d \<noteq> [] \<and> d \<in> set (last_n 1000 (by_recency (map snd (deliveries rs))))))"
proof -
  let ?recent = "set (last_n 1000 (by_recency (map snd (deliveries rs))))"
  have cache: "map fst (ws_cache st) = last_n 1000 (by_recency (map snd (deliveries rs)))"
    using seen_all_last assms(1,2) by (simp add: run_cache)
  have replay: "snd (is_replay (ws_cache st) now d) \<longleftrightarrow> d \<in> ?recent" for d
    by (rule replay_step(2)[OF cache by_recency_distinct])
  show ?thesis
  proof (cases "wq_delivery rq")
    case None
    then show ?thesis using assms(1,3) by (auto simp: github_webhook_def Let_def)
  next
    case (Some d)
    obtain c dup where c: "is_replay (ws_cache st) now d = (c, dup)" by fastforce
    then have dup: "dup \<longleftrightarrow> d \<in> ?recent" using replay[of d] by simp
    show ?thesis
    proof (cases "d = [] \<or> dup")
      case True
      then show ?thesis using duplicate_delivery[OF assms(1) Some, of st now c hmac json] assms(3) c dup Some by (auto split: if_splits)
    next
      case False
      with c dup have new: "d \<noteq> []" "d \<notin> ?recent" "is_replay (ws_cache st) now d = (c, False)" by auto
      note fresh = fresh_delivery[OF assms(1) Some new(1,3) assms(3)]
      then consider "ws_jobs st' = ws_jobs st"
        | payload where "verify_signature hmac (strip secret) (wq_body rq) (wq_signature rq) = Some True"
            "wq_event rq = Some ''pull_request''" "json (wq_body rq) = Some payload"
            "handle_pull_request (st\<lparr>ws_cache := c\<rparr>) payload d = (st', reply)" by blast
      then show ?thesis
      proof cases
        case 1
        with fresh new Some show ?thesis by auto
      next
        case (2 payload)
        from signature_holds[OF 2(1)] pull_request_reply[OF 2(4)] fresh new Some 2(2,3) show ?thesis by auto
      qed
    qed
  qed
qed

definition sample_payload :: pyval where
  "sample_payload = PDict [(''action'', PStr ''opened''), (''pull_request'', PDict [(''number'', PInt 7)]),
     (''repository'', PDict [(''full_name'', PStr ''acme/app'')])]"

definition sample_pull :: "string option \<Rightarrow> webhook_request" where
  "sample_pull sig = \<lparr> wq_event = Some ''pull_request'', wq_delivery = Some ''d1'', wq_signature = sig, wq_body = ''body'' \<rparr>"

theorem reviews_authentic_witness:
  "\<exists>st reply d s. github_webhook (\<lambda>k b. ''ab'') (\<lambda>b. Some sample_payload) (Some ''key'') 1
       (webhook_run (\<lambda>k b. ''ab'') (\<lambda>b. Some sample_payload) (Some ''key'') []) (sample_pull (Some ''sha256=ab'')) = (st, reply) \<and>
     length (ws_jobs st) = 1 \<and> wq_delivery (sample_pull (Some ''sha256=ab'')) = Some d \<and>
     wq_signature (sample_pull (Some ''sha256=ab'')) = Some s \<and> ''ab'' = after_equals s"
proof -
  have key: "strip ''key'' = ''key''" "strip ''key'' \<noteq> []" by code_simp+
  let ?st = "webhook_run (\<lambda>k b. ''ab'') (\<lambda>b. Some sample_payload) (Some ''key'') []"
  obtain st reply where step: "github_webhook (\<lambda>k b. ''ab'') (\<lambda>b. Some sample_payload) (Some ''key'') 1 ?st (sample_pull (Some ''sha256=ab'')) = (st, reply)"
    by fastforce
  have "length (ws_jobs st) = 1" "ws_jobs ?st = []"
    using step by (auto simp: webhook_run_def github_webhook_def key sample_pull_def verify_signature_def ascii_def is_replay_def replay_cache_max_def
        handle_pull_request_def sample_payload_def field_def handled_action_def dict_get_or_def Let_def)
  with reviews_authentic[OF key(2) refl step] step show ?thesis by auto
qed

text \<open>The delivery is remembered before the signature is checked: a request without one makes the real delivery that
  follows a duplicate, which is never reviewed.\<close>

lemma unsigned_request_blocks_delivery:
  "let st = webhook_run (\<lambda>k b. ''ab'') (\<lambda>b. Some sample_payload) (Some ''key'')
         [(1, sample_pull None), (2, sample_pull (Some ''sha256=ab''))] in ws_jobs st = []"
proof -
  have key: "strip ''key'' = ''key''" by code_simp
  show ?thesis
    by (simp add: webhook_run_def github_webhook_def key sample_pull_def verify_signature_def ascii_def is_replay_def replay_cache_max_def Let_def)
qed

text \<open>And a thousand unsigned requests with other ids make the memory forget a delivery, which can then be replayed.\<close>

lemma flood_forgets_delivery:
  assumes "distinct ids" and "length ids = 1000" and "k \<notin> set ids"
  shows "k \<notin> set (last_n 1000 (by_recency (ks @ ids)))"
proof -
  have "foldl touch old ids = filter (\<lambda>x. x \<notin> set ids) old @ ids" if "distinct ids" for old ids
    using that
  proof (induction ids rule: rev_induct)
    case (snoc i ids)
    then have "filter (\<lambda>x. x \<noteq> i) ids = ids" by (auto simp: filter_id_conv)
    with snoc show ?case by (auto simp: touch_def intro!: filter_cong)
  qed simp
  from this[OF assms(1)] have "by_recency (ks @ ids) = filter (\<lambda>x. x \<notin> set ids) (by_recency ks) @ ids" by (simp add: by_recency_def)
  then show ?thesis using assms(2,3) by (simp add: last_n_def)
qed

text \<open>A signature with a character that is not ASCII is no failed verification but a response 500.\<close>

lemma foreign_signature_crashes:
  assumes "strip secret \<noteq> []" and "wq_delivery rq = Some d" and "d \<noteq> []" and "dict_get (ws_cache st) d = None"
    and "wq_signature rq = Some (''sha256='' @ s)" and "\<not> ascii s"
  shows "snd (github_webhook hmac json (Some secret) now st rq) = Crashed"
  using assms by (simp add: github_webhook_def verify_signature_def is_replay_def Let_def)

text \<open>A payload that is signed and no object crashes the handler.\<close>

lemma list_payload_crashes: "handle_pull_request st (PList vs) d = (st, Crashed)"
  by (simp add: handle_pull_request_def field_def)

end
