(* ===== verification/Input_Sanitizer.thy ===== *)
theory Input_Sanitizer
  imports Regex Task_Api
begin

section \<open>The input sanitizer (core/security.py, InputSanitizer)\<close>

text \<open>
  The patterns for injections and for sensitive words, the masks, the verdict, and what it means for a submission.
  Letters are ASCII letters, as everywhere in \<open>Regex\<close>.
\<close>

datatype trust_level = AUTO | SPOT_CHECK | FULL_REVIEW | FORBIDDEN

subsection \<open>Patterns\<close>

text \<open>The text of a pattern, which the messages quote: a tilde stands for the backslash.\<close>

definition pat :: "string \<Rightarrow> string" where
  "pat s = map (\<lambda>c. if c = CHR ''~'' then CHR 0x5C else c) s"

abbreviation sp :: rx where
  "sp \<equiv> Cls is_space"

abbreviation sp0 :: rx where
  "sp0 \<equiv> Star sp"

abbreviation sp1 :: rx where
  "sp1 \<equiv> rx_least 1 sp"

abbreviation dash_opt :: rx where
  "dash_opt \<equiv> rx_opt (Cls (\<lambda>c. c \<in> {CHR ''_'', CHR ''-''}))"

definition all_previous :: "string \<Rightarrow> rx" where
  "all_previous w = rx_seq [rx_lit w, sp1, rx_opt (rx_seq [rx_lit ''all'', sp1]), rx_alts [''previous'', ''above'', ''prior'']]"

definition injection_patterns :: "(string \<times> rx) list" where
  "injection_patterns =
    [(pat ''ignore~s+(all~s+)?(previous|above|prior)'', all_previous ''ignore''),
     (pat ''disregard~s+(all~s+)?(previous|above|prior)'', all_previous ''disregard''),
     (pat ''forget~s+(all~s+)?(previous|above|prior)'', all_previous ''forget''),
     (pat ''you~s+are~s+(now|not~s+an?~s+ai|free)'',
        rx_seq [rx_lit ''you'', sp1, rx_lit ''are'', sp1,
          Alt (rx_lit ''now'') (Alt (rx_seq [rx_lit ''not'', sp1, rx_lit ''a'', rx_opt (rx_lit ''n''), sp1, rx_lit ''ai'']) (rx_lit ''free''))]),
     (pat ''system~s+prompt'', rx_seq [rx_lit ''system'', sp1, rx_lit ''prompt'']),
     (pat ''your~s+(instructions|prompt|system~s+message)'',
        rx_seq [rx_lit ''your'', sp1,
          Alt (rx_lit ''instructions'') (Alt (rx_lit ''prompt'') (rx_seq [rx_lit ''system'', sp1, rx_lit ''message'']))]),
     (pat ''role~s*(:|is)~s*(system|assistant)'',
        rx_seq [rx_lit ''role'', sp0, rx_alts ['':'', ''is''], sp0, rx_alts [''system'', ''assistant'']]),
     (pat ''pretend'', rx_lit ''pretend''),
     (pat ''act~s+as~s+if'', rx_seq [rx_lit ''act'', sp1, rx_lit ''as'', sp1, rx_lit ''if'']),
     (pat ''jailbreak'', rx_lit ''jailbreak''),
     (pat ''you~s+must~s+obey'', rx_seq [rx_lit ''you'', sp1, rx_lit ''must'', sp1, rx_lit ''obey'']),
     (pat ''new~s+instructions?'', rx_seq [rx_lit ''new'', sp1, rx_lit ''instruction'', rx_opt (rx_lit ''s'')]),
     (pat ''override'', rx_lit ''override''),
     (pat ''do~s+(not~s+)?(any|what)ever'',
        rx_seq [rx_lit ''do'', sp1, rx_opt (rx_seq [rx_lit ''not'', sp1]), rx_alts [''any'', ''what''], rx_lit ''ever'']),
     (pat ''hypothetical'', rx_lit ''hypothetical''),
     (pat ''fiction(al)?~s+scenario'', rx_seq [rx_lit ''fiction'', rx_opt (rx_lit ''al''), sp1, rx_lit ''scenario''])]"

definition whole :: "rx list \<Rightarrow> rx" where
  "whole rs = rx_seq (Bnd # rs @ [Bnd])"

definition sensitive_patterns :: "(string \<times> rx) list" where
  "sensitive_patterns =
    [(pat ''~bpassword[s]?~b'', whole [rx_lit ''password'', rx_opt (rx_lit ''s'')]),
     (pat ''~bapi[_-]?key[s]?~b'', whole [rx_lit ''api'', dash_opt, rx_lit ''key'', rx_opt (rx_lit ''s'')]),
     (pat ''~bsecret[s]?~b'', whole [rx_lit ''secret'', rx_opt (rx_lit ''s'')]),
     (pat ''~btoken[s]?~b'', whole [rx_lit ''token'', rx_opt (rx_lit ''s'')]),
     (pat ''~bcredit~s*card~b'', whole [rx_lit ''credit'', sp0, rx_lit ''card'']),
     (pat ''~bssn~b'', whole [rx_lit ''ssn'']),
     (pat ''~bsocial~s*security~b'', whole [rx_lit ''social'', sp0, rx_lit ''security'']),
     (pat ''~bprivate~s*key~b'', whole [rx_lit ''private'', sp0, rx_lit ''key'']),
     (pat ''~baccess~s*key~b'', whole [rx_lit ''access'', sp0, rx_lit ''key'']),
     (pat ''~bauth[_-]?token~b'', whole [rx_lit ''auth'', dash_opt, rx_lit ''token'']),
     (pat ''~bjwt~b'', whole [rx_lit ''jwt''])]"

subsection \<open>Masks\<close>

text \<open>The first group of a mask: the key, the separator and the blanks after it.\<close>

definition mask_key :: "rx \<Rightarrow> rx" where
  "mask_key key = rx_seq [key, sp0, Cls (\<lambda>c. c \<in> {CHR '':'', CHR ''=''}), sp0]"

definition value_rx :: rx where
  "value_rx = rx_least 1 (Cls (\<lambda>c. \<not> is_space c))"

definition mask_rx :: "rx \<Rightarrow> rx" where
  "mask_rx key = Seq (mask_key key) value_rx"

definition masked :: "rx \<Rightarrow> string \<Rightarrow> string" where
  "masked key m =
     (case filter (\<lambda>q. (\<exists>q'\<in>set (rx_match value_rx q). snd q' = [])) (rx_match (mask_key key) (None, m)) of
        [] \<Rightarrow> m
      | q # _ \<Rightarrow> take (length m - length (snd q)) m @ ''[REDACTED]'')"

definition mask :: "rx \<Rightarrow> string \<Rightarrow> string" where
  "mask key s = rx_sub (mask_rx key) (masked key) s"

definition mask_keys :: "rx list" where
  "mask_keys =
    [rx_seq [rx_lit_ci ''api'', rx_opt (Cls (\<lambda>c. is_space c \<or> c \<in> {CHR ''_'', CHR ''-''})), rx_lit_ci ''key''],
     rx_lit_ci ''password'', rx_lit_ci ''secret'', rx_lit_ci ''token'']"

definition sanitize_sensitive :: "string \<Rightarrow> string" where
  "sanitize_sensitive s = foldl (\<lambda>s key. mask key s) s mask_keys"

subsection \<open>The verdict\<close>

definition detect_injection :: "string \<Rightarrow> string list" where
  "detect_injection t =
     map (\<lambda>(p, r). ''Possible prompt injection: matched '' @ [CHR 0x27] @ p @ [CHR 0x27])
       (filter (\<lambda>(p, r). rx_search r (lower t)) injection_patterns)"

definition detect_sensitive :: "string \<Rightarrow> string list" where
  "detect_sensitive t =
     map (\<lambda>(p, r). ''Possible sensitive data detected: matched '' @ [CHR 0x27] @ p @ [CHR 0x27])
       (filter (\<lambda>(p, r). rx_search r (lower t)) sensitive_patterns)"

definition assess_risk :: "string list \<Rightarrow> string list \<Rightarrow> string" where
  "assess_risk injection sensitive =
     (if 3 \<le> length injection then ''critical''
      else if 1 \<le> length injection then ''high''
      else if 2 \<le> length sensitive then ''medium''
      else if 1 \<le> length sensitive then ''medium''
      else ''low'')"

definition validate_input :: "nat \<Rightarrow> string \<Rightarrow> validation" where
  "validate_input limit t =
     (if limit < length t
      then \<lparr> val_valid = False, val_sanitized = take limit t,
             val_issues = [''Input exceeds max length ('' @ show_nat (length t) @ '' > '' @ show_nat limit @ '')''],
             val_risk_level = ''medium'' \<rparr>
      else let i = detect_injection t; s = detect_sensitive t; risk = assess_risk i s
           in \<lparr> val_valid = (risk \<noteq> ''critical''), val_sanitized = sanitize_sensitive t, val_issues = i @ s,
                val_risk_level = risk \<rparr>)"

definition default_max_input :: nat where
  "default_max_input = 100000"

definition forbidden_actions :: "string list" where
  "forbidden_actions = [''delete_all'', ''drop_database'', ''clear_all_data'', ''mass_delete'', ''bulk_update_all'', ''override_permissions'']"

definition is_authorized_operation :: "string \<Rightarrow> trust_level \<Rightarrow> bool" where
  "is_authorized_operation action trust =
     (if trust = FORBIDDEN then False
      else if action \<in> set forbidden_actions \<and> trust \<noteq> AUTO then False
      else True)"

subsection \<open>What a mask does\<close>

text \<open>
  A text and what a mask makes of it: from the leftmost occurrence of the key with a separator and a value on, the
  key stays and the whole value, up to the next blank, is replaced; the rest is masked in the same way.
\<close>

inductive hides :: "rx \<Rightarrow> string \<Rightarrow> string \<Rightarrow> bool" where
  hides_none: "\<not> rx_search (mask_rx key) s \<Longrightarrow> hides key s s"
| hides_one: "hides key (pre @ k @ v @ rest) (pre @ k @ ''[REDACTED]'' @ t)"
    if "rx_accepts (mask_key key) (None, k) (char_after None k, [])" and "v \<noteq> []" and "\<forall>c\<in>set v. \<not> is_space c"
      and "rest = [] \<or> is_space (hd rest)" and "\<forall>u w. pre = u @ w \<and> w \<noteq> [] \<longrightarrow> rx_match (mask_rx key) (None, w @ k @ v @ rest) = []"
      and "hides key rest t"

lemma value_match: "rx_match value_rx (p, s) \<noteq> [] \<Longrightarrow>
  s \<noteq> [] \<and> \<not> is_space (hd s) \<and> snd (hd (rx_match value_rx (p, s))) = dropWhile (\<lambda>c. \<not> is_space c) s"
proof (cases s)
  case (Cons c s')
  moreover assume "rx_match value_rx (p, s) \<noteq> []"
  moreover obtain qs p' where "rx_star (rx_match (Cls (\<lambda>c. \<not> is_space c))) (length s') (Some c, s') =
      (p', dropWhile (\<lambda>c. \<not> is_space c) s') # qs" using star_cls_greedy[OF order.refl] by metis
  ultimately show ?thesis by (auto simp: value_rx_def numeral_eq_Suc split: if_splits)
qed (simp add: value_rx_def numeral_eq_Suc)

lemma star_cls_accepts: "rx_accepts (Star (Cls P)) q q' \<Longrightarrow> \<exists>v. (\<forall>c\<in>set v. P c) \<and> snd q = v @ snd q'"
proof (induction "Star (Cls P)" q q' rule: rx_accepts.induct)
  case (acc_more q q1 q2)
  then obtain v where "\<forall>c\<in>set v. P c" "snd q1 = v @ snd q2" by blast
  moreover from acc_more.hyps(1) obtain c where "P c" "snd q = c # snd q1" by auto
  ultimately show ?case by (intro exI[of _ "c # v"]) auto
qed simp

lemma value_accepts: "rx_accepts value_rx q q' \<Longrightarrow> \<exists>v. v \<noteq> [] \<and> (\<forall>c\<in>set v. \<not> is_space c) \<and> snd q = v @ snd q'"
proof -
  assume "rx_accepts value_rx q q'"
  then obtain p c s where one: "\<not> is_space c" "q = (p, c # s)" and more: "rx_accepts (Star (Cls (\<lambda>c. \<not> is_space c))) (Some c, s) q'"
    by (auto simp: value_rx_def numeral_eq_Suc)
  from star_cls_accepts[OF more] obtain v where "\<forall>c\<in>set v. \<not> is_space c" "s = v @ snd q'" by auto
  with one show ?thesis by (intro exI[of _ "c # v"]) auto
qed

lemma concat_head: "concat (map f xs) = y # ys \<Longrightarrow> \<exists>x\<in>set xs. \<exists>zs. f x = y # zs"
  by (induction xs) (auto simp: append_eq_Cons_conv)

lemma bnd_free_keys: "key \<in> set mask_keys \<Longrightarrow> bnd_free (mask_key key)"
  by (auto simp: mask_keys_def mask_key_def)

text \<open>A match of a mask: the key, then a value that ends at a blank or at the end.\<close>

lemma mask_match:
  assumes "rx_match (mask_rx key) (p, s) = q # qs"
  obtains k v where "s = k @ v @ snd q" "rx_accepts (mask_key key) (p, s) (char_after p k, v @ snd q)" "v \<noteq> []"
    "\<forall>c\<in>set v. \<not> is_space c" "snd q = [] \<or> is_space (hd (snd q))"
proof -
  have "concat (map (rx_match value_rx) (rx_match (mask_key key) (p, s))) = q # qs"
    using assms by (simp add: mask_rx_def)
  then obtain q1 where q1: "q1 \<in> set (rx_match (mask_key key) (p, s))" "\<exists>zs. rx_match value_rx q1 = q # zs"
    using concat_head[of "rx_match value_rx"] by metis
  then have acc: "rx_accepts (mask_key key) (p, s) q1" by (simp add: rx_match_iff)
  let ?k = "take (length s - length (snd q1)) s"
  have s: "s = ?k @ snd q1" using accepts_suffix[OF acc] by simp
  have fst: "q1 = (char_after p ?k, snd q1)" using accepts_advances[OF acc] by (cases q1) (auto simp: advances_def char_after_def)
  define v where "v = takeWhile (\<lambda>c. \<not> is_space c) (snd q1)"
  have "rx_match value_rx (fst q1, snd q1) \<noteq> []" using q1(2) by auto
  from value_match[OF this] q1(2) have v: "snd q1 \<noteq> []" "\<not> is_space (hd (snd q1))" "snd q = dropWhile (\<lambda>c. \<not> is_space c) (snd q1)"
    by auto
  then have vs: "snd q1 = v @ snd q" by (simp add: v_def)
  show thesis
  proof (rule that[of ?k v])
    show "s = ?k @ v @ snd q" using s vs by simp
    show "rx_accepts (mask_key key) (p, s) (char_after p ?k, v @ snd q)" using acc fst vs by metis
    show "v \<noteq> []" using v(1,2) by (cases "snd q1") (auto simp: v_def)
    show "\<forall>c\<in>set v. \<not> is_space c" by (auto simp: v_def dest: set_takeWhileD)
    show "snd q = [] \<or> is_space (hd (snd q))" unfolding v(3) using hd_dropWhile[of "\<lambda>c. \<not> is_space c" "snd q1"] by blast
  qed
qed

text \<open>The mask keeps the key of its match, and finds it without the text around it.\<close>

lemma masked_value:
  assumes "bnd_free (mask_key key)" and "rx_accepts (mask_key key) (p, k @ v @ w) (char_after p k, v @ w)"
    and "v \<noteq> []" and "\<forall>c\<in>set v. \<not> is_space c"
  shows "\<exists>k' v'. k' @ v' = k @ v \<and> v' \<noteq> [] \<and> (\<forall>c\<in>set v'. \<not> is_space c) \<and>
    rx_accepts (mask_key key) (None, k') (char_after None k', []) \<and> masked key (k @ v) = k' @ ''[REDACTED]''"
proof -
  let ?ends = "\<lambda>q. \<exists>q'\<in>set (rx_match value_rx q). snd q' = []"
  let ?all = "filter ?ends (rx_match (mask_key key) (None, k @ v))"
  have "(char_after None k, v) \<in> set (rx_match (mask_key key) (None, k @ v))"
    using accepts_context[OF assms(2,1), of k None v] by (simp add: rx_match_iff)
  moreover have "?ends (char_after None k, v)"
  proof -
    from assms(3) obtain c v' where v: "v = c # v'" by (cases v) auto
    obtain qs p' where "rx_star (rx_match (Cls (\<lambda>c. \<not> is_space c))) (length v') (Some c, v') =
        (p', dropWhile (\<lambda>c. \<not> is_space c) v') # qs" using star_cls_greedy[OF order.refl] by metis
    moreover have "dropWhile (\<lambda>c. \<not> is_space c) v' = []" using assms(4) v by simp
    ultimately show ?thesis using assms(4) v by (simp add: value_rx_def numeral_eq_Suc)
  qed
  ultimately obtain q qs where all: "?all = q # qs" by (cases ?all) (auto simp: filter_empty_conv simp del: split_paired_All split_paired_Ex)
  then have "q \<in> set ?all" by simp
  then have q: "rx_accepts (mask_key key) (None, k @ v) q" "?ends q" by (auto simp: rx_match_iff)
  let ?k = "take (length (k @ v) - length (snd q)) (k @ v)"
  have kv: "k @ v = ?k @ snd q" using accepts_suffix[OF q(1)] by (simp only: snd_conv)
  from q(2) obtain q' where "rx_accepts value_rx q q'" "snd q' = []" using rx_match_iff by blast
  with value_accepts[of q q'] have "snd q \<noteq> []" "\<forall>c\<in>set (snd q). \<not> is_space c" by auto
  moreover have "rx_accepts (mask_key key) (None, ?k @ []) (char_after None ?k, [])"
    by (rule accepts_context[OF q(1) assms(1)]) (simp only: snd_conv kv[symmetric])
  moreover have "masked key (k @ v) = ?k @ ''[REDACTED]''" using all by (simp add: masked_def)
  ultimately show ?thesis by (intro exI[of _ ?k] exI[of _ "snd q"] conjI) (simp_all only: kv[symmetric] append_Nil2 simp_thms)
qed

lemma replace_hides:
  assumes "bnd_free (mask_rx key)"
  shows "length s \<le> n \<Longrightarrow> hides key s (rx_replace (mask_rx key) (masked key) n p s)"
proof (induction n arbitrary: p s)
  case 0
  have "rx_match (mask_rx key) (None, []) = []"
  proof (cases "rx_match (mask_rx key) (None, [])")
    case (Cons q qs)
    then show ?thesis by (rule mask_match) simp
  qed
  with 0 show ?case by (auto intro!: hides_none simp: rx_search_def)
next
  case (Suc n)
  show ?case
  proof (cases "rx_find (mask_rx key) p s")
    case None
    then have "\<not> rx_search (mask_rx key) s" using rx_find_context[OF assms, of p s None] by (simp add: rx_search_def)
    with None show ?thesis by (simp add: hides_none)
  next
    case (Some f)
    then obtain pre m p' s' where f: "rx_find (mask_rx key) p s = Some (pre, m, (p', s'))" by (cases f) auto
    have s: "s = pre @ m @ s'" using rx_find_some[OF f] by simp
    obtain qs where "rx_match (mask_rx key) (char_after p pre, m @ s') = (p', s') # qs" using rx_find_head[OF f] by auto
    from mask_match[OF this] obtain k v where kv: "m @ s' = k @ v @ s'"
      "rx_accepts (mask_key key) (char_after p pre, m @ s') (char_after (char_after p pre) k, v @ s')" "v \<noteq> []"
      "\<forall>c\<in>set v. \<not> is_space c" "s' = [] \<or> is_space (hd s')" by (metis snd_conv)
    then have m: "m = k @ v" by simp
    have free: "bnd_free (mask_key key)" using assms by (simp add: mask_rx_def)
    from masked_value[OF free _ kv(3,4), of "char_after p pre" k s'] kv(2) m obtain k' v' where
      kv': "k' @ v' = m" "v' \<noteq> []" "\<forall>c\<in>set v'. \<not> is_space c" "rx_accepts (mask_key key) (None, k') (char_after None k', [])"
      "masked key m = k' @ ''[REDACTED]''" by auto
    have less: "length s' < length s" using s m kv(3) by simp
    with Suc.prems have "hides key s' (rx_replace (mask_rx key) (masked key) n p' s')" by (intro Suc.IH) simp
    moreover have "\<forall>u w. pre = u @ w \<and> w \<noteq> [] \<longrightarrow> rx_match (mask_rx key) (None, w @ k' @ v' @ s') = []"
      using rx_find_leftmost[OF f] no_match_context[OF assms] kv'(1) by (metis append_assoc snd_conv)
    ultimately have "hides key (pre @ k' @ v' @ s') (pre @ k' @ ''[REDACTED]'' @ rx_replace (mask_rx key) (masked key) n p' s')"
      using kv' kv(5) by (intro hides_one)
    moreover have "pre @ k' @ v' @ s' = s" using s kv'(1) by (metis append_assoc)
    ultimately show ?thesis using f less kv'(5) by simp
  qed
qed

lemma mask_hides: "key \<in> set mask_keys \<Longrightarrow> hides key s (mask key s)"
  unfolding mask_def rx_sub_def
  by (rule replace_hides) (use bnd_free_keys in \<open>auto simp: mask_rx_def value_rx_def numeral_eq_Suc\<close>)

subsection \<open>What a submission gets past the sanitizer\<close>

definition occurs_in :: "rx \<Rightarrow> string \<Rightarrow> bool" where
  "occurs_in r s \<longleftrightarrow> (\<exists>a b q. s = a @ b \<and> rx_accepts r (char_after None a, b) q)"

lemma length_detect_injection:
  "length (detect_injection t) = length (filter (\<lambda>(p, r). occurs_in r (lower t)) injection_patterns)"
  unfolding detect_injection_def length_map rx_search_iff occurs_in_def ..

lemma assess_risk_critical: "assess_risk i s = ''critical'' \<longleftrightarrow> 3 \<le> length i"
  by (simp add: assess_risk_def)

lemma validate_input_valid:
  "val_valid (validate_input limit t) \<longleftrightarrow>
   length t \<le> limit \<and> length (filter (\<lambda>(p, r). occurs_in r (lower t)) injection_patterns) < 3"
  by (auto simp: validate_input_def Let_def assess_risk_critical length_detect_injection)

lemma validate_input_sanitized: "length t \<le> limit \<Longrightarrow> val_sanitized (validate_input limit t) = sanitize_sensitive t"
  by (simp add: validate_input_def Let_def)

fun hides_all :: "rx list \<Rightarrow> string \<Rightarrow> string \<Rightarrow> bool" where
  "hides_all [] s t \<longleftrightarrow> t = s"
| "hides_all (key # keys) s t \<longleftrightarrow> (\<exists>u. hides key s u \<and> hides_all keys u t)"

lemma sanitize_hides: "hides_all mask_keys s (sanitize_sensitive s)"
proof -
  have "set keys \<subseteq> set mask_keys \<Longrightarrow> hides_all keys s (foldl (\<lambda>s key. mask key s) s keys)" for keys s
    by (induction keys arbitrary: s) (auto intro: mask_hides)
  then show ?thesis by (simp add: sanitize_sensitive_def)
qed

text \<open>C38: A submission that succeeds was checked: its input has at most a hundred thousand characters, fewer than three of
  the patterns for injections occur in it in any case, and the agent ran on the input after four masks, each of which
  replaced the whole value of every occurrence of its key it came to, from left to right, and nothing else.\<close>

theorem submitted_input_checked:
  assumes "submit_task (validate_input default_max_input) run st io u req hex now clock = (st', Inr resp)"
  shows "length (rq_input req) \<le> 100000 \<and>
    length (filter (\<lambda>(p, r). occurs_in r (lower (rq_input req))) injection_patterns) < 3 \<and>
    (\<exists>t out. hides_all mask_keys (rq_input req) t \<and> run (rq_agent req) t (resp_task_id resp) = Inr out)"
proof -
  let ?v = "validate_input default_max_input (rq_input req)"
  from submit_task_cases[OF assms] obtain out where valid: "val_valid ?v"
    and run: "run (rq_agent req) (val_sanitized ?v) (resp_task_id resp) = Inr out"
    by (auto simp: Let_def split: if_splits sum.splits)
  then have "val_sanitized ?v = sanitize_sensitive (rq_input req)" "length (rq_input req) \<le> 100000"
    by (simp_all add: validate_input_valid validate_input_sanitized default_max_input_def)
  with valid run sanitize_hides[of "rq_input req"] show ?thesis by (auto simp: validate_input_valid)
qed

definition token_request :: task_request where
  "token_request = \<lparr> rq_input = ''Token: x1'', rq_agent = ''tech'', rq_task_id = Some ''t1'' \<rparr>"

lemma token_request_valid: "val_valid (validate_input default_max_input (rq_input token_request))"
proof -
  have "detect_injection ''Token: x1'' = []" by code_simp
  then show ?thesis
    by (simp add: validate_input_def Let_def assess_risk_critical token_request_def default_max_input_def)
qed

definition quiet_agent :: "string \<Rightarrow> string \<Rightarrow> string \<Rightarrow> string + run_result" where
  "quiet_agent agent inp tid = Inr \<lparr> rr_status = None, rr_output = None, rr_error = None \<rparr>"

theorem submitted_input_checked_witness:
  "\<exists>st' resp t. submit_task (validate_input default_max_input) quiet_agent (sample_api []) True
       (sample_user ''u'' ''t'') token_request ''ab'' 0 0 = (st', Inr resp) \<and>
     hides_all mask_keys (rq_input token_request) t"
proof -
  obtain st' res where step: "submit_task (validate_input default_max_input) quiet_agent (sample_api []) True
       (sample_user ''u'' ''t'') token_request ''ab'' 0 0 = (st', res)" by fastforce
  with submit_task_cases[OF step] token_request_valid obtain resp where "res = Inr resp"
    by (auto simp: Let_def quiet_agent_def token_request_def known_agents_def)
  with step submitted_input_checked[of quiet_agent "sample_api []" True "sample_user ''u'' ''t''" token_request "''ab''" 0 0 st' resp]
  show ?thesis by auto
qed

text \<open>A value that follows a quoted key is not masked, and of a value with blanks only the first word is.\<close>

lemma json_secret_unmasked:
  "sanitize_sensitive (''{'' @ [CHR 0x22] @ ''password'' @ [CHR 0x22] @ '': x1}'') = ''{'' @ [CHR 0x22] @ ''password'' @ [CHR 0x22] @ '': x1}''"
  by code_simp

lemma rest_of_secret_unmasked: "sanitize_sensitive ''token: Bearer x1'' = ''token: [REDACTED] x1''"
  by code_simp

lemma nested_secret_unmasked: "sanitize_sensitive ''password: secret: x1'' = ''password: [REDACTED] x1''"
  by code_simp

end
