(* ===== verification/Migration.thy ===== *)
theory Migration
  imports Memory_Graph
begin

section \<open>Migration of nodes (migration/engine.py)\<close>

text \<open>
  The check before a migration, the selection, the copies in batches, the checksums, the result and the log.
  Parameters: the hash (\<open>sha256\<close>, hex), the JSON text of a content, which nodes \<open>model_copy\<close> can copy, and the
  readings of the clocks. An exception that leaves \<open>run\<close> is \<open>Raised\<close>.
\<close>

datatype migration_status =
    M_PENDING | M_PRE_CHECK | M_SNAPSHOT | M_COPYING | M_VERIFYING | M_COMPLETED | M_FAILED | M_ROLLED_BACK

datatype migration_template = FULL_TENANT_EXPORT | GROUP_TO_GROUP | TENANT_TO_TENANT

fun template_value :: "migration_template \<Rightarrow> string" where
  "template_value FULL_TENANT_EXPORT = ''full_tenant_export''"
| "template_value GROUP_TO_GROUP = ''group_to_group''"
| "template_value TENANT_TO_TENANT = ''tenant_to_tenant''"

record migration_config =
  mc_id :: string
  mc_template :: migration_template
  mc_source_tenant :: string
  mc_source_group :: string
  mc_target_tenant :: string
  mc_target_group :: string
  mc_node_types :: "string list"
  mc_batch_size :: int
  mc_max_total :: int
  mc_dry_run :: bool
  mc_require_approval :: bool
  mc_approved_by :: string
  mc_requested_by :: string

record migration_result =
  mr_config_id :: string
  mr_status :: migration_status
  mr_total :: nat
  mr_processed :: nat
  mr_failed_batches :: nat
  mr_source_checksum :: string
  mr_target_checksum :: string
  mr_error :: "string option"
  mr_completed_at :: "microseconds option"
  mr_duration :: rat

definition progress_pct :: "migration_result \<Rightarrow> rat" where
  "progress_pct r = (if mr_total r = 0 then 0 else of_nat (mr_processed r) / of_nat (mr_total r))"

record migration_state =
  ms_graph :: graph
  ms_migrations :: "(string, migration_result) dict"
  ms_audit :: "pydict list"

record migration_env =
  me_hash :: "string \<Rightarrow> string"
  me_json :: "pydict \<Rightarrow> string"
  me_copyable :: "graph_node \<Rightarrow> bool"
  me_now :: microseconds
  me_iso :: "microseconds \<Rightarrow> string"
  me_took :: rat

definition pre_check :: "migration_config \<Rightarrow> string option" where
  "pre_check c =
     (if mc_require_approval c \<and> mc_approved_by c = [] then Some ''Human approval required but not provided''
      else if mc_source_tenant c = mc_target_tenant c \<and> mc_target_group c = [] then Some ''Source and target are identical''
      else if mc_batch_size c \<le> 0 \<or> 1000 < mc_batch_size c then Some (''Invalid batch size: '' @ show_int (mc_batch_size c))
      else None)"

subsection \<open>Selection\<close>

text \<open>\<open>group in v\<close>: None is the \<open>TypeError\<close> of a value that is no container.\<close>

definition contains :: "pyval \<Rightarrow> string \<Rightarrow> bool option" where
  "contains v s =
     (case v of PList vs \<Rightarrow> Some (\<exists>x\<in>set vs. py_eq x (PStr s)) | PStr t \<Rightarrow> Some (str_in s t) | PDict d \<Rightarrow> Some (dict_has d s)
      | _ \<Rightarrow> None)"

definition wants :: "migration_config \<Rightarrow> graph_node \<Rightarrow> bool option" where
  "wants c n =
     (let tenant = dict_get_or (gn_metadata n) ''tenant_id'' (PStr ''default''); group = dict_get_or (gn_metadata n) ''group_ids'' (PList [])
      in if \<not> py_eq tenant (PStr (mc_source_tenant c)) then Some False
         else if mc_source_group c = [] then Some (node_type_value (gn_type n) \<in> set (mc_node_types c))
         else map_option (\<lambda>b. b \<and> node_type_value (gn_type n) \<in> set (mc_node_types c)) (contains group (mc_source_group c)))"

fun selected_of :: "migration_config \<Rightarrow> graph_node list \<Rightarrow> graph_node list option" where
  "selected_of c [] = Some []"
| "selected_of c (n # ns) =
     (case wants c n of
        None \<Rightarrow> None
      | Some b \<Rightarrow> map_option (\<lambda>rest. if b then n # rest else rest) (selected_of c ns))"

definition select_nodes :: "migration_config \<Rightarrow> graph \<Rightarrow> graph_node list option" where
  "select_nodes c g = selected_of c (dict_values (gr_nodes g))"

fun insert_id :: "graph_node \<Rightarrow> graph_node list \<Rightarrow> graph_node list" where
  "insert_id n [] = [n]"
| "insert_id n (m # ms) = (if str_cmp (gn_id m) (gn_id n) = Less then m # insert_id n ms else n # m # ms)"

definition node_checksum :: "migration_env \<Rightarrow> graph_node list \<Rightarrow> string" where
  "node_checksum e ns = me_hash e (concat (map (\<lambda>n. gn_id n @ me_json e (gn_content n)) (foldr insert_id ns [])))"

subsection \<open>Copies\<close>

definition copy_id :: "migration_config \<Rightarrow> string \<Rightarrow> string" where
  "copy_id c k = mc_target_tenant c @ ''::'' @ k"

definition migrated_copy :: "migration_config \<Rightarrow> graph_node \<Rightarrow> graph_node" where
  "migrated_copy c n =
     (let m1 = dict_set (gn_metadata n) ''tenant_id'' (PStr (mc_target_tenant c));
          m2 = (if mc_target_group c = [] then m1 else dict_set m1 ''group_ids'' (PList [PStr (mc_target_group c)]));
          m3 = dict_set m2 ''migrated_from'' (PStr (gn_id n))
      in n\<lparr>gn_metadata := m3, gn_id := copy_id c (gn_id n)\<rparr>)"

fun copy_batch :: "migration_env \<Rightarrow> migration_config \<Rightarrow> graph \<Rightarrow> graph_node list \<Rightarrow> graph \<times> nat" where
  "copy_batch e c g [] = (g, 0)"
| "copy_batch e c g (n # ns) =
     (if \<not> me_copyable e n then copy_batch e c g ns
      else case copy_batch e c (add_node g (migrated_copy c n) (me_now e)) ns of (g', k) \<Rightarrow> (g', Suc k))"

fun chunks :: "nat \<Rightarrow> nat \<Rightarrow> 'a list \<Rightarrow> 'a list list" where
  "chunks 0 n xs = []"
| "chunks (Suc fuel) n xs = (if xs = [] then [] else take n xs # chunks fuel n (drop n xs))"

fun copy_batches :: "migration_env \<Rightarrow> migration_config \<Rightarrow> graph \<Rightarrow> graph_node list list \<Rightarrow> nat \<Rightarrow> graph \<times> nat" where
  "copy_batches e c g [] processed = (g, processed)"
| "copy_batches e c g (b # bs) processed =
     (case copy_batch e c g b of (g', k) \<Rightarrow> copy_batches e c g' bs (processed + k))"

definition migrated_nodes :: "graph \<Rightarrow> graph_node list" where
  "migrated_nodes g = filter (\<lambda>n. py_truthy (dict_get_or (gn_metadata n) ''migrated_from'' PNone)) (dict_values (gr_nodes g))"

subsection \<open>A run\<close>

definition audit_migration :: "migration_env \<Rightarrow> migration_config \<Rightarrow> migration_result \<Rightarrow> string \<Rightarrow> pydict" where
  "audit_migration e c r outcome =
     [(''timestamp'', PStr (me_iso e (me_now e))), (''config_id'', PStr (mc_id c)), (''template'', PStr (template_value (mc_template c))),
      (''source_tenant'', PStr (mc_source_tenant c)), (''target_tenant'', PStr (mc_target_tenant c)),
      (''total_nodes'', PInt (int (mr_total r))), (''processed_nodes'', PInt (int (mr_processed r))),
      (''outcome'', PStr outcome), (''requested_by'', PStr (mc_requested_by c))]"

definition fresh_result :: "migration_config \<Rightarrow> migration_result" where
  "fresh_result c = \<lparr> mr_config_id = mc_id c, mr_status = M_PRE_CHECK, mr_total = 0, mr_processed = 0, mr_failed_batches = 0,
     mr_source_checksum = [], mr_target_checksum = [], mr_error = None, mr_completed_at = None, mr_duration = 0 \<rparr>"

datatype run_end = Raised | Returned migration_result

text \<open>The result is one object, in the map of migrations and in the hands of the caller.\<close>

definition keep_result :: "migration_state \<Rightarrow> migration_result \<Rightarrow> migration_state" where
  "keep_result st r = st\<lparr>ms_migrations := dict_set (ms_migrations st) (mr_config_id r) r\<rparr>"

definition end_run :: "migration_env \<Rightarrow> migration_config \<Rightarrow> migration_state \<Rightarrow> migration_result \<Rightarrow> string option \<Rightarrow> migration_state \<times> run_end" where
  "end_run e c st r outcome =
     (let r' = r\<lparr>mr_completed_at := Some (me_now e)\<rparr>; st' = keep_result st r'
      in (case outcome of None \<Rightarrow> st' | Some o' \<Rightarrow> st'\<lparr>ms_audit := ms_audit st' @ [audit_migration e c r' o']\<rparr>, Returned r'))"

definition run_migration :: "migration_env \<Rightarrow> migration_config \<Rightarrow> migration_state \<Rightarrow> migration_state \<times> run_end" where
  "run_migration e c st =
     (let r0 = fresh_result c in
      case pre_check c of
        Some reason \<Rightarrow> end_run e c st (r0\<lparr>mr_status := M_FAILED, mr_error := Some reason\<rparr>) None
      | None \<Rightarrow>
          (case select_nodes c (ms_graph st) of
             None \<Rightarrow> (keep_result st r0, Raised)
           | Some ns \<Rightarrow>
               if mc_max_total c < int (length ns)
               then end_run e c st (r0\<lparr>mr_status := M_FAILED,
                      mr_error := Some (''Source has '' @ show_nat (length ns) @ '' nodes > max_total_nodes ('' @ show_int (mc_max_total c) @ '')'')\<rparr>) None
               else
                 let r1 = r0\<lparr>mr_total := length ns, mr_status := M_SNAPSHOT, mr_source_checksum := node_checksum e ns\<rparr> in
                 if mc_dry_run c then end_run e c st (r1\<lparr>mr_status := M_COMPLETED\<rparr>) (Some ''dry_run'')
                 else if \<not> (\<forall>n\<in>set ns. me_copyable e n) then (keep_result st r1, Raised)
                 else
                   let (g, done_nodes) = copy_batches e c (ms_graph st) (chunks (length ns) (nat (mc_batch_size c)) ns) 0;
                       st1 = st\<lparr>ms_graph := g\<rparr>;
                       r2 = r1\<lparr>mr_processed := done_nodes, mr_target_checksum := node_checksum e (migrated_nodes g)\<rparr>
                   in if mr_processed r2 < mr_total r2
                      then end_run e c st1 (r2\<lparr>mr_status := M_ROLLED_BACK,
                             mr_error := Some (''Only copied '' @ show_nat (mr_processed r2) @ ''/'' @ show_nat (mr_total r2))\<rparr>) (Some ''rollback'')
                      else end_run e c st1 (r2\<lparr>mr_status := M_COMPLETED, mr_duration := me_took e\<rparr>) (Some ''completed'')))"

definition get_result :: "migration_state \<Rightarrow> string \<Rightarrow> migration_result option" where
  "get_result st k = dict_get (ms_migrations st) k"

subsection \<open>The copies\<close>

definition copy_all :: "migration_env \<Rightarrow> migration_config \<Rightarrow> graph \<Rightarrow> graph_node list \<Rightarrow> graph" where
  "copy_all e c g ns = foldl (\<lambda>g n. add_node g (migrated_copy c n) (me_now e)) g ns"

text \<open>What is stored for a node: its copy, with the time of this run, and the first time of an older node of that id.\<close>

definition stored_copy :: "migration_env \<Rightarrow> migration_config \<Rightarrow> graph \<Rightarrow> graph_node \<Rightarrow> graph_node" where
  "stored_copy e c g n =
     (migrated_copy c n)\<lparr>gn_created_at := (case get_node g (copy_id c (gn_id n)) of None \<Rightarrow> gn_created_at n | Some old \<Rightarrow> gn_created_at old),
       gn_updated_at := me_now e\<rparr>"

lemma migrated_copy_id [simp]: "gn_id (migrated_copy c n) = copy_id c (gn_id n)" "gn_created_at (migrated_copy c n) = gn_created_at n"
  by (simp_all add: migrated_copy_def Let_def)

lemma copy_id_inj [simp]: "copy_id c j = copy_id c k \<longleftrightarrow> j = k"
  by (simp add: copy_id_def)

lemma copy_batch_all: "\<forall>n\<in>set ns. me_copyable e n \<Longrightarrow> copy_batch e c g ns = (copy_all e c g ns, length ns)"
  by (induction ns arbitrary: g) (simp_all add: copy_all_def)

lemma copy_batches_all:
  "\<forall>b\<in>set bs. \<forall>n\<in>set b. me_copyable e n \<Longrightarrow> copy_batches e c g bs k = (copy_all e c g (concat bs), k + length (concat bs))"
  by (induction bs arbitrary: g k) (simp_all add: copy_batch_all copy_all_def)

lemma concat_chunks: "0 < n \<Longrightarrow> length xs \<le> fuel \<Longrightarrow> concat (chunks fuel n xs) = xs"
proof (induction fuel arbitrary: xs)
  case (Suc fuel)
  then have "xs \<noteq> [] \<Longrightarrow> concat (chunks fuel n (drop n xs)) = drop n xs" by (intro Suc.IH) (cases xs; simp)+
  then show ?case by simp
qed simp

lemma copy_batches_chunks:
  assumes "0 < n" and "\<forall>m\<in>set ns. me_copyable e m"
  shows "copy_batches e c g (chunks (length ns) n ns) 0 = (copy_all e c g ns, length ns)"
proof -
  have all: "concat (chunks (length ns) n ns) = ns" using assms(1) by (rule concat_chunks) simp
  have "\<forall>b\<in>set (chunks (length ns) n ns). \<forall>m\<in>set b. me_copyable e m" using assms(2) unfolding set_concat[symmetric] by (metis UN_iff all set_concat)
  from copy_batches_all[OF this] all show ?thesis by simp
qed

lemma get_node_put: "get_node (add_node g n now) k =
  (if k = gn_id n then Some (n\<lparr>gn_created_at := (case get_node g k of None \<Rightarrow> gn_created_at n | Some old \<Rightarrow> gn_created_at old), gn_updated_at := now\<rparr>)
   else get_node g k)"
  by (simp add: add_node_def get_node_def Let_def split: option.split)

lemma copy_all_other: "k \<notin> copy_id c ` gn_id ` set ns \<Longrightarrow> get_node (copy_all e c g ns) k = get_node g k"
  by (induction ns arbitrary: g) (auto simp: copy_all_def get_node_put)

lemma copy_all_copies:
  "distinct (map gn_id ns) \<Longrightarrow> n \<in> set ns \<Longrightarrow> get_node (copy_all e c g ns) (copy_id c (gn_id n)) = Some (stored_copy e c g n)"
proof (induction ns arbitrary: g)
  case (Cons m ns)
  let ?g = "add_node g (migrated_copy c m) (me_now e)"
  have step: "copy_all e c g (m # ns) = copy_all e c ?g ns" by (simp add: copy_all_def)
  show ?case
  proof (cases "n = m")
    case True
    then have "copy_id c (gn_id n) \<notin> copy_id c ` gn_id ` set ns" using Cons.prems(1) by auto
    then show ?thesis unfolding step copy_all_other[OF \<open>copy_id c (gn_id n) \<notin> _\<close>] using True
      by (simp add: get_node_put stored_copy_def split: option.split)
  next
    case False
    then have n: "n \<in> set ns" using Cons.prems by simp
    moreover have "gn_id m \<notin> gn_id ` set ns" using Cons.prems(1) by simp
    ultimately have "gn_id n \<noteq> gn_id m" by (metis imageI)
    then have "stored_copy e c ?g n = stored_copy e c g n" by (simp add: stored_copy_def get_node_put)
    with Cons.IH[of ?g] Cons.prems(1) n show ?thesis unfolding step by simp
  qed
qed simp

lemma copy_all_links [simp]: "gr_out (copy_all e c g ns) = gr_out g" "gr_in (copy_all e c g ns) = gr_in g"
  by (induction ns arbitrary: g) (simp_all add: copy_all_def add_node_def Let_def)

lemma copy_all_ok [inv_intros]: "graph_ok g \<Longrightarrow> graph_ok (copy_all e c g ns)"
  by (induction ns arbitrary: g) (simp_all add: copy_all_def graph_ok_add)

subsection \<open>The selection\<close>

lemma selected_of_filter: "selected_of c ns = Some ms \<Longrightarrow> ms = filter (\<lambda>n. wants c n = Some True) ns"
  by (induction ns arbitrary: ms) (auto split: option.splits if_splits)

lemma selected_exact:
  assumes "graph_ok g" and "select_nodes c g = Some ns"
  shows "n \<in> set ns \<longleftrightarrow> get_node g (gn_id n) = Some n \<and> wants c n = Some True" and "distinct (map gn_id ns)"
proof -
  have ok: "dict_ok (gr_nodes g)" "\<And>k n. get_node g k = Some n \<Longrightarrow> gn_id n = k"
    using assms(1) by (auto simp: graph_ok_def nodes_ok_def)
  have ns: "ns = filter (\<lambda>n. wants c n = Some True) (dict_values (gr_nodes g))"
    using assms(2) by (simp add: select_nodes_def selected_of_filter)
  then show "n \<in> set ns \<longleftrightarrow> get_node g (gn_id n) = Some n \<and> wants c n = Some True"
    using ok dict_values_get[OF ok(1), of n] by (auto simp: get_node_def)
  have "map gn_id (dict_values (gr_nodes g)) = map fst (gr_nodes g)"
  proof -
    have "gn_id m = k" if "(k, m) \<in> set (gr_nodes g)" for k m using ok that by (simp add: get_node_def)
    then show ?thesis by (auto simp: dict_values_def)
  qed
  then have "distinct (map gn_id (dict_values (gr_nodes g)))" using ok(1) by simp
  then show "distinct (map gn_id ns)" unfolding ns by (rule distinct_map_filter)
qed


lemma get_result_keep [simp]: "get_result (keep_result st r) (mr_config_id r) = Some r"
  by (simp add: get_result_def keep_result_def)

subsection \<open>What a migration does\<close>

text \<open>Every way a run can end.\<close>

lemma run_cases:
  assumes "run_migration e c st = (st', Returned r)"
  obtains "mr_status r = M_FAILED" "ms_graph st' = ms_graph st"
  | ns where "pre_check c = None" "select_nodes c (ms_graph st) = Some ns" "int (length ns) \<le> mc_max_total c"
      "mr_status r = M_COMPLETED" "mr_total r = length ns" "mr_processed r = (if mc_dry_run c then 0 else length ns)"
      "ms_graph st' = (if mc_dry_run c then ms_graph st else copy_all e c (ms_graph st) ns)"
proof (cases "pre_check c")
  case (Some reason)
  with assms that(1) show thesis by (auto simp: run_migration_def end_run_def keep_result_def Let_def)
next
  case None
  then have batch: "0 < nat (mc_batch_size c)" by (auto simp: pre_check_def split: if_splits)
  show thesis
  proof (cases "select_nodes c (ms_graph st)")
    case None
    with \<open>pre_check c = None\<close> assms show thesis by (simp add: run_migration_def Let_def)
  next
    case (Some ns)
    show thesis
    proof (cases "mc_max_total c < int (length ns)")
      case True
      with \<open>pre_check c = None\<close> Some assms that(1) show thesis by (auto simp: run_migration_def end_run_def keep_result_def Let_def)
    next
      case False
      show thesis
      proof (cases "mc_dry_run c")
        case True
        with \<open>pre_check c = None\<close> Some False assms that(2)[of ns] show thesis
          by (auto simp: run_migration_def end_run_def keep_result_def fresh_result_def Let_def)
      next
        case dry: False
        show thesis
        proof (cases "\<forall>n\<in>set ns. me_copyable e n")
          case True
          from copy_batches_chunks[OF batch this] \<open>pre_check c = None\<close> Some False dry True assms that(2)[of ns] show thesis
            by (auto simp: run_migration_def end_run_def keep_result_def Let_def)
        next
          case bad: False
          with \<open>pre_check c = None\<close> Some False dry assms show thesis by (simp add: run_migration_def Let_def)
        qed
      qed
    qed
  qed
qed

text \<open>C39: A migration that returns has failed and changed no node, or was a dry run and changed none either, or it was approved
  where approval is required, kept within its limit, and copied exactly the nodes of the source tenant, group and types:
  each copy is stored under its new id with the content of its source, all other nodes and all links stay as they
  were, and the graph is well formed.\<close>

theorem migration_exact:
  assumes "graph_ok (ms_graph st)" and "run_migration e c st = (st', Returned r)"
  shows "(mr_status r = M_FAILED \<and> ms_graph st' = ms_graph st) \<or>
    (mr_status r = M_COMPLETED \<and> mc_dry_run c \<and> ms_graph st' = ms_graph st) \<or>
    (mr_status r = M_COMPLETED \<and> (mc_require_approval c \<longrightarrow> mc_approved_by c \<noteq> []) \<and> int (mr_total r) \<le> mc_max_total c \<and>
     mr_processed r = mr_total r \<and>
     mr_total r = card {k. \<exists>n. get_node (ms_graph st) k = Some n \<and> wants c n = Some True} \<and>
     (\<forall>n. get_node (ms_graph st) (gn_id n) = Some n \<and> wants c n = Some True \<longrightarrow>
        get_node (ms_graph st') (copy_id c (gn_id n)) = Some (stored_copy e c (ms_graph st) n)) \<and>
     (\<forall>k. (\<nexists>n. get_node (ms_graph st) (gn_id n) = Some n \<and> wants c n = Some True \<and> k = copy_id c (gn_id n)) \<longrightarrow>
        get_node (ms_graph st') k = get_node (ms_graph st) k) \<and>
     gr_out (ms_graph st') = gr_out (ms_graph st) \<and> gr_in (ms_graph st') = gr_in (ms_graph st) \<and> graph_ok (ms_graph st'))"
  using assms(2)
proof (cases rule: run_cases)
  case 1
  then show ?thesis by simp
next
  case (2 ns)
  note sel = selected_exact[OF assms(1) 2(2)]
  have own: "gn_id n = k" if "get_node (ms_graph st) k = Some n" for k n
    using assms(1) that by (simp add: graph_ok_def nodes_ok_def)
  have "{k. \<exists>n. get_node (ms_graph st) k = Some n \<and> wants c n = Some True} = set (map gn_id ns)"
    using sel(1) own by (auto simp: image_iff)
  with distinct_card[OF sel(2)] have card: "card {k. \<exists>n. get_node (ms_graph st) k = Some n \<and> wants c n = Some True} = length ns" by simp
  have approved: "mc_require_approval c \<longrightarrow> mc_approved_by c \<noteq> []" using 2(1) by (auto simp: pre_check_def)
  show ?thesis
  proof (cases "mc_dry_run c")
    case True
    with 2 show ?thesis by simp
  next
    case False
    with 2 have g: "ms_graph st' = copy_all e c (ms_graph st) ns" by simp
    have "k \<notin> copy_id c ` gn_id ` set ns"
      if "\<nexists>n. get_node (ms_graph st) (gn_id n) = Some n \<and> wants c n = Some True \<and> k = copy_id c (gn_id n)" for k
      using that sel(1) by auto
    with False 2 card approved g sel copy_all_other copy_all_copies copy_all_ok[OF assms(1)] show ?thesis by simp
  qed
qed


definition sample_migration :: migration_config where
  "sample_migration = \<lparr> mc_id = ''m1'', mc_template = TENANT_TO_TENANT, mc_source_tenant = ''default'', mc_source_group = [],
     mc_target_tenant = ''acme'', mc_target_group = [], mc_node_types = [''task'', ''output''], mc_batch_size = 1, mc_max_total = 10,
     mc_dry_run = False, mc_require_approval = True, mc_approved_by = ''ann'', mc_requested_by = ''bob'' \<rparr>"

definition sample_migration_env :: migration_env where
  "sample_migration_env = \<lparr> me_hash = (\<lambda>s. s), me_json = (\<lambda>d. []), me_copyable = (\<lambda>n. True), me_now = 5, me_iso = (\<lambda>t. []), me_took = 1 \<rparr>"

definition sample_migration_state :: migration_state where
  "sample_migration_state = \<lparr> ms_graph = sample_graph, ms_migrations = [], ms_audit = [] \<rparr>"

text \<open>Running it is evaluation: both nodes of the sample graph have copies.\<close>

lemma sample_migration_run:
  "case run_migration sample_migration_env sample_migration sample_migration_state of
     (st, Returned r) \<Rightarrow> mr_status r = M_COMPLETED \<and> mr_processed r = 2 \<and> map fst (gr_nodes (ms_graph st)) = [''a'', ''b'', ''acme::a'', ''acme::b'']
   | _ \<Rightarrow> False"
  by code_simp

theorem migration_exact_witness:
  "\<exists>st r. run_migration sample_migration_env sample_migration sample_migration_state = (st, Returned r) \<and> mr_processed r = 2 \<and>
     graph_ok (ms_graph st)"
proof -
  obtain st r where run: "run_migration sample_migration_env sample_migration sample_migration_state = (st, Returned r)"
    and two: "mr_status r = M_COMPLETED" "mr_processed r = 2"
    using sample_migration_run by (auto split: prod.splits run_end.splits)
  have "graph_ok (ms_graph sample_migration_state)" using graph_reach_ok[OF sample_graph_reach] by (simp add: sample_migration_state_def)
  from migration_exact[OF this run] two have "graph_ok (ms_graph st)" by (auto simp: sample_migration_def)
  with run two show ?thesis by blast
qed

subsection \<open>What the safety measures do not do\<close>

text \<open>No run rolls back: a node that cannot be copied makes the snapshot raise first, and the result stays at that step.\<close>

lemma never_rolled_back: "run_migration e c st = (st', Returned r) \<Longrightarrow> mr_status r \<noteq> M_ROLLED_BACK"
  by (erule run_cases) simp_all

lemma uncopyable_node_raises:
  assumes "pre_check c = None" and "select_nodes c (ms_graph st) = Some ns" and "int (length ns) \<le> mc_max_total c"
    and "\<not> mc_dry_run c" and "n \<in> set ns" and "\<not> me_copyable e n"
  shows "snd (run_migration e c st) = Raised \<and>
    (\<exists>r. get_result (fst (run_migration e c st)) (mc_id c) = Some r \<and> mr_status r = M_SNAPSHOT)"
  using assms by (auto simp: run_migration_def Let_def get_result_def keep_result_def fresh_result_def)

text \<open>A node of the source tenant whose groups are no container makes every migration by group raise.\<close>

lemma odd_groups_raise:
  "select_nodes c (ms_graph st) = None \<Longrightarrow> pre_check c = None \<Longrightarrow>
   snd (run_migration e c st) = Raised \<and> ms_graph (fst (run_migration e c st)) = ms_graph st"
  by (simp add: run_migration_def keep_result_def Let_def)

text \<open>The template is only a word in the log.\<close>

lemma template_ignored:
  "ms_graph (fst (run_migration e (c\<lparr>mc_template := t\<rparr>) st)) = ms_graph (fst (run_migration e c st))"
proof -
  have same: "pre_check (c\<lparr>mc_template := t\<rparr>) = pre_check c" by (simp add: pre_check_def)
  have "wants (c\<lparr>mc_template := t\<rparr>) n = wants c n" for n by (simp add: wants_def)
  then have "selected_of (c\<lparr>mc_template := t\<rparr>) ns = selected_of c ns" for ns by (induction ns) (simp_all split: option.split)
  then have sel: "select_nodes (c\<lparr>mc_template := t\<rparr>) g = select_nodes c g" for g by (simp add: select_nodes_def)
  have one: "migrated_copy (c\<lparr>mc_template := t\<rparr>) n = migrated_copy c n" for n by (simp add: migrated_copy_def copy_id_def Let_def)
  have "copy_batch e (c\<lparr>mc_template := t\<rparr>) g ns = copy_batch e c g ns" for g ns by (induction ns arbitrary: g) (simp_all add: one)
  then have "copy_batches e (c\<lparr>mc_template := t\<rparr>) g bs k = copy_batches e c g bs k" for g bs k
    by (induction bs arbitrary: g k) (simp_all)
  with same sel show ?thesis
    by (simp add: run_migration_def end_run_def keep_result_def fresh_result_def Let_def split: option.split prod.split)
qed

text \<open>Without a target group a copy keeps the groups of the tenant it came from.\<close>

lemma copy_keeps_groups:
  "mc_target_group c = [] \<Longrightarrow> dict_get (gn_metadata (migrated_copy c n)) ''group_ids'' = dict_get (gn_metadata n) ''group_ids''"
  by (simp add: migrated_copy_def Let_def)

text \<open>A migration into a group of the same tenant selects its own copies the next time.\<close>

lemma copies_selected_again:
  "mc_source_tenant c = mc_target_tenant c \<Longrightarrow> mc_source_group c = [] \<Longrightarrow> wants c n = Some True \<Longrightarrow> wants c (migrated_copy c n) = Some True"
  by (auto simp: wants_def migrated_copy_def Let_def split: if_splits)

end
