(* ===== verification/Backup.thy ===== *)
theory Backup
  imports Py_Value
begin

section \<open>Backups (core/backup)\<close>

text \<open>
  Snapshots of the components, the manifest, the archive, retention, the schedule, and the restore with its check of
  checksums. Parameters: the hash, the tools of the databases, the text of the JSON marker, the size of an
  archive and the clock. Left out: the compression, the JSON text of the manifest, the times and modes of members, and
  failures of the file system other than missing sources.
\<close>

subsection \<open>Files\<close>

record source_file =
  sf_path :: "string list"
  sf_bytes :: string
  sf_mtime :: int

record source_dir =
  sd_parts :: "string list"
  sd_files :: "source_file list"

text \<open>Paths are compared part by part; names of archive members as texts.\<close>

fun parts_cmp :: "string list \<Rightarrow> string list \<Rightarrow> ordering" where
  "parts_cmp [] [] = Equal"
| "parts_cmp [] (q # qs) = Less"
| "parts_cmp (p # ps) [] = Greater"
| "parts_cmp (p # ps) (q # qs) = (case str_cmp p q of Equal \<Rightarrow> parts_cmp ps qs | r \<Rightarrow> r)"

fun insert_cmp :: "('a \<Rightarrow> 'a \<Rightarrow> ordering) \<Rightarrow> 'a \<Rightarrow> 'a list \<Rightarrow> 'a list" where
  "insert_cmp cmp x [] = [x]"
| "insert_cmp cmp x (y # ys) = (if cmp y x = Less then y # insert_cmp cmp x ys else x # y # ys)"

definition sort_cmp :: "('a \<Rightarrow> 'a \<Rightarrow> ordering) \<Rightarrow> 'a list \<Rightarrow> 'a list" where
  "sort_cmp cmp xs = foldr (insert_cmp cmp) xs []"

fun split_slash :: "string \<Rightarrow> string list" where
  "split_slash [] = [[]]"
| "split_slash (c # s) = (if c = CHR ''/'' then [] # split_slash s else case split_slash s of [] \<Rightarrow> [[c]] | p # ps \<Rightarrow> (c # p) # ps)"

text \<open>The parts of a path: empty parts and single dots are dropped.\<close>

definition path_parts :: "string \<Rightarrow> string list" where
  "path_parts s = filter (\<lambda>p. p \<noteq> [] \<and> p \<noteq> ''.'') (split_slash s)"

abbreviation slashed :: "string list \<Rightarrow> string" where
  "slashed \<equiv> join_with ''/''"

subsection \<open>The manifest (manifest.py)\<close>

record component_info =
  ci_name :: string
  ci_included :: bool
  ci_file_count :: nat
  ci_total_bytes :: nat
  ci_sha256 :: string
  ci_extra :: pydict

record backup_manifest =
  bm_id :: string
  bm_created_at :: string
  bm_backend :: string
  bm_components :: "(string, component_info) dict"
  bm_size :: nat

definition verify_component_checksum :: "backup_manifest \<Rightarrow> string \<Rightarrow> string \<Rightarrow> bool" where
  "verify_component_checksum m name actual =
     (case dict_get (bm_components m) name of
        None \<Rightarrow> True
      | Some c \<Rightarrow> if \<not> ci_included c then True else ci_sha256 c = actual)"

subsection \<open>Snapshots (sources.py)\<close>

text \<open>What a snapshot leaves in the working directory: the name of its directory and its files.\<close>

type_synonym dest_dir = "string \<times> (string list \<times> string) list"

definition dir_checksum :: "(string \<Rightarrow> string) \<Rightarrow> (string list \<times> string) list \<Rightarrow> string" where
  "dir_checksum hash fs = hash (concat (map (\<lambda>(p, b). slashed p @ b) (sort_cmp (\<lambda>f g. parts_cmp (fst f) (fst g)) fs)))"

definition missing :: "string \<Rightarrow> pydict \<Rightarrow> component_info" where
  "missing name extra = \<lparr> ci_name = name, ci_included = False, ci_file_count = 0, ci_total_bytes = 0, ci_sha256 = [], ci_extra = extra \<rparr>"

definition bytes_of :: "(string list \<times> string) list \<Rightarrow> nat" where
  "bytes_of fs = sum_list (map (length \<circ> snd) fs)"

definition copied :: "source_file list \<Rightarrow> (string list \<times> string) list" where
  "copied fs = map (\<lambda>f. (sf_path f, sf_bytes f)) fs"

definition snapshot_graph_json :: "(string \<Rightarrow> string) \<Rightarrow> source_dir option \<Rightarrow> component_info \<times> dest_dir list" where
  "snapshot_graph_json hash src =
     (case src of
        None \<Rightarrow> (missing ''graph'' [(''reason'', PStr ''source_dir not found'')], [])
      | Some d \<Rightarrow>
          (let fs = copied (sd_files d)
           in (\<lparr> ci_name = ''graph'', ci_included = True, ci_file_count = length fs, ci_total_bytes = bytes_of fs,
                 ci_sha256 = dir_checksum hash fs, ci_extra = [(''source_dir'', PStr (slashed (sd_parts d))), (''format'', PStr ''json'')] \<rparr>,
               [(''graph'', fs)])))"

definition single_file :: "(string \<Rightarrow> string) \<Rightarrow> string \<Rightarrow> string \<Rightarrow> pydict \<Rightarrow> component_info" where
  "single_file hash name bytes extra =
     \<lparr> ci_name = name, ci_included = True, ci_file_count = 1, ci_total_bytes = length bytes, ci_sha256 = hash bytes, ci_extra = extra \<rparr>"

text \<open>\<open>vacuum\<close> is the file \<open>VACUUM INTO\<close> writes, None when it raises: then the database file is copied.\<close>

definition snapshot_graph_sqlite :: "(string \<Rightarrow> string) \<Rightarrow> string \<Rightarrow> (string \<times> string option) option \<Rightarrow> component_info \<times> dest_dir list" where
  "snapshot_graph_sqlite hash db_path src =
     (case src of
        None \<Rightarrow> (missing ''graph'' [(''reason'', PStr ''db file not found'')], [])
      | Some (db, vacuum) \<Rightarrow>
          (let out = (case vacuum of None \<Rightarrow> db | Some v \<Rightarrow> v)
           in (single_file hash ''graph'' out
                 [(''source_path'', PStr db_path), (''format'', PStr ''sqlite''), (''method'', PStr ''vacuum_or_copy'')],
               [(''graph'', [([''graph.db''], out)])])))"

text \<open>\<open>dump\<close> is what \<open>pg_dump\<close> writes, or the message of its failure and the placeholder written for it.\<close>

definition snapshot_graph_postgres :: "(string \<Rightarrow> string) \<Rightarrow> pydict \<Rightarrow> (string \<times> string) + string \<Rightarrow> component_info \<times> dest_dir list" where
  "snapshot_graph_postgres hash conn dump =
     (case dump of
        Inr out \<Rightarrow>
          (single_file hash ''graph'' out
             [(''host'', dict_get_or conn ''host'' PNone), (''database'', dict_get_or conn ''database'' PNone), (''format'', PStr ''postgres''),
              (''method'', PStr ''pg_dump'')],
           [(''graph'', [([''graph.dump''], out)])])
      | Inl (msg, placeholder) \<Rightarrow>
          (single_file hash ''graph'' placeholder
             [(''format'', PStr ''postgres''), (''method'', PStr ''fallback''), (''warning'', PStr msg)],
           [(''graph'', [([''graph.dump''], placeholder)])]))"

definition day_us :: int where
  "day_us = 86400000000"

definition audit_wanted :: "int \<Rightarrow> int \<Rightarrow> source_file \<Rightarrow> bool" where
  "audit_wanted now retention_days f =
     (case sf_path f of
        [name] \<Rightarrow> prefix ''audit-'' name \<and> suffix ''.jsonl'' name \<and> 12 \<le> length name \<and> \<not> sf_mtime f < now - retention_days * day_us
      | _ \<Rightarrow> False)"

definition snapshot_audit_logs :: "(string \<Rightarrow> string) \<Rightarrow> int \<Rightarrow> source_dir option \<Rightarrow> int \<Rightarrow> component_info \<times> dest_dir list" where
  "snapshot_audit_logs hash now src retention_days =
     (case src of
        None \<Rightarrow> (missing ''audit'' [(''reason'', PStr ''audit dir not found'')], [])
      | Some d \<Rightarrow>
          (let fs = copied (filter (audit_wanted now retention_days) (sd_files d))
           in (\<lparr> ci_name = ''audit'', ci_included = True, ci_file_count = length fs, ci_total_bytes = bytes_of fs,
                 ci_sha256 = (if fs = [] then [] else dir_checksum hash fs),
                 ci_extra = [(''source_dir'', PStr (slashed (sd_parts d))), (''retention_days'', PInt retention_days)] \<rparr>,
               [(''audit'', fs)])))"

definition agent_file :: "string list \<Rightarrow> string \<Rightarrow> source_file \<Rightarrow> bool" where
  "agent_file src_parts ext f \<longleftrightarrow>
     sf_path f \<noteq> [] \<and> suffix ext (last (sf_path f)) \<and> ''__pycache__'' \<notin> set (src_parts @ sf_path f)"

definition snapshot_custom_agents :: "(string \<Rightarrow> string) \<Rightarrow> source_dir option \<Rightarrow> component_info \<times> dest_dir list" where
  "snapshot_custom_agents hash src =
     (case src of
        None \<Rightarrow> (missing ''custom_agents'' [], [])
      | Some d \<Rightarrow>
          (let fs = copied (concat (map (\<lambda>ext. filter (agent_file (sd_parts d) ext) (sd_files d)) [''.py'', ''.yaml'', ''.yml'', ''.json'']))
           in (\<lparr> ci_name = ''custom_agents'', ci_included = True, ci_file_count = length fs, ci_total_bytes = bytes_of fs,
                 ci_sha256 = (if fs = [] then [] else dir_checksum hash fs), ci_extra = [(''source_dir'', PStr (slashed (sd_parts d)))] \<rparr>,
               [(''custom-agents'', fs)])))"

text \<open>The task store: no path is configured, the file is missing, or its name and bytes.\<close>

datatype task_source = No_path | No_file | Task_file string string string

definition snapshot_tasks :: "(string \<Rightarrow> string) \<Rightarrow> string \<Rightarrow> task_source \<Rightarrow> component_info \<times> dest_dir list" where
  "snapshot_tasks hash marker src =
     (case src of
        No_path \<Rightarrow> (single_file hash ''tasks'' marker [(''format'', PStr ''in_memory'')], [(''tasks'', [([''store.json''], marker)])])
      | No_file \<Rightarrow> (missing ''tasks'' [(''reason'', PStr ''task store file not found'')], [(''tasks'', [])])
      | Task_file path name bytes \<Rightarrow>
          (single_file hash ''tasks'' bytes [(''format'', PStr ''file''), (''source_path'', PStr path)], [(''tasks'', [([name], bytes)])]))"

subsection \<open>A backup (scheduler.py)\<close>

record backup_config =
  bc_enabled :: bool
  bc_schedule :: string
  bc_backup_dir :: string
  bc_retention_days :: int
  bc_include_graph :: bool
  bc_include_audit :: bool
  bc_include_agents :: bool
  bc_include_tasks :: bool
  bc_audit_retention_days :: int
  bc_json_dir :: string
  bc_sqlite_path :: "string option"
  bc_audit_dir :: string
  bc_agents_dir :: string

definition env_get :: "(string, string) dict \<Rightarrow> string \<Rightarrow> string \<Rightarrow> string" where
  "env_get env k dflt = dict_get_or env k dflt"

text \<open>None: a retention that is no number raises.\<close>

definition load_backup_config_from_env :: "(string, string) dict \<Rightarrow> backup_config option" where
  "load_backup_config_from_env env =
     (case py_int (env_get env ''AGENT_BACKUP_RETENTION_DAYS'' ''7'') of
        None \<Rightarrow> None
      | Some days \<Rightarrow> Some
          \<lparr> bc_enabled = (lower (env_get env ''AGENT_BACKUP_ENABLED'' ''true'') \<in> {''1'', ''true'', ''yes''}),
            bc_schedule = env_get env ''AGENT_BACKUP_SCHEDULE_CRON'' ''0 2 * * *'',
            bc_backup_dir = env_get env ''AGENT_BACKUP_DIR'' ''./data/backup'', bc_retention_days = days,
            bc_include_graph = True, bc_include_audit = True, bc_include_agents = True, bc_include_tasks = True,
            bc_audit_retention_days = 7, bc_json_dir = env_get env ''AGENT_JSON_DIR'' ''./data/graph'',
            bc_sqlite_path = dict_get env ''AGENT_SQLITE_PATH'',
            bc_audit_dir = env_get env ''AGENT_AUDIT_LOG_DIR'' ''./data/audit'',
            bc_agents_dir = env_get env ''AGENT_CUSTOM_AGENTS_DIR'' ''./data/custom_agents'' \<rparr>)"

text \<open>What lies under the paths of the configuration.\<close>

record backup_sources =
  bs_graph :: "source_dir option"
  bs_sqlite :: "(string \<times> string option) option"
  bs_postgres :: "pydict option"
  bs_dump :: "(string \<times> string) + string"
  bs_audit :: "source_dir option"
  bs_agents :: "source_dir option"
  bs_tasks :: task_source

datatype manifest_part = No_manifest | Bad_manifest | Manifest backup_manifest

text \<open>A member of an archive is a directory or a file with its bytes.\<close>

record archive =
  ar_manifest :: manifest_part
  ar_members :: "(string \<times> string option) list"

record backup_env =
  be_hash :: "string \<Rightarrow> string"
  be_marker :: string
  be_id :: string
  be_created :: string
  be_size :: "archive \<Rightarrow> nat"
  be_now :: int
  be_written :: int
  be_cleanup :: int

type_synonym backup_dir = "(string, archive \<times> int) dict"

definition snapshot_graph :: "backup_env \<Rightarrow> backup_config \<Rightarrow> string \<Rightarrow> backup_sources \<Rightarrow> component_info \<times> dest_dir list" where
  "snapshot_graph e c backend s =
     (if backend = ''json'' then snapshot_graph_json (be_hash e) (bs_graph s)
      else if backend = ''sqlite'' \<and> (case bc_sqlite_path c of None \<Rightarrow> False | Some p \<Rightarrow> p \<noteq> [])
      then snapshot_graph_sqlite (be_hash e) (the (bc_sqlite_path c)) (bs_sqlite s)
      else if backend = ''postgres'' \<and> (case bs_postgres s of None \<Rightarrow> False | Some d \<Rightarrow> d \<noteq> [])
      then snapshot_graph_postgres (be_hash e) (the (bs_postgres s)) (bs_dump s)
      else (missing ''graph'' [(''reason'', PStr ''no source configured'')], []))"

definition snapshots :: "backup_env \<Rightarrow> backup_config \<Rightarrow> string \<Rightarrow> backup_sources \<Rightarrow> (component_info \<times> dest_dir list) list" where
  "snapshots e c backend s =
     (if bc_include_graph c then [snapshot_graph e c backend s] else []) @
     (if bc_include_audit c then [snapshot_audit_logs (be_hash e) (be_now e) (bs_audit s) (bc_audit_retention_days c)] else []) @
     (if bc_include_agents c then [snapshot_custom_agents (be_hash e) (bs_agents s)] else []) @
     (if bc_include_tasks c then [snapshot_tasks (be_hash e) (be_marker e) (bs_tasks s)] else [])"

text \<open>The directories between a component and a file.\<close>

definition parents :: "string list \<Rightarrow> string list list" where
  "parents p = map (\<lambda>n. take n p) [1..<length p]"

definition dir_members :: "dest_dir \<Rightarrow> (string \<times> string option) list" where
  "dir_members = (\<lambda>(name, fs).
     (slashed [''components'', name], None) #
     map (\<lambda>d. (slashed (''components'' # name # d), None)) (remdups (concat (map (parents \<circ> fst) fs))) @
     map (\<lambda>(p, b). (slashed (''components'' # name # p), Some b)) fs)"

definition archive_of :: "bool \<Rightarrow> backup_manifest \<Rightarrow> dest_dir list \<Rightarrow> archive" where
  "archive_of graph_on m ds =
     \<lparr> ar_manifest = Manifest m,
       ar_members = (if graph_on \<or> ds \<noteq> [] then (''components'', None) # concat (map dir_members ds) else []) \<rparr>"

definition apply_retention :: "backup_dir \<Rightarrow> int \<Rightarrow> int \<Rightarrow> backup_dir \<times> nat" where
  "apply_retention bd now retention_days =
     (let old = (\<lambda>(name, (a, mtime)). prefix ''backup-'' name \<and> suffix ''.tar.gz'' name \<and> 14 \<le> length name \<and>
                   mtime < now - retention_days * day_us)
      in (filter (\<lambda>x. \<not> old x) bd, length (filter old bd)))"

definition create_backup :: "backup_env \<Rightarrow> backup_config \<Rightarrow> string \<Rightarrow> backup_sources \<Rightarrow> backup_dir \<Rightarrow> backup_dir \<times> backup_manifest" where
  "create_backup e c backend s bd =
     (let snaps = snapshots e c backend s; ds = concat (map snd snaps);
          m0 = \<lparr> bm_id = be_id e, bm_created_at = be_created e, bm_backend = backend,
                 bm_components = map (\<lambda>(ci, _). (ci_name ci, ci)) snaps, bm_size = 0 \<rparr>;
          m = m0\<lparr>bm_size := be_size e (archive_of (bc_include_graph c) m0 ds)\<rparr>;
          bd1 = dict_set bd (be_id e @ ''.tar.gz'') (archive_of (bc_include_graph c) m ds, be_written e)
      in (fst (apply_retention bd1 (be_cleanup e) (bc_retention_days c)), m))"

text \<open>The seconds to the next backup; \<open>ws\<close> are the words of the schedule, \<open>now\<close> the microseconds since midnight.\<close>

definition seconds_until_next_cron :: "string list \<Rightarrow> int \<Rightarrow> rat" where
  "seconds_until_next_cron ws now =
     (case ws of
        m # h # _ \<Rightarrow>
          (case (py_int m, if h = ''*'' then Some (now div 3600000000) else py_int h) of
             (Some minute, Some hour) \<Rightarrow>
               if 0 \<le> minute \<and> minute \<le> 59 \<and> 0 \<le> hour \<and> hour \<le> 23
               then let target = hour * 3600000000 + minute * 60000000;
                        wait = (if target \<le> now then target + day_us else target) - now
                    in max 60 (of_int wait / 1000000)
               else 3600
           | _ \<Rightarrow> 3600)
      | _ \<Rightarrow> 3600)"

subsection \<open>A restore (restore.py)\<close>

record restore_report =
  rp_verified :: bool
  rp_manifest :: "backup_manifest option"
  rp_restored :: "string list"
  rp_errors :: "string list"

definition member_prefix :: "string \<Rightarrow> string" where
  "member_prefix name = ''components/'' @ name"

definition recompute_checksum :: "(string \<Rightarrow> string) \<Rightarrow> archive \<Rightarrow> string \<Rightarrow> string" where
  "recompute_checksum hash a name =
     hash (concat (map (\<lambda>(n, b). drop (length (member_prefix name) + 1) n @ b)
       (sort_cmp (\<lambda>f g. str_cmp (fst f) (fst g))
         (List.map_filter (\<lambda>(n, b). case b of Some bytes \<Rightarrow> if prefix (member_prefix name @ ''/'') n then Some (n, bytes) else None | None \<Rightarrow> None)
           (ar_members a)))))"

definition check_component :: "(string \<Rightarrow> string) \<Rightarrow> archive \<Rightarrow> string \<Rightarrow> component_info \<Rightarrow> string list" where
  "check_component hash a name ci =
     (if \<not> ci_included ci then []
      else if \<not> (\<exists>x\<in>set (ar_members a). prefix (member_prefix name) (fst x)) then []
      else let actual = recompute_checksum hash a name in
           if actual \<noteq> ci_sha256 ci
           then [''component '' @ name @ '' checksum mismatch: expected '' @ take 16 (ci_sha256 ci) @ ''..., got '' @ take 16 actual @ ''...'']
           else [])"

text \<open>A target directory and a member: an absolute rest replaces the directory.\<close>

definition target_path :: "string list \<Rightarrow> string \<Rightarrow> string list" where
  "target_path target rel = (if prefix ''/'' rel then path_parts rel else target @ path_parts rel)"

type_synonym written = "(string list \<times> string option) list"

definition restore_member :: "string list \<Rightarrow> string list option \<Rightarrow> written \<times> string list \<Rightarrow> string \<times> string option \<Rightarrow> written \<times> string list" where
  "restore_member target wanted acc m =
     (case (acc, m) of
        ((ws, names), (name, b)) \<Rightarrow>
          if \<not> prefix ''components/'' name then (ws, names)
          else let rel = drop 11 name; comp = takeWhile (\<lambda>c. c \<noteq> CHR ''/'') rel
               in if (case wanted of None \<Rightarrow> False | Some cs \<Rightarrow> comp \<notin> set cs) then (ws, names)
                  else (ws @ [(target_path target rel, b)], if comp \<in> set names then names else names @ [comp]))"

text \<open>The report, and what was made under the target: directories (None) and files. An empty list of components is all of them.\<close>

definition restore_from_tar ::
  "(string \<Rightarrow> string) \<Rightarrow> string \<Rightarrow> archive option \<Rightarrow> string list \<Rightarrow> bool \<Rightarrow> string list option \<Rightarrow> restore_report \<times> written" where
  "restore_from_tar hash tar_path src target verify wanted =
     (let r0 = \<lparr> rp_verified = False, rp_manifest = None, rp_restored = [], rp_errors = [] \<rparr> in
      case src of
        None \<Rightarrow> (r0\<lparr>rp_errors := [''tarball not found: '' @ tar_path]\<rparr>, [])
      | Some a \<Rightarrow>
          (case ar_manifest a of
             No_manifest \<Rightarrow> (r0\<lparr>rp_errors := [''manifest.json not found in tarball'']\<rparr>, [])
           | Bad_manifest \<Rightarrow> (r0\<lparr>rp_errors := [''restore failed'']\<rparr>, [])
           | Manifest m \<Rightarrow>
               (let errors = (if verify then concat (map (\<lambda>(k, ci). check_component hash a k ci) (bm_components m)) else []);
                    r1 = r0\<lparr>rp_manifest := Some m, rp_verified := verify \<and> errors = [], rp_errors := errors\<rparr>
                in if verify \<and> errors \<noteq> [] then (r1, [])
                   else let (ws, names) = foldl (restore_member target (case wanted of Some [] \<Rightarrow> None | _ \<Rightarrow> wanted)) ([], []) (ar_members a)
                        in (r1\<lparr>rp_restored := names\<rparr>, ws))))"

definition restore_exit_code :: "restore_report \<Rightarrow> int" where
  "restore_exit_code r = (if rp_errors r \<noteq> [] then 1 else if rp_verified r then 0 else 2)"

subsection \<open>Names and parts\<close>

definition name_ok :: "string \<Rightarrow> bool" where
  "name_ok p \<longleftrightarrow> p \<noteq> [] \<and> p \<noteq> ''.'' \<and> CHR ''/'' \<notin> set p"

lemma split_slash_name [simp]: "CHR ''/'' \<notin> set p \<Longrightarrow> split_slash p = [p]"
  by (induction p) auto

lemma split_slash_append [simp]: "CHR ''/'' \<notin> set p \<Longrightarrow> split_slash (p @ CHR ''/'' # s) = p # split_slash s"
  by (induction p) auto

lemma path_parts_slashed: "list_all name_ok ps \<Longrightarrow> ps \<noteq> [] \<Longrightarrow> path_parts (slashed ps) = ps"
  by (induction "''/''" ps rule: join_with.induct) (auto simp: path_parts_def name_ok_def)

lemma slashed_Cons: "ps \<noteq> [] \<Longrightarrow> slashed (p # ps) = p @ ''/'' @ slashed ps"
  by (cases ps) simp_all

lemma set_sort_cmp [simp]: "set (sort_cmp cmp xs) = set xs"
proof -
  have "set (insert_cmp cmp x ys) = insert x (set ys)" for x ys by (induction ys) auto
  then show ?thesis by (induction xs) (simp_all add: sort_cmp_def)
qed

lemma drop_components: "ps \<noteq> [] \<Longrightarrow> drop 11 (slashed (''components'' # ps)) = slashed ps"
  by (simp add: slashed_Cons)

lemma prefix_components: "ps \<noteq> [] \<Longrightarrow> prefix ''components/'' (slashed (''components'' # ps))"
  by (simp add: slashed_Cons)

lemma slashed_not_absolute: "list_all name_ok ps \<Longrightarrow> ps \<noteq> [] \<Longrightarrow> \<not> prefix ''/'' (slashed ps)"
  by (cases ps rule: list.exhaust; cases "tl ps") (auto simp: slashed_Cons name_ok_def prefix_def Cons_eq_append_conv append_eq_Cons_conv)

lemma target_path_slashed: "list_all name_ok ps \<Longrightarrow> ps \<noteq> [] \<Longrightarrow> target_path t (slashed ps) = t @ ps"
  by (simp add: target_path_def slashed_not_absolute path_parts_slashed)

subsection \<open>A restore undoes a backup\<close>

definition dir_ok :: "dest_dir \<Rightarrow> bool" where
  "dir_ok = (\<lambda>(name, fs). name_ok name \<and> (\<forall>(p, b)\<in>set fs. p \<noteq> [] \<and> list_all name_ok p))"

abbreviation file_writes :: "written \<Rightarrow> written" where
  "file_writes ws \<equiv> filter (\<lambda>(p, b). b \<noteq> None) ws"

lemma restore_members:
  "fst (foldl (restore_member t None) (ws, names) ms) = ws @ concat (map (\<lambda>m. fst (restore_member t None ([], []) m)) ms)"
proof (induction ms arbitrary: ws names)
  case (Cons m ms)
  obtain name b where m: "m = (name, b)" by (cases m)
  have one: "fst (restore_member t None (ws, names) m) = ws @ fst (restore_member t None ([], []) m)"
    by (simp add: restore_member_def m Let_def)
  obtain ws' names' where step: "restore_member t None (ws, names) m = (ws', names')" by fastforce
  with one Cons.IH[of ws' names'] show ?case by simp
qed simp

lemma restore_file: "list_all name_ok ps \<Longrightarrow> ps \<noteq> [] \<Longrightarrow>
  fst (restore_member t None ([], []) (slashed (''components'' # ps), b)) = [(t @ ps, b)]"
  unfolding restore_member_def by (simp add: Let_def prefix_components drop_components target_path_slashed del: join_with.simps)

lemma parents_ok: "list_all name_ok p \<Longrightarrow> d \<in> set (parents p) \<Longrightarrow> list_all name_ok d"
  by (auto simp: parents_def list_all_iff dest: in_set_takeD)

lemma file_writes_dir:
  assumes "dir_ok (name, fs)"
  shows "file_writes (concat (map (\<lambda>m. fst (restore_member t None ([], []) m)) (dir_members (name, fs)))) =
    map (\<lambda>(p, b). (t @ name # p, Some b)) fs"
proof -
  let ?r = "\<lambda>m. fst (restore_member t None ([], []) m)"
  have name: "list_all name_ok [name]" using assms by (simp add: dir_ok_def)
  have files: "concat (map ?r (map (\<lambda>(p, b). (slashed (''components'' # name # p), Some b)) fs)) = map (\<lambda>(p, b). (t @ name # p, Some b)) fs"
    using assms by (induction fs) (auto simp: dir_ok_def restore_file simp del: join_with.simps)
  have dirs: "file_writes (concat (map ?r (map (\<lambda>d. (slashed (''components'' # name # d), None)) ds))) = []"
    if "\<forall>d\<in>set ds. list_all name_ok d" for ds
    using that name by (induction ds) (simp_all add: restore_file del: join_with.simps)
  have "\<forall>d\<in>set (remdups (concat (map (parents \<circ> fst) fs))). list_all name_ok d"
    using assms parents_ok by (fastforce simp: dir_ok_def)
  note dirs[OF this]
  moreover have "?r (slashed [''components'', name], None) = [(t @ [name], None)]" using restore_file[OF name] by simp
  moreover have "file_writes (map (\<lambda>(p, b). (t @ name # p, Some b)) fs) = map (\<lambda>(p, b). (t @ name # p, Some b)) fs"
    by (induction fs) auto
  ultimately show ?thesis unfolding dir_members_def split_conv using files
    by (simp only: list.map concat.simps map_append concat_append filter_append append_Nil) simp
qed

text \<open>The files of a backup, under the directories of their components.\<close>

definition snapshot_dirs :: "backup_env \<Rightarrow> backup_config \<Rightarrow> string \<Rightarrow> backup_sources \<Rightarrow> dest_dir list" where
  "snapshot_dirs e c backend s = concat (map snd (snapshots e c backend s))"

definition backup_files :: "dest_dir list \<Rightarrow> (string list \<times> string) list" where
  "backup_files ds = concat (map (\<lambda>(name, fs). map (\<lambda>(p, b). (name # p, b)) fs) ds)"

lemma file_writes_dirs:
  "list_all dir_ok ds \<Longrightarrow>
   file_writes (concat (map (\<lambda>m. fst (restore_member t None ([], []) m)) (concat (map dir_members ds)))) =
   map (\<lambda>(p, b). (t @ p, Some b)) (backup_files ds)"
proof (induction ds)
  case (Cons d ds)
  obtain name fs where d: "d = (name, fs)" by (cases d)
  from Cons d have "dir_ok (name, fs)" by simp
  from file_writes_dir[OF this, of t] Cons d show ?case
    by (simp add: backup_files_def case_prod_unfold comp_def)
qed (simp add: backup_files_def)

lemma restored_files:
  assumes "list_all dir_ok ds"
  shows "file_writes (fst (foldl (restore_member t None) ([], []) (ar_members (archive_of graph_on m ds)))) =
    map (\<lambda>(p, b). (t @ p, Some b)) (backup_files ds)"
proof -
  have "restore_member t None ([], []) (''components'', None) = ([], [])" by (simp add: restore_member_def)
  with file_writes_dirs[OF assms, of t] show ?thesis
    by (cases "graph_on \<or> ds \<noteq> []") (auto simp: restore_members archive_of_def backup_files_def)
qed

text \<open>File names are names: not empty, no dot, no slash.\<close>

definition sources_ok :: "backup_sources \<Rightarrow> bool" where
  "sources_ok s \<longleftrightarrow>
     (\<forall>d \<in> set_option (bs_graph s) \<union> set_option (bs_audit s) \<union> set_option (bs_agents s).
        \<forall>f\<in>set (sd_files d). sf_path f \<noteq> [] \<and> list_all name_ok (sf_path f)) \<and>
     (case bs_tasks s of Task_file path name bytes \<Rightarrow> name_ok name | _ \<Rightarrow> True)"

lemma component_names [simp]: "name_ok ''graph''" "name_ok ''audit''" "name_ok ''custom-agents''" "name_ok ''tasks''"
    "name_ok ''graph.db''" "name_ok ''graph.dump''" "name_ok ''store.json''"
  by (simp_all add: name_ok_def)

lemma dir_ok_copied: "name_ok name \<Longrightarrow> \<forall>f\<in>set fs. sf_path f \<noteq> [] \<and> list_all name_ok (sf_path f) \<Longrightarrow> dir_ok (name, copied fs)"
  by (auto simp: dir_ok_def copied_def)

lemma snapshot_dirs_ok: "sources_ok s \<Longrightarrow> list_all dir_ok (snapshot_dirs e c backend s)"
proof -
  assume ok: "sources_ok s"
  then have json: "list_all dir_ok (snd (snapshot_graph_json h (bs_graph s)))"
    and audit: "list_all dir_ok (snd (snapshot_audit_logs h n (bs_audit s) days))"
    and agents: "list_all dir_ok (snd (snapshot_custom_agents h (bs_agents s)))" for h n days
    by (cases "bs_graph s"; cases "bs_audit s"; cases "bs_agents s";
        auto simp: snapshot_graph_json_def snapshot_audit_logs_def snapshot_custom_agents_def Let_def sources_ok_def intro!: dir_ok_copied)+
  have tasks: "list_all dir_ok (snd (snapshot_tasks h mk (bs_tasks s)))" for h mk
    using ok by (cases "bs_tasks s") (auto simp: snapshot_tasks_def sources_ok_def dir_ok_def)
  have sqlite: "list_all dir_ok (snd (snapshot_graph_sqlite h p (bs_sqlite s)))" for h p
    by (auto simp: snapshot_graph_sqlite_def Let_def dir_ok_def split: option.split)
  have postgres: "list_all dir_ok (snd (snapshot_graph_postgres h d (bs_dump s)))" for h d
    by (auto simp: snapshot_graph_postgres_def dir_ok_def split: sum.split)
  have "list_all dir_ok (snd (snapshot_graph e c backend s))"
    using json sqlite postgres by (simp add: snapshot_graph_def)
  then show ?thesis using audit agents tasks by (simp add: snapshot_dirs_def snapshots_def)
qed

lemma kept_backup:
  assumes "dict_ok bd" and "create_backup e c backend s bd = (bd', m)" and "dict_get bd' (be_id e @ ''.tar.gz'') = Some (a, t)"
  shows "a = archive_of (bc_include_graph c) m (snapshot_dirs e c backend s)"
proof -
  let ?k = "be_id e @ ''.tar.gz''"
  obtain P where f: "fst (apply_retention b n d) = filter (\<lambda>(k, v). P n d k v) b" for b n d
    by (auto simp: apply_retention_def Let_def case_prod_unfold)
  show ?thesis using assms
    by (auto simp: create_backup_def Let_def f dict_get_filter snapshot_dirs_def split: if_splits)
qed

text \<open>C18: A restore undoes a backup: from the archive a backup left, after its retention, a restore of all components either
  refuses it because a checksum differs, and then writes nothing, or writes exactly the files that were
  copied, each with its bytes under the directory of its component; for a graph in files these are all its files.
  Without the check of checksums it never refuses.\<close>

theorem restore_undoes_backup:
  assumes "sources_ok s" and "dict_ok bd" and "create_backup e c backend s bd = (bd', m)"
    and "dict_get bd' (be_id e @ ''.tar.gz'') = Some (a, t)"
    and "restore_from_tar hash tar_path (Some a) target verify None = (r, ws)"
  shows "rp_manifest r = Some m \<and>
    ((verify \<and> rp_errors r \<noteq> [] \<and> \<not> rp_verified r \<and> ws = []) \<or>
     (rp_errors r = [] \<and> rp_verified r = verify \<and>
      file_writes ws = map (\<lambda>(p, b). (target @ p, Some b)) (backup_files (snapshot_dirs e c backend s)) \<and>
      (\<forall>d f. bc_include_graph c \<and> backend = ''json'' \<and> bs_graph s = Some d \<and> f \<in> set (sd_files d) \<longrightarrow>
         (target @ ''graph'' # sf_path f, Some (sf_bytes f)) \<in> set ws)))"
proof -
  let ?ds = "snapshot_dirs e c backend s"
  have a: "a = archive_of (bc_include_graph c) m ?ds" by (rule kept_backup[OF assms(2,3,4)])
  obtain ws' names where fold: "foldl (restore_member target None) ([], []) (ar_members a) = (ws', names)" by fastforce
  have files: "file_writes ws' = map (\<lambda>(p, b). (target @ p, Some b)) (backup_files ?ds)"
    using restored_files[OF snapshot_dirs_ok[OF assms(1), of e c backend], of target "bc_include_graph c" m, folded a] fold by simp
  have graph: "(target @ ''graph'' # sf_path f, Some (sf_bytes f)) \<in> set ws'"
    if "bc_include_graph c" "backend = ''json''" "bs_graph s = Some d" "f \<in> set (sd_files d)" for d f
  proof -
    have "(''graph'', copied (sd_files d)) \<in> set ?ds"
      using that by (simp add: snapshot_dirs_def snapshots_def snapshot_graph_def snapshot_graph_json_def Let_def)
    then have "(''graph'' # sf_path f, sf_bytes f) \<in> set (backup_files ?ds)"
      using that(4) by (force simp: backup_files_def copied_def)
    then have "(target @ ''graph'' # sf_path f, Some (sf_bytes f)) \<in> set (file_writes ws')" unfolding files by force
    then show ?thesis by simp
  qed
  have man: "ar_manifest a = Manifest m" by (simp add: a archive_of_def)
  show ?thesis using assms(5) files graph
    by (auto simp: restore_from_tar_def man Let_def fold split: if_splits)
qed

definition sample_backup_env :: backup_env where
  "sample_backup_env = \<lparr> be_hash = (\<lambda>x. x), be_marker = ''m'', be_id = ''backup-1'', be_created = [], be_size = (\<lambda>a. 0), be_now = 0,
     be_written = 0, be_cleanup = 0 \<rparr>"

definition sample_backup_config :: backup_config where
  "sample_backup_config = the (load_backup_config_from_env [])"

definition sample_sources :: backup_sources where
  "sample_sources = \<lparr> bs_graph = Some \<lparr> sd_parts = [''data''], sd_files = [\<lparr> sf_path = [''task'', ''a''], sf_bytes = ''x'', sf_mtime = 0 \<rparr>] \<rparr>,
     bs_sqlite = None, bs_postgres = None, bs_dump = Inr [], bs_audit = None, bs_agents = None, bs_tasks = No_file \<rparr>"

lemma sample_sources_ok: "sources_ok sample_sources"
  by (simp add: sources_ok_def sample_sources_def name_ok_def)

lemma sample_backup_kept:
  "dict_get (fst (create_backup sample_backup_env sample_backup_config ''json'' sample_sources [])) ''backup-1.tar.gz'' \<noteq> None \<and>
   bc_include_graph sample_backup_config"
  by code_simp

theorem restore_undoes_backup_witness:
  "\<exists>bd m a t r ws. create_backup sample_backup_env sample_backup_config ''json'' sample_sources [] = (bd, m) \<and>
     dict_get bd ''backup-1.tar.gz'' = Some (a, t) \<and> restore_from_tar id ''f'' (Some a) [''out''] False None = (r, ws) \<and>
     ([''out'', ''graph'', ''task'', ''a''], Some ''x'') \<in> set ws"
proof -
  obtain bd m where bd: "create_backup sample_backup_env sample_backup_config ''json'' sample_sources [] = (bd, m)" by fastforce
  with sample_backup_kept obtain a t where a: "dict_get bd ''backup-1.tar.gz'' = Some (a, t)" by auto
  obtain r ws where r: "restore_from_tar id ''f'' (Some a) [''out''] False None = (r, ws)" by fastforce
  have a': "dict_get bd (be_id sample_backup_env @ ''.tar.gz'') = Some (a, t)" using a by (simp add: sample_backup_env_def)
  from restore_undoes_backup[OF sample_sources_ok _ bd a' r] sample_backup_kept
  have "([''out'', ''graph'', ''task'', ''a''], Some ''x'') \<in> set ws" by (force simp: sample_sources_def)
  with bd a r show ?thesis by blast
qed

subsection \<open>The schedule\<close>

lemma cron_bounds: "0 \<le> now \<Longrightarrow> now < day_us \<Longrightarrow> 60 \<le> seconds_until_next_cron ws now \<and> seconds_until_next_cron ws now \<le> 86400"
  by (auto simp: seconds_until_next_cron_def day_us_def Let_def max_def field_simps of_int_less_iff split: list.split option.split)

text \<open>An hour that is a star is not every hour: after the minute has passed, the next backup is almost a day away.\<close>

lemma star_hour_waits_a_day: "seconds_until_next_cron [''0'', ''*'', ''*'', ''*'', ''*''] (10 * 3600000000 + 1800000000) = 84600"
  by code_simp

subsection \<open>What the checksums miss\<close>

lemma length_part: "x \<in> set xs \<Longrightarrow> length (f x) \<le> length (concat (map f xs))"
  by (induction xs) auto

text \<open>A component of a single file is recorded with the hash of its bytes and checked with that of its name and bytes. The tasks
  are one by default, so a default backup is always refused.\<close>

lemma recompute_single:
  assumes "\<And>x y. hash x = hash y \<Longrightarrow> x = y" and "(member_prefix name @ ''/'' @ f, Some bytes) \<in> set (ar_members a)" and "f \<noteq> []"
  shows "recompute_checksum hash a name \<noteq> hash bytes"
proof
  let ?ms = "List.map_filter (\<lambda>(n, b). case b of Some bytes \<Rightarrow> if prefix (member_prefix name @ ''/'') n then Some (n, bytes) else None | None \<Rightarrow> None)
    (ar_members a)"
  let ?part = "\<lambda>(n, b). drop (length (member_prefix name) + 1) n @ b"
  assume "recompute_checksum hash a name = hash bytes"
  then have eq: "concat (map ?part (sort_cmp (\<lambda>f g. str_cmp (fst f) (fst g)) ?ms)) = bytes" using assms(1) by (auto simp: recompute_checksum_def)
  have "(member_prefix name @ ''/'' @ f, bytes) \<in> set ?ms"
    using assms(2) by (force simp: List.map_filter_def)
  then have "length (?part (member_prefix name @ ''/'' @ f, bytes)) \<le> length bytes"
    using length_part[of "(member_prefix name @ ''/'' @ f, bytes)" "sort_cmp (\<lambda>f g. str_cmp (fst f) (fst g)) ?ms" ?part] eq by simp
  with assms(3) show False by simp
qed

lemma default_backup_refused:
  assumes "\<And>x y. hash x = hash y \<Longrightarrow> x = y" and "be_hash e = hash" and "dict_ok bd" and "create_backup e c backend s bd = (bd', m)"
    and "dict_get bd' (be_id e @ ''.tar.gz'') = Some (a, t)" and "bc_include_tasks c" and "bs_tasks s = No_path"
  shows "snd (restore_from_tar hash tar_path (Some a) target True None) = [] \<and> \<not> rp_verified (fst (restore_from_tar hash tar_path (Some a) target True None))"
proof -
  let ?ds = "snapshot_dirs e c backend s"
  have a: "a = archive_of (bc_include_graph c) m ?ds" by (rule kept_backup[OF assms(3,4,5)])
  let ?ci = "fst (snapshot_tasks hash (be_marker e) No_path)"
  have comp: "(''tasks'', ?ci) \<in> set (bm_components m)"
    using assms(2,4,6,7) by (auto simp: create_backup_def Let_def snapshots_def snapshot_tasks_def single_file_def)
  have "(''tasks'', [([''store.json''], be_marker e)]) \<in> set ?ds"
    using assms(6,7) by (simp add: snapshot_dirs_def snapshots_def snapshot_tasks_def)
  then have mem: "(member_prefix ''tasks'' @ ''/'' @ ''store.json'', Some (be_marker e)) \<in> set (ar_members a)"
    by (auto simp: a archive_of_def member_prefix_def intro!: bexI[of _ "(''tasks'', [([''store.json''], be_marker e)])"]) (simp add: dir_members_def)
  have "prefix (member_prefix ''tasks'') (member_prefix ''tasks'' @ ''/'' @ ''store.json'')" by simp
  with mem have found: "\<exists>x\<in>set (ar_members a). prefix (member_prefix ''tasks'') (fst x)" by (metis fst_conv)
  have "recompute_checksum hash a ''tasks'' \<noteq> hash (be_marker e)" by (rule recompute_single[OF assms(1) mem]) simp_all
  then have "check_component hash a ''tasks'' ?ci \<noteq> []" using found by (simp add: check_component_def snapshot_tasks_def single_file_def Let_def)
  with comp have "concat (map (\<lambda>(k, ci). check_component hash a k ci) (bm_components m)) \<noteq> []" by (force simp: concat_eq_Nil_conv)
  then show ?thesis by (simp add: restore_from_tar_def a archive_of_def Let_def)
qed

text \<open>An audit directory without recent files is recorded with the empty text, which is no hash.\<close>

lemma empty_audit_refused:
  assumes "\<And>x. hash x \<noteq> []" and "(''audit'', ci) \<in> set (bm_components m)" and "filter (audit_wanted now days) (sd_files d) = []"
    and "ci = fst (snapshot_audit_logs h now (Some d) days)" and "(''components/audit'', None) \<in> set (ar_members a)"
    and "ar_manifest a = Manifest m"
  shows "snd (restore_from_tar hash tar_path (Some a) target True None) = []"
proof -
  have "prefix (member_prefix ''audit'') ''components/audit''" by (simp add: member_prefix_def)
  with assms(5) have "\<exists>x\<in>set (ar_members a). prefix (member_prefix ''audit'') (fst x)" by (metis fst_conv)
  moreover have "ci_included ci" "ci_sha256 ci = []" using assms(3,4) by (simp_all add: snapshot_audit_logs_def copied_def Let_def)
  ultimately have "check_component hash a ''audit'' ci \<noteq> []"
    using assms(1) by (simp add: check_component_def recompute_checksum_def Let_def)
  with assms(2) have "concat (map (\<lambda>(k, ci). check_component hash a k ci) (bm_components m)) \<noteq> []" by (force simp: concat_eq_Nil_conv)
  then show ?thesis by (simp add: restore_from_tar_def assms(6) Let_def)
qed

text \<open>The component is named with an underscore, its directory with a dash: code of agents is never checked, whatever it is.\<close>

lemma agent_code_unchecked:
  "check_component hash (archive_of True m [(''custom-agents'', [([''a.py''], code)])]) ''custom_agents'' ci = []"
  by (simp add: check_component_def archive_of_def dir_members_def parents_def member_prefix_def)

text \<open>Names and bytes are not told apart.\<close>

lemma checksum_blurs_names: "dir_checksum hash [([''a''], ''bc'')] = dir_checksum hash [([''ab''], ''c'')]"
  by (simp add: dir_checksum_def sort_cmp_def)

text \<open>The backup sorts by parts, the restore by text: a directory next to a file with its name and a dash is refused.\<close>

lemma orders_differ:
  "dir_checksum id [([''a'', ''x''], ''1''), ([''a-b''], ''2'')] \<noteq>
   recompute_checksum id (archive_of True m [(''graph'', [([''a'', ''x''], ''1''), ([''a-b''], ''2'')])]) ''graph''"
  by code_simp

text \<open>A member with dots, or with an absolute rest, is written outside the target.\<close>

lemma member_leaves_target:
  "restore_member [''srv'', ''r''] None ([], []) (''components/../../etc/x'', Some b) =
     ([([''srv'', ''r'', ''..'', ''..'', ''etc'', ''x''], Some b)], [''..''])"
  "restore_member [''srv'', ''r''] None ([], []) (''components//etc/x'', Some b) = ([([''etc'', ''x''], Some b)], [''''])"
  by (simp_all add: restore_member_def target_path_def path_parts_def)

lemma retention_drops:
  assumes "dict_ok bd" and "dict_get bd name = Some (a, t)" and "prefix ''backup-'' name" and "suffix ''.tar.gz'' name" and "14 \<le> length name"
    and "t < now - days * day_us"
  shows "dict_get (fst (apply_retention bd now days)) name = None"
proof -
  have "fst (apply_retention bd now days) = filter (\<lambda>(k, v). \<not> (prefix ''backup-'' k \<and> suffix ''.tar.gz'' k \<and> 14 \<le> length k \<and>
      snd v < now - days * day_us)) bd"
    by (simp add: apply_retention_def Let_def case_prod_unfold)
  then show ?thesis using assms by (simp add: dict_get_filter)
qed

text \<open>With a retention of no days a backup deletes itself.\<close>

lemma no_retention_deletes:
  assumes "dict_ok bd" and "bc_retention_days c \<le> 0" and "be_written e < be_cleanup e" and "prefix ''backup-'' (be_id e)"
  shows "dict_get (fst (create_backup e c backend s bd)) (be_id e @ ''.tar.gz'') = None"
proof -
  have late: "be_written e < be_cleanup e - bc_retention_days c * day_us" using assms(2,3) by (simp add: day_us_def mult_nonpos_nonneg)
  obtain w where w: "be_id e = ''backup-'' @ w" using assms(4) by (auto simp: prefix_def)
  have name: "prefix ''backup-'' (be_id e @ ''.tar.gz'')" "suffix ''.tar.gz'' (be_id e @ ''.tar.gz'')" "14 \<le> length (be_id e @ ''.tar.gz'')"
    unfolding w by (simp_all add: suffix_def)
  show ?thesis unfolding create_backup_def Let_def fst_conv
    by (rule retention_drops[OF _ _ name late]) (use assms(1) in simp_all)
qed

text \<open>Without the check a restore that worked still exits with 2.\<close>

lemma unverified_exit: "rp_errors (fst (restore_from_tar hash p src t False w)) = [] \<Longrightarrow> restore_exit_code (fst (restore_from_tar hash p src t False w)) = 2"
  by (auto simp: restore_exit_code_def restore_from_tar_def Let_def split: option.splits manifest_part.splits prod.splits)

end
