(* ===== verification/Config_Manager.thy ===== *)
theory Config_Manager
  imports Py_Value
begin

section \<open>Configuration (core/config/manager.py)\<close>

text \<open>
  The secret store and the file store, the lookup in four layers, and the notification of subscribers. Parameters: the
  YAML parser, and the text of a value. Files are maps from paths; an exception is \<open>None\<close> where one can leave a
  function.
\<close>

subsection \<open>Stores\<close>

text \<open>\<open>FileSecretStore\<close>: its files by the key they are named after.\<close>

type_synonym secret_files = "(string, string) dict"

definition secret_get :: "secret_files \<Rightarrow> string \<Rightarrow> string option" where
  "secret_get fs key = map_option strip (dict_get fs (key @ ''.secret''))"

definition secret_set :: "secret_files \<Rightarrow> string \<Rightarrow> string \<Rightarrow> secret_files" where
  "secret_set fs key v = dict_set fs (key @ ''.secret'') v"

text \<open>The YAML files that exist, parsed: the text itself is left to the parser. \<open>look_in\<close> is \<open>if key in data\<close>: a value that is
  false counts as an empty map; None is the exception of a value that is neither map, list nor text, or of an index
  that is none.\<close>

type_synonym yaml_files = "string list \<Rightarrow> pyval option"

definition look_in :: "pyval option \<Rightarrow> string \<Rightarrow> pyval option option" where
  "look_in file key =
     (case file of
        None \<Rightarrow> Some None
      | Some data \<Rightarrow>
          if \<not> py_truthy data then Some None
          else case data of
            PDict d \<Rightarrow> Some (dict_get d key)
          | PList vs \<Rightarrow> if \<exists>v\<in>set vs. py_eq v (PStr key) then None else Some None
          | PStr s \<Rightarrow> if str_in key s then None else Some None
          | _ \<Rightarrow> None)"

fun first_found :: "yaml_files \<Rightarrow> string list list \<Rightarrow> string \<Rightarrow> pyval option option" where
  "first_found ys [] key = Some None"
| "first_found ys (p # ps) key =
     (case look_in (ys p) key of None \<Rightarrow> None | Some (Some v) \<Rightarrow> Some (Some v) | Some None \<Rightarrow> first_found ys ps key)"

definition file_get :: "yaml_files \<Rightarrow> string \<Rightarrow> string \<Rightarrow> string \<Rightarrow> string \<Rightarrow> pyval option option" where
  "file_get ys key tenant_id group_id agent_name =
     first_found ys
       ((if agent_name = [] then [] else [[''tenants'', tenant_id, ''agents'', agent_name @ ''.yaml'']]) @
        (if group_id = [] then [] else [[''tenants'', tenant_id, ''groups'', group_id, ''group.yaml'']]) @
        [[''tenants'', tenant_id, ''tenant.yaml'']]) key"

subsection \<open>The manager\<close>

record config_state =
  cf_cache :: "(string, pyval) dict"
  cf_secrets :: "secret_files option"
  cf_calls :: "(nat \<times> string \<times> pyval) list"
  cf_subscribers :: nat

text \<open>What is outside: the environment and the files.\<close>

record config_world =
  cw_env :: "(string, string) dict"
  cw_yaml :: yaml_files
  cw_text :: "pyval \<Rightarrow> string"

definition config_cache_key :: "string \<Rightarrow> string \<Rightarrow> string" where
  "config_cache_key key tenant_id = (if tenant_id = [] then key else tenant_id @ ''::'' @ key)"

definition upper_char :: "char \<Rightarrow> char" where
  "upper_char c = (let n = (of_char c :: nat) in if 97 \<le> n \<and> n \<le> 122 then char_of (n - 32) else c)"

definition config_env_key :: "string \<Rightarrow> string \<Rightarrow> string" where
  "config_env_key key tenant_id = map (\<lambda>c. if c = CHR ''.'' \<or> c = CHR ''-'' then CHR ''_'' else upper_char c) key"

text \<open>The first layer that has the key, as a value of a tenant that is not cached yet.\<close>

definition look_below :: "config_state \<Rightarrow> config_world \<Rightarrow> string \<Rightarrow> string \<Rightarrow> pyval option option" where
  "look_below st w key tenant_id =
     (let ek = config_env_key key tenant_id in
      case dict_get (cw_env w) ek of
        Some v \<Rightarrow> Some (Some (PStr v))
      | None \<Rightarrow>
          (case (case cf_secrets st of None \<Rightarrow> None | Some fs \<Rightarrow> secret_get fs ek) of
             Some s \<Rightarrow> Some (Some (PStr s))
           | None \<Rightarrow>
               (case file_get (cw_yaml w) key tenant_id [] [] of
                  None \<Rightarrow> None
                | Some v \<Rightarrow> Some (if v = Some PNone then None else v))))"

definition config_get :: "config_state \<Rightarrow> config_world \<Rightarrow> string \<Rightarrow> pyval \<Rightarrow> string \<Rightarrow> (config_state \<times> pyval) option" where
  "config_get st w key dflt tenant_id =
     (let ck = config_cache_key key tenant_id in
      case dict_get (cf_cache st) ck of
        Some v \<Rightarrow> Some (st, v)
      | None \<Rightarrow>
          (case look_below st w key tenant_id of
             None \<Rightarrow> None
           | Some None \<Rightarrow> Some (st, dflt)
           | Some (Some v) \<Rightarrow> Some (st\<lparr>cf_cache := dict_set (cf_cache st) ck v\<rparr>, v)))"

text \<open>Subscribers are called in order, whatever they raise.\<close>

definition notify_change :: "config_state \<Rightarrow> string \<Rightarrow> pyval \<Rightarrow> config_state" where
  "notify_change st key v = st\<lparr>cf_calls := cf_calls st @ map (\<lambda>i. (i, key, v)) [0..<cf_subscribers st]\<rparr>"

definition config_set :: "config_state \<Rightarrow> config_world \<Rightarrow> string \<Rightarrow> pyval \<Rightarrow> bool \<Rightarrow> string \<Rightarrow> config_state" where
  "config_set st w key v persist tenant_id =
     (let ck = config_cache_key key tenant_id; old = dict_get_or (cf_cache st) ck PNone;
          st1 = st\<lparr>cf_cache := dict_set (cf_cache st) ck v,
                   cf_secrets := (if persist then map_option (\<lambda>fs. secret_set fs (config_env_key key tenant_id) (cw_text w v)) (cf_secrets st)
                                  else cf_secrets st)\<rparr>
      in if \<not> py_eq old v then notify_change st1 key v else st1)"

definition clear_cache :: "config_state \<Rightarrow> config_state" where
  "clear_cache st = notify_change (st\<lparr>cf_cache := []\<rparr>) ''*'' PNone"

definition on_change :: "config_state \<Rightarrow> config_state" where
  "on_change st = st\<lparr>cf_subscribers := cf_subscribers st + 1\<rparr>"

subsection \<open>The layers\<close>

text \<open>What is set is what is read, until the cache is cleared, by the same tenant; another tenant with a name without colons reads
  what it read before, as long as nothing is persisted.\<close>

lemma get_after_set: "config_get (config_set st w key v persist t) w' key dflt t = Some (config_set st w key v persist t, v)"
  by (simp add: config_get_def config_set_def notify_change_def Let_def)

lemma notify_change_simps [simp]:
  "cf_cache (notify_change st k v) = cf_cache st" "cf_secrets (notify_change st k v) = cf_secrets st"
  by (simp_all add: notify_change_def)

lemma cache_key_colons:
  assumes "CHR '':'' \<notin> set t" and "CHR '':'' \<notin> set u" and "t \<noteq> []" and "u \<noteq> []"
  shows "config_cache_key k t = config_cache_key j u \<longleftrightarrow> k = j \<and> t = u"
proof
  assume "config_cache_key k t = config_cache_key j u"
  then have eq: "t @ CHR '':'' # CHR '':'' # k = u @ CHR '':'' # CHR '':'' # j" using assms(3,4) by (simp add: config_cache_key_def)
  from eq have "takeWhile (\<lambda>c. c \<noteq> CHR '':'') (t @ CHR '':'' # CHR '':'' # k) = takeWhile (\<lambda>c. c \<noteq> CHR '':'') (u @ CHR '':'' # CHR '':'' # j)" by simp
  moreover have "takeWhile (\<lambda>c. c \<noteq> CHR '':'') (x @ CHR '':'' # y) = x" if "CHR '':'' \<notin> set x" for x y
    using that by (induction x) auto
  ultimately have "t = u" using assms(1,2) by simp
  with eq show "k = j \<and> t = u" by simp
qed simp

lemma set_keeps_other_tenants:
  assumes "CHR '':'' \<notin> set t" and "CHR '':'' \<notin> set u" and "t \<noteq> []" and "u \<noteq> []" and "t \<noteq> u"
  shows "map_option snd (config_get (config_set st w key v False t) w' k dflt u) = map_option snd (config_get st w' k dflt u)"
proof -
  have "config_cache_key k u \<noteq> config_cache_key key t" using assms cache_key_colons by metis
  then show ?thesis
    by (simp add: config_get_def config_set_def look_below_def Let_def split: option.split)
qed

text \<open>A key that is in no cache is read from the environment, else from the secrets, else from the file of the tenant.\<close>

lemma layers_in_order:
  assumes "dict_get (cf_cache st) (config_cache_key key t) = None"
  shows "dict_get (cw_env w) (config_env_key key t) = Some v \<Longrightarrow> map_option snd (config_get st w key dflt t) = Some (PStr v)"
    and "dict_get (cw_env w) (config_env_key key t) = None \<Longrightarrow> cf_secrets st = Some fs \<Longrightarrow> secret_get fs (config_env_key key t) = Some v \<Longrightarrow>
      map_option snd (config_get st w key dflt t) = Some (PStr v)"
  using assms by (simp_all add: config_get_def look_below_def Let_def)

subsection \<open>Where tenants meet\<close>

text \<open>The name of a variable or of a secret has no tenant in it: what one tenant persists, every other reads.\<close>

lemma persisted_for_all_tenants:
  assumes "cf_secrets st = Some fs" and "dict_get (cw_env w) (config_env_key key t) = None"
    and "dict_get (cf_cache (config_set st w key v True t)) (config_cache_key key u) = None"
  shows "map_option snd (config_get (config_set st w key v True t) w key dflt u) = Some (PStr (strip (cw_text w v)))"
proof -
  have "config_env_key key u = config_env_key key t" by (simp add: config_env_key_def)
  moreover have "cf_secrets (config_set st w key v True t) = Some (secret_set fs (config_env_key key t) (cw_text w v))"
    using assms(1) by (simp add: config_set_def Let_def)
  ultimately show ?thesis using assms
    by (simp add: config_get_def look_below_def Let_def secret_get_def secret_set_def)
qed

text \<open>What was read once stays: a changed variable, secret or file is not seen until the cache is cleared.\<close>

lemma stale_until_cleared:
  assumes "config_get st w key dflt t = Some (st', v)" and "look_below st w key t \<noteq> Some None \<or> dict_get (cf_cache st) (config_cache_key key t) \<noteq> None"
  shows "config_get st' w' key dflt' t = Some (st', v)"
  using assms by (auto simp: config_get_def Let_def split: option.splits)

text \<open>Setting None for a key that is not set tells no subscriber, and the key is None from then on, whatever the layers below hold.\<close>

lemma none_hides_layers:
  assumes "dict_get (cf_cache st) (config_cache_key key t) = None"
  shows "cf_calls (config_set st w key PNone p t) = cf_calls st \<and> map_option snd (config_get (config_set st w key PNone p t) w' key dflt t) = Some PNone"
  using assms by (simp add: get_after_set) (simp add: config_set_def dict_get_or_def Let_def)

text \<open>The files of groups and agents are never read: the manager asks for the tenant's file only.\<close>

lemma group_and_agent_files_unread:
  assumes "\<And>t. y [''tenants'', t, ''tenant.yaml''] = cw_yaml w [''tenants'', t, ''tenant.yaml'']"
  shows "config_get st (w\<lparr>cw_yaml := y\<rparr>) key dflt t = config_get st w key dflt t"
proof -
  have "file_get y key t [] [] = file_get (cw_yaml w) key t [] []" using assms by (simp add: file_get_def split: option.split)
  then have "look_below st (w\<lparr>cw_yaml := y\<rparr>) key t = look_below st w key t" by (simp add: look_below_def Let_def split: option.split)
  then show ?thesis by (simp add: config_get_def Let_def split: option.split)
qed

end
