(* ===== verification/Failure_Resume.thy ===== *)
theory Failure_Resume
  imports Checkpoint
begin

section \<open>Notifications and resume offers (core/notify.py)\<close>

text \<open>
  The notifier with its inbox and handlers, and the offers to resume a failed task from its checkpoint. A handler given by a caller
  is a number, and its calls are recorded. The handler for the audit log never writes: it calls a method of the class
  \<open>AuditLogger\<close> without an object, and the \<open>TypeError\<close> is caught.
\<close>

subsection \<open>The notifier\<close>

datatype notification_channel = IN_APP | EMAIL | WEBHOOK | LOG

record notification =
  nt_id :: string
  nt_channel :: notification_channel
  nt_recipient :: string
  nt_title :: string
  nt_body :: string
  nt_severity :: string
  nt_task_id :: string
  nt_checkpoint_id :: string
  nt_read :: bool

datatype notify_handler = Log_handler | In_app_handler | Given_handler nat

record notifier =
  nf_inbox :: "notification list"
  nf_handlers :: "(notification_channel, notify_handler list) dict"
  nf_calls :: "(nat \<times> notification) list"

definition new_notifier :: notifier where
  "new_notifier = \<lparr> nf_inbox = [], nf_handlers = [(IN_APP, [In_app_handler]), (EMAIL, []), (WEBHOOK, []), (LOG, [Log_handler])], nf_calls = [] \<rparr>"

definition register_handler :: "notifier \<Rightarrow> notification_channel \<Rightarrow> nat \<Rightarrow> notifier" where
  "register_handler nf ch h = nf\<lparr>nf_handlers := dict_set (nf_handlers nf) ch (dict_get_or (nf_handlers nf) ch [] @ [Given_handler h])\<rparr>"

text \<open>What a handler raises is logged; the next one is called anyway.\<close>

fun call_handler :: "notification \<Rightarrow> notify_handler \<Rightarrow> notifier \<Rightarrow> notifier" where
  "call_handler n Log_handler nf = nf"
| "call_handler n In_app_handler nf = nf\<lparr>nf_inbox := nf_inbox nf @ [n]\<rparr>"
| "call_handler n (Given_handler h) nf = nf\<lparr>nf_calls := nf_calls nf @ [(h, n)]\<rparr>"

text \<open>\<open>ms\<close> is the clock in milliseconds.\<close>

definition notify ::
  "notifier \<Rightarrow> int \<Rightarrow> string \<Rightarrow> string \<Rightarrow> string \<Rightarrow> notification_channel \<Rightarrow> string \<Rightarrow> string \<Rightarrow> string \<Rightarrow> notifier \<times> notification" where
  "notify nf ms title body severity ch recipient task_id checkpoint_id =
     (let n = \<lparr> nt_id = ''n-'' @ show_int ms, nt_channel = ch, nt_recipient = recipient, nt_title = title, nt_body = body,
                nt_severity = severity, nt_task_id = task_id, nt_checkpoint_id = checkpoint_id, nt_read = False \<rparr>
      in (foldl (\<lambda>nf h. call_handler n h nf) nf (dict_get_or (nf_handlers nf) ch []), n))"

definition notify_task_failure :: "notifier \<Rightarrow> int \<Rightarrow> int \<Rightarrow> string \<Rightarrow> string \<Rightarrow> string \<Rightarrow> string \<Rightarrow> notifier \<times> notification list" where
  "notify_task_failure nf ms1 ms2 task_id err agent severity =
     (let title = ''Task failed: '' @ task_id; body = ''Agent '' @ agent @ '' failed: '' @ take 300 err;
          (nf1, n1) = notify nf ms1 title body severity IN_APP [] task_id [];
          (nf2, n2) = notify nf1 ms2 title body severity LOG [] task_id []
      in (nf2, [n1, n2]))"

definition get_inbox :: "notifier \<Rightarrow> string option \<Rightarrow> bool \<Rightarrow> int \<Rightarrow> notification list" where
  "get_inbox nf recipient unread_only limit =
     last_slice limit (filter (\<lambda>n. (case recipient of None \<Rightarrow> True | Some r \<Rightarrow> nt_recipient n = r) \<and> (\<not> unread_only \<or> \<not> nt_read n)) (nf_inbox nf))"

fun mark_first :: "notification list \<Rightarrow> string \<Rightarrow> notification list \<times> bool" where
  "mark_first [] k = ([], False)"
| "mark_first (n # ns) k =
     (if nt_id n = k then (n\<lparr>nt_read := True\<rparr> # ns, True) else case mark_first ns k of (ns', b) \<Rightarrow> (n # ns', b))"

definition mark_read :: "notifier \<Rightarrow> string \<Rightarrow> notifier \<times> bool" where
  "mark_read nf k = (case mark_first (nf_inbox nf) k of (ns, b) \<Rightarrow> (nf\<lparr>nf_inbox := ns\<rparr>, b))"

subsection \<open>Resume offers\<close>

datatype resume_status = R_PENDING | R_RESUMED | R_ABANDONED | R_EXPIRED

record resume_offer =
  ro_task_id :: string
  ro_checkpoint_id :: string
  ro_error :: string
  ro_failed_at :: int
  ro_can_resume :: bool
  ro_token :: string
  ro_status :: resume_status
  ro_steps_completed :: "string list"
  ro_steps_pending :: "string list"

type_synonym offers = "(string, resume_offer) dict"

text \<open>\<open>secs\<close> is the clock in seconds.\<close>

definition offer_of :: "checkpoint \<Rightarrow> string \<Rightarrow> string \<Rightarrow> int \<Rightarrow> resume_offer" where
  "offer_of cp task_id err secs =
     \<lparr> ro_task_id = task_id, ro_checkpoint_id = ''cp-'' @ task_id, ro_error = take 500 err, ro_failed_at = cp_updated_at cp,
       ro_can_resume = ((\<exists>s\<in>set (cp_pending_steps cp). st_status s \<noteq> ''completed'') \<or> cp_completed_steps cp \<noteq> []),
       ro_token = ''resume-'' @ task_id @ ''-'' @ show_int secs, ro_status = R_PENDING,
       ro_steps_completed = map st_step_id (filter (\<lambda>s. st_status s = ''completed'') (cp_completed_steps cp)),
       ro_steps_pending = map st_step_id (filter (\<lambda>s. st_status s \<noteq> ''completed'') (cp_pending_steps cp)) \<rparr>"

definition create_offer :: "offers \<Rightarrow> cp_disk \<Rightarrow> bool \<Rightarrow> string \<Rightarrow> string \<Rightarrow> int \<Rightarrow> offers \<times> resume_offer option" where
  "create_offer os disk io task_id err secs =
     (case cs_load disk io task_id of
        None \<Rightarrow> (os, None)
      | Some cp \<Rightarrow> (let off = offer_of cp task_id err secs in (dict_set os task_id off, Some off)))"

definition list_offers :: "offers \<Rightarrow> resume_status option \<Rightarrow> resume_offer list" where
  "list_offers os status = (case status of None \<Rightarrow> dict_values os | Some s \<Rightarrow> filter (\<lambda>off. ro_status off = s) (dict_values os))"

definition accept_offer :: "offers \<Rightarrow> string \<Rightarrow> string \<Rightarrow> offers \<times> resume_offer option" where
  "accept_offer os task_id token =
     (case dict_get os task_id of
        None \<Rightarrow> (os, None)
      | Some off \<Rightarrow> if ro_token off \<noteq> token then (os, None)
                    else (let off' = off\<lparr>ro_status := R_RESUMED\<rparr> in (dict_set os task_id off', Some off')))"

definition abandon_offer :: "offers \<Rightarrow> string \<Rightarrow> offers \<times> bool" where
  "abandon_offer os task_id =
     (case dict_get os task_id of None \<Rightarrow> (os, False) | Some off \<Rightarrow> (dict_set os task_id (off\<lparr>ro_status := R_ABANDONED\<rparr>), True))"

record resume_payload =
  rpl_task_id :: string
  rpl_from_step :: "string option"
  rpl_completed :: "string list"
  rpl_outputs :: "(string, pydict) dict"
  rpl_token :: string

definition build_resume_payload :: "offers \<Rightarrow> cp_disk \<Rightarrow> bool \<Rightarrow> string \<Rightarrow> resume_payload option" where
  "build_resume_payload os disk io task_id =
     (case dict_get os task_id of
        None \<Rightarrow> None
      | Some off \<Rightarrow>
          if ro_status off \<noteq> R_RESUMED then None
          else case cs_load disk io task_id of
            None \<Rightarrow> None
          | Some cp \<Rightarrow> Some \<lparr> rpl_task_id = task_id, rpl_from_step = (case ro_steps_pending off of [] \<Rightarrow> None | s # _ \<Rightarrow> Some s),
                             rpl_completed = ro_steps_completed off, rpl_outputs = cp_intermediate_outputs cp, rpl_token = ro_token off \<rparr>)"

subsection \<open>What resuming needs\<close>

datatype offer_op = Create string string int | Accept string string | Abandon string

fun offer_step :: "cp_disk \<Rightarrow> bool \<Rightarrow> offers \<Rightarrow> offer_op \<Rightarrow> offers" where
  "offer_step disk io os (Create t err secs) = fst (create_offer os disk io t err secs)"
| "offer_step disk io os (Accept t token) = fst (accept_offer os t token)"
| "offer_step disk io os (Abandon t) = fst (abandon_offer os t)"

definition offers_after :: "(cp_disk \<times> bool \<times> offer_op) list \<Rightarrow> offers" where
  "offers_after ops = foldl (\<lambda>os (disk, io, op). offer_step disk io os op) [] ops"

text \<open>A payload to resume a task exists only after somebody gave the token of the task's current offer.\<close>

lemma resumed_needs_token:
  "dict_get (offers_after ops) t = Some off \<Longrightarrow> ro_status off = R_RESUMED \<Longrightarrow>
   \<exists>disk io. (disk, io, Accept t (ro_token off)) \<in> set ops"
proof (induction ops arbitrary: off rule: rev_induct)
  case (snoc x ops)
  obtain disk io op where x: "x = (disk, io, op)" by (cases x)
  have after: "offers_after (ops @ [x]) = offer_step disk io (offers_after ops) op" by (simp add: offers_after_def x)
  show ?case
  proof (cases "dict_get (offers_after ops) t = Some off")
    case True
    from snoc.IH[OF True snoc.prems(2)] show ?thesis by auto
  next
    case False
    with snoc.prems after obtain token where "op = Accept t token" "token = ro_token off"
      by (cases op) (auto simp: create_offer_def accept_offer_def abandon_offer_def offer_of_def Let_def split: option.splits if_splits)
    with x show ?thesis by auto
  qed
qed (simp add: offers_after_def)

lemma payload_needs_token:
  "build_resume_payload (offers_after ops) disk io t = Some p \<Longrightarrow> \<exists>d b. (d, b, Accept t (rpl_token p)) \<in> set ops"
  by (auto simp: build_resume_payload_def split: option.splits if_splits dest: resumed_needs_token)

text \<open>An offer takes up where the checkpoint stood: the next step is the first that is not completed.\<close>

lemma payload_from_checkpoint:
  assumes "create_offer os disk io t err secs = (os1, Some off)" and "accept_offer os1 t (ro_token off) = (os2, Some off2)"
    and "cs_load disk io t = Some cp"
  shows "build_resume_payload os2 disk io t =
    Some \<lparr> rpl_task_id = t, rpl_from_step = map_option st_step_id (find (\<lambda>s. st_status s \<noteq> ''completed'') (cp_pending_steps cp)),
           rpl_completed = map st_step_id (filter (\<lambda>s. st_status s = ''completed'') (cp_completed_steps cp)),
           rpl_outputs = cp_intermediate_outputs cp, rpl_token = ro_token off \<rparr>"
proof -
  have first: "(case map st_step_id (filter P ss) of [] \<Rightarrow> None | s # _ \<Rightarrow> Some s) = map_option st_step_id (find P ss)" for P ss
    by (induction ss) simp_all
  from assms have "dict_get os2 t = Some ((offer_of cp t err secs)\<lparr>ro_status := R_RESUMED\<rparr>)" "off = offer_of cp t err secs"
    by (auto simp: create_offer_def accept_offer_def Let_def split: option.splits if_splits)
  with assms(3) show ?thesis by (simp add: build_resume_payload_def offer_of_def first)
qed

subsection \<open>Where it differs\<close>

text \<open>An abandoned offer can still be accepted.\<close>

lemma abandoned_offer_accepted:
  "dict_get os t = Some off \<Longrightarrow> snd (accept_offer (fst (abandon_offer os t)) t (ro_token off)) = Some (off\<lparr>ro_status := R_RESUMED\<rparr>)"
  by (simp add: abandon_offer_def accept_offer_def Let_def)

text \<open>Two notifications of one millisecond share an id: reading the second marks the first.\<close>

lemma second_marks_first:
  assumes "nf_inbox nf = [a, b]" and "nt_id a = nt_id b"
  shows "nf_inbox (fst (mark_read nf (nt_id b))) = [a\<lparr>nt_read := True\<rparr>, b]"
  using assms by (simp add: mark_read_def)

lemma same_millisecond_same_id:
  "nt_id (snd (notify nf ms t1 b1 s1 c1 r1 k1 p1)) = nt_id (snd (notify nf' ms t2 b2 s2 c2 r2 k2 p2))"
  by (simp add: notify_def Let_def)

text \<open>A limit of 0 returns the whole inbox.\<close>

lemma inbox_zero_is_all: "get_inbox nf None False 0 = nf_inbox nf"
  by (simp add: get_inbox_def last_slice_def)

text \<open>A failure of a task reaches the inbox of nobody: its notification has no recipient.\<close>

lemma failure_has_no_recipient:
  assumes "r \<noteq> []" and "nf_inbox nf = []"
  shows "get_inbox (fst (notify_task_failure (nf\<lparr>nf_handlers := nf_handlers new_notifier\<rparr>) m1 m2 t err a s)) (Some r) u 50 = []"
  using assms by (simp add: notify_task_failure_def notify_def new_notifier_def get_inbox_def last_slice_def dict_get_or_def Let_def)

end
