(* ===== verification/File_Tools.thy ===== *)
theory File_Tools
  imports Py_Value
begin

section \<open>Tools and the sandbox of the file tools (tools/base.py, tools/file\_tools.py)\<close>

text \<open>
  The registry of tools, the check of a path, and the tools that read, write and list. Parameters: how the operating
  system resolves a path (links and dots), and the text of other exceptions. The text of a file is its content; encodings are
  left out.
\<close>

subsection \<open>Shell patterns (fnmatch)\<close>

text \<open>The elements of a bracket, with ranges; a range that runs backwards is empty.\<close>

fun in_elements :: "string \<Rightarrow> char \<Rightarrow> bool" where
  "in_elements (a # d # b # s) c =
     (if d = CHR ''-'' then ((of_char a :: nat) \<le> of_char c \<and> (of_char c :: nat) \<le> of_char b) \<or> in_elements s c
      else a = c \<or> in_elements (d # b # s) c)"
| "in_elements s c = (c \<in> set s)"

fun upto_close :: "string \<Rightarrow> (string \<times> string) option" where
  "upto_close [] = None"
| "upto_close (c # s) = (if c = CHR '']'' then Some ([], s) else map_option (\<lambda>(els, rest). (c # els, rest)) (upto_close s))"

text \<open>After an opening bracket: whether it is negated, its elements, and the pattern after the closing one. The first element may be a
  closing bracket itself.\<close>

fun bracket_elements :: "string \<Rightarrow> (string \<times> string) option" where
  "bracket_elements [] = None"
| "bracket_elements (c # s) = map_option (\<lambda>(els, rest). (c # els, rest)) (upto_close s)"

definition bracket :: "string \<Rightarrow> (bool \<times> string \<times> string) option" where
  "bracket p =
     (if p \<noteq> [] \<and> hd p = CHR ''!'' then map_option (\<lambda>r. (True, r)) (bracket_elements (tl p))
      else map_option (\<lambda>r. (False, r)) (bracket_elements p))"

lemma upto_close_shorter: "upto_close s = Some (els, rest) \<Longrightarrow> length rest < length s"
  by (induction s arbitrary: els) (auto split: if_splits)

lemma elements_shorter: "bracket_elements s = Some (els, rest) \<Longrightarrow> length rest < length s"
  by (cases s) (auto dest: upto_close_shorter)

lemma bracket_shorter: "bracket p = Some (neg, els, rest) \<Longrightarrow> length rest < length p"
  by (cases p) (auto simp: bracket_def simp del: bracket_elements.simps dest!: elements_shorter split: if_splits)

function fnmatch :: "string \<Rightarrow> string \<Rightarrow> bool" where
  "fnmatch [] s = (s = [])"
| "fnmatch (c # p) s =
     (if c = CHR ''*'' then fnmatch p s \<or> (case s of [] \<Rightarrow> False | _ # t \<Rightarrow> fnmatch (c # p) t)
      else case s of
        [] \<Rightarrow> False
      | d # t \<Rightarrow>
          if c = CHR ''?'' then fnmatch p t
          else case (if c = CHR ''['' then bracket p else None) of
            None \<Rightarrow> d = c \<and> fnmatch p t
          | Some (neg, els, rest) \<Rightarrow> in_elements els d \<noteq> neg \<and> fnmatch rest t)"
  by pat_completeness auto
termination
  by (relation "measure (\<lambda>(p, s). length p + length s)") (auto dest!: bracket_shorter split: if_splits)

subsection \<open>The registry\<close>

record tool_result =
  tl_success :: bool
  tl_output :: pyval
  tl_error :: "string option"

record 'w tool =
  to_name :: string
  to_description :: string
  to_schema :: pyval
  to_execute :: "'w \<Rightarrow> pydict \<Rightarrow> 'w \<times> tool_result"

type_synonym 'w tools = "(string, 'w tool) dict"

definition tool_failed :: "string \<Rightarrow> tool_result" where
  "tool_failed e = \<lparr> tl_success = False, tl_output = PNone, tl_error = Some e \<rparr>"

definition tool_done :: "pyval \<Rightarrow> tool_result" where
  "tool_done v = \<lparr> tl_success = True, tl_output = v, tl_error = None \<rparr>"

definition register_tool :: "'w tools \<Rightarrow> 'w tool \<Rightarrow> 'w tools" where
  "register_tool ts t = dict_set ts (to_name t) t"

definition list_definitions :: "'w tools \<Rightarrow> (string \<times> string \<times> pyval) list" where
  "list_definitions ts = map (\<lambda>t. (to_name t, to_description t, to_schema t)) (dict_values ts)"

definition to_openai_tools :: "'w tools \<Rightarrow> pyval list" where
  "to_openai_tools ts =
     map (\<lambda>t. PDict [(''type'', PStr ''function''),
        (''function'', PDict [(''name'', PStr (to_name t)), (''description'', PStr (to_description t)), (''parameters'', to_schema t)])]) (dict_values ts)"

definition execute_tool :: "'w tools \<Rightarrow> 'w \<Rightarrow> string \<Rightarrow> pydict \<Rightarrow> 'w \<times> tool_result" where
  "execute_tool ts w name inputs =
     (case dict_get ts name of None \<Rightarrow> (w, tool_failed (''Unknown tool: '' @ name)) | Some t \<Rightarrow> to_execute t w inputs)"

definition filter_registry :: "'w tools \<Rightarrow> string list \<Rightarrow> 'w tools" where
  "filter_registry ts names =
     foldl (\<lambda>acc n. case dict_get ts n of None \<Rightarrow> acc | Some t \<Rightarrow> register_tool acc t) [] names"

subsection \<open>The check of a path\<close>

definition sensitive_names :: "string list" where
  "sensitive_names = [''*.env'', ''*.env.*'', ''*.key'', ''*.pem'', ''*.p12'', ''*.secret'', ''*.secrets'', ''id_rsa*'', ''id_ed25519*'',
     ''.aws'', ''.ssh'', ''.npmrc'', ''secrets'', ''*.kubeconfig'']"

fun split_dirs :: "string \<Rightarrow> string list" where
  "split_dirs [] = [[]]"
| "split_dirs (c # s) = (if c = CHR ''/'' then [] # split_dirs s else case split_dirs s of [] \<Rightarrow> [[c]] | p # ps \<Rightarrow> (c # p) # ps)"

definition rel_parts :: "string \<Rightarrow> string list" where
  "rel_parts s = filter (\<lambda>p. p \<noteq> [] \<and> p \<noteq> ''.'') (split_dirs s)"

definition path_root :: "string \<Rightarrow> string" where
  "path_root s = (if \<not> prefix ''/'' s then [] else if prefix ''//'' s \<and> \<not> prefix ''///'' s then ''//'' else ''/'')"

text \<open>\<open>str(Path(s))\<close>: dots between slashes and double slashes go, two dots stay.\<close>

definition path_text :: "string \<Rightarrow> string" where
  "path_text s = (if path_root s = [] \<and> rel_parts s = [] then ''.'' else path_root s @ join_with ''/'' (rel_parts s))"

text \<open>A resolved path is the list of its parts below the root.\<close>

type_synonym abs_path = "string list"

definition abs_text :: "abs_path \<Rightarrow> string" where
  "abs_text p = ''/'' @ join_with ''/'' p"

record sandbox_env =
  se_resolve :: "string \<Rightarrow> abs_path option"
  se_roots_env :: "string option"
  se_other :: string

definition split_roots :: "string \<Rightarrow> string list" where
  "split_roots s = (let go = (\<lambda>c acc. if c = CHR '','' then [] # acc else (case acc of [] \<Rightarrow> [[c]] | x # xs \<Rightarrow> (c # x) # xs))
                    in filter (\<lambda>r. r \<noteq> []) (map strip (foldr go s [[]])))"

definition get_allowed_roots :: "sandbox_env \<Rightarrow> string list" where
  "get_allowed_roots e =
     (case se_roots_env e of None \<Rightarrow> [''data'', ''tmp'', ''.''] | Some v \<Rightarrow> if v = [] then [''data'', ''tmp'', ''.''] else split_roots v)"

definition match_sensitive :: "abs_path \<Rightarrow> string option" where
  "match_sensitive p =
     map_option (\<lambda>(pat, part). ''path component '' @ repr_str part @ '' matches pattern '' @ repr_str pat)
       (find (\<lambda>(pat, part). fnmatch pat part) (List.product sensitive_names (''/'' # p)))"

text \<open>The refusal, or the resolved path. A root that cannot be resolved raises another exception, which the tools turn into a failure
  as well.\<close>

definition resolve_and_validate :: "sandbox_env \<Rightarrow> string \<Rightarrow> string list \<Rightarrow> bool \<Rightarrow> string + abs_path" where
  "resolve_and_validate e path_str roots allow_write =
     (if path_str \<noteq> path_text path_str \<and> ''..'' \<in> set (rel_parts path_str) \<and>
         str_in ''..'' (map (\<lambda>c. if c = CHR 0x5C then CHR ''/'' else c) path_str)
      then Inl (''Path traversal not allowed: '' @ path_str)
      else case se_resolve e path_str of
        None \<Rightarrow> Inl (''Invalid path: '' @ se_other e)
      | Some p \<Rightarrow>
          if \<exists>r\<in>set roots. se_resolve e r = None then Inl (se_other e)
          else if \<not> (\<exists>r\<in>set roots. prefix (the (se_resolve e r)) p)
          then Inl (''Path '' @ abs_text p @ '' is outside allowed roots. Allowed: ['' @
                 join_with '', '' (map (\<lambda>r. repr_str (abs_text (the (se_resolve e r)))) roots) @ '']'')
          else if allow_write then (case match_sensitive p of None \<Rightarrow> Inr p | Some m \<Rightarrow> Inl (''Refusing to write sensitive path: '' @ m))
          else Inr p)"

subsection \<open>The tools\<close>

datatype fs_node = File string | Directory

type_synonym file_system = "(abs_path, fs_node) dict"

text \<open>A required input: a key that is missing raises a \<open>KeyError\<close>, a value that is no text another exception.\<close>

definition text_input :: "sandbox_env \<Rightarrow> pydict \<Rightarrow> string \<Rightarrow> string + string" where
  "text_input e inputs k =
     (case dict_get inputs k of None \<Rightarrow> Inl (repr_str k) | Some (PStr s) \<Rightarrow> Inr s | Some _ \<Rightarrow> Inl (se_other e))"

definition truncated_note :: string where
  "truncated_note = [CHR 0x0A, CHR 0x0A] @ ''[... truncated at 1MB ...]''"

definition read_file :: "sandbox_env \<Rightarrow> file_system \<Rightarrow> pydict \<Rightarrow> file_system \<times> tool_result" where
  "read_file e fs inputs =
     (fs, case text_input e inputs ''path'' of
        Inl m \<Rightarrow> tool_failed m
      | Inr path_str \<Rightarrow>
          (case resolve_and_validate e path_str (get_allowed_roots e) False of
             Inl m \<Rightarrow> tool_failed m
           | Inr p \<Rightarrow>
               (case dict_get fs p of
                  None \<Rightarrow> tool_failed (''File not found: '' @ path_str)
                | Some Directory \<Rightarrow> tool_failed (''Not a file: '' @ abs_text p)
                | Some (File s) \<Rightarrow> tool_done (PStr (if 1000000 < length s then take 1000000 s @ truncated_note else s)))))"

definition ancestors :: "abs_path \<Rightarrow> abs_path list" where
  "ancestors p = map (\<lambda>n. take n p) [1..<length p]"

definition is_file :: "file_system \<Rightarrow> abs_path \<Rightarrow> bool" where
  "is_file fs p = (case dict_get fs p of Some (File _) \<Rightarrow> True | _ \<Rightarrow> False)"

definition make_dirs :: "file_system \<Rightarrow> abs_path list \<Rightarrow> file_system" where
  "make_dirs fs ps = foldl (\<lambda>fs p. if dict_has fs p then fs else dict_set fs p Directory) fs ps"

text \<open>The parents are made first; one of them that is a file, or a target that is a directory, is an exception of the system. Parents
  made before it stay; a file among them ends their making.\<close>

definition write_file :: "sandbox_env \<Rightarrow> file_system \<Rightarrow> pydict \<Rightarrow> file_system \<times> tool_result" where
  "write_file e fs inputs =
     (case (text_input e inputs ''path'', dict_get inputs ''content'') of
        (Inl m, _) \<Rightarrow> (fs, tool_failed m)
      | (Inr path_str, None) \<Rightarrow> (fs, tool_failed (repr_str ''content''))
      | (Inr path_str, Some v) \<Rightarrow>
          (case resolve_and_validate e path_str (get_allowed_roots e) True of
             Inl m \<Rightarrow> (fs, tool_failed m)
           | Inr p \<Rightarrow>
               if \<exists>q\<in>set (ancestors p). is_file fs q then (fs, tool_failed (se_other e))
               else let fs1 = make_dirs fs (ancestors p)
                    in (case v of
                          PStr content \<Rightarrow>
                            if p = [] \<or> dict_get fs1 p = Some Directory then (fs1, tool_failed (se_other e))
                            else (dict_set fs1 p (File content),
                                  tool_done (PStr (''Wrote '' @ show_nat (length content) @ '' chars to '' @ abs_text p)))
                        | _ \<Rightarrow> (fs1, tool_failed (se_other e)))))"

fun insert_name :: "string \<Rightarrow> string list \<Rightarrow> string list" where
  "insert_name x [] = [x]"
| "insert_name x (y # ys) = (if str_cmp y x = Less then y # insert_name x ys else x # y # ys)"

definition entries_of :: "file_system \<Rightarrow> abs_path \<Rightarrow> string list" where
  "entries_of fs p = map (last \<circ> fst) (filter (\<lambda>(q, n). q \<noteq> [] \<and> butlast q = p) fs)"

definition list_files :: "sandbox_env \<Rightarrow> file_system \<Rightarrow> pydict \<Rightarrow> file_system \<times> tool_result" where
  "list_files e fs inputs =
     (fs, case text_input e inputs ''path'' of
        Inl m \<Rightarrow> tool_failed m
      | Inr path_str \<Rightarrow>
          (case resolve_and_validate e path_str (get_allowed_roots e) False of
             Inl m \<Rightarrow> tool_failed m
           | Inr p \<Rightarrow>
               if p \<noteq> [] \<and> dict_get fs p \<noteq> Some Directory then tool_failed (''Not a directory: '' @ abs_text p)
               else (case dict_get_or inputs ''pattern'' (PStr ''*'') of
                       PStr pattern \<Rightarrow>
                         (let names = filter (fnmatch pattern) (entries_of fs p)
                          in tool_done (PDict [(''files'', PList (map PStr (foldr insert_name names []))), (''count'', PInt (int (length names)))]))
                     | _ \<Rightarrow> if entries_of fs p = [] then tool_done (PDict [(''files'', PList []), (''count'', PInt 0)])
                           else tool_failed (se_other e))))"

subsection \<open>The sandbox\<close>

lemma validated_path:
  "resolve_and_validate e path_str roots w = Inr p \<Longrightarrow>
   se_resolve e path_str = Some p \<and> (\<exists>r\<in>set roots. \<exists>root. se_resolve e r = Some root \<and> prefix root p) \<and> (w \<longrightarrow> match_sensitive p = None)"
  by (auto simp: resolve_and_validate_def split: if_splits option.splits) (metis option.sel)+

lemma not_sensitive: "match_sensitive p = None \<longleftrightarrow> (\<forall>pat\<in>set sensitive_names. \<forall>part\<in>set (''/'' # p). \<not> fnmatch pat part)"
  by (auto simp: match_sensitive_def find_None_iff)

lemma get_make_dirs:
  "dict_get (make_dirs fs ps) q = (case dict_get fs q of Some n \<Rightarrow> Some n | None \<Rightarrow> if q \<in> set ps then Some Directory else None)"
  unfolding make_dirs_def
proof (induction ps arbitrary: fs)
  case (Cons p ps)
  show ?case unfolding list.map foldl_Cons Cons.IH
    by (cases "dict_get fs p"; cases "dict_get fs q"; cases "q = p") (auto split: option.split)
qed (auto split: option.split)

lemma ancestors_strict: "q \<in> set (ancestors p) \<Longrightarrow> strict_prefix q p"
  by (auto simp: ancestors_def strict_prefix_def take_is_prefix)

text \<open>A path the tools may touch: an input of the caller resolves to it, and it lies under an allowed root.\<close>

definition in_sandbox :: "sandbox_env \<Rightarrow> pydict \<Rightarrow> abs_path \<Rightarrow> bool" where
  "in_sandbox e inputs p \<longleftrightarrow>
     (\<exists>path_str r root. dict_get inputs ''path'' = Some (PStr path_str) \<and> se_resolve e path_str = Some p \<and>
        r \<in> set (get_allowed_roots e) \<and> se_resolve e r = Some root \<and> prefix root p)"

lemma text_input_path: "text_input e inputs ''path'' = Inr s \<Longrightarrow> dict_get inputs ''path'' = Some (PStr s)"
  by (auto simp: text_input_def split: option.splits pyval.splits)

lemma validated_in_sandbox:
  "text_input e inputs ''path'' = Inr s \<Longrightarrow> resolve_and_validate e s (get_allowed_roots e) w = Inr p \<Longrightarrow> in_sandbox e inputs p"
  unfolding in_sandbox_def using validated_path text_input_path by blast

lemma write_cases:
  assumes "write_file e fs inputs = (fs', r)"
  obtains "fs' = fs" "\<not> tl_success r"
  | p where "in_sandbox e inputs p" "match_sensitive p = None" "fs' = make_dirs fs (ancestors p)" "\<not> tl_success r"
  | p s where "in_sandbox e inputs p" "match_sensitive p = None" "dict_get inputs ''content'' = Some (PStr s)"
      "dict_get (make_dirs fs (ancestors p)) p \<noteq> Some Directory" "fs' = dict_set (make_dirs fs (ancestors p)) p (File s)"
proof (cases "text_input e inputs ''path''")
  case (Inl m)
  with assms that(1) show thesis by (auto simp: write_file_def tool_failed_def)
next
  case path: (Inr path_str)
  show thesis
  proof (cases "dict_get inputs ''content''")
    case None
    with path assms that(1) show thesis by (auto simp: write_file_def tool_failed_def)
  next
    case (Some v)
    show thesis
    proof (cases "resolve_and_validate e path_str (get_allowed_roots e) True")
      case (Inl m)
      with path Some assms that(1) show thesis by (auto simp: write_file_def tool_failed_def)
    next
      case (Inr p)
      note ok = validated_in_sandbox[OF path Inr] validated_path[OF Inr]
      show thesis
      proof (cases "\<exists>q\<in>set (ancestors p). is_file fs q")
        case True
        with path Some Inr assms that(1) show thesis by (auto simp: write_file_def tool_failed_def)
      next
        case False
        let ?fs1 = "make_dirs fs (ancestors p)"
        have step: "write_file e fs inputs = (case v of
            PStr content \<Rightarrow> if p = [] \<or> dict_get ?fs1 p = Some Directory then (?fs1, tool_failed (se_other e))
              else (dict_set ?fs1 p (File content), tool_done (PStr (''Wrote '' @ show_nat (length content) @ '' chars to '' @ abs_text p)))
          | _ \<Rightarrow> (?fs1, tool_failed (se_other e)))"
          using path Some Inr False by (simp only: write_file_def Let_def prod.case sum.case option.case if_False)
        consider s where "v = PStr s" "dict_get ?fs1 p \<noteq> Some Directory" "fs' = dict_set ?fs1 p (File s)"
          | "fs' = ?fs1" "\<not> tl_success r"
          using assms step by (cases v; fastforce simp: tool_failed_def split: if_splits)
        then show thesis
        proof cases
          case (1 s)
          with ok Some that(3)[of p s] show thesis by blast
        next
          case 2
          with ok that(2)[of p] show thesis by blast
        qed
      qed
    qed
  qed
qed



definition sample_sandbox :: sandbox_env where
  "sample_sandbox = \<lparr> se_resolve = (\<lambda>s. Some (''app'' # rel_parts s)), se_roots_env = None, se_other = [] \<rparr>"

lemma sample_write:
  "tl_success (snd (write_file sample_sandbox [([''app''], Directory)] [(''path'', PStr ''data/x''), (''content'', PStr ''hi'')]))"
  by code_simp


subsection \<open>What the checks let through\<close>

text \<open>The test for two dots compares with a text that keeps them: a plain path with dots is never refused by it.\<close>

lemma dots_pass_first_test: "path_text ''../../etc/passwd'' = ''../../etc/passwd''"
  by code_simp

text \<open>Names are compared with their case, and sensitive files can be read.\<close>

lemma upper_case_key_writable: "match_sensitive [''app'', ''SERVER.KEY''] = None"
  by code_simp

lemma secrets_readable:
  "snd (read_file sample_sandbox [([''app''], Directory), ([''app'', ''.env''], File ''k=1'')] [(''path'', PStr ''.env'')]) = tool_done (PStr ''k=1'')"
proof -
  have "resolve_and_validate sample_sandbox ''.env'' (get_allowed_roots sample_sandbox) False = Inr [''app'', ''.env'']" by code_simp
  then show ?thesis by (simp add: read_file_def text_input_def)
qed

subsection \<open>The registry\<close>

lemma filter_registry_exact:
  "dict_ok ts \<Longrightarrow> (\<And>n t. dict_get ts n = Some t \<Longrightarrow> to_name t = n) \<Longrightarrow>
   dict_get (filter_registry ts names) n = (if n \<in> set names then dict_get ts n else None)"
proof -
  assume own: "\<And>n t. dict_get ts n = Some t \<Longrightarrow> to_name t = n"
  have "dict_get (foldl (\<lambda>acc n. case dict_get ts n of None \<Rightarrow> acc | Some t \<Rightarrow> register_tool acc t) acc names) n =
      (if n \<in> set names \<and> dict_get ts n \<noteq> None then dict_get ts n else dict_get acc n)" for acc
    by (induction names arbitrary: acc) (auto simp: register_tool_def own split: option.split)
  then show ?thesis by (auto simp: filter_registry_def)
qed

end
