(* ===== verification/Spec2Isabelle.thy ===== *)
theory Spec2Isabelle
  imports Access_Control Task_Store Task_Api Event_Bus Checkpoint Rate_Limit Resource_Lock
    Memory_Graph Dataview_Exec Cost_Tracker Time_Handling LLM_Stream Resolver
    Metrics Group_Isolation Audit_Log Graph_Storage Redis_Limiter Server_Stack Webhook Input_Sanitizer Migration Backup
    Config_Manager Failure_Resume File_Tools
begin

text \<open>
  A model of the core of the multi-agent platform under \<open>src/src/agent_system\<close> (all paths below
  are relative to it). The platform accepts tasks over HTTP, runs them on agents, and keeps
  their records, their progress, and a graph of what the agents learnt; tenants, roles and
  sharing decide who sees what; limiters and locks guard the shared resources.

  Parts, in the order of the code that uses them:

  \<^item> \<open>Prelude\<close>, \<open>Py_Value\<close>, \<open>Py_Time\<close>: Python dictionaries (association lists in insertion order), texts,
    slices, dynamic values with Python's equality, ordering and truth value, decimal texts, dates
    and datetimes with zones.
  \<^item> \<open>Interfaces\<close>: the contracts between components as locales: a keyed store, a store with
    compare-and-swap updates, a window limiter, a lease service. Each is interpreted on the
    model's own definitions in the theory of the component that provides it.
  \<^item> \<open>Access_Control\<close>: \<open>core/access_control.py\<close> and \<open>core/auth/models.py\<close>: the read, write and
    delete decisions over tenants, roles, spaces, groups and shares; the role matrix.
  \<^item> \<open>Task_Store\<close>: \<open>storage/task_store.py\<close>, the in-memory store; a versioned update is a
    compare-and-swap.
  \<^item> \<open>Task_Api\<close>: \<open>api/routes/tasks.py\<close>: submit, get, list, progress, claim and hand off, each the
    whole handler with its refusals, over the store, the tracker, the access decision and the
    audit log. The agent run and the input validation are parameters.
  \<^item> \<open>Event_Bus\<close>: \<open>core/event_bus.py\<close>; a handler is a function on the rest of the program that may
    raise.
  \<^item> \<open>Checkpoint\<close>: \<open>core/failure_ux.py\<close>, \<open>core/checkpoint_tracker.py\<close>.
  \<^item> \<open>Rate_Limit\<close>, \<open>Redis_Limiter\<close>: \<open>core/rate_limit\<close> and the two limiters of \<open>core/security_middleware.py\<close>; the
    three sliding windows are interpretations of one contract.
  \<^item> \<open>Resource_Lock\<close>: \<open>concurrency/lock.py\<close>.
  \<^item> \<open>Graph_Search\<close>, \<open>Memory_Graph\<close>: breadth-first search and \<open>memory/graph.py\<close>.
  \<^item> \<open>Dataview_Parser\<close>, \<open>Dataview_Exec\<close>: \<open>core/dataview.py\<close>: tokenizer, parser, executor and query
    builder of the query language over the graph.

  \<^item> \<open>Quota\<close>, \<open>Cost_Tracker\<close>: \<open>core/quota.py\<close> and \<open>core/cost_tracker.py\<close>: the limits and the usage of a day at
    three levels, the waiting queues, the cost of model calls reported to the quota manager.
  \<^item> \<open>Time_Handling\<close>: \<open>core/time/handling.py\<close>: holidays, working hours, the next working moment.
  \<^item> \<open>Schema_Validation\<close>: \<open>core/schema.py\<close>: repair and validation of an agent's output, recorded in the graph.
  \<^item> \<open>Experience\<close>: \<open>memory/embeddings.py\<close> and \<open>memory/experience.py\<close>: the search for similar experiences and
    the hook that records a run in the graph.
  \<^item> \<open>Evaluator\<close>: \<open>core/evaluator.py\<close>: which way the resolution of a failure goes, with the experiences found.

  \<^item> \<open>LLM_Router\<close>, \<open>LLM_Stream\<close>: \<open>core/llm_router.py\<close>: prices, truncation, a call with its retries and its
    rounds of tools for both kinds of provider, the record in the cost tracker, and streams of events.
  \<^item> \<open>Provenance\<close>, \<open>Metrics\<close>: \<open>core/observability.py\<close>: where an output comes from; the nine metrics, each a
    query that is parsed and run; the tracer.
  \<^item> \<open>Agent_Registry\<close>, \<open>Discussion\<close>: \<open>core/registry.py\<close> and \<open>core/mixins/discussion.py\<close>: agents by name, and a
    round of advice among peers.
  \<^item> \<open>Agent_Execution\<close>, \<open>Resolver\<close>: \<open>core/agent.py\<close> and \<open>core/resolver.py\<close>: the retry loop of a run with
    validation, its events and its end, and the four ways a failure is resolved. The abstract life of a task
    is a relation on event names (\<open>life_step\<close>), which the run is shown to follow.
  \<^item> \<open>Token_Auth\<close>: \<open>core/auth/jwt.py\<close>, \<open>core/auth/context.py\<close> and \<open>api/routes/auth.py\<close>: key lists and the key ring,
    tokens, the request middleware with the context variables.
  \<^item> \<open>Group_Isolation\<close>: \<open>core/mixins/group_isolation.py\<close>: the memory graph under the context of a tenant.
  \<^item> \<open>Audit_Log\<close>: \<open>core/audit_logger.py\<close>, \<open>core/security.py\<close>, \<open>core/audit/query.py\<close> and \<open>api/routes/audit.py\<close>: the
    queue of entries and the files it is flushed to, the standard queries and the alerts.
  \<^item> \<open>Grouping\<close>, \<open>Graph_Storage\<close>: \<open>memory/persistence.py\<close>: the files of the graph, its saving and loading, the archive.
    \<open>Grouping\<close> holds the dictionaries of lists the two kinds of files share.
  \<^item> \<open>Regex\<close>, \<open>Input_Sanitizer\<close>: Python's regular expressions as the code uses them, matched in the order of its
    backtracking; \<open>core/security.py\<close>: the patterns for injections and sensitive words, the masks, the verdict on an input,
    and what it means for \<open>Task_Api\<close>.
  \<^item> \<open>Request_Guards\<close>, \<open>Transport_Guards\<close>, \<open>Prom_Metrics\<close>: \<open>core/security_middleware.py\<close>, \<open>core/metrics_middleware.py\<close>,
    \<open>core/security/tls.py\<close>, \<open>core/security/cors.py\<close> and \<open>observability/metrics.py\<close>: a middleware is a function from an application
    to an application. \<open>Server_Stack\<close>: \<open>api/server.py\<close>: the stack in the order the server builds it, with the middleware of
    \<open>Token_Auth\<close>, and the loading of the graph.
  \<^item> \<open>Webhook\<close>: \<open>api/routes/github_webhook.py\<close>: the memory of deliveries, the check of signatures, the queue of reviews.
  \<^item> \<open>Migration\<close>: \<open>migration/engine.py\<close>: copies of nodes from one tenant or group to another in the memory graph.
  \<^item> \<open>Backup\<close>: \<open>core/backup\<close>: snapshots, the archive with its manifest, retention, the schedule, and the restore.
  \<^item> \<open>Config_Manager\<close>: \<open>core/config/manager.py\<close>: the four layers of configuration.
  \<^item> \<open>Failure_Resume\<close>: \<open>core/notify.py\<close>: the inbox, and the offers to resume a task from its checkpoint.
  \<^item> \<open>File_Tools\<close>: \<open>tools/base.py\<close> and \<open>tools/file_tools.py\<close>: the registry of tools and the sandbox of the file tools.

  State is passed explicitly: an operation takes the state of its component (a record of the
  fields of the Python object) and returns the new one. The clock, random ids and the outcome
  of I/O are arguments. An exception is an error value of a sum type. Code that runs under a
  lock of the process is one step; what other callers do between two steps is a sequence of
  steps in the theorems about races (claims, leases, limiter checks).

  What the lemmas show: safety across tenants at the access decision and again at the
  endpoints; at most one winner of a race on a version; limiter decisions equal to a reference
  log, with bounds on what is admitted; exclusive leases; integrity of the graph's indexes
  under every sequence of operations, exact neighbour searches and shortest paths; a total
  parser that inverts printing; queries that return exactly the rows asked for, sorted and
  aggregated correctly, and every way a query can fail; a cost of the day within its limits and books
  that agree between the cost tracker and the quota manager; notifications at working time; outputs
  that are complete after one validation and unchanged by a second; a record of every run in the graph;
  and risky actions that always reach a human. The events of a run are a path of the abstract life of a task, and a
  resolution ends in an output, a request or an escalation; the tokens of a model call are booked once and on
  its task; a stream keeps its protocol; a token is accepted for whom it was issued and until it expires, and
  the context of a request ends with it; what is remembered for a tenant stays with it; the audit queue and its
  files implement the list of what was logged; alerts and metrics are the counts they claim to be; a graph that is
  saved is loaded as the same graph. The limiter on Redis decides as the reference does while the server answers; a request is
  answered by a guard or passes every one of them before it runs; a review is queued only for a signed and new delivery; an input that
  reaches an agent has passed the checks and the masks; a migration copies exactly what was selected; a restore writes what the
  backup copied, or nothing; the file tools stay under their roots. Where the code does not do what it says, a lemma after
  the properties of its component shows it on the model.

  Assumptions on packages are predicates (\<open>jwt_laws\<close> on the signature scheme, \<open>io_laws\<close> on the text of an audit
  entry, \<open>disk_laws\<close> on the texts of nodes and links, \<open>redis_laws\<close> on the commands of a Redis server, \<open>last_is_outermost\<close> on the framework's order of middlewares,
  \<open>sources_ok\<close> on the names of files); each theorem that has one comes with an instance.

  Fuel and bounds: the parser runs on fuel \<open>4 * n + 5\<close> for \<open>n\<close> tokens, proved to be enough. The
  searches end because the set of ids not yet seen shrinks. \<open>path\<close> gives up after 10000 visited
  ids as the code does, so its theorem asks for a graph of at most that many nodes.

  Idealised: a float is an exact rational (no rounding, infinities or NaN) and a text is ASCII.

  Not modelled: network, disk and database I/O (Postgres and SQLite back ends, gRPC, the CLI; of the audit files and of the graph's
  files the lines are modelled, of a backup the members of its archive), the model providers' SDKs, what each agent does in \<open>do_work\<close> and the
  tools other than those for files, custom agents (their code is loaded at run time), code generation, telemetry, the redaction of logs, and the
  cryptographic library behind the tokens, which is a parameter.
\<close>

end
